(* ===== verification/Prelude.thy ===== *)
theory Prelude
  imports Complex_Main "HOL-Library.Word" "HOL-Library.Signed_Division"
begin

text \<open>
  What every component of the model shares: the machine integers of the C++ code, ns-3's
  \<open>Time\<close>, the outcomes of a C++ call that may abort, double arithmetic with an
  explicit rounding function, the queues that are trimmed from the front, and the
  wrap-around comparison of sequence numbers that the code writes three times.
\<close>

section \<open>Machine integers, time, outcomes\<close>

type_synonym u8 = "8 word"
type_synonym u16 = "16 word"
type_synonym u32 = "32 word"
type_synonym u64 = "64 word"

text \<open>
  A \<open>Time\<close> of ns-3 is a signed count of nanoseconds. The accessors that read a
  coarser unit divide as C++ does, towards zero.
\<close>

type_synonym time = int

definition NanoPerUs :: int where "NanoPerUs = 1000"
definition NanoPerMs :: int where "NanoPerMs = 1000000"
definition NanoPerSec :: int where "NanoPerSec = 1000000000"

definition MicroSeconds :: "int \<Rightarrow> time" where "MicroSeconds n = n * NanoPerUs"
definition MilliSeconds :: "int \<Rightarrow> time" where "MilliSeconds n = n * NanoPerMs"
definition Seconds :: "int \<Rightarrow> time" where "Seconds n = n * NanoPerSec"

definition GetMicroSeconds :: "time \<Rightarrow> int" where "GetMicroSeconds t = t sdiv NanoPerUs"
definition GetMilliSeconds :: "time \<Rightarrow> int" where "GetMilliSeconds t = t sdiv NanoPerMs"

named_theorems time_defs
lemmas [time_defs] = MicroSeconds_def MilliSeconds_def Seconds_def NanoPerUs_def NanoPerMs_def
  NanoPerSec_def GetMicroSeconds_def GetMilliSeconds_def

text \<open>
  How a call can fail to return: a violated \<open>NS_ASSERT\<close> or \<open>assert\<close>, an
  \<open>NS_FATAL_ERROR\<close>, a null pointer dereferenced, or an operation whose behaviour the C++ standard leaves
  undefined (an element of an empty container, an invalidated iterator, a division by zero), an
  index that \<open>at ()\<close> rejects, or a loop that never ends.
\<close>

datatype cpp_error = AssertFailed | FatalError | NullDeref | UndefinedBehaviour | OutOfRange | Diverges

type_synonym 'a res = "cpp_error + 'a"

fun res_bind :: "'a res \<Rightarrow> ('a \<Rightarrow> 'b res) \<Rightarrow> 'b res" where
  "res_bind (Inl e) f = Inl e"
| "res_bind (Inr x) f = f x"

definition ns_assert :: "bool \<Rightarrow> 'a res \<Rightarrow> 'a res" where
  "ns_assert b k = (if b then k else Inl AssertFailed)"

lemma ns_assert_True [simp]: "ns_assert True k = k"
  by (simp add: ns_assert_def)

lemma ns_assert_False [simp]: "ns_assert False k = Inl AssertFailed"
  by (simp add: ns_assert_def)

lemma ns_assert_InrD: "ns_assert b k = Inr x \<Longrightarrow> b \<and> k = Inr x"
  by (simp add: ns_assert_def split: if_splits)

lemma res_bind_InrD: "res_bind m f = Inr y \<Longrightarrow> \<exists>x. m = Inr x \<and> f x = Inr y"
  by (cases m) auto

section \<open>Double arithmetic\<close>

text \<open>
  Every operation on doubles returns the rounding of the exact result. The rounding
  function \<open>fl\<close> is an argument of the definitions that compute with doubles; what the proofs
  use of it is in \<open>rounding_ok\<close>: it is monotone and does not move the integers below
  \<open>2 ^ 53\<close>, which every IEEE 754 rounding mode guarantees.
\<close>

type_synonym rounding = "rat \<Rightarrow> rat"

definition rounding_ok :: "rounding \<Rightarrow> bool" where
  "rounding_ok fl \<longleftrightarrow> (\<forall>x y. x \<le> y \<longrightarrow> fl x \<le> fl y) \<and>
     (\<forall>n::int. \<bar>n\<bar> \<le> 2 ^ 53 \<longrightarrow> fl (of_int n) = of_int n)"

lemma rounding_ok_id: "rounding_ok (\<lambda>x. x)"
  by (simp add: rounding_ok_def)

lemma rounding_mono: "rounding_ok fl \<Longrightarrow> x \<le> y \<Longrightarrow> fl x \<le> fl y"
  by (simp add: rounding_ok_def)

lemma rounding_int: "rounding_ok fl \<Longrightarrow> \<bar>n\<bar> \<le> 2 ^ 53 \<Longrightarrow> fl (of_int n) = of_int n"
  by (simp add: rounding_ok_def)

lemma rounding_zero: "rounding_ok fl \<Longrightarrow> fl 0 = 0"
  using rounding_int [of fl 0] by simp

lemma rounding_one: "rounding_ok fl \<Longrightarrow> fl 1 = 1"
  using rounding_int [of fl 1] by simp

lemma rounding_nonneg: "rounding_ok fl \<Longrightarrow> 0 \<le> x \<Longrightarrow> 0 \<le> fl x"
  using rounding_mono [of fl 0 x] by (simp add: rounding_zero)

lemma rounding_le_one: "rounding_ok fl \<Longrightarrow> x \<le> 1 \<Longrightarrow> fl x \<le> 1"
  using rounding_mono [of fl x 1] by (simp add: rounding_one)

text \<open>The conversion of a double to an integer type truncates towards zero.\<close>

definition trunc :: "rat \<Rightarrow> int" where
  "trunc x = (if 0 \<le> x then \<lfloor>x\<rfloor> else - \<lfloor>- x\<rfloor>)"

lemma trunc_of_int [simp]: "trunc (of_int n) = n"
  by (simp add: trunc_def)

lemma trunc_nonneg: "0 \<le> x \<Longrightarrow> 0 \<le> trunc x"
  by (simp add: trunc_def)

lemma trunc_mono: "0 \<le> x \<Longrightarrow> x \<le> y \<Longrightarrow> trunc x \<le> trunc y"
  by (simp add: trunc_def floor_mono)

text \<open>The conversion of a double or float to an unsigned integer type: what does not fit after truncation is undefined.\<close>

definition to_word :: "rat \<Rightarrow> 'a::len word res" where
  "to_word x = (if 0 \<le> trunc x \<and> trunc x < 2 ^ LENGTH('a) then Inr (word_of_int (trunc x))
     else Inl UndefinedBehaviour)"

lemma to_word_InrD: "to_word x = Inr (w :: 'a::len word) \<Longrightarrow> 0 \<le> trunc x \<and> uint w = trunc x"
  by (auto simp: to_word_def uint_word_of_int_eq take_bit_int_eq_self split: if_splits)

text \<open>\<open>round\<close>: to the nearest integer, halves away from zero.\<close>

definition round_away :: "rat \<Rightarrow> int" where
  "round_away x = (if 0 \<le> x then \<lfloor>x + 1 / 2\<rfloor> else - \<lfloor>- x + 1 / 2\<rfloor>)"

subsection \<open>The mathematics library\<close>

text \<open>\<open>sqrt\<close>, \<open>pow\<close> and \<open>exp\<close> of the C library are arguments of the definitions that call
  them, together with the roundings to float and to double.\<close>

record libm =
  lm_fs :: rounding
  lm_fd :: rounding
  lm_sqrt :: "rat \<Rightarrow> rat"
  lm_pow :: "rat \<Rightarrow> rat \<Rightarrow> rat"
  lm_exp :: "rat \<Rightarrow> rat"

abbreviation flt :: "libm \<Rightarrow> 'a::len word \<Rightarrow> rat" where
  "flt M w \<equiv> lm_fs M (of_int (uint w))"

abbreviation dbl64 :: "libm \<Rightarrow> int \<Rightarrow> rat" where
  "dbl64 M n \<equiv> lm_fd M (of_int n)"

subsection \<open>What is used of rounding to single precision and of the library\<close>

text \<open>Rounding to single precision is monotone and does not move the multiples of a power of two
  that have 24 bits. Rounding to double does so too.\<close>

definition float_ok :: "rounding \<Rightarrow> bool" where
  "float_ok f \<longleftrightarrow> (\<forall>x y. x \<le> y \<longrightarrow> f x \<le> f y) \<and>
     (\<forall>(n::int) k. \<bar>n\<bar> \<le> 2 ^ 24 \<longrightarrow> k \<le> 40 \<longrightarrow>
        f (of_int n * 2 ^ k) = of_int n * 2 ^ k \<and> f (of_int n / 2 ^ k) = of_int n / 2 ^ k)"

text \<open>\<open>pow\<close> of a base of at least 1 does not exceed the base up to the exponent 1.\<close>

definition libm_ok :: "libm \<Rightarrow> bool" where
  "libm_ok M \<longleftrightarrow> float_ok (lm_fs M) \<and> rounding_ok (lm_fd M) \<and>
     (\<forall>b x. 1 \<le> b \<longrightarrow> x \<le> 1 \<longrightarrow> lm_pow M b x \<le> b)"

definition plain_libm :: libm where
  "plain_libm = \<lparr>lm_fs = (\<lambda>x. x), lm_fd = (\<lambda>x. x), lm_sqrt = (\<lambda>x. x), lm_pow = (\<lambda>b x. b),
     lm_exp = (\<lambda>x. 1)\<rparr>"

lemma plain_libm_ok: "libm_ok plain_libm"
  by (simp add: libm_ok_def plain_libm_def float_ok_def rounding_ok_id)

lemma float_mono: "float_ok f \<Longrightarrow> x \<le> y \<Longrightarrow> f x \<le> f y"
  by (simp add: float_ok_def)

lemma float_int: "float_ok f \<Longrightarrow> \<bar>n\<bar> \<le> 2 ^ 24 \<Longrightarrow> f (of_int n) = of_int n"
  by (drule float_ok_def [THEN iffD1, THEN conjunct2, rule_format, of f n 0]) simp_all

lemma float_le: "float_ok f \<Longrightarrow> x \<le> of_int n * 2 ^ k \<Longrightarrow> \<bar>n\<bar> \<le> 2 ^ 24 \<Longrightarrow> k \<le> 40 \<Longrightarrow>
    f x \<le> of_int n * 2 ^ k"
  using float_mono [of f x "of_int n * 2 ^ k"] by (simp add: float_ok_def)

lemma float_le_frac: "float_ok f \<Longrightarrow> x \<le> of_int n / 2 ^ k \<Longrightarrow> \<bar>n\<bar> \<le> 2 ^ 24 \<Longrightarrow> k \<le> 40 \<Longrightarrow>
    f x \<le> of_int n / 2 ^ k"
  using float_mono [of f x "of_int n / 2 ^ k"] by (simp add: float_ok_def)

lemma float_ge_frac: "float_ok f \<Longrightarrow> of_int n / 2 ^ k \<le> x \<Longrightarrow> \<bar>n\<bar> \<le> 2 ^ 24 \<Longrightarrow> k \<le> 40 \<Longrightarrow>
    of_int n / 2 ^ k \<le> f x"
  using float_mono [of f "of_int n / 2 ^ k" x] by (simp add: float_ok_def)

lemma float_nonneg: "float_ok f \<Longrightarrow> 0 \<le> x \<Longrightarrow> 0 \<le> f x"
  using float_ge_frac [of f 0 0 x] by simp

section \<open>Widening and bounds of machine integers\<close>

lemma unat_lt:
  "unat (a :: u8) < 256" "unat (b :: u16) < 65536" "unat (c :: u32) < 4294967296"
  using unsigned_less [of a] unsigned_less [of b] unsigned_less [of c] by simp_all

lemma uint_lt:
  "uint (a :: u8) < 256" "uint (b :: u16) < 65536" "uint (c :: u32) < 4294967296"
  using uint_bounded [of a] uint_bounded [of b] uint_bounded [of c] by simp_all

lemma unat_widen [simp]:
  "unat (ucast (b :: u16) :: u32) = unat b" "unat (ucast (b :: u16) :: u64) = unat b"
  "unat (ucast (c :: u32) :: u64) = unat c"
  using unat_lt(2) [of b] unat_lt(3) [of c]
  by (simp_all add: unsigned_ucast_eq take_bit_nat_eq_self)

lemma uint_widen [simp]:
  "uint (ucast (b :: u16) :: u32) = uint b" "uint (ucast (b :: u16) :: u64) = uint b"
  "uint (ucast (c :: u32) :: u64) = uint c"
  using uint_lt(2) [of b] uint_lt(3) [of c]
  by (simp_all add: unsigned_ucast_eq take_bit_int_eq_self)

lemma ucast_narrow [simp]: "(ucast (ucast (b :: u16) :: u32) :: u16) = b"
  using uint_lt(2) [of b]
  by (simp add: word_uint_eq_iff unsigned_ucast_eq take_bit_int_eq_self take_bit_word_eq_self)

lemma unat_word_of_nat_16: "n < 65536 \<Longrightarrow> unat (word_of_nat n :: u16) = n"
  by (simp add: unat_of_nat)

lemma unat_word_of_nat_32: "n < 4294967296 \<Longrightarrow> unat (word_of_nat n :: u32) = n"
  by (simp add: unat_of_nat)

lemma uint_minus_le:
  fixes a b :: "'a::len word"
  shows "uint b \<le> uint a \<Longrightarrow> uint (a - b) = uint a - uint b"
  by (simp add: uint_minus_simple_alt [symmetric] word_le_def)

lemma uint_plus_lt:
  fixes a b :: "'a::len word"
  shows "uint a + uint b < 2 ^ LENGTH('a) \<Longrightarrow> uint (a + b) = uint a + uint b"
  unfolding uint_word_ariths(1) by (intro mod_pos_pos_trivial) simp_all

section \<open>Queues trimmed from the front\<close>

text \<open>
  The loop \<open>while (!q.empty()) if (old(q.front())) q.pop_front(); else break;\<close> and its
  variant that appends what it pops to a second queue. A deque is the list of its elements, front
  first.
\<close>

fun pop_while :: "('a \<Rightarrow> bool) \<Rightarrow> 'a list \<Rightarrow> 'a list" where
  "pop_while old [] = []"
| "pop_while old (x # q) = (if old x then pop_while old q else x # q)"

fun move_while :: "('a \<Rightarrow> bool) \<Rightarrow> 'a list \<Rightarrow> 'a list \<Rightarrow> 'a list \<times> 'a list" where
  "move_while old [] sink = ([], sink)"
| "move_while old (x # q) sink =
     (if old x then move_while old q (sink @ [x]) else (x # q, sink))"

lemma pop_while_dropWhile: "pop_while old q = dropWhile old q"
  by (induction q) auto

lemma move_while_eq: "move_while old q sink = (dropWhile old q, sink @ takeWhile old q)"
  by (induction q arbitrary: sink) auto

lemma list_all_dropWhile: "list_all P xs \<Longrightarrow> list_all P (dropWhile Q xs)"
  by (meson list_all_iff set_dropWhileD)

lemma set_pop_while: "set (pop_while old q) \<subseteq> set q"
  using set_dropWhileD by (fastforce simp: pop_while_dropWhile)

lemma length_pop_while: "length (pop_while old q) \<le> length q"
  by (simp add: pop_while_dropWhile length_dropWhile_le)

text \<open>
  When the queue is sorted by age, trimming the front leaves exactly the young elements: the
  early exit of the loop loses nothing.
\<close>

lemma pop_while_sorted:
  assumes "sorted_wrt (\<lambda>x y. old y \<longrightarrow> old x) q"
  shows "pop_while old q = filter (\<lambda>x. \<not> old x) q"
  using assms by (induction q) (auto simp: filter_id_conv)

text \<open>\<open>while (q.size() > n) q.pop_front();\<close>\<close>

definition keep_last :: "nat \<Rightarrow> 'a list \<Rightarrow> 'a list" where
  "keep_last n q = drop (length q - n) q"

lemma length_keep_last: "length (keep_last n q) = min n (length q)"
  by (simp add: keep_last_def)

lemma set_keep_last: "set (keep_last n q) \<subseteq> set q"
  by (simp add: keep_last_def set_drop_subset)

section \<open>Comparison of sequence numbers that wrap\<close>

text \<open>
  \<open>lessThan_simple\<close> of the UDP receiver (16 bits), \<open>lessThan_64\<close> of
  \<open>utils.h\<close> (64 bits) and the template \<open>lessThan\<close> of the congestion controllers are
  one function at different widths: compare the two wrapped differences.
\<close>

definition lessThan :: "'a::len word \<Rightarrow> 'a word \<Rightarrow> bool" where
  "lessThan lhs rhs = (let noWrapSubtract = rhs - lhs; wrapSubtract = lhs - rhs
     in noWrapSubtract < wrapSubtract)"

lemma uint_minus_swap:
  fixes a b :: "'a::len word"
  assumes "a \<noteq> b"
  shows "uint (a - b) = 2 ^ LENGTH('a) - uint (b - a)"
proof -
  have "a - b = - (b - a)" and "b - a \<noteq> 0"
    using assms by auto
  then show ?thesis
    by (metis uint_word_ariths(4) uint_0_iff zmod_zminus1_eq_if
        mod_pos_pos_trivial uint_bounded uint_ge_0)
qed

text \<open>
  The comparison holds exactly when going forward from \<open>lhs\<close> to \<open>rhs\<close> takes more than
  zero and less than half of the number space.
\<close>

lemma lessThan_iff:
  fixes a b :: "'a::len word"
  shows "lessThan a b \<longleftrightarrow> 0 < uint (b - a) \<and> 2 * uint (b - a) < 2 ^ LENGTH('a)"
proof (cases "a = b")
  case True
  then show ?thesis by (simp add: lessThan_def)
next
  case False
  then have "0 < uint (b - a)"
    by (simp add: word_gt_0 [unfolded word_less_def, simplified])
  moreover have "lessThan a b \<longleftrightarrow> uint (b - a) < uint (a - b)"
    by (simp add: lessThan_def Let_def word_less_def)
  ultimately show ?thesis
    using uint_minus_swap [OF False] by linarith
qed

lemma lessThan_irrefl [simp]: "\<not> lessThan a a"
  by (simp add: lessThan_iff)

lemma lessThan_asym: "lessThan a b \<Longrightarrow> \<not> lessThan b a"
  by (simp add: lessThan_def Let_def)

lemma lessThan_neq: "lessThan a b \<Longrightarrow> a \<noteq> b"
  by auto

lemma half_sum:
  fixes x y n :: int
  shows "0 \<le> x \<Longrightarrow> 0 \<le> y \<Longrightarrow> 2 * (x + y) < n \<Longrightarrow> x + y < n"
  by presburger

text \<open>Adding the distances: transitivity as long as the total stays below half the space.\<close>

lemma lessThan_trans:
  fixes a b c :: "'a::len word"
  assumes ab: "lessThan a b" and bc: "lessThan b c"
    and half: "2 * (uint (b - a) + uint (c - b)) < 2 ^ LENGTH('a)"
  shows "lessThan a c"
proof -
  have "uint (c - a) = uint ((b - a) + (c - b))" by simp
  also have "\<dots> = (uint (b - a) + uint (c - b)) mod 2 ^ LENGTH('a)"
    by (rule uint_word_ariths(1))
  also have "\<dots> = uint (b - a) + uint (c - b)"
    using half by (intro mod_pos_pos_trivial half_sum add_nonneg_nonneg uint_ge_0)
  finally show ?thesis using ab bc half by (simp add: lessThan_iff)
qed

lemma lessThan_total:
  fixes a b :: "'a::len word"
  assumes "a \<noteq> b" "2 * uint (b - a) \<noteq> 2 ^ LENGTH('a)"
  shows "lessThan a b \<or> lessThan b a"
proof -
  have "b - a \<noteq> a - b"
  proof
    assume "b - a = a - b"
    then have "uint (b - a) = uint (a - b)" by (rule arg_cong)
    with uint_minus_swap [OF assms(1)] have "2 * uint (b - a) = 2 ^ LENGTH('a)" by linarith
    with assms(2) show False ..
  qed
  then consider "b - a < a - b" | "a - b < b - a" by (rule linorder_neqE)
  then show ?thesis by cases (simp_all only: lessThan_def Let_def simp_thms)
qed

lemma not_lessThan_dist:
  fixes a b :: "'a::len word"
  assumes "\<not> lessThan a b" "a \<noteq> b"
  shows "2 ^ LENGTH('a) \<le> 2 * uint (b - a)"
proof -
  have "uint (b - a) \<noteq> 0" using assms(2) by (simp add: uint_0_iff)
  then have "0 < uint (b - a)" using uint_ge_0 [of "b - a"] by (rule order.not_eq_order_implies_strict [OF not_sym])
  with assms(1) show ?thesis by (simp add: lessThan_iff not_less)
qed

section \<open>Distances of 16-bit sequence numbers\<close>

text \<open>A sequence number is placed by how far it lies behind the last one sent.\<close>

abbreviation behind :: "u16 \<Rightarrow> u16 \<Rightarrow> int" where
  "behind l a \<equiv> uint (l - a)"

lemma uint_diff_behind:
  fixes l a b :: u16
  shows "uint (b - a) = (behind l a - behind l b) mod 65536"
proof -
  have "b - a = (l - a) - (l - b)" by simp
  then have "uint (b - a) = uint ((l - a) - (l - b))" by (rule arg_cong)
  also have "\<dots> = (behind l a - behind l b) mod 65536"
    unfolding uint_word_ariths(2) by simp
  finally show ?thesis .
qed

lemma lessThan_behind:
  fixes l a b :: u16
  assumes a: "behind l a < 32768" and b: "behind l b \<le> 32768"
  shows "lessThan a b \<longleftrightarrow> behind l b < behind l a"
proof (cases "behind l b \<le> behind l a")
  case True
  then have "uint (b - a) = behind l a - behind l b"
    unfolding uint_diff_behind [of b a l] using a uint_ge_0 [of "l - b"] by (intro mod_pos_pos_trivial) linarith+
  moreover have "behind l a - behind l b < 32768" using a uint_ge_0 [of "l - b"] by linarith
  ultimately show ?thesis by (simp add: lessThan_iff)
next
  case False
  have "(behind l a - behind l b) mod 65536 = (behind l a - behind l b + 65536) mod 65536"
    by simp
  also have "\<dots> = behind l a - behind l b + 65536"
    using False b uint_ge_0 [of "l - a"] by (intro mod_pos_pos_trivial) linarith+
  finally have "uint (b - a) = behind l a - behind l b + 65536"
    unfolding uint_diff_behind [of b a l] .
  moreover have "32768 \<le> behind l a - behind l b + 65536"
    using b uint_ge_0 [of "l - a"] by linarith
  ultimately show ?thesis using False by (simp add: lessThan_iff)
qed

lemma behind_less:
  fixes l a b :: u16
  assumes a: "behind l a < 32768" and b: "behind l b \<le> 32768" and "behind l a < behind l b"
    "behind l b - behind l a < 32768"
  shows "lessThan b a"
proof -
  have "uint (a - b) = behind l b - behind l a"
    unfolding uint_diff_behind [of a b l] using assms uint_ge_0 [of "l - a"]
    by (intro mod_pos_pos_trivial) linarith+
  then show ?thesis using assms by (simp add: lessThan_iff)
qed

lemma behind_inj: "behind l a = behind l b \<Longrightarrow> a = b"
  by (simp add: word_uint_eq_iff [symmetric])

lemma not_lessThan_behind:
  fixes l b :: u16
  assumes "\<not> lessThan l b"
  shows "behind l b \<le> 32768"
proof (cases "l = b")
  case False
  with assms have "32768 \<le> uint (b - l)"
    using not_lessThan_dist [of l b] by simp
  then show ?thesis using uint_minus_swap [of b l] False by simp
qed simp

lemma behind_succ:
  fixes l a :: u16
  assumes "behind l a < 65535"
  shows "behind (l + 1) a = behind l a + 1"
proof -
  have "uint (l + 1 - a) = uint ((l - a) + 1)" by (simp add: algebra_simps)
  also have "\<dots> = (behind l a + 1) mod 65536" unfolding uint_word_ariths(1) by simp
  also have "\<dots> = behind l a + 1"
    using assms uint_ge_0 [of "l - a"] by (intro mod_pos_pos_trivial) linarith+
  finally show ?thesis .
qed

end
