(* ===== verification/Delta_Delay.thy ===== *)
theory Delta_Delay
  imports Prelude
begin

text \<open>
  \<open>DeltaDelay\<close> (\<open>src/zhuge/model/delta-delay.h\<close> and \<open>.cc\<close>): the component of Zhuge's
  Feedback Updater that turns the changes of the estimated downlink delay into delays of the
  ACKs. Increases are kept as deltas, decreases as tokens that later deltas have to pay off;
  both are forgotten after 40 ms. The random index comes from ns-3's
  \<open>UniformRandomVariable\<close>, the product of a \<open>Time\<close> and a double from ns-3's
  \<open>Time\<close>: both are arguments.
\<close>

section \<open>State and operations\<close>

type_synonym stamped = "time \<times> time"

record delta_delay =
  m_historyDeltas :: "stamped list"
  m_historyTokens :: "stamped list"
  m_lastwndPkt :: "stamped list"
  m_PopTokens :: "stamped list"
  m_historyLen :: time
  m_delayToken :: time

text \<open>
  What the simulator provides: rounding of doubles and the product of a double and a
  \<open>Time\<close>.
\<close>

record sim_env =
  fl :: rounding
  time_scale :: "rat \<Rightarrow> time \<Rightarrow> time"

definition env_ok :: "sim_env \<Rightarrow> bool" where
  "env_ok env \<longleftrightarrow> rounding_ok (fl env) \<and>
     (\<forall>q t. 0 \<le> q \<and> q \<le> 1 \<and> 0 \<le> t \<longrightarrow> 0 \<le> time_scale env q t \<and> time_scale env q t \<le> t)"

text \<open>The documented contract of \<open>GetInteger (0, n)\<close>: a value between the two bounds.\<close>

definition rnd_ok :: "(nat \<Rightarrow> nat) \<Rightarrow> bool" where
  "rnd_ok rnd \<longleftrightarrow> (\<forall>n. rnd n \<le> n)"

definition DeltaDelay_new :: delta_delay where
  "DeltaDelay_new = \<lparr>m_historyDeltas = [], m_historyTokens = [], m_lastwndPkt = [],
     m_PopTokens = [], m_historyLen = MilliSeconds 40, m_delayToken = Seconds 0\<rparr>"

definition aged :: "time \<Rightarrow> time \<Rightarrow> stamped \<Rightarrow> bool" where
  "aged now len p \<longleftrightarrow> now - fst p > len"

definition ClearAgedDeltas :: "time \<Rightarrow> delta_delay \<Rightarrow> delta_delay" where
  "ClearAgedDeltas now d =
     (let (q, w) = move_while (aged now (m_historyLen d)) (m_historyDeltas d) (m_lastwndPkt d)
      in d\<lparr>m_historyDeltas := q, m_lastwndPkt := w\<rparr>)"

definition ClearAgedTokens :: "time \<Rightarrow> delta_delay \<Rightarrow> delta_delay" where
  "ClearAgedTokens now d =
     (let (q, w) = move_while (aged now (m_historyLen d)) (m_historyTokens d) (m_lastwndPkt d)
      in d\<lparr>m_historyTokens := q, m_lastwndPkt := w\<rparr>)"

definition ClearAgedPopTokens :: "time \<Rightarrow> delta_delay \<Rightarrow> delta_delay" where
  "ClearAgedPopTokens now d =
     (let (q, w) = move_while (aged now (m_historyLen d)) (m_PopTokens d) (m_lastwndPkt d)
      in d\<lparr>m_PopTokens := q, m_lastwndPkt := w\<rparr>)"

definition ClearAgedLastwndPkt :: "time \<Rightarrow> delta_delay \<Rightarrow> delta_delay" where
  "ClearAgedLastwndPkt now d =
     d\<lparr>m_lastwndPkt := pop_while (aged now (2 * m_historyLen d)) (m_lastwndPkt d)\<rparr>"

text \<open>The four calls that open both \<open>SampleDeltaDelay\<close> and \<open>AddDeltaDelay\<close>.\<close>

definition clear_aged :: "time \<Rightarrow> delta_delay \<Rightarrow> delta_delay" where
  "clear_aged now d =
     ClearAgedLastwndPkt now (ClearAgedPopTokens now (ClearAgedTokens now (ClearAgedDeltas now d)))"

text \<open>
  The loop over \<open>m_historyTokens\<close>: a token smaller than what is left of the delay is used up
  and moves to \<open>m_PopTokens\<close>; the first token that is large enough is reduced in place and ends
  the loop.
\<close>

fun consume_tokens ::
  "stamped list \<Rightarrow> stamped list \<Rightarrow> time \<Rightarrow> stamped list \<times> stamped list \<times> time" where
  "consume_tokens [] popped res = ([], popped, res)"
| "consume_tokens (p # q) popped res =
     (if snd p < res then consume_tokens q (popped @ [p]) (res - snd p)
      else ((fst p, snd p - res) # q, popped, 0))"

definition SampleDeltaDelay ::
  "sim_env \<Rightarrow> (nat \<Rightarrow> nat) \<Rightarrow> time \<Rightarrow> time \<Rightarrow> delta_delay \<Rightarrow> (time \<times> delta_delay) res" where
  "SampleDeltaDelay env rnd now minDeltaDelay d0 =
     (let d = clear_aged now d0; hist = m_historyDeltas d in
      if hist = [] then Inr (minDeltaDelay, d)
      else
        let i = rnd (length hist - 1) in
        if length hist \<le> i then Inl UndefinedBehaviour
        else
          let sampled = snd (hist ! i);
              res0 = (if sampled < minDeltaDelay then minDeltaDelay else sampled);
              (tokens, popped, res1) = consume_tokens (m_historyTokens d) (m_PopTokens d) res0;
              d' = d\<lparr>m_historyTokens := tokens, m_PopTokens := popped\<rparr>;
              n = length popped + length tokens + length hist;
              w = length (m_lastwndPkt d);
              res2 = (if w > n
                then time_scale env (fl env (of_nat n / of_nat w)) res1 else res1)
          in ns_assert (res2 \<le> MilliSeconds 10) (Inr (res2, d')))"

definition AddDeltaDelay :: "time \<Rightarrow> time \<Rightarrow> delta_delay \<Rightarrow> delta_delay" where
  "AddDeltaDelay now deltaDelay d0 =
     (let d = clear_aged now d0 in
      if deltaDelay > MicroSeconds (-1)
      then d\<lparr>m_historyDeltas := m_historyDeltas d @ [(now, min (MilliSeconds 10) deltaDelay)]\<rparr>
      else d\<lparr>m_historyTokens :=
        m_historyTokens d @ [(now, min (MilliSeconds 10) (-1 * deltaDelay))]\<rparr>)"

definition Reset :: "delta_delay \<Rightarrow> delta_delay" where
  "Reset d = d\<lparr>m_historyDeltas := [], m_historyTokens := []\<rparr>"

definition ConsumeToken :: "time \<Rightarrow> delta_delay \<Rightarrow> delta_delay" where
  "ConsumeToken consume d = d\<lparr>m_delayToken := max (m_delayToken d - consume) (Seconds 0)\<rparr>"

section \<open>The invariant\<close>

text \<open>
  Every stored delta and token is between 0 and 10 ms; the entries of each history are in
  order of their time stamps, the tokens that were used up before those that remain.
\<close>

definition in_range :: "stamped \<Rightarrow> bool" where
  "in_range p \<longleftrightarrow> 0 \<le> snd p \<and> snd p \<le> MilliSeconds 10"

definition dd_inv :: "delta_delay \<Rightarrow> bool" where
  "dd_inv d \<longleftrightarrow> list_all in_range (m_historyDeltas d) \<and> list_all in_range (m_historyTokens d) \<and>
     sorted (map fst (m_historyDeltas d)) \<and>
     sorted (map fst (m_PopTokens d @ m_historyTokens d))"

text \<open>No entry is from the future.\<close>

definition dd_before :: "time \<Rightarrow> delta_delay \<Rightarrow> bool" where
  "dd_before now d \<longleftrightarrow> list_all (\<lambda>p. fst p \<le> now)
     (m_historyDeltas d @ m_PopTokens d @ m_historyTokens d)"

lemma dd_before_stamps:
  "dd_before now d \<longleftrightarrow> list_all (\<lambda>x. x \<le> now) (map fst (m_historyDeltas d)) \<and>
     list_all (\<lambda>x. x \<le> now) (map fst (m_PopTokens d @ m_historyTokens d))"
  by (auto simp: dd_before_def list_all_iff)

lemma dd_before_mono: "dd_before t d \<Longrightarrow> t \<le> t' \<Longrightarrow> dd_before t' d"
  by (simp add: dd_before_stamps list_all_iff) (meson order_trans)

lemma clear_aged_simps:
  "m_historyDeltas (clear_aged now d) = dropWhile (aged now (m_historyLen d)) (m_historyDeltas d)"
  "m_historyTokens (clear_aged now d) = dropWhile (aged now (m_historyLen d)) (m_historyTokens d)"
  "m_PopTokens (clear_aged now d) = dropWhile (aged now (m_historyLen d)) (m_PopTokens d)"
  "m_historyLen (clear_aged now d) = m_historyLen d"
  "m_delayToken (clear_aged now d) = m_delayToken d"
  by (simp_all add: clear_aged_def ClearAgedDeltas_def ClearAgedTokens_def ClearAgedPopTokens_def
      ClearAgedLastwndPkt_def move_while_eq Let_def)

lemma sorted_map_dropWhile: "sorted (map f xs) \<Longrightarrow> sorted (map f (dropWhile Q xs))"
  by (induction xs) auto

lemma dropWhile_append_dropWhile:
  "sorted (map f (xs @ ys)) \<Longrightarrow> sorted (map f (dropWhile P xs @ dropWhile Q ys))"
  by (auto simp: sorted_append sorted_map_dropWhile dest: set_dropWhileD)

lemma clear_aged_inv: "dd_inv d \<Longrightarrow> dd_inv (clear_aged now d)"
  unfolding dd_inv_def clear_aged_simps
  by (intro conjI list_all_dropWhile sorted_map_dropWhile dropWhile_append_dropWhile) simp_all

lemma clear_aged_before: "dd_before t d \<Longrightarrow> dd_before t (clear_aged now d)"
  by (simp add: dd_before_def clear_aged_simps list_all_dropWhile)


section \<open>The token loop\<close>

abbreviation total :: "stamped list \<Rightarrow> time" where
  "total q \<equiv> sum_list (map snd q)"

lemma total_nonneg: "list_all in_range q \<Longrightarrow> 0 \<le> total q"
  by (induction q) (auto simp: in_range_def)

lemma consume_tokens_balance:
  assumes "list_all in_range q" "0 \<le> res" "consume_tokens q popped res = (q', popped', res')"
  shows "res' = max 0 (res - total q) \<and> total q' = max 0 (total q - res)"
  using assms
proof (induction q popped res rule: consume_tokens.induct)
  case (1 popped res)
  then show ?case by auto
next
  case (2 p q popped res)
  then have nn: "0 \<le> total q" by (simp add: total_nonneg)
  show ?case
  proof (cases "snd p < res")
    case True
    with 2 have "res' = max 0 (res - snd p - total q) \<and> total q' = max 0 (total q - (res - snd p))"
      by simp
    with True nn show ?thesis by (simp add: algebra_simps)
  next
    case False
    with 2 nn show ?thesis by auto
  qed
qed

lemma consume_tokens_stamps:
  "consume_tokens q popped res = (q', popped', res') \<Longrightarrow>
   map fst (popped' @ q') = map fst (popped @ q)"
  by (induction q popped res rule: consume_tokens.induct) (auto split: if_splits)

lemma consume_tokens_range:
  "list_all in_range q \<Longrightarrow> 0 \<le> res \<Longrightarrow> consume_tokens q popped res = (q', popped', res') \<Longrightarrow>
   list_all in_range q'"
  by (induction q popped res rule: consume_tokens.induct)
    (auto simp: in_range_def split: if_splits)

lemma consume_tokens_count:
  "consume_tokens q popped res = (q', popped', res') \<Longrightarrow>
   length popped' + length q' = length popped + length q"
  by (drule consume_tokens_stamps) (metis length_append length_map)

section \<open>What the operations promise\<close>

text \<open>The changes of a delay that is counted in whole microseconds.\<close>

definition whole_us :: "time \<Rightarrow> bool" where
  "whole_us delta \<longleftrightarrow> 0 \<le> delta \<or> delta \<le> MicroSeconds (-1)"

lemma whole_us_ms [simp]: "whole_us (MilliSeconds n)"
  by (auto simp: whole_us_def time_defs)

lemma DeltaDelay_new_inv: "dd_inv DeltaDelay_new"
  by (simp add: dd_inv_def DeltaDelay_new_def)

lemma DeltaDelay_new_before: "dd_before t DeltaDelay_new"
  by (simp add: dd_before_def DeltaDelay_new_def)

lemma sorted_snoc_before:
  "sorted (map fst q) \<Longrightarrow> list_all (\<lambda>p. fst p \<le> now) q \<Longrightarrow> sorted (map fst (q @ [(now, x)]))"
  for q :: "stamped list"
  by (auto simp: sorted_append list_all_iff)

lemma AddDeltaDelay_inv:
  assumes "dd_inv d" "dd_before now d" "whole_us delta"
  shows "dd_inv (AddDeltaDelay now delta d) \<and> dd_before now (AddDeltaDelay now delta d)"
proof -
  let ?d = "clear_aged now d"
  have inv: "dd_inv ?d" and bef: "dd_before now ?d"
    using assms by (simp_all add: clear_aged_inv clear_aged_before)
  show ?thesis
  proof (cases "delta > MicroSeconds (-1)")
    case True
    with assms(3) have "in_range (now, min (MilliSeconds 10) delta)"
      by (auto simp: in_range_def whole_us_def time_defs)
    with True inv bef show ?thesis
      using sorted_snoc_before [of "m_historyDeltas ?d" now]
      by (simp add: AddDeltaDelay_def Let_def dd_inv_def dd_before_def)
  next
    case False
    then have "in_range (now, min (MilliSeconds 10) (-1 * delta))"
      by (auto simp: in_range_def time_defs)
    with False inv bef show ?thesis
      using sorted_snoc_before [of "m_PopTokens ?d @ m_historyTokens ?d" now]
      by (simp add: AddDeltaDelay_def Let_def dd_inv_def dd_before_def)
  qed
qed

text \<open>
  One call of \<open>SampleDeltaDelay\<close> on a non-empty history, with the intermediate values of the
  body named.
\<close>

lemma rnd_index: "rnd_ok rnd \<Longrightarrow> xs \<noteq> [] \<Longrightarrow> rnd (length xs - 1) < length xs"
  by (metis diff_less le_less_trans length_greater_0_conv rnd_ok_def zero_less_one)

lemma Sample_nonempty:
  assumes d: "clear_aged now d0 = d" and ne: "m_historyDeltas d \<noteq> []" and rnd: "rnd_ok rnd"
    and res0: "max (snd (m_historyDeltas d ! rnd (length (m_historyDeltas d) - 1))) m = res0"
    and loop: "consume_tokens (m_historyTokens d) (m_PopTokens d) res0 = (q, p, r1)"
    and n: "length (m_PopTokens d) + length (m_historyTokens d) + length (m_historyDeltas d) = n"
    and r: "(if length (m_lastwndPkt d) > n
      then time_scale env (fl env (of_nat n / of_nat (length (m_lastwndPkt d)))) r1 else r1) = r"
  shows "SampleDeltaDelay env rnd now m d0 = ns_assert (r \<le> MilliSeconds 10)
    (Inr (r, d\<lparr>m_historyTokens := q, m_PopTokens := p\<rparr>))"
proof -
  have idx: "\<not> length (m_historyDeltas d) \<le> rnd (length (m_historyDeltas d) - 1)"
    using rnd_index [OF rnd ne] by simp
  have cnt: "length p + length q + length (m_historyDeltas d) = n"
    using consume_tokens_count [OF loop] n by simp
  have mx: "(if x < m then m else x) = max x m" for x :: int by simp
  show ?thesis
    unfolding SampleDeltaDelay_def Let_def d if_not_P [OF ne] if_not_P [OF idx] mx res0 loop
      prod.case cnt r ..
qed

lemma Sample_sampled_range:
  assumes "dd_inv d" "m_historyDeltas d \<noteq> []" "rnd_ok rnd"
  shows "in_range (m_historyDeltas d ! rnd (length (m_historyDeltas d) - 1))"
  using assms rnd_index [of rnd "m_historyDeltas d"] by (simp add: dd_inv_def list_all_length)

lemma scale_bounds:
  assumes "env_ok env" "0 \<le> t" "n < (w::nat)"
  shows "0 \<le> time_scale env (fl env (of_nat n / of_nat w)) t \<and>
    time_scale env (fl env (of_nat n / of_nat w)) t \<le> t"
proof -
  have ok: "rounding_ok (fl env)" using assms(1) by (simp add: env_ok_def)
  have "0 \<le> (of_nat n / of_nat w :: rat)" "(of_nat n / of_nat w :: rat) \<le> 1"
    using assms(3) by (simp_all add: divide_le_eq_1)
  then have "0 \<le> fl env (of_nat n / of_nat w)" "fl env (of_nat n / of_nat w) \<le> 1"
    by (simp_all add: rounding_nonneg [OF ok] rounding_le_one [OF ok])
  with assms(1,2) show ?thesis by (simp add: env_ok_def)
qed


lemma Sample_result:
  assumes env: "env_ok env" and rnd: "rnd_ok rnd" and inv: "dd_inv d0" and m: "m \<le> MilliSeconds 10"
  shows "\<exists>r d'. SampleDeltaDelay env rnd now m d0 = Inr (r, d') \<and> dd_inv d' \<and>
    (dd_before t d0 \<longrightarrow> dd_before t d') \<and> min 0 m \<le> r \<and> r \<le> MilliSeconds 10"
proof -
  let ?d = "clear_aged now d0"
  have inv': "dd_inv ?d" using inv by (rule clear_aged_inv)
  show ?thesis
  proof (cases "m_historyDeltas ?d = []")
    case True
    with m inv' clear_aged_before show ?thesis
      by (auto simp: SampleDeltaDelay_def Let_def)
  next
    case False
    define s where "s = max (snd (m_historyDeltas ?d ! rnd (length (m_historyDeltas ?d) - 1))) m"
    have s: "0 \<le> s" "s \<le> MilliSeconds 10"
      using Sample_sampled_range [OF inv' False rnd] m by (auto simp: s_def in_range_def)
    obtain q p r1 where loop: "consume_tokens (m_historyTokens ?d) (m_PopTokens ?d) s = (q, p, r1)"
      by (metis prod_cases3)
    have toks: "list_all in_range (m_historyTokens ?d)" using inv' by (simp add: dd_inv_def)
    have r1: "0 \<le> r1" "r1 \<le> s"
      using consume_tokens_balance [OF toks s(1) loop] total_nonneg [OF toks] s(1) by auto
    define n where "n = length (m_PopTokens ?d) + length (m_historyTokens ?d)
      + length (m_historyDeltas ?d)"
    define r where "r = (if length (m_lastwndPkt ?d) > n
      then time_scale env (fl env (of_nat n / of_nat (length (m_lastwndPkt ?d)))) r1 else r1)"
    have r: "0 \<le> r" "r \<le> MilliSeconds 10"
      using scale_bounds [OF env r1(1), of n "length (m_lastwndPkt ?d)"] r1 s by (auto simp: r_def)
    let ?d' = "?d\<lparr>m_historyTokens := q, m_PopTokens := p\<rparr>"
    have eq: "SampleDeltaDelay env rnd now m d0 = Inr (r, ?d')"
      using Sample_nonempty [OF refl False rnd s_def [symmetric] loop n_def [symmetric]
          r_def [symmetric]] r(2) by simp
    have stamps: "map fst (p @ q) = map fst (m_PopTokens ?d @ m_historyTokens ?d)"
      using loop by (rule consume_tokens_stamps)
    then have "dd_inv ?d'"
      using inv' consume_tokens_range [OF toks s(1) loop] by (simp add: dd_inv_def)
    moreover have "dd_before t ?d'" if "dd_before t d0"
    proof -
      have "dd_before t ?d" using that by (rule clear_aged_before)
      then show ?thesis unfolding dd_before_stamps using stamps by simp
    qed
    moreover have "min 0 m \<le> r" using r(1) by simp
    ultimately show ?thesis using eq r(2) by blast
  qed
qed

section \<open>The interface the ACK pacing relies on\<close>

text \<open>
  What \<open>NetworkQueueZhuge\<close> needs of its source of extra delay: a sample below an upper bound
  that is never less than the (non-positive) minimum asked for, and that the operations keep the
  source well formed. \<open>invar now d\<close> reads: \<open>d\<close> is well formed and holds nothing later than
  \<open>now\<close>.
\<close>

locale delay_source =
  fixes invar :: "time \<Rightarrow> 'd \<Rightarrow> bool"
    and sample :: "(nat \<Rightarrow> nat) \<Rightarrow> time \<Rightarrow> time \<Rightarrow> 'd \<Rightarrow> (time \<times> 'd) res"
    and add :: "time \<Rightarrow> time \<Rightarrow> 'd \<Rightarrow> 'd"
    and addable :: "time \<Rightarrow> bool"
    and cap :: time
  assumes invar_mono: "invar t d \<Longrightarrow> t \<le> t' \<Longrightarrow> invar t' d"
    and sample_ok: "invar now d \<Longrightarrow> rnd_ok rnd \<Longrightarrow> m \<le> 0 \<Longrightarrow>
      \<exists>r d'. sample rnd now m d = Inr (r, d') \<and> invar now d' \<and> m \<le> r \<and> r \<le> cap"
    and add_ok: "invar now d \<Longrightarrow> addable x \<Longrightarrow> invar now (add now x d)"
begin

lemma sample_result:
  assumes "invar now d" "rnd_ok rnd" "m \<le> 0" "sample rnd now m d = Inr (r, d')"
  shows "invar now d' \<and> m \<le> r \<and> r \<le> cap"
  using sample_ok [OF assms(1-3)] assms(4) by auto

end

definition dd_wf :: "sim_env \<Rightarrow> time \<Rightarrow> delta_delay \<Rightarrow> bool" where
  "dd_wf env now d \<longleftrightarrow> env_ok env \<and> dd_inv d \<and> dd_before now d"

lemma dd_wf_new: "env_ok env \<Longrightarrow> dd_wf env now DeltaDelay_new"
  by (simp add: dd_wf_def DeltaDelay_new_inv DeltaDelay_new_before)

interpretation dd: delay_source "dd_wf env" "SampleDeltaDelay env" AddDeltaDelay whole_us
  "MilliSeconds 10" for env
proof
  fix t t' :: time and d
  assume "dd_wf env t d" "t \<le> t'"
  then show "dd_wf env t' d" by (auto simp: dd_wf_def intro: dd_before_mono)
next
  fix now m :: time and d rnd
  assume a: "dd_wf env now d" "rnd_ok rnd" "m \<le> 0"
  then have "m \<le> MilliSeconds 10" by (simp add: time_defs)
  with a Sample_result [of env rnd d m now now]
  show "\<exists>r d'. SampleDeltaDelay env rnd now m d = Inr (r, d') \<and> dd_wf env now d' \<and>
      m \<le> r \<and> r \<le> MilliSeconds 10"
    by (auto simp: dd_wf_def)
next
  fix now x :: time and d
  assume "dd_wf env now d" "whole_us x"
  then show "dd_wf env now (AddDeltaDelay now x d)"
    using AddDeltaDelay_inv [of d now x] by (simp add: dd_wf_def)
qed

section \<open>Properties\<close>

text \<open>A source with one delta of 4 ms and one token of 1 ms, for the witnesses.\<close>

definition dd_example :: delta_delay where
  "dd_example = AddDeltaDelay (MilliSeconds 101) (MilliSeconds (-1))
     (AddDeltaDelay (MilliSeconds 100) (MilliSeconds 4) DeltaDelay_new)"

definition plain_env :: sim_env where
  "plain_env = \<lparr>fl = (\<lambda>x. x), time_scale = (\<lambda>q t. trunc (q * of_int t))\<rparr>"

lemma plain_env_ok: "env_ok plain_env"
proof -
  have "0 \<le> trunc (q * of_int t) \<and> trunc (q * of_int t) \<le> t"
    if "0 \<le> q" "q \<le> 1" "0 \<le> t" for q :: rat and t :: int
  proof -
    have "q * of_int t \<le> of_int t" using that by (simp add: mult_left_le_one_le)
    then have "trunc (q * of_int t) \<le> trunc (of_int t)"
      using that by (intro trunc_mono) simp_all
    then show ?thesis using that by (simp add: trunc_nonneg)
  qed
  then show ?thesis by (simp add: env_ok_def plain_env_def rounding_ok_def)
qed

lemma rnd_ok_zero: "rnd_ok (\<lambda>_. 0)"
  by (simp add: rnd_ok_def)

lemmas dd_eval = DeltaDelay_new_def AddDeltaDelay_def SampleDeltaDelay_def clear_aged_def
  ClearAgedDeltas_def ClearAgedTokens_def ClearAgedPopTokens_def ClearAgedLastwndPkt_def
  aged_def dd_inv_def dd_before_def in_range_def Let_def time_defs

lemma dd_example_ok: "dd_inv dd_example" "dd_before (MilliSeconds 101) dd_example"
  by (simp_all add: dd_example_def dd_eval)

text \<open>
  C5: on any well-formed history \<open>SampleDeltaDelay\<close> returns: neither the random index
  nor the final \<open>NS_ASSERT\<close> can fail; the delay it gives is at most 10 ms and not below the
  minimum asked for (or 0), and the history stays well formed.
\<close>

theorem SampleDeltaDelay_safe:
  assumes "env_ok env" "rnd_ok rnd" "dd_inv d" "minDeltaDelay \<le> MilliSeconds 10"
  shows "\<exists>r d'. SampleDeltaDelay env rnd now minDeltaDelay d = Inr (r, d') \<and> dd_inv d' \<and>
    min 0 minDeltaDelay \<le> r \<and> r \<le> MilliSeconds 10"
  using Sample_result [OF assms] by blast

theorem SampleDeltaDelay_safe_witness:
  "\<exists>r d'. SampleDeltaDelay plain_env (\<lambda>_. 0) (MilliSeconds 110) 0 dd_example = Inr (r, d') \<and>
    dd_inv d' \<and> min 0 0 \<le> r \<and> r \<le> MilliSeconds 10"
  by (rule SampleDeltaDelay_safe [OF plain_env_ok rnd_ok_zero dd_example_ok(1)])
    (simp add: time_defs)

text \<open>
  C3: tokens pay for delays exactly once. While the histories are not shorter than the last
  window, the delay returned is the sampled delta (or the minimum) less everything the tokens
  hold, at least 0, and what the tokens hold afterwards is what they held less that delta, at
  least 0.
\<close>

theorem SampleDeltaDelay_tokens:
  assumes "rnd_ok rnd" "dd_inv d0" "d = clear_aged now d0" "m_historyDeltas d \<noteq> []"
    and "length (m_lastwndPkt d) \<le>
      length (m_PopTokens d) + length (m_historyTokens d) + length (m_historyDeltas d)"
    and "SampleDeltaDelay env rnd now m d0 = Inr (r, d')"
  shows "let s = max (snd (m_historyDeltas d ! rnd (length (m_historyDeltas d) - 1))) m;
             T = sum_list (map snd (m_historyTokens d))
         in r = max 0 (s - T) \<and> sum_list (map snd (m_historyTokens d')) = max 0 (T - s)"
proof -
  define s where "s = max (snd (m_historyDeltas d ! rnd (length (m_historyDeltas d) - 1))) m"
  have inv: "dd_inv d" using assms(2,3) by (simp add: clear_aged_inv)
  then have toks: "list_all in_range (m_historyTokens d)" by (simp add: dd_inv_def)
  have s: "0 \<le> s"
    using Sample_sampled_range [OF inv assms(4,1)]
    unfolding s_def in_range_def by (auto simp: le_max_iff_disj)
  obtain q p r1 where loop: "consume_tokens (m_historyTokens d) (m_PopTokens d) s = (q, p, r1)"
    by (metis prod_cases3)
  have "SampleDeltaDelay env rnd now m d0 = ns_assert (r1 \<le> MilliSeconds 10)
      (Inr (r1, d\<lparr>m_historyTokens := q, m_PopTokens := p\<rparr>))"
    using Sample_nonempty [OF assms(3) [symmetric] assms(4,1) s_def [symmetric] loop refl, of env r1]
      assms(5) by simp
  with assms(6) have "r = r1" "m_historyTokens d' = q" by (auto dest!: ns_assert_InrD)
  with consume_tokens_balance [OF toks s loop] show ?thesis
    by (simp add: s_def Let_def)
qed

theorem SampleDeltaDelay_tokens_witness:
  "let d = clear_aged (MilliSeconds 110) dd_example;
       s = max (snd (m_historyDeltas d ! 0)) 0; T = sum_list (map snd (m_historyTokens d))
   in (MilliSeconds 3) = max 0 (s - T)"
proof -
  have "SampleDeltaDelay plain_env (\<lambda>_. 0) (MilliSeconds 110) 0 dd_example = Inr (MilliSeconds 3,
      dd_example\<lparr>m_historyTokens := [], m_PopTokens := [(MilliSeconds 101, MilliSeconds 1)]\<rparr>)"
    by (simp add: dd_example_def dd_eval)
  from SampleDeltaDelay_tokens [OF rnd_ok_zero dd_example_ok(1) refl _ _ this]
  show ?thesis by (simp add: dd_example_def dd_eval)
qed

text \<open>The histories are sliding windows. Clearing looks at the front only, yet afterwards the
  deltas and the tokens are exactly those of the last \<open>m_historyLen\<close> (40 ms).
\<close>

theorem clear_aged_window:
  assumes "dd_inv d"
  shows "m_historyDeltas (clear_aged now d) =
      filter (\<lambda>p. now - fst p \<le> m_historyLen d) (m_historyDeltas d) \<and>
    m_historyTokens (clear_aged now d) =
      filter (\<lambda>p. now - fst p \<le> m_historyLen d) (m_historyTokens d)"
proof -
  have window: "dropWhile (aged now len) q = filter (\<lambda>p. now - fst p \<le> len) q"
    if "sorted (map fst q)" for len q
  proof -
    have "sorted_wrt (\<lambda>x y. aged now len y \<longrightarrow> aged now len x) q"
      using that by (auto simp: sorted_map aged_def elim!: sorted_wrt_mono_rel [rotated])
    then show ?thesis
      using pop_while_sorted [of "aged now len" q] by (simp add: pop_while_dropWhile aged_def not_less)
  qed
  show ?thesis
    using assms by (simp add: clear_aged_simps window dd_inv_def sorted_append)
qed

theorem clear_aged_window_witness:
  "m_historyDeltas (clear_aged (MilliSeconds 141) dd_example) = [] \<and>
   m_historyTokens (clear_aged (MilliSeconds 141) dd_example) = [(MilliSeconds 101, MilliSeconds 1)]"
  using clear_aged_window [OF dd_example_ok(1), of "MilliSeconds 141"]
  by (simp add: dd_example_def dd_eval)

end
