(* ===== verification/Wire.thy ===== *)
theory Wire
  imports Prelude
begin

text \<open>
  The headers of the application's packets
  (\<open>src/bitrate-ctrl/model/network-packet-header.h\<close> and \<open>.cc\<close>): their fields and how they are
  written to and read from a buffer. The buffer is ns-3's: its iterator and the packet that
  headers are added to are the fields of the record \<open>ns3\<close>, and what ns-3 documents about them is
  \<open>ns3_ok\<close>.
\<close>

section \<open>The buffer and packet operations of ns-3\<close>

type_synonym bytes = "u8 list"

type_synonym 'a reader = "bytes \<Rightarrow> ('a \<times> bytes) res"

record 'p ns3 =
  WriteU8 :: "u8 \<Rightarrow> bytes"
  WriteHtonU16 :: "u16 \<Rightarrow> bytes"
  WriteHtonU32 :: "u32 \<Rightarrow> bytes"
  WriteHtonU64 :: "u64 \<Rightarrow> bytes"
  ReadU8 :: "u8 reader"
  ReadNtohU16 :: "u16 reader"
  ReadNtohU32 :: "u32 reader"
  ReadNtohU64 :: "u64 reader"
  CreatePacket :: "u32 \<Rightarrow> 'p"
  AddBytes :: "bytes \<Rightarrow> 'p \<Rightarrow> 'p"
  PeekBytes :: "'p \<Rightarrow> bytes"
  RemoveBytes :: "nat \<Rightarrow> 'p \<Rightarrow> 'p"

text \<open>
  Writing advances the iterator by the width of the integer; reading what was written gives the
  integer back and advances by the same amount. A packet made with a size has that many bytes;
  bytes added at the front are the first ones read, and removing as many restores the packet.
\<close>

definition ns3_ok :: "'p ns3 \<Rightarrow> bool" where
  "ns3_ok k \<longleftrightarrow>
     (\<forall>x rest. ReadU8 k (WriteU8 k x @ rest) = Inr (x, rest)) \<and>
     (\<forall>x rest. ReadNtohU16 k (WriteHtonU16 k x @ rest) = Inr (x, rest)) \<and>
     (\<forall>x rest. ReadNtohU32 k (WriteHtonU32 k x @ rest) = Inr (x, rest)) \<and>
     (\<forall>x rest. ReadNtohU64 k (WriteHtonU64 k x @ rest) = Inr (x, rest)) \<and>
     (\<forall>x. length (WriteU8 k x) = 1) \<and> (\<forall>x. length (WriteHtonU16 k x) = 2) \<and>
     (\<forall>x. length (WriteHtonU32 k x) = 4) \<and> (\<forall>x. length (WriteHtonU64 k x) = 8) \<and>
     (\<forall>n. length (PeekBytes k (CreatePacket k n)) = unat n) \<and>
     (\<forall>h p. PeekBytes k (AddBytes k h p) = h @ PeekBytes k p) \<and>
     (\<forall>h p. RemoveBytes k (length h) (AddBytes k h p) = p)"

lemma ns3_read:
  assumes "ns3_ok k"
  shows "ReadU8 k (WriteU8 k b @ rest) = Inr (b, rest)"
    and "ReadNtohU16 k (WriteHtonU16 k s @ rest) = Inr (s, rest)"
    and "ReadNtohU32 k (WriteHtonU32 k l @ rest) = Inr (l, rest)"
    and "ReadNtohU64 k (WriteHtonU64 k q @ rest) = Inr (q, rest)"
  using assms by (simp_all add: ns3_ok_def)

lemma ns3_width:
  assumes "ns3_ok k"
  shows "length (WriteU8 k b) = 1" and "length (WriteHtonU16 k s) = 2"
    and "length (WriteHtonU32 k l) = 4" and "length (WriteHtonU64 k q) = 8"
  using assms by (simp_all add: ns3_ok_def)

lemma ns3_packet:
  assumes "ns3_ok k"
  shows "length (PeekBytes k (CreatePacket k n)) = unat n"
    and "PeekBytes k (AddBytes k h p) = h @ PeekBytes k p"
    and "RemoveBytes k (length h) (AddBytes k h p) = p"
  using assms by (simp_all add: ns3_ok_def)

text \<open>Reading in sequence, and reading \<open>n\<close> times in a loop.\<close>

definition rd_return :: "'a \<Rightarrow> 'a reader" where
  "rd_return x bs = Inr (x, bs)"

definition rd_bind :: "'a reader \<Rightarrow> ('a \<Rightarrow> 'b reader) \<Rightarrow> 'b reader" where
  "rd_bind r f bs = (case r bs of Inl e \<Rightarrow> Inl e | Inr (x, bs') \<Rightarrow> f x bs')"

fun rd_times :: "nat \<Rightarrow> 'a reader \<Rightarrow> 'a list reader" where
  "rd_times 0 r = rd_return []"
| "rd_times (Suc n) r = rd_bind r (\<lambda>x. rd_bind (rd_times n r) (\<lambda>xs. rd_return (x # xs)))"

lemma rd_bind_run: "r bs = Inr (x, bs') \<Longrightarrow> rd_bind r f bs = f x bs'"
  by (simp add: rd_bind_def)

lemma rd_return_run: "rd_return x bs = Inr (x, bs)"
  by (simp add: rd_return_def)

lemma rd_times_run:
  assumes "\<And>x rest. x \<in> set xs \<Longrightarrow> r (w x @ rest) = Inr (g x, rest)"
  shows "rd_times (length xs) r (concat (map w xs) @ rest) = Inr (map g xs, rest)"
  using assms by (induction xs) (simp_all add: rd_bind_run rd_return_run)

lemmas rd_run = rd_bind_run rd_return_run

section \<open>The headers\<close>

datatype PacketType =
  DATA_PKT | DUP_FEC_PKT | FEC_PKT | RTX_REQ_PKT | ACK_PKT | FRAME_ACK_PKT | NETSTATE_PKT

fun PacketType_code :: "PacketType \<Rightarrow> u32" where
  "PacketType_code DATA_PKT = 0"
| "PacketType_code DUP_FEC_PKT = 1"
| "PacketType_code FEC_PKT = 2"
| "PacketType_code RTX_REQ_PKT = 3"
| "PacketType_code ACK_PKT = 4"
| "PacketType_code FRAME_ACK_PKT = 5"
| "PacketType_code NETSTATE_PKT = 6"

text \<open>The \<open>static_cast\<close> back; \<open>None\<close> is a value that is none of the enumerators.\<close>

definition PacketType_of :: "u32 \<Rightarrow> PacketType option" where
  "PacketType_of c = (if c = 0 then Some DATA_PKT else if c = 1 then Some DUP_FEC_PKT
     else if c = 2 then Some FEC_PKT else if c = 3 then Some RTX_REQ_PKT
     else if c = 4 then Some ACK_PKT else if c = 5 then Some FRAME_ACK_PKT
     else if c = 6 then Some NETSTATE_PKT else None)"

lemma PacketType_of_code [simp]: "PacketType_of (PacketType_code t) = Some t"
  by (cases t) (simp_all add: PacketType_of_def)

definition NetworkPacketHeader_Serialize :: "'p ns3 \<Rightarrow> PacketType \<Rightarrow> bytes" where
  "NetworkPacketHeader_Serialize k packet_type = WriteHtonU32 k (PacketType_code packet_type)"

definition NetworkPacketHeader_Deserialize :: "'p ns3 \<Rightarrow> (PacketType option \<times> u32) reader" where
  "NetworkPacketHeader_Deserialize k =
     rd_bind (ReadNtohU32 k) (\<lambda>c. rd_return (PacketType_of c, 4))"

record GroupPacketInfo =
  gpi_group_id :: u32
  gpi_pkt_id_in_group :: u16
  gpi_tx_count :: u8

record VideoPacketHeader =
  vh_encode_time :: time
  vh_global_id :: u16
  vh_group_id :: u32
  vh_group_data_num :: u16
  vh_group_fec_num :: u16
  vh_pkt_id_in_group :: u16
  vh_batch_id :: u32
  vh_batch_data_num :: u16
  vh_batch_fec_num :: u16
  vh_pkt_id_in_batch :: u16
  vh_tx_count :: u8

definition VideoPacketHeader_GetSerializedSize :: u32 where
  "VideoPacketHeader_GetSerializedSize = 8 + 2 + 4 + 2 + 2 + 2 + 4 + 2 + 2 + 2 + 1"

definition VideoPacketHeader_Serialize :: "'p ns3 \<Rightarrow> VideoPacketHeader \<Rightarrow> bytes" where
  "VideoPacketHeader_Serialize k h =
     WriteHtonU64 k (word_of_int (GetMilliSeconds (vh_encode_time h))) @
     WriteHtonU16 k (vh_global_id h) @
     WriteHtonU32 k (vh_group_id h) @
     WriteHtonU16 k (vh_group_data_num h) @
     WriteHtonU16 k (vh_group_fec_num h) @
     WriteHtonU16 k (vh_pkt_id_in_group h) @
     WriteHtonU32 k (vh_batch_id h) @
     WriteHtonU16 k (vh_batch_data_num h) @
     WriteHtonU16 k (vh_batch_fec_num h) @
     WriteHtonU16 k (vh_pkt_id_in_batch h) @
     WriteU8 k (vh_tx_count h)"

definition VideoPacketHeader_Deserialize ::
  "'p ns3 \<Rightarrow> VideoPacketHeader \<Rightarrow> (VideoPacketHeader \<times> u32) reader" where
  "VideoPacketHeader_Deserialize k this =
     rd_bind (ReadNtohU64 k) (\<lambda>ms.
     rd_bind (ReadNtohU16 k) (\<lambda>gid.
     rd_bind (ReadNtohU32 k) (\<lambda>g.
     rd_bind (ReadNtohU16 k) (\<lambda>gd.
     rd_bind (ReadNtohU16 k) (\<lambda>gf.
     rd_bind (ReadNtohU16 k) (\<lambda>gp.
     rd_bind (ReadNtohU32 k) (\<lambda>b.
     rd_bind (ReadNtohU16 k) (\<lambda>bd.
     rd_bind (ReadNtohU16 k) (\<lambda>bf.
     rd_bind (ReadNtohU16 k) (\<lambda>bp.
     rd_bind (ReadU8 k) (\<lambda>tx.
     rd_return (this\<lparr>vh_encode_time := MilliSeconds (uint ms), vh_global_id := gid,
       vh_group_id := g, vh_group_data_num := gd, vh_group_fec_num := gf,
       vh_pkt_id_in_group := gp, vh_batch_id := b, vh_batch_data_num := bd,
       vh_batch_fec_num := bf, vh_pkt_id_in_batch := bp, vh_tx_count := tx\<rparr>,
       VideoPacketHeader_GetSerializedSize))))))))))))"

record DataPktFrameInfo =
  dfi_frame_id :: u32
  dfi_pkt_id_in_frame :: u16

record DataPktDigest =
  dg_pkt_id_in_batch :: u16
  dg_pkt_id_in_group :: u16
  dg_frame_id :: u32
  dg_frame_pkt_num :: u16
  dg_pkt_id_in_frame :: u16

record DataPacketHeader =
  dh_frame_id :: u32
  dh_frame_pkt_num :: u16
  dh_pkt_id_in_frame :: u16
  dh_frame_size :: u32
  dh_last_pkt_mark :: bool

definition DataPacketHeader_GetSerializedSize :: u32 where
  "DataPacketHeader_GetSerializedSize = 4 + 4 + 2 + 2"

definition DataPacketHeader_Serialize :: "'p ns3 \<Rightarrow> DataPacketHeader \<Rightarrow> bytes" where
  "DataPacketHeader_Serialize k h =
     WriteHtonU32 k (dh_frame_id h) @ WriteHtonU32 k (dh_frame_size h) @
     WriteHtonU16 k (dh_frame_pkt_num h) @ WriteHtonU16 k (dh_pkt_id_in_frame h)"

definition DataPacketHeader_Deserialize ::
  "'p ns3 \<Rightarrow> DataPacketHeader \<Rightarrow> (DataPacketHeader \<times> u32) reader" where
  "DataPacketHeader_Deserialize k this =
     rd_bind (ReadNtohU32 k) (\<lambda>fid. rd_bind (ReadNtohU32 k) (\<lambda>fs.
     rd_bind (ReadNtohU16 k) (\<lambda>fn. rd_bind (ReadNtohU16 k) (\<lambda>fp.
     rd_return (this\<lparr>dh_frame_id := fid, dh_frame_size := fs, dh_frame_pkt_num := fn,
       dh_pkt_id_in_frame := fp\<rparr>, DataPacketHeader_GetSerializedSize)))))"

type_synonym FECPacketHeader = "DataPktDigest list"

definition FECPacketHeader_GetSerializedSize :: "FECPacketHeader \<Rightarrow> u32" where
  "FECPacketHeader_GetSerializedSize data_pkts =
     word_of_nat (length data_pkts * (2 + 2 + 4 + 2 + 2) + 2)"

definition digest_Serialize :: "'p ns3 \<Rightarrow> DataPktDigest \<Rightarrow> bytes" where
  "digest_Serialize k d =
     WriteHtonU16 k (dg_pkt_id_in_batch d) @ WriteHtonU16 k (dg_pkt_id_in_group d) @
     WriteHtonU32 k (dg_frame_id d) @ WriteHtonU16 k (dg_frame_pkt_num d) @
     WriteHtonU16 k (dg_pkt_id_in_frame d)"

definition digest_Deserialize :: "'p ns3 \<Rightarrow> DataPktDigest reader" where
  "digest_Deserialize k =
     rd_bind (ReadNtohU16 k) (\<lambda>b. rd_bind (ReadNtohU16 k) (\<lambda>g. rd_bind (ReadNtohU32 k) (\<lambda>f.
     rd_bind (ReadNtohU16 k) (\<lambda>n. rd_bind (ReadNtohU16 k) (\<lambda>p.
     rd_return \<lparr>dg_pkt_id_in_batch = b, dg_pkt_id_in_group = g, dg_frame_id = f,
       dg_frame_pkt_num = n, dg_pkt_id_in_frame = p\<rparr>)))))"

definition FECPacketHeader_Serialize :: "'p ns3 \<Rightarrow> FECPacketHeader \<Rightarrow> bytes" where
  "FECPacketHeader_Serialize k data_pkts =
     WriteHtonU16 k (word_of_nat (length data_pkts)) @ concat (map (digest_Serialize k) data_pkts)"

definition FECPacketHeader_Deserialize ::
  "'p ns3 \<Rightarrow> FECPacketHeader \<Rightarrow> (FECPacketHeader \<times> u32) reader" where
  "FECPacketHeader_Deserialize k data_pkts =
     rd_bind (ReadNtohU16 k) (\<lambda>pkts_size.
     rd_bind (rd_times (unat pkts_size) (digest_Deserialize k)) (\<lambda>digests.
     rd_return (data_pkts @ digests, 2 + word_of_nat (12 * length digests))))"

record AckPacketHeader =
  ah_pkt_infos :: "GroupPacketInfo list"
  ah_last_pkt_id :: u16

definition AckPacketHeader_GetSerializedSize :: "AckPacketHeader \<Rightarrow> u32" where
  "AckPacketHeader_GetSerializedSize h = word_of_nat (4 + length (ah_pkt_infos h) * 6 + 2)"

definition pkt_info_Serialize :: "'p ns3 \<Rightarrow> GroupPacketInfo \<Rightarrow> bytes" where
  "pkt_info_Serialize k i =
     WriteHtonU32 k (gpi_group_id i) @ WriteHtonU16 k (gpi_pkt_id_in_group i)"

text \<open>The constructor leaves \<open>tx_count\<close> of the new info uninitialised: it is the argument \<open>junk\<close>.\<close>

definition pkt_info_Deserialize :: "'p ns3 \<Rightarrow> u8 \<Rightarrow> GroupPacketInfo reader" where
  "pkt_info_Deserialize k junk =
     rd_bind (ReadNtohU32 k) (\<lambda>g. rd_bind (ReadNtohU16 k) (\<lambda>p.
     rd_return \<lparr>gpi_group_id = g, gpi_pkt_id_in_group = p, gpi_tx_count = junk\<rparr>))"

definition AckPacketHeader_Serialize :: "'p ns3 \<Rightarrow> AckPacketHeader \<Rightarrow> bytes" where
  "AckPacketHeader_Serialize k h =
     WriteHtonU32 k (word_of_nat (length (ah_pkt_infos h))) @
     concat (map (pkt_info_Serialize k) (ah_pkt_infos h)) @ WriteHtonU16 k (ah_last_pkt_id h)"

definition AckPacketHeader_Deserialize ::
  "'p ns3 \<Rightarrow> u8 \<Rightarrow> AckPacketHeader \<Rightarrow> (AckPacketHeader \<times> u32) reader" where
  "AckPacketHeader_Deserialize k junk this =
     rd_bind (ReadNtohU32 k) (\<lambda>pkt_info_cnt.
     rd_bind (rd_times (unat pkt_info_cnt) (pkt_info_Deserialize k junk)) (\<lambda>infos.
     rd_bind (ReadNtohU16 k) (\<lambda>lst.
     rd_return (this\<lparr>ah_pkt_infos := ah_pkt_infos this @ infos, ah_last_pkt_id := lst\<rparr>,
       4 + word_of_nat (6 * length infos) + 2))))"

record FrameAckPacketHeader =
  fa_frame_id :: u32
  fa_frame_encode_time :: time

definition FrameAckPacketHeader_GetSerializedSize :: u32 where
  "FrameAckPacketHeader_GetSerializedSize = 4 + 8"

definition FrameAckPacketHeader_Serialize :: "'p ns3 \<Rightarrow> FrameAckPacketHeader \<Rightarrow> bytes" where
  "FrameAckPacketHeader_Serialize k h =
     WriteHtonU32 k (fa_frame_id h) @
     WriteHtonU64 k (word_of_int (GetMicroSeconds (fa_frame_encode_time h)))"

definition FrameAckPacketHeader_Deserialize ::
  "'p ns3 \<Rightarrow> FrameAckPacketHeader \<Rightarrow> (FrameAckPacketHeader \<times> u32) reader" where
  "FrameAckPacketHeader_Deserialize k this =
     rd_bind (ReadNtohU32 k) (\<lambda>f. rd_bind (ReadNtohU64 k) (\<lambda>us.
     rd_return (this\<lparr>fa_frame_id := f, fa_frame_encode_time := MicroSeconds (uint us)\<rparr>,
       FrameAckPacketHeader_GetSerializedSize)))"


record RcvTime =
  rt_pkt_id :: u32
  rt_us :: u32
  rt_pkt_size :: u32

record NetStates =
  ns_loss_rate :: rat
  ns_throughput_kbps :: u32
  ns_fec_group_delay_us :: u16
  ns_loss_seq :: "int list"
  ns_recvtime_hist :: "RcvTime list"

text \<open>The header holds a pointer, null until \<open>SetNetStates\<close>.\<close>

type_synonym NetStatePacketHeader = "NetStates option"

definition NetStates_size :: "NetStates \<Rightarrow> u32" where
  "NetStates_size s =
     word_of_nat (12 + 4 * length (ns_loss_seq s) + 8 * length (ns_recvtime_hist s))"

fun NetStatePacketHeader_GetSerializedSize :: "NetStatePacketHeader \<Rightarrow> u32 res" where
  "NetStatePacketHeader_GetSerializedSize None = Inl NullDeref"
| "NetStatePacketHeader_GetSerializedSize (Some s) = Inr (NetStates_size s)"

text \<open>A run of losses is a negative number on the sender's side, a sign word on the wire.\<close>

definition loss_Serialize :: "'p ns3 \<Rightarrow> int \<Rightarrow> bytes" where
  "loss_Serialize k loss =
     (if loss < 0 then WriteHtonU16 k 0 @ WriteHtonU16 k (word_of_int (- loss))
      else WriteHtonU16 k 1 @ WriteHtonU16 k (word_of_int loss))"

definition loss_Deserialize :: "'p ns3 \<Rightarrow> int reader" where
  "loss_Deserialize k =
     rd_bind (ReadNtohU16 k) (\<lambda>sig. rd_bind (ReadNtohU16 k) (\<lambda>v.
     rd_return (if sig > 0 then uint v else - uint v)))"

definition rcvtime_Serialize :: "'p ns3 \<Rightarrow> RcvTime \<Rightarrow> bytes" where
  "rcvtime_Serialize k r = WriteHtonU32 k (rt_pkt_id r) @ WriteHtonU32 k (rt_us r)"

definition rcvtime_Deserialize :: "'p ns3 \<Rightarrow> RcvTime reader" where
  "rcvtime_Deserialize k =
     rd_bind (ReadNtohU32 k) (\<lambda>i. rd_bind (ReadNtohU32 k) (\<lambda>t.
     rd_return \<lparr>rt_pkt_id = i, rt_us = t, rt_pkt_size = 0\<rparr>))"

text \<open>The conversion of the loss rate to 16 bits is undefined when it does not fit.\<close>

definition loss_rate_code :: "rounding \<Rightarrow> NetStates \<Rightarrow> int" where
  "loss_rate_code f s = trunc (f (ns_loss_rate s * 10000))"

fun NetStatePacketHeader_Serialize ::
  "'p ns3 \<Rightarrow> rounding \<Rightarrow> NetStatePacketHeader \<Rightarrow> bytes res" where
  "NetStatePacketHeader_Serialize k f None = Inl NullDeref"
| "NetStatePacketHeader_Serialize k f (Some s) =
     (if loss_rate_code f s < 0 \<or> 65536 \<le> loss_rate_code f s then Inl UndefinedBehaviour
      else Inr (WriteHtonU16 k (word_of_int (loss_rate_code f s)) @
        WriteHtonU32 k (ns_throughput_kbps s) @
        WriteHtonU16 k (ns_fec_group_delay_us s) @
        WriteHtonU16 k (word_of_nat (length (ns_loss_seq s))) @
        concat (map (loss_Serialize k) (ns_loss_seq s)) @
        WriteHtonU16 k (word_of_nat (length (ns_recvtime_hist s))) @
        concat (map (rcvtime_Serialize k) (ns_recvtime_hist s))))"

definition NetStatePacketHeader_Deserialize ::
  "'p ns3 \<Rightarrow> rounding \<Rightarrow> NetStatePacketHeader \<Rightarrow> (NetStatePacketHeader \<times> u32) reader" where
  "NetStatePacketHeader_Deserialize k f this =
     rd_bind (ReadNtohU16 k) (\<lambda>lr. rd_bind (ReadNtohU32 k) (\<lambda>tp. rd_bind (ReadNtohU16 k) (\<lambda>gd.
     rd_bind (ReadNtohU16 k) (\<lambda>loss_size.
     rd_bind (rd_times (unat loss_size) (loss_Deserialize k)) (\<lambda>losses.
     rd_bind (ReadNtohU16 k) (\<lambda>hist_size.
     rd_bind (rd_times (unat hist_size) (rcvtime_Deserialize k)) (\<lambda>hist.
     rd_return (Some \<lparr>ns_loss_rate = f (of_int (uint lr) / 10000), ns_throughput_kbps = tp,
         ns_fec_group_delay_us = gd, ns_loss_seq = losses, ns_recvtime_hist = hist\<rparr>,
       12 + word_of_nat (4 * length losses) + word_of_nat (8 * length hist)))))))))"

section \<open>Adding and removing headers\<close>

text \<open>
  \<open>Packet::AddHeader\<close> makes room at the front and serialises into it;
  \<open>Packet::RemoveHeader\<close> deserialises from the front and drops as many bytes as the
  deserialiser says it has read.
\<close>

definition AddHeader :: "'p ns3 \<Rightarrow> bytes res \<Rightarrow> 'p \<Rightarrow> 'p res" where
  "AddHeader k bs p = (case bs of Inl e \<Rightarrow> Inl e | Inr h \<Rightarrow> Inr (AddBytes k h p))"

definition RemoveHeader :: "'p ns3 \<Rightarrow> ('h \<times> u32) reader \<Rightarrow> 'p \<Rightarrow> ('h \<times> 'p) res" where
  "RemoveHeader k r p =
     (case r (PeekBytes k p) of Inl e \<Rightarrow> Inl e
      | Inr ((h, read_size), _) \<Rightarrow> Inr (h, RemoveBytes k (unat read_size) p))"

text \<open>
  What a header class promises to the packets that carry it: \<open>seen this h\<close> is what a reader whose
  object was \<open>this\<close> finds after \<open>h\<close> was written.
\<close>

locale wire_header =
  fixes serialize :: "'h \<Rightarrow> bytes res"
    and deserialize :: "'h \<Rightarrow> ('h \<times> u32) reader"
    and ser_size :: "'h \<Rightarrow> u32"
    and ok :: "'h \<Rightarrow> bool"
    and seen :: "'h \<Rightarrow> 'h \<Rightarrow> 'h"
  assumes roundtrip: "ok h \<Longrightarrow> \<exists>bs. serialize h = Inr bs \<and> length bs = unat (ser_size h) \<and>
    (\<forall>this rest. deserialize this (bs @ rest) = Inr ((seen this h, ser_size h), rest))"
begin

lemma remove_add:
  assumes "ns3_ok k" "ok h"
  obtains q where "AddHeader k (serialize h) p = Inr q"
    and "\<And>this. RemoveHeader k (deserialize this) q = Inr (seen this h, p)"
    and "length (PeekBytes k q) = unat (ser_size h) + length (PeekBytes k p)"
proof -
  from roundtrip [OF assms(2)] obtain bs where bs: "serialize h = Inr bs"
    "length bs = unat (ser_size h)"
    "\<And>this rest. deserialize this (bs @ rest) = Inr ((seen this h, ser_size h), rest)"
    by blast
  have "RemoveBytes k (unat (ser_size h)) (AddBytes k bs p) = p"
    using ns3_packet(3) [OF assms(1), of bs p] bs(2) by simp
  then have "RemoveHeader k (deserialize this) (AddBytes k bs p) = Inr (seen this h, p)" for this
    by (simp add: RemoveHeader_def ns3_packet [OF assms(1)] bs(3))
  then show ?thesis
    using that [of "AddBytes k bs p"] by (simp add: AddHeader_def bs ns3_packet [OF assms(1)])
qed

end

text \<open>One interpretation per header class.\<close>

definition network_ok :: "'p ns3 \<Rightarrow> PacketType option \<Rightarrow> bool" where
  "network_ok k t \<longleftrightarrow> ns3_ok k \<and> t \<noteq> None"

interpretation network: wire_header "\<lambda>t. Inr (NetworkPacketHeader_Serialize k (the t))"
  "\<lambda>this. NetworkPacketHeader_Deserialize k" "\<lambda>t. 4" "network_ok k" "\<lambda>this t. t" for k
  by standard (auto simp: network_ok_def NetworkPacketHeader_Serialize_def ns3_width
      NetworkPacketHeader_Deserialize_def rd_run ns3_read)

definition encode_time_ms :: "VideoPacketHeader \<Rightarrow> time" where
  "encode_time_ms h = MilliSeconds (GetMilliSeconds (vh_encode_time h))"

definition video_ok :: "'p ns3 \<Rightarrow> VideoPacketHeader \<Rightarrow> bool" where
  "video_ok k h \<longleftrightarrow> ns3_ok k \<and> 0 \<le> vh_encode_time h \<and> vh_encode_time h < 2 ^ 63"

lemma uint_of_time:
  assumes "0 \<le> t" "t < 2 ^ 63"
  shows "uint (word_of_int (GetMilliSeconds t) :: u64) = GetMilliSeconds t"
    and "uint (word_of_int (GetMicroSeconds t) :: u64) = GetMicroSeconds t"
proof -
  have sd: "t sdiv n = t div n" if "0 < n" for n
    using assms(1) that by (cases "t = 0") (simp_all add: signed_divide_int_def)
  have b: "0 \<le> t div n \<and> t div n < 2 ^ 64" if "0 < n" for n :: int
    using assms that zdiv_mono2 [of t 1 n] by (simp add: pos_imp_zdiv_nonneg_iff)
  show "uint (word_of_int (GetMilliSeconds t) :: u64) = GetMilliSeconds t"
    and "uint (word_of_int (GetMicroSeconds t) :: u64) = GetMicroSeconds t"
    using b [of NanoPerMs] b [of NanoPerUs]
    by (simp_all add: sd GetMilliSeconds_def GetMicroSeconds_def NanoPerMs_def NanoPerUs_def
        uint_word_of_int)
qed

interpretation video: wire_header "\<lambda>h. Inr (VideoPacketHeader_Serialize k h)"
  "VideoPacketHeader_Deserialize k" "\<lambda>h. VideoPacketHeader_GetSerializedSize" "video_ok k"
  "\<lambda>this h. h\<lparr>vh_encode_time := encode_time_ms h\<rparr>" for k
  by standard (auto simp: video_ok_def VideoPacketHeader_Serialize_def ns3_width
      VideoPacketHeader_GetSerializedSize_def VideoPacketHeader_Deserialize_def rd_run ns3_read
      encode_time_ms_def uint_of_time)


interpretation data: wire_header "\<lambda>h. Inr (DataPacketHeader_Serialize k h)"
  "DataPacketHeader_Deserialize k" "\<lambda>h. DataPacketHeader_GetSerializedSize" "\<lambda>h. ns3_ok k"
  "\<lambda>this h. h\<lparr>dh_last_pkt_mark := dh_last_pkt_mark this\<rparr>" for k
  by standard (auto simp: DataPacketHeader_Serialize_def ns3_width
      DataPacketHeader_GetSerializedSize_def DataPacketHeader_Deserialize_def rd_run ns3_read)

lemma length_concat_const:
  "(\<And>x. x \<in> set xs \<Longrightarrow> length (w x) = n) \<Longrightarrow> length (concat (map w xs)) = n * length xs"
  by (induction xs) simp_all

lemma digest_roundtrip:
  "ns3_ok k \<Longrightarrow> digest_Deserialize k (digest_Serialize k d @ rest) = Inr (d, rest)"
  "ns3_ok k \<Longrightarrow> length (digest_Serialize k d) = 12"
  by (simp_all add: digest_Deserialize_def digest_Serialize_def rd_run ns3_read ns3_width)

definition fec_ok :: "'p ns3 \<Rightarrow> FECPacketHeader \<Rightarrow> bool" where
  "fec_ok k data_pkts \<longleftrightarrow> ns3_ok k \<and> length data_pkts < 65536"

interpretation fec: wire_header "\<lambda>h. Inr (FECPacketHeader_Serialize k h)"
  "FECPacketHeader_Deserialize k" "FECPacketHeader_GetSerializedSize" "fec_ok k"
  "\<lambda>this h. this @ h" for k
proof (standard, unfold fec_ok_def, elim conjE)
  fix h :: FECPacketHeader
  assume k: "ns3_ok k" and len: "length h < 65536"
  have loop: "rd_times (length h) (digest_Deserialize k) (concat (map (digest_Serialize k) h) @ rest)
      = Inr (h, rest)" for rest
    using rd_times_run [of h "digest_Deserialize k" "digest_Serialize k" id]
    by (simp add: digest_roundtrip k)
  have sz: "(2 + word_of_nat (12 * length h) :: u32) = FECPacketHeader_GetSerializedSize h"
    by (simp add: FECPacketHeader_GetSerializedSize_def)
  have "FECPacketHeader_Deserialize k this (FECPacketHeader_Serialize k h @ rest)
      = Inr ((this @ h, FECPacketHeader_GetSerializedSize h), rest)" for this rest
    by (simp add: FECPacketHeader_Deserialize_def FECPacketHeader_Serialize_def rd_bind_run
        rd_return_run ns3_read [OF k] unat_word_of_nat_16 [OF len] loop sz del: of_nat_mult)
  moreover have "length (FECPacketHeader_Serialize k h) = unat (FECPacketHeader_GetSerializedSize h)"
    using len by (simp add: FECPacketHeader_Serialize_def FECPacketHeader_GetSerializedSize_def
        ns3_width [OF k] length_concat_const [of _ _ 12] digest_roundtrip k
        unat_word_of_nat_32 del: of_nat_add of_nat_mult of_nat_Suc)
  ultimately show "\<exists>bs. Inr (FECPacketHeader_Serialize k h) = Inr bs \<and>
      length bs = unat (FECPacketHeader_GetSerializedSize h) \<and>
      (\<forall>this rest. FECPacketHeader_Deserialize k this (bs @ rest)
         = Inr ((this @ h, FECPacketHeader_GetSerializedSize h), rest))"
    by blast
qed

lemma pkt_info_roundtrip:
  "ns3_ok k \<Longrightarrow> pkt_info_Deserialize k junk (pkt_info_Serialize k i @ rest)
     = Inr (i\<lparr>gpi_tx_count := junk\<rparr>, rest)"
  "ns3_ok k \<Longrightarrow> length (pkt_info_Serialize k i) = 6"
  by (simp_all add: pkt_info_Deserialize_def pkt_info_Serialize_def rd_run ns3_read ns3_width)

definition ack_ok :: "'p ns3 \<Rightarrow> AckPacketHeader \<Rightarrow> bool" where
  "ack_ok k h \<longleftrightarrow> ns3_ok k \<and> length (ah_pkt_infos h) < 2 ^ 28"

definition ack_seen :: "u8 \<Rightarrow> AckPacketHeader \<Rightarrow> AckPacketHeader \<Rightarrow> AckPacketHeader" where
  "ack_seen junk this h = this\<lparr>ah_last_pkt_id := ah_last_pkt_id h,
     ah_pkt_infos := ah_pkt_infos this @ map (\<lambda>i. i\<lparr>gpi_tx_count := junk\<rparr>) (ah_pkt_infos h)\<rparr>"

interpretation ack: wire_header "\<lambda>h. Inr (AckPacketHeader_Serialize k h)"
  "AckPacketHeader_Deserialize k junk" "AckPacketHeader_GetSerializedSize" "ack_ok k"
  "ack_seen junk" for k junk
proof (standard, unfold ack_ok_def, elim conjE)
  fix h :: AckPacketHeader
  assume k: "ns3_ok k" and len: "length (ah_pkt_infos h) < 2 ^ 28"
  let ?is = "ah_pkt_infos h"
  have loop: "rd_times (length ?is) (pkt_info_Deserialize k junk)
      (concat (map (pkt_info_Serialize k) ?is) @ rest)
      = Inr (map (\<lambda>i. i\<lparr>gpi_tx_count := junk\<rparr>) ?is, rest)" for rest
    by (rule rd_times_run) (simp add: pkt_info_roundtrip k)
  have n: "unat (word_of_nat (length ?is) :: u32) = length ?is"
    using len by (simp add: unat_of_nat)
  have sz: "(6 + word_of_nat (6 * length ?is) :: u32) = AckPacketHeader_GetSerializedSize h"
    by (simp add: AckPacketHeader_GetSerializedSize_def)
  have "AckPacketHeader_Deserialize k junk this (AckPacketHeader_Serialize k h @ rest)
      = Inr ((ack_seen junk this h, AckPacketHeader_GetSerializedSize h), rest)" for this rest
    by (simp add: AckPacketHeader_Deserialize_def AckPacketHeader_Serialize_def rd_bind_run
        rd_return_run ns3_read [OF k] n loop sz ack_seen_def del: of_nat_mult)
  moreover have "length (AckPacketHeader_Serialize k h) = unat (AckPacketHeader_GetSerializedSize h)"
    using len by (simp add: AckPacketHeader_Serialize_def AckPacketHeader_GetSerializedSize_def
        ns3_width [OF k] length_concat_const [of _ _ 6] pkt_info_roundtrip k
        unat_word_of_nat_32 del: of_nat_add of_nat_mult of_nat_Suc)
  ultimately show "\<exists>bs. Inr (AckPacketHeader_Serialize k h) = Inr bs \<and>
      length bs = unat (AckPacketHeader_GetSerializedSize h) \<and>
      (\<forall>this rest. AckPacketHeader_Deserialize k junk this (bs @ rest)
         = Inr ((ack_seen junk this h, AckPacketHeader_GetSerializedSize h), rest))"
    by blast
qed

definition frame_ack_ok :: "'p ns3 \<Rightarrow> FrameAckPacketHeader \<Rightarrow> bool" where
  "frame_ack_ok k h \<longleftrightarrow> ns3_ok k \<and> 0 \<le> fa_frame_encode_time h \<and> fa_frame_encode_time h < 2 ^ 63"

interpretation frame_ack: wire_header "\<lambda>h. Inr (FrameAckPacketHeader_Serialize k h)"
  "FrameAckPacketHeader_Deserialize k" "\<lambda>h. FrameAckPacketHeader_GetSerializedSize"
  "frame_ack_ok k"
  "\<lambda>this h. h\<lparr>fa_frame_encode_time := MicroSeconds (GetMicroSeconds (fa_frame_encode_time h))\<rparr>"
  for k
  by standard (auto simp: frame_ack_ok_def FrameAckPacketHeader_Serialize_def ns3_width
      FrameAckPacketHeader_GetSerializedSize_def FrameAckPacketHeader_Deserialize_def rd_run
      ns3_read uint_of_time)


definition net_state_ok :: "'p ns3 \<Rightarrow> rounding \<Rightarrow> NetStatePacketHeader \<Rightarrow> bool" where
  "net_state_ok k f h \<longleftrightarrow> ns3_ok k \<and> (case h of None \<Rightarrow> False | Some s \<Rightarrow>
     0 \<le> loss_rate_code f s \<and> loss_rate_code f s < 65536 \<and>
     length (ns_loss_seq s) < 65536 \<and> length (ns_recvtime_hist s) < 65536 \<and>
     (\<forall>l \<in> set (ns_loss_seq s). \<bar>l\<bar> < 65536))"

definition net_state_view :: "rounding \<Rightarrow> NetStates \<Rightarrow> NetStates" where
  "net_state_view f s = s\<lparr>ns_loss_rate := f (of_int (loss_rate_code f s) / 10000),
     ns_recvtime_hist := map (\<lambda>r. r\<lparr>rt_pkt_size := 0\<rparr>) (ns_recvtime_hist s)\<rparr>"

lemma loss_roundtrip:
  assumes "ns3_ok k" "\<bar>l\<bar> < 65536"
  shows "loss_Deserialize k (loss_Serialize k l @ rest) = Inr (l, rest)"
  using assms(2) by (auto simp: loss_Deserialize_def loss_Serialize_def rd_run
      ns3_read [OF assms(1)] uint_word_of_int simp del: of_int_minus)

lemma loss_length: "ns3_ok k \<Longrightarrow> length (loss_Serialize k l) = 4"
  by (simp add: loss_Serialize_def ns3_width)

lemma rcvtime_roundtrip:
  "ns3_ok k \<Longrightarrow> rcvtime_Deserialize k (rcvtime_Serialize k r @ rest)
     = Inr (r\<lparr>rt_pkt_size := 0\<rparr>, rest)"
  "ns3_ok k \<Longrightarrow> length (rcvtime_Serialize k r) = 8"
  by (simp_all add: rcvtime_Deserialize_def rcvtime_Serialize_def rd_run ns3_read ns3_width)

lemma net_state_roundtrip:
  assumes k: "ns3_ok k" and ok: "net_state_ok k f (Some s)"
    and bs: "NetStatePacketHeader_Serialize k f (Some s) = Inr bs"
  shows "NetStatePacketHeader_Deserialize k f this (bs @ rest)
    = Inr ((Some (net_state_view f s), NetStates_size s), rest)"
proof -
  have losses: "rd_times (length (ns_loss_seq s)) (loss_Deserialize k)
      (concat (map (loss_Serialize k) (ns_loss_seq s)) @ rest) = Inr (ns_loss_seq s, rest)" for rest
    using rd_times_run [of "ns_loss_seq s" "loss_Deserialize k" "loss_Serialize k" id] ok
    by (simp add: loss_roundtrip k net_state_ok_def)
  have hist: "rd_times (length (ns_recvtime_hist s)) (rcvtime_Deserialize k)
      (concat (map (rcvtime_Serialize k) (ns_recvtime_hist s)) @ rest)
      = Inr (map (\<lambda>r. r\<lparr>rt_pkt_size := 0\<rparr>) (ns_recvtime_hist s), rest)" for rest
    by (rule rd_times_run) (simp add: rcvtime_roundtrip k)
  have lens: "length (ns_loss_seq s) < 65536" "length (ns_recvtime_hist s) < 65536"
    and lr: "uint (word_of_int (loss_rate_code f s) :: u16) = loss_rate_code f s"
    and r: "\<not> (loss_rate_code f s < 0 \<or> 65536 \<le> loss_rate_code f s)"
    using ok by (auto simp: net_state_ok_def uint_word_of_int)
  have view: "net_state_view f s = \<lparr>ns_loss_rate = f (of_int (loss_rate_code f s) / 10000),
      ns_throughput_kbps = ns_throughput_kbps s, ns_fec_group_delay_us = ns_fec_group_delay_us s,
      ns_loss_seq = ns_loss_seq s,
      ns_recvtime_hist = map (\<lambda>r. r\<lparr>rt_pkt_size := 0\<rparr>) (ns_recvtime_hist s)\<rparr>"
    unfolding net_state_view_def by (cases s) simp
  have lr': "(unsigned (word_of_int (loss_rate_code f s) :: u16) :: rat) = of_int (loss_rate_code f s)"
    using arg_cong [OF lr, of rat_of_int] by simp
  have sz: "(12 + word_of_nat (4 * length (ns_loss_seq s)) +
      word_of_nat (8 * length (ns_recvtime_hist s)) :: u32) = NetStates_size s"
    by (simp add: NetStates_size_def)
  show ?thesis
    using bs r by (auto simp: NetStatePacketHeader_Deserialize_def rd_bind_run rd_return_run
        ns3_read [OF k] unat_word_of_nat_16 lens losses hist lr' sz view
        simp del: of_nat_mult)
qed

interpretation net_state: wire_header "NetStatePacketHeader_Serialize k f"
  "NetStatePacketHeader_Deserialize k f" "\<lambda>h. NetStates_size (the h)" "net_state_ok k f"
  "\<lambda>this h. Some (net_state_view f (the h))" for k f
proof
  fix h :: NetStatePacketHeader
  assume ok: "net_state_ok k f h"
  then obtain s where s: "h = Some s" and k: "ns3_ok k"
    and r: "\<not> (loss_rate_code f s < 0 \<or> 65536 \<le> loss_rate_code f s)"
    and lens: "length (ns_loss_seq s) < 65536" "length (ns_recvtime_hist s) < 65536"
    by (auto simp: net_state_ok_def split: option.splits)
  then obtain bs where bs: "NetStatePacketHeader_Serialize k f (Some s) = Inr bs" by auto
  then have "length bs = 12 + 4 * length (ns_loss_seq s) + 8 * length (ns_recvtime_hist s)"
    using r by (auto simp: ns3_width [OF k] length_concat_const [of _ _ 4]
        length_concat_const [of _ _ 8] loss_length [OF k] rcvtime_roundtrip [OF k])
  then have "length bs = unat (NetStates_size s)"
    using lens by (simp add: NetStates_size_def unat_word_of_nat_32
        del: of_nat_add of_nat_mult of_nat_Suc)
  with net_state_roundtrip [OF k ok [unfolded s] bs] bs
  show "\<exists>bs. NetStatePacketHeader_Serialize k f h = Inr bs \<and>
      length bs = unat (NetStates_size (the h)) \<and> (\<forall>this rest.
        NetStatePacketHeader_Deserialize k f this (bs @ rest)
        = Inr ((Some (net_state_view f (the h)), NetStates_size (the h)), rest))"
    by (simp add: s)
qed


section \<open>An instance of the ns-3 operations\<close>

text \<open>
  Big-endian integers and packets that are their bytes: an instance of the parameter, on which
  the properties that assume \<open>ns3_ok\<close> are exercised.
\<close>

fun be :: "nat \<Rightarrow> nat \<Rightarrow> bytes" where
  "be 0 x = []"
| "be (Suc n) x = be n (x div 256) @ [word_of_nat x]"

definition unbe :: "bytes \<Rightarrow> nat" where
  "unbe bs = foldl (\<lambda>a b. a * 256 + unat b) 0 bs"

lemma length_be [simp]: "length (be n x) = n"
  by (induction n x rule: be.induct) simp_all

lemma unbe_be: "unbe (be n x) = x mod 256 ^ n"
proof (induction n x rule: be.induct)
  case (1 x)
  show ?case by (simp add: unbe_def)
next
  case (2 n x)
  have "unbe (be (Suc n) x) = (x div 256 mod 256 ^ n) * 256 + x mod 256"
    using 2 by (simp add: unbe_def unat_of_nat)
  also have "\<dots> = x mod (256 * 256 ^ n)"
    by (simp add: mod_mult2_eq)
  finally show ?case by simp
qed

definition be_read :: "nat \<Rightarrow> 'a::len word reader" where
  "be_read n bs = (if length bs < n then Inl AssertFailed
     else Inr (word_of_nat (unbe (take n bs)), drop n bs))"

lemma be_read_be:
  fixes x :: "'a::len word"
  assumes "LENGTH('a) = 8 * n"
  shows "be_read n (be n (unat x) @ rest) = Inr (x, rest)"
proof -
  have "(256::nat) ^ n = 2 ^ LENGTH('a)" by (simp add: assms power_mult)
  then have "unat x mod 256 ^ n = unat x"
    by (metis mod_less unsigned_less)
  then show ?thesis by (simp add: be_read_def unbe_be)
qed

definition plain_ns3 :: "bytes ns3" where
  "plain_ns3 = \<lparr>WriteU8 = (\<lambda>x. be 1 (unat x)), WriteHtonU16 = (\<lambda>x. be 2 (unat x)),
     WriteHtonU32 = (\<lambda>x. be 4 (unat x)), WriteHtonU64 = (\<lambda>x. be 8 (unat x)),
     ReadU8 = be_read 1, ReadNtohU16 = be_read 2, ReadNtohU32 = be_read 4, ReadNtohU64 = be_read 8,
     CreatePacket = (\<lambda>n. replicate (unat n) 0), AddBytes = (@), PeekBytes = id,
     RemoveBytes = drop\<rparr>"

lemma plain_ns3_ok: "ns3_ok plain_ns3"
  by (simp add: ns3_ok_def plain_ns3_def be_read_be) (simp add: be_read_def unbe_def)

end
