(* ===== verification/Net_Packet.thy ===== *)
theory Net_Packet
  imports Wire
begin

text \<open>
  The packets of the application (\<open>src/bitrate-ctrl/model/network-packet.h\<close> and \<open>.cc\<close>). The class
  hierarchy is a hierarchy of extended records, so that a method of a base class works on every
  packet below it. Constructors leave some fields as the allocator found them: they are functions
  of the raw object.
\<close>

section \<open>The classes\<close>

record NetworkPacket =
  packet_type :: PacketType
  payload_size :: u32
  send_time :: time
  rcv_time :: time

record VideoPacket = NetworkPacket +
  enqueue_time :: time
  group_info_set_flag :: bool
  batch_info_set_flag :: bool
  video_header :: VideoPacketHeader

record DataPacket = VideoPacket +
  data_header :: DataPacketHeader

record FECPacket = VideoPacket +
  fec_header :: FECPacketHeader

record AckPacket = NetworkPacket +
  ack_header :: AckPacketHeader

record FrameAckPacket = NetworkPacket +
  frame_ack_header :: FrameAckPacketHeader

record NetStatePacket = NetworkPacket +
  net_state_header :: NetStatePacketHeader

text \<open>What a \<open>Ptr<NetworkPacket>\<close> points to. A \<open>DupFECPacket\<close> is a data packet of another type.\<close>

datatype net_packet =
    DataP DataPacket
  | FECP FECPacket
  | AckP AckPacket
  | FrameAckP FrameAckPacket
  | NetStateP NetStatePacket

definition MAX_PACKET_SIZE :: u16 where "MAX_PACKET_SIZE = 1460"
definition RTX_FEC_GROUP_ID :: u16 where "RTX_FEC_GROUP_ID = - 1"

definition NetworkPacket_GetMaxPayloadSize :: u16 where
  "NetworkPacket_GetMaxPayloadSize = MAX_PACKET_SIZE - 4"

definition VideoPacket_GetMaxPayloadSize :: u16 where
  "VideoPacket_GetMaxPayloadSize = MAX_PACKET_SIZE - 42"

definition DataPacket_GetMaxPayloadSize :: u16 where
  "DataPacket_GetMaxPayloadSize = VideoPacket_GetMaxPayloadSize - 12"

section \<open>Constructors and setters\<close>

definition NetworkPacket_ctor ::
  "PacketType \<Rightarrow> 'a NetworkPacket_scheme \<Rightarrow> 'a NetworkPacket_scheme" where
  "NetworkPacket_ctor t this = this\<lparr>packet_type := t, payload_size := 0,
     send_time := MicroSeconds 0, rcv_time := MicroSeconds 0\<rparr>"

definition IsPacketSent :: "'a NetworkPacket_scheme \<Rightarrow> bool" where
  "IsPacketSent this \<longleftrightarrow> send_time this \<noteq> MicroSeconds (-1)"

definition SetPayload :: "u32 \<Rightarrow> 'a NetworkPacket_scheme \<Rightarrow> 'a NetworkPacket_scheme" where
  "SetPayload sz this = this\<lparr>payload_size := sz\<rparr>"

definition VideoPacket_ctor ::
  "PacketType \<Rightarrow> 'a VideoPacket_scheme \<Rightarrow> 'a VideoPacket_scheme" where
  "VideoPacket_ctor t this =
     (let v = NetworkPacket_ctor t this
      in v\<lparr>video_header := (video_header v)\<lparr>vh_tx_count := 0, vh_encode_time := MicroSeconds 0\<rparr>,
        batch_info_set_flag := False, group_info_set_flag := False,
        enqueue_time := MicroSeconds 0\<rparr>)"

definition SetEncodeTime :: "time \<Rightarrow> 'a VideoPacket_scheme \<Rightarrow> 'a VideoPacket_scheme" where
  "SetEncodeTime t this = this\<lparr>video_header := (video_header this)\<lparr>vh_encode_time := t\<rparr>\<rparr>"

definition SetFECGroup ::
  "u32 \<Rightarrow> u16 \<Rightarrow> u16 \<Rightarrow> u16 \<Rightarrow> 'a VideoPacket_scheme \<Rightarrow> 'a VideoPacket_scheme" where
  "SetFECGroup group_id group_data_num group_fec_num pkt_id_in_group this =
     this\<lparr>video_header := (video_header this)\<lparr>vh_group_id := group_id,
        vh_group_data_num := group_data_num, vh_group_fec_num := group_fec_num,
        vh_pkt_id_in_group := pkt_id_in_group\<rparr>, group_info_set_flag := True\<rparr>"

definition SetFECBatch ::
  "u32 \<Rightarrow> u16 \<Rightarrow> u16 \<Rightarrow> u16 \<Rightarrow> 'a VideoPacket_scheme \<Rightarrow> 'a VideoPacket_scheme" where
  "SetFECBatch batch_id batch_data_num batch_fec_num pkt_id_in_batch this =
     this\<lparr>video_header := (video_header this)\<lparr>vh_batch_id := batch_id,
        vh_batch_data_num := batch_data_num, vh_batch_fec_num := batch_fec_num,
        vh_pkt_id_in_batch := pkt_id_in_batch\<rparr>, batch_info_set_flag := True\<rparr>"

definition ClearFECBatch :: "'a VideoPacket_scheme \<Rightarrow> 'a VideoPacket_scheme" where
  "ClearFECBatch this = this\<lparr>batch_info_set_flag := False\<rparr>"

definition SetTXCount :: "u8 \<Rightarrow> 'a VideoPacket_scheme \<Rightarrow> 'a VideoPacket_scheme" where
  "SetTXCount n this = this\<lparr>video_header := (video_header this)\<lparr>vh_tx_count := n\<rparr>\<rparr>"

definition IncreTXCount :: "'a VideoPacket_scheme \<Rightarrow> 'a VideoPacket_scheme" where
  "IncreTXCount this =
     this\<lparr>video_header := (video_header this)\<lparr>vh_tx_count := vh_tx_count (video_header this) + 1\<rparr>\<rparr>"

definition SetGlobalId :: "u16 \<Rightarrow> 'a VideoPacket_scheme \<Rightarrow> 'a VideoPacket_scheme" where
  "SetGlobalId i this = this\<lparr>video_header := (video_header this)\<lparr>vh_global_id := i\<rparr>\<rparr>"

definition SetFrameInfo ::
  "u32 \<Rightarrow> u32 \<Rightarrow> u16 \<Rightarrow> u16 \<Rightarrow> 'a DataPacket_scheme \<Rightarrow> 'a DataPacket_scheme" where
  "SetFrameInfo frame_id frame_size frame_pkt_num pkt_id_in_frame this =
     this\<lparr>data_header := (data_header this)\<lparr>dh_frame_id := frame_id, dh_frame_size := frame_size,
       dh_frame_pkt_num := frame_pkt_num, dh_pkt_id_in_frame := pkt_id_in_frame\<rparr>\<rparr>"

definition SetLastPkt :: "bool \<Rightarrow> 'a DataPacket_scheme \<Rightarrow> 'a DataPacket_scheme" where
  "SetLastPkt b this = this\<lparr>data_header := (data_header this)\<lparr>dh_last_pkt_mark := b\<rparr>\<rparr>"

definition DataPacket_ctor :: "u32 \<Rightarrow> u32 \<Rightarrow> u16 \<Rightarrow> u16 \<Rightarrow> DataPacket \<Rightarrow> DataPacket" where
  "DataPacket_ctor frame_id frame_size frame_pkt_num pkt_id_in_frame this =
     SetFrameInfo frame_id frame_size frame_pkt_num pkt_id_in_frame
       (SetLastPkt False (VideoPacket_ctor DATA_PKT this))"

text \<open>A data packet rebuilt from a digest that a FEC packet carries.\<close>

definition DataPacket_of_digest ::
  "DataPktDigest \<Rightarrow> u32 \<Rightarrow> u16 \<Rightarrow> u16 \<Rightarrow> u32 \<Rightarrow> u16 \<Rightarrow> u16 \<Rightarrow> DataPacket \<Rightarrow> DataPacket" where
  "DataPacket_of_digest d group_id group_data_num group_fec_num
       batch_id batch_data_num batch_fec_num this =
     (let v = VideoPacket_ctor DATA_PKT this;
          v = v\<lparr>data_header := (data_header v)\<lparr>dh_frame_id := dg_frame_id d,
            dh_frame_pkt_num := dg_frame_pkt_num d,
            dh_pkt_id_in_frame := dg_pkt_id_in_frame d\<rparr>\<rparr>;
          v = SetFECBatch batch_id batch_data_num batch_fec_num (dg_pkt_id_in_batch d) v
      in SetFECGroup group_id group_data_num group_fec_num (dg_pkt_id_in_group d) v)"

definition DupFECPacket_of_data :: "DataPacket \<Rightarrow> DataPacket" where
  "DupFECPacket_of_data p = p\<lparr>packet_type := DUP_FEC_PKT\<rparr>"

definition DataPktDigest_ctor :: "DataPacket \<Rightarrow> DataPktDigest" where
  "DataPktDigest_ctor p =
     \<lparr>dg_pkt_id_in_batch = vh_pkt_id_in_batch (video_header p),
      dg_pkt_id_in_group = vh_pkt_id_in_group (video_header p),
      dg_frame_id = dh_frame_id (data_header p),
      dg_frame_pkt_num = dh_frame_pkt_num (data_header p),
      dg_pkt_id_in_frame = dh_pkt_id_in_frame (data_header p)\<rparr>"

definition FECPacket_ctor :: "u8 \<Rightarrow> DataPacket list \<Rightarrow> FECPacket \<Rightarrow> FECPacket" where
  "FECPacket_ctor tx_count data_pkts this =
     (SetTXCount tx_count (VideoPacket_ctor FEC_PKT this))
       \<lparr>fec_header := map DataPktDigest_ctor data_pkts\<rparr>"

definition SetDataPackets :: "DataPacket list \<Rightarrow> FECPacket \<Rightarrow> FECPacket" where
  "SetDataPackets data_pkts this =
     this\<lparr>fec_header := fec_header this @ map DataPktDigest_ctor data_pkts\<rparr>"

definition AckPacket_ctor ::
  "GroupPacketInfo list \<Rightarrow> u16 \<Rightarrow> u8 \<Rightarrow> AckPacket \<Rightarrow> AckPacket" where
  "AckPacket_ctor pkt_infos last_pkt_id junk this =
     (NetworkPacket_ctor ACK_PKT this)\<lparr>ack_header :=
       \<lparr>ah_pkt_infos = map (\<lambda>i. i\<lparr>gpi_tx_count := junk\<rparr>) pkt_infos,
        ah_last_pkt_id = last_pkt_id\<rparr>\<rparr>"

definition FrameAckPacket_ctor :: "u32 \<Rightarrow> time \<Rightarrow> FrameAckPacket \<Rightarrow> FrameAckPacket" where
  "FrameAckPacket_ctor frame_id t this =
     (NetworkPacket_ctor FRAME_ACK_PKT this)\<lparr>frame_ack_header :=
       \<lparr>fa_frame_id = frame_id, fa_frame_encode_time = t\<rparr>\<rparr>"

definition NetStatePacket_ctor :: "NetStatePacket \<Rightarrow> NetStatePacket" where
  "NetStatePacket_ctor this = (NetworkPacket_ctor NETSTATE_PKT this)\<lparr>net_state_header := None\<rparr>"

definition SetNetStates :: "NetStates \<Rightarrow> NetStatePacket \<Rightarrow> NetStatePacket" where
  "SetNetStates s this = this\<lparr>net_state_header := Some s\<rparr>"


section \<open>To and from the network\<close>

text \<open>
  The objects the allocator hands out, before their constructor runs: \<open>raw_tx\<close> is the
  \<open>tx_count\<close> of a \<open>GroupPacketInfo\<close>.
\<close>

record raw_objects =
  raw_data :: DataPacket
  raw_fec :: FECPacket
  raw_ack :: AckPacket
  raw_frame_ack :: FrameAckPacket
  raw_net_state :: NetStatePacket
  raw_tx :: u8

definition AddNetworkHeader :: "'p ns3 \<Rightarrow> 'a NetworkPacket_scheme \<Rightarrow> 'p \<Rightarrow> 'p res" where
  "AddNetworkHeader k this = AddHeader k (Inr (NetworkPacketHeader_Serialize k (packet_type this)))"

definition DataPacket_ToNetPacket :: "'p ns3 \<Rightarrow> DataPacket \<Rightarrow> 'p res" where
  "DataPacket_ToNetPacket k this =
     res_bind (AddHeader k (Inr (DataPacketHeader_Serialize k (data_header this)))
       (CreatePacket k (payload_size this))) (\<lambda>q.
     res_bind (AddHeader k (Inr (VideoPacketHeader_Serialize k (video_header this))) q)
       (AddNetworkHeader k this))"

definition DataPacket_ToTcpSendPacket :: "'p ns3 \<Rightarrow> DataPacket \<Rightarrow> 'p res" where
  "DataPacket_ToTcpSendPacket k this =
     AddHeader k (Inr (DataPacketHeader_Serialize k (data_header this)))
       (CreatePacket k (payload_size this))"

definition GetHeaderLength :: "FECPacket \<Rightarrow> u32" where
  "GetHeaderLength this = 2 + word_of_nat (length (fec_header this) * (2 + 2 + 4 + 2 + 2))"

definition FEC_padding :: "FECPacket \<Rightarrow> u32" where
  "FEC_padding this = - GetHeaderLength this + ucast VideoPacket_GetMaxPayloadSize"

definition FECPacket_ToNetPacket :: "'p ns3 \<Rightarrow> FECPacket \<Rightarrow> 'p res" where
  "FECPacket_ToNetPacket k this =
     res_bind (AddHeader k (Inr (FECPacketHeader_Serialize k (fec_header this)))
       (CreatePacket k (FEC_padding this))) (\<lambda>q.
     res_bind (AddHeader k (Inr (VideoPacketHeader_Serialize k (video_header this))) q)
       (AddNetworkHeader k this))"

definition AckPacket_ToNetPacket :: "'p ns3 \<Rightarrow> AckPacket \<Rightarrow> 'p res" where
  "AckPacket_ToNetPacket k this =
     res_bind (AddHeader k (Inr (AckPacketHeader_Serialize k (ack_header this)))
       (CreatePacket k 0)) (AddNetworkHeader k this)"

definition FrameAckPacket_ToNetPacket :: "'p ns3 \<Rightarrow> FrameAckPacket \<Rightarrow> 'p res" where
  "FrameAckPacket_ToNetPacket k this =
     res_bind (AddHeader k (Inr (FrameAckPacketHeader_Serialize k (frame_ack_header this)))
       (CreatePacket k 0)) (AddNetworkHeader k this)"

definition NetStatePacket_ToNetPacket :: "'p ns3 \<Rightarrow> rounding \<Rightarrow> NetStatePacket \<Rightarrow> 'p res" where
  "NetStatePacket_ToNetPacket k f this =
     res_bind (AddHeader k (NetStatePacketHeader_Serialize k f (net_state_header this))
       (CreatePacket k 0)) (AddNetworkHeader k this)"

text \<open>The virtual method.\<close>

fun ToNetPacket :: "'p ns3 \<Rightarrow> rounding \<Rightarrow> net_packet \<Rightarrow> 'p res" where
  "ToNetPacket k f (DataP p) = DataPacket_ToNetPacket k p"
| "ToNetPacket k f (FECP p) = FECPacket_ToNetPacket k p"
| "ToNetPacket k f (AckP p) = AckPacket_ToNetPacket k p"
| "ToNetPacket k f (FrameAckP p) = FrameAckPacket_ToNetPacket k p"
| "ToNetPacket k f (NetStateP p) = NetStatePacket_ToNetPacket k f p"

definition DataPacket_of_packet :: "'p ns3 \<Rightarrow> DataPacket \<Rightarrow> 'p \<Rightarrow> DataPacket res" where
  "DataPacket_of_packet k raw q =
     (let this = VideoPacket_ctor DATA_PKT raw in
      res_bind (RemoveHeader k (VideoPacketHeader_Deserialize k (video_header this)) q) (\<lambda>(vh, q).
      res_bind (RemoveHeader k (DataPacketHeader_Deserialize k (data_header this)) q) (\<lambda>(dh, q).
      Inr (this\<lparr>video_header := vh, data_header := dh\<rparr>))))"

definition DupFECPacket_of_packet :: "'p ns3 \<Rightarrow> DataPacket \<Rightarrow> 'p \<Rightarrow> DataPacket res" where
  "DupFECPacket_of_packet k raw q =
     res_bind (DataPacket_of_packet k raw q) (\<lambda>p. Inr (p\<lparr>packet_type := DUP_FEC_PKT\<rparr>))"

definition FECPacket_of_packet :: "'p ns3 \<Rightarrow> FECPacket \<Rightarrow> 'p \<Rightarrow> FECPacket res" where
  "FECPacket_of_packet k raw q =
     (let this = (VideoPacket_ctor FEC_PKT raw)\<lparr>fec_header := []\<rparr> in
      res_bind (RemoveHeader k (VideoPacketHeader_Deserialize k (video_header this)) q) (\<lambda>(vh, q).
      res_bind (RemoveHeader k (FECPacketHeader_Deserialize k (fec_header this)) q) (\<lambda>(fh, q).
      Inr (this\<lparr>video_header := vh, fec_header := fh\<rparr>))))"

definition AckPacket_of_packet :: "'p ns3 \<Rightarrow> u8 \<Rightarrow> AckPacket \<Rightarrow> 'p \<Rightarrow> AckPacket res" where
  "AckPacket_of_packet k junk raw q =
     (let this = NetworkPacket_ctor ACK_PKT raw;
          this = this\<lparr>ack_header := (ack_header this)\<lparr>ah_pkt_infos := []\<rparr>\<rparr> in
      res_bind (RemoveHeader k (AckPacketHeader_Deserialize k junk (ack_header this)) q) (\<lambda>(h, q).
      Inr (this\<lparr>ack_header := h\<rparr>)))"

definition FrameAckPacket_of_packet ::
  "'p ns3 \<Rightarrow> FrameAckPacket \<Rightarrow> 'p \<Rightarrow> FrameAckPacket res" where
  "FrameAckPacket_of_packet k raw q =
     (let this = NetworkPacket_ctor FRAME_ACK_PKT raw in
      res_bind (RemoveHeader k (FrameAckPacketHeader_Deserialize k (frame_ack_header this)) q)
        (\<lambda>(h, q). Inr (this\<lparr>frame_ack_header := h\<rparr>)))"

definition NetStatePacket_of_packet ::
  "'p ns3 \<Rightarrow> rounding \<Rightarrow> NetStatePacket \<Rightarrow> 'p \<Rightarrow> NetStatePacket res" where
  "NetStatePacket_of_packet k f raw q =
     (let this = NetStatePacket_ctor raw in
      res_bind (RemoveHeader k (NetStatePacketHeader_Deserialize k f (net_state_header this)) q)
        (\<lambda>(h, q). Inr (this\<lparr>net_state_header := h\<rparr>)))"

definition ToInstance :: "'p ns3 \<Rightarrow> rounding \<Rightarrow> raw_objects \<Rightarrow> 'p \<Rightarrow> net_packet option res" where
  "ToInstance k f raw packet =
     res_bind (RemoveHeader k (NetworkPacketHeader_Deserialize k) packet) (\<lambda>(t, q).
       case t of
         Some DATA_PKT \<Rightarrow> res_bind (DataPacket_of_packet k (raw_data raw) q) (\<lambda>p. Inr (Some (DataP p)))
       | Some DUP_FEC_PKT \<Rightarrow>
           res_bind (DupFECPacket_of_packet k (raw_data raw) q) (\<lambda>p. Inr (Some (DataP p)))
       | Some FEC_PKT \<Rightarrow> res_bind (FECPacket_of_packet k (raw_fec raw) q) (\<lambda>p. Inr (Some (FECP p)))
       | Some ACK_PKT \<Rightarrow>
           res_bind (AckPacket_of_packet k (raw_tx raw) (raw_ack raw) q) (\<lambda>p. Inr (Some (AckP p)))
       | Some FRAME_ACK_PKT \<Rightarrow>
           res_bind (FrameAckPacket_of_packet k (raw_frame_ack raw) q) (\<lambda>p. Inr (Some (FrameAckP p)))
       | Some NETSTATE_PKT \<Rightarrow>
           res_bind (NetStatePacket_of_packet k f (raw_net_state raw) q) (\<lambda>p. Inr (Some (NetStateP p)))
       | _ \<Rightarrow> Inr None)"


section \<open>What arrives\<close>

text \<open>
  The header that a receiver reads, and the packets for which the code's own assumptions hold:
  the type fits the class, the counts fit their fields, times are not negative.
\<close>

definition video_view :: "VideoPacketHeader \<Rightarrow> VideoPacketHeader" where
  "video_view h = h\<lparr>vh_encode_time := encode_time_ms h\<rparr>"

fun packet_ok :: "'p ns3 \<Rightarrow> rounding \<Rightarrow> net_packet \<Rightarrow> bool" where
  "packet_ok k f (DataP p) \<longleftrightarrow>
     packet_type p \<in> {DATA_PKT, DUP_FEC_PKT} \<and> video_ok k (video_header p)"
| "packet_ok k f (FECP p) \<longleftrightarrow>
     packet_type p = FEC_PKT \<and> video_ok k (video_header p) \<and> fec_ok k (fec_header p)"
| "packet_ok k f (AckP p) \<longleftrightarrow> packet_type p = ACK_PKT \<and> ack_ok k (ack_header p)"
| "packet_ok k f (FrameAckP p) \<longleftrightarrow>
     packet_type p = FRAME_ACK_PKT \<and> frame_ack_ok k (frame_ack_header p)"
| "packet_ok k f (NetStateP p) \<longleftrightarrow>
     packet_type p = NETSTATE_PKT \<and> net_state_ok k f (net_state_header p)"

text \<open>
  The packet a receiver builds: the headers that were sent, with the encoding time cut to
  milliseconds (microseconds in a frame ACK) and the loss rate to a 16-bit fraction; everything
  that is not on the wire (the mark of the last packet, transmission counts and sizes in lists)
  is what the constructors leave.
\<close>

fun received :: "rounding \<Rightarrow> raw_objects \<Rightarrow> net_packet \<Rightarrow> net_packet" where
  "received f raw (DataP p) = DataP ((VideoPacket_ctor (packet_type p) (raw_data raw))
     \<lparr>video_header := video_view (video_header p),
      data_header := (data_header p)\<lparr>dh_last_pkt_mark :=
        dh_last_pkt_mark (data_header (raw_data raw))\<rparr>\<rparr>)"
| "received f raw (FECP p) = FECP ((VideoPacket_ctor FEC_PKT (raw_fec raw))
     \<lparr>video_header := video_view (video_header p), fec_header := fec_header p\<rparr>)"
| "received f raw (AckP p) = AckP ((NetworkPacket_ctor ACK_PKT (raw_ack raw))
     \<lparr>ack_header := (ack_header p)\<lparr>ah_pkt_infos :=
        map (\<lambda>i. i\<lparr>gpi_tx_count := raw_tx raw\<rparr>) (ah_pkt_infos (ack_header p))\<rparr>\<rparr>)"
| "received f raw (FrameAckP p) = FrameAckP ((NetworkPacket_ctor FRAME_ACK_PKT (raw_frame_ack raw))
     \<lparr>frame_ack_header := (frame_ack_header p)\<lparr>fa_frame_encode_time :=
        MicroSeconds (GetMicroSeconds (fa_frame_encode_time (frame_ack_header p)))\<rparr>\<rparr>)"
| "received f raw (NetStateP p) = NetStateP ((NetworkPacket_ctor NETSTATE_PKT (raw_net_state raw))
     \<lparr>net_state_header := Some (net_state_view f (the (net_state_header p)))\<rparr>)"

lemma network_remove_add:
  assumes "ns3_ok k"
  obtains q where "AddNetworkHeader k this p = Inr q"
    and "RemoveHeader k (NetworkPacketHeader_Deserialize k) q = Inr (Some (packet_type this), p)"
    and "length (PeekBytes k q) = 4 + length (PeekBytes k p)"
proof -
  have "network_ok k (Some (packet_type this))" using assms by (simp add: network_ok_def)
  from network.remove_add [OF assms this, of p] show ?thesis
    using that by (auto simp: AddNetworkHeader_def)
qed

lemma ctor_type: "(VideoPacket_ctor t this)\<lparr>packet_type := t'\<rparr> = VideoPacket_ctor t' this"
  by (simp add: VideoPacket_ctor_def NetworkPacket_ctor_def Let_def)

lemma ctor_last_pkt:
  "dh_last_pkt_mark (data_header (VideoPacket_ctor t this)) = dh_last_pkt_mark (data_header this)"
  by (simp add: VideoPacket_ctor_def NetworkPacket_ctor_def Let_def)

lemma dup_received:
  "(VideoPacket_ctor DATA_PKT this)\<lparr>video_header := v, data_header := d, packet_type := t\<rparr>
     = (VideoPacket_ctor t this)\<lparr>video_header := v, data_header := d\<rparr>"
  by (simp add: VideoPacket_ctor_def NetworkPacket_ctor_def Let_def)

lemma data_roundtrip:
  assumes k: "ns3_ok k" and ok: "packet_ok k f (DataP p)"
  obtains q where "DataPacket_ToNetPacket k p = Inr q"
    and "ToInstance k f raw q = Inr (Some (received f raw (DataP p)))"
    and "length (PeekBytes k q) = 47 + unat (payload_size p)"
proof -
  let ?h = "(data_header p)"
  obtain q1 where 1: "AddHeader k (Inr (DataPacketHeader_Serialize k ?h))
      (CreatePacket k (payload_size p)) = Inr q1"
    "\<And>this. RemoveHeader k (DataPacketHeader_Deserialize k this) q1
      = Inr (?h\<lparr>dh_last_pkt_mark := dh_last_pkt_mark this\<rparr>, CreatePacket k (payload_size p))"
    "length (PeekBytes k q1) = 12 + unat (payload_size p)"
    using data.remove_add [OF k k, of ?h "CreatePacket k (payload_size p)"]
    by (auto simp: DataPacketHeader_GetSerializedSize_def ns3_packet [OF k])
  have vok: "video_ok k (video_header p)" using ok by simp
  obtain q2 where 2: "AddHeader k (Inr (VideoPacketHeader_Serialize k (video_header p))) q1 = Inr q2"
    "\<And>this. RemoveHeader k (VideoPacketHeader_Deserialize k this) q2
      = Inr (video_view (video_header p), q1)"
    "length (PeekBytes k q2) = 31 + length (PeekBytes k q1)"
    using video.remove_add [OF k vok, of q1]
    by (auto simp: VideoPacketHeader_GetSerializedSize_def video_view_def)
  obtain q3 where 3: "AddNetworkHeader k p q2 = Inr q3"
    "RemoveHeader k (NetworkPacketHeader_Deserialize k) q3 = Inr (Some (packet_type p), q2)"
    "length (PeekBytes k q3) = 4 + length (PeekBytes k q2)"
    using network_remove_add [OF k] by blast
  have "DataPacket_ToNetPacket k p = Inr q3"
    by (simp add: DataPacket_ToNetPacket_def 1 2 3)
  moreover have "ToInstance k f raw q3 = Inr (Some (received f raw (DataP p)))"
    using ok by (auto simp: ToInstance_def 3 DataPacket_of_packet_def DupFECPacket_of_packet_def
        Let_def 1 2 ctor_last_pkt dup_received)
  ultimately show ?thesis using that 1(3) 2(3) 3(3) by simp
qed

lemma fec_roundtrip:
  assumes k: "ns3_ok k" and ok: "packet_ok k f (FECP p)"
  obtains q where "FECPacket_ToNetPacket k p = Inr q"
    and "ToInstance k f raw q = Inr (Some (received f raw (FECP p)))"
    and "length (PeekBytes k q) =
      35 + unat (FECPacketHeader_GetSerializedSize (fec_header p)) + unat (FEC_padding p)"
proof -
  have fok: "fec_ok k (fec_header p)" and vok: "video_ok k (video_header p)" using ok by simp_all
  obtain q1 where 1: "AddHeader k (Inr (FECPacketHeader_Serialize k (fec_header p)))
      (CreatePacket k (FEC_padding p)) = Inr q1"
    "\<And>this. RemoveHeader k (FECPacketHeader_Deserialize k this) q1
      = Inr (this @ fec_header p, CreatePacket k (FEC_padding p))"
    "length (PeekBytes k q1) =
      unat (FECPacketHeader_GetSerializedSize (fec_header p)) + unat (FEC_padding p)"
    using fec.remove_add [OF k fok, of "CreatePacket k (FEC_padding p)"]
    by (auto simp: ns3_packet [OF k])
  obtain q2 where 2: "AddHeader k (Inr (VideoPacketHeader_Serialize k (video_header p))) q1 = Inr q2"
    "\<And>this. RemoveHeader k (VideoPacketHeader_Deserialize k this) q2
      = Inr (video_view (video_header p), q1)"
    "length (PeekBytes k q2) = 31 + length (PeekBytes k q1)"
    using video.remove_add [OF k vok, of q1]
    by (auto simp: VideoPacketHeader_GetSerializedSize_def video_view_def)
  obtain q3 where 3: "AddNetworkHeader k p q2 = Inr q3"
    "RemoveHeader k (NetworkPacketHeader_Deserialize k) q3 = Inr (Some (packet_type p), q2)"
    "length (PeekBytes k q3) = 4 + length (PeekBytes k q2)"
    using network_remove_add [OF k] by blast
  have "FECPacket_ToNetPacket k p = Inr q3"
    by (simp add: FECPacket_ToNetPacket_def 1 2 3)
  moreover have "ToInstance k f raw q3 = Inr (Some (received f raw (FECP p)))"
    using ok by (auto simp: ToInstance_def 3 FECPacket_of_packet_def Let_def 1 2)
  ultimately show ?thesis using that 1(3) 2(3) 3(3) by simp
qed

lemma ack_roundtrip:
  assumes k: "ns3_ok k" and ok: "packet_ok k f (AckP p)"
  obtains q where "AckPacket_ToNetPacket k p = Inr q"
    and "ToInstance k f raw q = Inr (Some (received f raw (AckP p)))"
proof -
  have aok: "ack_ok k (ack_header p)" using ok by simp
  obtain q1 where 1: "AddHeader k (Inr (AckPacketHeader_Serialize k (ack_header p)))
      (CreatePacket k 0) = Inr q1"
    "\<And>this. RemoveHeader k (AckPacketHeader_Deserialize k (raw_tx raw) this) q1
      = Inr (ack_seen (raw_tx raw) this (ack_header p), CreatePacket k 0)"
    using ack.remove_add [OF k aok, of "CreatePacket k 0"] by metis
  obtain q2 where 2: "AddNetworkHeader k p q1 = Inr q2"
    "RemoveHeader k (NetworkPacketHeader_Deserialize k) q2 = Inr (Some (packet_type p), q1)"
    using network_remove_add [OF k] by blast
  have "AckPacket_ToNetPacket k p = Inr q2"
    by (simp add: AckPacket_ToNetPacket_def 1 2)
  moreover have "ToInstance k f raw q2 = Inr (Some (received f raw (AckP p)))"
    using ok by (auto simp: ToInstance_def 2 AckPacket_of_packet_def Let_def 1 ack_seen_def)
  ultimately show ?thesis using that by simp
qed


lemma frame_ack_roundtrip:
  assumes k: "ns3_ok k" and ok: "packet_ok k f (FrameAckP p)"
  obtains q where "FrameAckPacket_ToNetPacket k p = Inr q"
    and "ToInstance k f raw q = Inr (Some (received f raw (FrameAckP p)))"
proof -
  have aok: "frame_ack_ok k (frame_ack_header p)" using ok by simp
  obtain q1 where 1: "AddHeader k (Inr (FrameAckPacketHeader_Serialize k (frame_ack_header p)))
      (CreatePacket k 0) = Inr q1"
    "\<And>this. RemoveHeader k (FrameAckPacketHeader_Deserialize k this) q1
      = Inr ((frame_ack_header p)\<lparr>fa_frame_encode_time := MicroSeconds (GetMicroSeconds
          (fa_frame_encode_time (frame_ack_header p)))\<rparr>, CreatePacket k 0)"
    using frame_ack.remove_add [OF k aok, of "CreatePacket k 0"] by metis
  obtain q2 where 2: "AddNetworkHeader k p q1 = Inr q2"
    "RemoveHeader k (NetworkPacketHeader_Deserialize k) q2 = Inr (Some (packet_type p), q1)"
    using network_remove_add [OF k] by blast
  have "FrameAckPacket_ToNetPacket k p = Inr q2"
    by (simp add: FrameAckPacket_ToNetPacket_def 1 2)
  moreover have "ToInstance k f raw q2 = Inr (Some (received f raw (FrameAckP p)))"
    using ok by (auto simp: ToInstance_def 2 FrameAckPacket_of_packet_def Let_def 1)
  ultimately show ?thesis using that by simp
qed

lemma net_state_packet_roundtrip:
  assumes k: "ns3_ok k" and ok: "packet_ok k f (NetStateP p)"
  obtains q where "NetStatePacket_ToNetPacket k f p = Inr q"
    and "ToInstance k f raw q = Inr (Some (received f raw (NetStateP p)))"
proof -
  have nok: "net_state_ok k f (net_state_header p)" using ok by simp
  obtain q1 where 1: "AddHeader k (NetStatePacketHeader_Serialize k f (net_state_header p))
      (CreatePacket k 0) = Inr q1"
    "\<And>this. RemoveHeader k (NetStatePacketHeader_Deserialize k f this) q1
      = Inr (Some (net_state_view f (the (net_state_header p))), CreatePacket k 0)"
    using net_state.remove_add [OF k nok, of "CreatePacket k 0"] by metis
  obtain q2 where 2: "AddNetworkHeader k p q1 = Inr q2"
    "RemoveHeader k (NetworkPacketHeader_Deserialize k) q2 = Inr (Some (packet_type p), q1)"
    using network_remove_add [OF k] by blast
  have "NetStatePacket_ToNetPacket k f p = Inr q2"
    by (simp add: NetStatePacket_ToNetPacket_def 1 2)
  moreover have "ToInstance k f raw q2 = Inr (Some (received f raw (NetStateP p)))"
    using ok by (auto simp: ToInstance_def 2 NetStatePacket_of_packet_def NetStatePacket_ctor_def
        Let_def 1)
  ultimately show ?thesis using that by simp
qed

section \<open>Properties\<close>

lemma FEC_padding_uint:
  "uint (FEC_padding p) = (1416 - 12 * int (length (fec_header p))) mod 2 ^ 32"
proof -
  have eq: "FEC_padding p = word_of_int (1416 - 12 * int (length (fec_header p)))"
    by (simp add: FEC_padding_def GetHeaderLength_def VideoPacket_GetMaxPayloadSize_def
        MAX_PACKET_SIZE_def)
  show ?thesis unfolding eq uint_word_of_int by simp
qed

lemma FEC_padding_fits:
  assumes "length (fec_header p) \<le> 118"
  shows "unat (FEC_padding p) = 1416 - 12 * length (fec_header p)"
proof -
  have "uint (FEC_padding p) = 1416 - 12 * int (length (fec_header p))"
    unfolding FEC_padding_uint using assms by (intro mod_pos_pos_trivial) auto
  then show ?thesis using assms by (simp add: unat_eq_nat_uint)
qed

lemma FEC_padding_wraps:
  assumes "118 < length (fec_header p)" "length (fec_header p) < 65536"
  shows "2 ^ 31 \<le> unat (FEC_padding p)"
proof -
  have "(1416 - 12 * int (length (fec_header p))) mod 2 ^ 32
      = (1416 - 12 * int (length (fec_header p)) + 2 ^ 32) mod 2 ^ 32"
    by (rule mod_add_self2 [symmetric])
  also have "\<dots> = 1416 - 12 * int (length (fec_header p)) + 2 ^ 32"
    using assms by (intro mod_pos_pos_trivial) auto
  finally have "uint (FEC_padding p) = 1416 - 12 * int (length (fec_header p)) + 2 ^ 32"
    unfolding FEC_padding_uint .
  then show ?thesis using assms(2) by (simp add: unat_eq_nat_uint)
qed

definition example_video :: VideoPacketHeader where
  "example_video = \<lparr>vh_encode_time = MilliSeconds 12 + 345, vh_global_id = 65535, vh_group_id = 7,
     vh_group_data_num = 3, vh_group_fec_num = 1, vh_pkt_id_in_group = 2, vh_batch_id = 9,
     vh_batch_data_num = 3, vh_batch_fec_num = 1, vh_pkt_id_in_batch = 2, vh_tx_count = 1\<rparr>"

definition example_data :: DataPacket where
  "example_data = \<lparr>packet_type = DUP_FEC_PKT, payload_size = 1406, send_time = 0, rcv_time = 0,
     enqueue_time = 0, group_info_set_flag = True, batch_info_set_flag = True,
     video_header = example_video,
     data_header = \<lparr>dh_frame_id = 5, dh_frame_pkt_num = 4, dh_pkt_id_in_frame = 1,
       dh_frame_size = 5000, dh_last_pkt_mark = True\<rparr>\<rparr>"

definition example_fec :: FECPacket where
  "example_fec = \<lparr>packet_type = FEC_PKT, payload_size = 0, send_time = 0, rcv_time = 0,
     enqueue_time = 0, group_info_set_flag = True, batch_info_set_flag = True,
     video_header = example_video, fec_header = replicate 119 (DataPktDigest_ctor example_data)\<rparr>"

definition example_raw :: raw_objects where
  "example_raw = \<lparr>raw_data = example_data, raw_fec = example_fec,
     raw_ack = \<lparr>packet_type = ACK_PKT, payload_size = 0, send_time = 0, rcv_time = 0,
       ack_header = \<lparr>ah_pkt_infos = [], ah_last_pkt_id = 0\<rparr>\<rparr>,
     raw_frame_ack = \<lparr>packet_type = ACK_PKT, payload_size = 0, send_time = 0, rcv_time = 0,
       frame_ack_header = \<lparr>fa_frame_id = 0, fa_frame_encode_time = 0\<rparr>\<rparr>,
     raw_net_state = \<lparr>packet_type = ACK_PKT, payload_size = 0, send_time = 0, rcv_time = 0,
       net_state_header = None\<rparr>, raw_tx = 0\<rparr>"

lemmas example_defs = example_video_def example_data_def example_fec_def example_raw_def

lemma example_data_ok: "packet_ok plain_ns3 f (DataP example_data)"
  by (simp add: example_defs video_ok_def plain_ns3_ok time_defs)

lemma example_fec_ok: "packet_ok plain_ns3 f (FECP example_fec)"
  by (simp add: example_defs video_ok_def fec_ok_def plain_ns3_ok time_defs)

text \<open>
  C4: whatever packet the application sends, \<open>ToInstance\<close> on the bytes that
  \<open>ToNetPacket\<close> produced gives a packet of the same class and type with the same headers
  (\<open>received\<close> lists what is rounded or lost): data, duplicated, FEC, ACK, frame ACK and
  network state packets alike.
\<close>

theorem ToInstance_ToNetPacket:
  assumes "ns3_ok k" "packet_ok k f p"
  shows "\<exists>q. ToNetPacket k f p = Inr q \<and> ToInstance k f raw q = Inr (Some (received f raw p))"
proof (cases p)
  case (DataP x)
  with data_roundtrip [OF assms(1) assms(2) [unfolded DataP]] show ?thesis
    by (metis ToNetPacket.simps(1))
next
  case (FECP x)
  with fec_roundtrip [OF assms(1) assms(2) [unfolded FECP]] show ?thesis
    by (metis ToNetPacket.simps(2))
next
  case (AckP x)
  with ack_roundtrip [OF assms(1) assms(2) [unfolded AckP]] show ?thesis
    by (metis ToNetPacket.simps(3))
next
  case (FrameAckP x)
  with frame_ack_roundtrip [OF assms(1) assms(2) [unfolded FrameAckP]] show ?thesis
    by (metis ToNetPacket.simps(4))
next
  case (NetStateP x)
  with net_state_packet_roundtrip [OF assms(1) assms(2) [unfolded NetStateP]] show ?thesis
    by (metis ToNetPacket.simps(5))
qed

theorem ToInstance_ToNetPacket_witness:
  "\<exists>q. ToNetPacket plain_ns3 id (DataP example_data) = Inr q \<and>
    ToInstance plain_ns3 id example_raw q = Inr (Some (received id example_raw (DataP example_data)))"
  by (rule ToInstance_ToNetPacket [OF plain_ns3_ok example_data_ok])

text \<open>Packet sizes. A data packet whose payload respects \<open>DataPacket::GetMaxPayloadSize\<close> fits
  \<open>MAX_PACKET_SIZE\<close>; a FEC packet has 1453 bytes as long as it covers at most 118 data packets,
  but from 119 on the unsigned padding size wraps and the packet is asked to have at least
  \<open>2 ^ 31\<close> bytes.
\<close>

theorem packet_sizes:
  assumes "ns3_ok k" "packet_ok k f p" "ToNetPacket k f p = Inr q"
  shows "case p of
      DataP d \<Rightarrow> payload_size d \<le> ucast DataPacket_GetMaxPayloadSize \<longrightarrow>
        length (PeekBytes k q) \<le> unat MAX_PACKET_SIZE
    | FECP x \<Rightarrow> (if length (fec_header x) \<le> 118 then length (PeekBytes k q) = 1453
        else 2 ^ 31 \<le> length (PeekBytes k q))
    | _ \<Rightarrow> True"
proof (cases p)
  case (DataP d)
  obtain q' where "ToNetPacket k f p = Inr q'" "length (PeekBytes k q') = 47 + unat (payload_size d)"
    using data_roundtrip [OF assms(1) assms(2) [unfolded DataP]] DataP by (metis ToNetPacket.simps(1))
  then show ?thesis
    using assms(3) DataP by (simp add: DataPacket_GetMaxPayloadSize_def
        VideoPacket_GetMaxPayloadSize_def MAX_PACKET_SIZE_def word_le_nat_alt)
next
  case (FECP x)
  have len: "length (fec_header x) < 65536" using assms(2) FECP by (simp add: fec_ok_def)
  obtain q' where "ToNetPacket k f p = Inr q'" and q': "length (PeekBytes k q') =
      35 + unat (FECPacketHeader_GetSerializedSize (fec_header x)) + unat (FEC_padding x)"
    using fec_roundtrip [OF assms(1) assms(2) [unfolded FECP]] FECP by (metis ToNetPacket.simps(2))
  then have q: "q' = q" using assms(3) by simp
  have "unat (FECPacketHeader_GetSerializedSize (fec_header x)) = 12 * length (fec_header x) + 2"
    using len by (simp add: FECPacketHeader_GetSerializedSize_def unat_word_of_nat_32
        del: of_nat_add of_nat_mult of_nat_Suc)
  then show ?thesis
    using FEC_padding_fits [of x] FEC_padding_wraps [OF _ len] q' FECP unfolding q by auto
qed simp_all

theorem packet_sizes_witness:
  "\<exists>q. ToNetPacket plain_ns3 id (FECP example_fec) = Inr q \<and> 2 ^ 31 \<le> length (PeekBytes plain_ns3 q)"
proof -
  obtain q where q: "FECPacket_ToNetPacket plain_ns3 example_fec = Inr q"
    using fec_roundtrip [OF plain_ns3_ok example_fec_ok] by blast
  then have "ToNetPacket plain_ns3 id (FECP example_fec) = Inr q" by simp
  from packet_sizes [OF plain_ns3_ok example_fec_ok this] this show ?thesis
    by (auto simp: example_fec_def)
qed

end
