(* ===== verification/Zhuge_Queue.thy ===== *)
theory Zhuge_Queue
  imports Delta_Delay Net_Packet
begin

text \<open>
  \<open>NetworkQueueZhuge\<close> (\<open>src/zhuge/model/network-queue-zhuge.h\<close> and \<open>.cc\<close>): the access point.
  Every millisecond it estimates the dequeue rate of the wireless queue (\<open>UpdateTxRate\<close>); for a
  data packet towards the client it predicts the queueing delay (\<open>CalculateTotalDelayMs\<close>) and
  either feeds the change to the source of ACK delays (TCP, \<open>SetAckDelay\<close>) or sends a network
  state packet back on the client's behalf (UDP, \<open>Sendback\<close>); an ACK from the client is held
  back by the sampled delay (\<open>OnRecv_snddev\<close>). The devices, their queues and the headers ns-3
  parses out of a packet are arguments.
\<close>

section \<open>What ns-3 hands to the application\<close>

text \<open>
  A packet as its headers show it. \<open>pk_size\<close> is the size as delivered (IP header included),
  \<open>pk_size_udp\<close> the size without the IP header, \<open>pk_left\<close> what \<open>ToInstance\<close> leaves, and
  \<open>pk_app\<close> the UDP payload.
\<close>

record 'p ip_packet =
  ip_src :: u32
  ip_dst :: u32
  ip_id :: u16
  ip_proto :: u8
  ip_payload_size :: u16
  udp_sport :: u16
  tcp_flags :: u8
  is_action :: bool
  pk_size :: u32
  pk_size_udp :: u32
  pk_left :: u32
  pk_app :: 'p

text \<open>The transmission queue below (\<open>m_wmq\<close> or \<open>m_dlQueue\<close>), head first.\<close>

record 'p tx_queue =
  GetTotalReceivedBytes :: u32
  GetNBytes :: u32
  queued :: "'p ip_packet list"

section \<open>State\<close>

record 'p zhuge =
  m_wirtcEnable :: bool
  m_sendIP :: u32
  m_sendPort :: u16
  m_recvIP :: u32
  m_recvPort :: u16
  cc_create :: bool
  m_lastTotalTxBytes :: u32
  last_id :: u16
  m_lastHeadId :: u16
  m_lastHeadDstAddr :: u32
  m_curQHeadTimeMs :: u32
  m_curQSizeByte :: u32
  kTxBytesListInterval :: time
  extra_bytes :: u32
  m_mode :: int
  m_qsize :: int
  m_txBytesList :: "int list"
  m_lastQSizeByte :: u32
  m_lastTotalDelayMs :: u32
  kAmpduMaxWaitMs :: u32
  m_fastAckRtx :: bool
  m_LastRcvAck :: u32
  m_cache :: "'p ip_packet list"
  m_lastAckArrv :: time
  m_lastAckSent :: time
  m_deltaAckDelay :: delta_delay
  kMaxActualDelay :: time
  m_isFirstPkt :: bool
  m_isFirstAck :: bool
  kTxBytesListWindow :: u16
  kMinTxRateBps :: u32
  m_curTxRateBps :: u32
  m_curTxDelayUs :: u32
  schedule_flag :: bool
  sndback_pkt :: "net_packet option"
  sndback_pkt_size :: u32
  send_id :: u16
  sendaddr :: u32

text \<open>The constructor; the fields it does not name keep what the allocator left.\<close>

definition Zhuge_ctor :: "'p zhuge \<Rightarrow> 'p zhuge" where
  "Zhuge_ctor raw = raw\<lparr>m_lastTotalDelayMs := 0, kAmpduMaxWaitMs := 5,
     m_deltaAckDelay := DeltaDelay_new, kMaxActualDelay := MilliSeconds 10,
     kMinTxRateBps := push_bit 10 500, m_curTxRateBps := push_bit 10 500, m_curTxDelayUs := 0,
     m_txBytesList := [], m_cache := [], sndback_pkt := None\<rparr>"

definition Zhuge_Setup ::
  "u32 \<Rightarrow> u16 \<Rightarrow> u32 \<Rightarrow> u16 \<Rightarrow> bool \<Rightarrow> u16 \<Rightarrow> bool \<Rightarrow> int \<Rightarrow> int \<Rightarrow> bool \<Rightarrow> 'p zhuge \<Rightarrow> 'p zhuge" where
  "Zhuge_Setup sendIP sendPort recvIP recvPort wirtc interval tcpEnabled mode qsize fastAckRtx s =
     s\<lparr>m_wirtcEnable := wirtc, m_sendIP := sendIP, m_sendPort := sendPort, m_recvIP := recvIP,
       m_recvPort := recvPort, cc_create := tcpEnabled, kTxBytesListInterval := MilliSeconds 1,
       last_id := 0, m_lastTotalTxBytes := 0, schedule_flag := False,
       kTxBytesListWindow :=
         word_of_int ((5 * uint interval) sdiv GetMilliSeconds (MilliSeconds 1)),
       m_mode := mode, m_qsize := qsize, m_fastAckRtx := fastAckRtx, m_LastRcvAck := 1\<rparr>"

text \<open>The part of \<open>InitSocket\<close> that is state of the application.\<close>

definition Zhuge_InitSocket :: "'p zhuge \<Rightarrow> 'p zhuge" where
  "Zhuge_InitSocket s = s\<lparr>m_isFirstAck := True, m_isFirstPkt := True, m_lastHeadId := 0,
     m_curQHeadTimeMs := 0\<rparr>"

section \<open>The dequeue rate\<close>

text \<open>The packet at the head of the queue; in Wi-Fi mode action frames are skipped.\<close>

definition head_packet :: "int \<Rightarrow> 'p tx_queue \<Rightarrow> 'p ip_packet option res" where
  "head_packet mode q =
     (if mode = 1 then Inr (case queued q of [] \<Rightarrow> None | p # _ \<Rightarrow> Some p)
      else if mode = 0 then
        Inr (case dropWhile is_action (queued q) of [] \<Rightarrow> None | p # _ \<Rightarrow> Some p)
      else Inl FatalError)"

definition update_head :: "'p ip_packet option \<Rightarrow> 'p zhuge \<Rightarrow> 'p zhuge res" where
  "update_head hp s =
     (case hp of
        None \<Rightarrow> Inr (s\<lparr>m_curQHeadTimeMs := 0\<rparr>)
      | Some p \<Rightarrow>
          if m_mode s = 1 then
            if ip_id p \<noteq> m_lastHeadId s \<or> ip_dst p \<noteq> m_lastHeadDstAddr s
            then Inr (s\<lparr>m_lastHeadId := ip_id p, m_lastHeadDstAddr := ip_dst p, m_curQHeadTimeMs := 0\<rparr>)
            else Inr (s\<lparr>m_curQHeadTimeMs := m_curQHeadTimeMs s +
              word_of_int (GetMilliSeconds (kTxBytesListInterval s))\<rparr>)
          else Inl FatalError)"

text \<open>
  One slot per tick: the bytes sent (\<open>int32_t\<close>), 0 when packets are waiting but none left, -1
  when the queue is empty.
\<close>

definition record_slot :: "'p tx_queue \<Rightarrow> 'p zhuge \<Rightarrow> 'p zhuge" where
  "record_slot q s =
     (let curTotalTxBytes = GetTotalReceivedBytes q - GetNBytes q;
          slot = (if curTotalTxBytes > m_lastTotalTxBytes s
                  then sint (curTotalTxBytes - m_lastTotalTxBytes s)
                  else if GetNBytes q > 0 then 0 else -1)
      in s\<lparr>m_txBytesList := keep_last (unat (kTxBytesListWindow s)) (m_txBytesList s @ [slot]),
           m_lastTotalTxBytes := curTotalTxBytes\<rparr>)"

text \<open>The loop over the window: bytes, idle slots, busy slots, all \<open>uint32_t\<close>.\<close>

fun tx_sums :: "int list \<Rightarrow> u32 \<times> u32 \<times> u32 \<Rightarrow> u32 \<times> u32 \<times> u32" where
  "tx_sums [] acc = acc"
| "tx_sums (x # xs) (txBytesSum, txIdle, txBusy) =
     (if x > 0 then tx_sums xs (txBytesSum + word_of_int x, txIdle, txBusy)
      else if x = 0 then tx_sums xs (txBytesSum, txIdle, txBusy + 1)
      else tx_sums xs (txBytesSum, txIdle + 1, txBusy))"

definition update_rate :: "'p zhuge \<Rightarrow> 'p zhuge res" where
  "update_rate s =
     (let (txBytesSum, txIdle, txBusy) = tx_sums (m_txBytesList s) (0, 0, 0);
          sz = word_of_nat (length (m_txBytesList s)) :: u64;
          idle = ucast txIdle :: u64; busy = ucast txBusy :: u64;
          slots = GetMilliSeconds (kTxBytesListInterval s) *
            uint (ucast (kTxBytesListWindow s) - txIdle)
      in if m_txBytesList s = [] \<or> sz \<le> idle then Inr s
         else if slots = 0 then Inl UndefinedBehaviour
         else Inr (s\<lparr>m_curTxRateBps := word_of_int (1000 * (uint (txBytesSum * 8) sdiv slots)),
           m_curTxDelayUs :=
             (if busy < sz - idle then ucast ((1000 * (sz - idle)) div (sz - idle - busy))
              else word_of_int (uint (kTxBytesListWindow s) *
                GetMicroSeconds (kTxBytesListInterval s)))\<rparr>))"

definition UpdateTxRate :: "'p tx_queue \<Rightarrow> 'p zhuge \<Rightarrow> 'p zhuge res" where
  "UpdateTxRate q s =
     res_bind (head_packet (m_mode s) q) (\<lambda>hp.
     res_bind (update_head hp s) (\<lambda>s.
     res_bind (update_rate (record_slot q s)) (\<lambda>s.
     Inr (s\<lparr>m_curTxRateBps := max (m_curTxRateBps s) (kMinTxRateBps s)\<rparr>))))"

section \<open>The predicted delay\<close>

text \<open>
  The scan from the tail of the queue: every packet behind the flow's last one, and that packet
  itself, is taken off the byte count.
\<close>

fun scan_tail :: "('p ip_packet \<Rightarrow> bool) \<Rightarrow> u32 \<Rightarrow> 'p ip_packet list \<Rightarrow> u32" where
  "scan_tail own b [] = b"
| "scan_tail own b (p # ps) =
     (if own p then b - pk_size p else scan_tail own (b - pk_size p) ps)"

definition own_packet :: "'p zhuge \<Rightarrow> 'p ip_packet \<Rightarrow> bool" where
  "own_packet s p \<longleftrightarrow> ip_proto p = 17 \<and> udp_sport p = m_sendPort s"

definition queue_size :: "u32 \<Rightarrow> u32 \<Rightarrow> 'p tx_queue \<Rightarrow> 'p zhuge \<Rightarrow> (u32 \<times> u32) res" where
  "queue_size extraByte qdisc q s =
     (if extraByte > qdisc then
        Inr (scan_tail (own_packet s) (GetNBytes q) (rev (queued q)),
          if m_mode s = 0 then m_curQHeadTimeMs s else 0)
      else if m_mode s = 0 then Inr (max (qdisc + GetNBytes q - extraByte) 0, m_curQHeadTimeMs s)
      else if m_mode s = 1 then Inr (max (qdisc + GetNBytes q - extraByte) 0, 0)
      else Inl FatalError)"

definition queue_delay :: "rounding \<Rightarrow> 'p zhuge \<Rightarrow> u32 res" where
  "queue_delay f s =
     (if m_mode s = 0 \<and>
         m_curQSizeByte s \<le> (kAmpduMaxWaitMs s * m_curTxRateBps s) div 1000 div 8 \<and>
         m_curQSizeByte s \<ge> m_lastQSizeByte s
      then Inr 0
      else
        let bits = of_nat (unat (m_curQSizeByte s * 8)); rate = of_nat (unat (m_curTxRateBps s));
            ms = trunc (f (1000 * f (bits / rate)))
        in if m_curTxRateBps s = 0 \<or> ms < 0 \<or> 2 ^ 32 \<le> ms then Inl UndefinedBehaviour
           else Inr (word_of_int ms))"

definition CalculateTotalDelayMs ::
  "rounding \<Rightarrow> u32 \<Rightarrow> u32 \<Rightarrow> 'p tx_queue \<Rightarrow> 'p zhuge \<Rightarrow> (u32 \<times> 'p zhuge) res" where
  "CalculateTotalDelayMs f extraByte qdisc q s =
     res_bind (queue_size extraByte qdisc q s) (\<lambda>(sz, curQHeadTimeMs).
     let s = s\<lparr>m_curQSizeByte := sz\<rparr> in
     res_bind (queue_delay f s) (\<lambda>curQDelayMs.
     Inr (curQDelayMs + curQHeadTimeMs + m_curTxDelayUs s div 1000, s)))"

definition SetAckDelay ::
  "rounding \<Rightarrow> time \<Rightarrow> u32 \<Rightarrow> 'p tx_queue \<Rightarrow> 'p zhuge \<Rightarrow> 'p zhuge res" where
  "SetAckDelay f now qdisc q s =
     res_bind (CalculateTotalDelayMs f 0 qdisc q s) (\<lambda>(curTotalDelayMs, s).
     let s = (if m_curQSizeByte s = 0 \<and> m_lastQSizeByte s = 0 then s
              else s\<lparr>m_deltaAckDelay := AddDeltaDelay now
                (MilliSeconds (sint (curTotalDelayMs - m_lastTotalDelayMs s))) (m_deltaAckDelay s)\<rparr>)
     in Inr (s\<lparr>m_lastTotalDelayMs := curTotalDelayMs, m_lastQSizeByte := m_curQSizeByte s\<rparr>))"

section \<open>ACKs from the client\<close>

text \<open>
  The result of the callback on the wireless device: the new state and the delay after which
  \<open>SendPkt\<close> forwards the packet, when it does. (The callback always returns \<open>true\<close>.)
\<close>

definition OnRecv_snddev :: "sim_env \<Rightarrow> (nat \<Rightarrow> nat) \<Rightarrow> time \<Rightarrow> 'p ip_packet \<Rightarrow> 'p zhuge \<Rightarrow>
    (time option \<times> 'p zhuge) res" where
  "OnRecv_snddev env rnd now packet s =
     (if ip_dst packet = m_sendIP s \<and> ip_proto packet = 6 then
        if \<not> m_isFirstAck s then
          res_bind
            (if now > m_lastAckSent s then
               res_bind (SampleDeltaDelay env rnd now (Seconds 0) (m_deltaAckDelay s))
                 (\<lambda>(r, d). Inr (now + r, d))
             else
               let curAckSent = now + (m_lastAckSent s - m_lastAckArrv s) in
               res_bind (SampleDeltaDelay env rnd now (m_lastAckSent s - curAckSent)
                   (m_deltaAckDelay s))
                 (\<lambda>(r, d). Inr (curAckSent + r, d)))
            (\<lambda>(sent, d).
               let curAckSent = min (now + kMaxActualDelay s) sent;
                   s = s\<lparr>m_deltaAckDelay := d, m_lastAckArrv := now, m_lastAckSent := curAckSent\<rparr>
               in Inr (Some (if m_wirtcEnable s \<and> curAckSent > now then curAckSent - now else 0), s))
        else Inr (Some 0, s\<lparr>m_isFirstAck := False, m_lastAckArrv := now, m_lastAckSent := now\<rparr>)
      else Inr (None, s))"


section \<open>Data towards the client\<close>

text \<open>
  The callback on the wired device: its return value, whether a \<open>Sendback\<close> was scheduled (one
  millisecond later), and the new state.
\<close>

definition OnRecv_rcvdev ::
  "'p ns3 \<Rightarrow> rounding \<Rightarrow> raw_objects \<Rightarrow> time \<Rightarrow> u32 \<Rightarrow> 'p tx_queue \<Rightarrow> 'p ip_packet \<Rightarrow> 'p zhuge \<Rightarrow>
    (bool \<times> bool \<times> 'p zhuge) res" where
  "OnRecv_rcvdev k f raw now qdisc q packet s =
     (if \<not> (ip_src packet = m_sendIP s \<and> ip_dst packet = m_recvIP s) then
        if \<not> cc_create s then
          Inr (False, False,
            if schedule_flag s then s\<lparr>extra_bytes := extra_bytes s + (pk_size packet - 20)\<rparr> else s)
        else Inr (True, False, s)
      else
        let s = s\<lparr>m_lastHeadId := ip_id packet, m_lastHeadDstAddr := ip_dst packet\<rparr> in
        if cc_create s then
          if ip_proto packet = 6 \<and> ip_dst packet = m_recvIP s then
            res_bind (if now > Seconds 3 \<and> tcp_flags packet = 16
                then SetAckDelay f now qdisc q s else Inr s) (\<lambda>s.
            Inr (False, False,
              if tcp_flags packet = 16 \<and> ip_payload_size packet > 20 \<and> m_fastAckRtx s
              then s\<lparr>m_cache := m_cache s @ [packet]\<rparr> else s))
          else Inr (True, False, s)
        else if ip_proto packet = 17 then
          if udp_sport packet \<noteq> m_sendPort s then
            Inr (False, False,
              if schedule_flag s then s\<lparr>extra_bytes := extra_bytes s + pk_size_udp packet\<rparr> else s)
          else if schedule_flag s then
            Inr (True, False, s\<lparr>extra_bytes := extra_bytes s + pk_size_udp packet\<rparr>)
          else
            res_bind (ToInstance k f raw (pk_app packet)) (\<lambda>pkt.
            Inr (True, True, s\<lparr>sndback_pkt := pkt, sndback_pkt_size := pk_left packet,
              send_id := ip_id packet, sendaddr := ip_dst packet, extra_bytes := 0,
              schedule_flag := True\<rparr>))
        else Inr (True, False, s))"

fun packet_type_of :: "net_packet \<Rightarrow> PacketType" where
  "packet_type_of (DataP p) = packet_type p"
| "packet_type_of (FECP p) = packet_type p"
| "packet_type_of (AckP p) = packet_type p"
| "packet_type_of (FrameAckP p) = packet_type p"
| "packet_type_of (NetStateP p) = packet_type p"

text \<open>\<open>DynamicCast<VideoPacket>\<close> followed by \<open>GetGlobalId\<close>: null for a control packet.\<close>

fun global_id_of :: "net_packet \<Rightarrow> u16 res" where
  "global_id_of (DataP p) = Inr (vh_global_id (video_header p))"
| "global_id_of (FECP p) = Inr (vh_global_id (video_header p))"
| "global_id_of _ = Inl NullDeref"

definition sendback_states :: "time \<Rightarrow> u32 \<Rightarrow> u32 \<Rightarrow> 'p zhuge \<Rightarrow> NetStates" where
  "sendback_states now curTotalDelayMs i s =
     (let RxTime = word_of_int (GetMicroSeconds now + uint (curTotalDelayMs * 1000))
      in \<lparr>ns_loss_rate = 0, ns_throughput_kbps = drop_bit 10 (m_curTxRateBps s),
        ns_fec_group_delay_us = 0,
        ns_loss_seq = [sint ((i + 65536 - ucast (last_id s)) mod 65536)],
        ns_recvtime_hist = [\<lparr>rt_pkt_id = i, rt_us = RxTime, rt_pkt_size = sndback_pkt_size s\<rparr>]\<rparr>)"

text \<open>The report handed to the wired device, if any, and the new state.\<close>

definition Sendback :: "rounding \<Rightarrow> time \<Rightarrow> u32 \<Rightarrow> 'p tx_queue \<Rightarrow> 'p zhuge \<Rightarrow>
    (NetStates option \<times> 'p zhuge) res" where
  "Sendback f now qdisc q s =
     (let s = s\<lparr>schedule_flag := False\<rparr> in
      if m_txBytesList s = [] then Inr (None, s)
      else
        res_bind (CalculateTotalDelayMs f (extra_bytes s) qdisc q s) (\<lambda>(curTotalDelayMs, s).
        case sndback_pkt s of
          None \<Rightarrow> Inl NullDeref
        | Some pkt \<Rightarrow>
            if packet_type_of pkt \<noteq> DATA_PKT then Inr (None, s)
            else
              res_bind (global_id_of pkt) (\<lambda>gid.
              let i = ucast gid :: u32 in
              if i > ucast (last_id s) \<or> ucast (last_id s) - i > 32768 then
                Inr (if m_wirtcEnable s then Some (sendback_states now curTotalDelayMs i s) else None,
                  s\<lparr>last_id := ucast i\<rparr>)
              else Inr (None, s))))"

section \<open>The access point over time\<close>

text \<open>
  One step of the application: an ACK, a data packet, the timer tick or the scheduled report,
  each at a time not earlier than the one before. The third component of a configuration lists
  the ACKs forwarded so far, newest first, with the times they came in and leave.
\<close>

type_synonym 'p zconf = "time \<times> 'p zhuge \<times> (time \<times> time) list"

inductive zstep :: "'p ns3 \<Rightarrow> sim_env \<Rightarrow> 'p zconf \<Rightarrow> 'p zconf \<Rightarrow> bool" for k env where
  ack: "t \<le> now \<Longrightarrow> rnd_ok rnd \<Longrightarrow> OnRecv_snddev env rnd now p s = Inr (Some delay, s') \<Longrightarrow>
    zstep k env (t, s, acks) (now, s', (now, now + delay) # acks)"
| other: "t \<le> now \<Longrightarrow> rnd_ok rnd \<Longrightarrow> OnRecv_snddev env rnd now p s = Inr (None, s') \<Longrightarrow>
    zstep k env (t, s, acks) (now, s', acks)"
| data: "t \<le> now \<Longrightarrow> OnRecv_rcvdev k (fl env) raw now qdisc q p s = Inr (b, sched, s') \<Longrightarrow>
    zstep k env (t, s, acks) (now, s', acks)"
| tick: "t \<le> now \<Longrightarrow> UpdateTxRate q s = Inr s' \<Longrightarrow> zstep k env (t, s, acks) (now, s', acks)"
| report: "t \<le> now \<Longrightarrow> Sendback (fl env) now qdisc q s = Inr (r, s') \<Longrightarrow>
    zstep k env (t, s, acks) (now, s', acks)"

inductive zreach :: "'p ns3 \<Rightarrow> sim_env \<Rightarrow> 'p zconf \<Rightarrow> 'p zconf \<Rightarrow> bool" for k env where
  refl: "zreach k env c c"
| step: "zreach k env c c' \<Longrightarrow> zstep k env c' c'' \<Longrightarrow> zreach k env c c''"

text \<open>A freshly set up application.\<close>

definition zstart :: "'p zhuge \<Rightarrow> bool" where
  "zstart s \<longleftrightarrow> m_isFirstAck s \<and> m_deltaAckDelay s = DeltaDelay_new \<and>
     kMaxActualDelay s = MilliSeconds 10"

lemma zstart_setup:
  "zstart (Zhuge_InitSocket (Zhuge_Setup sip sp rip rp w i tcp mode qs rtx (Zhuge_ctor raw)))"
  by (simp add: zstart_def Zhuge_InitSocket_def Zhuge_Setup_def Zhuge_ctor_def)

section \<open>Pacing\<close>

text \<open>
  The arithmetic of \<open>OnRecv_snddev\<close> against any source of delays: a departure is never before
  the previous one, nor before the arrival, nor more than \<open>maxd\<close> after it.
\<close>

context delay_source
begin

lemma burst_departure:
  fixes arrv sent now maxd :: time
  assumes "invar now d" "rnd_ok rnd" "arrv \<le> now" "now \<le> sent" "sent \<le> arrv + maxd"
    and "sample rnd now (sent - (now + (sent - arrv))) d = Inr (r, d')"
  shows "invar now d' \<and> sent \<le> min (now + maxd) (now + (sent - arrv) + r) \<and>
    now \<le> min (now + maxd) (now + (sent - arrv) + r)"
  using sample_result [OF assms(1,2) _ assms(6)] assms(3-5) by auto

lemma new_burst_departure:
  fixes sent now maxd :: time
  assumes "invar now d" "rnd_ok rnd" "sent < now" "0 \<le> maxd" "sample rnd now 0 d = Inr (r, d')"
  shows "invar now d' \<and> sent \<le> min (now + maxd) (now + r) \<and> now \<le> min (now + maxd) (now + r)"
  using sample_result [OF assms(1,2) _ assms(5)] assms(3,4) by auto

end

text \<open>The invariant of the pacing state, at the time of the last event.\<close>

definition pace_inv :: "sim_env \<Rightarrow> time \<Rightarrow> 'p zhuge \<Rightarrow> bool" where
  "pace_inv env t s \<longleftrightarrow> dd_wf env t (m_deltaAckDelay s) \<and> kMaxActualDelay s = MilliSeconds 10 \<and>
     (\<not> m_isFirstAck s \<longrightarrow> m_lastAckArrv s \<le> t \<and> m_lastAckArrv s \<le> m_lastAckSent s \<and>
        m_lastAckSent s \<le> m_lastAckArrv s + MilliSeconds 10)"

lemma pace_inv_mono: "pace_inv env t s \<Longrightarrow> t \<le> t' \<Longrightarrow> pace_inv env t' s"
  using dd.invar_mono by (fastforce simp: pace_inv_def)

text \<open>
  What one ACK does: the departure the code computes (\<open>m_lastAckSent\<close>) is monotone, and the
  packet leaves then when feedback is enabled, at once when it is not.
\<close>

lemma OnRecv_snddev_pace:
  assumes "pace_inv env now s" "rnd_ok rnd" "OnRecv_snddev env rnd now p s = Inr (Some delay, s')"
  shows "pace_inv env now s' \<and> \<not> m_isFirstAck s' \<and> m_lastAckArrv s' = now \<and>
    m_wirtcEnable s' = m_wirtcEnable s \<and> now \<le> m_lastAckSent s' \<and>
    (\<not> m_isFirstAck s \<longrightarrow> m_lastAckSent s \<le> m_lastAckSent s') \<and>
    now + delay = (if m_wirtcEnable s then m_lastAckSent s' else now)"
proof (cases "m_isFirstAck s")
  case True
  with assms show ?thesis
    by (auto simp: OnRecv_snddev_def pace_inv_def time_defs split: if_splits)
next
  case False
  note inv = assms(1) [unfolded pace_inv_def]
  have wf: "dd_wf env now (m_deltaAckDelay s)" and kmax: "kMaxActualDelay s = MilliSeconds 10"
    using inv by simp_all
  have b: "m_lastAckArrv s \<le> now" "m_lastAckArrv s \<le> m_lastAckSent s"
    "m_lastAckSent s \<le> m_lastAckArrv s + MilliSeconds 10" using inv False by simp_all
  have dst: "ip_dst p = m_sendIP s \<and> ip_proto p = 6"
    using assms(3) by (auto simp: OnRecv_snddev_def split: if_splits)
  have ms: "0 \<le> MilliSeconds 10" by (simp add: time_defs)
  show ?thesis
  proof (cases "now > m_lastAckSent s")
    case True
    with assms(3) dst False obtain r d' where
      r: "SampleDeltaDelay env rnd now 0 (m_deltaAckDelay s) = Inr (r, d')"
      and res: "delay = (if m_wirtcEnable s \<and> now < min (now + MilliSeconds 10) (now + r)
        then min (now + MilliSeconds 10) (now + r) - now else 0)"
      "s' = s\<lparr>m_deltaAckDelay := d', m_lastAckArrv := now,
        m_lastAckSent := min (now + MilliSeconds 10) (now + r)\<rparr>"
      by (auto simp: OnRecv_snddev_def Let_def kmax Seconds_def dest!: res_bind_InrD)
    from dd.new_burst_departure [OF wf assms(2) True ms r]
    show ?thesis using False kmax by (auto simp: res pace_inv_def)
  next
    case now: False
    let ?base = "now + (m_lastAckSent s - m_lastAckArrv s)"
    from now assms(3) dst False obtain r d' where
      r: "SampleDeltaDelay env rnd now (m_lastAckSent s - ?base) (m_deltaAckDelay s) = Inr (r, d')"
      and res: "delay = (if m_wirtcEnable s \<and> now < min (now + MilliSeconds 10) (?base + r)
        then min (now + MilliSeconds 10) (?base + r) - now else 0)"
      "s' = s\<lparr>m_deltaAckDelay := d', m_lastAckArrv := now,
        m_lastAckSent := min (now + MilliSeconds 10) (?base + r)\<rparr>"
      by (auto simp: OnRecv_snddev_def Let_def kmax dest!: res_bind_InrD)
    from dd.burst_departure [OF wf assms(2) b(1) _ b(3) r] now
    show ?thesis using False kmax by (auto simp: res pace_inv_def)
  qed
qed


text \<open>The other operations leave the pacing alone, except that they may add a delta.\<close>

definition same_pace :: "'p zhuge \<Rightarrow> 'p zhuge \<Rightarrow> bool" where
  "same_pace s s' \<longleftrightarrow> m_isFirstAck s' = m_isFirstAck s \<and> m_lastAckArrv s' = m_lastAckArrv s \<and>
     m_lastAckSent s' = m_lastAckSent s \<and> m_wirtcEnable s' = m_wirtcEnable s \<and>
     kMaxActualDelay s' = kMaxActualDelay s"

lemma pace_inv_same:
  "pace_inv env t s \<Longrightarrow> same_pace s s' \<Longrightarrow> dd_wf env t (m_deltaAckDelay s') \<Longrightarrow> pace_inv env t s'"
  by (simp add: pace_inv_def same_pace_def)

lemma CalculateTotalDelayMs_frame:
  assumes "CalculateTotalDelayMs f e qd q s = Inr (d, s')"
  shows "\<exists>sz. s' = s\<lparr>m_curQSizeByte := sz\<rparr>"
  using assms by (auto simp: CalculateTotalDelayMs_def Let_def dest!: res_bind_InrD)

lemma update_head_frame:
  "update_head hp s = Inr s' \<Longrightarrow>
    same_pace s s' \<and> m_deltaAckDelay s' = m_deltaAckDelay s"
  by (auto simp: update_head_def same_pace_def split: option.splits if_splits)

lemma record_slot_frame:
  "same_pace s (record_slot q s) \<and> m_deltaAckDelay (record_slot q s) = m_deltaAckDelay s"
  by (simp add: record_slot_def same_pace_def Let_def)

lemma update_rate_frame:
  "update_rate s = Inr s' \<Longrightarrow> same_pace s s' \<and> m_deltaAckDelay s' = m_deltaAckDelay s"
  by (auto simp: update_rate_def same_pace_def Let_def split: prod.splits if_splits)

lemma same_pace_trans: "same_pace s s' \<Longrightarrow> same_pace s' s'' \<Longrightarrow> same_pace s s''"
  by (simp add: same_pace_def)

lemma UpdateTxRate_frame:
  assumes "UpdateTxRate q s = Inr s'"
  shows "same_pace s s' \<and> m_deltaAckDelay s' = m_deltaAckDelay s"
proof -
  obtain hp s1 s2 where "update_head hp s = Inr s1" "update_rate (record_slot q s1) = Inr s2"
    "s' = s2\<lparr>m_curTxRateBps := max (m_curTxRateBps s2) (kMinTxRateBps s2)\<rparr>"
    using assms by (auto simp: UpdateTxRate_def dest!: res_bind_InrD)
  with update_head_frame [of hp s s1] record_slot_frame [of s1 q]
    update_rate_frame [of "record_slot q s1" s2]
  show ?thesis by (simp add: same_pace_def)
qed

lemma Sendback_frame:
  assumes "Sendback f now qd q s = Inr (r, s')"
  shows "same_pace s s' \<and> m_deltaAckDelay s' = m_deltaAckDelay s"
  using assms by (auto simp: Sendback_def Let_def same_pace_def dest!: res_bind_InrD
      CalculateTotalDelayMs_frame split: if_splits option.splits)

lemma SetAckDelay_pace:
  assumes "pace_inv env now s" "SetAckDelay f now qd q s = Inr s'"
  shows "pace_inv env now s' \<and> same_pace s s'"
proof -
  obtain d s1 where calc: "CalculateTotalDelayMs f 0 qd q s = Inr (d, s1)"
    and s': "same_pace s1 s'" "m_deltaAckDelay s' = m_deltaAckDelay s1 \<or>
      (\<exists>ms. m_deltaAckDelay s' = AddDeltaDelay now (MilliSeconds ms) (m_deltaAckDelay s1))"
    using assms(2) by (fastforce simp: SetAckDelay_def Let_def same_pace_def dest!: res_bind_InrD
        split: if_splits)
  have s1: "same_pace s s1" "m_deltaAckDelay s1 = m_deltaAckDelay s"
    using CalculateTotalDelayMs_frame [OF calc] by (auto simp: same_pace_def)
  have same: "same_pace s s'" using s1(1) s'(1) by (rule same_pace_trans)
  have "dd_wf env now (m_deltaAckDelay s)" using assms(1) by (simp add: pace_inv_def)
  then have "dd_wf env now (m_deltaAckDelay s')" using s'(2) s1(2) dd.add_ok by auto
  with pace_inv_same [OF assms(1) same] same show ?thesis by simp
qed

definition saw_head :: "'p ip_packet \<Rightarrow> 'p zhuge \<Rightarrow> 'p zhuge" where
  "saw_head p s = s\<lparr>m_lastHeadId := ip_id p, m_lastHeadDstAddr := ip_dst p\<rparr>"

lemma saw_head_pace:
  "pace_inv env t s \<Longrightarrow> pace_inv env t (saw_head p s)" "same_pace s (saw_head p s)"
  "m_deltaAckDelay (saw_head p s) = m_deltaAckDelay s" "m_recvIP (saw_head p s) = m_recvIP s"
  by (simp_all add: pace_inv_def same_pace_def saw_head_def)

lemma same_pace_frame:
  "same_pace s (s\<lparr>extra_bytes := x\<rparr>)" "same_pace s (s\<lparr>m_cache := c\<rparr>)" "same_pace s s"
  "same_pace s (s\<lparr>sndback_pkt := n, sndback_pkt_size := z, send_id := i, sendaddr := a,
     extra_bytes := e, schedule_flag := sf\<rparr>)"
  by (simp_all add: same_pace_def)

lemma tcp_data_cases:
  assumes "res_bind (if c then SetAckDelay f now qd q s else Inr s)
      (\<lambda>s. Inr (False, False, if g s then s\<lparr>m_cache := m_cache s @ [p]\<rparr> else s)) = Inr (b, sched, s')"
  shows "(\<exists>s1. SetAckDelay f now qd q s = Inr s1 \<and> same_pace s1 s' \<and>
      m_deltaAckDelay s' = m_deltaAckDelay s1) \<or>
    same_pace s s' \<and> m_deltaAckDelay s' = m_deltaAckDelay s"
proof (cases c)
  case True
  then obtain s1 where s1: "SetAckDelay f now qd q s = Inr s1"
    "s' = (if g s1 then s1\<lparr>m_cache := m_cache s1 @ [p]\<rparr> else s1)"
    using assms by (auto dest!: res_bind_InrD)
  then have "same_pace s1 s' \<and> m_deltaAckDelay s' = m_deltaAckDelay s1"
    by (simp add: same_pace_frame)
  with s1(1) show ?thesis by blast
next
  case False
  with assms show ?thesis by (auto simp: same_pace_frame split: if_splits)
qed

lemma OnRecv_rcvdev_pace:
  assumes inv: "pace_inv env now s" and step: "OnRecv_rcvdev k f raw now qd q p s = Inr (b, sched, s')"
  shows "pace_inv env now s' \<and> same_pace s s'"
proof -
  let ?h = "saw_head p s"
  note step' = step [unfolded OnRecv_rcvdev_def Let_def, folded saw_head_def]
  have "(\<exists>s1. SetAckDelay f now qd q ?h = Inr s1 \<and> same_pace s1 s' \<and>
      m_deltaAckDelay s' = m_deltaAckDelay s1) \<or>
    (same_pace s s' \<or> same_pace ?h s') \<and> m_deltaAckDelay s' = m_deltaAckDelay s"
  proof (cases "ip_src p = m_sendIP s \<and> ip_dst p = m_recvIP s \<and> cc_create ?h \<and>
      ip_proto p = 6 \<and> ip_dst p = m_recvIP ?h")
    case True
    then have "res_bind (if now > Seconds 3 \<and> tcp_flags p = 16 then SetAckDelay f now qd q ?h
        else Inr ?h) (\<lambda>s. Inr (False, False,
          if tcp_flags p = 16 \<and> ip_payload_size p > 20 \<and> m_fastAckRtx s
          then s\<lparr>m_cache := m_cache s @ [p]\<rparr> else s)) = Inr (b, sched, s')"
      using step' by (simp add: saw_head_pace(4))
    from tcp_data_cases [OF this] show ?thesis by (auto simp: saw_head_pace(3))
  next
    case False
    with step' show ?thesis
      by (auto simp: same_pace_frame saw_head_pace split: if_split_asm dest!: res_bind_InrD)
  qed
  moreover have wf: "dd_wf env now (m_deltaAckDelay s)" using inv by (simp add: pace_inv_def)
  ultimately consider (set) s1 where "SetAckDelay f now qd q ?h = Inr s1" "same_pace s1 s'"
      "m_deltaAckDelay s' = m_deltaAckDelay s1"
    | (no) "same_pace s s'" "dd_wf env now (m_deltaAckDelay s')"
    using same_pace_trans [OF saw_head_pace(2), of p s s'] by fastforce
  then show ?thesis
  proof cases
    case set
    have s1: "pace_inv env now s1" "same_pace s s1"
      using SetAckDelay_pace [OF saw_head_pace(1) [OF inv] set(1)]
        same_pace_trans [OF saw_head_pace(2), of p s s1] by simp_all
    then have "dd_wf env now (m_deltaAckDelay s')" using set(3) by (simp add: pace_inv_def)
    with pace_inv_same [OF s1(1) set(2)] same_pace_trans [OF s1(2) set(2)] show ?thesis by simp
  next
    case no
    with pace_inv_same [OF inv] show ?thesis by simp
  qed
qed

text \<open>The invariant of a run: what the list of forwarded ACKs looks like.\<close>

definition ack_ok_at :: "time \<Rightarrow> time \<times> time \<Rightarrow> bool" where
  "ack_ok_at t a \<longleftrightarrow> fst a \<le> t \<and> fst a \<le> snd a \<and> snd a \<le> fst a + MilliSeconds 10"

definition run_inv :: "sim_env \<Rightarrow> 'p zconf \<Rightarrow> bool" where
  "run_inv env c \<longleftrightarrow> (case c of (t, s, acks) \<Rightarrow> pace_inv env t s \<and>
     (m_isFirstAck s \<longrightarrow> acks = []) \<and> list_all (ack_ok_at t) acks \<and>
     list_all (\<lambda>a. snd a \<le> (if m_wirtcEnable s then m_lastAckSent s else t)) acks \<and>
     sorted_wrt (\<lambda>x y. fst y \<le> fst x \<and> snd y \<le> snd x) acks)"

lemma run_inv_same:
  assumes "run_inv env (t, s, acks)" "t \<le> t'" "pace_inv env t' s'" "same_pace s s'"
  shows "run_inv env (t', s', acks)"
  using assms by (auto simp: run_inv_def same_pace_def ack_ok_at_def list_all_iff)

lemma run_inv_ack:
  assumes inv: "run_inv env (t, s, acks)" and t: "t \<le> now" and rnd: "rnd_ok rnd"
    and step: "OnRecv_snddev env rnd now p s = Inr (Some delay, s')"
  shows "run_inv env (now, s', (now, now + delay) # acks)"
proof -
  have "pace_inv env now s" using inv t pace_inv_mono by (auto simp: run_inv_def)
  note P = OnRecv_snddev_pace [OF this rnd step]
  have old: "list_all (ack_ok_at t) acks" "m_isFirstAck s \<longrightarrow> acks = []"
    "sorted_wrt (\<lambda>x y. fst y \<le> fst x \<and> snd y \<le> snd x) acks"
    "list_all (\<lambda>a. snd a \<le> (if m_wirtcEnable s then m_lastAckSent s else t)) acks"
    using inv by (simp_all add: run_inv_def)
  have top: "snd a \<le> now + delay \<and> fst a \<le> now" if "a \<in> set acks" for a
    using that old P t by (cases "m_wirtcEnable s") (auto simp: list_all_iff ack_ok_at_def)
  have new: "ack_ok_at now (now, now + delay)"
    using P by (auto simp: ack_ok_at_def pace_inv_def time_defs)
  have "list_all (ack_ok_at now) acks"
    using old(1) t by (auto simp: list_all_iff ack_ok_at_def)
  moreover have "list_all (\<lambda>a. snd a \<le> (if m_wirtcEnable s' then m_lastAckSent s' else now))
      ((now, now + delay) # acks)"
    using top P by (auto simp: list_all_iff)
  ultimately show ?thesis using P new top old(3) by (simp add: run_inv_def)
qed

lemma zstep_run_inv: "zstep k env c c' \<Longrightarrow> run_inv env c \<Longrightarrow> run_inv env c'"
proof (induction rule: zstep.induct)
  case (ack t now rnd p s delay s' acks)
  then show ?case using run_inv_ack by blast
next
  case (other t now rnd p s s' acks)
  then have "s' = s"
    by (auto simp: OnRecv_snddev_def Let_def dest!: res_bind_InrD split: if_splits)
  with other show ?case
    using run_inv_same [of env t s acks now s] pace_inv_mono by (auto simp: run_inv_def same_pace_def)
next
  case (data t now raw qdisc q p s b sched s' acks)
  then have "pace_inv env now s" using pace_inv_mono by (auto simp: run_inv_def)
  from OnRecv_rcvdev_pace [OF this data(2)] data run_inv_same show ?case by blast
next
  case (tick t now q s s' acks)
  then have "pace_inv env now s" using pace_inv_mono by (auto simp: run_inv_def)
  with tick UpdateTxRate_frame [OF tick(2)] show ?case
    using run_inv_same pace_inv_same by (metis pace_inv_def)
next
  case (report t now qdisc q s r s' acks)
  then have "pace_inv env now s" using pace_inv_mono by (auto simp: run_inv_def)
  with report Sendback_frame [OF report(2)] show ?case
    using run_inv_same pace_inv_same by (metis pace_inv_def)
qed

lemma zreach_run_inv: "zreach k env c c' \<Longrightarrow> run_inv env c \<Longrightarrow> run_inv env c'"
  by (induction rule: zreach.induct) (auto intro: zstep_run_inv)

lemma zstart_run_inv: "zstart s \<Longrightarrow> env_ok env \<Longrightarrow> run_inv env (t, s, [])"
  by (simp add: run_inv_def zstart_def pace_inv_def dd_wf_new)

section \<open>The dequeue rate as a count\<close>

definition sent_bytes :: "int list \<Rightarrow> int" where
  "sent_bytes l = sum_list (filter (\<lambda>x. 0 < x) l)"

definition idle_slots :: "int list \<Rightarrow> nat" where
  "idle_slots l = length (filter (\<lambda>x. x < 0) l)"

definition busy_slots :: "int list \<Rightarrow> nat" where
  "busy_slots l = length (filter (\<lambda>x. x = 0) l)"

lemma tx_sums_eq:
  "tx_sums l (a, i, b) = (a + word_of_int (sent_bytes l), i + word_of_nat (idle_slots l),
     b + word_of_nat (busy_slots l))"
  by (induction l arbitrary: a i b) (auto simp: sent_bytes_def idle_slots_def busy_slots_def)

lemma slots_le: "idle_slots l + busy_slots l \<le> length l"
  by (induction l) (auto simp: idle_slots_def busy_slots_def)

lemma sent_bytes_nonneg: "0 \<le> sent_bytes l"
  unfolding sent_bytes_def by (rule sum_list_nonneg) simp

text \<open>With slots of one millisecond, \<open>update_rate\<close> never divides by zero.\<close>

lemma window_minus_idle:
  assumes "length l \<le> unat (w :: u16)" "idle_slots l < length l"
  shows "uint (ucast w - word_of_nat (idle_slots l) :: u32) = int (unat w - idle_slots l)"
    and "0 < unat w - idle_slots l"
proof -
  have w: "unat w < 65536" by (rule unat_lt)
  have i: "unat (word_of_nat (idle_slots l) :: u32) = idle_slots l"
    using assms w by (intro unat_word_of_nat_32) simp
  have "(word_of_nat (idle_slots l) :: u32) \<le> ucast w"
    using assms w i by (simp add: word_le_nat_alt)
  then have "unat (ucast w - word_of_nat (idle_slots l) :: u32) = unat w - idle_slots l"
    using i w by (simp add: unat_sub)
  then show "uint (ucast w - word_of_nat (idle_slots l) :: u32) = int (unat w - idle_slots l)"
    by (metis uint_nat)
  show "0 < unat w - idle_slots l" using assms by simp
qed

lemma ms_one: "GetMilliSeconds (MilliSeconds 1) = 1"
  by (simp add: time_defs signed_divide_int_def)

lemma sz_le_idle:
  assumes "length l < 65536"
  shows "(word_of_nat (length l) :: u64) \<le> ucast (word_of_nat (idle_slots l) :: u32)
    \<longleftrightarrow> length l \<le> idle_slots l"
proof -
  have "idle_slots l < 65536" using slots_le [of l] assms by simp
  then show ?thesis using assms
    by (simp add: word_le_nat_alt unat_word_of_nat_32 unat_of_nat)
qed

text \<open>The rate as the code computes it: the bits wrap at 32 bits, and so does the rate.\<close>

definition wrapped_rate :: "int \<Rightarrow> int \<Rightarrow> int" where
  "wrapped_rate bytes ms = 1000 * (8 * bytes mod 2 ^ 32 div ms) mod 2 ^ 32"

lemma wrapped_rate_exact:
  assumes "0 \<le> bytes" "0 < ms" "8 * bytes < 2 ^ 32" "1000 * (8 * bytes div ms) < 2 ^ 32"
  shows "wrapped_rate bytes ms = 1000 * (8 * bytes div ms)"
proof -
  have "0 \<le> 8 * bytes div ms" using assms(1,2) by (simp add: pos_imp_zdiv_nonneg_iff)
  moreover have "8 * bytes mod 2 ^ 32 = 8 * bytes" using assms(1,3) by (intro mod_pos_pos_trivial) auto
  ultimately show ?thesis unfolding wrapped_rate_def using assms(4) by (simp only:) (intro mod_pos_pos_trivial; simp)
qed

lemma wrapped_rate_small:
  assumes "0 \<le> bytes" "0 < ms" "8000 * bytes < 2 ^ 32"
  shows "wrapped_rate bytes ms = 1000 * (8 * bytes div ms)"
proof (rule wrapped_rate_exact [OF assms(1,2)])
  have "8 * bytes div ms \<le> 8 * bytes div 1" using assms(1,2) by (intro zdiv_mono2) auto
  then show "1000 * (8 * bytes div ms) < 2 ^ 32" using assms(3) by simp
qed (use assms in auto)

lemma update_rate_run:
  assumes "kTxBytesListInterval s = MilliSeconds 1"
    and len: "length (m_txBytesList s) \<le> unat (kTxBytesListWindow s)"
  shows "\<exists>r d. update_rate s = Inr (s\<lparr>m_curTxRateBps := r, m_curTxDelayUs := d\<rparr>) \<and>
    (idle_slots (m_txBytesList s) < length (m_txBytesList s) \<longrightarrow>
      uint r = wrapped_rate (sent_bytes (m_txBytesList s))
        (int (unat (kTxBytesListWindow s) - idle_slots (m_txBytesList s))))"
proof -
  let ?l = "m_txBytesList s" and ?w = "kTxBytesListWindow s"
  have lt: "length ?l < 65536" using len unat_lt(2) [of ?w] by simp
  show ?thesis
  proof (cases "idle_slots ?l < length ?l")
    case False
    then have "update_rate s = Inr s"
      by (simp add: update_rate_def tx_sums_eq sz_le_idle [OF lt] Let_def)
    then have "update_rate s = Inr (s\<lparr>m_curTxRateBps := m_curTxRateBps s,
        m_curTxDelayUs := m_curTxDelayUs s\<rparr>)" by simp
    with False show ?thesis by blast
  next
    case True
    define m where "m = unat ?w - idle_slots ?l"
    note win = window_minus_idle [OF len True, folded m_def]
    let ?n = "int m"
    define r :: u32 where "r = word_of_int (1000 * (uint (word_of_int (sent_bytes ?l) * 8 :: u32) sdiv ?n))"
    have "\<exists>d. update_rate s = Inr (s\<lparr>m_curTxRateBps := r, m_curTxDelayUs := d\<rparr>)"
      using True win(2) by (auto simp: update_rate_def tx_sums_eq sz_le_idle [OF lt] Let_def assms(1)
          ms_one win(1) r_def)
    moreover have "uint r = wrapped_rate (sent_bytes ?l) ?n"
    proof -
      let ?b = "8 * sent_bytes ?l mod 2 ^ 32"
      have w: "word_of_int (sent_bytes ?l) * 8 = (word_of_int (8 * sent_bytes ?l) :: u32)" by (simp add: mult.commute)
      have u: "uint (word_of_int (sent_bytes ?l) * 8 :: u32) = ?b" unfolding w uint_word_of_int by simp
      have nn: "0 \<le> ?b" by simp
      then have "?b sdiv ?n = ?b div ?n"
        using win(2) by (cases "?b = 0") (simp_all add: signed_divide_int_def)
      then show ?thesis unfolding r_def u wrapped_rate_def uint_word_of_int by simp
    qed
    ultimately show ?thesis unfolding m_def by blast
  qed
qed

lemma update_head_run:
  assumes "m_mode s = 1"
  shows "\<exists>s1. update_head hp s = Inr s1 \<and>
    kTxBytesListInterval s1 = kTxBytesListInterval s \<and> kTxBytesListWindow s1 = kTxBytesListWindow s \<and>
    kMinTxRateBps s1 = kMinTxRateBps s \<and> m_txBytesList s1 = m_txBytesList s \<and>
    m_lastTotalTxBytes s1 = m_lastTotalTxBytes s"
  using assms by (cases hp) (auto simp: update_head_def)

lemma UpdateTxRate_run:
  assumes "m_mode s = 1" "kTxBytesListInterval s = MilliSeconds 1"
  shows "\<exists>s' l. UpdateTxRate q s = Inr s' \<and> m_txBytesList s' = l \<and>
    l = m_txBytesList (record_slot q s) \<and> kTxBytesListWindow s' = kTxBytesListWindow s \<and>
    length l \<le> unat (kTxBytesListWindow s) \<and> kMinTxRateBps s \<le> m_curTxRateBps s' \<and>
    (idle_slots l < length l \<longrightarrow>
      uint (m_curTxRateBps s') = max (wrapped_rate (sent_bytes l)
        (int (unat (kTxBytesListWindow s) - idle_slots l))) (uint (kMinTxRateBps s)))"
proof -
  obtain hp s1 where hp: "head_packet (m_mode s) q = Inr hp" and s1: "update_head hp s = Inr s1"
    and same: "kTxBytesListInterval s1 = MilliSeconds 1" "kTxBytesListWindow s1 = kTxBytesListWindow s"
      "kMinTxRateBps s1 = kMinTxRateBps s" "m_txBytesList s1 = m_txBytesList s"
      "m_lastTotalTxBytes s1 = m_lastTotalTxBytes s"
    using update_head_run [OF assms(1)] assms by (metis head_packet_def)
  let ?r = "record_slot q s1"
  have r: "kTxBytesListInterval ?r = MilliSeconds 1" "kTxBytesListWindow ?r = kTxBytesListWindow s"
    "kMinTxRateBps ?r = kMinTxRateBps s" "m_txBytesList ?r = m_txBytesList (record_slot q s)"
    "length (m_txBytesList ?r) \<le> unat (kTxBytesListWindow s)"
    using same by (simp_all add: record_slot_def Let_def length_keep_last)
  from update_rate_run [OF r(1), unfolded r(2), OF r(5)] obtain x d where
    x: "update_rate ?r = Inr (?r\<lparr>m_curTxRateBps := x, m_curTxDelayUs := d\<rparr>)"
    and rate: "idle_slots (m_txBytesList ?r) < length (m_txBytesList ?r) \<longrightarrow>
      uint x = wrapped_rate (sent_bytes (m_txBytesList ?r))
        (int (unat (kTxBytesListWindow s) - idle_slots (m_txBytesList ?r)))"
    by blast
  let ?s' = "?r\<lparr>m_curTxRateBps := max x (kMinTxRateBps s), m_curTxDelayUs := d\<rparr>"
  have "UpdateTxRate q s = Inr ?s'"
    by (simp add: UpdateTxRate_def hp s1 x r(3))
  moreover have "uint (max x (kMinTxRateBps s)) = max (uint x) (uint (kMinTxRateBps s))"
    by (simp add: max_def word_le_def)
  ultimately show ?thesis using rate r by (intro exI [of _ ?s']) simp
qed

section \<open>The scan of the queue\<close>

text \<open>
  On a queue whose byte counter is right, the scan gives the bytes ahead of the flow's last packet.
\<close>

lemma scan_tail_split:
  assumes "own p" "\<forall>x \<in> set post. \<not> own x"
  shows "scan_tail own (sum_list (map pk_size (pre @ p # post))) (rev (pre @ p # post))
    = sum_list (map pk_size pre)"
proof -
  have step: "scan_tail own (c + sum_list (map pk_size xs)) (rev xs @ ys) = scan_tail own c ys"
    if "\<forall>x \<in> set xs. \<not> own x" for xs c and ys :: "'a ip_packet list"
    using that
  proof (induction xs arbitrary: ys rule: rev_induct)
    case Nil
    then show ?case by simp
  next
    case (snoc x xs)
    then show ?case by (simp add: add.assoc [symmetric])
  qed
  show ?thesis
    using step [OF assms(2), of "sum_list (map pk_size pre) + pk_size p" "p # rev pre"] assms(1)
    by (simp add: add.assoc)
qed

lemma scan_tail_none:
  assumes "\<forall>x \<in> set q. \<not> own x"
  shows "scan_tail own (sum_list (map pk_size q)) (rev q) = 0"
  using assms
proof (induction q rule: rev_induct)
  case Nil
  then show ?case by simp
next
  case (snoc x xs)
  then show ?case by simp
qed

section \<open>Properties\<close>

text \<open>A state and packets for the witnesses.\<close>

definition zhuge_raw :: "bytes zhuge" where
  "zhuge_raw = \<lparr>m_wirtcEnable = False, m_sendIP = 0, m_sendPort = 0, m_recvIP = 0, m_recvPort = 0,
     cc_create = False, m_lastTotalTxBytes = 0, last_id = 0, m_lastHeadId = 0, m_lastHeadDstAddr = 0,
     m_curQHeadTimeMs = 0, m_curQSizeByte = 0, kTxBytesListInterval = 0, extra_bytes = 0, m_mode = 0,
     m_qsize = 0, m_txBytesList = [], m_lastQSizeByte = 0, m_lastTotalDelayMs = 0,
     kAmpduMaxWaitMs = 0, m_fastAckRtx = False, m_LastRcvAck = 0, m_cache = [], m_lastAckArrv = 0,
     m_lastAckSent = 0, m_deltaAckDelay = DeltaDelay_new, kMaxActualDelay = 0, m_isFirstPkt = False,
     m_isFirstAck = False, kTxBytesListWindow = 0, kMinTxRateBps = 0, m_curTxRateBps = 0,
     m_curTxDelayUs = 0, schedule_flag = False, sndback_pkt = None, sndback_pkt_size = 0,
     send_id = 0, sendaddr = 0\<rparr>"

definition zhuge_example :: "bytes zhuge" where
  "zhuge_example = Zhuge_InitSocket (Zhuge_Setup 1 5000 2 6000 True 10 True 1 1 False
     (Zhuge_ctor zhuge_raw))"

definition example_packet :: "bytes ip_packet" where
  "example_packet = \<lparr>ip_src = 2, ip_dst = 1, ip_id = 7, ip_proto = 6, ip_payload_size = 20,
     udp_sport = 5000, tcp_flags = 16, is_action = False, pk_size = 640, pk_size_udp = 620,
     pk_left = 900, pk_app = []\<rparr>"

definition example_queue :: "bytes tx_queue" where
  "example_queue = \<lparr>GetTotalReceivedBytes = 7920, GetNBytes = 1920,
     queued = [example_packet, example_packet\<lparr>ip_proto := 17\<rparr>, example_packet]\<rparr>"

lemma zhuge_example_fields:
  "m_mode zhuge_example = 1" "kTxBytesListInterval zhuge_example = MilliSeconds 1"
  "kTxBytesListWindow zhuge_example = 50" "kMinTxRateBps zhuge_example = 512000"
  "m_txBytesList zhuge_example = []" "m_lastTotalTxBytes zhuge_example = 0"
  "m_sendPort zhuge_example = 5000" "m_curTxRateBps zhuge_example = 512000"
  "m_curTxDelayUs zhuge_example = 0" "m_wirtcEnable zhuge_example" "extra_bytes zhuge_example = 0"
  "m_sendIP zhuge_example = 1"
  by (simp_all add: zhuge_example_def Zhuge_InitSocket_def Zhuge_Setup_def Zhuge_ctor_def
      zhuge_raw_def ms_one)

lemma zhuge_example_start: "zstart zhuge_example"
  unfolding zhuge_example_def by (rule zstart_setup)

text \<open>
  C1: the feedback of TCP flows. On every run of the access point, whatever mixture of data, timer
  ticks, reports and ACKs it handles and however the delays are drawn, the ACKs leave in the order
  they arrived, none before it arrived and none more than 10 ms after.
\<close>

theorem zhuge_acks_paced:
  assumes "zstart s" "env_ok env" "zreach k env (t0, s, []) (t, s', acks)"
  shows "sorted (map fst (rev acks)) \<and> sorted (map snd (rev acks)) \<and>
    list_all (\<lambda>(arrv, sent). arrv \<le> sent \<and> sent \<le> arrv + MilliSeconds 10) acks"
proof -
  have "run_inv env (t, s', acks)"
    using zreach_run_inv [OF assms(3)] zstart_run_inv [OF assms(1,2)] by blast
  then have srt: "sorted_wrt (\<lambda>x y. fst y \<le> fst x \<and> snd y \<le> snd x) acks"
    and ok: "list_all (ack_ok_at t) acks" by (simp_all add: run_inv_def)
  have "sorted_wrt (\<lambda>x y. fst x \<le> fst y) (rev acks)" "sorted_wrt (\<lambda>x y. snd x \<le> snd y) (rev acks)"
    using srt by (auto simp: sorted_wrt_rev elim: sorted_wrt_mono_rel [rotated])
  with ok show ?thesis
    by (auto simp: sorted_map list_all_iff ack_ok_at_def)
qed

theorem zhuge_acks_paced_witness:
  "\<exists>s'. zreach plain_ns3 plain_env (0, zhuge_example, [])
      (MilliSeconds 2, s', [(MilliSeconds 2, MilliSeconds 2), (MilliSeconds 1, MilliSeconds 1)]) \<and>
    sorted (map snd (rev [(MilliSeconds 2, MilliSeconds 2), (MilliSeconds 1, MilliSeconds 1)]))"
proof -
  obtain s1 where 1: "OnRecv_snddev plain_env (\<lambda>_. 0) (MilliSeconds 1) example_packet zhuge_example
      = Inr (Some 0, s1)" and s1: "m_sendIP s1 = 1" "\<not> m_isFirstAck s1" "m_wirtcEnable s1"
      "m_lastAckSent s1 = MilliSeconds 1" "m_deltaAckDelay s1 = DeltaDelay_new"
      "kMaxActualDelay s1 = MilliSeconds 10"
    by (simp add: OnRecv_snddev_def zhuge_example_def Zhuge_InitSocket_def Zhuge_Setup_def
        Zhuge_ctor_def example_packet_def zhuge_raw_def)
  obtain s2 where 2: "OnRecv_snddev plain_env (\<lambda>_. 0) (MilliSeconds 2) example_packet s1
      = Inr (Some 0, s2)"
    using s1 by (simp add: OnRecv_snddev_def example_packet_def dd_eval DeltaDelay_new_def)
  have "zreach plain_ns3 plain_env (0, zhuge_example, [])
      (MilliSeconds 1, s1, [(MilliSeconds 1, MilliSeconds 1 + 0)])"
    by (rule zreach.step [OF zreach.refl zstep.ack [OF _ rnd_ok_zero 1]]) (simp add: time_defs)
  then have run: "zreach plain_ns3 plain_env (0, zhuge_example, [])
      (MilliSeconds 2, s2, [(MilliSeconds 2, MilliSeconds 2 + 0), (MilliSeconds 1, MilliSeconds 1 + 0)])"
    by (rule zreach.step [OF _ zstep.ack [OF _ rnd_ok_zero 2]]) (simp add: time_defs)
  from zhuge_acks_paced [OF zhuge_example_start plain_env_ok run] run show ?thesis by auto
qed

text \<open>
  C6: no ACK makes the access point abort: in every reachable state the callback returns, and it
  forwards exactly the TCP packets addressed to the sender.
\<close>

theorem zhuge_ack_returns:
  assumes "zstart s" "env_ok env" "zreach k env (t0, s, []) (t, s', acks)" "t \<le> now" "rnd_ok rnd"
  shows "\<exists>delay s''. OnRecv_snddev env rnd now p s' = Inr (delay, s'') \<and>
    (delay = None \<longleftrightarrow> \<not> (ip_dst p = m_sendIP s' \<and> ip_proto p = 6))"
proof -
  have "run_inv env (t, s', acks)"
    using zreach_run_inv [OF assms(3)] zstart_run_inv [OF assms(1,2)] by blast
  then have "pace_inv env now s'" using assms(4) pace_inv_mono by (auto simp: run_inv_def)
  then have wf: "dd_wf env now (m_deltaAckDelay s')"
    and b: "\<not> m_isFirstAck s' \<longrightarrow> m_lastAckArrv s' \<le> now" by (simp_all add: pace_inv_def)
  have smp: "\<exists>r d. SampleDeltaDelay env rnd now m (m_deltaAckDelay s') = Inr (r, d)" if "m \<le> 0" for m
    using dd.sample_ok [OF wf assms(5) that] by blast
  show ?thesis
  proof (cases "m_isFirstAck s'")
    case True
    then show ?thesis by (simp add: OnRecv_snddev_def)
  next
    case False
    with b have "m_lastAckSent s' - (now + (m_lastAckSent s' - m_lastAckArrv s')) \<le> 0" by simp
    from smp [OF this] smp [of "Seconds 0"] False show ?thesis
      by (auto simp: OnRecv_snddev_def Let_def time_defs)
  qed
qed

theorem zhuge_ack_returns_witness:
  "\<exists>delay s''. OnRecv_snddev plain_env (\<lambda>_. 0) 5 example_packet zhuge_example = Inr (delay, s'') \<and>
    (delay = None \<longleftrightarrow> \<not> (ip_dst example_packet = m_sendIP zhuge_example \<and> ip_proto example_packet = 6))"
  by (rule zhuge_ack_returns [OF zhuge_example_start plain_env_ok zreach.refl [of plain_ns3 _ "(5, zhuge_example, [])"]
        order_refl rnd_ok_zero])

text \<open>In point-to-point mode the millisecond timer always completes (no division by zero) and
  the rate it leaves is the bits that left the queue in the window, per millisecond that the queue
  was not idle, times 1000, but at least \<open>kMinTxRateBps\<close>; the window never holds more than
  \<open>kTxBytesListWindow\<close> slots.
\<close>

theorem UpdateTxRate_measures:
  assumes "m_mode s = 1" "kTxBytesListInterval s = MilliSeconds 1"
  shows "\<exists>s'. UpdateTxRate q s = Inr s' \<and>
    length (m_txBytesList s') \<le> unat (kTxBytesListWindow s) \<and>
    kMinTxRateBps s \<le> m_curTxRateBps s' \<and>
    (let l = m_txBytesList s'; idle = length (filter (\<lambda>x. x < 0) l);
         bytes = sum_list (filter (\<lambda>x. 0 < x) l)
     in idle < length l \<longrightarrow>
        uint (m_curTxRateBps s') = max (wrapped_rate bytes (int (unat (kTxBytesListWindow s) - idle)))
          (uint (kMinTxRateBps s)))"
  using UpdateTxRate_run [OF assms, of q]
  by (auto simp: Let_def idle_slots_def sent_bytes_def)

theorem UpdateTxRate_measures_witness:
  "\<exists>s'. UpdateTxRate example_queue zhuge_example = Inr s' \<and> uint (m_curTxRateBps s') = 960000"
proof -
  note m = zhuge_example_fields(1,2) and w = zhuge_example_fields(3,4) and z = zhuge_example_fields(5,6)
  have "m_txBytesList (record_slot example_queue zhuge_example) = [6000]"
    by (simp add: record_slot_def Let_def example_queue_def w z keep_last_def)
  then have l: "m_txBytesList s' = [6000]" if "UpdateTxRate example_queue zhuge_example = Inr s'" for s'
    using UpdateTxRate_run [OF m, of example_queue] that by auto
  from UpdateTxRate_measures [OF m, of example_queue] l show ?thesis
    by (auto simp: Let_def w wrapped_rate_def)
qed

text \<open>In Wi-Fi mode the timer aborts the simulation as soon as a data packet is waiting: the branch
  that would remove the LLC/SNAP header tests the mode for the same value as the one before it.
\<close>

theorem UpdateTxRate_wifi_fatal:
  assumes "m_mode s = 0"
  shows "UpdateTxRate q s = Inl FatalError \<longleftrightarrow> (\<exists>p \<in> set (queued q). \<not> is_action p)"
proof (cases "dropWhile is_action (queued q)")
  case Nil
  then have none: "\<forall>p \<in> set (queued q). is_action p" by (simp add: dropWhile_eq_Nil_conv)
  have "update_rate t \<noteq> Inl FatalError" for t :: "'a zhuge"
    by (auto simp: update_rate_def Let_def split: prod.splits)
  then have "res_bind (update_rate t) (\<lambda>s. Inr (g s)) \<noteq> Inl FatalError"
    for t :: "'a zhuge" and g :: "'a zhuge \<Rightarrow> 'a zhuge"
    by (cases "update_rate t") auto
  moreover have "head_packet (m_mode s) q = Inr None"
    by (simp add: head_packet_def assms Nil)
  ultimately show ?thesis using none by (auto simp: UpdateTxRate_def update_head_def)
next
  case (Cons p ps)
  then have "p \<in> set (queued q) \<and> \<not> is_action p"
    by (metis dropWhile_eq_Cons_conv hd_dropWhile list.sel(1) list.distinct(1) list.set_intros(1) set_dropWhileD)
  with Cons assms show ?thesis by (auto simp: UpdateTxRate_def head_packet_def update_head_def)
qed

theorem UpdateTxRate_wifi_fatal_witness:
  "UpdateTxRate example_queue (zhuge_example\<lparr>m_mode := 0\<rparr>) = Inl FatalError"
  using UpdateTxRate_wifi_fatal [of "zhuge_example\<lparr>m_mode := 0\<rparr>" example_queue]
  by (simp add: example_queue_def example_packet_def)

text \<open>
  C7: the backlog of a UDP flow. When more bytes followed the reported packet than the queue disc
  holds, the packet is already in the device queue, and \<open>CalculateTotalDelayMs\<close> counts exactly
  the bytes queued ahead of the flow's last packet there; in point-to-point mode the delay is the
  time to send them at the measured rate plus the transmission delay.
\<close>

theorem CalculateTotalDelayMs_backlog:
  assumes "extraByte > qdisc" "queued q = pre @ p # post" "GetNBytes q = sum_list (map pk_size (queued q))"
    and "own_packet s p" "\<forall>x \<in> set post. \<not> own_packet s x"
    and "CalculateTotalDelayMs f extraByte qdisc q s = Inr (d, s')"
  shows "m_curQSizeByte s' = sum_list (map pk_size pre) \<and>
    (m_mode s = 1 \<longrightarrow> d = word_of_int (trunc (f (1000 * f
        (of_nat (unat (sum_list (map pk_size pre) * 8)) / of_nat (unat (m_curTxRateBps s))))))
      + m_curTxDelayUs s div 1000)"
proof -
  have sz: "queue_size extraByte qdisc q s =
      Inr (sum_list (map pk_size pre), if m_mode s = 0 then m_curQHeadTimeMs s else 0)"
    using assms(1,2,3) scan_tail_split [of "own_packet s" p post pre] assms(4,5)
    by (simp add: queue_size_def)
  with assms(6) show ?thesis
    by (auto simp: CalculateTotalDelayMs_def queue_delay_def Let_def split: if_splits
        dest!: res_bind_InrD)
qed

theorem CalculateTotalDelayMs_backlog_witness:
  "\<exists>d s'. CalculateTotalDelayMs id 5 4 example_queue zhuge_example = Inr (d, s') \<and>
    m_curQSizeByte s' = 640 \<and> d = 10"
proof -
  let ?u = "example_packet\<lparr>ip_proto := 17\<rparr>"
  note s = zhuge_example_fields
  have "\<exists>x. CalculateTotalDelayMs id 5 4 example_queue zhuge_example = Inr x"
    by (simp add: CalculateTotalDelayMs_def queue_size_def queue_delay_def example_queue_def
        example_packet_def own_packet_def s Let_def trunc_def)
  then obtain d s' where r: "CalculateTotalDelayMs id 5 4 example_queue zhuge_example = Inr (d, s')"
    by auto
  have "m_curQSizeByte s' = 640 \<and> d = 10"
    using CalculateTotalDelayMs_backlog [of 4 5 example_queue "[example_packet]" ?u "[example_packet]",
        OF _ _ _ _ _ r]
    by (simp add: example_queue_def example_packet_def own_packet_def s trunc_def)
  with r show ?thesis by blast
qed

text \<open>The report that \<open>Sendback\<close> makes for a data packet. It is made exactly when the packet's
  id is larger than the last one reported or smaller by more than 32768, and then its single entry is the
  distance from that id modulo \<open>2 ^ 16\<close>. The first test does not wrap: an old packet whose id
  is numerically larger is reported as an advance of more than 32767 packets.
\<close>

theorem Sendback_report:
  assumes "m_txBytesList s \<noteq> []" "sndback_pkt s = Some (DataP pkt)" "packet_type pkt = DATA_PKT"
    and "vh_global_id (video_header pkt) = i" "Sendback f now qdisc q s = Inr (r, s')"
  shows "if i > last_id s \<or> uint (last_id s) - uint i > 32768
    then last_id s' = i \<and> (m_wirtcEnable s \<longrightarrow>
      (\<exists>ns h. r = Some ns \<and> ns_loss_seq ns = [uint (i - last_id s)] \<and> ns_recvtime_hist ns = [h] \<and>
         rt_pkt_id h = ucast i \<and> 0 < uint (i - last_id s) \<and>
         (i > last_id s \<and> lessThan i (last_id s) \<longrightarrow> 32767 < uint (i - last_id s))))
    else r = None \<and> last_id s' = last_id s"
proof -
  let ?s = "s\<lparr>schedule_flag := False\<rparr>"
  obtain d s1 where c: "CalculateTotalDelayMs f (extra_bytes s) qdisc q ?s = Inr (d, s1)"
    using assms(1,5) by (auto simp: Sendback_def Let_def dest!: res_bind_InrD)
  obtain sz where s1: "s1 = ?s\<lparr>m_curQSizeByte := sz\<rparr>"
    using CalculateTotalDelayMs_frame [OF c] by blast
  have small: "uint i < 65536" "uint (last_id s) < 65536" by (rule uint_lt)+
  have cond: "ucast i > (ucast (last_id s) :: u32) \<longleftrightarrow> i > last_id s"
    by (simp add: word_less_def)
  have cond2: "i > last_id s \<or> ucast (last_id s) - ucast i > (32768 :: u32) \<longleftrightarrow>
      i > last_id s \<or> uint (last_id s) - uint i > 32768"
    using small by (auto simp: word_less_def uint_sub_if' not_less)
  have dist: "sint ((ucast i + 65536 - ucast (last_id s)) mod 65536 :: u32) = uint (i - last_id s)"
  proof -
    have b: "0 \<le> uint i + 65536 - uint (last_id s)" "uint i + 65536 - uint (last_id s) < 4294967296"
      using small uint_ge_0 [of i] uint_ge_0 [of "last_id s"] by linarith+
    have "uint (ucast i + 65536 - ucast (last_id s) :: u32) = uint i + 65536 - uint (last_id s)"
      by (simp add: uint_word_ariths mod_simps mod_pos_pos_trivial [OF b])
    then have "uint ((ucast i + 65536 - ucast (last_id s)) mod 65536 :: u32)
        = (uint i + 65536 - uint (last_id s)) mod 65536"
      by (simp add: uint_mod)
    also have "\<dots> = (uint i - uint (last_id s)) mod 65536"
      by (metis add_diff_eq diff_add_eq mod_add_self2)
    also have "\<dots> = uint (i - last_id s)" by (simp add: uint_word_ariths)
    finally have u: "uint ((ucast i + 65536 - ucast (last_id s)) mod 65536 :: u32) = uint (i - last_id s)" .
    moreover have "- (2 ^ 31) \<le> uint (i - last_id s)"
      by (rule order_trans [OF _ uint_ge_0]) simp
    ultimately show ?thesis using uint_lt(2) [of "i - last_id s"]
      by (simp add: sint_uint signed_take_bit_int_eq_self)
  qed
  have pos: "0 < uint (i - last_id s)" if "i > last_id s \<or> uint (last_id s) - uint i > 32768"
    using that by (metis diff_self eq_iff_diff_eq_0 less_irrefl not_le uint_0_iff uint_ge_0
        order_le_less zero_less_numeral less_asym)
  have half: "32767 < uint (i - last_id s)" if "lessThan i (last_id s)"
    using uint_minus_swap [OF lessThan_neq [OF that]] that by (simp add: lessThan_iff)
  show ?thesis
    using assms c by (auto simp: Sendback_def Let_def s1 sendback_states_def cond cond2 dist pos half
        split: if_splits)
qed

definition report_packet :: DataPacket where
  "report_packet = example_data\<lparr>packet_type := DATA_PKT,
     video_header := (video_header example_data)\<lparr>vh_global_id := 65530\<rparr>\<rparr>"

theorem Sendback_report_witness:
  "\<exists>ns s'. Sendback id (MilliSeconds 9) 0 example_queue (zhuge_example\<lparr>m_txBytesList := [0],
      last_id := 5, sndback_pkt := Some (DataP report_packet)\<rparr>) = Inr (Some ns, s') \<and>
    ns_loss_seq ns = [65525]"
proof -
  let ?s = "zhuge_example\<lparr>m_txBytesList := [0], last_id := 5,
      sndback_pkt := Some (DataP report_packet)\<rparr>"
  have p: "packet_type report_packet = DATA_PKT" "vh_global_id (video_header report_packet) = 65530"
    by (simp_all add: report_packet_def)
  have q: "GetNBytes example_queue = 1920" by (simp add: example_queue_def)
  have "CalculateTotalDelayMs id 0 0 example_queue (?s\<lparr>schedule_flag := False\<rparr>)
      = Inr (30, ?s\<lparr>schedule_flag := False, m_curQSizeByte := 1920\<rparr>)"
    by (simp add: CalculateTotalDelayMs_def queue_size_def queue_delay_def Let_def
        zhuge_example_fields q trunc_def)
  then obtain r s' where r: "Sendback id (MilliSeconds 9) 0 example_queue ?s = Inr (r, s')"
    by (simp add: Sendback_def zhuge_example_fields p)
  have i: "(65530 :: u16) > 5" "uint (65530 - 5 :: u16) = 65525" by simp_all
  have ne: "m_txBytesList ?s \<noteq> []" "sndback_pkt ?s = Some (DataP report_packet)" by simp_all
  from Sendback_report [OF ne p r] r i zhuge_example_fields(10) show ?thesis by auto
qed

end
