(* ===== verification/Packet_Group.thy ===== *)
theory Packet_Group
  imports Net_Packet "HOL-Library.AList"
begin

text \<open>
  Packet groups and batches (\<open>src/bitrate-ctrl/model/fec-policy/packet-group.h\<close> and \<open>.cc\<close>): the
  receiver's bookkeeping of which data packets of a group have arrived and which a FEC packet can
  replace. An \<open>unordered_map\<close> is an association list with distinct keys; its \<open>begin()\<close>, in no
  particular order, is the argument \<open>pick\<close>. An \<open>unordered_set\<close> is a set.
\<close>

section \<open>Video packets\<close>

text \<open>What a \<open>Ptr<VideoPacket>\<close> points to.\<close>

datatype vpacket = VData DataPacket | VFec FECPacket

fun vp_header :: "vpacket \<Rightarrow> VideoPacketHeader" where
  "vp_header (VData p) = video_header p"
| "vp_header (VFec p) = video_header p"

fun vp_type :: "vpacket \<Rightarrow> PacketType" where
  "vp_type (VData p) = packet_type p"
| "vp_type (VFec p) = packet_type p"

fun vp_rcv_time :: "vpacket \<Rightarrow> time" where
  "vp_rcv_time (VData p) = rcv_time p"
| "vp_rcv_time (VFec p) = rcv_time p"

section \<open>Batches\<close>

record PacketBatch =
  pb_batch_id :: u32
  pb_data_num :: u16
  pb_fec_num :: u16
  pb_decoded_pkts :: "u16 set"
  pb_undecoded_pkts :: "DataPacket list"
  pb_data_pkts :: "(u16 \<times> DataPacket) list"
  pb_fec_pkts :: "(u16 \<times> FECPacket) list"

text \<open>What a batch reads of the group that owns it.\<close>

record group_info =
  gi_group_id :: u32
  gi_data_num :: u16
  gi_fec_num :: u16

definition pkt_id_batch :: "vpacket \<Rightarrow> u16" where
  "pkt_id_batch pkt = vh_pkt_id_in_batch (vp_header pkt)"

definition PacketBatch_AddPacket :: "vpacket \<Rightarrow> PacketBatch \<Rightarrow> PacketBatch" where
  "PacketBatch_AddPacket pkt b =
     (let pkt_id = pkt_id_batch pkt in
      if pkt_id \<in> pb_decoded_pkts b then b
      else case pkt of
        VData d \<Rightarrow>
          if packet_type d = DATA_PKT \<or> packet_type d = DUP_FEC_PKT
          then b\<lparr>pb_data_pkts := AList.update pkt_id d (pb_data_pkts b),
                 pb_undecoded_pkts := pb_undecoded_pkts b @ [d]\<rparr>
          else b
      | VFec x \<Rightarrow>
          if packet_type x = FEC_PKT
          then b\<lparr>pb_fec_pkts := AList.update pkt_id x (pb_fec_pkts b)\<rparr>
          else b)"

definition PacketBatch_new :: "vpacket \<Rightarrow> PacketBatch res" where
  "PacketBatch_new pkt =
     (let h = vp_header pkt;
          b = \<lparr>pb_batch_id = vh_batch_id h, pb_data_num = vh_batch_data_num h,
            pb_fec_num = vh_batch_fec_num h, pb_decoded_pkts = {}, pb_undecoded_pkts = [],
            pb_data_pkts = [], pb_fec_pkts = []\<rparr>
      in ns_assert (pb_data_num b > 0) (Inr (PacketBatch_AddPacket pkt b)))"

text \<open>The packets rebuilt from the digests of a FEC packet: those that are not in \<open>data_pkts\<close>.\<close>

definition recovered_pkts :: "DataPacket \<Rightarrow> time \<Rightarrow> group_info \<Rightarrow> PacketBatch \<Rightarrow> FECPacket \<Rightarrow>
    DataPacket list" where
  "recovered_pkts raw now g b x =
     map (\<lambda>d. SetEncodeTime (vh_encode_time (video_header x))
         ((DataPacket_of_digest d (gi_group_id g) (gi_data_num g) (gi_fec_num g)
            (pb_batch_id b) (pb_data_num b) (pb_fec_num b) raw)\<lparr>rcv_time := now\<rparr>))
       (filter (\<lambda>d. map_of (pb_data_pkts b) (dg_pkt_id_in_batch d) = None) (fec_header x))"

definition PacketBatch_CheckComplete :: "((u16 \<times> FECPacket) list \<Rightarrow> u16 \<times> FECPacket) \<Rightarrow>
    DataPacket \<Rightarrow> time \<Rightarrow> group_info \<Rightarrow> PacketBatch \<Rightarrow> (bool \<times> PacketBatch) res" where
  "PacketBatch_CheckComplete pick raw now g b =
     (if length (pb_data_pkts b) + length (pb_fec_pkts b) \<ge> unat (pb_data_num b) then
        if length (pb_data_pkts b) = unat (pb_data_num b) then Inr (True, b)
        else ns_assert (length (pb_fec_pkts b) > 0)
          (let x = snd (pick (pb_fec_pkts b)) in
           Inr (True, b\<lparr>pb_undecoded_pkts := pb_undecoded_pkts b @ recovered_pkts raw now g b x,
             pb_data_pkts := [], pb_fec_pkts := []\<rparr>))
      else Inr (False, b))"

definition PacketBatch_GetUndecodedPackets :: "PacketBatch \<Rightarrow> DataPacket list \<times> PacketBatch" where
  "PacketBatch_GetUndecodedPackets b =
     (let data_pkt_list = pb_undecoded_pkts b
      in (data_pkt_list, b\<lparr>pb_undecoded_pkts := [],
        pb_decoded_pkts := pb_decoded_pkts b \<union>
          set (map (\<lambda>p. vh_pkt_id_in_batch (video_header p)) data_pkt_list)\<rparr>))"

section \<open>Groups\<close>

record PacketGroup =
  pg_group_id :: u32
  pg_data_num :: u16
  pg_fec_num :: u16
  pg_encode_time :: time
  pg_first_rcv_time :: time
  pg_last_rcv_time_tx_0 :: time
  pg_decoded_pkts :: "u16 set"
  pg_undecoded_pkts :: "DataPacket list"
  pg_incomplete_batches :: "(u32 \<times> PacketBatch) list"
  pg_complete_batches :: "(u32 \<times> PacketBatch) list"
  pg_next_rtx_count :: u8
  pg_last_pkt_id_tx_0 :: u16
  pg_max_tx_count :: u8
  pg_first_tx_data_count :: u16
  pg_first_tx_fec_count :: u16
  pg_rtx_data_count :: u16
  pg_rtx_fec_count :: u16
  pg_pkt_arrive_dis :: "(u8 \<times> u32) list"

definition PacketGroup_ctor :: "u32 \<Rightarrow> u16 \<Rightarrow> time \<Rightarrow> PacketGroup \<Rightarrow> PacketGroup" where
  "PacketGroup_ctor group_id data_num encode_time raw =
     raw\<lparr>pg_group_id := group_id, pg_data_num := data_num, pg_encode_time := encode_time,
       pg_max_tx_count := 0, pg_first_tx_data_count := 0, pg_first_tx_fec_count := 0,
       pg_rtx_data_count := 0, pg_rtx_fec_count := 0, pg_next_rtx_count := 1,
       pg_decoded_pkts := {}, pg_undecoded_pkts := [], pg_incomplete_batches := [],
       pg_complete_batches := [], pg_pkt_arrive_dis := []\<rparr>"

definition InitGroup :: "vpacket \<Rightarrow> PacketGroup \<Rightarrow> PacketGroup" where
  "InitGroup pkt g =
     g\<lparr>pg_fec_num := vh_group_fec_num (vp_header pkt), pg_first_rcv_time := vp_rcv_time pkt,
       pg_last_rcv_time_tx_0 := vp_rcv_time pkt, pg_max_tx_count := vh_tx_count (vp_header pkt),
       pg_last_pkt_id_tx_0 := vh_pkt_id_in_group (vp_header pkt)\<rparr>"

text \<open>\<open>Time / int\<close>; the count is an \<open>int\<close>, so 0 packets divide by zero.\<close>

definition GetAvgPktInterval :: "PacketGroup \<Rightarrow> time res" where
  "GetAvgPktInterval g =
     (if pg_last_pkt_id_tx_0 g = 0 then Inr (MicroSeconds 0)
      else
        let n = uint (pg_data_num g) + uint (pg_fec_num g)
        in if n = 0 then Inl UndefinedBehaviour
           else Inr ((pg_last_rcv_time_tx_0 g - pg_first_rcv_time g) sdiv n))"

definition update_statistics :: "vpacket \<Rightarrow> PacketGroup \<Rightarrow> PacketGroup" where
  "update_statistics pkt g =
     (let h = vp_header pkt;
          g = (if vh_tx_count h = 0 then
                 if vp_type pkt = DATA_PKT
                 then g\<lparr>pg_first_tx_data_count := pg_first_tx_data_count g + 1\<rparr>
                 else if vp_type pkt = FEC_PKT \<or> vp_type pkt = DUP_FEC_PKT
                 then g\<lparr>pg_first_tx_fec_count := pg_first_tx_fec_count g + 1\<rparr> else g
               else
                 if vp_type pkt = DATA_PKT
                 then g\<lparr>pg_rtx_data_count := pg_rtx_data_count g + 1\<rparr>
                 else if vp_type pkt = FEC_PKT \<or> vp_type pkt = DUP_FEC_PKT
                 then g\<lparr>pg_rtx_fec_count := pg_rtx_fec_count g + 1\<rparr> else g);
          g = (if vh_tx_count h > pg_max_tx_count g then g\<lparr>pg_max_tx_count := vh_tx_count h\<rparr> else g);
          g = (if vh_encode_time h < pg_encode_time g then g\<lparr>pg_encode_time := vh_encode_time h\<rparr> else g);
          g = (if vp_rcv_time pkt > pg_last_rcv_time_tx_0 g \<and> vh_tx_count h = 0
               then g\<lparr>pg_last_rcv_time_tx_0 := vp_rcv_time pkt\<rparr> else g)
      in if vh_pkt_id_in_group h > pg_last_pkt_id_tx_0 g \<and>
            uint (vh_pkt_id_in_group h) < uint (pg_data_num g) + uint (pg_fec_num g) \<and> vh_tx_count h = 0
         then g\<lparr>pg_last_pkt_id_tx_0 := vh_pkt_id_in_group h\<rparr> else g)"

definition group_info_of :: "PacketGroup \<Rightarrow> group_info" where
  "group_info_of g = \<lparr>gi_group_id = pg_group_id g, gi_data_num = pg_data_num g,
     gi_fec_num = pg_fec_num g\<rparr>"

text \<open>What the group does with one batch: add, check, take what is new.\<close>

definition batch_receive :: "((u16 \<times> FECPacket) list \<Rightarrow> u16 \<times> FECPacket) \<Rightarrow> DataPacket \<Rightarrow> time \<Rightarrow>
    group_info \<Rightarrow> PacketBatch \<Rightarrow> (bool \<times> DataPacket list \<times> PacketBatch) res" where
  "batch_receive pick raw now gi b =
     res_bind (PacketBatch_CheckComplete pick raw now gi b) (\<lambda>(batch_complete, b).
     Inr (batch_complete, PacketBatch_GetUndecodedPackets b))"

definition PacketGroup_AddPacket :: "((u16 \<times> FECPacket) list \<Rightarrow> u16 \<times> FECPacket) \<Rightarrow> DataPacket \<Rightarrow>
    time \<Rightarrow> vpacket \<Rightarrow> PacketGroup \<Rightarrow> PacketGroup res" where
  "PacketGroup_AddPacket pick raw now pkt g =
     (let g = (if card (pg_decoded_pkts g) + length (pg_undecoded_pkts g) = 0
               then InitGroup pkt g else g);
          g = update_statistics pkt g;
          batch_id = vh_batch_id (vp_header pkt)
      in if map_of (pg_complete_batches g) batch_id \<noteq> None then Inr g
         else if vh_pkt_id_in_group (vp_header pkt) \<in> pg_decoded_pkts g then Inr g
         else
           res_bind (case map_of (pg_incomplete_batches g) batch_id of
               None \<Rightarrow> PacketBatch_new pkt
             | Some b \<Rightarrow> Inr (PacketBatch_AddPacket pkt b)) (\<lambda>b.
           res_bind (batch_receive pick raw now (group_info_of g) b) (\<lambda>(batch_complete, new, b).
           let g = g\<lparr>pg_undecoded_pkts := pg_undecoded_pkts g @ new\<rparr>
           in Inr (if batch_complete
             then g\<lparr>pg_complete_batches := AList.update batch_id b (pg_complete_batches g),
                    pg_incomplete_batches := AList.delete batch_id (pg_incomplete_batches g)\<rparr>
             else g\<lparr>pg_incomplete_batches := AList.update batch_id b (pg_incomplete_batches g)\<rparr>))))"

definition PacketGroup_of_packet :: "((u16 \<times> FECPacket) list \<Rightarrow> u16 \<times> FECPacket) \<Rightarrow> DataPacket \<Rightarrow>
    time \<Rightarrow> vpacket \<Rightarrow> PacketGroup \<Rightarrow> PacketGroup res" where
  "PacketGroup_of_packet pick raw now pkt rawg =
     (let h = vp_header pkt
      in PacketGroup_AddPacket pick raw now pkt
        (rawg\<lparr>pg_group_id := vh_group_id h, pg_data_num := vh_group_data_num h,
          pg_encode_time := vh_encode_time h, pg_first_tx_data_count := 0,
          pg_first_tx_fec_count := 0, pg_rtx_data_count := 0, pg_rtx_fec_count := 0,
          pg_next_rtx_count := 1, pg_decoded_pkts := {}, pg_undecoded_pkts := [],
          pg_incomplete_batches := [], pg_complete_batches := [], pg_pkt_arrive_dis := []\<rparr>))"

definition count_arrival :: "(u8 \<times> u32) list \<Rightarrow> u8 \<Rightarrow> (u8 \<times> u32) list" where
  "count_arrival dis tx = AList.update tx
     ((case map_of dis tx of None \<Rightarrow> 0 | Some n \<Rightarrow> n) + 1) dis"

definition PacketGroup_GetUndecodedPackets :: "PacketGroup \<Rightarrow> DataPacket list \<times> PacketGroup" where
  "PacketGroup_GetUndecodedPackets g =
     (let data_pkt_list = pg_undecoded_pkts g
      in (data_pkt_list, g\<lparr>pg_undecoded_pkts := [],
        pg_decoded_pkts := pg_decoded_pkts g \<union>
          set (map (\<lambda>p. vh_pkt_id_in_group (video_header p)) data_pkt_list),
        pg_pkt_arrive_dis := foldl count_arrival (pg_pkt_arrive_dis g)
          (map (\<lambda>p. vh_tx_count (video_header p)) data_pkt_list)\<rparr>))"

definition PacketGroup_CheckComplete :: "PacketGroup \<Rightarrow> bool" where
  "PacketGroup_CheckComplete g \<longleftrightarrow> card (pg_decoded_pkts g) = unat (pg_data_num g)"

section \<open>Well-formed batches\<close>

definition batch_ids :: "nat \<Rightarrow> u16 set" where
  "batch_ids n = {i. unat i < n}"

definition ids_of :: "DataPacket list \<Rightarrow> u16 list" where
  "ids_of ps = map (\<lambda>p. vh_pkt_id_in_batch (video_header p)) ps"

text \<open>A FEC packet that covers the whole batch, as the sender builds it.\<close>

definition covers :: "nat \<Rightarrow> FECPacket \<Rightarrow> bool" where
  "covers n x \<longleftrightarrow> distinct (map dg_pkt_id_in_batch (fec_header x)) \<and>
     set (map dg_pkt_id_in_batch (fec_header x)) = batch_ids n"

fun fits :: "nat \<Rightarrow> vpacket \<Rightarrow> bool" where
  "fits n (VData d) \<longleftrightarrow> (packet_type d = DATA_PKT \<or> packet_type d = DUP_FEC_PKT) \<and>
     vh_pkt_id_in_batch (video_header d) \<in> batch_ids n"
| "fits n (VFec x) \<longleftrightarrow> packet_type x = FEC_PKT \<and> covers n x"

definition pick_ok :: "((u16 \<times> FECPacket) list \<Rightarrow> u16 \<times> FECPacket) \<Rightarrow> bool" where
  "pick_ok pick \<longleftrightarrow> (\<forall>m. m \<noteq> [] \<longrightarrow> pick m \<in> set m)"

text \<open>
  The data packets seen are the ones decoded and the ones waiting, each once; \<open>idle\<close> batches
  have none waiting.
\<close>

definition batch_wf :: "nat \<Rightarrow> PacketBatch \<Rightarrow> bool" where
  "batch_wf n b \<longleftrightarrow> unat (pb_data_num b) = n \<and>
     distinct (map fst (pb_data_pkts b)) \<and> fst ` set (pb_data_pkts b) \<subseteq> batch_ids n \<and>
     pb_decoded_pkts b \<union> set (ids_of (pb_undecoded_pkts b)) = fst ` set (pb_data_pkts b) \<and>
     distinct (ids_of (pb_undecoded_pkts b)) \<and>
     pb_decoded_pkts b \<inter> set (ids_of (pb_undecoded_pkts b)) = {} \<and>
     (\<forall>x \<in> snd ` set (pb_fec_pkts b). covers n x)"

definition batch_idle :: "nat \<Rightarrow> PacketBatch \<Rightarrow> bool" where
  "batch_idle n b \<longleftrightarrow> batch_wf n b \<and> pb_undecoded_pkts b = []"

lemma card_batch_ids:
  assumes "n \<le> 65536"
  shows "card (batch_ids n) = n"
proof -
  have "batch_ids n = word_of_nat ` {..<n}"
  proof (intro set_eqI iffI)
    fix i :: u16
    assume "i \<in> batch_ids n"
    then show "i \<in> word_of_nat ` {..<n}"
      by (intro image_eqI [of _ _ "unat i"]) (simp_all add: batch_ids_def)
  next
    fix i :: u16
    assume "i \<in> word_of_nat ` {..<n}"
    then show "i \<in> batch_ids n"
      using assms by (auto simp: batch_ids_def unat_word_of_nat_16)
  qed
  moreover have "inj_on (word_of_nat :: nat \<Rightarrow> u16) {..<n}"
    using assms by (intro inj_on_inverseI [where g = unat]) (simp add: unat_word_of_nat_16)
  ultimately show ?thesis by (simp add: card_image)
qed

lemma batch_wf_full:
  assumes "batch_wf n b" "length (pb_data_pkts b) = n"
  shows "fst ` set (pb_data_pkts b) = batch_ids n"
proof -
  have n: "n \<le> 65536" using assms(1) unat_lt(2) [of "pb_data_num b"] by (simp add: batch_wf_def)
  have wf: "distinct (map fst (pb_data_pkts b))" "fst ` set (pb_data_pkts b) \<subseteq> batch_ids n"
    using assms(1) by (simp_all add: batch_wf_def)
  have "card (fst ` set (pb_data_pkts b)) = n"
    using distinct_card [OF wf(1)] assms(2) by simp
  then show ?thesis
    using card_batch_ids [OF n] by (intro card_subset_eq [OF _ wf(2)]) (simp_all add: batch_ids_def)
qed

lemma batch_wf_length: "batch_wf n b \<Longrightarrow> length (pb_data_pkts b) \<le> n"
proof -
  assume wf: "batch_wf n b"
  have n: "n \<le> 65536" using wf unat_lt(2) [of "pb_data_num b"] by (simp add: batch_wf_def)
  have "card (fst ` set (pb_data_pkts b)) \<le> card (batch_ids n)"
    using wf by (intro card_mono) (simp_all add: batch_wf_def batch_ids_def)
  then show ?thesis
    using wf card_batch_ids [OF n] distinct_card [of "map fst (pb_data_pkts b)"]
    by (simp add: batch_wf_def)
qed

section \<open>One packet\<close>

lemma AddPacket_wf:
  assumes "batch_idle n b" "fits n pkt"
  shows "batch_wf n (PacketBatch_AddPacket pkt b) \<and>
    pb_decoded_pkts (PacketBatch_AddPacket pkt b) = pb_decoded_pkts b"
proof (cases "pkt_id_batch pkt \<in> pb_decoded_pkts b")
  case True
  with assms show ?thesis by (simp add: PacketBatch_AddPacket_def Let_def batch_idle_def)
next
  case new: False
  note wf = assms(1) [unfolded batch_idle_def batch_wf_def]
  show ?thesis
  proof (cases pkt)
    case (VData d)
    let ?i = "vh_pkt_id_in_batch (video_header d)"
    have "?i \<notin> pb_decoded_pkts b" "pb_decoded_pkts b = fst ` set (pb_data_pkts b)"
      using new wf VData by (auto simp: pkt_id_batch_def ids_of_def)
    then show ?thesis
      using VData assms(2) wf by (auto simp: PacketBatch_AddPacket_def Let_def pkt_id_batch_def
          batch_wf_def ids_of_def distinct_update dom_update)
  next
    case (VFec x)
    have "snd ` set (AList.update k x al) \<subseteq> {x} \<union> snd ` set al" for k :: u16 and al
      by (induction al) auto
    then show ?thesis
      using VFec assms(2) wf new
      by (fastforce simp: PacketBatch_AddPacket_def Let_def batch_wf_def)
  qed
qed

lemma recovered_ids:
  "ids_of (recovered_pkts raw now g b x) =
     filter (\<lambda>i. i \<notin> fst ` set (pb_data_pkts b)) (map dg_pkt_id_in_batch (fec_header x))"
proof -
  have "ids_of (recovered_pkts raw now g b x) = map dg_pkt_id_in_batch
      (filter (\<lambda>d. map_of (pb_data_pkts b) (dg_pkt_id_in_batch d) = None) (fec_header x))"
    by (simp add: ids_of_def recovered_pkts_def SetEncodeTime_def DataPacket_of_digest_def
        SetFECGroup_def SetFECBatch_def Let_def)
  then show ?thesis by (simp add: filter_map o_def map_of_eq_None_iff)
qed

text \<open>
  The central lemma: whatever arrives, the batch hands out data packets that were not handed out
  before, each once, and when it declares itself complete it has handed out all of them.
\<close>

lemma batch_receive_run:
  assumes b: "batch_wf n b" and pick: "pick_ok pick"
  shows "\<exists>complete out b'. batch_receive pick raw now g b = Inr (complete, out, b') \<and>
    distinct (ids_of out) \<and> set (ids_of out) \<inter> pb_decoded_pkts b = {} \<and>
    pb_decoded_pkts b' = pb_decoded_pkts b \<union> set (ids_of out) \<and>
    (complete \<longleftrightarrow> n \<le> length (pb_data_pkts b) + length (pb_fec_pkts b)) \<and>
    (complete \<longrightarrow> pb_decoded_pkts b' = batch_ids n) \<and> (\<not> complete \<longrightarrow> batch_idle n b')"
proof -
  note wf = b [unfolded batch_wf_def]
  have num: "unat (pb_data_num b) = n" using wf by simp
  have get: "PacketBatch_GetUndecodedPackets c = (pb_undecoded_pkts c, c\<lparr>pb_undecoded_pkts := [],
      pb_decoded_pkts := pb_decoded_pkts c \<union> set (ids_of (pb_undecoded_pkts c))\<rparr>)" for c
    by (simp add: PacketBatch_GetUndecodedPackets_def ids_of_def Let_def)
  consider (more) "length (pb_data_pkts b) + length (pb_fec_pkts b) < n"
    | (full) "length (pb_data_pkts b) = n"
    | (fec) "length (pb_data_pkts b) \<noteq> n" "n \<le> length (pb_data_pkts b) + length (pb_fec_pkts b)"
    by linarith
  then show ?thesis
  proof cases
    case more
    let ?b' = "b\<lparr>pb_undecoded_pkts := [],
      pb_decoded_pkts := pb_decoded_pkts b \<union> set (ids_of (pb_undecoded_pkts b))\<rparr>"
    have "batch_receive pick raw now g b = Inr (False, pb_undecoded_pkts b, ?b')"
      using more by (simp add: batch_receive_def PacketBatch_CheckComplete_def get num)
    moreover have "batch_idle n ?b'" using wf by (simp add: batch_idle_def batch_wf_def ids_of_def)
    ultimately show ?thesis using wf more
      by (intro exI [of _ False] exI [of _ "pb_undecoded_pkts b"] exI [of _ ?b']) auto
  next
    case full
    let ?b' = "b\<lparr>pb_undecoded_pkts := [],
      pb_decoded_pkts := pb_decoded_pkts b \<union> set (ids_of (pb_undecoded_pkts b))\<rparr>"
    have "batch_receive pick raw now g b = Inr (True, pb_undecoded_pkts b, ?b')"
      using full by (simp add: batch_receive_def PacketBatch_CheckComplete_def get num)
    then show ?thesis using wf full batch_wf_full [OF b full]
      by (intro exI [of _ True] exI [of _ "pb_undecoded_pkts b"] exI [of _ ?b']) auto
  next
    case fec
    have ne: "pb_fec_pkts b \<noteq> []" using fec batch_wf_length [OF b] by auto
    define x where "x = snd (pick (pb_fec_pkts b))"
    let ?rec = "recovered_pkts raw now g b x"
    have "pick (pb_fec_pkts b) \<in> set (pb_fec_pkts b)" using pick ne by (simp add: pick_ok_def)
    then have cov: "covers n x" using wf by (auto simp: x_def)
    have ids: "set (ids_of ?rec) = batch_ids n - fst ` set (pb_data_pkts b)" "distinct (ids_of ?rec)"
      using cov unfolding recovered_ids covers_def by auto
    have app: "ids_of (pb_undecoded_pkts b @ ?rec) = ids_of (pb_undecoded_pkts b) @ ids_of ?rec"
      by (simp add: ids_of_def)
    let ?b' = "b\<lparr>pb_undecoded_pkts := [], pb_data_pkts := [], pb_fec_pkts := [],
      pb_decoded_pkts := pb_decoded_pkts b \<union> set (ids_of (pb_undecoded_pkts b @ ?rec))\<rparr>"
    have "batch_receive pick raw now g b = Inr (True, pb_undecoded_pkts b @ ?rec, ?b')"
      using fec ne by (simp add: batch_receive_def PacketBatch_CheckComplete_def get num x_def Let_def)
    moreover have "distinct (ids_of (pb_undecoded_pkts b @ ?rec))"
      unfolding app using wf ids by auto
    moreover have "set (ids_of (pb_undecoded_pkts b @ ?rec)) \<inter> pb_decoded_pkts b = {}"
      unfolding app set_append ids using wf by blast
    moreover have "pb_decoded_pkts b \<union> set (ids_of (pb_undecoded_pkts b @ ?rec)) = batch_ids n"
      unfolding app set_append ids using wf by blast
    ultimately show ?thesis using fec(2)
      by (intro exI [of _ True] exI [of _ "pb_undecoded_pkts b @ ?rec"] exI [of _ ?b']) simp
  qed
qed

section \<open>Groups keep their batches well formed\<close>

definition group_wf :: "PacketGroup \<Rightarrow> bool" where
  "group_wf g \<longleftrightarrow> distinct (map fst (pg_incomplete_batches g)) \<and>
     (\<forall>b \<in> snd ` set (pg_incomplete_batches g). batch_idle (unat (pb_data_num b)) b) \<and>
     fst ` set (pg_incomplete_batches g) \<inter> fst ` set (pg_complete_batches g) = {}"

text \<open>A packet that agrees with what the group already knows of its batch.\<close>

definition pkt_consistent :: "PacketGroup \<Rightarrow> vpacket \<Rightarrow> bool" where
  "pkt_consistent g pkt \<longleftrightarrow>
     (let h = vp_header pkt; n = unat (vh_batch_data_num h) in 0 < n \<and> fits n pkt \<and>
       (\<forall>b. map_of (pg_incomplete_batches g) (vh_batch_id h) = Some b \<longrightarrow>
          pb_data_num b = vh_batch_data_num h))"

lemma statistics_frame:
  "pg_incomplete_batches (update_statistics pkt g) = pg_incomplete_batches g"
  "pg_complete_batches (update_statistics pkt g) = pg_complete_batches g"
  "pg_decoded_pkts (update_statistics pkt g) = pg_decoded_pkts g"
  "pg_undecoded_pkts (update_statistics pkt g) = pg_undecoded_pkts g"
  by (simp_all add: update_statistics_def Let_def)

lemma InitGroup_frame:
  "pg_incomplete_batches (InitGroup pkt g) = pg_incomplete_batches g"
  "pg_complete_batches (InitGroup pkt g) = pg_complete_batches g"
  "pg_decoded_pkts (InitGroup pkt g) = pg_decoded_pkts g"
  "pg_undecoded_pkts (InitGroup pkt g) = pg_undecoded_pkts g"
  by (simp_all add: InitGroup_def)

lemma new_batch_wf:
  assumes "0 < unat (vh_batch_data_num (vp_header pkt))"
    and "fits (unat (vh_batch_data_num (vp_header pkt))) pkt"
  shows "\<exists>b. PacketBatch_new pkt = Inr b \<and> batch_wf (unat (vh_batch_data_num (vp_header pkt))) b"
proof -
  let ?h = "vp_header pkt"
  let ?b = "\<lparr>pb_batch_id = vh_batch_id ?h, pb_data_num = vh_batch_data_num ?h,
    pb_fec_num = vh_batch_fec_num ?h, pb_decoded_pkts = {}, pb_undecoded_pkts = [],
    pb_data_pkts = [], pb_fec_pkts = []\<rparr>"
  have "batch_idle (unat (vh_batch_data_num ?h)) ?b"
    by (simp add: batch_idle_def batch_wf_def ids_of_def)
  from AddPacket_wf [OF this assms(2)] assms(1) show ?thesis
    by (simp add: PacketBatch_new_def Let_def unat_gt_0 word_gt_0)
qed

lemma snd_update: "snd ` set (AList.update k x al) \<subseteq> {x} \<union> snd ` set al"
  by (induction al) auto

lemma group_wf_update:
  assumes wf: "group_wf g" and i: "map_of (pg_complete_batches g) i = None"
    and b: "batch_idle (unat (pb_data_num b)) b"
  shows "group_wf (g\<lparr>pg_undecoded_pkts := u, pg_incomplete_batches :=
    AList.update i b (pg_incomplete_batches g)\<rparr>)"
proof -
  let ?al = "AList.update i b (pg_incomplete_batches g)"
  have "\<forall>c \<in> snd ` set ?al. batch_idle (unat (pb_data_num c)) c"
    using snd_update [of i b "pg_incomplete_batches g"] wf b unfolding group_wf_def by blast
  then show ?thesis
    using wf i by (simp add: group_wf_def distinct_update dom_update map_of_eq_None_iff)
qed

lemma group_wf_complete:
  assumes wf: "group_wf g"
  shows "group_wf (g\<lparr>pg_undecoded_pkts := u,
    pg_complete_batches := AList.update i b (pg_complete_batches g),
    pg_incomplete_batches := AList.delete i (pg_incomplete_batches g)\<rparr>)"
proof -
  let ?al = "pg_incomplete_batches g"
  have w: "fst ` set ?al \<inter> fst ` set (pg_complete_batches g) = {}"
    "\<forall>c \<in> snd ` set ?al. batch_idle (unat (pb_data_num c)) c"
    using wf by (simp_all add: group_wf_def)
  have sub: "set (AList.delete i ?al) \<subseteq> set ?al" by (auto simp: AList.delete_eq)
  have no: "i \<notin> fst ` set (AList.delete i ?al)" by (rule delete_notin_dom)
  have dist: "distinct (map fst (AList.delete i ?al))"
    using wf by (intro distinct_delete) (simp add: group_wf_def)
  have disj: "fst ` set (AList.delete i ?al) \<inter> fst ` set (pg_complete_batches g) = {}"
    using w(1) dom_delete_subset [of i ?al] by blast
  have idle: "\<forall>c \<in> snd ` set (AList.delete i ?al). batch_idle (unat (pb_data_num c)) c"
    using w(2) sub by blast
  from no disj have "fst ` set (AList.delete i ?al) \<inter> insert i (fst ` set (pg_complete_batches g)) = {}"
    by blast
  with dist idle show ?thesis by (simp add: group_wf_def dom_update)
qed

lemma PacketGroup_AddPacket_run:
  assumes wf: "group_wf g" and pkt: "pkt_consistent g pkt" and pick: "pick_ok pick"
  shows "\<exists>g' new. PacketGroup_AddPacket pick raw now pkt g = Inr g' \<and> group_wf g' \<and>
    pg_undecoded_pkts g' = pg_undecoded_pkts g @ new \<and> distinct (ids_of new) \<and>
    pg_decoded_pkts g' = pg_decoded_pkts g"
proof -
  let ?h = "vp_header pkt" and ?n = "unat (vh_batch_data_num (vp_header pkt))"
  define g1 where "g1 = update_statistics pkt
    (if card (pg_decoded_pkts g) + length (pg_undecoded_pkts g) = 0 then InitGroup pkt g else g)"
  have g1: "pg_incomplete_batches g1 = pg_incomplete_batches g"
    "pg_complete_batches g1 = pg_complete_batches g" "pg_decoded_pkts g1 = pg_decoded_pkts g"
    "pg_undecoded_pkts g1 = pg_undecoded_pkts g"
    by (simp_all add: g1_def statistics_frame InitGroup_frame)
  have wf1: "group_wf g1" using wf by (simp add: group_wf_def g1)
  have n: "0 < ?n" "fits ?n pkt" using pkt by (simp_all add: pkt_consistent_def Let_def)
  show ?thesis
  proof (cases "map_of (pg_complete_batches g) (vh_batch_id ?h) \<noteq> None \<or>
      vh_pkt_id_in_group ?h \<in> pg_decoded_pkts g")
    case True
    then have "PacketGroup_AddPacket pick raw now pkt g = Inr g1"
      unfolding PacketGroup_AddPacket_def Let_def g1_def [symmetric] by (auto simp: g1)
    with wf1 g1 show ?thesis by (intro exI [of _ g1] exI [of _ "[]"]) (simp add: ids_of_def)
  next
    case False
    have "\<exists>b. (case map_of (pg_incomplete_batches g1) (vh_batch_id ?h) of
        None \<Rightarrow> PacketBatch_new pkt | Some b \<Rightarrow> Inr (PacketBatch_AddPacket pkt b)) = Inr b \<and>
      batch_wf ?n b"
    proof (cases "map_of (pg_incomplete_batches g) (vh_batch_id ?h)")
      case None
      with new_batch_wf [OF n] show ?thesis by (simp add: g1)
    next
      case (Some b)
      then have "batch_idle (unat (pb_data_num b)) b" "pb_data_num b = vh_batch_data_num ?h"
        using wf pkt map_of_SomeD [OF Some]
        by (force simp: group_wf_def pkt_consistent_def Let_def)+
      with AddPacket_wf [of ?n b pkt] n Some show ?thesis by (simp add: g1)
    qed
    then obtain b where b: "(case map_of (pg_incomplete_batches g1) (vh_batch_id ?h) of
        None \<Rightarrow> PacketBatch_new pkt | Some b \<Rightarrow> Inr (PacketBatch_AddPacket pkt b)) = Inr b"
      "batch_wf ?n b" by blast
    obtain c new b' where r: "batch_receive pick raw now (group_info_of g1) b = Inr (c, new, b')"
      and d: "distinct (ids_of new)" and idle: "\<not> c \<longrightarrow> batch_idle ?n b'"
      using batch_receive_run [OF b(2) pick] by metis
    define g2 where "g2 = (if c
      then g1\<lparr>pg_undecoded_pkts := pg_undecoded_pkts g1 @ new,
        pg_complete_batches := AList.update (vh_batch_id ?h) b' (pg_complete_batches g1),
        pg_incomplete_batches := AList.delete (vh_batch_id ?h) (pg_incomplete_batches g1)\<rparr>
      else g1\<lparr>pg_undecoded_pkts := pg_undecoded_pkts g1 @ new,
        pg_incomplete_batches := AList.update (vh_batch_id ?h) b' (pg_incomplete_batches g1)\<rparr>)"
    have "PacketGroup_AddPacket pick raw now pkt g = Inr g2"
      using False unfolding PacketGroup_AddPacket_def Let_def g1_def [symmetric]
      by (simp add: g1 b [unfolded g1] r g2_def)
    moreover have "group_wf g2"
    proof (cases c)
      case True
      then show ?thesis unfolding g2_def using group_wf_complete [OF wf1] by simp
    next
      case not: False
      with idle have bi: "batch_idle ?n b'" by blast
      then have "unat (pb_data_num b') = ?n" unfolding batch_idle_def batch_wf_def by blast
      with bi have "batch_idle (unat (pb_data_num b')) b'" by simp
      with group_wf_update [OF wf1 _ this] not False show ?thesis unfolding g2_def by (simp add: g1)
    qed
    ultimately show ?thesis using d by (intro exI [of _ g2] exI [of _ new]) (simp add: g2_def g1)
  qed
qed

section \<open>Properties\<close>

definition example_pkt :: "u16 \<Rightarrow> DataPacket" where
  "example_pkt i = example_data\<lparr>packet_type := DATA_PKT,
     video_header := example_video\<lparr>vh_pkt_id_in_batch := i, vh_batch_data_num := 3\<rparr>\<rparr>"

definition example_cover :: FECPacket where
  "example_cover = example_fec\<lparr>fec_header := map (\<lambda>i. DataPktDigest_ctor (example_pkt i)) [0, 1, 2],
     video_header := example_video\<lparr>vh_pkt_id_in_batch := 3, vh_batch_data_num := 3\<rparr>\<rparr>"

text \<open>A batch of three that has received and decoded packets 0 and 2.\<close>

definition example_batch :: PacketBatch where
  "example_batch = \<lparr>pb_batch_id = 9, pb_data_num = 3, pb_fec_num = 1, pb_decoded_pkts = {0, 2},
     pb_undecoded_pkts = [], pb_data_pkts = [(0, example_pkt 0), (2, example_pkt 2)],
     pb_fec_pkts = []\<rparr>"

definition example_info :: group_info where
  "example_info = \<lparr>gi_group_id = 7, gi_data_num = 3, gi_fec_num = 1\<rparr>"

lemma batch_ids_3: "batch_ids 3 = {0, 1, 2}"
  by (auto simp: batch_ids_def word_unat_eq_iff)

lemma example_batch_idle: "batch_idle 3 example_batch"
  by (simp add: example_batch_def batch_idle_def batch_wf_def ids_of_def batch_ids_3)

lemma example_cover_fits: "fits 3 (VFec example_cover)"
  by (simp add: example_cover_def example_fec_def covers_def batch_ids_3 DataPktDigest_ctor_def
      example_pkt_def)

text \<open>
  C8: FEC recovery. Whatever packet a batch of \<open>n\<close> data packets receives, it never fails; the
  packets it then hands to the decoder are new and all different, and the batch is complete
  exactly when as many data and FEC packets arrived as there are data packets, in which case every one of the
  \<open>n\<close> packets has been handed out.
\<close>

theorem batch_recovers_exactly:
  assumes "batch_idle n b" "fits n pkt" "pick_ok pick"
    and "PacketBatch_AddPacket pkt b = b1"
  shows "\<exists>complete out b'. batch_receive pick raw now g b1 = Inr (complete, out, b') \<and>
    distinct (ids_of out) \<and> set (ids_of out) \<inter> pb_decoded_pkts b = {} \<and>
    pb_decoded_pkts b' = pb_decoded_pkts b \<union> set (ids_of out) \<and>
    (complete \<longleftrightarrow> n \<le> length (pb_data_pkts b1) + length (pb_fec_pkts b1)) \<and>
    (complete \<longrightarrow> pb_decoded_pkts b' = {i. unat i < n}) \<and> (\<not> complete \<longrightarrow> batch_idle n b')"
  using batch_receive_run [of n b1 pick raw now g] AddPacket_wf [OF assms(1,2)] assms(3,4)
  by (simp add: batch_ids_def)

theorem batch_recovers_exactly_witness:
  "\<exists>out b'. batch_receive hd example_data 5 (example_info)
      (PacketBatch_AddPacket (VFec example_cover) example_batch) = Inr (True, out, b') \<and>
    set (ids_of out) = {1}"
proof -
  let ?b1 = "PacketBatch_AddPacket (VFec example_cover) example_batch"
  have pick: "pick_ok hd" by (simp add: pick_ok_def)
  have b1: "length (pb_data_pkts ?b1) + length (pb_fec_pkts ?b1) = 3"
    by (simp add: PacketBatch_AddPacket_def pkt_id_batch_def example_batch_def example_cover_def
        example_fec_def)
  have dec: "pb_decoded_pkts example_batch = {0, 2}" by (simp add: example_batch_def)
  obtain c out b' where r: "batch_receive hd example_data 5 (example_info) ?b1 = Inr (c, out, b')"
    and ids: "set (ids_of out) \<inter> pb_decoded_pkts example_batch = {}"
      "pb_decoded_pkts b' = pb_decoded_pkts example_batch \<union> set (ids_of out)"
    and c: "c \<longleftrightarrow> 3 \<le> length (pb_data_pkts ?b1) + length (pb_fec_pkts ?b1)"
      "c \<longrightarrow> pb_decoded_pkts b' = {i. unat i < 3}"
    using batch_recovers_exactly [OF example_batch_idle example_cover_fits pick refl,
        of example_data 5 "example_info"] by (elim exE conjE) (rule that; assumption)
  have comp: c using c(1) b1 by simp
  then have u: "{0, 2} \<union> set (ids_of out) = {0, 1, 2}"
    using c(2) ids(2) dec batch_ids_3 by (simp add: batch_ids_def)
  have d: "set (ids_of out) \<inter> {0, 2} = {}" using ids(1) dec by simp
  have gen: "A \<union> S = T \<Longrightarrow> S \<inter> A = {} \<Longrightarrow> S = T - A" for S T A :: "u16 set" by blast
  have "set (ids_of out) = {1}" unfolding gen [OF u d] by (simp add: insert_Diff_if)
  with r comp show ?thesis by auto
qed

text \<open>Adding any consistent packet to a well-formed group succeeds (no assertion, no invalid
  access), keeps every unfinished batch well formed and apart from the finished ones, and appends
  packets to decode without dropping any.
\<close>

theorem PacketGroup_AddPacket_safe:
  assumes "group_wf g" "pkt_consistent g pkt" "pick_ok pick"
  shows "\<exists>g' new. PacketGroup_AddPacket pick raw now pkt g = Inr g' \<and> group_wf g' \<and>
    pg_undecoded_pkts g' = pg_undecoded_pkts g @ new \<and> distinct (ids_of new) \<and>
    pg_decoded_pkts g' = pg_decoded_pkts g"
  by (rule PacketGroup_AddPacket_run [OF assms])

definition example_group :: PacketGroup where
  "example_group = PacketGroup_ctor 7 3 0 \<lparr>pg_group_id = 0, pg_data_num = 0, pg_fec_num = 1,
     pg_encode_time = 0, pg_first_rcv_time = 0, pg_last_rcv_time_tx_0 = 0, pg_decoded_pkts = {},
     pg_undecoded_pkts = [], pg_incomplete_batches = [], pg_complete_batches = [],
     pg_next_rtx_count = 0, pg_last_pkt_id_tx_0 = 0, pg_max_tx_count = 0,
     pg_first_tx_data_count = 0, pg_first_tx_fec_count = 0, pg_rtx_data_count = 0,
     pg_rtx_fec_count = 0, pg_pkt_arrive_dis = []\<rparr>"

theorem PacketGroup_AddPacket_safe_witness:
  "\<exists>g'. PacketGroup_AddPacket hd example_data 5 (VFec example_cover) example_group = Inr g' \<and>
    group_wf g'"
proof -
  have "group_wf example_group" by (simp add: example_group_def PacketGroup_ctor_def group_wf_def)
  moreover have "pkt_consistent example_group (VFec example_cover)"
    using example_cover_fits
    by (simp add: pkt_consistent_def Let_def example_group_def PacketGroup_ctor_def
        example_cover_def)
  moreover have "pick_ok hd" by (simp add: pick_ok_def)
  ultimately show ?thesis using PacketGroup_AddPacket_safe by blast
qed

end
