(* ===== verification/Video_Decoder.thy ===== *)
theory Video_Decoder
  imports Net_Packet "HOL-Library.AList"
begin

text \<open>
  The decoder of the client (\<open>src/bitrate-ctrl/model/video-decoder.h\<close> and \<open>.cc\<close>): it collects the
  data packets of frames, plays a frame when it is complete and its predecessor was played, and
  discards frames that are more than the delay budget behind the newest packet. The map of played
  frames holds pointers: \<open>None\<close> is a null one.
\<close>

section \<open>Frames\<close>

record VideoFrame =
  vf_data_pkt_num :: u16
  vf_encode_time :: time
  vf_first_pkt_rcv_time :: time
  vf_last_pkt_rcv_time :: time
  vf_group_ids :: "u16 set"
  vf_pkts :: "u16 set"

definition VideoFrame_AddPacket :: "DataPacket \<Rightarrow> VideoFrame \<Rightarrow> VideoFrame" where
  "VideoFrame_AddPacket pkt fr =
     (let fr = (if rcv_time pkt > vf_last_pkt_rcv_time fr
                then fr\<lparr>vf_last_pkt_rcv_time := rcv_time pkt\<rparr> else fr);
          fr = (if vh_encode_time (video_header pkt) < vf_encode_time fr
                then fr\<lparr>vf_encode_time := vh_encode_time (video_header pkt)\<rparr> else fr)
      in fr\<lparr>vf_pkts := insert (dh_pkt_id_in_frame (data_header pkt)) (vf_pkts fr)\<rparr>)"

definition VideoFrame_new :: "DataPacket \<Rightarrow> VideoFrame" where
  "VideoFrame_new pkt = VideoFrame_AddPacket pkt
     \<lparr>vf_data_pkt_num = dh_frame_pkt_num (data_header pkt),
      vf_encode_time = vh_encode_time (video_header pkt), vf_first_pkt_rcv_time = rcv_time pkt,
      vf_last_pkt_rcv_time = rcv_time pkt,
      vf_group_ids = {ucast (vh_group_id (video_header pkt))}, vf_pkts = {}\<rparr>"

definition GetDataPktRcvedNum :: "VideoFrame \<Rightarrow> u16" where
  "GetDataPktRcvedNum fr = word_of_nat (card (vf_pkts fr))"

definition GetFrameDelay :: "VideoFrame \<Rightarrow> time" where
  "GetFrameDelay fr = vf_last_pkt_rcv_time fr - vf_encode_time fr"

definition frame_complete :: "VideoFrame \<Rightarrow> bool" where
  "frame_complete fr \<longleftrightarrow> vf_data_pkt_num fr = GetDataPktRcvedNum fr"

section \<open>The decoder\<close>

record VideoDecoder =
  delay_ddl :: time
  unplayed_frames :: "(u32 \<times> VideoFrame) list"
  played_frames :: "(u32 \<times> VideoFrame option) list"
  min_frame_id :: u32
  max_frame_id :: u32
  m_lastPlayedFrameId :: u32
  m_frameInterval :: u16
  exclude_ten_played_frames :: "u32 set"

definition VideoDecoder_ctor :: "time \<Rightarrow> u16 \<Rightarrow> VideoDecoder res" where
  "VideoDecoder_ctor ddl fps =
     (if fps = 0 then Inl UndefinedBehaviour
      else Inr \<lparr>delay_ddl = ddl, unplayed_frames = [], played_frames = [], min_frame_id = 0,
        max_frame_id = 0, m_lastPlayedFrameId = -1,
        m_frameInterval = word_of_int (1000 div uint fps), exclude_ten_played_frames = {}\<rparr>)"

text \<open>Moving a frame from \<open>unplayed_frames\<close> to \<open>played_frames\<close>.\<close>

definition play :: "u32 \<Rightarrow> VideoFrame option \<Rightarrow> VideoDecoder \<Rightarrow> VideoDecoder" where
  "play idx fr d = d\<lparr>played_frames := AList.update idx fr (played_frames d),
     unplayed_frames := AList.delete idx (unplayed_frames d), m_lastPlayedFrameId := idx\<rparr>"

lemma length_delete_less: "map_of al k = Some v \<Longrightarrow> length (AList.delete k al) < length al"
  by (induction al) (auto simp: length_delete_le less_Suc_eq_le split: if_splits)

text \<open>
  The loop that plays complete frames from \<open>idx\<close> on. The decoder has it twice: after a discard
  (\<open>live\<close> is false) and after a frame was completed, where every frame is also acknowledged and
  counted. The acknowledgements are the frame id and its encoding time.
\<close>

function play_from :: "bool \<Rightarrow> u32 \<Rightarrow> VideoDecoder \<Rightarrow> VideoDecoder \<times> (u32 \<times> time) list" where
  "play_from live idx d =
     (if idx \<le> max_frame_id d then
        case map_of (unplayed_frames d) idx of
          None \<Rightarrow> (d, [])
        | Some fr \<Rightarrow>
            if frame_complete fr then
              let d' = play idx (Some fr) d;
                  d' = (if live \<and> idx \<ge> 10 then d'\<lparr>exclude_ten_played_frames :=
                    insert idx (exclude_ten_played_frames d')\<rparr> else d');
                  (d'', acks) = play_from live (idx + 1) d'
              in (d'', if live then (idx, vf_encode_time fr) # acks else acks)
            else (d, [])
      else (d, []))"
  by pat_completeness auto
termination
  by (relation "measure (\<lambda>(_, _, d). length (unplayed_frames d))")
    (auto simp: play_def length_delete_less)

declare play_from.simps [simp del]

text \<open>
  The discard loop: \<open>idx\<close> runs over fixed bounds whatever its body plays. A frame that never
  arrived is entered as a null pointer.
\<close>

fun discard :: "u32 list \<Rightarrow> VideoDecoder \<Rightarrow> VideoDecoder" where
  "discard [] d = d"
| "discard (idx # is) d =
     discard is (fst (play_from False (idx + 1) (play idx (map_of (unplayed_frames d) idx) d)))"

text \<open>
  \<open>frame_id - delay_ddl.GetMilliSeconds () / m_frameInterval\<close> is a signed 64-bit number. If it is
  the largest \<open>uint32_t\<close>, the loop over a \<open>uint32_t\<close> does not end.
\<close>

definition last_discarded :: "u32 \<Rightarrow> VideoDecoder \<Rightarrow> int" where
  "last_discarded frame_id d =
     uint frame_id - GetMilliSeconds (delay_ddl d) sdiv uint (m_frameInterval d)"

definition discard_old :: "u32 \<Rightarrow> VideoDecoder \<Rightarrow> VideoDecoder res" where
  "discard_old frame_id d =
     (if m_frameInterval d = 0 then Inl UndefinedBehaviour
      else if last_discarded frame_id d \<ge> 2 ^ 32 - 1 then Inl Diverges
      else Inr (discard (map word_of_int
        [uint (m_lastPlayedFrameId d + 1) .. last_discarded frame_id d]) d))"

definition store_packet :: "DataPacket \<Rightarrow> VideoDecoder \<Rightarrow> VideoDecoder" where
  "store_packet pkt d =
     (let frame_id = dh_frame_id (data_header pkt)
      in d\<lparr>max_frame_id := (if max_frame_id d \<le> frame_id then frame_id else max_frame_id d),
           min_frame_id := (if min_frame_id d \<le> frame_id then min_frame_id d else frame_id),
           unplayed_frames := AList.update frame_id
             (case map_of (unplayed_frames d) frame_id of
                None \<Rightarrow> VideoFrame_new pkt
              | Some fr \<Rightarrow> VideoFrame_AddPacket pkt fr) (unplayed_frames d)\<rparr>)"

text \<open>What follows the arrival of a packet of \<open>frame_id\<close>.\<close>

definition try_play :: "u32 \<Rightarrow> VideoDecoder \<Rightarrow> VideoDecoder \<times> (u32 \<times> time) list" where
  "try_play frame_id d =
     (case map_of (unplayed_frames d) frame_id of
        None \<Rightarrow> (d, [])
      | Some fr \<Rightarrow>
          if frame_complete fr then
            if frame_id = 0 then (play 0 (Some fr) d, [])
            else if frame_id = m_lastPlayedFrameId d + 1 then play_from True frame_id d
            else (d, [])
          else (d, []))"

definition decode_one :: "DataPacket \<Rightarrow> VideoDecoder \<Rightarrow> (VideoDecoder \<times> (u32 \<times> time) list) res" where
  "decode_one pkt d =
     (let frame_id = dh_frame_id (data_header pkt) in
      if map_of (played_frames d) frame_id \<noteq> None then Inr (d, [])
      else res_bind (discard_old frame_id d) (\<lambda>d.
        Inr (try_play frame_id (store_packet pkt d))))"

fun DecodeDataPacket :: "DataPacket list \<Rightarrow> VideoDecoder \<Rightarrow>
    (VideoDecoder \<times> (u32 \<times> time) list) res" where
  "DecodeDataPacket [] d = Inr (d, [])"
| "DecodeDataPacket (pkt # pkts) d =
     res_bind (decode_one pkt d) (\<lambda>(d, acks).
     res_bind (DecodeDataPacket pkts d) (\<lambda>(d, acks'). Inr (d, acks @ acks')))"

text \<open>
  The statistics at the end of a run: the loop over the played frames dereferences every pointer.
\<close>

definition GetDDLMissRate :: "rounding \<Rightarrow> VideoDecoder \<Rightarrow> rat res" where
  "GetDDLMissRate f d =
     (let frame_rcvd_cnt = of_nat (length (played_frames d)) :: rat;
          frame_total_cnt = max_frame_id d - min_frame_id d + 1;
          total = of_nat (unat frame_total_cnt) :: rat
      in if frame_total_cnt = 0 then Inr 0
         else if None \<in> snd ` set (played_frames d) then Inl NullDeref
         else Inr (f (f (total - frame_rcvd_cnt) / total)))"

section \<open>Playing\<close>

lemma map_of_update:
  "map_of (AList.update k v al) i = (if i = k then Some v else map_of al i)"
  by (simp add: update_conv')

lemma map_of_delete':
  "map_of (AList.delete k al) i = (if i = k then None else map_of al i)"
  by (simp add: delete_conv')

lemma play_maps:
  "map_of (played_frames (play j fr d)) i = (if i = j then Some fr else map_of (played_frames d) i)"
  "map_of (unplayed_frames (play j fr d)) i = (if i = j then None else map_of (unplayed_frames d) i)"
  "max_frame_id (play j fr d) = max_frame_id d" "m_lastPlayedFrameId (play j fr d) = j"
  "min_frame_id (play j fr d) = min_frame_id d"
  by (simp_all add: play_def map_of_update map_of_delete')

text \<open>The frame after \<open>idx\<close> is where the loop goes on: its state after playing \<open>idx\<close>.\<close>

definition after_play :: "bool \<Rightarrow> u32 \<Rightarrow> VideoFrame \<Rightarrow> VideoDecoder \<Rightarrow> VideoDecoder" where
  "after_play live idx fr d = (if live \<and> idx \<ge> 10
     then (play idx (Some fr) d)\<lparr>exclude_ten_played_frames :=
       insert idx (exclude_ten_played_frames (play idx (Some fr) d))\<rparr>
     else play idx (Some fr) d)"

lemma after_play_maps:
  "map_of (played_frames (after_play live j fr d)) i
     = (if i = j then Some (Some fr) else map_of (played_frames d) i)"
  "map_of (unplayed_frames (after_play live j fr d)) i
     = (if i = j then None else map_of (unplayed_frames d) i)"
  "max_frame_id (after_play live j fr d) = max_frame_id d"
  "m_lastPlayedFrameId (after_play live j fr d) = j"
  "min_frame_id (after_play live j fr d) = min_frame_id d"
  by (simp_all add: after_play_def play_maps)

lemma play_from_go:
  "idx \<le> max_frame_id d \<Longrightarrow> map_of (unplayed_frames d) idx = Some fr \<Longrightarrow> frame_complete fr \<Longrightarrow>
   play_from live idx d = (fst (play_from live (idx + 1) (after_play live idx fr d)),
     if live then (idx, vf_encode_time fr) # snd (play_from live (idx + 1) (after_play live idx fr d))
     else snd (play_from live (idx + 1) (after_play live idx fr d)))"
  by (subst play_from.simps) (simp add: after_play_def Let_def split: prod.splits)

lemma play_from_stop:
  "\<not> (idx \<le> max_frame_id d \<and> (\<exists>fr. map_of (unplayed_frames d) idx = Some fr \<and> frame_complete fr)) \<Longrightarrow>
   play_from live idx d = (d, [])"
  by (subst play_from.simps) (auto split: option.splits)

text \<open>Induction along the loop.\<close>

lemma play_from_induct [case_names stop go]:
  assumes "\<And>idx d. play_from live idx d = (d, []) \<Longrightarrow> P idx d"
    and "\<And>idx d fr. idx \<le> max_frame_id d \<Longrightarrow> map_of (unplayed_frames d) idx = Some fr \<Longrightarrow>
      frame_complete fr \<Longrightarrow> P (idx + 1) (after_play live idx fr d) \<Longrightarrow> P idx d"
  shows "P idx d"
proof (induction "length (unplayed_frames d)" arbitrary: idx d rule: less_induct)
  case less
  show ?case
  proof (cases "idx \<le> max_frame_id d \<and> (\<exists>fr. map_of (unplayed_frames d) idx = Some fr \<and> frame_complete fr)")
    case True
    then obtain fr where fr: "idx \<le> max_frame_id d" "map_of (unplayed_frames d) idx = Some fr"
      "frame_complete fr" by blast
    have "length (unplayed_frames (after_play live idx fr d)) < length (unplayed_frames d)"
      using length_delete_less [OF fr(2)] by (simp add: after_play_def play_def)
    from less [OF this] assms(2) [OF fr] show ?thesis by blast
  next
    case False
    show ?thesis by (rule assms(1) [OF play_from_stop [OF False]])
  qed
qed

definition consecutive :: "u32 \<Rightarrow> u32 list \<Rightarrow> bool" where
  "consecutive idx ids \<longleftrightarrow> ids = map (\<lambda>k. idx + word_of_nat k) [0..<length ids]"

lemma consecutive_Cons: "consecutive (idx + 1) ids \<Longrightarrow> consecutive idx (idx # ids)"
proof -
  assume c: "consecutive (idx + 1) ids"
  have "map (\<lambda>k. idx + word_of_nat k) [0..<Suc n]
      = idx # map (\<lambda>k. idx + 1 + word_of_nat k) [0..<n]" for n
    by (simp add: upt_conv_Cons map_Suc_upt [symmetric] o_def add.assoc del: upt_Suc)
  then show ?thesis using c by (simp add: consecutive_def)
qed

lemma consecutive_hd: "consecutive idx ids \<Longrightarrow> ids \<noteq> [] \<Longrightarrow> hd ids = idx"
  by (cases ids) (auto simp: consecutive_def upt_conv_Cons simp del: upt_Suc)

lemma play_from_order:
  "consecutive idx (map fst (snd (play_from True idx d))) \<and>
   (\<forall>i \<in> set (map fst (snd (play_from True idx d))).
      (\<exists>fr. map_of (played_frames (fst (play_from True idx d))) i = Some (Some fr) \<and> frame_complete fr)) \<and>
   (snd (play_from True idx d) \<noteq> [] \<longrightarrow>
      m_lastPlayedFrameId (fst (play_from True idx d)) = fst (last (snd (play_from True idx d)))) \<and>
   (\<forall>i. map_of (unplayed_frames d) i = None \<longrightarrow>
      map_of (unplayed_frames (fst (play_from True idx d))) i = None \<and>
      map_of (played_frames (fst (play_from True idx d))) i = map_of (played_frames d) i)"
proof (induction idx d rule: play_from_induct [where live = True])
  case (stop idx d)
  then show ?case by (simp add: consecutive_def)
next
  case (go idx d fr)
  let ?a = "after_play True idx fr d" and ?r = "play_from True (idx + 1) (after_play True idx fr d)"
  note r = play_from_go [OF go(1-3), of True]
  have stay: "map_of (played_frames (fst ?r)) idx = Some (Some fr)"
    using go(4) by (simp add: after_play_maps)
  have lst: "m_lastPlayedFrameId (fst ?r) = idx" if "snd ?r = []"
  proof -
    have "fst ?r = ?a \<or> snd ?r \<noteq> []"
    proof (cases "idx + 1 \<le> max_frame_id ?a \<and>
        (\<exists>fr. map_of (unplayed_frames ?a) (idx + 1) = Some fr \<and> frame_complete fr)")
      case True
      then show ?thesis using play_from_go [of "idx + 1" ?a _ True] by auto
    next
      case False
      then show ?thesis by (simp add: play_from_stop)
    qed
    with that show ?thesis by (simp add: after_play_maps)
  qed
  have cons: "consecutive idx (idx # map fst (snd ?r))"
    using go(4) by (intro consecutive_Cons) blast
  have pl: "\<forall>i \<in> insert idx (set (map fst (snd ?r))).
      \<exists>fr. map_of (played_frames (fst ?r)) i = Some (Some fr) \<and> frame_complete fr"
    using go(3,4) stay by blast
  have last: "m_lastPlayedFrameId (fst ?r) = fst (last ((idx, vf_encode_time fr) # snd ?r))"
    using go(4) lst by (cases "snd ?r = []") simp_all
  have rest: "map_of (unplayed_frames (fst ?r)) i = None \<and>
      map_of (played_frames (fst ?r)) i = map_of (played_frames d) i"
    if "map_of (unplayed_frames d) i = None" for i
  proof -
    have "i \<noteq> idx" using that go(2) by auto
    then show ?thesis using go(4) that by (simp add: after_play_maps)
  qed
  show ?case unfolding r using cons pl last rest by simp
qed

text \<open>A null frame stays null.\<close>

definition null_at :: "u32 \<Rightarrow> VideoDecoder \<Rightarrow> bool" where
  "null_at i d \<longleftrightarrow> map_of (unplayed_frames d) i = None \<and> map_of (played_frames d) i = Some None"

lemma play_from_null: "null_at i d \<Longrightarrow> null_at i (fst (play_from live idx d))"
proof (induction idx d rule: play_from_induct [where live = live])
  case (stop idx d)
  then show ?case by simp
next
  case (go idx d fr)
  then have "i \<noteq> idx" by (auto simp: null_at_def)
  with go have "null_at i (after_play live idx fr d)" by (simp add: null_at_def after_play_maps)
  with go show ?case by (simp add: play_from_go)
qed

lemma play_from_absent:
  "map_of (unplayed_frames d) i = None \<Longrightarrow> map_of (unplayed_frames (fst (play_from live idx d))) i = None"
proof (induction idx d rule: play_from_induct [where live = live])
  case (stop idx d)
  then show ?case by simp
next
  case (go idx d fr)
  then show ?case by (simp add: play_from_go after_play_maps)
qed

lemma discard_null:
  "map_of (unplayed_frames d) i = None \<Longrightarrow> null_at i d \<or> i \<in> set is \<Longrightarrow> null_at i (discard is d)"
proof (induction "is" d rule: discard.induct)
  case (1 d)
  then show ?case by simp
next
  case (2 idx "is" d)
  let ?p = "play idx (map_of (unplayed_frames d) idx) d"
  let ?d = "fst (play_from False (idx + 1) ?p)"
  have absent: "map_of (unplayed_frames ?d) i = None"
    using 2(2) by (intro play_from_absent) (simp add: play_maps)
  have "null_at i ?d \<or> i \<in> set is"
  proof (cases "null_at i d \<or> i = idx")
    case True
    then have "null_at i ?p" using 2(2) by (auto simp: null_at_def play_maps)
    then show ?thesis by (simp add: play_from_null)
  next
    case False
    with 2(3) show ?thesis by simp
  qed
  from 2(1) [OF absent this] show ?case by simp
qed

section \<open>Properties\<close>

lemma decode_one_cases:
  assumes "decode_one pkt d = Inr (d', acks)" "map_of (played_frames d) (dh_frame_id (data_header pkt)) = None"
  obtains d1 where "discard_old (dh_frame_id (data_header pkt)) d = Inr d1"
    and "try_play (dh_frame_id (data_header pkt)) (store_packet pkt d1) = (d', acks)"
  using assms by (auto simp: decode_one_def Let_def dest!: res_bind_InrD)

text \<open>A decoder that has played up to frame 2 and holds the complete frame 4; frame 3 is missing.\<close>

definition example_frame :: VideoFrame where
  "example_frame = \<lparr>vf_data_pkt_num = 1, vf_encode_time = 0, vf_first_pkt_rcv_time = 5,
     vf_last_pkt_rcv_time = 5, vf_group_ids = {1}, vf_pkts = {0}\<rparr>"

definition example_decoder :: VideoDecoder where
  "example_decoder = \<lparr>delay_ddl = MilliSeconds 100, unplayed_frames = [(4, example_frame)],
     played_frames = [(0, Some example_frame), (1, Some example_frame), (2, Some example_frame)],
     min_frame_id = 0, max_frame_id = 4, m_lastPlayedFrameId = 2, m_frameInterval = 16,
     exclude_ten_played_frames = {}\<rparr>"

definition frame_packet :: "u32 \<Rightarrow> DataPacket" where
  "frame_packet i = example_data\<lparr>data_header :=
     \<lparr>dh_frame_id = i, dh_frame_pkt_num = 1, dh_pkt_id_in_frame = 0, dh_frame_size = 100,
      dh_last_pkt_mark = False\<rparr>\<rparr>"

lemma example_F: "last_discarded i example_decoder = uint i - 6"
  by (simp add: last_discarded_def example_decoder_def time_defs signed_divide_int_def)

text \<open>
  C9: frames are played in order. The frames that the arrival of a packet makes the decoder
  acknowledge are consecutive, the first one follows the last frame played before, the last one becomes
  the last frame played, and each of them is stored as played and has all its packets.
\<close>

theorem frames_play_in_order:
  assumes "dh_frame_id (data_header pkt) = i" "map_of (played_frames d) i = None"
    and "discard_old i d = Inr d1" "decode_one pkt d = Inr (d', acks)" "acks \<noteq> []"
  shows "map fst acks = map (\<lambda>k. m_lastPlayedFrameId d1 + 1 + word_of_nat k) [0..<length acks] \<and>
    fst (hd acks) = i \<and> m_lastPlayedFrameId d' = fst (last acks) \<and>
    list_all (\<lambda>j. \<exists>fr. map_of (played_frames d') j = Some (Some fr) \<and> frame_complete fr) (map fst acks)"
proof -
  let ?d2 = "store_packet pkt d1"
  have "try_play i ?d2 = (d', acks)"
    using assms(1-4) by (simp add: decode_one_def Let_def)
  moreover have "m_lastPlayedFrameId ?d2 = m_lastPlayedFrameId d1" by (simp add: store_packet_def Let_def)
  ultimately have i: "i = m_lastPlayedFrameId d1 + 1" and r: "play_from True i ?d2 = (d', acks)"
    using assms(5) by (auto simp: try_play_def split: option.splits if_splits)
  have c: "consecutive i (map fst acks)" using play_from_order [of i ?d2] r by simp
  then have ids: "map fst acks = map (\<lambda>k. i + word_of_nat k) [0..<length acks]"
    by (simp add: consecutive_def)
  have "fst (hd acks) = i"
    using consecutive_hd [OF c] assms(5) by (simp add: hd_map)
  moreover have "list_all (\<lambda>j. \<exists>fr. map_of (played_frames d') j = Some (Some fr) \<and>
      frame_complete fr) (map fst acks)" and "m_lastPlayedFrameId d' = fst (last acks)"
    using play_from_order [of i ?d2] assms(5) unfolding r list_all_iff by simp_all
  ultimately show ?thesis using ids unfolding i by blast
qed

theorem frames_play_in_order_witness:
  "\<exists>d'. decode_one (frame_packet 3) example_decoder = Inr (d', [(3, MilliSeconds 12 + 345), (4, 0)]) \<and>
    m_lastPlayedFrameId d' = 4"
proof -
  have d: "discard_old 3 example_decoder = Inr example_decoder"
    using example_F [of 3] by (simp add: discard_old_def) (simp add: example_decoder_def)
  have p: "dh_frame_id (data_header (frame_packet 3)) = 3"
    "map_of (played_frames example_decoder) 3 = None"
    by (simp_all add: frame_packet_def example_decoder_def)
  have "\<exists>d'. try_play 3 (store_packet (frame_packet 3) example_decoder)
      = (d', [(3, MilliSeconds 12 + 345), (4, 0)])"
    by (simp add: example_decoder_def store_packet_def Let_def try_play_def play_from.simps
        VideoFrame_new_def VideoFrame_AddPacket_def frame_complete_def GetDataPktRcvedNum_def
        example_frame_def play_def frame_packet_def example_data_def example_video_def)
  then obtain d' where r: "decode_one (frame_packet 3) example_decoder =
      Inr (d', [(3, MilliSeconds 12 + 345), (4, 0)])"
    by (auto simp: decode_one_def d p Let_def)
  from frames_play_in_order [OF p d r] r show ?thesis by simp
qed

text \<open>A frame of which no packet ever arrived and that falls behind the delay budget is entered in
  the map of played frames as a null pointer, and it stays there: from then on the statistics of
  \<open>GetDDLMissRate\<close> dereference a null pointer.
\<close>

theorem discard_absent_frame_null:
  assumes "dh_frame_id (data_header pkt) = i" "map_of (played_frames d) i = None"
    and "uint (m_lastPlayedFrameId d + 1) \<le> uint j" "uint j \<le> last_discarded i d"
    and "last_discarded i d < uint i" "map_of (unplayed_frames d) j = None"
    and "decode_one pkt d = Inr (d', acks)" "max_frame_id d' - min_frame_id d' + 1 \<noteq> 0"
  shows "map_of (played_frames d') j = Some None \<and> GetDDLMissRate f d' = Inl NullDeref"
proof -
  obtain d1 where d1: "discard_old i d = Inr d1" and t: "try_play i (store_packet pkt d1) = (d', acks)"
    using assms(1,2,7) by (auto simp: decode_one_def Let_def dest!: res_bind_InrD)
  have "j \<in> set (map word_of_int [uint (m_lastPlayedFrameId d + 1) .. last_discarded i d])"
    using assms(3,4) by (force simp: image_iff)
  then have "null_at j d1"
    using d1 discard_null [OF assms(6)] by (auto simp: discard_old_def split: if_splits)
  then have n2: "null_at j (store_packet pkt d1)"
    using assms(1,4,5) by (auto simp: null_at_def store_packet_def Let_def map_of_update)
  have "null_at j d'"
  proof -
    have "j \<noteq> 0 \<or> i \<noteq> 0" using assms(4,5) by auto
    then show ?thesis
      using n2 t play_from_null [OF n2, of True i]
      by (auto simp: try_play_def null_at_def play_maps split: option.splits if_splits)
  qed
  then have "map_of (played_frames d') j = Some None" by (simp add: null_at_def)
  moreover from map_of_SomeD [OF this] have "None \<in> snd ` set (played_frames d')" by force
  ultimately show ?thesis using assms(8) by (simp add: GetDDLMissRate_def Let_def)
qed

theorem discard_absent_frame_null_witness:
  "\<exists>d' acks. decode_one (frame_packet 10) example_decoder = Inr (d', acks) \<and>
    map_of (played_frames d') 3 = Some None \<and> GetDDLMissRate id d' = Inl NullDeref"
proof -
  have F: "last_discarded 10 example_decoder = 4" using example_F [of 10] by simp
  have fields: "m_frameInterval example_decoder = 16" "m_lastPlayedFrameId example_decoder = 2"
    "map_of (played_frames example_decoder) 10 = None" "map_of (unplayed_frames example_decoder) 3 = None"
    by (simp_all add: example_decoder_def)
  have pkt: "dh_frame_id (data_header (frame_packet 10)) = 10" by (simp add: frame_packet_def)
  have up: "[3 .. 4 :: int] = [3, 4]" by (simp add: upto_rec1)
  have d: "discard_old 10 example_decoder = Inr (discard [3, 4] example_decoder)"
    by (simp add: discard_old_def fields F up)
  have "\<exists>d' acks. try_play 10 (store_packet (frame_packet 10) (discard [3, 4] example_decoder))
      = (d', acks) \<and> max_frame_id d' = 10 \<and> min_frame_id d' = 0"
    by (simp add: example_decoder_def store_packet_def Let_def try_play_def play_from.simps
        VideoFrame_new_def VideoFrame_AddPacket_def frame_complete_def GetDataPktRcvedNum_def
        example_frame_def play_def frame_packet_def)
  then obtain d' acks where r: "decode_one (frame_packet 10) example_decoder = Inr (d', acks)"
    and m: "max_frame_id d' = 10" "min_frame_id d' = 0"
    by (auto simp: decode_one_def fields pkt Let_def d)
  have le: "uint (m_lastPlayedFrameId example_decoder + 1) \<le> uint (3 :: u32)"
    "uint (3 :: u32) \<le> last_discarded 10 example_decoder" "last_discarded 10 example_decoder < uint (10 :: u32)"
    by (simp_all add: fields F)
  from discard_absent_frame_null [OF pkt fields(3) le fields(4) r] m r show ?thesis by auto
qed

end
