(* ===== verification/Cc_Base.thy ===== *)
theory Cc_Base
  imports Prelude
begin

text \<open>
  \<open>congestion-control/sender-based-controller.\{h,cc\}\<close>: the base class of the sender's
  congestion controllers. It matches the feedback with the packets in transit, keeps the history
  from which the controllers read queuing delay, round trip time, loss and receive rate, and the
  TFRC loss intervals.

  The deques are lists, front first. Single-precision arithmetic is exact arithmetic followed by the
  rounding \<open>f\<close>. What is written to \<open>cerr\<close> and \<open>cout\<close> is left out.
\<close>

section \<open>State\<close>

record PacketRecord =
  sequence :: u16
  txTimestampUs :: u64
  psize :: u32
  owdUs :: u64
  rttUs :: u64

record InterLossState =
  intervals :: "u16 list"
  expectedSeq :: u16
  initialized :: bool

definition InterLossState_new :: InterLossState where
  "InterLossState_new = \<lparr>intervals = [0], expectedSeq = 0, initialized = False\<rparr>"

definition MAX_INTER_PACKET_TIME_US :: u64 where "MAX_INTER_PACKET_TIME_US = 500 * 1000"
definition DEFAULT_HISTORY_LENGTH_US :: u64 where "DEFAULT_HISTORY_LENGTH_US = 500 * 1000"
definition MIN_PACKET_LOGLEN :: nat where "MIN_PACKET_LOGLEN = 1"
definition RMCAT_CC_DEFAULT_RINIT :: rat where "RMCAT_CC_DEFAULT_RINIT = 150000"
definition RMCAT_CC_DEFAULT_RMIN :: rat where "RMCAT_CC_DEFAULT_RMIN = 150000"
definition RMCAT_CC_DEFAULT_RMAX :: rat where "RMCAT_CC_DEFAULT_RMAX = 1500000"

text \<open>The log callback is a function pointer: an address, or null. So is the default id, which
  is the object's address as text.\<close>

record controller =
  m_firstSend :: bool
  m_lastSequence :: u16
  m_baseDelayUs :: u64
  m_inTransitPackets :: "PacketRecord list"
  m_PacketTransitHistory :: "PacketRecord list"
  m_packetHistory :: "PacketRecord list"
  m_recvHistory :: "PacketRecord list"
  m_pktSizeSum :: u32
  m_lastRecvSequence :: u16
  m_id :: string
  m_initBw :: rat
  m_minBw :: rat
  m_maxBw :: rat
  m_logCallback :: "nat option"
  m_ilState :: InterLossState
  m_lost :: u32
  last_fraction_loss :: u8
  loss_counter :: int
  m_historyLengthUs :: u64

definition SenderBasedController_new :: "string \<Rightarrow> controller" where
  "SenderBasedController_new this = \<lparr>
     m_firstSend = True, m_lastSequence = 0, m_baseDelayUs = 0,
     m_inTransitPackets = [], m_PacketTransitHistory = [], m_packetHistory = [],
     m_recvHistory = [], m_pktSizeSum = 0, m_lastRecvSequence = 0, m_id = this,
     m_initBw = RMCAT_CC_DEFAULT_RINIT, m_minBw = RMCAT_CC_DEFAULT_RMIN,
     m_maxBw = RMCAT_CC_DEFAULT_RMAX, m_logCallback = None,
     m_ilState = InterLossState_new, m_lost = 0, last_fraction_loss = 0, loss_counter = 0,
     m_historyLengthUs = DEFAULT_HISTORY_LENGTH_US\<rparr>"

definition setId :: "string \<Rightarrow> controller \<Rightarrow> controller" where
  "setId i s = s\<lparr>m_id := i\<rparr>"

definition setInitBw :: "rat \<Rightarrow> controller \<Rightarrow> controller" where
  "setInitBw bw s = s\<lparr>m_initBw := bw\<rparr>"

definition setMinBw :: "rat \<Rightarrow> controller \<Rightarrow> controller" where
  "setMinBw bw s = s\<lparr>m_minBw := bw\<rparr>"

definition setMaxBw :: "rat \<Rightarrow> controller \<Rightarrow> controller" where
  "setMaxBw bw s = s\<lparr>m_maxBw := bw\<rparr>"

definition setLogCallback :: "nat option \<Rightarrow> controller \<Rightarrow> controller" where
  "setLogCallback cb s = s\<lparr>m_logCallback := cb\<rparr>"

definition setHistoryLength :: "u64 \<Rightarrow> controller \<Rightarrow> controller" where
  "setHistoryLength len s = s\<lparr>m_historyLengthUs := len\<rparr>"

definition reset :: "string \<Rightarrow> controller \<Rightarrow> controller" where
  "reset this s = s\<lparr>
     m_firstSend := True, m_lastSequence := 0, m_baseDelayUs := 0,
     m_inTransitPackets := [], m_recvHistory := [], m_pktSizeSum := 0,
     m_initBw := RMCAT_CC_DEFAULT_RINIT, m_minBw := RMCAT_CC_DEFAULT_RMIN,
     m_maxBw := RMCAT_CC_DEFAULT_RMAX, m_logCallback := None,
     m_ilState := InterLossState_new, m_historyLengthUs := DEFAULT_HISTORY_LENGTH_US,
     m_id := this\<rparr>"

section \<open>Loss intervals\<close>

text \<open>\<open>updateInterLossData\<close> on the loss state; the flag says whether the history is empty.\<close>

definition updateInterLossData ::
  "bool \<Rightarrow> PacketRecord \<Rightarrow> InterLossState \<Rightarrow> InterLossState res" where
  "updateInterLossData history_empty p il0 =
     (let il = (if history_empty then InterLossState_new\<lparr>expectedSeq := sequence p\<rparr> else il0)
      in if sequence p = expectedSeq il
         then (case intervals il of
             [] \<Rightarrow> Inl UndefinedBehaviour
           | i # is \<Rightarrow> Inr (il\<lparr>intervals := (i + 1) # is, expectedSeq := expectedSeq il + 1\<rparr>))
         else ns_assert (lessThan (expectedSeq il) (sequence p))
           (let is = 1 # intervals il
            in Inr (il\<lparr>intervals := (if length is > 9 then butlast is else is),
                       expectedSeq := sequence p + 1, initialized := True\<rparr>)))"

section \<open>Sending\<close>

text \<open>\<open>while (old (q.front ())) q.pop_front ();\<close> reads the front of a deque it may have
  emptied.\<close>

fun drop_until_young :: "('a \<Rightarrow> bool) \<Rightarrow> 'a list \<Rightarrow> 'a list res" where
  "drop_until_young old [] = Inl UndefinedBehaviour"
| "drop_until_young old (x # q) = (if old x then drop_until_young old q else Inr (x # q))"

text \<open>The loop that removes an earlier record of the same sequence number erases the element its
  iterator points to and then advances that iterator, which is undefined.\<close>

definition erase_same :: "u16 \<Rightarrow> PacketRecord list \<Rightarrow> PacketRecord list res" where
  "erase_same sq q = (if sq \<in> set (map sequence q) then Inl UndefinedBehaviour else Inr q)"

definition stale_in_transit :: "u64 \<Rightarrow> PacketRecord \<Rightarrow> bool" where
  "stale_in_transit tx p \<longleftrightarrow> lessThan (txTimestampUs p + 10 * MAX_INTER_PACKET_TIME_US) tx"

definition processSendPacket ::
  "u64 \<Rightarrow> u16 \<Rightarrow> u32 \<Rightarrow> controller \<Rightarrow> (bool \<times> controller) res" where
  "processSendPacket tx sq sz s0 =
     (let s1 = (if m_firstSend s0 then s0\<lparr>m_lastSequence := sq - 1, m_firstSend := False\<rparr>
                else s0);
          s2 = s1\<lparr>m_lastSequence := m_lastSequence s1 + 1\<rparr>;
          rec = \<lparr>sequence = m_lastSequence s2, txTimestampUs = tx, psize = sz,
                 owdUs = 0, rttUs = 0\<rparr>
      in if sq \<noteq> m_lastSequence s2 then Inr (False, s2)
         else res_bind (erase_same (m_lastSequence s2) (m_PacketTransitHistory s2)) (\<lambda>h.
              res_bind (drop_until_young (stale_in_transit tx) (m_inTransitPackets s2 @ [rec]))
                (\<lambda>q. Inr (True, s2\<lparr>m_PacketTransitHistory := h @ [rec],
                                   m_inTransitPackets := q\<rparr>))))"

section \<open>Feedback\<close>

text \<open>The loop that takes the packets before \<open>sq\<close> for lost and counts them.\<close>

fun pop_lost :: "u16 \<Rightarrow> PacketRecord list \<Rightarrow> u32 \<Rightarrow> int
    \<Rightarrow> (PacketRecord list \<times> u32 \<times> int) res" where
  "pop_lost sq [] lost lc = Inl UndefinedBehaviour"
| "pop_lost sq (p # q) lost lc =
     (if lessThan (sequence p) sq then pop_lost sq q (lost + 1) (lc + 1)
      else Inr (p # q, lost, lc))"

text \<open>The size a packet is given: what was sent in the last second with a sequence number after
  the last one received, compared without wrap-around.\<close>

definition counts_for :: "u64 \<Rightarrow> u16 \<Rightarrow> u16 \<Rightarrow> PacketRecord \<Rightarrow> bool" where
  "counts_for now lastRecv sq p \<longleftrightarrow>
     lastRecv < sequence p \<and> sequence p \<le> sq \<and> now - txTimestampUs p < 1000000"

definition intvl_pseudo_size :: "u64 \<Rightarrow> u16 \<Rightarrow> u16 \<Rightarrow> PacketRecord list \<Rightarrow> u32" where
  "intvl_pseudo_size now lastRecv sq q =
     fold (\<lambda>p acc. if counts_for now lastRecv sq p then acc + psize p else acc) q 0"

text \<open>The loop that bounds the time span of the history.\<close>

fun gc_history :: "u64 \<Rightarrow> PacketRecord list \<Rightarrow> u32 \<Rightarrow> (PacketRecord list \<times> u32) res" where
  "gc_history len [] pktsum = Inl UndefinedBehaviour"
| "gc_history len (p # q) pktsum =
     (let lastTx = txTimestampUs (last (p # q)); firstTx = txTimestampUs p
      in ns_assert (\<not> lessThan lastTx firstTx)
        (if lessThan lastTx (firstTx + len) then Inr (p # q, pktsum)
         else ns_assert (psize p \<le> pktsum) (gc_history len q (pktsum - psize p))))"

text \<open>The end of \<open>processFeedback\<close>, from the sanity check on: the packet is measured and
  enters the histories.\<close>

definition measure_packet ::
  "u64 \<Rightarrow> u64 \<Rightarrow> PacketRecord \<Rightarrow> controller \<Rightarrow> (bool \<times> controller) res" where
  "measure_packet now rx p s =
     ns_assert (owdUs p = 0) (ns_assert (rttUs p = 0)
     (let p1 = p\<lparr>owdUs := rx - txTimestampUs p, rttUs := now - txTimestampUs p\<rparr>;
          base = (if m_packetHistory s = [] \<or> lessThan (owdUs p1) (m_baseDelayUs s)
                  then owdUs p1 else m_baseDelayUs s)
      in res_bind (updateInterLossData (m_packetHistory s = []) p1 (m_ilState s)) (\<lambda>il.
         let p2 = p1\<lparr>psize := intvl_pseudo_size now (m_lastRecvSequence s) (sequence p1)
                        (m_PacketTransitHistory s)\<rparr>
         in res_bind (gc_history (m_historyLengthUs s) (m_packetHistory s @ [p2])
                        (m_pktSizeSum s + psize p2)) (\<lambda>(h, pktsum).
            Inr (True, s\<lparr>m_baseDelayUs := base, m_ilState := il,
                         m_lastRecvSequence := sequence p2, m_packetHistory := h,
                         m_recvHistory := m_recvHistory s @ [p2], m_pktSizeSum := pktsum\<rparr>)))))"

text \<open>The check of the packet's timestamp against the last one of the history, which may
  reject the packet or empty the history.\<close>

definition accept_packet ::
  "u64 \<Rightarrow> u64 \<Rightarrow> PacketRecord \<Rightarrow> controller \<Rightarrow> (bool \<times> controller) res" where
  "accept_packet now rx p s =
     (if m_packetHistory s = [] then measure_packet now rx p s
      else let lastTx = txTimestampUs (last (m_packetHistory s))
           in if lessThan (txTimestampUs p) lastTx then Inr (False, s)
              else if lessThan (lastTx + MAX_INTER_PACKET_TIME_US) (txTimestampUs p)
              then measure_packet now rx p (s\<lparr>m_packetHistory := [], m_pktSizeSum := 0\<rparr>)
              else measure_packet now rx p s)"

definition processFeedback ::
  "u64 \<Rightarrow> u16 \<Rightarrow> u64 \<Rightarrow> controller \<Rightarrow> (bool \<times> controller) res" where
  "processFeedback now sq rx s =
     (if lessThan (m_lastSequence s) sq then Inr (False, s)
      else if m_inTransitPackets s = [] then Inr (True, s)
      else ns_assert (sequence (last (m_inTransitPackets s)) = m_lastSequence s)
        (res_bind (pop_lost sq (m_inTransitPackets s) 0 (loss_counter s)) (\<lambda>(q, lost, lc).
           let s1 = s\<lparr>m_inTransitPackets := q, m_lost := lost, loss_counter := lc\<rparr>
           in case q of
                [] \<Rightarrow> Inl UndefinedBehaviour
              | p # rest \<Rightarrow>
                  if lessThan sq (sequence p) then Inr (True, s1)
                  else ns_assert (sq = sequence p)
                    (accept_packet now rx p (s1\<lparr>m_inTransitPackets := rest\<rparr>)))))"

definition UpdateLossRate :: "u8 \<Rightarrow> controller \<Rightarrow> controller" where
  "UpdateLossRate q s = s\<lparr>last_fraction_loss := q\<rparr>"

section \<open>Queries on the packets sent\<close>

definition PrunTransitHistory :: "u32 \<Rightarrow> controller \<Rightarrow> controller res" where
  "PrunTransitHistory tar s =
     res_bind (drop_until_young (\<lambda>p. ucast (sequence p) < tar) (m_PacketTransitHistory s))
       (\<lambda>q. Inr (s\<lparr>m_PacketTransitHistory := q\<rparr>))"

definition GetPacketTxTimestamp :: "u16 \<Rightarrow> controller \<Rightarrow> u64" where
  "GetPacketTxTimestamp sq s =
     (case find (\<lambda>p. sequence p = sq) (rev (m_PacketTransitHistory s)) of
        Some p \<Rightarrow> txTimestampUs p | None \<Rightarrow> - 1)"

definition departure_step :: "u32 \<Rightarrow> u32 \<Rightarrow> PacketRecord \<Rightarrow> u64 \<times> u64 \<Rightarrow> u64 \<times> u64" where
  "departure_step prev_s now_s p = (\<lambda>(prev_t, now_t).
     (if ucast (sequence p) = prev_s then txTimestampUs p else prev_t,
      if ucast (sequence p) = now_s then txTimestampUs p else now_t))"

definition UpdateDepartureTime :: "u32 \<Rightarrow> u32 \<Rightarrow> controller \<Rightarrow> u64" where
  "UpdateDepartureTime prev_s now_s s =
     (let (prev_t, now_t) = fold (departure_step prev_s now_s) (m_PacketTransitHistory s) (0, 0)
      in now_t - prev_t)"

definition GetPacketSize :: "u16 \<Rightarrow> controller \<Rightarrow> u64" where
  "GetPacketSize sq s =
     (case find (\<lambda>p. sequence p = sq) (m_PacketTransitHistory s) of
        Some p \<Rightarrow> ucast (psize p) | None \<Rightarrow> - 1)"

section \<open>Metrics\<close>

text \<open>The 15-tap minimum filter of \<open>getCurrentQdelay\<close> and \<open>getCurrentRTT\<close>: the loop runs
  over the history backwards with the minimum so far and its counter.\<close>

definition ntab :: nat where "ntab = 15"

fun min_filter :: "u64 list \<Rightarrow> nat \<Rightarrow> u64 \<Rightarrow> u64" where
  "min_filter [] iter m = m"
| "min_filter (x # xs) iter m =
     (let m' = (if iter > 0 then min m x else x)
      in if iter + 1 \<ge> ntab then m' else min_filter xs (iter + 1) m')"

definition getCurrentQdelay :: "controller \<Rightarrow> u64 option" where
  "getCurrentQdelay s =
     (if m_packetHistory s = [] then None
      else Some (min_filter (map (\<lambda>p. owdUs p - m_baseDelayUs s) (rev (m_packetHistory s))) 0 0))"

definition getCurrentRTT :: "controller \<Rightarrow> u64 option" where
  "getCurrentRTT s =
     (if m_packetHistory s = [] then None
      else Some (min_filter (map rttUs (rev (m_packetHistory s))) 0 0))"

definition getPktLossInfo :: "rounding \<Rightarrow> controller \<Rightarrow> (u32 \<times> rat \<times> u32) option res" where
  "getPktLossInfo f s =
     (if length (m_packetHistory s) < MIN_PACKET_LOGLEN then Inr None
      else let seqSpan = 1 + sequence (last (m_packetHistory s))
                           - sequence (hd (m_packetHistory s));
               n = length (m_packetHistory s);
               nLoss = ucast seqSpan - (word_of_nat n :: u32)
           in ns_assert (n \<le> unat seqSpan)
             (Inr (Some (nLoss, f (f (of_int (uint nLoss)) / f (of_int (uint seqSpan))),
                         ucast seqSpan))))"

text \<open>The loop of \<open>getCurrentRecvRate\<close> walks back from index \<open>i\<close>; \<open>None\<close> is its
  \<open>return false\<close>.\<close>

fun recv_window :: "u64 \<Rightarrow> PacketRecord list \<Rightarrow> nat \<Rightarrow> u64 \<Rightarrow> u32
    \<Rightarrow> (nat \<times> u64 \<times> u32) option res" where
  "recv_window lastRx q i cur pktcnt =
     (if lastRx - cur < 1000000
      then if i < length q
           then let c = txTimestampUs (q ! i) + owdUs (q ! i);
                    c' = (if lastRx < c then lastRx else c);
                    n = pktcnt + psize (q ! i)
                in (case i of 0 \<Rightarrow> Inr None | Suc j \<Rightarrow> recv_window lastRx q j c' n)
           else Inl OutOfRange
      else Inr (Some (i, cur, pktcnt)))"

declare recv_window.simps [simp del]

definition getCurrentRecvRate ::
  "rounding \<Rightarrow> controller \<Rightarrow> (rat option \<times> controller) res" where
  "getCurrentRecvRate f s =
     (if length (m_packetHistory s) < MIN_PACKET_LOGLEN then Inr (None, s)
      else let front = hd (m_packetHistory s); back = last (m_packetHistory s);
               firstRx = txTimestampUs front + owdUs front;
               lastRx = txTimestampUs back + owdUs back
           in if \<not> lessThan firstRx (lastRx + 1) \<or> lastRx - firstRx = 0 then Inr (None, s)
              else if m_recvHistory s = [] then Inl OutOfRange
              else res_bind (recv_window lastRx (m_recvHistory s) (length (m_recvHistory s) - 1)
                               lastRx 0) (\<lambda>r. case r of
                     None \<Rightarrow> Inr (None, s)
                   | Some (i, cur, n) \<Rightarrow>
                       if i < length (m_recvHistory s)
                       then let sz = psize (m_recvHistory s ! i);
                                bytes = (if sz < n then n - sz else n);
                                s' = s\<lparr>m_recvHistory := drop (i + 1) (m_recvHistory s)\<rparr>
                            in ns_assert (psize front \<le> m_pktSizeSum s)
                              (Inr (Some (f (f (f (f (of_int (uint (bytes * 8))) * 1000) * 1000)
                                         / f (of_int (uint (lastRx - cur))))), s'))
                       else Inl OutOfRange))"

definition tfrc_weights :: "rounding \<Rightarrow> rat list" where
  "tfrc_weights f = map (\<lambda>i. if i < 4 then 1 else f (f (2 * of_int (8 - int i)) / 10)) [0..<8]"

definition inner_product :: "rounding \<Rightarrow> u16 list \<Rightarrow> rat list \<Rightarrow> rat" where
  "inner_product f xs ws =
     fold (\<lambda>(x, w) acc. f (acc + f (of_int (uint x) * w))) (zip xs ws) 0"

definition getLossIntervalInfo :: "rounding \<Rightarrow> controller \<Rightarrow> (rat \<times> u16) option res" where
  "getLossIntervalInfo f s =
     (if \<not> initialized (m_ilState s) then Inr None
      else let is = intervals (m_ilState s); k = length is
           in ns_assert (2 \<le> k \<and> k \<le> 9)
             (let iSum0 = inner_product f (butlast is) (tfrc_weights f);
                  iSum1 = inner_product f (tl is) (tfrc_weights f);
                  wSum = fold (\<lambda>w acc. f (acc + w)) (take (k - 1) (tfrc_weights f)) 0
              in Inr (Some (f (max iSum0 iSum1 / wSum), hd is))))"

section \<open>Timestamps\<close>

text \<open>Timestamps far from the end of the 64-bit range compare as numbers.\<close>

definition ts_ok :: "u64 \<Rightarrow> bool" where
  "ts_ok t \<longleftrightarrow> uint t < 2 ^ 62"

lemma uint_add_small:
  fixes a b :: u64
  assumes "uint a < 2 ^ 62" "uint b \<le> 2 ^ 62"
  shows "uint (a + b) = uint a + uint b"
  unfolding uint_word_ariths(1) using assms uint_ge_0 [of a] uint_ge_0 [of b]
  by (intro mod_pos_pos_trivial) simp_all

lemma lessThan_small:
  fixes a b :: u64
  assumes a: "uint a < 2 ^ 63" and b: "uint b < 2 ^ 63"
  shows "lessThan a b \<longleftrightarrow> uint a < uint b"
proof (cases "uint a \<le> uint b")
  case True
  then have "uint (b - a) = uint b - uint a"
    by (simp add: uint_minus_simple_alt [symmetric] word_le_def)
  moreover have "uint b < 9223372036854775808" using b by simp
  then have "2 * uint b - 2 * uint a < 18446744073709551616" using uint_ge_0 [of a] by linarith
  ultimately show ?thesis by (simp add: lessThan_iff)
next
  case False
  have ab: "uint (a - b) = uint a - uint b"
    using False by (simp add: uint_minus_simple_alt [symmetric] word_le_def)
  have "a \<noteq> b" using False by auto
  then have "uint (b - a) = 2 ^ 64 - uint (a - b)"
    using uint_minus_swap [of b a] by simp
  then have "uint (b - a) = 18446744073709551616 - uint (a - b)" by simp
  moreover have "uint a < 9223372036854775808" using a by simp
  ultimately have "9223372036854775808 \<le> uint (b - a)" using ab uint_ge_0 [of b] by linarith
  then show ?thesis using False by (simp add: lessThan_iff)
qed

lemma lessThan_later:
  assumes "ts_ok a" "ts_ok b" "uint d \<le> 2 ^ 62"
  shows "lessThan (a + d) b \<longleftrightarrow> uint a + uint d < uint b"
proof -
  have e: "uint (a + d) = uint a + uint d"
    using assms by (intro uint_add_small) (simp_all add: ts_ok_def)
  have "uint (a + d) < 2 ^ 63" "uint b < 2 ^ 63"
    using e assms by (simp_all add: ts_ok_def)
  from lessThan_small [OF this] show ?thesis unfolding e .
qed

lemma lessThan_window:
  assumes "ts_ok a" "ts_ok b" "uint d \<le> 2 ^ 62"
  shows "lessThan b (a + d) \<longleftrightarrow> uint b < uint a + uint d"
proof -
  have e: "uint (a + d) = uint a + uint d"
    using assms by (intro uint_add_small) (simp_all add: ts_ok_def)
  have "uint b < 2 ^ 63" "uint (a + d) < 2 ^ 63"
    using e assms by (simp_all add: ts_ok_def)
  from lessThan_small [OF this] show ?thesis unfolding e .
qed

lemma lessThan_ts: "ts_ok a \<Longrightarrow> ts_ok b \<Longrightarrow> lessThan a b \<longleftrightarrow> uint a < uint b"
  by (rule lessThan_small) (simp_all add: ts_ok_def)


section \<open>Invariant\<close>

definition seqs_back :: "u16 \<Rightarrow> PacketRecord list \<Rightarrow> bool" where
  "seqs_back l ps \<longleftrightarrow>
     sorted_wrt (\<lambda>p q. behind l (sequence q) < behind l (sequence p)) ps \<and>
     (\<forall>p\<in>set ps. behind l (sequence p) < 32768 \<and> ts_ok (txTimestampUs p))"

definition gapless :: "u16 \<Rightarrow> PacketRecord list \<Rightarrow> bool" where
  "gapless l ps \<longleftrightarrow>
     map (\<lambda>p. behind l (sequence p)) ps = rev (map int [0..<length ps])"

definition il_ok :: "InterLossState \<Rightarrow> bool" where
  "il_ok il \<longleftrightarrow> intervals il \<noteq> [] \<and> length (intervals il) \<le> 9 \<and>
     (initialized il \<longrightarrow> 2 \<le> length (intervals il))"

definition pkt_bytes :: "PacketRecord list \<Rightarrow> int" where
  "pkt_bytes ps = sum_list (map (\<lambda>p. uint (psize p)) ps)"

definition hist_ok :: "PacketRecord list \<Rightarrow> u32 \<Rightarrow> InterLossState \<Rightarrow> bool" where
  "hist_ok h b il \<longleftrightarrow>
     sorted_wrt (\<lambda>p q. uint (txTimestampUs p) \<le> uint (txTimestampUs q)) h \<and>
     uint b = pkt_bytes h \<and> il_ok il \<and>
     (h \<noteq> [] \<longrightarrow> expectedSeq il = sequence (last h) + 1)"

definition fresh_record :: "PacketRecord \<Rightarrow> bool" where
  "fresh_record p \<longleftrightarrow> owdUs p = 0 \<and> rttUs p = 0"

definition len_ok :: "u64 \<Rightarrow> bool" where
  "len_ok len \<longleftrightarrow> 0 < uint len \<and> uint len \<le> 2 ^ 62"

definition cc_inv :: "controller \<Rightarrow> bool" where
  "cc_inv s \<longleftrightarrow>
     (m_firstSend s \<longrightarrow> m_packetHistory s = [] \<and> m_inTransitPackets s = []) \<and>
     seqs_back (m_lastSequence s) (m_packetHistory s @ m_inTransitPackets s) \<and>
     gapless (m_lastSequence s) (m_inTransitPackets s) \<and>
     list_all fresh_record (m_inTransitPackets s) \<and>
     hist_ok (m_packetHistory s) (m_pktSizeSum s) (m_ilState s) \<and>
     len_ok (m_historyLengthUs s)"

lemma seqs_back_append:
  "seqs_back l (a @ b) \<longleftrightarrow> seqs_back l a \<and> seqs_back l b \<and>
     (\<forall>p\<in>set a. \<forall>q\<in>set b. behind l (sequence q) < behind l (sequence p))"
  by (auto simp: seqs_back_def sorted_wrt_append)

lemma seqs_back_Nil [simp]: "seqs_back l []"
  by (simp add: seqs_back_def)

lemma seqs_back_drop: "seqs_back l a \<Longrightarrow> seqs_back l (drop n a)"
  using seqs_back_append [of l "take n a" "drop n a"] by simp

lemma seqs_back_dropWhile: "seqs_back l a \<Longrightarrow> seqs_back l (dropWhile P a)"
  by (simp add: dropWhile_eq_drop seqs_back_drop)

lemma gapless_Cons:
  "gapless l (p # ps) \<longleftrightarrow> behind l (sequence p) = int (length ps) \<and> gapless l ps"
  by (auto simp: gapless_def)

lemma gapless_dropWhile: "gapless l a \<Longrightarrow> gapless l (dropWhile P a)"
  by (induction a) (auto simp: gapless_Cons)

lemma gapless_last: "gapless l ps \<Longrightarrow> ps \<noteq> [] \<Longrightarrow> sequence (last ps) = l"
proof (induction ps)
  case (Cons p ps)
  then show ?case by (cases ps) (auto simp: gapless_Cons uint_0_iff)
qed simp

lemma gapless_snoc:
  assumes "gapless l ps" "length ps < 32768" "sequence r = l + 1"
  shows "gapless (l + 1) (ps @ [r])"
  using assms
proof (induction ps)
  case Nil
  then show ?case by (simp add: gapless_def)
next
  case (Cons p ps)
  then have "behind l (sequence p) = int (length ps)" "gapless l ps"
    by (simp_all add: gapless_Cons)
  moreover from this Cons.prems(2) have "behind (l + 1) (sequence p) = int (length ps) + 1"
    by (simp add: behind_succ)
  ultimately show ?case using Cons by (simp add: gapless_Cons)
qed

lemma gapless_length:
  assumes "gapless l ps" "seqs_back l ps"
  shows "length ps \<le> 32768"
  using assms by (cases ps) (auto simp: gapless_Cons seqs_back_def)

lemma hist_ok_Nil: "hist_ok [] 0 il \<longleftrightarrow> il_ok il"
  by (simp add: hist_ok_def pkt_bytes_def)

lemma il_ok_new: "il_ok InterLossState_new"
  by (simp add: il_ok_def InterLossState_new_def)

lemma cc_inv_new: "cc_inv (SenderBasedController_new this)"
  by (simp add: cc_inv_def SenderBasedController_new_def seqs_back_def gapless_def
      hist_ok_Nil il_ok_new len_ok_def DEFAULT_HISTORY_LENGTH_US_def)

section \<open>Sending\<close>

lemma drop_until_young_eq:
  "\<exists>x\<in>set q. \<not> old x \<Longrightarrow> drop_until_young old q = Inr (dropWhile old q)"
  by (induction q) auto

lemma drop_until_young_UB: "\<forall>x\<in>set q. old x \<Longrightarrow> drop_until_young old q = Inl UndefinedBehaviour"
  by (induction q) auto

text \<open>What the sender guarantees: the next sequence number, a timestamp far from the end of its
  range, no packet still on record that is half the sequence space old, and the sequence number no
  longer among the packets sent.\<close>

definition send_ok :: "u64 \<Rightarrow> u16 \<Rightarrow> controller \<Rightarrow> bool" where
  "send_ok tx sq s \<longleftrightarrow> ts_ok tx \<and> (m_firstSend s \<or> sq = m_lastSequence s + 1) \<and>
     (\<forall>p\<in>set (m_packetHistory s @ m_inTransitPackets s).
        behind (m_lastSequence s) (sequence p) < 32767) \<and>
     sq \<notin> set (map sequence (m_PacketTransitHistory s))"

text \<open>The next packet of a sender that counts, which may reuse a number that is still in the transit history.\<close>

definition send_due :: "u64 \<Rightarrow> u16 \<Rightarrow> controller \<Rightarrow> bool" where
  "send_due tx sq s \<longleftrightarrow> ts_ok tx \<and> (m_firstSend s \<or> sq = m_lastSequence s + 1) \<and>
     (\<forall>p\<in>set (m_packetHistory s @ m_inTransitPackets s).
        behind (m_lastSequence s) (sequence p) < 32767)"

lemma send_ok_due: "send_ok tx sq s \<longleftrightarrow> send_due tx sq s \<and> sq \<notin> set (map sequence (m_PacketTransitHistory s))"
  by (auto simp: send_ok_def send_due_def)

lemma processSendPacket_reused:
  "send_due tx sq s \<Longrightarrow> sq \<in> set (map sequence (m_PacketTransitHistory s)) \<Longrightarrow>
    processSendPacket tx sq sz s = Inl UndefinedBehaviour"
  by (auto simp: processSendPacket_def send_due_def erase_same_def Let_def)

definition sent_record :: "u64 \<Rightarrow> u16 \<Rightarrow> u32 \<Rightarrow> PacketRecord" where
  "sent_record tx sq sz =
     \<lparr>sequence = sq, txTimestampUs = tx, psize = sz, owdUs = 0, rttUs = 0\<rparr>"

lemma sent_record_sel [simp]:
  "sequence (sent_record tx sq sz) = sq" "txTimestampUs (sent_record tx sq sz) = tx"
  "psize (sent_record tx sq sz) = sz" "fresh_record (sent_record tx sq sz)"
  by (simp_all add: sent_record_def fresh_record_def)

lemma stale_never_newest: "ts_ok tx \<Longrightarrow> \<not> stale_in_transit tx (sent_record tx sq sz)"
  using lessThan_later [of tx tx "10 * MAX_INTER_PACKET_TIME_US"]
  by (simp add: stale_in_transit_def MAX_INTER_PACKET_TIME_US_def)

lemma processSendPacket_eq:
  assumes "send_ok tx sq s"
  shows "processSendPacket tx sq sz s = Inr (True, s\<lparr>m_firstSend := False,
    m_lastSequence := sq,
    m_PacketTransitHistory := m_PacketTransitHistory s @ [sent_record tx sq sz],
    m_inTransitPackets := dropWhile (stale_in_transit tx)
      (m_inTransitPackets s @ [sent_record tx sq sz])\<rparr>)"
proof -
  have young: "\<exists>x\<in>set (m_inTransitPackets s @ [sent_record tx sq sz]). \<not> stale_in_transit tx x"
    using assms stale_never_newest by (auto simp: send_ok_def)
  show ?thesis
    using assms drop_until_young_eq [OF young]
    by (cases "m_firstSend s")
       (auto simp: processSendPacket_def send_ok_def erase_same_def Let_def sent_record_def [symmetric])
qed

lemma seqs_back_snoc:
  assumes "seqs_back l ps" "\<forall>p\<in>set ps. behind l (sequence p) < 32767"
    "sequence r = l + 1" "ts_ok (txTimestampUs r)"
  shows "seqs_back (l + 1) (ps @ [r])"
proof -
  have up: "behind (l + 1) (sequence p) = behind l (sequence p) + 1" if "p \<in> set ps" for p
    using assms(2) that by (intro behind_succ) force
  have s: "sorted_wrt (\<lambda>p q. behind l (sequence q) < behind l (sequence p)) ps"
    using assms(1) by (simp add: seqs_back_def)
  have "sorted_wrt (\<lambda>p q. behind (l + 1) (sequence q) < behind (l + 1) (sequence p)) ps"
    by (rule sorted_wrt_mono_rel [OF _ s]) (simp add: up)
  then show ?thesis
    using assms up by (auto simp: seqs_back_def sorted_wrt_append)
qed


lemma seqs_back_first:
  "ts_ok (txTimestampUs r) \<Longrightarrow> sequence r = l \<Longrightarrow> seqs_back l [r]"
  by (simp add: seqs_back_def)

lemma gapless_first: "sequence r = l \<Longrightarrow> gapless l [r]"
  by (simp add: gapless_def)

lemma seqs_back_sub:
  "seqs_back l (a @ b) \<Longrightarrow> seqs_back l (a @ dropWhile P b)"
  using set_dropWhileD by (fastforce simp: seqs_back_append seqs_back_dropWhile)

lemma send_keeps_inv:
  assumes inv: "cc_inv s" and ok: "send_ok tx sq s"
  shows "cc_inv (s\<lparr>m_firstSend := False, m_lastSequence := sq,
    m_PacketTransitHistory := m_PacketTransitHistory s @ [sent_record tx sq sz],
    m_inTransitPackets := dropWhile (stale_in_transit tx)
      (m_inTransitPackets s @ [sent_record tx sq sz])\<rparr>)"
proof -
  let ?r = "sent_record tx sq sz"
  let ?q = "m_inTransitPackets s @ [?r]"
  have ts: "ts_ok (txTimestampUs ?r)" using ok by (simp add: send_ok_def)
  have "seqs_back sq (m_packetHistory s @ ?q) \<and> gapless sq ?q"
  proof (cases "m_firstSend s")
    case True
    with inv have "m_packetHistory s = []" "m_inTransitPackets s = []"
      by (simp_all add: cc_inv_def)
    then show ?thesis using ts by (simp add: seqs_back_first gapless_first)
  next
    case False
    with ok have sq: "sq = m_lastSequence s + 1" by (simp add: send_ok_def)
    have b: "seqs_back (m_lastSequence s) (m_packetHistory s @ m_inTransitPackets s)"
      and c: "gapless (m_lastSequence s) (m_inTransitPackets s)"
      using inv by (simp_all add: cc_inv_def)
    have lim: "\<forall>p\<in>set (m_packetHistory s @ m_inTransitPackets s).
        behind (m_lastSequence s) (sequence p) < 32767"
      using ok by (simp add: send_ok_def)
    have "length (m_inTransitPackets s) < 32768"
      using c lim by (cases "m_inTransitPackets s") (auto simp: gapless_Cons)
    then show ?thesis
      using seqs_back_snoc [OF b lim, of ?r] gapless_snoc [OF c, of ?r] ts sq by simp
  qed
  then have "seqs_back sq (m_packetHistory s @ dropWhile (stale_in_transit tx) ?q)"
    "gapless sq (dropWhile (stale_in_transit tx) ?q)"
    by (simp_all add: seqs_back_sub gapless_dropWhile)
  moreover have "list_all fresh_record (dropWhile (stale_in_transit tx) ?q)"
    using inv by (intro list_all_dropWhile) (simp add: cc_inv_def)
  ultimately show ?thesis using inv by (simp add: cc_inv_def)
qed

section \<open>Feedback\<close>

lemma pop_lost_eq:
  "\<exists>p\<in>set q. \<not> lessThan (sequence p) sq \<Longrightarrow>
   pop_lost sq q lost lc = Inr (dropWhile (\<lambda>p. lessThan (sequence p) sq) q,
     lost + word_of_nat (length (takeWhile (\<lambda>p. lessThan (sequence p) sq) q)),
     lc + int (length (takeWhile (\<lambda>p. lessThan (sequence p) sq) q)))"
  by (induction q arbitrary: lost lc) auto

lemma updateInterLossData_ok:
  assumes "hist_ok h b il" "seqs_back l (h @ [p])"
  obtains il' where "updateInterLossData (h = []) p il = Inr il'" "il_ok il'"
    "expectedSeq il' = sequence p + 1"
proof (cases "h = []")
  case True
  then show ?thesis
    by (intro that [of "InterLossState_new\<lparr>intervals := [1], expectedSeq := sequence p + 1\<rparr>"])
       (simp_all add: updateInterLossData_def InterLossState_new_def il_ok_def)
next
  case False
  let ?e = "sequence (last h) + 1"
  have e: "expectedSeq il = ?e" and il: "il_ok il"
    using assms False by (simp_all add: hist_ok_def)
  show ?thesis
  proof (cases "sequence p = ?e")
    case True
    from il obtain i "is" where "intervals il = i # is" by (cases "intervals il") (auto simp: il_ok_def)
    then show ?thesis using False True e il
      by (intro that [of "il\<lparr>intervals := (i + 1) # is, expectedSeq := expectedSeq il + 1\<rparr>"])
         (auto simp: updateInterLossData_def il_ok_def)
  next
    case gap: False
    have h: "last h \<in> set h" using False by simp
    have d: "behind l (sequence p) < behind l (sequence (last h))"
      and b: "behind l (sequence (last h)) < 32768" "behind l (sequence p) \<le> 32768"
      using assms(2) h by (auto simp: seqs_back_def sorted_wrt_append)
    have "behind l ?e = behind l (sequence (last h)) - 1"
    proof -
      have "behind l ?e = uint ((l - sequence (last h)) - 1)" by (simp add: algebra_simps)
      also have "\<dots> = (behind l (sequence (last h)) - 1) mod 65536"
        unfolding uint_word_ariths(2) by simp
      also have "\<dots> = behind l (sequence (last h)) - 1"
        using d b uint_ge_0 [of "l - sequence p"] by (intro mod_pos_pos_trivial) linarith+
      finally show ?thesis .
    qed
    moreover have "behind l ?e \<noteq> behind l (sequence p)"
      using gap behind_inj by metis
    ultimately have "lessThan ?e (sequence p)"
      using d b by (subst lessThan_behind [where l = l]) linarith+
    then show ?thesis using False gap e il
      by (intro that [of "il\<lparr>intervals := (if length (1 # intervals il) > 9
             then butlast (1 # intervals il) else 1 # intervals il),
           expectedSeq := sequence p + 1, initialized := True\<rparr>"])
         (auto simp: updateInterLossData_def il_ok_def Let_def Suc_le_eq)
  qed
qed

lemma pkt_bytes_simps [simp]:
  "pkt_bytes [] = 0" "pkt_bytes (p # ps) = uint (psize p) + pkt_bytes ps"
  "pkt_bytes (ps @ qs) = pkt_bytes ps + pkt_bytes qs"
  by (simp_all add: pkt_bytes_def)

lemma pkt_bytes_ge_0: "0 \<le> pkt_bytes ps"
  by (induction ps) simp_all

definition too_old :: "u64 \<Rightarrow> u64 \<Rightarrow> PacketRecord \<Rightarrow> bool" where
  "too_old len lastTx p \<longleftrightarrow> uint (txTimestampUs p) + uint len \<le> uint lastTx"

lemma gc_history_eq:
  assumes "h \<noteq> []" "sorted_wrt (\<lambda>p q. uint (txTimestampUs p) \<le> uint (txTimestampUs q)) h"
    "\<forall>p\<in>set h. ts_ok (txTimestampUs p)" "len_ok len" "uint b = pkt_bytes h"
  shows "\<exists>b'. gc_history len h b = Inr (dropWhile (too_old len (txTimestampUs (last h))) h, b') \<and>
     uint b' = pkt_bytes (dropWhile (too_old len (txTimestampUs (last h))) h)"
  using assms
proof (induction h arbitrary: b)
  case (Cons p q)
  let ?t = "txTimestampUs (last (p # q))"
  have ts: "ts_ok (txTimestampUs p)" "ts_ok ?t"
    using Cons.prems(3) last_in_set [of "p # q"] by (simp_all only: list.set_intros list.distinct not_False_eq_True)
  have le: "uint (txTimestampUs p) \<le> uint ?t"
    using Cons.prems(2) by (cases q) auto
  have win: "lessThan ?t (txTimestampUs p + len) \<longleftrightarrow> \<not> too_old len ?t p"
    using lessThan_window [OF ts(1) ts(2), of len] Cons.prems(4)
    by (auto simp: too_old_def len_ok_def)
  have sorted: "\<not> lessThan ?t (txTimestampUs p)"
    using lessThan_ts [OF ts(2) ts(1)] le by simp
  show ?case
  proof (cases "too_old len ?t p")
    case False
    then show ?thesis using win sorted Cons.prems(5) by simp
  next
    case True
    then have q: "q \<noteq> []"
      using Cons.prems(4) by (auto simp: too_old_def len_ok_def)
    have sz: "uint (psize p) \<le> uint b"
      using Cons.prems(5) pkt_bytes_ge_0 [of q] by simp
    then have "uint (b - psize p) = uint b - uint (psize p)"
      by (simp add: uint_minus_simple_alt [symmetric] word_le_def)
    then have "uint (b - psize p) = pkt_bytes q"
      using Cons.prems(5) by simp
    moreover have "sorted_wrt (\<lambda>p q. uint (txTimestampUs p) \<le> uint (txTimestampUs q)) q"
      "\<forall>p\<in>set q. ts_ok (txTimestampUs p)"
      using Cons.prems(2,3) by simp_all
    ultimately have "\<exists>b'. gc_history len q (b - psize p) =
        Inr (dropWhile (too_old len (txTimestampUs (last q))) q, b') \<and>
      uint b' = pkt_bytes (dropWhile (too_old len (txTimestampUs (last q))) q)"
      by (intro Cons.IH [OF q]) (rule Cons.prems(4) | assumption)+
    then show ?thesis using True win sorted sz q by (simp add: word_le_def)
  qed
qed simp


definition measured :: "u64 \<Rightarrow> u64 \<Rightarrow> controller \<Rightarrow> PacketRecord \<Rightarrow> PacketRecord" where
  "measured now rx s p = p\<lparr>owdUs := rx - txTimestampUs p, rttUs := now - txTimestampUs p,
     psize := intvl_pseudo_size now (m_lastRecvSequence s) (sequence p)
                (m_PacketTransitHistory s)\<rparr>"

lemma measured_sel [simp]:
  "sequence (measured now rx s p) = sequence p"
  "txTimestampUs (measured now rx s p) = txTimestampUs p"
  "owdUs (measured now rx s p) = rx - txTimestampUs p"
  "rttUs (measured now rx s p) = now - txTimestampUs p"
  by (simp_all add: measured_def)

lemma measured_psize: "psize (measured now rx s p) =
  intvl_pseudo_size now (m_lastRecvSequence s) (sequence p) (m_PacketTransitHistory s)"
  by (simp add: measured_def)

definition tx_sorted :: "PacketRecord list \<Rightarrow> bool" where
  "tx_sorted h \<longleftrightarrow> sorted_wrt (\<lambda>p q. uint (txTimestampUs p) \<le> uint (txTimestampUs q)) h"

lemma tx_sorted_append:
  "tx_sorted (a @ b) \<longleftrightarrow> tx_sorted a \<and> tx_sorted b \<and>
     (\<forall>p\<in>set a. \<forall>q\<in>set b. uint (txTimestampUs p) \<le> uint (txTimestampUs q))"
  by (simp add: tx_sorted_def sorted_wrt_append)

lemma tx_sorted_single [simp]: "tx_sorted [p]" "tx_sorted []"
  by (simp_all add: tx_sorted_def)

lemma tx_sorted_snoc:
  assumes "tx_sorted a" "a \<noteq> [] \<Longrightarrow> uint (txTimestampUs (last a)) \<le> uint (txTimestampUs q)"
  shows "tx_sorted (a @ [q])"
proof (cases a rule: rev_cases)
  case Nil
  then show ?thesis by (simp add: tx_sorted_def)
next
  case (snoc b p)
  then have "uint (txTimestampUs p) \<le> uint (txTimestampUs q)" using assms(2) by simp
  moreover have "\<forall>x\<in>set b. uint (txTimestampUs x) \<le> uint (txTimestampUs p)" "tx_sorted b"
    using assms(1) snoc by (simp_all add: tx_sorted_append)
  ultimately show ?thesis unfolding snoc
    by (auto simp: tx_sorted_append intro: order_trans) (simp_all add: tx_sorted_def)
qed

lemma tx_sorted_dropWhile: "tx_sorted a \<Longrightarrow> tx_sorted (dropWhile P a)"
  using tx_sorted_append [of "takeWhile P a" "dropWhile P a"] by simp

lemma tx_sorted_too_old:
  "tx_sorted h \<Longrightarrow> dropWhile (too_old len t) h = filter (\<lambda>p. \<not> too_old len t p) h"
proof -
  assume h: "tx_sorted h"
  have "sorted_wrt (\<lambda>x y. too_old len t y \<longrightarrow> too_old len t x) h"
    by (rule sorted_wrt_mono_rel [OF _ h [unfolded tx_sorted_def]]) (simp add: too_old_def)
  then show ?thesis using pop_while_sorted [of "too_old len t" h] by (simp add: pop_while_dropWhile)
qed

lemma hist_ok_tx: "hist_ok h b il \<Longrightarrow> tx_sorted h"
  by (simp add: hist_ok_def tx_sorted_def)

lemma measure_packet_ok:
  assumes h: "hist_ok (m_packetHistory s) (m_pktSizeSum s) (m_ilState s)"
    and sq: "seqs_back l (m_packetHistory s @ [p])" and tx: "tx_sorted (m_packetHistory s @ [p])"
    and fresh: "fresh_record p" and len: "len_ok (m_historyLengthUs s)"
    and fit: "uint (m_pktSizeSum s) + uint (psize (measured now rx s p)) < 2 ^ 32"
  obtains il b base where
    "measure_packet now rx p s = Inr (True, s\<lparr>m_baseDelayUs := base, m_ilState := il,
       m_lastRecvSequence := sequence p,
       m_packetHistory := filter (\<lambda>x. \<not> too_old (m_historyLengthUs s) (txTimestampUs p) x)
         (m_packetHistory s @ [measured now rx s p]),
       m_recvHistory := m_recvHistory s @ [measured now rx s p], m_pktSizeSum := b\<rparr>)"
    "hist_ok (filter (\<lambda>x. \<not> too_old (m_historyLengthUs s) (txTimestampUs p) x)
       (m_packetHistory s @ [measured now rx s p])) b il"
proof -
  let ?m = "measured now rx s p" and ?h = "m_packetHistory s"
  let ?len = "m_historyLengthUs s"
  let ?p1 = "p\<lparr>owdUs := rx - txTimestampUs p, rttUs := now - txTimestampUs p\<rparr>"
  obtain il where il: "updateInterLossData (?h = []) ?p1 (m_ilState s) = Inr il" "il_ok il"
      "expectedSeq il = sequence p + 1"
    using updateInterLossData_ok [OF h, of l ?p1] sq by (auto simp: seqs_back_def sorted_wrt_append)
  have bytes: "uint (m_pktSizeSum s + psize ?m) = pkt_bytes (?h @ [?m])"
    using h uint_plus_lt [of "m_pktSizeSum s"] fit by (simp add: hist_ok_def)
  have ts: "\<forall>x\<in>set (?h @ [?m]). ts_ok (txTimestampUs x)"
    using sq by (auto simp: seqs_back_def)
  have txm: "tx_sorted (?h @ [?m])" using tx by (simp add: tx_sorted_append)
  have lastm: "txTimestampUs (last (?h @ [?m])) = txTimestampUs p" by simp
  have ne: "?h @ [?m] \<noteq> []" by simp
  note gc = gc_history_eq [OF ne txm [unfolded tx_sorted_def] ts len bytes]
  from gc obtain b where b: "gc_history ?len (?h @ [?m]) (m_pktSizeSum s + psize ?m) =
      Inr (filter (\<lambda>x. \<not> too_old ?len (txTimestampUs p) x) (?h @ [?m]), b)"
      "uint b = pkt_bytes (filter (\<lambda>x. \<not> too_old ?len (txTimestampUs p) x) (?h @ [?m]))"
    unfolding lastm tx_sorted_too_old [OF txm] by (elim exE conjE) (rule that)
  have young: "\<not> too_old ?len (txTimestampUs p) ?m"
    using len by (simp add: too_old_def len_ok_def)
  have "hist_ok (filter (\<lambda>x. \<not> too_old ?len (txTimestampUs p) x) (?h @ [?m])) b il"
  proof -
    have "tx_sorted (filter (\<lambda>x. \<not> too_old ?len (txTimestampUs p) x) (?h @ [?m]))"
      by (subst tx_sorted_too_old [OF txm, symmetric]) (rule tx_sorted_dropWhile [OF txm])
    moreover have "last (filter (\<lambda>x. \<not> too_old ?len (txTimestampUs p) x) (?h @ [?m])) = ?m"
      using young by simp
    ultimately show ?thesis
      using b(2) il(2,3) unfolding hist_ok_def tx_sorted_def by (simp only: measured_sel simp_thms)
  qed
  moreover have p2: "?p1\<lparr>psize := intvl_pseudo_size now (m_lastRecvSequence s) (sequence ?p1)
      (m_PacketTransitHistory s)\<rparr> = ?m"
    by (simp add: measured_def)
  ultimately show ?thesis
    using fresh il(1) b(1) unfolding fresh_record_def
    by (intro that) (simp_all add: measure_packet_def Let_def measured_def)
qed


lemma gapless_nth:
  assumes "gapless l ps" "j < length ps"
  shows "behind l (sequence (ps ! j)) = int (length ps - 1 - j)"
proof -
  have "map (\<lambda>p. behind l (sequence p)) ps ! j = rev (map int [0..<length ps]) ! j"
    using assms(1) by (simp add: gapless_def)
  then show ?thesis using assms(2) by (simp add: rev_nth)
qed

lemma transit_split:
  assumes c: "gapless l ps" and b: "seqs_back l ps" and i: "i < length ps"
  shows "takeWhile (\<lambda>p. lessThan (sequence p) (sequence (ps ! i))) ps = take i ps"
    and "dropWhile (\<lambda>p. lessThan (sequence p) (sequence (ps ! i))) ps = drop i ps"
proof -
  have lt: "behind l (sequence (ps ! j)) < 32768" if "j < length ps" for j
    using b that by (simp add: seqs_back_def)
  have less: "lessThan (sequence (ps ! j)) (sequence (ps ! i)) \<longleftrightarrow> j < i" if "j < length ps" for j
    using lessThan_behind [of l "sequence (ps ! j)" "sequence (ps ! i)"] lt [OF that] lt [OF i]
      gapless_nth [OF c that] gapless_nth [OF c i] that i by auto
  show t: "takeWhile (\<lambda>p. lessThan (sequence p) (sequence (ps ! i))) ps = take i ps"
    using less i by (intro takeWhile_eq_take_P_nth) auto
  show "dropWhile (\<lambda>p. lessThan (sequence p) (sequence (ps ! i))) ps = drop i ps"
    using i by (simp add: dropWhile_eq_drop t)
qed

lemma drop_Cons: "i < length ps \<Longrightarrow> drop i ps = ps ! i # drop (Suc i) ps"
  by (rule Cons_nth_drop_Suc [symmetric])

text \<open>Feedback for the packet at place \<open>i\<close> of the packets in transit.\<close>

definition after_loss :: "nat \<Rightarrow> controller \<Rightarrow> controller" where
  "after_loss i s = s\<lparr>m_lost := word_of_nat i, loss_counter := loss_counter s + int i,
     m_inTransitPackets := drop (Suc i) (m_inTransitPackets s)\<rparr>"

lemma processFeedback_hit:
  assumes inv: "cc_inv s" and i: "i < length (m_inTransitPackets s)"
  defines "p \<equiv> m_inTransitPackets s ! i"
  shows "processFeedback now (sequence p) rx s = accept_packet now rx p (after_loss i s)"
proof -
  let ?t = "m_inTransitPackets s"
  have c: "gapless (m_lastSequence s) ?t" and b: "seqs_back (m_lastSequence s) ?t"
    using inv by (simp_all add: cc_inv_def seqs_back_append)
  have "?t \<noteq> []" using i by auto
  have "behind (m_lastSequence s) (sequence p) < 32768"
    using b i by (simp add: seqs_back_def p_def)
  then have past: "\<not> lessThan (m_lastSequence s) (sequence p)"
    using lessThan_behind [of "m_lastSequence s" "m_lastSequence s" "sequence p"]
      uint_ge_0 [of "m_lastSequence s - sequence p"] by simp
  note split = transit_split [OF c b i, folded p_def]
  have "p \<in> set ?t" using i by (simp add: p_def)
  then have ex: "\<exists>x\<in>set ?t. \<not> lessThan (sequence x) (sequence p)"
    by (intro bexI [of _ p]) simp_all
  have pop: "pop_lost (sequence p) ?t 0 (loss_counter s) =
      Inr (p # drop (Suc i) ?t, word_of_nat i, loss_counter s + int i)"
    unfolding pop_lost_eq [OF ex] split using i drop_Cons [OF i] by (simp add: p_def)
  show ?thesis
    using \<open>?t \<noteq> []\<close> past gapless_last [OF c] pop
    by (simp add: processFeedback_def after_loss_def Let_def)
qed

text \<open>The number exactly half the number space behind is neither older nor younger than the last packet sent. If that packet is
  the only one in transit, the search for the number ends at it, and the number is not its own.\<close>

definition half_behind :: "u16 \<Rightarrow> controller \<Rightarrow> bool" where
  "half_behind sq s \<longleftrightarrow> behind (m_lastSequence s) sq = 32768 \<and> length (m_inTransitPackets s) = 1"

lemma processFeedback_half:
  assumes inv: "cc_inv s" and half: "half_behind sq s"
  shows "processFeedback now sq rx s = Inl AssertFailed"
proof -
  obtain p where t: "m_inTransitPackets s = [p]"
    using half by (auto simp: half_behind_def length_Suc_conv)
  have c: "gapless (m_lastSequence s) [p]" using inv t by (simp add: cc_inv_def)
  have p: "sequence p = m_lastSequence s" using gapless_last [OF c] by simp
  have h: "uint (m_lastSequence s - sq) = 32768" using half by (simp add: half_behind_def)
  have "uint (sq - m_lastSequence s) = 32768"
    using uint_diff_behind [of sq "m_lastSequence s" "m_lastSequence s"] h by simp
  then have "\<not> lessThan (m_lastSequence s) sq" "\<not> lessThan sq (m_lastSequence s)" "sq \<noteq> m_lastSequence s"
    using h by (auto simp: lessThan_iff)
  then show ?thesis by (simp add: processFeedback_def t p)
qed

lemma processFeedback_miss:
  assumes inv: "cc_inv s" and past: "\<not> lessThan (m_lastSequence s) sq"
    and half: "\<not> half_behind sq s"
    and miss: "sq \<notin> set (map sequence (m_inTransitPackets s))"
  shows "processFeedback now sq rx s = Inr (True,
    if m_inTransitPackets s = [] then s else s\<lparr>m_lost := 0\<rparr>)"
proof (cases "m_inTransitPackets s = []")
  case True
  then show ?thesis using past by (simp add: processFeedback_def)
next
  case False
  let ?t = "m_inTransitPackets s" and ?l = "m_lastSequence s"
  have c: "gapless ?l ?t" and b: "seqs_back ?l ?t"
    using inv by (simp_all add: cc_inv_def seqs_back_append)
  have sq: "behind ?l sq \<le> 32768" by (rule not_lessThan_behind [OF past])
  have far: "int (length ?t) \<le> behind ?l sq"
  proof (rule ccontr)
    assume "\<not> int (length ?t) \<le> behind ?l sq"
    then have "behind ?l sq < int (length ?t)" by (simp only: not_le)
    then have lt: "nat (behind ?l sq) < length ?t"
      by (rule nat_less_iff [OF uint_ge_0, THEN iffD2])
    define j where "j = length ?t - 1 - nat (behind ?l sq)"
    have j: "j < length ?t" "length ?t - 1 - j = nat (behind ?l sq)"
      using lt False by (auto simp: j_def)
    have "behind ?l (sequence (?t ! j)) = behind ?l sq"
      using gapless_nth [OF c j(1)] unfolding j(2) by simp
    then have "sequence (?t ! j) = sq" by (rule behind_inj)
    then show False using miss j(1) by (metis length_map nth_map nth_mem)
  qed
  have all: "\<not> lessThan (sequence p) sq" if "p \<in> set ?t" for p
  proof -
    from that obtain j where j: "j < length ?t" "p = ?t ! j" by (auto simp: in_set_conv_nth)
    have "behind ?l (sequence p) < int (length ?t)"
      using gapless_nth [OF c j(1)] j by simp
    moreover have "behind ?l (sequence p) < 32768" using b that by (simp add: seqs_back_def)
    ultimately show ?thesis using far sq lessThan_behind [of ?l "sequence p" sq] by simp
  qed
  obtain p q where t: "?t = p # q" using False by (cases ?t) auto
  have "behind ?l (sequence p) < 32768" using b t by (simp add: seqs_back_def)
  moreover have "behind ?l (sequence p) < behind ?l sq"
    using c t far by (simp add: gapless_Cons)
  moreover have "behind ?l sq - behind ?l (sequence p) < 32768"
    using sq half c t by (cases q) (auto simp: half_behind_def gapless_Cons)
  ultimately have "lessThan sq (sequence p)" using sq by (intro behind_less)
  moreover have "sequence (last ?t) = ?l" using gapless_last [OF c False] .
  ultimately show ?thesis
    using past False all [of p] t by (simp add: processFeedback_def)
qed


definition obsolete :: "controller \<Rightarrow> PacketRecord \<Rightarrow> bool" where
  "obsolete s p \<longleftrightarrow> m_packetHistory s \<noteq> [] \<and>
     uint (txTimestampUs (last (m_packetHistory s))) + 500000 < uint (txTimestampUs p)"

definition kept_history :: "controller \<Rightarrow> PacketRecord \<Rightarrow> PacketRecord list" where
  "kept_history s p = (if obsolete s p then [] else m_packetHistory s)"

definition in_order :: "controller \<Rightarrow> PacketRecord \<Rightarrow> bool" where
  "in_order s p \<longleftrightarrow> (m_packetHistory s \<noteq> [] \<longrightarrow>
     uint (txTimestampUs (last (m_packetHistory s))) \<le> uint (txTimestampUs p))"

text \<open>The byte count of the history stays in 32 bits.\<close>

definition bytes_fit :: "u64 \<Rightarrow> controller \<Rightarrow> bool" where
  "bytes_fit now s \<longleftrightarrow> (\<forall>p\<in>set (m_inTransitPackets s).
     pkt_bytes (m_packetHistory s) + uint (intvl_pseudo_size now (m_lastRecvSequence s)
       (sequence p) (m_PacketTransitHistory s)) < 2 ^ 32)"

lemma accept_packet_cases:
  assumes inv: "cc_inv s" and p: "p \<in> set (m_inTransitPackets s)"
  shows "accept_packet now rx p (after_loss i s) =
    (if \<not> in_order s p then Inr (False, after_loss i s)
     else measure_packet now rx p ((after_loss i s)\<lparr>m_packetHistory := kept_history s p,
            m_pktSizeSum := (if obsolete s p then 0 else m_pktSizeSum s)\<rparr>))"
proof (cases "m_packetHistory s = []")
  case True
  then show ?thesis
    by (cases s) (simp add: accept_packet_def in_order_def kept_history_def obsolete_def after_loss_def)
next
  case False
  let ?t = "txTimestampUs (last (m_packetHistory s))"
  have ts: "ts_ok (txTimestampUs p)" "ts_ok ?t"
    using inv p False by (simp_all add: cc_inv_def seqs_back_append seqs_back_def)
  have "lessThan (txTimestampUs p) ?t \<longleftrightarrow> \<not> in_order s p"
    using lessThan_ts [OF ts] False by (auto simp: in_order_def)
  moreover have "lessThan (?t + MAX_INTER_PACKET_TIME_US) (txTimestampUs p) \<longleftrightarrow> obsolete s p"
    using lessThan_later [OF ts(2,1), of MAX_INTER_PACKET_TIME_US] False
    by (simp add: obsolete_def MAX_INTER_PACKET_TIME_US_def)
  ultimately show ?thesis
    using False by (simp add: accept_packet_def kept_history_def after_loss_def Let_def)
qed

lemma feedback_inv:
  assumes inv: "cc_inv s" and i: "i < length (m_inTransitPackets s)"
    and p: "p = m_inTransitPackets s ! i" and ord: "in_order s p" and fit: "bytes_fit now s"
  obtains il b base where
    "processFeedback now (sequence p) rx s = Inr (True, (after_loss i s)\<lparr>
       m_baseDelayUs := base, m_ilState := il, m_lastRecvSequence := sequence p,
       m_packetHistory := filter (\<lambda>x. \<not> too_old (m_historyLengthUs s) (txTimestampUs p) x)
         (kept_history s p @ [measured now rx s p]),
       m_recvHistory := m_recvHistory s @ [measured now rx s p], m_pktSizeSum := b\<rparr>)"
    "cc_inv ((after_loss i s)\<lparr>
       m_baseDelayUs := base, m_ilState := il, m_lastRecvSequence := sequence p,
       m_packetHistory := filter (\<lambda>x. \<not> too_old (m_historyLengthUs s) (txTimestampUs p) x)
         (kept_history s p @ [measured now rx s p]),
       m_recvHistory := m_recvHistory s @ [measured now rx s p], m_pktSizeSum := b\<rparr>)"
proof -
  let ?t = "m_inTransitPackets s" and ?l = "m_lastSequence s" and ?k = "kept_history s p"
  let ?s = "(after_loss i s)\<lparr>m_packetHistory := ?k,
    m_pktSizeSum := (if obsolete s p then 0 else m_pktSizeSum s)\<rparr>"
  have pin: "p \<in> set ?t" using i p by simp
  have split: "?t = take i ?t @ p # drop (Suc i) ?t"
    using id_take_nth_drop [OF i] p by simp
  have sb: "seqs_back ?l (m_packetHistory s @ ?t)" using inv by (simp add: cc_inv_def)
  then have "seqs_back ?l (?k @ take i ?t @ [p] @ drop (Suc i) ?t)"
    using split sb by (auto simp: kept_history_def seqs_back_append)
  then have b1: "seqs_back ?l (?k @ [p])" and b2: "seqs_back ?l ((?k @ [p]) @ drop (Suc i) ?t)"
    unfolding seqs_back_append by (blast | simp)+
  have "tx_sorted ?k" using inv by (auto simp: kept_history_def cc_inv_def intro: hist_ok_tx)
  then have tx: "tx_sorted (?k @ [p])"
    using ord by (intro tx_sorted_snoc) (auto simp: kept_history_def in_order_def)
  have h: "hist_ok ?k (m_pktSizeSum ?s) (m_ilState s)"
    using inv by (auto simp: kept_history_def cc_inv_def hist_ok_Nil hist_ok_def)
  have meas: "measured now rx ?s p = measured now rx s p"
    by (simp add: measured_def after_loss_def)
  have "uint (m_pktSizeSum ?s) \<le> pkt_bytes (m_packetHistory s)"
    using inv pkt_bytes_ge_0 by (auto simp: cc_inv_def hist_ok_def)
  moreover have "pkt_bytes (m_packetHistory s) + uint (psize (measured now rx s p)) < 2 ^ 32"
    using fit pin unfolding bytes_fit_def measured_psize by blast
  ultimately have fit': "uint (m_pktSizeSum ?s) + uint (psize (measured now rx ?s p)) < 2 ^ 32"
    unfolding meas by linarith
  have sel: "m_packetHistory ?s = ?k" "m_ilState ?s = m_ilState s"
    "m_historyLengthUs ?s = m_historyLengthUs s" "m_recvHistory ?s = m_recvHistory s"
    by (simp_all add: after_loss_def)
  have fresh: "fresh_record p" and len: "len_ok (m_historyLengthUs s)"
    using inv pin by (simp_all add: cc_inv_def list_all_iff)
  let ?h = "filter (\<lambda>x. \<not> too_old (m_historyLengthUs s) (txTimestampUs p) x)
         (?k @ [measured now rx s p])"
  obtain il b base where m: "measure_packet now rx p ?s = Inr (True, ?s\<lparr>m_baseDelayUs := base,
       m_ilState := il, m_lastRecvSequence := sequence p, m_packetHistory := ?h,
       m_recvHistory := m_recvHistory s @ [measured now rx s p], m_pktSizeSum := b\<rparr>)"
    and ok: "hist_ok ?h b il"
    using measure_packet_ok [of ?s ?l p now rx, unfolded sel meas, OF h b1 tx fresh len
      fit' [unfolded meas]] .
  show ?thesis
  proof (rule that)
    show "processFeedback now (sequence p) rx s = Inr (True, (after_loss i s)\<lparr>
       m_baseDelayUs := base, m_ilState := il, m_lastRecvSequence := sequence p,
       m_packetHistory := ?h,
       m_recvHistory := m_recvHistory s @ [measured now rx s p], m_pktSizeSum := b\<rparr>)"
      unfolding p processFeedback_hit [OF inv i] unfolding p [symmetric]
        accept_packet_cases [OF inv pin] using ord m by simp
  next
    have "seqs_back ?l ((?k @ [measured now rx s p]) @ drop (Suc i) ?t)"
      using b2 by (simp add: seqs_back_def sorted_wrt_append)
    then have "seqs_back ?l (dropWhile (too_old (m_historyLengthUs s) (txTimestampUs p))
        (?k @ [measured now rx s p]) @ drop (Suc i) ?t)"
      unfolding seqs_back_append [of _ _ "drop (Suc i) ?t"]
      using seqs_back_dropWhile set_dropWhileD by fast
    moreover have "tx_sorted (?k @ [measured now rx s p])"
      using tx by (simp add: tx_sorted_append)
    ultimately have "seqs_back ?l (?h @ drop (Suc i) ?t)"
      by (simp only: tx_sorted_too_old)
    moreover have "gapless ?l (drop (Suc i) ?t)"
    proof -
      have "gapless ?l (drop j ps)" if "gapless ?l ps" for j ps
        using that by (induction ps arbitrary: j) (auto simp: gapless_Cons drop_Cons' )
      then show ?thesis using inv by (simp add: cc_inv_def)
    qed
    moreover have "list_all fresh_record (drop (Suc i) ?t)"
      using inv by (auto simp: cc_inv_def list_all_iff dest: in_set_dropD)
    moreover have "\<not> m_firstSend s" using inv i by (auto simp: cc_inv_def)
    ultimately show "cc_inv ((after_loss i s)\<lparr>
       m_baseDelayUs := base, m_ilState := il, m_lastRecvSequence := sequence p,
       m_packetHistory := ?h,
       m_recvHistory := m_recvHistory s @ [measured now rx s p], m_pktSizeSum := b\<rparr>)"
      using ok len by (simp add: cc_inv_def after_loss_def)
  qed
qed


lemma after_loss_inv:
  assumes inv: "cc_inv s" and i: "i < length (m_inTransitPackets s)"
  shows "cc_inv (after_loss i s)"
proof -
  let ?t = "m_inTransitPackets s" and ?l = "m_lastSequence s"
  have "seqs_back ?l (m_packetHistory s @ take (Suc i) ?t @ drop (Suc i) ?t)"
    using inv by (simp add: cc_inv_def)
  then have "seqs_back ?l (m_packetHistory s @ drop (Suc i) ?t)"
    unfolding seqs_back_append by (auto dest: in_set_dropD)
  moreover have "gapless ?l (drop j ps)" if "gapless ?l ps" for j ps
    using that by (induction ps arbitrary: j) (auto simp: gapless_Cons drop_Cons')
  moreover have "\<not> m_firstSend s" using inv i by (auto simp: cc_inv_def)
  ultimately show ?thesis
    using inv by (auto simp: cc_inv_def after_loss_def list_all_iff dest: in_set_dropD)
qed

definition feedback_ok :: "u64 \<Rightarrow> u16 \<Rightarrow> controller \<Rightarrow> bool" where
  "feedback_ok now sq s \<longleftrightarrow> bytes_fit now s \<and> \<not> half_behind sq s"

lemma feedback_total:
  assumes inv: "cc_inv s" and ok: "feedback_ok now sq s"
  shows "\<exists>b s'. processFeedback now sq rx s = Inr (b, s') \<and> cc_inv s'"
proof (cases "lessThan (m_lastSequence s) sq")
  case True
  then show ?thesis using inv by (auto simp: processFeedback_def)
next
  case past: False
  show ?thesis
  proof (cases "sq \<in> set (map sequence (m_inTransitPackets s))")
    case False
    have "cc_inv (s\<lparr>m_lost := 0\<rparr>)" using inv by (simp add: cc_inv_def)
    then show ?thesis
      using processFeedback_miss [OF inv past _ False, of now rx] ok inv
      by (auto simp: feedback_ok_def)
  next
    case True
    then obtain i where i: "i < length (m_inTransitPackets s)"
        "sq = sequence (m_inTransitPackets s ! i)"
      by (auto simp: in_set_conv_nth)
    let ?p = "m_inTransitPackets s ! i"
    show ?thesis
    proof (cases "in_order s ?p")
      case True
      have "bytes_fit now s" using ok by (simp add: feedback_ok_def)
      then obtain b s' where "processFeedback now (sequence ?p) rx s = Inr (b, s')" "cc_inv s'"
        by (rule feedback_inv [OF inv i(1) refl True, of now rx])
      then show ?thesis unfolding i(2) by (intro exI conjI)
    next
      case False
      have "?p \<in> set (m_inTransitPackets s)" using i(1) by simp
      then have "processFeedback now sq rx s = Inr (False, after_loss i s)"
        unfolding i(2) processFeedback_hit [OF inv i(1)]
        using False by (simp add: accept_packet_cases [OF inv])
      then show ?thesis using after_loss_inv [OF inv i(1)] by auto
    qed
  qed
qed

section \<open>Runs\<close>

text \<open>The life of a controller in the hands of a sender that numbers its packets
  gaplessly.\<close>

inductive cc_run :: "rounding \<Rightarrow> controller \<Rightarrow> bool" for f where
  run_start: "cc_run f (SenderBasedController_new this)"
| run_length: "cc_run f s \<Longrightarrow> len_ok len \<Longrightarrow> cc_run f (setHistoryLength len s)"
| run_send: "cc_run f s \<Longrightarrow> send_ok tx sq s \<Longrightarrow> processSendPacket tx sq sz s = Inr (b, s')
    \<Longrightarrow> cc_run f s'"
| run_feedback: "cc_run f s \<Longrightarrow> feedback_ok now sq s
    \<Longrightarrow> processFeedback now sq rx s = Inr (b, s') \<Longrightarrow> cc_run f s'"
| run_loss: "cc_run f s \<Longrightarrow> cc_run f (UpdateLossRate q s)"
| run_prune: "cc_run f s \<Longrightarrow> PrunTransitHistory tar s = Inr s' \<Longrightarrow> cc_run f s'"
| run_rate: "cc_run f s \<Longrightarrow> getCurrentRecvRate f s = Inr (r, s') \<Longrightarrow> cc_run f s'"

lemma getCurrentRecvRate_frame:
  "getCurrentRecvRate f s = Inr (r, s') \<Longrightarrow> \<exists>h. s' = s\<lparr>m_recvHistory := h\<rparr>"
  by (auto simp: getCurrentRecvRate_def Let_def ns_assert_def
      dest!: res_bind_InrD split: if_splits option.splits)
     (((rule exI, rule refl) | (rule exI [of _ "m_recvHistory s"], simp))+)

lemma cc_run_inv: "cc_run f s \<Longrightarrow> cc_inv s"
proof (induction rule: cc_run.induct)
  case (run_start this)
  then show ?case by (rule cc_inv_new)
next
  case (run_length s len)
  then show ?case by (simp add: cc_inv_def setHistoryLength_def)
next
  case (run_send s tx sq sz b s')
  then show ?case
    using send_keeps_inv [OF run_send.IH run_send.hyps(2), of sz]
      processSendPacket_eq [OF run_send.hyps(2), of sz] by simp
next
  case (run_feedback s now sq rx b s')
  then show ?case using feedback_total [OF run_feedback.IH run_feedback.hyps(2), of rx] by auto
next
  case (run_loss s q)
  then show ?case by (simp add: cc_inv_def UpdateLossRate_def)
next
  case (run_prune s tar s')
  then show ?case
    by (auto simp: PrunTransitHistory_def cc_inv_def dest!: res_bind_InrD)
next
  case (run_rate s r s')
  then obtain h where "s' = s\<lparr>m_recvHistory := h\<rparr>" using getCurrentRecvRate_frame by blast
  then show ?case using run_rate.IH by (simp add: cc_inv_def)
qed


section \<open>What the metrics compute\<close>

lemma Min_insert_min:
  fixes m x :: "'a::linorder"
  shows "finite S \<Longrightarrow> Min (insert (min m x) S) = Min (insert m (insert x S))"
  by (cases "S = {}") (simp_all add: min.assoc)

lemma min_filter_pos:
  "0 < n \<Longrightarrow> n < ntab \<Longrightarrow> min_filter xs n m = Min (insert m (set (take (ntab - n) xs)))"
proof (induction xs n m rule: min_filter.induct)
  case (2 x xs n m)
  have step: "insert m (set (take (ntab - n) (x # xs))) =
      insert m (insert x (set (take (ntab - Suc n) xs)))"
  proof -
    have "ntab - n = Suc (ntab - Suc n)" using 2(3) by simp
    then show ?thesis by simp
  qed
  show ?case
  proof (cases "Suc n < ntab")
    case True
    then have "min_filter xs (n + 1) (min m x) = Min (insert (min m x) (set (take (ntab - Suc n) xs)))"
      using 2 by simp
    also have "\<dots> = Min (insert m (insert x (set (take (ntab - Suc n) xs))))"
      by (rule Min_insert_min) (rule finite_set)
    finally show ?thesis using True 2(2) unfolding step by (simp add: Let_def)
  next
    case False
    then have "ntab - Suc n = 0" by simp
    then show ?thesis using False 2(2) unfolding step by (simp add: Let_def)
  qed
qed simp

lemma min_filter_Min:
  assumes "xs \<noteq> []"
  shows "min_filter xs 0 0 = Min (set (take 15 xs))"
proof -
  obtain x ys where xs: "xs = x # ys" using assms by (cases xs) auto
  have "min_filter xs 0 0 = min_filter ys 1 x" by (simp add: xs ntab_def Let_def)
  also have "\<dots> = Min (insert x (set (take 14 ys)))"
    using min_filter_pos [of 1 ys x] by (simp add: ntab_def)
  finally show ?thesis by (simp add: xs)
qed

lemma card_behind:
  fixes l :: u16
  assumes "0 \<le> a" "b < 65536"
  shows "card {q. a \<le> behind l q \<and> behind l q \<le> b} = nat (b - a + 1)"
proof -
  have "bij_betw (\<lambda>q. behind l q) {q. a \<le> behind l q \<and> behind l q \<le> b} {a..b}"
  proof (rule bij_betw_byWitness [where f' = "\<lambda>n. l - word_of_int n"])
    show "(\<lambda>n. l - word_of_int n) ` {a..b} \<subseteq> {q. a \<le> behind l q \<and> behind l q \<le> b}"
      using assms by (auto simp: uint_word_of_int)
    show "\<forall>n\<in>{a..b}. behind l (l - word_of_int n) = n"
      using assms by (auto simp: uint_word_of_int)
  qed auto
  then show ?thesis by (simp add: bij_betw_same_card)
qed

lemma seqs_back_card:
  assumes "seqs_back l ps"
  shows "card (sequence ` set ps) = length ps"
proof -
  have "distinct (map sequence ps)"
    using assms by (induction ps) (auto simp: seqs_back_def)
  then show ?thesis by (metis distinct_card length_map set_map)
qed

lemma seqs_back_between:
  assumes "seqs_back l ps" "p \<in> set ps"
  shows "behind l (sequence (last ps)) \<le> behind l (sequence p)"
    and "behind l (sequence p) \<le> behind l (sequence (hd ps))"
proof -
  show "behind l (sequence p) \<le> behind l (sequence (hd ps))"
    using assms by (cases ps) (auto simp: seqs_back_def)
  show "behind l (sequence (last ps)) \<le> behind l (sequence p)"
    using assms by (cases ps rule: rev_cases) (auto simp: seqs_back_def sorted_wrt_append)
qed

text \<open>The sequence numbers from the oldest to the newest packet of the history.\<close>

definition covered :: "controller \<Rightarrow> u16 set" where
  "covered s = {q. behind (m_lastSequence s) (sequence (last (m_packetHistory s)))
       \<le> behind (m_lastSequence s) q \<and> behind (m_lastSequence s) q
       \<le> behind (m_lastSequence s) (sequence (hd (m_packetHistory s)))}"

lemma uint_diff_succ:
  fixes x y :: u16
  assumes "uint y \<le> uint x" "uint x < 32768"
  shows "uint (x - y + 1) = uint x - uint y + 1"
proof -
  have d: "uint (x - y) = uint x - uint y"
    using assms(1) by (simp add: uint_minus_simple_alt [symmetric] word_le_def)
  have "uint (x - y + 1) = (uint (x - y) + 1) mod 65536"
    unfolding uint_word_ariths(1) by simp
  also have "\<dots> = uint (x - y) + 1"
    using d assms(2) uint_ge_0 [of "x - y"] uint_ge_0 [of y]
    by (intro mod_pos_pos_trivial) linarith+
  finally show ?thesis unfolding d .
qed

lemma seqSpan_card:
  assumes inv: "cc_inv s" and ne: "m_packetHistory s \<noteq> []"
  shows "unat (1 + sequence (last (m_packetHistory s)) - sequence (hd (m_packetHistory s)))
      = card (covered s)"
    and "length (m_packetHistory s) \<le> card (covered s)"
    and "card (covered s - sequence ` set (m_packetHistory s))
      = card (covered s) - length (m_packetHistory s)"
    and "card (covered s) \<le> 32768"
proof -
  let ?h = "m_packetHistory s" and ?l = "m_lastSequence s"
  let ?a = "behind ?l (sequence (last ?h))" and ?b = "behind ?l (sequence (hd ?h))"
  have sb: "seqs_back ?l ?h" using inv by (simp add: cc_inv_def seqs_back_append)
  have b: "?b < 32768" using sb ne by (simp add: seqs_back_def)
  have ab: "?a \<le> ?b" using seqs_back_between(1) [OF sb, of "hd ?h"] ne by simp
  have card: "card (covered s) = nat (?b - ?a + 1)"
    unfolding covered_def using b by (intro card_behind) simp_all
  have "?b - ?a + 1 \<le> 32768" using b uint_ge_0 [of "?l - sequence (last ?h)"] by linarith
  then show "card (covered s) \<le> 32768" by (simp only: card nat_le_iff of_nat_numeral)
  have "1 + sequence (last ?h) - sequence (hd ?h) =
      (?l - sequence (hd ?h)) - (?l - sequence (last ?h)) + 1" by simp
  then have "uint (1 + sequence (last ?h) - sequence (hd ?h)) =
      uint ((?l - sequence (hd ?h)) - (?l - sequence (last ?h)) + 1)" by (rule arg_cong)
  also have "\<dots> = ?b - ?a + 1"
    by (rule uint_diff_succ [OF ab b])
  finally show "unat (1 + sequence (last ?h) - sequence (hd ?h)) = card (covered s)"
    unfolding card unat_eq_nat_uint by (rule arg_cong)
  have sub: "sequence ` set ?h \<subseteq> covered s"
    using seqs_back_between [OF sb] by (auto simp: covered_def)
  have fin: "finite (covered s)" by (rule finite)
  show "length ?h \<le> card (covered s)"
    using card_mono [OF fin sub] seqs_back_card [OF sb] by simp
  show "card (covered s - sequence ` set ?h) = card (covered s) - length ?h"
    using card_Diff_subset [OF _ sub] seqs_back_card [OF sb] by simp
qed

lemma getPktLossInfo_eq:
  assumes inv: "cc_inv s" and ne: "m_packetHistory s \<noteq> []"
  shows "\<exists>n plr span. getPktLossInfo f s = Inr (Some (n, plr, span)) \<and>
     unat span = card (covered s) \<and>
     unat n = card (covered s - sequence ` set (m_packetHistory s)) \<and>
     plr = f (f (of_int (uint n)) / f (of_int (uint span)))"
proof -
  let ?h = "m_packetHistory s"
  let ?w = "1 + sequence (last ?h) - sequence (hd ?h)"
  let ?n = "ucast ?w - word_of_nat (length ?h) :: u32"
  note card = seqSpan_card [OF inv ne]
  have len: "\<not> length ?h < MIN_PACKET_LOGLEN"
    using ne by (simp add: MIN_PACKET_LOGLEN_def Suc_le_eq)
  have le: "length ?h \<le> unat ?w" using card by simp
  have small: "unat (word_of_nat (length ?h) :: u32) = length ?h"
    using card by (intro unat_word_of_nat_32) linarith
  have "unat ?n = unat (ucast ?w :: u32) - unat (word_of_nat (length ?h) :: u32)"
    using le by (intro unat_sub) (simp add: word_le_nat_alt small)
  also have "\<dots> = card (covered s - sequence ` set ?h)"
    unfolding small card(3) unat_widen card(1) ..
  finally have n: "unat ?n = card (covered s - sequence ` set ?h)" .
  have eq: "getPktLossInfo f s = Inr (Some (?n, f (f (of_int (uint ?n)) / f (of_int (uint ?w))),
      ucast ?w))"
    using len le by (simp only: getPktLossInfo_def Let_def if_False ns_assert_True)
  have span: "unat (ucast ?w :: u32) = card (covered s)" using card(1) by (simp only: unat_widen)
  show ?thesis
    by (rule exI [of _ ?n], rule exI [of _ "f (f (of_int (uint ?n)) / f (of_int (uint ?w)))"],
        rule exI [of _ "ucast ?w"]) (simp only: eq span n uint_widen simp_thms)
qed


section \<open>An example\<close>

text \<open>Two packets, 7 and 8, have been sent; then the feedback for 8 has come.\<close>

definition example_sent :: controller where
  "example_sent = (SenderBasedController_new ''cc'')\<lparr>m_firstSend := False, m_lastSequence := 8,
     m_PacketTransitHistory := [sent_record 1000 7 1200, sent_record 2000 8 1200],
     m_inTransitPackets := [sent_record 1000 7 1200, sent_record 2000 8 1200]\<rparr>"

definition example_heard :: controller where
  "example_heard = example_sent\<lparr>m_baseDelayUs := 500, m_inTransitPackets := [],
     m_ilState := \<lparr>intervals = [1], expectedSeq = 9, initialized = False\<rparr>,
     m_packetHistory := [\<lparr>sequence = 8, txTimestampUs = 2000, psize = 2400, owdUs = 500,
        rttUs = 3000\<rparr>], m_pktSizeSum := 2400\<rparr>"

lemma example_sent_fields:
  "\<not> m_firstSend example_sent" "m_lastSequence example_sent = 8" "m_packetHistory example_sent = []"
  "m_PacketTransitHistory example_sent = [sent_record 1000 7 1200, sent_record 2000 8 1200]"
  "m_inTransitPackets example_sent = [sent_record 1000 7 1200, sent_record 2000 8 1200]"
  "m_pktSizeSum example_sent = 0" "m_ilState example_sent = InterLossState_new"
  "m_historyLengthUs example_sent = 500000" "m_lastRecvSequence example_sent = 0"
  by (simp_all add: example_sent_def SenderBasedController_new_def DEFAULT_HISTORY_LENGTH_US_def)

lemma example_sent_inv: "cc_inv example_sent"
  by (simp add: cc_inv_def example_sent_fields seqs_back_def gapless_def hist_ok_Nil il_ok_new
      len_ok_def ts_ok_def upt_rec)

lemma example_heard_inv: "cc_inv example_heard"
  by (simp add: cc_inv_def example_heard_def example_sent_fields seqs_back_def gapless_def
      hist_ok_def il_ok_def len_ok_def ts_ok_def)

text \<open>The controller after packet 7.\<close>

definition example_one :: controller where
  "example_one = (SenderBasedController_new ''cc'')\<lparr>m_firstSend := False, m_lastSequence := 7,
     m_PacketTransitHistory := [sent_record 1000 7 1200],
     m_inTransitPackets := [sent_record 1000 7 1200]\<rparr>"

lemma example_one_fields:
  "\<not> m_firstSend example_one" "m_lastSequence example_one = 7" "m_packetHistory example_one = []"
  "m_PacketTransitHistory example_one = [sent_record 1000 7 1200]"
  "m_inTransitPackets example_one = [sent_record 1000 7 1200]"
  by (simp_all add: example_one_def SenderBasedController_new_def)

lemma example_young: "\<not> stale_in_transit 1000 (sent_record 1000 7 1200)" "\<not> stale_in_transit 2000 (sent_record 1000 7 1200)"
  by (simp_all add: stale_in_transit_def lessThan_def MAX_INTER_PACKET_TIME_US_def)

lemma example_one_run: "cc_run f example_one"
proof -
  let ?s0 = "SenderBasedController_new ''cc''"
  have f0: "m_firstSend ?s0" "m_packetHistory ?s0 = []" "m_inTransitPackets ?s0 = []"
    "m_PacketTransitHistory ?s0 = []"
    by (simp_all add: SenderBasedController_new_def)
  have ok0: "send_ok 1000 7 ?s0" by (simp add: send_ok_def f0 ts_ok_def)
  have "processSendPacket 1000 7 1200 ?s0 = Inr (True, example_one)"
    using processSendPacket_eq [OF ok0, of 1200] example_young by (simp add: f0 example_one_def)
  with run_send [OF run_start ok0] show ?thesis by blast
qed

lemma example_sent_run: "cc_run f example_sent"
proof -
  have ok1: "send_ok 2000 8 example_one" by (simp add: send_ok_def example_one_fields ts_ok_def)
  have "processSendPacket 2000 8 1200 example_one = Inr (True, example_sent)"
    using processSendPacket_eq [OF ok1, of 1200] example_young
    by (simp add: example_one_fields) (simp add: example_sent_def example_one_def)
  with run_send [OF example_one_run ok1] show ?thesis by blast
qed

lemma example_one_fit: "bytes_fit now example_one"
  using uint_lt2p [of "intvl_pseudo_size now (m_lastRecvSequence example_one) 7 (m_PacketTransitHistory example_one)"]
  by (simp add: bytes_fit_def example_one_fields pkt_bytes_def)

lemma example_send_ok: "send_ok 3000 9 example_sent"
  by (simp add: send_ok_def example_sent_fields ts_ok_def)

lemma example_fit: "bytes_fit 5000 example_sent"
  by (simp add: bytes_fit_def example_sent_fields intvl_pseudo_size_def counts_for_def)

lemma example_feedback_ok: "feedback_ok 5000 8 example_sent"
  by (simp add: feedback_ok_def half_behind_def example_fit example_sent_fields)

section \<open>Properties\<close>

text \<open>C10: exactly where the controller aborts on a sender that numbers its packets gaplessly. In every reachable state the next packet is sent,
  unless its number is still in the transit history, which is used after an erasure. Feedback with any
  sequence number and any timestamp returns (no assertion fails, no empty deque is read), unless exactly one packet
  is in transit and the number lies exactly half the number space behind it, where an assertion fails.
  The loss metrics are always defined. Assumed are timestamps of packets below \<open>2 ^ 62\<close>, fewer than \<open>2 ^ 15\<close> packets since the oldest one on
  record, and, for feedback, a history of less than \<open>2 ^ 32\<close> bytes.\<close>

theorem controller_aborts_exactly:
  assumes "cc_run f s"
  shows "(send_due tx sq s \<longrightarrow>
      (if sq \<in> set (map sequence (m_PacketTransitHistory s))
       then processSendPacket tx sq sz s = Inl UndefinedBehaviour
       else \<exists>s'. processSendPacket tx sq sz s = Inr (True, s') \<and> cc_run f s')) \<and>
    (bytes_fit now s \<longrightarrow>
      (if behind (m_lastSequence s) sq' = 32768 \<and> length (m_inTransitPackets s) = 1
       then processFeedback now sq' rx s = Inl AssertFailed
       else \<exists>b s'. processFeedback now sq' rx s = Inr (b, s') \<and> cc_run f s')) \<and>
    (\<exists>r. getPktLossInfo f s = Inr r) \<and> (\<exists>r. getLossIntervalInfo f s = Inr r)"
proof (intro conjI impI)
  have inv: "cc_inv s" using assms by (rule cc_run_inv)
  show "if sq \<in> set (map sequence (m_PacketTransitHistory s)) then processSendPacket tx sq sz s = Inl UndefinedBehaviour
      else \<exists>s'. processSendPacket tx sq sz s = Inr (True, s') \<and> cc_run f s'" if due: "send_due tx sq s"
  proof (cases "sq \<in> set (map sequence (m_PacketTransitHistory s))")
    case False
    then have "send_ok tx sq s" using due by (simp add: send_ok_due)
    then show ?thesis
      using False processSendPacket_eq [of tx sq s sz] run_send [OF assms, of tx sq sz] by auto
  qed (use processSendPacket_reused [OF due] in simp)
  show "if behind (m_lastSequence s) sq' = 32768 \<and> length (m_inTransitPackets s) = 1
      then processFeedback now sq' rx s = Inl AssertFailed
      else \<exists>b s'. processFeedback now sq' rx s = Inr (b, s') \<and> cc_run f s'" if fit: "bytes_fit now s"
  proof (cases "half_behind sq' s")
    case False
    then have ok: "feedback_ok now sq' s" using fit by (simp add: feedback_ok_def)
    then show ?thesis
      using False feedback_total [OF inv ok, of rx] run_feedback [OF assms ok] by (auto simp: half_behind_def)
  qed (use processFeedback_half [OF inv] in \<open>simp add: half_behind_def\<close>)
  show "\<exists>r. getPktLossInfo f s = Inr r"
  proof (cases "m_packetHistory s = []")
    case True
    then show ?thesis by (simp add: getPktLossInfo_def MIN_PACKET_LOGLEN_def)
  next
    case False
    from getPktLossInfo_eq [OF inv this, of f] show ?thesis by blast
  qed
  have "il_ok (m_ilState s)" using inv by (simp add: cc_inv_def hist_ok_def)
  then show "\<exists>r. getLossIntervalInfo f s = Inr r"
    by (auto simp: getLossIntervalInfo_def il_ok_def Let_def ns_assert_def)
qed

lemma controller_aborts_exactly_witness:
  "(\<exists>s'. processSendPacket 3000 9 1200 example_sent = Inr (True, s') \<and> cc_run (\<lambda>x. x) s') \<and>
   (\<exists>b s'. processFeedback 5000 8 2500 example_sent = Inr (b, s') \<and> cc_run (\<lambda>x. x) s') \<and>
   cc_run (\<lambda>x. x) example_one \<and> processFeedback 5000 32775 2500 example_one = Inl AssertFailed"
proof (intro conjI)
  have s: "send_due 3000 9 example_sent" "9 \<notin> set (map sequence (m_PacketTransitHistory example_sent))"
    using example_send_ok by (simp_all add: send_ok_due)
  have b: "bytes_fit 5000 example_sent" "\<not> half_behind 8 example_sent"
    using example_feedback_ok by (simp_all add: feedback_ok_def)
  note all = controller_aborts_exactly [OF example_sent_run [of "\<lambda>x. x"], where tx = 3000 and sq = 9 and sz = 1200
        and now = 5000 and sq' = 8 and rx = 2500]
  show "\<exists>s'. processSendPacket 3000 9 1200 example_sent = Inr (True, s') \<and> cc_run (\<lambda>x. x) s'"
    using all s by (simp split: if_splits)
  show "\<exists>b s'. processFeedback 5000 8 2500 example_sent = Inr (b, s') \<and> cc_run (\<lambda>x. x) s'"
    using all b unfolding half_behind_def by (simp split: if_splits)
  show "cc_run (\<lambda>x. x) example_one" by (rule example_one_run)
  show "processFeedback 5000 32775 2500 example_one = Inl AssertFailed"
    using controller_aborts_exactly [OF example_one_run [of "\<lambda>x. x"], where now = 5000 and sq' = 32775 and rx = 2500]
      example_one_fit [of 5000] by (simp add: example_one_fields)
qed

text \<open>Feedback for the packet at place \<open>i\<close> of those in transit takes the \<open>i\<close> packets
  before it for lost, forgets them and the packet, and records it with its one-way delay, its round
  trip time and its adjusted size in the history, from which it drops exactly what was sent
  a history length or more before it (everything when half a second passed without feedback).\<close>

theorem feedback_records_packet:
  assumes "cc_inv s" "i < length (m_inTransitPackets s)" "p = m_inTransitPackets s ! i"
    "in_order s p" "bytes_fit now s"
  shows "\<exists>s'. processFeedback now (sequence p) rx s = Inr (True, s') \<and> cc_inv s' \<and>
    m_inTransitPackets s' = drop (Suc i) (m_inTransitPackets s) \<and>
    m_lost s' = word_of_nat i \<and> loss_counter s' = loss_counter s + int i \<and>
    m_packetHistory s' = filter (\<lambda>x. \<not> too_old (m_historyLengthUs s) (txTimestampUs p) x)
      (kept_history s p @ [measured now rx s p]) \<and>
    m_recvHistory s' = m_recvHistory s @ [measured now rx s p] \<and>
    m_lastRecvSequence s' = sequence p \<and>
    uint (m_pktSizeSum s') = pkt_bytes (m_packetHistory s')"
proof -
  obtain il b base s' where e: "processFeedback now (sequence p) rx s = Inr (True, s')"
    and inv: "cc_inv s'"
    and s': "s' = (after_loss i s)\<lparr>
       m_baseDelayUs := base, m_ilState := il, m_lastRecvSequence := sequence p,
       m_packetHistory := filter (\<lambda>x. \<not> too_old (m_historyLengthUs s) (txTimestampUs p) x)
         (kept_history s p @ [measured now rx s p]),
       m_recvHistory := m_recvHistory s @ [measured now rx s p], m_pktSizeSum := b\<rparr>"
    using feedback_inv [OF assms, of rx] by metis
  have "uint (m_pktSizeSum s') = pkt_bytes (m_packetHistory s')"
    using inv by (simp add: cc_inv_def hist_ok_def)
  then show ?thesis
    using e inv by (intro exI [of _ s'] conjI) (simp_all add: s' after_loss_def)
qed

lemma feedback_records_packet_witness:
  "\<exists>s'. processFeedback 5000 8 2500 example_sent = Inr (True, s') \<and>
     m_lost s' = 1 \<and> m_inTransitPackets s' = []"
proof -
  have i: "1 < length (m_inTransitPackets example_sent)"
    "sent_record 2000 8 1200 = m_inTransitPackets example_sent ! 1"
    "in_order example_sent (sent_record 2000 8 1200)"
    by (simp_all add: example_sent_fields in_order_def)
  show ?thesis
    using feedback_records_packet [OF example_sent_inv i example_fit, of 2500]
    by (auto simp: example_sent_fields)
qed

text \<open>C11: the loss metric counts exactly the sequence numbers between the oldest and the newest
  packet of the history that are missing from it, and relates them to all of them.\<close>

theorem loss_info_exact:
  assumes "cc_inv s" "m_packetHistory s \<noteq> []"
  shows "\<exists>n plr span. getPktLossInfo f s = Inr (Some (n, plr, span)) \<and>
    unat span = card (covered s) \<and>
    unat n = card (covered s - sequence ` set (m_packetHistory s)) \<and>
    plr = f (f (of_int (uint n)) / f (of_int (uint span)))"
  using assms by (rule getPktLossInfo_eq)

lemma loss_info_exact_witness:
  "\<exists>n plr span. getPktLossInfo (\<lambda>x. x) example_heard = Inr (Some (n, plr, span)) \<and>
     unat span = card (covered example_heard)"
  using loss_info_exact [OF example_heard_inv, of "\<lambda>x. x"] by (auto simp: example_heard_def)

text \<open>C12: queuing delay and round trip time are the minimum over the last 15 packets of the
  history, whatever the history.\<close>

theorem metrics_are_minima:
  "getCurrentQdelay s = (if m_packetHistory s = [] then None else
     Some (Min ((\<lambda>p. owdUs p - m_baseDelayUs s) ` set (take 15 (rev (m_packetHistory s)))))) \<and>
   getCurrentRTT s = (if m_packetHistory s = [] then None else
     Some (Min (rttUs ` set (take 15 (rev (m_packetHistory s))))))"
proof (cases "m_packetHistory s = []")
  case True
  then show ?thesis by (simp add: getCurrentQdelay_def getCurrentRTT_def)
next
  case False
  have "min_filter (map g (rev (m_packetHistory s))) 0 0 =
      Min (g ` set (take 15 (rev (m_packetHistory s))))" for g
    using min_filter_Min [of "map g (rev (m_packetHistory s))"] False
    by (simp only: map_is_Nil_conv rev_is_Nil_conv not_False_eq_True take_map set_map)
  then show ?thesis using False by (simp only: getCurrentQdelay_def getCurrentRTT_def if_False simp_thms)
qed

text \<open>A packet with a wrong sequence number makes \<open>processSendPacket\<close> return false, but its
  counter has moved on: with packets in transit, the next feedback for anything sent fails the
  assertion that the newest one carries the counter.\<close>

theorem illegal_sequence_breaks_feedback:
  assumes inv: "cc_inv s" and "m_inTransitPackets s \<noteq> []"
    and wrong: "sq \<noteq> m_lastSequence s + 1" and sent: "p \<in> set (m_inTransitPackets s)"
  shows "\<exists>s'. processSendPacket tx sq sz s = Inr (False, s') \<and>
    processFeedback now (sequence p) rx s' = Inl AssertFailed"
proof -
  let ?l = "m_lastSequence s"
  have nf: "\<not> m_firstSend s" using inv assms(2) by (auto simp: cc_inv_def)
  have c: "gapless ?l (m_inTransitPackets s)" using inv by (simp add: cc_inv_def)
  have b: "behind ?l (sequence p) < 32768"
    using inv sent by (simp add: cc_inv_def seqs_back_append seqs_back_def)
  then have "behind (?l + 1) (sequence p) = behind ?l (sequence p) + 1" by (intro behind_succ) linarith
  then have "behind (?l + 1) (sequence p) \<le> 32768" using b by linarith
  then have "\<not> lessThan (?l + 1) (sequence p)"
    using lessThan_behind [of "?l + 1" "?l + 1" "sequence p"] by simp
  moreover have "sequence (last (m_inTransitPackets s)) \<noteq> ?l + 1"
    using gapless_last [OF c assms(2)] by simp
  ultimately show ?thesis
    using nf wrong assms(2) by (simp add: processSendPacket_def processFeedback_def Let_def)
qed

lemma illegal_sequence_breaks_feedback_witness:
  "\<exists>s'. processSendPacket 3000 20 1200 example_sent = Inr (False, s') \<and>
    processFeedback 5000 8 2500 s' = Inl AssertFailed"
  using illegal_sequence_breaks_feedback [OF example_sent_inv, of 20 "sent_record 2000 8 1200"
      3000 1200 5000 2500] by (simp add: example_sent_fields)

text \<open>\<open>reset\<close> keeps the packet history although it forgets what belongs to it: a packet sent
  afterwards, within half a second of the last one on record and with a sequence number in the
  upper half, is accepted, and its feedback fails the assertion on the loss intervals.\<close>

theorem reset_then_feedback_aborts:
  assumes h: "m_packetHistory s \<noteq> []" and ts: "ts_ok (txTimestampUs (last (m_packetHistory s)))"
    and tx: "ts_ok tx" "uint (txTimestampUs (last (m_packetHistory s))) \<le> uint tx"
      "uint tx \<le> uint (txTimestampUs (last (m_packetHistory s))) + 500000"
    and sq: "32768 \<le> uint sq" "sq \<notin> set (map sequence (m_PacketTransitHistory s))"
  shows "\<exists>s'. processSendPacket tx sq sz (reset this s) = Inr (True, s') \<and>
    processFeedback now sq rx s' = Inl AssertFailed"
proof -
  let ?s = "reset this s" and ?r = "sent_record tx sq sz"
  let ?t = "txTimestampUs (last (m_packetHistory s))"
  let ?s' = "?s\<lparr>m_firstSend := False, m_lastSequence := sq,
    m_PacketTransitHistory := m_PacketTransitHistory ?s @ [?r], m_inTransitPackets := [?r]\<rparr>"
  have "drop_until_young (stale_in_transit tx) [?r] = Inr [?r]"
    using stale_never_newest [OF tx(1)] by simp
  then have send: "processSendPacket tx sq sz ?s = Inr (True, ?s')"
    using sq(2) by (simp add: processSendPacket_def reset_def erase_same_def sent_record_def Let_def)
  have "\<not> lessThan tx ?t" using lessThan_ts [OF tx(1) ts] tx(2) by simp
  moreover have "\<not> lessThan (?t + MAX_INTER_PACKET_TIME_US) tx"
    using lessThan_later [OF ts tx(1), of MAX_INTER_PACKET_TIME_US] tx(3)
    by (simp add: MAX_INTER_PACKET_TIME_US_def)
  moreover have "sq \<noteq> 0" "\<not> lessThan 0 sq" using sq(1) by (auto simp: lessThan_iff)
  ultimately have "processFeedback now sq rx ?s' = Inl AssertFailed"
    using h by (simp add: processFeedback_def accept_packet_def measure_packet_def Let_def
        reset_def updateInterLossData_def InterLossState_new_def
        sent_record_def)
  then show ?thesis using send by blast
qed

lemma reset_then_feedback_aborts_witness:
  "\<exists>s'. processSendPacket 3000 40000 1200 (reset ''cc'' example_heard) = Inr (True, s') \<and>
    processFeedback 5000 40000 4000 s' = Inl AssertFailed"
  by (rule reset_then_feedback_aborts)
     (simp_all add: example_heard_def example_sent_fields ts_ok_def)

end
