(* ===== verification/Copa.thy ===== *)
theory Copa
  imports Prelude
begin

text \<open>
  \<open>internet/model/tcp-copa.\{h,cc\}\<close>: the Copa congestion control for TCP. Every acknowledgement
  goes through \<open>CongControl\<close>; at most once per half round trip time it measures the queueing
  delay, compares the current rate with the target rate, moves the window and sets the pacing rate.

  The windowed minimum filters of ns-3 and the product of a double and a \<open>Time\<close> are an
  argument \<open>L\<close>; the socket state is the part of ns-3's \<open>TcpSocketState\<close> that the code reads
  and writes. Doubles that may be infinite or not a number are values of \<open>fp\<close>.
\<close>

section \<open>Doubles that leave the finite range\<close>

datatype fp = Fin rat | PosInf | NaN

text \<open>The quotient of two doubles that are not negative.\<close>

definition fdiv :: "rounding \<Rightarrow> rat \<Rightarrow> rat \<Rightarrow> fp" where
  "fdiv f x y = (if y \<noteq> 0 then Fin (f (x / y)) else if x > 0 then PosInf else NaN)"

fun fp_ge :: "fp \<Rightarrow> fp \<Rightarrow> bool" where
  "fp_ge (Fin x) (Fin y) = (x \<ge> y)"
| "fp_ge PosInf NaN = False"
| "fp_ge PosInf _ = True"
| "fp_ge _ _ = False"

fun fp_scale :: "rounding \<Rightarrow> fp \<Rightarrow> rat \<Rightarrow> fp" where
  "fp_scale f (Fin x) c = Fin (f (x * c))"
| "fp_scale f PosInf c = PosInf"
| "fp_scale f NaN c = NaN"

text \<open>The conversion to an unsigned integer of \<open>w\<close> bits is undefined out of its range.\<close>

fun fp_to_uint :: "nat \<Rightarrow> fp \<Rightarrow> int res" where
  "fp_to_uint w (Fin x) =
     (if 0 \<le> trunc x \<and> trunc x < 2 ^ w then Inr (trunc x) else Inl UndefinedBehaviour)"
| "fp_to_uint w _ = Inl UndefinedBehaviour"

definition dbl :: "rounding \<Rightarrow> 'a::len word \<Rightarrow> rat" where
  "dbl f w = f (of_int (uint w))"

section \<open>What ns-3 provides\<close>

record 'w copa_lib =
  wf_new :: "u64 \<Rightarrow> time \<Rightarrow> u64 \<Rightarrow> 'w"
  wf_update :: "time \<Rightarrow> u64 \<Rightarrow> 'w \<Rightarrow> 'w"
  wf_set_length :: "u64 \<Rightarrow> 'w \<Rightarrow> 'w"
  wf_best :: "'w \<Rightarrow> time"
  wf_reset :: "time \<Rightarrow> u64 \<Rightarrow> 'w \<Rightarrow> 'w"
  scale_time :: "rat \<Rightarrow> time \<Rightarrow> time"

record tcp_socket_state =
  tcb_pacing :: bool
  tcb_ssThresh :: u32
  tcb_segmentSize :: u32
  tcb_cWnd :: u32
  tcb_lastRtt :: time
  tcb_pacingRate :: u64
  tcb_maxPacingRate :: u64

record rate_sample =
  rs_rtt :: time
  rs_ackedSacked :: u32
  rs_bytesLoss :: u32

section \<open>State\<close>

definition kMinCwndSegment :: u32 where "kMinCwndSegment = 4"
definition kRTTWindowLength :: time where "kRTTWindowLength = MilliSeconds 10000"
definition kSrttWindowLength :: time where "kSrttWindowLength = MilliSeconds 100"

datatype Direction = DirNone | Up | Down

record VelocityState =
  velocity :: u64
  direction :: Direction
  numTimesDirectionSame :: u64
  lastRecordedCwndBytes :: u64
  lastCwndRecordTime :: time
  time_since_direction :: time

definition VelocityState_init :: VelocityState where
  "VelocityState_init = \<lparr>velocity = 1, direction = DirNone, numTimesDirectionSame = 0,
     lastRecordedCwndBytes = 0, lastCwndRecordTime = 0, time_since_direction = 0\<rparr>"

datatype CopaMode = Default | TCPCoop | TCPLoss

record 'w copa =
  m_bitrate :: fp
  m_minRttFilter :: 'w
  m_standingRttFilter :: 'w
  m_useRttStanding :: bool
  m_isSlowStart :: bool
  m_deltaParam :: rat
  m_lastCwndDoubleTime :: time
  m_velocityState :: VelocityState
  m_ackBytesRound :: u32
  copa_rtts :: "u64 list"
  copa_times :: "u64 list"
  copa_increase :: "u64 list"
  copa_max_time :: u64
  copa_num_increase :: int
  m_copaCurMode :: CopaMode
  m_copaModeSwitch :: bool
  kCopaDefaultDelta :: rat
  m_TotalAckedBytes :: u32
  m_curNumAcked :: u32
  m_curNumLosses :: u32
  m_reportAckedBytes :: u32
  m_reportLostBytes :: u32
  m_prevLossCycle :: time
  m_prevLossRate :: rat
  kReportIntervalRtt :: rat
  m_lastReportTime :: time

text \<open>What both constructors set; \<open>raw\<close> is the memory of the object, which the fields they do not
  name keep: the bit rate, \<open>copa_max_time\<close>, the mode switch and the bytes acknowledged.\<close>

definition copa_init :: "'w copa_lib \<Rightarrow> 'w copa \<Rightarrow> 'w copa" where
  "copa_init L raw = raw\<lparr>
     m_minRttFilter := wf_new L (word_of_int (GetMicroSeconds kRTTWindowLength)) 0 0,
     m_standingRttFilter := wf_new L (word_of_int (GetMicroSeconds kSrttWindowLength)) 0 0,
     m_useRttStanding := True, m_isSlowStart := True, m_deltaParam := 1 / 2,
     m_lastCwndDoubleTime := 0, m_velocityState := VelocityState_init, m_ackBytesRound := 0,
     copa_rtts := [], copa_times := [], copa_increase := [], copa_num_increase := 0,
     m_copaCurMode := Default, kCopaDefaultDelta := 1 / 2,
     m_curNumAcked := 0, m_curNumLosses := 0, m_reportAckedBytes := 0, m_reportLostBytes := 0,
     m_prevLossCycle := Seconds 0, m_prevLossRate := 0, kReportIntervalRtt := 1 / 2,
     m_lastReportTime := Seconds 0\<rparr>"

definition TcpCopa_new :: "'w copa_lib \<Rightarrow> 'w copa \<Rightarrow> 'w copa" where
  "TcpCopa_new L raw = copa_init L raw"

text \<open>The values of the attributes, which ns-3 sets on an object it creates by its type.\<close>

definition copa_attributes :: "'w copa \<Rightarrow> 'w copa" where
  "copa_attributes s = s\<lparr>m_useRttStanding := False, m_deltaParam := 1 / 2,
     m_copaModeSwitch := True, kCopaDefaultDelta := 1 / 2\<rparr>"

definition TcpCopa_copy :: "'w copa_lib \<Rightarrow> 'w copa \<Rightarrow> 'w copa \<Rightarrow> 'w copa" where
  "TcpCopa_copy L sock raw = (copa_init L raw)\<lparr>m_useRttStanding := m_useRttStanding sock,
     m_isSlowStart := m_isSlowStart sock\<rparr>"

section \<open>Pacing\<close>

definition InitPacingRateFromRtt ::
  "rounding \<Rightarrow> rat \<Rightarrow> tcp_socket_state \<Rightarrow> tcp_socket_state res" where
  "InitPacingRateFromRtt f gain tcb =
     (let rtt = tcb_lastRtt tcb;
          bps = (if rtt \<noteq> 0
                 then fdiv f (f (dbl f (tcb_cWnd tcb) * 8000)) (f (of_int (GetMilliSeconds rtt)))
                 else Fin 1000000)
      in res_bind (fp_to_uint 64 (fp_scale f bps gain)) (\<lambda>r.
         Inr (tcb\<lparr>tcb_pacingRate := min (word_of_int r) (tcb_maxPacingRate tcb)\<rparr>)))"

definition SetPacingRate :: "rounding \<Rightarrow> rat \<Rightarrow> tcp_socket_state \<Rightarrow> tcp_socket_state res" where
  "SetPacingRate f gain tcb = InitPacingRateFromRtt f gain tcb"

definition BandwidthEstimate :: "rounding \<Rightarrow> tcp_socket_state \<Rightarrow> u64 res" where
  "BandwidthEstimate f tcb =
     (let srtt = tcb_lastRtt tcb;
          bps = (if srtt \<noteq> 0
                 then fdiv f (f (dbl f (tcb_cWnd tcb) * 8000)) (f (of_int (GetMilliSeconds srtt)))
                 else Fin 0)
      in res_bind (fp_to_uint 64 bps) (\<lambda>r. Inr (word_of_int r)))"

definition copa_Init :: "rounding \<Rightarrow> tcp_socket_state \<Rightarrow> tcp_socket_state res" where
  "copa_Init f tcb = InitPacingRateFromRtt f 2 (tcb\<lparr>tcb_pacing := True\<rparr>)"

definition GetSsThresh :: "tcp_socket_state \<Rightarrow> u32" where
  "GetSsThresh tcb = tcb_ssThresh tcb"

section \<open>The history of round trip times\<close>

definition us_of :: "time \<Rightarrow> u64" where
  "us_of t = word_of_int (GetMicroSeconds t)"

text \<open>The loops of \<open>clear_old_hist\<close>. The first pops both deques as long as the oldest time is
  more than \<open>max_time\<close> old and not the only one.\<close>

fun clear_samples :: "u64 \<Rightarrow> u64 \<Rightarrow> u64 list \<Rightarrow> u64 list \<Rightarrow> (u64 list \<times> u64 list) res" where
  "clear_samples now max_time (t # u # ts) rs =
     (if now > max_time \<and> t < now - max_time
      then (case rs of [] \<Rightarrow> Inl UndefinedBehaviour
            | r # rs' \<Rightarrow> clear_samples now max_time (u # ts) rs')
      else Inr (t # u # ts, rs))"
| "clear_samples now max_time ts rs = Inr (ts, rs)"

fun clear_increase :: "u64 list \<Rightarrow> int \<Rightarrow> u64 list \<times> int" where
  "clear_increase [] n = ([], n)"
| "clear_increase (x # xs) n =
     (if length (x # xs) > 40 then clear_increase xs (n - 1) else (x # xs, n))"

definition clear_old_hist :: "time \<Rightarrow> 'w copa \<Rightarrow> 'w copa res" where
  "clear_old_hist now s =
     ns_assert (length (copa_rtts s) = length (copa_times s))
     (res_bind (clear_samples (us_of now) (copa_max_time s) (copa_times s) (copa_rtts s))
       (\<lambda>(ts, rs). let (inc, n) = clear_increase (copa_increase s) (copa_num_increase s)
         in Inr (s\<lparr>copa_times := ts, copa_rtts := rs, copa_increase := inc,
                   copa_num_increase := n\<rparr>)))"

definition new_rtt_sample :: "time \<Rightarrow> time \<Rightarrow> time \<Rightarrow> time \<Rightarrow> 'w copa \<Rightarrow> 'w copa res" where
  "new_rtt_sample rtt rtt_min srtt now s =
     ns_assert (length (copa_rtts s) = length (copa_times s))
     (let s1 = s\<lparr>copa_max_time := us_of (Seconds 10),
                 copa_rtts := copa_rtts s @ [us_of rtt], copa_times := copa_times s @ [us_of now]\<rparr>;
          s2 = (if copa_increase s1 = [] \<or> last (copa_increase s1) < us_of now - 2 * us_of rtt_min
                then s1\<lparr>copa_num_increase := copa_num_increase s1 + 1,
                        copa_increase := copa_increase s1 @ [us_of now]\<rparr>
                else s1)
      in clear_old_hist now s2)"

definition minmax_step :: "u64 \<Rightarrow> u64 \<times> u64 \<Rightarrow> u64 \<times> u64 \<Rightarrow> u64 \<times> u64" where
  "minmax_step since = (\<lambda>(t, r) (lo, hi). if t > since then (min lo r, max hi r) else (lo, hi))"

definition tcp_detected :: "time \<Rightarrow> time \<Rightarrow> 'w copa \<Rightarrow> bool" where
  "tcp_detected srtt rtt_min s =
     (if copa_rtts s = [] then False
      else let since = last (copa_times s) - us_of srtt * 10;
               (min1, max1) = fold (minmax_step since) (zip (copa_times s) (copa_rtts s)) (- 1, 0);
               thresh = us_of rtt_min + (max1 - us_of rtt_min) div 10 + us_of (MicroSeconds 100)
           in min1 > thresh)"

section \<open>Measurement reports\<close>

text \<open>The latency factor for a mode: halved sensitivity on loss, one more competing flow without,
  never above the default.\<close>

definition next_delta :: "rounding \<Rightarrow> CopaMode \<Rightarrow> bool \<Rightarrow> u32 \<Rightarrow> rat \<Rightarrow> rat \<Rightarrow> rat" where
  "next_delta f mode switch lost d delta =
     (if mode = Default \<or> \<not> switch then d
      else min d (if lost > 0 then f (delta * 2)
                  else if mode = TCPCoop then f (1 / f (1 + f (1 / delta)))
                  else delta))"

definition ReportMeasurement ::
  "rounding \<Rightarrow> time \<Rightarrow> time \<Rightarrow> time \<Rightarrow> u32 \<Rightarrow> u32 \<Rightarrow> 'w copa \<Rightarrow> 'w copa" where
  "ReportMeasurement f now srtt rtt_min acked lost s =
     (let s1 = s\<lparr>m_curNumAcked := m_curNumAcked s + acked,
                 m_curNumLosses := m_curNumLosses s + lost\<rparr>;
          n = m_curNumLosses s1 + m_curNumAcked s1;
          s2 = (if now > m_prevLossCycle s1 + rtt_min + rtt_min
                then s1\<lparr>m_prevLossRate := (if n > 0 then f (dbl f (m_curNumLosses s1) / dbl f n)
                                           else m_prevLossRate s1),
                        m_curNumLosses := 0, m_curNumAcked := 0, m_prevLossCycle := now\<rparr>
                else s1);
          mode = (if m_prevLossRate s2 \<ge> f (1 / 10) then TCPLoss
                  else if tcp_detected srtt rtt_min s2 then TCPCoop else Default);
          delta = next_delta f mode (m_copaModeSwitch s2) lost (kCopaDefaultDelta s2)
                    (m_deltaParam s2)
      in s2\<lparr>m_copaCurMode := mode, m_deltaParam := delta\<rparr>)"

section \<open>The direction of the window\<close>

definition ChangeDirection :: "time \<Rightarrow> Direction \<Rightarrow> u32 \<Rightarrow> VelocityState \<Rightarrow> VelocityState" where
  "ChangeDirection event_time new_direction cwnd_bytes v =
     (if new_direction = direction v then v
      else v\<lparr>direction := new_direction, velocity := 1, time_since_direction := event_time,
             lastRecordedCwndBytes := ucast cwnd_bytes\<rparr>)"

text \<open>The window is over: \<open>CheckAndUpdateDirection\<close> from the comparison of the windows on.\<close>

definition end_window :: "time \<Rightarrow> time \<Rightarrow> u32 \<Rightarrow> VelocityState \<Rightarrow> VelocityState" where
  "end_window event_time srtt cwnd_bytes v =
     (let new_direction = (if ucast cwnd_bytes > lastRecordedCwndBytes v then Up else Down);
          v1 = (if new_direction = direction v \<and> event_time - time_since_direction v > 3 * srtt
                then v\<lparr>velocity := 2 * velocity v\<rparr>
                else if new_direction \<noteq> direction v
                then v\<lparr>velocity := 1, time_since_direction := event_time\<rparr> else v)
      in v1\<lparr>direction := new_direction, lastCwndRecordTime := event_time,
            lastRecordedCwndBytes := ucast cwnd_bytes\<rparr>)"

definition CheckAndUpdateDirection ::
  "time \<Rightarrow> time \<Rightarrow> u32 \<Rightarrow> u32 \<Rightarrow> 'w copa \<Rightarrow> 'w copa res" where
  "CheckAndUpdateDirection event_time srtt cwnd_bytes acked_bytes s =
     (let v = m_velocityState s
      in if lastCwndRecordTime v = 0
         then Inr (s\<lparr>m_velocityState := v\<lparr>lastCwndRecordTime := event_time,
                                          lastRecordedCwndBytes := ucast cwnd_bytes\<rparr>\<rparr>)
         else ns_assert (event_time \<ge> lastCwndRecordTime v)
           (let s1 = s\<lparr>m_TotalAckedBytes := m_TotalAckedBytes s + acked_bytes\<rparr>
            in Inr (if m_TotalAckedBytes s1 \<ge> cwnd_bytes
                    then s1\<lparr>m_velocityState := end_window event_time srtt cwnd_bytes v,
                            m_TotalAckedBytes := 0\<rparr>
                    else s1)))"

definition AddAndCheckOverflow :: "u32 \<Rightarrow> u32 \<Rightarrow> u32 res" where
  "AddAndCheckOverflow v toAdd =
     ns_assert (\<not> (4294967295 - toAdd < v)) (Inr (v + toAdd))"

section \<open>Congestion control\<close>

text \<open>\<open>CongControl\<close> up to the test of the report interval: the counters, the filters and the
  history of round trip times.\<close>

definition take_sample :: "'w copa_lib \<Rightarrow> time \<Rightarrow> tcp_socket_state \<Rightarrow> rate_sample \<Rightarrow> 'w copa
    \<Rightarrow> 'w copa res" where
  "take_sample L now tcb rs s =
     (let rtt = rs_rtt rs; srtt = tcb_lastRtt tcb;
          s1 = s\<lparr>m_reportAckedBytes := m_reportAckedBytes s + rs_ackedSacked rs,
                 m_reportLostBytes := m_reportLostBytes s + rs_bytesLoss rs,
                 m_minRttFilter := wf_update L rtt (us_of now) (m_minRttFilter s),
                 m_standingRttFilter := wf_update L rtt (us_of now)
                   (wf_set_length L (word_of_int (GetMicroSeconds srtt sdiv 2))
                     (m_standingRttFilter s))\<rparr>
      in new_rtt_sample rtt (wf_best L (m_minRttFilter s1)) srtt now s1)"

definition report_due :: "'w copa_lib \<Rightarrow> time \<Rightarrow> time \<Rightarrow> 'w copa \<Rightarrow> bool" where
  "report_due L now srtt s \<longleftrightarrow>
     now > Seconds 0 \<and> m_lastReportTime s + scale_time L (kReportIntervalRtt s) srtt < now"

text \<open>The comparison of the rates: whether to increase the window, and the bit rate.\<close>

definition compare_rates :: "rounding \<Rightarrow> u32 \<Rightarrow> u32 \<Rightarrow> time \<Rightarrow> u64 \<Rightarrow> 'w copa \<Rightarrow> bool \<times> fp" where
  "compare_rates f mss cwnd_bytes rttStanding delay_us s =
     (if delay_us = 0 then (True, m_bitrate s)
      else let target_rate = fdiv f (f (dbl f mss * 1000000))
                 (f (dbl f delay_us * m_deltaParam s));
               current_rate = fdiv f (f (dbl f cwnd_bytes * 1000000))
                 (f (of_int (GetMicroSeconds rttStanding)))
           in (fp_ge target_rate current_rate, fp_scale f current_rate 8))"

text \<open>How much the window moves.\<close>

definition window_change :: "rounding \<Rightarrow> u32 \<Rightarrow> u32 \<Rightarrow> u32 \<Rightarrow> 'w copa \<Rightarrow> u32 res" where
  "window_change f mss acked_packets cwnd_bytes s =
     (let bytes = ucast (acked_packets * mss * mss) * velocity (m_velocityState s) :: u64
      in res_bind (fp_to_uint 32 (fdiv f (dbl f bytes) (f (m_deltaParam s * dbl f cwnd_bytes))))
           (\<lambda>c. Inr (min (word_of_int c) cwnd_bytes)))"

definition increase_window :: "time \<Rightarrow> time \<Rightarrow> u32 \<Rightarrow> u32 \<Rightarrow> tcp_socket_state \<Rightarrow> 'w copa
    \<Rightarrow> (tcp_socket_state \<times> 'w copa) res" where
  "increase_window now srtt cwnd_bytes change tcb s =
     (if m_isSlowStart s then
        if m_lastCwndDoubleTime s = 0 then Inr (tcb, s\<lparr>m_lastCwndDoubleTime := now\<rparr>)
        else if now - m_lastCwndDoubleTime s > srtt then
          res_bind (AddAndCheckOverflow cwnd_bytes (m_reportAckedBytes s)) (\<lambda>new_cwnd.
          Inr (tcb\<lparr>tcb_cWnd := new_cwnd\<rparr>, s\<lparr>m_lastCwndDoubleTime := now\<rparr>))
        else Inr (tcb, s)
      else
        let v = m_velocityState s;
            s1 = (if direction v \<noteq> Up \<and> velocity v > 1
                  then s\<lparr>m_velocityState := ChangeDirection now Up cwnd_bytes v\<rparr> else s)
        in res_bind (AddAndCheckOverflow cwnd_bytes change) (\<lambda>new_cwnd.
           Inr (tcb\<lparr>tcb_cWnd := new_cwnd\<rparr>, s1)))"

definition decrease_window :: "time \<Rightarrow> u32 \<Rightarrow> u32 \<Rightarrow> u32 \<Rightarrow> tcp_socket_state \<Rightarrow> 'w copa
    \<Rightarrow> tcp_socket_state \<times> 'w copa" where
  "decrease_window now mss cwnd_bytes change tcb s =
     (let v = m_velocityState s;
          s1 = (if direction v \<noteq> Down \<and> velocity v > 1
                then s\<lparr>m_velocityState := ChangeDirection now Down cwnd_bytes v\<rparr> else s);
          c1 = max (cwnd_bytes - change) (kMinCwndSegment * mss);
          c2 = (if m_isSlowStart s1 then min (drop_bit 1 cwnd_bytes) c1 else c1)
      in (tcb\<lparr>tcb_cWnd := c2\<rparr>, s1\<lparr>m_isSlowStart := False\<rparr>))"

text \<open>The rest of \<open>CongControl\<close> once the filters have been read.\<close>

definition control_window :: "rounding \<Rightarrow> 'w copa_lib \<Rightarrow> time \<Rightarrow> time \<Rightarrow> time \<Rightarrow> time
    \<Rightarrow> tcp_socket_state \<Rightarrow> 'w copa \<Rightarrow> (tcp_socket_state \<times> 'w copa) res" where
  "control_window f L now rtt rtt_min rttStanding tcb s0 =
     (let srtt = tcb_lastRtt tcb; mss = tcb_segmentSize tcb; cwnd_bytes = tcb_cWnd tcb;
          s = ReportMeasurement f now srtt rtt_min (m_reportAckedBytes s0) (m_reportLostBytes s0) s0
      in if mss = 0 then Inl UndefinedBehaviour
         else
           let acked_packets = (m_reportAckedBytes s + mss - 1) div mss;
               delay_us = (if m_useRttStanding s then us_of rttStanding - us_of rtt_min
                           else us_of rtt - us_of rtt_min);
               (increase_cwnd, bitrate) = compare_rates f mss cwnd_bytes rttStanding delay_us s;
               s1 = s\<lparr>m_bitrate := bitrate\<rparr>
           in res_bind (if increase_cwnd \<and> m_isSlowStart s1 then Inr s1
                        else CheckAndUpdateDirection now srtt cwnd_bytes (m_reportAckedBytes s1) s1)
                (\<lambda>s2.
              res_bind (window_change f mss acked_packets cwnd_bytes s2) (\<lambda>change.
              res_bind (if increase_cwnd then increase_window now srtt cwnd_bytes change tcb s2
                        else Inr (decrease_window now mss cwnd_bytes change tcb s2)) (\<lambda>(tcb1, s3).
              res_bind (SetPacingRate f 2 tcb1) (\<lambda>tcb2.
              Inr (tcb2\<lparr>tcb_ssThresh := tcb_cWnd tcb2\<rparr>,
                   s3\<lparr>m_lastReportTime := now, m_reportAckedBytes := 0, m_reportLostBytes := 0,
                      m_standingRttFilter := wf_reset L (Seconds 1) (us_of now)
                        (m_standingRttFilter s3)\<rparr>))))))"

definition CongControl :: "rounding \<Rightarrow> 'w copa_lib \<Rightarrow> time \<Rightarrow> rate_sample \<Rightarrow> tcp_socket_state
    \<Rightarrow> 'w copa \<Rightarrow> (tcp_socket_state \<times> 'w copa) res" where
  "CongControl f L now rs tcb s0 =
     res_bind (take_sample L now tcb rs s0) (\<lambda>s.
     let rtt_min = wf_best L (m_minRttFilter s)
     in if \<not> report_due L now (tcb_lastRtt tcb) s then Inr (tcb, s)
        else ns_assert (rtt_min \<noteq> 0)
          (let rttStanding = wf_best L (m_standingRttFilter s)
           in ns_assert (rttStanding \<noteq> 0)
             (if rttStanding < rtt_min then Inr (tcb, s)
              else control_window f L now (rs_rtt rs) rtt_min rttStanding tcb s)))"


section \<open>Conversions and pacing\<close>

lemma fp_to_uint_Fin:
  assumes "0 \<le> x" "x < 2 ^ w"
  shows "fp_to_uint w (Fin x) = Inr (trunc x)"
proof -
  have "\<lfloor>x\<rfloor> < 2 ^ w" using assms(2) by (simp add: floor_less_iff)
  then show ?thesis using assms(1) by (simp add: trunc_def)
qed

lemma fp_to_uint_InrD: "fp_to_uint w x = Inr n \<Longrightarrow> 0 \<le> n \<and> n < 2 ^ w"
  by (cases x) (auto split: if_splits)

lemma dbl_exact:
  fixes w :: u32
  assumes "rounding_ok f"
  shows "dbl f w = of_int (uint w)"
proof -
  have "\<bar>uint w\<bar> \<le> 2 ^ 53" using uint_lt(3) [of w] by simp
  then show ?thesis unfolding dbl_def by (rule rounding_int [OF assms])
qed

lemma dbl_nonneg: "rounding_ok f \<Longrightarrow> 0 \<le> dbl f w"
  unfolding dbl_def by (rule rounding_nonneg) (simp_all only: of_int_0_le_iff uint_ge_0)

text \<open>For a round trip time of a millisecond or more the pacing rate is defined, and it is at most
  the maximum.\<close>

lemma pacing_defined:
  assumes f: "rounding_ok f" and rtt: "MilliSeconds 1 \<le> tcb_lastRtt tcb"
  shows "\<exists>r. SetPacingRate f 2 tcb = Inr (tcb\<lparr>tcb_pacingRate := r\<rparr>) \<and> r \<le> tcb_maxPacingRate tcb"
proof -
  let ?c = "tcb_cWnd tcb" and ?rtt = "tcb_lastRtt tcb"
  let ?x = "f (dbl f ?c * 8000)" and ?y = "f (of_int (GetMilliSeconds ?rtt))"
  have ms: "1 \<le> GetMilliSeconds ?rtt"
    using rtt by (simp add: time_defs signed_divide_int_def sgn_if)
  have "f (of_int 1) \<le> ?y"
    using ms by (intro rounding_mono [OF f]) simp
  then have y: "1 \<le> ?y" using rounding_one [OF f] by simp
  have "uint ?c * 8000 \<le> 2 ^ 45" using uint_lt(3) [of ?c] by simp
  then have "(of_int (uint ?c * 8000) :: rat) \<le> of_int (2 ^ 45)" by (simp only: of_int_le_iff)
  then have "dbl f ?c * 8000 \<le> of_int (2 ^ 45)"
    unfolding dbl_exact [OF f] of_int_mult of_int_numeral .
  then have x1: "?x \<le> of_int (2 ^ 45)"
    using rounding_mono [OF f, of "dbl f ?c * 8000" "of_int (2 ^ 45)"] rounding_int [OF f, of "2 ^ 45"]
    by simp
  have x0: "0 \<le> ?x" using dbl_nonneg [OF f] by (intro rounding_nonneg [OF f]) simp
  have q0: "0 \<le> ?x / ?y" using x0 y by simp
  have "?x / ?y \<le> ?x / 1" using x0 y by (intro divide_left_mono) simp_all
  then have q1: "?x / ?y \<le> of_int (2 ^ 45)" using x1 by simp
  then have r1: "f (?x / ?y) \<le> of_int (2 ^ 45)"
    using rounding_mono [OF f q1] rounding_int [OF f, of "2 ^ 45"] by simp
  have r0: "0 \<le> f (?x / ?y)" using q0 by (rule rounding_nonneg [OF f])
  have "f (?x / ?y) * 2 \<le> of_int (2 ^ 46)" using r1 by simp
  then have g1: "f (f (?x / ?y) * 2) \<le> of_int (2 ^ 46)"
    using rounding_mono [OF f, of "f (?x / ?y) * 2" "of_int (2 ^ 46)"] rounding_int [OF f, of "2 ^ 46"]
    by simp
  have g0: "0 \<le> f (f (?x / ?y) * 2)" using r0 by (intro rounding_nonneg [OF f]) simp
  have "fp_to_uint 64 (Fin (f (f (?x / ?y) * 2))) = Inr (trunc (f (f (?x / ?y) * 2)))"
    using g0 g1 by (intro fp_to_uint_Fin) simp_all
  moreover have "?rtt \<noteq> 0" using rtt by (auto simp: time_defs)
  moreover have "?y \<noteq> 0" using y by linarith
  ultimately have "SetPacingRate f 2 tcb = Inr (tcb\<lparr>tcb_pacingRate :=
      min (word_of_int (trunc (f (f (?x / ?y) * 2)))) (tcb_maxPacingRate tcb)\<rparr>)"
    by (simp add: SetPacingRate_def InitPacingRateFromRtt_def fdiv_def Let_def)
  then show ?thesis by (intro exI conjI) (assumption, rule min.cobounded2)
qed

lemma SetPacingRate_frame:
  "SetPacingRate f g tcb = Inr tcb' \<Longrightarrow>
   \<exists>r. tcb' = tcb\<lparr>tcb_pacingRate := r\<rparr> \<and> r \<le> tcb_maxPacingRate tcb"
  by (auto simp: SetPacingRate_def InitPacingRateFromRtt_def Let_def dest!: res_bind_InrD)

section \<open>Invariants\<close>

definition velocity_ok :: "VelocityState \<Rightarrow> bool" where
  "velocity_ok v \<longleftrightarrow> (velocity v = 0 \<or> (\<exists>k. velocity v = 2 ^ k)) \<and>
     (direction v = DirNone \<longrightarrow> velocity v = 1)"

definition copa_inv :: "time \<Rightarrow> 'w copa \<Rightarrow> bool" where
  "copa_inv t s \<longleftrightarrow>
     length (copa_rtts s) = length (copa_times s) \<and>
     copa_num_increase s = int (length (copa_increase s)) \<and> length (copa_increase s) \<le> 40 \<and>
     velocity_ok (m_velocityState s) \<and> lastCwndRecordTime (m_velocityState s) \<le> t \<and>
     0 \<le> m_deltaParam s \<and> m_deltaParam s \<le> kCopaDefaultDelta s \<and> kCopaDefaultDelta s = 1 / 2"

lemma end_window_ok:
  assumes "velocity_ok v"
  shows "velocity_ok (end_window now srtt c v)"
proof -
  have "2 * velocity v = 0 \<or> (\<exists>k. 2 * velocity v = 2 ^ k)"
    using assms unfolding velocity_ok_def by (metis mult_zero_right power_Suc)
  then show ?thesis
    using assms by (auto simp: end_window_def velocity_ok_def Let_def intro: exI [of _ 0])
qed

lemma ChangeDirection_ok: "velocity_ok v \<Longrightarrow> d \<noteq> DirNone \<Longrightarrow> velocity_ok (ChangeDirection now d c v)"
  by (auto simp: ChangeDirection_def velocity_ok_def intro: exI [of _ 0])

lemma clear_samples_run:
  assumes "length rs = length ts"
  shows "\<exists>n. clear_samples now m ts rs = Inr (drop n ts, drop n rs) \<and> (ts \<noteq> [] \<longrightarrow> n < length ts)"
  using assms
proof (induction now m ts rs rule: clear_samples.induct)
  case (1 now m t u ts rs)
  show ?case
  proof (cases "now > m \<and> t < now - m")
    case False
    then show ?thesis by (intro exI [of _ 0]) auto
  next
    case True
    obtain r rs' where rs: "rs = r # rs'" using 1(2) by (cases rs) auto
    from 1(1) [OF True rs] 1(2) rs obtain n where
      "clear_samples now m (u # ts) rs' = Inr (drop n (u # ts), drop n rs')" "n < length (u # ts)"
      by auto
    then show ?thesis using True rs by (intro exI [of _ "Suc n"]) simp
  qed
qed (auto intro: exI [of _ 0])

lemma clear_increase_run:
  "clear_increase xs n = (keep_last 40 xs, n - int (length xs - 40))"
  by (induction xs n rule: clear_increase.induct) (auto simp: keep_last_def drop_Cons')

lemma new_rtt_sample_run:
  assumes "copa_inv t s"
  shows "\<exists>s'. new_rtt_sample rtt rtt_min srtt now s = Inr s' \<and> copa_inv t s' \<and> copa_rtts s' \<noteq> [] \<and>
     last (copa_times s') = us_of now \<and>
     (\<exists>a b c d n. s' = s\<lparr>copa_max_time := a, copa_rtts := b, copa_times := c, copa_increase := d,
        copa_num_increase := n\<rparr>)"
proof -
  let ?ts = "copa_times s @ [us_of now]" and ?rs = "copa_rtts s @ [us_of rtt]"
  let ?m = "us_of (Seconds 10)"
  let ?grow = "copa_increase s = [] \<or> last (copa_increase s) < us_of now - 2 * us_of rtt_min"
  let ?inc = "if ?grow then copa_increase s @ [us_of now] else copa_increase s"
  let ?n = "if ?grow then copa_num_increase s + 1 else copa_num_increase s"
  have len: "length ?rs = length ?ts" using assms by (simp add: copa_inv_def)
  obtain k where k: "clear_samples (us_of now) ?m ?ts ?rs = Inr (drop k ?ts, drop k ?rs)"
    "k < length ?ts"
    using clear_samples_run [OF len, of "us_of now" ?m] by auto
  let ?s' = "s\<lparr>copa_max_time := ?m, copa_rtts := drop k ?rs, copa_times := drop k ?ts,
     copa_increase := keep_last 40 ?inc, copa_num_increase := ?n - int (length ?inc - 40)\<rparr>"
  have "length (copa_rtts s) = length (copa_times s)" using assms by (simp add: copa_inv_def)
  then have "new_rtt_sample rtt rtt_min srtt now s = Inr ?s'"
    using k(1) by (simp add: new_rtt_sample_def clear_old_hist_def clear_increase_run Let_def)
  moreover have "copa_inv t ?s'"
    using assms len by (auto simp: copa_inv_def keep_last_def)
  moreover have "drop k ?rs \<noteq> []" "last (drop k ?ts) = us_of now"
    using k(2) len by simp_all
  ultimately show ?thesis by (intro exI [of _ ?s']) (simp, blast)
qed


lemma half_rounded:
  assumes f: "rounding_ok f" and x: "0 \<le> x"
  shows "0 \<le> f (1 / f (1 + f (1 / x)))"
proof -
  have "0 \<le> 1 / x" using x by simp
  then have "0 \<le> f (1 / x)" by (rule rounding_nonneg [OF f])
  then have "0 \<le> 1 + f (1 / x)" by linarith
  then have "0 \<le> f (1 + f (1 / x))" by (rule rounding_nonneg [OF f])
  then have "0 \<le> 1 / f (1 + f (1 / x))" by simp
  then show ?thesis by (rule rounding_nonneg [OF f])
qed

lemma ReportMeasurement_frame:
  fixes f srtt rtt_min acked lost now
  defines "r \<equiv> ReportMeasurement f now srtt rtt_min acked lost"
  shows "copa_rtts (r s) = copa_rtts s" "copa_times (r s) = copa_times s"
    "copa_increase (r s) = copa_increase s" "copa_num_increase (r s) = copa_num_increase s"
    "m_velocityState (r s) = m_velocityState s" "kCopaDefaultDelta (r s) = kCopaDefaultDelta s"
    "m_isSlowStart (r s) = m_isSlowStart s" "m_reportAckedBytes (r s) = m_reportAckedBytes s"
    "m_useRttStanding (r s) = m_useRttStanding s" "m_TotalAckedBytes (r s) = m_TotalAckedBytes s"
  by (simp_all add: r_def ReportMeasurement_def Let_def)

lemma ReportMeasurement_next_delta:
  "\<exists>mode. m_deltaParam (ReportMeasurement f now srtt rtt_min acked lost s) =
     next_delta f mode (m_copaModeSwitch s) lost (kCopaDefaultDelta s) (m_deltaParam s)"
  by (intro exI [of _ "m_copaCurMode (ReportMeasurement f now srtt rtt_min acked lost s)"])
     (simp add: ReportMeasurement_def Let_def)

lemma next_delta_bounds:
  assumes f: "rounding_ok f" and d: "0 \<le> d" "0 \<le> delta"
  shows "0 \<le> next_delta f mode switch lost d delta \<and> next_delta f mode switch lost d delta \<le> d"
proof -
  have "0 \<le> delta * 2" using d by simp
  then have "0 \<le> f (delta * 2)" by (rule rounding_nonneg [OF f])
  with d half_rounded [OF f d(2)] show ?thesis by (simp add: next_delta_def)
qed

lemma ReportMeasurement_delta:
  assumes f: "rounding_ok f" and d: "0 \<le> m_deltaParam s" "0 \<le> kCopaDefaultDelta s"
  shows "0 \<le> m_deltaParam (ReportMeasurement f now srtt rtt_min acked lost s)"
    and "m_deltaParam (ReportMeasurement f now srtt rtt_min acked lost s) \<le> kCopaDefaultDelta s"
  using ReportMeasurement_next_delta [of f now srtt rtt_min acked lost s] next_delta_bounds [OF f d(2,1)]
  by metis+

lemma ReportMeasurement_inv:
  assumes f: "rounding_ok f" and inv: "copa_inv t s"
  shows "copa_inv t (ReportMeasurement f now srtt rtt_min acked lost s)"
proof -
  have "0 \<le> m_deltaParam s" "0 \<le> kCopaDefaultDelta s" using inv by (auto simp: copa_inv_def)
  from ReportMeasurement_delta [OF f this] show ?thesis
    using inv unfolding copa_inv_def ReportMeasurement_frame by blast
qed

lemma CheckAndUpdateDirection_run:
  assumes inv: "copa_inv t s" and now: "t \<le> now"
  shows "\<exists>v n. CheckAndUpdateDirection now srtt c acked s =
      Inr (s\<lparr>m_velocityState := v, m_TotalAckedBytes := n\<rparr>) \<and>
    copa_inv now (s\<lparr>m_velocityState := v, m_TotalAckedBytes := n\<rparr>) \<and>
    velocity v \<in> {1, velocity (m_velocityState s), 2 * velocity (m_velocityState s)}"
proof -
  let ?v = "m_velocityState s" and ?n = "m_TotalAckedBytes s + acked"
  have v: "velocity_ok ?v" "lastCwndRecordTime ?v \<le> now"
    using inv now by (auto simp: copa_inv_def)
  consider "lastCwndRecordTime ?v = 0" | "lastCwndRecordTime ?v \<noteq> 0" "c \<le> ?n"
    | "lastCwndRecordTime ?v \<noteq> 0" "\<not> c \<le> ?n" by blast
  then show ?thesis
  proof cases
    case 1
    let ?w = "?v\<lparr>lastCwndRecordTime := now, lastRecordedCwndBytes := ucast c\<rparr>"
    have "CheckAndUpdateDirection now srtt c acked s =
        Inr (s\<lparr>m_velocityState := ?w, m_TotalAckedBytes := m_TotalAckedBytes s\<rparr>)"
      using 1 by (cases s) (simp add: CheckAndUpdateDirection_def Let_def)
    moreover have "velocity_ok ?w" using v by (simp add: velocity_ok_def)
    ultimately show ?thesis using inv
      by (intro exI [of _ ?w] exI [of _ "m_TotalAckedBytes s"]) (simp add: copa_inv_def)
  next
    case 2
    let ?w = "end_window now srtt c ?v"
    have "CheckAndUpdateDirection now srtt c acked s =
        Inr (s\<lparr>m_velocityState := ?w, m_TotalAckedBytes := 0\<rparr>)"
      using 2 v by (simp add: CheckAndUpdateDirection_def Let_def)
    moreover have "velocity_ok ?w" using v by (intro end_window_ok)
    moreover have "lastCwndRecordTime ?w = now" "velocity ?w \<in> {1, velocity ?v, 2 * velocity ?v}"
      by (simp_all add: end_window_def Let_def)
    ultimately show ?thesis using inv
      by (intro exI [of _ ?w] exI [of _ 0]) (simp add: copa_inv_def)
  next
    case 3
    have "CheckAndUpdateDirection now srtt c acked s =
        Inr (s\<lparr>m_velocityState := ?v, m_TotalAckedBytes := ?n\<rparr>)"
      using 3 v by (cases s) (simp add: CheckAndUpdateDirection_def Let_def)
    then show ?thesis using inv v
      by (intro exI [of _ ?v] exI [of _ ?n]) (simp add: copa_inv_def)
  qed
qed

lemma AddAndCheckOverflow_eq:
  "AddAndCheckOverflow v a = (if unat v + unat a < 2 ^ 32 then Inr (v + a) else Inl AssertFailed)"
proof -
  have a: "unat a < 4294967296" by (rule unat_lt)
  have "a \<le> 4294967295" using a by (simp add: word_le_nat_alt)
  then have "unat (4294967295 - a) = unat (4294967295 :: u32) - unat a"
    by (intro unat_sub) (simp add: word_le_nat_alt)
  then have "(4294967295 - a < v) \<longleftrightarrow> \<not> (unat v + unat a < 2 ^ 32)"
    using a by (simp add: word_less_nat_alt) linarith
  then show ?thesis by (simp add: AddAndCheckOverflow_def ns_assert_def)
qed

lemma AddAndCheckOverflow_InrD:
  "AddAndCheckOverflow v a = Inr c \<Longrightarrow> unat c = unat v + unat a"
  by (auto simp: AddAndCheckOverflow_eq unat_word_ariths split: if_splits)

text \<open>What moving the window does to the rest of the state.\<close>

definition moved :: "time \<Rightarrow> 'w copa \<Rightarrow> 'w copa \<Rightarrow> bool" where
  "moved now s s' \<longleftrightarrow> (copa_inv now s \<longrightarrow> copa_inv now s') \<and>
     (m_isSlowStart s' \<longrightarrow> m_isSlowStart s)"

lemma increase_window_run:
  assumes "increase_window now srtt c change tcb s = Inr (tcb', s')" "tcb_cWnd tcb = c"
  shows "moved now s s' \<and> (\<exists>c'. tcb' = tcb\<lparr>tcb_cWnd := c'\<rparr> \<and> unat c \<le> unat c' \<and>
    unat c' \<le> unat c + max (unat (m_reportAckedBytes s)) (unat change))"
proof (cases "m_isSlowStart s")
  case True
  then show ?thesis
    using assms by (cases tcb)
      (auto simp: increase_window_def moved_def copa_inv_def dest!: res_bind_InrD
        AddAndCheckOverflow_InrD split: if_splits)
next
  case False
  let ?v = "m_velocityState s"
  have "velocity_ok ?v \<Longrightarrow> velocity_ok (ChangeDirection now Up c ?v)"
    by (intro ChangeDirection_ok) simp_all
  moreover have "lastCwndRecordTime (ChangeDirection now Up c ?v) = lastCwndRecordTime ?v"
    by (simp add: ChangeDirection_def)
  ultimately show ?thesis
    using assms False
    by (auto simp: increase_window_def moved_def copa_inv_def Let_def dest!: res_bind_InrD
        AddAndCheckOverflow_InrD split: if_splits)
qed

lemma decrease_window_run:
  assumes "decrease_window now mss c change tcb s = (tcb', s')" "change \<le> c" "unat mss < 2 ^ 30"
  shows "moved now s s' \<and> (\<exists>c'. tcb' = tcb\<lparr>tcb_cWnd := c'\<rparr> \<and>
    unat c' \<le> max (unat c) (4 * unat mss) \<and>
    (\<not> m_isSlowStart s \<longrightarrow> 4 * unat mss \<le> unat c')) \<and> \<not> m_isSlowStart s'"
proof -
  let ?v = "m_velocityState s"
  have v: "velocity_ok ?v \<Longrightarrow> velocity_ok (ChangeDirection now Down c ?v)"
    by (intro ChangeDirection_ok) simp_all
  have l: "lastCwndRecordTime (ChangeDirection now Down c ?v) = lastCwndRecordTime ?v"
    by (simp add: ChangeDirection_def)
  have m: "unat (kMinCwndSegment * mss) = 4 * unat mss"
    using assms(3) by (simp add: kMinCwndSegment_def unat_word_ariths)
  have d: "unat (c - change) \<le> unat c"
    using assms(2) by (simp add: unat_sub word_le_nat_alt)
  have mx: "unat (max a b) = max (unat a) (unat b)" "unat (min a b) = min (unat a) (unat b)"
    for a b :: u32
    by (auto simp: max_def min_def word_le_nat_alt)
  have "moved now s s'"
    using assms(1) v l by (auto simp: decrease_window_def moved_def copa_inv_def Let_def)
  moreover have "\<not> m_isSlowStart s'" using assms(1) by (auto simp: decrease_window_def Let_def)
  moreover have "tcb' = tcb\<lparr>tcb_cWnd := (if m_isSlowStart s
      then min (drop_bit 1 c) (max (c - change) (kMinCwndSegment * mss))
      else max (c - change) (kMinCwndSegment * mss))\<rparr>"
    using assms(1) by (auto simp: decrease_window_def Let_def)
  moreover have "max (unat (c - change)) (4 * unat mss) \<le> max (unat c) (4 * unat mss)"
    using d by linarith
  ultimately show ?thesis by (auto simp: mx m)
qed


text \<open>The acknowledged bytes the next report counts.\<close>

lemma take_sample_run:
  assumes "copa_inv t s"
  shows "\<exists>s'. take_sample L now tcb rs s = Inr s' \<and> copa_inv t s' \<and> copa_rtts s' \<noteq> [] \<and>
     last (copa_times s') = us_of now \<and>
     m_reportAckedBytes s' = m_reportAckedBytes s + rs_ackedSacked rs \<and>
     m_minRttFilter s' = wf_update L (rs_rtt rs) (us_of now) (m_minRttFilter s) \<and>
     m_standingRttFilter s' = wf_update L (rs_rtt rs) (us_of now)
       (wf_set_length L (word_of_int (GetMicroSeconds (tcb_lastRtt tcb) sdiv 2))
         (m_standingRttFilter s)) \<and>
     m_velocityState s' = m_velocityState s \<and> m_isSlowStart s' = m_isSlowStart s \<and>
     m_deltaParam s' = m_deltaParam s \<and>
     m_lastReportTime s' = m_lastReportTime s \<and> kReportIntervalRtt s' = kReportIntervalRtt s"
proof -
  let ?s1 = "s\<lparr>m_reportAckedBytes := m_reportAckedBytes s + rs_ackedSacked rs,
     m_reportLostBytes := m_reportLostBytes s + rs_bytesLoss rs,
     m_minRttFilter := wf_update L (rs_rtt rs) (us_of now) (m_minRttFilter s),
     m_standingRttFilter := wf_update L (rs_rtt rs) (us_of now)
       (wf_set_length L (word_of_int (GetMicroSeconds (tcb_lastRtt tcb) sdiv 2))
         (m_standingRttFilter s))\<rparr>"
  have "copa_inv t ?s1" using assms by (simp add: copa_inv_def)
  from new_rtt_sample_run [OF this, of "rs_rtt rs" "wf_best L (m_minRttFilter ?s1)"
      "tcb_lastRtt tcb" now]
  obtain s' a b c d n where s': "new_rtt_sample (rs_rtt rs) (wf_best L (m_minRttFilter ?s1))
      (tcb_lastRtt tcb) now ?s1 = Inr s'" "copa_inv t s'" "copa_rtts s' \<noteq> []"
      "last (copa_times s') = us_of now"
      "s' = ?s1\<lparr>copa_max_time := a, copa_rtts := b, copa_times := c, copa_increase := d,
        copa_num_increase := n\<rparr>"
    by (elim exE conjE) (rule that; assumption)
  then show ?thesis by (intro exI [of _ s']) (simp add: take_sample_def Let_def)
qed

lemma control_window_step:
  assumes run: "control_window f L now rtt rtt_min rttStanding tcb s = Inr (tcb', s')"
    and f: "rounding_ok f" and inv: "copa_inv t s" and now: "t \<le> now"
    and mss: "unat (tcb_segmentSize tcb) < 2 ^ 30"
  shows "copa_inv now s' \<and> (m_isSlowStart s' \<longrightarrow> m_isSlowStart s) \<and>
    m_lastReportTime s' = now \<and> m_reportAckedBytes s' = 0 \<and> m_reportLostBytes s' = 0 \<and>
    (\<exists>c r. tcb' = tcb\<lparr>tcb_cWnd := c, tcb_pacingRate := r, tcb_ssThresh := c\<rparr> \<and>
       r \<le> tcb_maxPacingRate tcb \<and>
       (unat c \<le> unat (tcb_cWnd tcb) + max (unat (m_reportAckedBytes s)) (unat (tcb_cWnd tcb)) \<or>
        unat c \<le> 4 * unat (tcb_segmentSize tcb)) \<and>
       (\<not> m_isSlowStart s \<longrightarrow>
          min (unat (tcb_cWnd tcb)) (4 * unat (tcb_segmentSize tcb)) \<le> unat c))"
proof -
  let ?mss = "tcb_segmentSize tcb" and ?c = "tcb_cWnd tcb" and ?srtt = "tcb_lastRtt tcb"
  let ?r = "ReportMeasurement f now ?srtt rtt_min (m_reportAckedBytes s) (m_reportLostBytes s) s"
  let ?delay = "if m_useRttStanding ?r then us_of rttStanding - us_of rtt_min
    else us_of rtt - us_of rtt_min"
  obtain inc br where cmp: "compare_rates f ?mss ?c rttStanding ?delay ?r = (inc, br)"
    by (cases "compare_rates f ?mss ?c rttStanding ?delay ?r")
  let ?s1 = "?r\<lparr>m_bitrate := br\<rparr>"
  let ?ap = "(m_reportAckedBytes ?r + ?mss - 1) div ?mss"
  from run cmp obtain s2 change tcb1 s3 tcb2 where
    2: "(if inc \<and> m_isSlowStart ?s1 then Inr ?s1
         else CheckAndUpdateDirection now ?srtt ?c (m_reportAckedBytes ?s1) ?s1) = Inr s2"
    and ch: "window_change f ?mss ?ap ?c s2 = Inr change"
    and 3: "(if inc then increase_window now ?srtt ?c change tcb s2
             else Inr (decrease_window now ?mss ?c change tcb s2)) = Inr (tcb1, s3)"
    and 4: "SetPacingRate f 2 tcb1 = Inr tcb2"
    and t': "tcb' = tcb2\<lparr>tcb_ssThresh := tcb_cWnd tcb2\<rparr>"
    and s': "s' = s3\<lparr>m_lastReportTime := now, m_reportAckedBytes := 0, m_reportLostBytes := 0,
                      m_standingRttFilter := wf_reset L (Seconds 1) (us_of now)
                        (m_standingRttFilter s3)\<rparr>"
    unfolding control_window_def Let_def
    by (auto dest!: res_bind_InrD split: if_splits)
  have r: "copa_inv t ?r" using ReportMeasurement_inv [OF f inv] .
  then have "copa_inv t ?s1" by (simp add: copa_inv_def)
  then have "copa_inv now ?s1" using now by (auto simp: copa_inv_def)
  have i2: "copa_inv now s2 \<and> m_isSlowStart s2 = m_isSlowStart s \<and>
      m_reportAckedBytes s2 = m_reportAckedBytes s"
  proof (cases "inc \<and> m_isSlowStart ?s1")
    case True
    then show ?thesis using 2 \<open>copa_inv now ?s1\<close> by (auto simp: ReportMeasurement_frame)
  next
    case False
    from CheckAndUpdateDirection_run [OF \<open>copa_inv t ?s1\<close> now, of ?srtt ?c "m_reportAckedBytes ?s1"]
    obtain v n where "CheckAndUpdateDirection now ?srtt ?c (m_reportAckedBytes ?s1) ?s1 =
        Inr (?s1\<lparr>m_velocityState := v, m_TotalAckedBytes := n\<rparr>)"
      "copa_inv now (?s1\<lparr>m_velocityState := v, m_TotalAckedBytes := n\<rparr>)"
      by (elim exE conjE) (rule that; assumption)
    then show ?thesis using 2 False by (auto simp: ReportMeasurement_frame)
  qed
  have le: "change \<le> ?c" using ch by (auto simp: window_change_def Let_def dest!: res_bind_InrD)
  have le': "unat change \<le> unat ?c" using le by (simp add: word_le_nat_alt)
  have m: "moved now s2 s3 \<and> (\<exists>c. tcb1 = tcb\<lparr>tcb_cWnd := c\<rparr> \<and>
      (unat c \<le> unat ?c + max (unat (m_reportAckedBytes s)) (unat ?c) \<or> unat c \<le> 4 * unat ?mss) \<and>
      (\<not> m_isSlowStart s \<longrightarrow> min (unat ?c) (4 * unat ?mss) \<le> unat c))"
  proof (cases inc)
    case True
    with 3 have "increase_window now ?srtt ?c change tcb s2 = Inr (tcb1, s3)" by simp
    from increase_window_run [OF this refl] i2 le' show ?thesis
      by (elim conjE exE) (intro conjI exI, assumption+, auto)
  next
    case False
    with 3 have "decrease_window now ?mss ?c change tcb s2 = (tcb1, s3)" by simp
    from decrease_window_run [OF this le mss] i2 show ?thesis
      by (elim conjE exE) (intro conjI exI, assumption+, auto)
  qed
  obtain r where r: "tcb2 = tcb1\<lparr>tcb_pacingRate := r\<rparr>" "r \<le> tcb_maxPacingRate tcb1"
    using SetPacingRate_frame [OF 4] by blast
  obtain c where mv: "moved now s2 s3" and c: "tcb1 = tcb\<lparr>tcb_cWnd := c\<rparr>"
    "unat c \<le> unat ?c + max (unat (m_reportAckedBytes s)) (unat ?c) \<or> unat c \<le> 4 * unat ?mss"
    "\<not> m_isSlowStart s \<longrightarrow> min (unat ?c) (4 * unat ?mss) \<le> unat c"
    using m by blast
  have "copa_inv now s'" using mv i2 s' by (simp add: moved_def copa_inv_def)
  moreover have "m_isSlowStart s' \<longrightarrow> m_isSlowStart s" using mv i2 s' by (simp add: moved_def)
  moreover have "tcb' = tcb\<lparr>tcb_cWnd := c, tcb_pacingRate := r, tcb_ssThresh := c\<rparr>"
    "r \<le> tcb_maxPacingRate tcb"
    using t' r c(1) by simp_all
  ultimately show ?thesis
    using c(2,3) s' by (intro conjI exI [of _ c] exI [of _ r]) simp_all
qed


lemma CongControl_cases:
  assumes run: "CongControl f L now rs tcb s = Inr (tcb', s')" and inv: "copa_inv t s"
  obtains (early) s1 where "take_sample L now tcb rs s = Inr s1" "tcb' = tcb" "s' = s1"
  | (report) s1 where "take_sample L now tcb rs s = Inr s1"
      "report_due L now (tcb_lastRtt tcb) s1"
      "control_window f L now (rs_rtt rs) (wf_best L (m_minRttFilter s1))
         (wf_best L (m_standingRttFilter s1)) tcb s1 = Inr (tcb', s')"
  using run unfolding CongControl_def Let_def
  by (auto dest!: res_bind_InrD ns_assert_InrD split: if_splits)

text \<open>A connection: the constructor, from any memory, then one \<open>CongControl\<close> for each
  acknowledgement, in the order of time, with whatever the socket state and the rate sample
  hold.\<close>

inductive copa_run :: "rounding \<Rightarrow> 'w copa_lib \<Rightarrow> time \<Rightarrow> 'w copa \<Rightarrow> bool" for f L where
  run_new: "copa_run f L 0 (copa_attributes (TcpCopa_new L raw))"
| run_copy: "copa_run f L 0 (TcpCopa_copy L sock raw)"
| run_ack: "copa_run f L t s \<Longrightarrow> t \<le> now \<Longrightarrow> unat (tcb_segmentSize tcb) < 2 ^ 30
    \<Longrightarrow> CongControl f L now rs tcb s = Inr (tcb', s') \<Longrightarrow> copa_run f L now s'"

lemma velocity_ok_init: "velocity_ok VelocityState_init"
  by (auto simp: velocity_ok_def VelocityState_init_def intro: exI [of _ 0])

lemma copa_inv_init: "copa_inv 0 (copa_init L raw)"
  by (simp add: copa_inv_def copa_init_def velocity_ok_init) (simp add: VelocityState_init_def)

lemma copa_run_inv: "copa_run f L t s \<Longrightarrow> rounding_ok f \<Longrightarrow> copa_inv t s"
proof (induction rule: copa_run.induct)
  case (run_new raw)
  then show ?case using copa_inv_init [of L raw]
    by (simp add: copa_inv_def copa_attributes_def TcpCopa_new_def)
next
  case (run_copy sock raw)
  then show ?case using copa_inv_init [of L raw]
    by (simp add: copa_inv_def TcpCopa_copy_def)
next
  case (run_ack t s now tcb rs tcb' s')
  have inv: "copa_inv t s" using run_ack by simp
  from run_ack.hyps(4) inv show ?case
  proof (cases rule: CongControl_cases)
    case (early s1)
    then have "copa_inv t s'" using take_sample_run [OF inv, of L now tcb rs] by auto
    then show ?thesis using run_ack.hyps(2) by (auto simp: copa_inv_def)
  next
    case (report s1)
    then have "copa_inv t s1" using take_sample_run [OF inv, of L now tcb rs] by auto
    from control_window_step [OF report(3) run_ack.prems this run_ack.hyps(2,3)]
    show ?thesis by blast
  qed
qed

section \<open>Detecting competing flows\<close>

text \<open>The round trip times the loop looks at, and its result.\<close>

definition recent_rtts :: "u64 \<Rightarrow> 'w copa \<Rightarrow> u64 list" where
  "recent_rtts since s =
     map snd (filter (\<lambda>(t, r). t > since) (zip (copa_times s) (copa_rtts s)))"

lemma minmax_fold:
  "fold (minmax_step since) xs (lo, hi) =
     (fold min (map snd (filter (\<lambda>(t, r). t > since) xs)) lo,
      fold max (map snd (filter (\<lambda>(t, r). t > since) xs)) hi)"
proof (induction xs arbitrary: lo hi)
  case (Cons x xs)
  then show ?case
    by (cases x) (simp add: minmax_step_def min.commute max.commute)
qed simp

lemma fold_min_Min:
  fixes lo :: "'a::linorder"
  shows "fold min xs lo = Min (insert lo (set xs))"
  using Min.set_eq_fold [of lo xs] by simp

lemma fold_max_Max:
  fixes hi :: "'a::linorder"
  shows "fold max xs hi = Max (insert hi (set xs))"
  using Max.set_eq_fold [of hi xs] by simp

lemma Min_top: "xs \<noteq> [] \<Longrightarrow> Min (insert (- 1 :: u64) (set xs)) = Min (set xs)"
  by (subst Min_insert) (auto simp: min_def word_order.extremum_unique intro: antisym)

lemma Max_bot: "xs \<noteq> [] \<Longrightarrow> Max (insert (0 :: u64) (set xs)) = Max (set xs)"
  by (subst Max_insert) (auto simp: max_def)

lemma tcp_detected_eq:
  assumes "copa_rtts s \<noteq> []"
  shows "tcp_detected srtt rtt_min s =
    (let rs = recent_rtts (last (copa_times s) - us_of srtt * 10) s;
         lo = Min (insert (- 1) (set rs)); hi = Max (insert 0 (set rs))
     in us_of rtt_min + (hi - us_of rtt_min) div 10 + us_of (MicroSeconds 100) < lo)"
  using assms
  by (simp add: tcp_detected_def Let_def minmax_fold fold_min_Min fold_max_Max recent_rtts_def)


section \<open>When a call returns\<close>

definition delta_choices :: "rounding \<Rightarrow> rat \<Rightarrow> rat set" where
  "delta_choices f d = {1 / 2, min (1 / 2) (f (d * 2)),
     min (1 / 2) (f (1 / f (1 + f (1 / d)))), min (1 / 2) d}"

lemma ReportMeasurement_choices:
  "kCopaDefaultDelta s = 1 / 2 \<Longrightarrow> m_deltaParam (ReportMeasurement f now srtt rtt_min acked lost s)
     \<in> delta_choices f (m_deltaParam s)"
  using ReportMeasurement_next_delta [of f now srtt rtt_min acked lost s]
  by (auto simp: next_delta_def delta_choices_def)

text \<open>The window's change stays in 32 bits for every value the report and the direction may
  choose.\<close>

definition change_fits :: "rounding \<Rightarrow> u32 \<Rightarrow> u32 \<Rightarrow> u32 \<Rightarrow> rat \<Rightarrow> u64 \<Rightarrow> bool" where
  "change_fits f mss acked c d v \<longleftrightarrow>
     (\<forall>e\<in>delta_choices f d. \<forall>w\<in>{1, v, 2 * v}. 0 < f (e * dbl f c) \<and>
        dbl f (ucast (((acked + mss - 1) div mss) * mss * mss) * w :: u64)
          \<le> 2 ^ 31 * f (e * dbl f c))"

definition call_ok :: "rounding \<Rightarrow> 'w copa_lib \<Rightarrow> time \<Rightarrow> rate_sample \<Rightarrow> tcp_socket_state \<Rightarrow> 'w copa
    \<Rightarrow> bool" where
  "call_ok f L now rs tcb s \<longleftrightarrow>
     (let acked = m_reportAckedBytes s + rs_ackedSacked rs; c = tcb_cWnd tcb
      in tcb_segmentSize tcb \<noteq> 0 \<and> MilliSeconds 1 \<le> tcb_lastRtt tcb \<and>
         unat c + max (unat acked) (unat c) < 2 ^ 32 \<and>
         wf_best L (wf_update L (rs_rtt rs) (us_of now) (m_minRttFilter s)) \<noteq> 0 \<and>
         wf_best L (wf_update L (rs_rtt rs) (us_of now)
           (wf_set_length L (word_of_int (GetMicroSeconds (tcb_lastRtt tcb) sdiv 2))
             (m_standingRttFilter s))) \<noteq> 0 \<and>
         change_fits f (tcb_segmentSize tcb) acked c (m_deltaParam s)
           (velocity (m_velocityState s)))"

lemma window_change_defined:
  assumes f: "rounding_ok f" and fits: "change_fits f mss acked c d v"
    and e: "m_deltaParam s \<in> delta_choices f d" and w: "velocity (m_velocityState s) \<in> {1, v, 2 * v}"
  shows "\<exists>ch. window_change f mss ((acked + mss - 1) div mss) c s = Inr ch \<and> ch \<le> c"
proof -
  let ?b = "dbl f (ucast (((acked + mss - 1) div mss) * mss * mss) * velocity (m_velocityState s) :: u64)"
  let ?q = "f (m_deltaParam s * dbl f c)"
  have q: "0 < ?q" "?b \<le> 2 ^ 31 * ?q"
    using fits e w unfolding change_fits_def by blast+
  have b0: "0 \<le> ?b" by (rule dbl_nonneg [OF f])
  have x0: "0 \<le> ?b / ?q" using b0 q(1) by simp
  have "?b / ?q \<le> of_int (2 ^ 31)" using q by (simp add: divide_le_eq)
  then have "f (?b / ?q) \<le> of_int (2 ^ 31)"
    using rounding_mono [OF f, of "?b / ?q" "of_int (2 ^ 31)"] rounding_int [OF f, of "2 ^ 31"] by simp
  then have "f (?b / ?q) < 2 ^ 32" by simp
  moreover have "0 \<le> f (?b / ?q)" using x0 by (rule rounding_nonneg [OF f])
  ultimately have "fp_to_uint 32 (Fin (f (?b / ?q))) = Inr (trunc (f (?b / ?q)))"
    by (intro fp_to_uint_Fin)
  moreover have "?q \<noteq> 0" using q(1) by linarith
  ultimately have "window_change f mss ((acked + mss - 1) div mss) c s =
      Inr (min (word_of_int (trunc (f (?b / ?q)))) c)"
    by (simp add: window_change_def fdiv_def Let_def)
  then show ?thesis by (intro exI conjI) (assumption, rule min.cobounded2)
qed

lemma increase_window_defined:
  assumes "unat c + max (unat (m_reportAckedBytes s)) (unat ch) < 2 ^ 32"
  shows "\<exists>r. increase_window now srtt c ch tcb s = Inr r"
  using assms by (auto simp: increase_window_def AddAndCheckOverflow_eq Let_def)

lemma control_window_defined:
  assumes f: "rounding_ok f" and inv: "copa_inv t s" and now: "t \<le> now"
    and mss: "tcb_segmentSize tcb \<noteq> 0" and rtt: "MilliSeconds 1 \<le> tcb_lastRtt tcb"
    and room: "unat (tcb_cWnd tcb) + max (unat (m_reportAckedBytes s)) (unat (tcb_cWnd tcb)) < 2 ^ 32"
    and fits: "change_fits f (tcb_segmentSize tcb) (m_reportAckedBytes s) (tcb_cWnd tcb)
      (m_deltaParam s) (velocity (m_velocityState s))"
  shows "\<exists>r. control_window f L now rt rtt_min rttStanding tcb s = Inr r"
proof -
  let ?mss = "tcb_segmentSize tcb" and ?c = "tcb_cWnd tcb" and ?srtt = "tcb_lastRtt tcb"
  let ?r = "ReportMeasurement f now ?srtt rtt_min (m_reportAckedBytes s) (m_reportLostBytes s) s"
  let ?delay = "if m_useRttStanding ?r then us_of rttStanding - us_of rtt_min
    else us_of rt - us_of rtt_min"
  obtain inc br where cmp: "compare_rates f ?mss ?c rttStanding ?delay ?r = (inc, br)"
    by (cases "compare_rates f ?mss ?c rttStanding ?delay ?r")
  let ?s1 = "?r\<lparr>m_bitrate := br\<rparr>"
  have d: "m_deltaParam ?r \<in> delta_choices f (m_deltaParam s)"
    using inv by (intro ReportMeasurement_choices) (simp add: copa_inv_def)
  have i1: "copa_inv t ?s1"
    using ReportMeasurement_inv [OF f inv] by (simp add: copa_inv_def)
  obtain s2 where 2: "(if inc \<and> m_isSlowStart ?s1 then Inr ?s1
      else CheckAndUpdateDirection now ?srtt ?c (m_reportAckedBytes ?s1) ?s1) = Inr s2"
    and s2: "m_deltaParam s2 = m_deltaParam ?r" "m_reportAckedBytes s2 = m_reportAckedBytes s"
      "velocity (m_velocityState s2) \<in>
        {1, velocity (m_velocityState s), 2 * velocity (m_velocityState s)}"
  proof (cases "inc \<and> m_isSlowStart ?s1")
    case True
    then show ?thesis by (intro that [of ?s1]) (simp_all add: ReportMeasurement_frame)
  next
    case False
    from CheckAndUpdateDirection_run [OF i1 now, of ?srtt ?c "m_reportAckedBytes ?s1"]
    obtain v n where r: "CheckAndUpdateDirection now ?srtt ?c (m_reportAckedBytes ?s1) ?s1 =
        Inr (?s1\<lparr>m_velocityState := v, m_TotalAckedBytes := n\<rparr>)"
      "velocity v \<in> {1, velocity (m_velocityState ?s1), 2 * velocity (m_velocityState ?s1)}"
      by (elim exE conjE) (rule that; assumption)
    have "(if inc \<and> m_isSlowStart ?s1 then Inr ?s1
        else CheckAndUpdateDirection now ?srtt ?c (m_reportAckedBytes ?s1) ?s1) =
      Inr (?s1\<lparr>m_velocityState := v, m_TotalAckedBytes := n\<rparr>)"
      unfolding if_not_P [OF False] by (rule r)
    then show ?thesis using r(2)
      by (intro that [of "?s1\<lparr>m_velocityState := v, m_TotalAckedBytes := n\<rparr>"])
         (assumption, simp_all add: ReportMeasurement_frame)
  qed
  obtain ch where ch: "window_change f ?mss ((m_reportAckedBytes ?r + ?mss - 1) div ?mss) ?c s2 = Inr ch"
    "ch \<le> ?c"
    using window_change_defined [OF f fits, of s2] d s2 by (auto simp: ReportMeasurement_frame)
  have "unat ch \<le> unat ?c" using ch(2) by (simp add: word_le_nat_alt)
  then have room': "unat ?c + max (unat (m_reportAckedBytes s2)) (unat ch) < 2 ^ 32"
    using room unfolding s2(2) by linarith
  obtain tcb1 s3 where 3: "(if inc then increase_window now ?srtt ?c ch tcb s2
      else Inr (decrease_window now ?mss ?c ch tcb s2)) = Inr (tcb1, s3)"
    and keep: "tcb_lastRtt tcb1 = ?srtt"
  proof (cases inc)
    case True
    obtain t3 s3 where i: "increase_window now ?srtt ?c ch tcb s2 = Inr (t3, s3)"
      using increase_window_defined [OF room'] by force
    from increase_window_run [OF i refl] True i show ?thesis by (intro that [of t3 s3]) auto
  next
    case False
    obtain t3 s3 where i: "decrease_window now ?mss ?c ch tcb s2 = (t3, s3)"
      by (cases "decrease_window now ?mss ?c ch tcb s2")
    then have "tcb_lastRtt t3 = ?srtt" by (auto simp: decrease_window_def Let_def)
    then show ?thesis using False i by (intro that [of t3 s3]) simp_all
  qed
  obtain r where "SetPacingRate f 2 tcb1 = Inr (tcb1\<lparr>tcb_pacingRate := r\<rparr>)"
    using pacing_defined [OF f, of tcb1] rtt keep by auto
  then show ?thesis
    using mss cmp 2 ch(1) 3 unfolding control_window_def Let_def by simp
qed


lemma CongControl_defined:
  assumes "rounding_ok f" "copa_run f L t s" "t \<le> now" "call_ok f L now rs tcb s"
  shows "\<exists>r. CongControl f L now rs tcb s = Inr r"
proof -
  have inv: "copa_inv t s" using copa_run_inv assms(2,1) .
  obtain s1 where s1: "take_sample L now tcb rs s = Inr s1" "copa_inv t s1"
    "m_reportAckedBytes s1 = m_reportAckedBytes s + rs_ackedSacked rs"
    "m_minRttFilter s1 = wf_update L (rs_rtt rs) (us_of now) (m_minRttFilter s)"
    "m_standingRttFilter s1 = wf_update L (rs_rtt rs) (us_of now)
       (wf_set_length L (word_of_int (GetMicroSeconds (tcb_lastRtt tcb) sdiv 2))
         (m_standingRttFilter s))"
    "m_velocityState s1 = m_velocityState s" "m_deltaParam s1 = m_deltaParam s"
    using take_sample_run [OF inv, of L now tcb rs] by auto
  have "\<exists>r. control_window f L now (rs_rtt rs) (wf_best L (m_minRttFilter s1))
      (wf_best L (m_standingRttFilter s1)) tcb s1 = Inr r"
    using assms(4) unfolding call_ok_def Let_def
    by (intro control_window_defined [OF assms(1) s1(2) assms(3)]) (simp_all add: s1(3-7))
  then show ?thesis
    using assms(4) s1 by (simp add: CongControl_def call_ok_def Let_def)
qed

section \<open>A concrete filter and an example\<close>

text \<open>A windowed minimum that keeps all samples of the window.\<close>

type_synonym window = "u64 \<times> (time \<times> u64) list"

definition window_lib :: "window copa_lib" where
  "window_lib = \<lparr>
     wf_new = (\<lambda>len x t. (len, [])),
     wf_update = (\<lambda>x t (len, xs). (len, filter (\<lambda>(y, u). t - u \<le> len) xs @ [(x, t)])),
     wf_set_length = (\<lambda>len (_, xs). (len, xs)),
     wf_best = (\<lambda>(len, xs). fold (\<lambda>(y, u) m. min y m) (tl xs) (fst (hd xs))),
     wf_reset = (\<lambda>x t (len, xs). (len, [(x, t)])),
     scale_time = (\<lambda>c t. trunc (c * of_int t))\<rparr>"

definition copa_memory :: "window copa" where
  "copa_memory = \<lparr>m_bitrate = Fin 0, m_minRttFilter = (0, []), m_standingRttFilter = (0, []),
     m_useRttStanding = False, m_isSlowStart = True, m_deltaParam = 0, m_lastCwndDoubleTime = 0,
     m_velocityState = VelocityState_init, m_ackBytesRound = 0, copa_rtts = [], copa_times = [],
     copa_increase = [], copa_max_time = 0, copa_num_increase = 0, m_copaCurMode = Default,
     m_copaModeSwitch = False, kCopaDefaultDelta = 0, m_TotalAckedBytes = 0, m_curNumAcked = 0,
     m_curNumLosses = 0, m_reportAckedBytes = 0, m_reportLostBytes = 0, m_prevLossCycle = 0,
     m_prevLossRate = 0, kReportIntervalRtt = 0, m_lastReportTime = 0\<rparr>"

definition copa_example :: "window copa" where
  "copa_example = copa_attributes (TcpCopa_new window_lib copa_memory)"

text \<open>A round trip time of 20 milliseconds, a window of ten segments of 1000 bytes.\<close>

definition copa_tcb :: tcp_socket_state where
  "copa_tcb = \<lparr>tcb_pacing = True, tcb_ssThresh = 0, tcb_segmentSize = 1000, tcb_cWnd = 10000,
     tcb_lastRtt = MilliSeconds 20, tcb_pacingRate = 0, tcb_maxPacingRate = 4000000000\<rparr>"

definition copa_ack :: rate_sample where
  "copa_ack = \<lparr>rs_rtt = MilliSeconds 20, rs_ackedSacked = 1000, rs_bytesLoss = 0\<rparr>"

lemmas copa_example_defs = copa_example_def copa_attributes_def TcpCopa_new_def copa_init_def
  copa_memory_def VelocityState_init_def

lemma copa_example_run: "copa_run f window_lib 0 copa_example"
  unfolding copa_example_def by (rule run_new)

lemma copa_example_fields:
  "m_reportAckedBytes copa_example = 0" "m_deltaParam copa_example = 1 / 2"
  "velocity (m_velocityState copa_example) = 1" "m_isSlowStart copa_example"
  "m_minRttFilter copa_example = (10000000, [])" "m_standingRttFilter copa_example = (100000, [])"
  by (simp_all add: copa_example_defs window_lib_def time_defs kRTTWindowLength_def
      kSrttWindowLength_def signed_divide_int_def)

lemma copa_example_ok: "call_ok (\<lambda>x. x) window_lib (MilliSeconds 50) copa_ack copa_tcb copa_example"
  by (simp add: call_ok_def copa_example_fields copa_tcb_def copa_ack_def change_fits_def
      delta_choices_def dbl_def window_lib_def time_defs)

section \<open>Properties\<close>

text \<open>C13: whatever the socket reports, in every state of a connection the latency factor lies
  between zero and its default of one half, the velocity is a power of two (or has overflowed to
  zero) and is one as long as no direction is known, every round trip time has its time stamp, and
  at most 40 increases are remembered and counted.\<close>

theorem copa_invariants:
  assumes "copa_run f L t s" "rounding_ok f"
  shows "0 \<le> m_deltaParam s \<and> m_deltaParam s \<le> 1 / 2 \<and>
    (velocity (m_velocityState s) = 0 \<or> (\<exists>k. velocity (m_velocityState s) = 2 ^ k)) \<and>
    (direction (m_velocityState s) = DirNone \<longrightarrow> velocity (m_velocityState s) = 1) \<and>
    length (copa_rtts s) = length (copa_times s) \<and>
    length (copa_increase s) \<le> 40 \<and> copa_num_increase s = int (length (copa_increase s))"
  using copa_run_inv [OF assms] by (auto simp: copa_inv_def velocity_ok_def)

lemma copa_invariants_witness:
  "0 \<le> m_deltaParam copa_example \<and> m_deltaParam copa_example \<le> 1 / 2"
  using copa_invariants [OF copa_example_run rounding_ok_id] by simp

text \<open>C14: an acknowledgement either leaves the socket alone, or half a round trip time has passed
  since the last report and the window moves within bounds: it grows by at most its own size or what
  was acknowledged (and is otherwise at most four segments), after slow start it does not fall below
  four segments unless it was below, the slow start threshold follows it, the pacing rate respects
  its maximum, and the counters start again.\<close>

theorem copa_window_step:
  assumes "rounding_ok f" "copa_run f L t s" "t \<le> now" "unat (tcb_segmentSize tcb) < 2 ^ 30"
    "CongControl f L now rs tcb s = Inr (tcb', s')"
  shows "tcb' = tcb \<or>
    m_lastReportTime s + scale_time L (kReportIntervalRtt s) (tcb_lastRtt tcb) < now \<and>
    m_lastReportTime s' = now \<and> m_reportAckedBytes s' = 0 \<and> m_reportLostBytes s' = 0 \<and>
    (m_isSlowStart s' \<longrightarrow> m_isSlowStart s) \<and>
    (\<exists>c r. tcb' = tcb\<lparr>tcb_cWnd := c, tcb_pacingRate := r, tcb_ssThresh := c\<rparr> \<and>
       r \<le> tcb_maxPacingRate tcb \<and>
       (unat c \<le> unat (tcb_cWnd tcb) +
          max (unat (m_reportAckedBytes s + rs_ackedSacked rs)) (unat (tcb_cWnd tcb)) \<or>
        unat c \<le> 4 * unat (tcb_segmentSize tcb)) \<and>
       (\<not> m_isSlowStart s \<longrightarrow>
          min (unat (tcb_cWnd tcb)) (4 * unat (tcb_segmentSize tcb)) \<le> unat c))"
proof -
  have inv: "copa_inv t s" using copa_run_inv assms(2,1) .
  from assms(5) inv show ?thesis
  proof (cases rule: CongControl_cases)
    case (early s1)
    then show ?thesis by simp
  next
    case (report s1)
    have s1: "copa_inv t s1" "m_reportAckedBytes s1 = m_reportAckedBytes s + rs_ackedSacked rs"
      "m_isSlowStart s1 = m_isSlowStart s" "m_lastReportTime s1 = m_lastReportTime s"
      "kReportIntervalRtt s1 = kReportIntervalRtt s"
      using take_sample_run [OF inv, of L now tcb rs] report(1) by auto
    from report(2) show ?thesis
      using control_window_step [OF report(3) assms(1) s1(1) assms(3,4)]
      unfolding report_due_def s1(2-5) by blast
  qed
qed

lemma copa_window_step_witness:
  "\<exists>tcb' s'. CongControl (\<lambda>x. x) window_lib (MilliSeconds 50) copa_ack copa_tcb copa_example =
       Inr (tcb', s') \<and>
     (tcb' = copa_tcb \<or> unat (tcb_cWnd tcb') \<le> 20000 \<and> m_reportAckedBytes s' = 0)"
proof -
  have now: "0 \<le> MilliSeconds 50" by (simp add: time_defs)
  have mss: "unat (tcb_segmentSize copa_tcb) < 2 ^ 30" by (simp add: copa_tcb_def)
  obtain tcb' s' where r: "CongControl (\<lambda>x. x) window_lib (MilliSeconds 50) copa_ack copa_tcb
      copa_example = Inr (tcb', s')"
    using CongControl_defined [OF rounding_ok_id copa_example_run now copa_example_ok] by auto
  from copa_window_step [OF rounding_ok_id copa_example_run now mss r]
  have "tcb' = copa_tcb \<or> unat (tcb_cWnd tcb') \<le> 20000 \<and> m_reportAckedBytes s' = 0"
    by (auto simp: copa_tcb_def copa_ack_def copa_example_fields)
  with r show ?thesis by blast
qed

text \<open>An acknowledgement is processed without a failed assertion, a division by zero or a
  conversion out of range, when the segment size is not zero, the round trip time is a millisecond
  or more, the window and what was acknowledged fit in 32 bits together, the filters report
  times other than zero, and the change of the window fits in 32 bits.\<close>

theorem CongControl_returns:
  assumes "rounding_ok f" "copa_run f L t s" "t \<le> now" "call_ok f L now rs tcb s"
  shows "\<exists>r. CongControl f L now rs tcb s = Inr r"
  using assms by (rule CongControl_defined)

lemma CongControl_returns_witness:
  "\<exists>r. CongControl (\<lambda>x. x) window_lib (MilliSeconds 50) copa_ack copa_tcb copa_example = Inr r"
  by (rule CongControl_returns [OF rounding_ok_id copa_example_run _ copa_example_ok])
     (simp add: time_defs)

text \<open>C15: once the last sample is ten round trip times after the start of the clock, a competing
  flow is detected exactly when the smallest of the samples younger than ten round trip times exceeds
  the minimum by more than a tenth of the spread and 0.1 milliseconds.\<close>

theorem tcp_detected_exact:
  assumes late: "10 * uint (us_of srtt) \<le> uint (last (copa_times s))"
    and some: "recent_rtts (last (copa_times s) - us_of srtt * 10) s \<noteq> []"
    and min: "us_of rtt_min \<le> Max (set (recent_rtts (last (copa_times s) - us_of srtt * 10) s))"
    and small: "uint (Max (set (recent_rtts (last (copa_times s) - us_of srtt * 10) s))) < 2 ^ 62"
  defines "recent \<equiv> {r. \<exists>t. (t, r) \<in> set (zip (copa_times s) (copa_rtts s)) \<and>
     uint (last (copa_times s)) - 10 * uint (us_of srtt) < uint t}"
  shows "tcp_detected srtt rtt_min s \<longleftrightarrow>
    uint (us_of rtt_min) + (uint (Max recent) - uint (us_of rtt_min)) div 10 + 100
      < uint (Min recent)"
proof -
  let ?since = "last (copa_times s) - us_of srtt * 10" and ?m = "us_of rtt_min"
  let ?rs = "recent_rtts ?since s"
  have "uint (us_of srtt * 10) = 10 * uint (us_of srtt)"
    unfolding uint_word_ariths using late uint_bounded [of "last (copa_times s)"] uint_ge_0 [of "us_of srtt"]
    by (subst mod_pos_pos_trivial) simp_all
  then have since: "uint ?since = uint (last (copa_times s)) - 10 * uint (us_of srtt)"
    using late uint_minus_le [of "us_of srtt * 10" "last (copa_times s)"] by simp
  have rec: "set ?rs = recent"
    by (auto simp: recent_rtts_def recent_def word_less_def since image_iff)
  have ne: "copa_rtts s \<noteq> []" using some by (auto simp: recent_rtts_def)
  let ?hi = "Max (set ?rs)"
  have d: "uint (?hi - ?m) = uint ?hi - uint ?m"
    using min by (simp add: uint_minus_simple_alt [symmetric])
  have dv: "uint ((?hi - ?m) div 10) = (uint ?hi - uint ?m) div 10"
    unfolding d [symmetric] by (simp add: uint_div)
  have hundred: "us_of (MicroSeconds 100) = 100"
    by (simp add: us_of_def time_defs signed_divide_int_def)
  have le: "uint ?m \<le> uint ?hi" using min by (simp add: word_le_def)
  have "x div 10 \<le> x" if "0 \<le> x" for x :: int using that by presburger
  from this [of "uint ?hi - uint ?m"] have q: "(uint ?hi - uint ?m) div 10 < 2 ^ 62"
    using le small uint_ge_0 [of ?m] by linarith
  have m: "uint ?m < 2 ^ 62" using le small by linarith
  have s1: "uint (?m + (?hi - ?m) div 10) = uint ?m + (uint ?hi - uint ?m) div 10"
    using uint_plus_lt [of ?m "(?hi - ?m) div 10"] q m dv by simp
  have thresh: "uint (?m + (?hi - ?m) div 10 + 100) = uint ?m + (uint ?hi - uint ?m) div 10 + 100"
    using uint_plus_lt [of "?m + (?hi - ?m) div 10" 100] q m s1 by simp
  show ?thesis
    unfolding tcp_detected_eq [OF ne] Let_def Min_top [OF some] Max_bot [OF some] hundred
      word_less_def thresh unfolding rec ..
qed

lemma tcp_detected_exact_witness:
  "tcp_detected (MilliSeconds 20) (MilliSeconds 20)
     (copa_example\<lparr>copa_times := [1000000], copa_rtts := [40000]\<rparr>)"
  by (subst tcp_detected_exact)
     (simp_all add: recent_rtts_def us_of_def time_defs signed_divide_int_def)

text \<open>Before the last sample is ten round trip times after the start of the clock, the bound for
  the age of a sample wraps around, no sample is looked at, and a competing flow is reported
  whatever the round trip times were.\<close>

theorem tcp_detected_at_start:
  assumes early: "uint (last (copa_times s)) < 10 * uint (us_of srtt)" "uint (us_of srtt) < 2 ^ 59"
    and past: "\<forall>t\<in>set (copa_times s). t \<le> last (copa_times s)"
    and some: "copa_rtts s \<noteq> []" and small: "uint (us_of rtt_min) < 2 ^ 62"
  shows "tcp_detected srtt rtt_min s"
proof -
  let ?l = "last (copa_times s)" and ?m = "us_of rtt_min"
  let ?since = "?l - us_of srtt * 10"
  have ten: "uint (us_of srtt * 10) = 10 * uint (us_of srtt)"
    unfolding uint_word_ariths using early(2) uint_ge_0 [of "us_of srtt"]
    by (subst mod_pos_pos_trivial) simp_all
  have "?l \<noteq> us_of srtt * 10" using early(1) ten by auto
  then have "uint ?since = 2 ^ 64 - uint (us_of srtt * 10 - ?l)"
    using uint_minus_swap [of "us_of srtt * 10" ?l] by simp
  moreover have "uint (us_of srtt * 10 - ?l) = 10 * uint (us_of srtt) - uint ?l"
    using early(1) ten uint_minus_le [of ?l "us_of srtt * 10"] by simp
  ultimately have "uint ?l \<le> uint ?since" using early(2) by simp
  then have "\<not> ?since < t" if "t \<in> set (copa_times s)" for t
    using past that by (auto simp: word_le_def word_less_def)
  then have none: "recent_rtts ?since s = []"
    by (auto simp: recent_rtts_def filter_empty_conv dest!: set_zip_leftD)
  have hundred: "us_of (MicroSeconds 100) = 100"
    by (simp add: us_of_def time_defs signed_divide_int_def)
  have "uint (0 - ?m) < 18446744073709551616" using uint_bounded [of "0 - ?m"] by simp
  then have dv: "uint ((0 - ?m) div 10) \<le> 1844674407370955161" unfolding uint_div by simp
  have m: "uint ?m < 4611686018427387904" using small by simp
  have sm: "uint (?m + (0 - ?m) div 10) = uint ?m + uint ((0 - ?m) div 10)"
    using m dv by (intro uint_plus_lt) simp
  have "uint (?m + (0 - ?m) div 10 + 100) = uint ?m + uint ((0 - ?m) div 10) + 100"
    using uint_plus_lt [of "?m + (0 - ?m) div 10" 100] m dv unfolding sm by simp
  moreover have "uint (- 1 :: u64) = 18446744073709551615"
    by (simp add: unsigned_minus_1_eq_mask mask_eq_exp_minus_1)
  ultimately have "uint (?m + (0 - ?m) div 10 + 100) < uint (- 1 :: u64)"
    using m dv by linarith
  then show ?thesis
    unfolding tcp_detected_eq [OF some] Let_def none hundred word_less_def
    by (simp only: list.set Min_singleton Max_singleton)
qed

lemma tcp_detected_at_start_witness:
  "tcp_detected (MilliSeconds 20) (MilliSeconds 20)
     (copa_example\<lparr>copa_times := [50000], copa_rtts := [20000]\<rparr>)"
  by (rule tcp_detected_at_start) (simp_all add: us_of_def time_defs signed_divide_int_def)

text \<open>With a round trip time below a millisecond and a window that is not empty the pacing rate is
  a quotient by zero, whose conversion to an integer is undefined.\<close>

theorem short_rtt_pacing_undefined:
  assumes f: "rounding_ok f" and rtt: "0 < tcb_lastRtt tcb" "tcb_lastRtt tcb < MilliSeconds 1"
  shows "SetPacingRate f 2 tcb = Inl UndefinedBehaviour \<and> copa_Init f tcb = Inl UndefinedBehaviour"
proof -
  have "GetMilliSeconds (tcb_lastRtt tcb) = 0"
    using rtt by (simp add: time_defs signed_divide_int_def)
  then show ?thesis
    using rtt rounding_zero [OF f]
    by (simp add: SetPacingRate_def copa_Init_def InitPacingRateFromRtt_def fdiv_def Let_def)
qed

lemma short_rtt_pacing_undefined_witness:
  "copa_Init (\<lambda>x. x) (copa_tcb\<lparr>tcb_lastRtt := 500000\<rparr>) = Inl UndefinedBehaviour"
  using short_rtt_pacing_undefined [OF rounding_ok_id, of "copa_tcb\<lparr>tcb_lastRtt := 500000\<rparr>"]
  by (simp add: time_defs)

end
