(* ===== verification/Receiver_Udp.thy ===== *)
theory Receiver_Udp
  imports Packet_Group Video_Decoder "HOL-Library.Sublist"
begin

text \<open>
  \<open>PacketReceiverUdp\<close> (\<open>bitrate-ctrl/model/packet-receiver-udp.\{h,cc\}\<close>) and its base class: the
  client's end of the UDP video stream. A packet goes into its group, what the group decodes goes to
  the video decoder and is acknowledged, groups are completed and timed out, and the
  packet enters the reception record from which \<open>Feedback_NetState\<close> reports losses,
  throughput and reception times.

  The sockets and the timer's clock are ns-3's: packets sent are results, the timer is the flag
  whether it runs. Single-precision results are rounded by \<open>fs\<close>, double-precision ones by
  \<open>fd\<close>. The hash maps are association lists.
\<close>

section \<open>State\<close>

record receiver =
  r_decoder :: VideoDecoder
  r_delay_ddl :: time
  m_record :: "RcvTime list"
  m_feedback_interval :: time
  m_feedbackTimer :: bool
  m_last_feedback :: u16
  wnd_size :: u16
  time_wnd_size :: u32
  m_credible :: u16
  bytes_per_packet :: u32
  last_id :: u16
  pkts_in_wnd :: u16
  bytes_in_wnd :: u32
  time_in_wnd :: u32
  losses_in_wnd :: u32
  rcvd_pkt_cnt :: u64
  rcvd_data_pkt_cnt :: u64
  rcvd_fec_pkt_cnt :: u64
  rcvd_pkt_rtx_count :: "(u8 \<times> u64) list"
  rcvd_group_rtx_count :: "(u8 \<times> u64) list"
  rcvd_datapkt_rtx_count :: "(u8 \<times> u64) list"
  rcvd_fecpkt_rtx_count :: "(u8 \<times> u64) list"
  incomplete_groups :: "(u32 \<times> PacketGroup) list"
  complete_groups :: "(u32 \<times> PacketGroup) list"
  timeout_groups :: "(u32 \<times> PacketGroup) list"
  r_loss_rate :: rat
  throughput_kbps :: rat
  one_way_dispersion :: time
  m_loss_seq :: "int list"
  m_recv_sample :: "RcvTime list"
  m_peerIP :: u32
  m_peerPort :: u16
  m_localPort :: u16

definition PacketReceiverUdp_new ::
  "u32 \<Rightarrow> u16 \<Rightarrow> u32 \<Rightarrow> u16 \<Rightarrow> u16 \<Rightarrow> receiver \<Rightarrow> receiver" where
  "PacketReceiverUdp_new wndsize interval peerIP peerPort localPort raw = raw\<lparr>
     m_record := [], m_feedback_interval := MilliSeconds (uint interval), m_feedbackTimer := False,
     m_last_feedback := 65535, wnd_size := 1000, time_wnd_size := wndsize, m_credible := 1000,
     bytes_per_packet := 1500, last_id := 0, pkts_in_wnd := 0, bytes_in_wnd := 0,
     time_in_wnd := 0, losses_in_wnd := 0, rcvd_pkt_cnt := 0, rcvd_data_pkt_cnt := 0,
     rcvd_fec_pkt_cnt := 0, rcvd_pkt_rtx_count := [], rcvd_group_rtx_count := [],
     rcvd_datapkt_rtx_count := [], rcvd_fecpkt_rtx_count := [],
     incomplete_groups := [], complete_groups := [], timeout_groups := [], r_loss_rate := 0,
     throughput_kbps := 30000, one_way_dispersion := MicroSeconds 180, m_loss_seq := [1000],
     m_recv_sample := [], m_peerIP := peerIP, m_peerPort := peerPort, m_localPort := localPort\<rparr>"

definition Receiver_StartApplication :: "VideoDecoder \<Rightarrow> time \<Rightarrow> receiver \<Rightarrow> receiver" where
  "Receiver_StartApplication dec ddl s = s\<lparr>r_decoder := dec, r_delay_ddl := ddl\<rparr>"

definition Set_FECgroup_delay :: "time \<Rightarrow> receiver \<Rightarrow> receiver" where
  "Set_FECgroup_delay d s = s\<lparr>one_way_dispersion := d\<rparr>"

definition Get_FECgroup_delay :: "receiver \<Rightarrow> time" where
  "Get_FECgroup_delay s = one_way_dispersion s"

section \<open>Comparing identifiers\<close>

definition lessThan_simple :: "u32 \<Rightarrow> u32 \<Rightarrow> bool" where
  "lessThan_simple id1 id2 = lessThan (ucast id1 :: u16) (ucast id2)"

definition lessThan_wnd :: "u16 \<Rightarrow> u16 \<Rightarrow> receiver \<Rightarrow> bool" where
  "lessThan_wnd id1 id2 s =
     (let w = uint (wnd_size s); l = uint (last_id s); a = uint id1; b = uint id2
      in if l \<ge> w \<and> a < b then True
         else if l < w then
           (b \<le> l \<and> a \<ge> 65536 - w + l) \<or>
           (a < b \<and> ((a \<ge> 65536 - w + l \<and> b \<ge> 65536 - w + l) \<or> (a \<le> l \<and> b \<le> l)))
         else False)"

section \<open>The reception record\<close>

text \<open>
  The loop that slides the window erases the element its iterator points to and then advances that
  iterator. The standard gives it no meaning after the erasure; \<open>nx\<close> is an argument: the
  position at which the loop goes on, given the index erased and the size before, or \<open>None\<close>
  where it does not.
\<close>

type_synonym erased_iterator = "nat \<Rightarrow> nat \<Rightarrow> nat option"

definition stale :: "u32 \<Rightarrow> u32 \<Rightarrow> RcvTime \<Rightarrow> bool" where
  "stale RxTime wnd r \<longleftrightarrow> rt_us r < RxTime - wnd"

function slide_window :: "erased_iterator \<Rightarrow> (RcvTime \<Rightarrow> bool) \<Rightarrow> nat \<Rightarrow> RcvTime list \<Rightarrow> u32
    \<Rightarrow> (RcvTime list \<times> u32) res" where
  "slide_window nx old i q bytes =
     (if i < length q then
        if old (q ! i)
        then (case nx i (length q) of
            None \<Rightarrow> Inl UndefinedBehaviour
          | Some j \<Rightarrow> slide_window nx old j (take i q @ drop (Suc i) q)
                       (bytes - rt_pkt_size (q ! i)))
        else slide_window nx old (Suc i) q bytes
      else Inr (q, bytes))"
  by pat_completeness auto
termination
  by (relation "measures [\<lambda>(nx, old, i, q, b). length q, \<lambda>(nx, old, i, q, b). length q - i]") auto

declare slide_window.simps [simp del]

text \<open>The search from the back for the place of a new element; nothing is inserted when no element
  is less.\<close>

fun insert_from_back :: "RcvTime \<Rightarrow> RcvTime list \<Rightarrow> RcvTime list \<Rightarrow> RcvTime list option" where
  "insert_from_back rt [] after = None"
| "insert_from_back rt (x # before) after =
     (if lessThan_simple (rt_pkt_id x) (rt_pkt_id rt) then Some (rev (x # before) @ rt # after)
      else insert_from_back rt before (x # after))"

definition insert_record :: "RcvTime \<Rightarrow> RcvTime list \<Rightarrow> RcvTime list" where
  "insert_record rt q =
     (case q of
        [] \<Rightarrow> [rt]
      | x # _ \<Rightarrow> if lessThan_simple (rt_pkt_id rt) (rt_pkt_id x) then rt # q
                 else (case insert_from_back rt (rev q) [] of Some q' \<Rightarrow> q' | None \<Rightarrow> q))"

definition record_packet :: "erased_iterator \<Rightarrow> RcvTime \<Rightarrow> receiver \<Rightarrow> receiver res" where
  "record_packet nx rt s =
     (if m_record s = [] then
        Inr (s\<lparr>m_record := [rt], last_id := ucast (rt_pkt_id rt), m_feedbackTimer := True,
               bytes_in_wnd := bytes_in_wnd s + rt_pkt_size rt\<rparr>)
      else res_bind (slide_window nx (stale (rt_us rt) (time_wnd_size s)) 0 (m_record s)
                      (bytes_in_wnd s)) (\<lambda>(q, bytes).
           Inr (s\<lparr>m_record := insert_record rt q, bytes_in_wnd := bytes + rt_pkt_size rt\<rparr>)))"

section \<open>Groups\<close>

text \<open>What comes from outside: the order of a hash map, the memory of new objects.\<close>

record receiver_env =
  rv_pick :: "(u16 \<times> FECPacket) list \<Rightarrow> u16 \<times> FECPacket"
  rv_raw_group :: PacketGroup
  rv_raw :: raw_objects

definition count_tx :: "u8 \<Rightarrow> (u8 \<times> u64) list \<Rightarrow> (u8 \<times> u64) list" where
  "count_tx tx m = AList.update tx ((case map_of m tx of None \<Rightarrow> 0 | Some n \<Rightarrow> n) + 1) m"

definition receive_statistics :: "vpacket \<Rightarrow> receiver \<Rightarrow> receiver" where
  "receive_statistics pkt s =
     (let tx = vh_tx_count (vp_header pkt);
          s1 = s\<lparr>rcvd_pkt_rtx_count := count_tx tx (rcvd_pkt_rtx_count s),
                 rcvd_pkt_cnt := rcvd_pkt_cnt s + 1\<rparr>;
          s2 = (if vp_type pkt = DATA_PKT
                then s1\<lparr>rcvd_data_pkt_cnt := rcvd_data_pkt_cnt s1 + 1,
                        rcvd_datapkt_rtx_count := count_tx tx (rcvd_datapkt_rtx_count s1)\<rparr>
                else s1)
      in if vp_type pkt = FEC_PKT \<or> vp_type pkt = DUP_FEC_PKT
         then s2\<lparr>rcvd_fec_pkt_cnt := rcvd_fec_pkt_cnt s2 + 1,
                 rcvd_fecpkt_rtx_count := count_tx tx (rcvd_fecpkt_rtx_count s2)\<rparr>
         else s2)"

definition find_or_create :: "receiver_env \<Rightarrow> vpacket \<Rightarrow> receiver \<Rightarrow> PacketGroup" where
  "find_or_create env pkt s =
     (let h = vp_header pkt
      in case map_of (incomplete_groups s) (vh_group_id h) of
           Some g \<Rightarrow> g
         | None \<Rightarrow> PacketGroup_ctor (vh_group_id h) (vh_group_data_num h) (vh_encode_time h)
                     (rv_raw_group env))"

definition ReplyACK :: "receiver_env \<Rightarrow> DataPacket list \<Rightarrow> u16 \<Rightarrow> net_packet" where
  "ReplyACK env data_pkts last_pkt_id =
     AckP (AckPacket_ctor
       (map (\<lambda>p. \<lparr>gpi_group_id = vh_group_id (video_header p),
                  gpi_pkt_id_in_group = vh_pkt_id_in_group (video_header p),
                  gpi_tx_count = raw_tx (rv_raw env)\<rparr>) data_pkts)
       last_pkt_id (raw_tx (rv_raw env)) (raw_ack (rv_raw env)))"

definition complete_group :: "u32 \<Rightarrow> PacketGroup \<Rightarrow> receiver \<Rightarrow> receiver res" where
  "complete_group gid g s =
     res_bind (GetAvgPktInterval g) (\<lambda>avg.
     let s1 = s\<lparr>rcvd_group_rtx_count := count_tx (pg_max_tx_count g) (rcvd_group_rtx_count s)\<rparr>;
         s2 = (if avg > MicroSeconds 0 then Set_FECgroup_delay avg s1 else s1)
     in Inr (s2\<lparr>complete_groups := AList.update gid g (complete_groups s2),
                incomplete_groups := AList.delete gid (incomplete_groups s2)\<rparr>))"

definition timed_out :: "time \<Rightarrow> time \<Rightarrow> PacketGroup \<Rightarrow> bool" where
  "timed_out rcv ddl g \<longleftrightarrow> rcv > pg_encode_time g + ddl"

definition expire_groups :: "time \<Rightarrow> receiver \<Rightarrow> receiver" where
  "expire_groups rcv s = s\<lparr>
     timeout_groups := fold (\<lambda>(_, g). AList.update (pg_group_id g) g)
       (filter (\<lambda>(_, g). timed_out rcv (r_delay_ddl s) g) (incomplete_groups s)) (timeout_groups s),
     incomplete_groups :=
       filter (\<lambda>(_, g). \<not> timed_out rcv (r_delay_ddl s) g) (incomplete_groups s)\<rparr>"

text \<open>The result: the new state, the ACK sent, and the frames whose playing the decoder
  acknowledges.\<close>

definition ReceiveUdpPacket :: "receiver_env \<Rightarrow> time \<Rightarrow> vpacket \<Rightarrow> receiver
    \<Rightarrow> (receiver \<times> net_packet \<times> (u32 \<times> time) list) res" where
  "ReceiveUdpPacket env now pkt s0 =
     (let gid = vh_group_id (vp_header pkt); s = receive_statistics pkt s0
      in res_bind (PacketGroup_AddPacket (rv_pick env) (raw_data (rv_raw env)) now pkt
                     (find_or_create env pkt s)) (\<lambda>g.
         let (decode_pkts, g1) = PacketGroup_GetUndecodedPackets g;
             s1 = s\<lparr>incomplete_groups := AList.update gid g1 (incomplete_groups s)\<rparr>
         in res_bind (DecodeDataPacket decode_pkts (r_decoder s1)) (\<lambda>(d, frame_acks).
            let s2 = s1\<lparr>r_decoder := d\<rparr>;
                ack = ReplyACK env decode_pkts (vh_global_id (vp_header pkt))
            in if map_of (complete_groups s2) gid \<noteq> None \<or> map_of (timeout_groups s2) gid \<noteq> None
               then Inr (s2, ack, frame_acks)
               else res_bind (if PacketGroup_CheckComplete g1 then complete_group gid g1 s2
                              else Inr s2) (\<lambda>s3.
                    Inr (expire_groups (vp_rcv_time pkt) s3, ack, frame_acks)))))"

text \<open>The packet as a \<open>VideoPacket\<close>, after \<open>SetRcvTime\<close>; control packets are ignored.\<close>

fun video_packet_of :: "time \<Rightarrow> net_packet \<Rightarrow> vpacket option" where
  "video_packet_of now (DataP p) = Some (VData (p\<lparr>rcv_time := now\<rparr>))"
| "video_packet_of now (FECP p) = Some (VFec (p\<lparr>rcv_time := now\<rparr>))"
| "video_packet_of now _ = None"

definition OnSocketRecv_receiver :: "'p ns3 \<Rightarrow> rounding \<Rightarrow> erased_iterator \<Rightarrow> receiver_env \<Rightarrow> time
    \<Rightarrow> 'p \<Rightarrow> u32 \<Rightarrow> receiver \<Rightarrow> (receiver \<times> net_packet list \<times> (u32 \<times> time) list) res" where
  "OnSocketRecv_receiver k fs nx env now packet left s =
     res_bind (ToInstance k fs (rv_raw env) packet) (\<lambda>net_pkt.
     case net_pkt of
       None \<Rightarrow> Inl NullDeref
     | Some np \<Rightarrow>
         (case video_packet_of now np of
            None \<Rightarrow> Inr (s, [], [])
          | Some pkt \<Rightarrow>
              res_bind (ReceiveUdpPacket env now pkt s) (\<lambda>(s1, ack, frame_acks).
              let rt = \<lparr>rt_pkt_id = ucast (vh_global_id (vp_header pkt)),
                        rt_us = word_of_int (GetMicroSeconds now), rt_pkt_size = left\<rparr>
              in res_bind (record_packet nx rt s1) (\<lambda>s2. Inr (s2, [ack], frame_acks)))))"

section \<open>Feedback\<close>

text \<open>The state of the loop over the record.\<close>

record loss_scan =
  ls_prev :: u32
  ls_run :: int
  ls_losses :: u32
  ls_seq :: "int list"
  ls_sample :: "RcvTime list"
  ls_last :: u16

text \<open>One element; the flags say whether it is the first and whether it is the last.\<close>

definition scan_step :: "bool \<Rightarrow> bool \<Rightarrow> RcvTime \<Rightarrow> loss_scan \<Rightarrow> loss_scan res" where
  "scan_step first final r l =
     (let i = rt_pkt_id r; gap = (i - ls_prev l + 65536) mod 65536;
          l1 = (if gap = 1
                then l\<lparr>ls_run := ls_run l + 1,
                       ls_seq := (if final then ls_seq l @ [ls_run l + 1] else ls_seq l)\<rparr>
                else l\<lparr>ls_seq := ls_seq l @ [ls_run l, sint (1 - gap)], ls_run := 1,
                       ls_losses := ls_losses l + (i - ls_prev l - 1)\<rparr>);
          l2 = (if lessThan (ls_last l1) (ucast i)
                then l1\<lparr>ls_sample := ls_sample l1 @ [r], ls_last := ucast i\<rparr> else l1)
      in ns_assert (first \<or> lessThan_simple (ls_prev l) i) (Inr (l2\<lparr>ls_prev := i\<rparr>)))"

fun scan_record :: "bool \<Rightarrow> RcvTime list \<Rightarrow> loss_scan \<Rightarrow> loss_scan res" where
  "scan_record first [] l = Inr l"
| "scan_record first (r # rs) l = res_bind (scan_step first (rs = []) r l) (scan_record False rs)"

definition begin_scan :: "receiver \<Rightarrow> loss_scan" where
  "begin_scan s = \<lparr>ls_prev = rt_pkt_id (hd (m_record s)) - 1, ls_run = 0, ls_losses = 0, ls_seq = [],
     ls_sample = [], ls_last = m_last_feedback s\<rparr>"

text \<open>The conversion of a float to an unsigned integer is undefined out of its range.\<close>

definition float_to_u32 :: "rat \<Rightarrow> u32 res" where
  "float_to_u32 x =
     (if 0 \<le> trunc x \<and> trunc x < 2 ^ 32 then Inr (word_of_int (trunc x)) else Inl UndefinedBehaviour)"

definition window_throughput :: "rounding \<Rightarrow> rounding \<Rightarrow> receiver \<Rightarrow> rat" where
  "window_throughput fs fd s =
     fs (fd (fd (fs (fs (of_int (uint (bytes_in_wnd s))) / fs (of_int (uint (time_wnd_size s)))) * 8)
       * 1000))"

definition Feedback_NetState :: "rounding \<Rightarrow> rounding \<Rightarrow> bool \<Rightarrow> NetStatePacket \<Rightarrow> receiver
    \<Rightarrow> (receiver \<times> net_packet option) res" where
  "Feedback_NetState fs fd wirtc raw s =
     (let pkts = (if length (m_record s) > 1
                  then ucast ((rt_pkt_id (last (m_record s)) - rt_pkt_id (hd (m_record s)) + 65537)
                              mod 65536)
                  else 0) :: u16
      in if time_wnd_size s = 0 then Inl UndefinedBehaviour
         else res_bind (if m_record s = [] then Inr (begin_scan s)
                        else scan_record True (m_record s) (begin_scan s)) (\<lambda>l.
           let s1 = s\<lparr>pkts_in_wnd := pkts, throughput_kbps := window_throughput fs fd s,
                      losses_in_wnd := ls_losses l, m_loss_seq := ls_seq l,
                      m_recv_sample := ls_sample l, m_last_feedback := ls_last l,
                      r_loss_rate := (if pkts \<ge> 1
                        then fs (fs (of_int (uint (ls_losses l))) / fs (of_int (uint pkts)))
                        else r_loss_rate s),
                      m_feedbackTimer := True\<rparr>
           in res_bind (float_to_u32 (throughput_kbps s1)) (\<lambda>kbps.
              let st = \<lparr>ns_loss_rate = r_loss_rate s1, ns_throughput_kbps = kbps,
                        ns_fec_group_delay_us = word_of_int (GetMicroSeconds (one_way_dispersion s1)),
                        ns_loss_seq = m_loss_seq s1, ns_recvtime_hist = m_recv_sample s1\<rparr>
              in Inr (s1, if wirtc then None
                          else Some (NetStateP (SetNetStates st (NetStatePacket_ctor raw)))))))"

definition Receiver_StopRunning :: "rounding \<Rightarrow> receiver \<Rightarrow> receiver res" where
  "Receiver_StopRunning f s =
     res_bind (GetDDLMissRate f (r_decoder s)) (\<lambda>_. Inr (s\<lparr>m_feedbackTimer := False\<rparr>))"


section \<open>The window loop\<close>

lemma slide_window_returns:
  "\<forall>i n. nx i n \<noteq> None \<Longrightarrow> \<exists>r. slide_window nx old i q bytes = Inr r"
proof (induction nx old i q bytes rule: slide_window.induct)
  case (1 nx old i q bytes)
  obtain j where "nx i (length q) = Some j" using 1(3) by blast
  then show ?case using 1 by (subst slide_window.simps) simp
qed

definition wnd_bytes :: "RcvTime list \<Rightarrow> u32" where
  "wnd_bytes q = sum_list (map rt_pkt_size q)"

lemma wnd_bytes_split: "wnd_bytes (a @ r # b) = rt_pkt_size r + wnd_bytes (a @ b)"
  by (simp add: wnd_bytes_def)

lemma slide_window_run:
  "slide_window nx old i q bytes = Inr (q', bytes') \<Longrightarrow>
     set q' \<subseteq> set q \<and> (sorted_wrt R q \<longrightarrow> sorted_wrt R q') \<and>
     bytes' - wnd_bytes q' = bytes - wnd_bytes q"
proof (induction nx old i q bytes rule: slide_window.induct)
  case (1 nx old i q bytes)
  show ?case
  proof (cases "i < length q \<and> old (q ! i)")
    case True
    then obtain j where j: "nx i (length q) = Some j"
        "slide_window nx old j (take i q @ drop (Suc i) q) (bytes - rt_pkt_size (q ! i)) = Inr (q', bytes')"
      using 1(3) by (subst (asm) slide_window.simps) (auto split: option.splits)
    have q: "q = take i q @ q ! i # drop (Suc i) q" using True by (simp add: id_take_nth_drop)
    have sub: "set (take i q @ drop (Suc i) q) \<subseteq> set q" by (subst (2) q) auto
    have srt: "sorted_wrt R q \<longrightarrow> sorted_wrt R (take i q @ drop (Suc i) q)"
      by (subst q) (auto simp: sorted_wrt_append)
    have wb: "wnd_bytes q = rt_pkt_size (q ! i) + wnd_bytes (take i q @ drop (Suc i) q)"
      by (subst q) (rule wnd_bytes_split)
    from 1(1) [OF _ _ j(1,2)] True have
      "set q' \<subseteq> set (take i q @ drop (Suc i) q)"
      "sorted_wrt R (take i q @ drop (Suc i) q) \<longrightarrow> sorted_wrt R q'"
      "bytes' - wnd_bytes q' = bytes - rt_pkt_size (q ! i) - wnd_bytes (take i q @ drop (Suc i) q)"
      by blast+
    then show ?thesis using sub srt unfolding wb by (auto simp: algebra_simps)
  next
    case False
    then show ?thesis
      using 1(2,3) by (subst (asm) slide_window.simps) (auto split: if_splits)
  qed
qed

text \<open>With the iterator that \<open>erase\<close> returns, which the code should have used, the loop removes
  exactly the stale elements.\<close>

lemma slide_window_intended:
  "(\<And>j n. nx j n = Some j) \<Longrightarrow> i \<le> length q \<Longrightarrow>
   slide_window nx old i q bytes =
     Inr (take i q @ filter (\<lambda>r. \<not> old r) (drop i q),
          bytes - sum_list (map rt_pkt_size (filter old (drop i q))))"
proof (induction nx old i q bytes rule: slide_window.induct)
  case (1 nx old i q bytes)
  show ?case
  proof (cases "i < length q")
    case False
    then show ?thesis using 1(4) by (subst slide_window.simps) simp
  next
    case True
    then have d: "drop i q = q ! i # drop (Suc i) q" by (rule Cons_nth_drop_Suc [symmetric])
    show ?thesis
    proof (cases "old (q ! i)")
      case old: True
      have "slide_window nx old i q bytes =
          slide_window nx old i (take i q @ drop (Suc i) q) (bytes - rt_pkt_size (q ! i))"
        using True old 1(3) by (subst slide_window.simps) simp
      also have "\<dots> = Inr (take i (take i q @ drop (Suc i) q) @
            filter (\<lambda>r. \<not> old r) (drop i (take i q @ drop (Suc i) q)),
          bytes - rt_pkt_size (q ! i) -
            sum_list (map rt_pkt_size (filter old (drop i (take i q @ drop (Suc i) q)))))"
        using True by (intro 1(1) [OF True old 1(3)]) (simp_all add: 1(3))
      finally show ?thesis using True old d by (simp add: algebra_simps)
    next
      case young: False
      have "slide_window nx old i q bytes = slide_window nx old (Suc i) q bytes"
        using True young by (subst slide_window.simps) simp
      also have "\<dots> = Inr (take (Suc i) q @ filter (\<lambda>r. \<not> old r) (drop (Suc i) q),
          bytes - sum_list (map rt_pkt_size (filter old (drop (Suc i) q))))"
        using True by (intro 1(2) [OF True young]) (simp_all add: 1(3))
      finally show ?thesis using True young d by (simp add: take_Suc_conv_app_nth)
    qed
  qed
qed

text \<open>Wherever the loop goes on, it only erases stale elements, and gives their bytes back.\<close>

lemma slide_window_erases:
  "slide_window nx old i q bytes = Inr (q', bytes') \<Longrightarrow>
     subseq q' q \<and> filter (\<lambda>r. \<not> old r) q' = filter (\<lambda>r. \<not> old r) q"
proof (induction nx old i q bytes rule: slide_window.induct)
  case (1 nx old i q bytes)
  show ?case
  proof (cases "i < length q \<and> old (q ! i)")
    case True
    then obtain j where j: "nx i (length q) = Some j"
        "slide_window nx old j (take i q @ drop (Suc i) q) (bytes - rt_pkt_size (q ! i)) = Inr (q', bytes')"
      using 1(3) by (subst (asm) slide_window.simps) (auto split: option.splits)
    have q: "q = take i q @ q ! i # drop (Suc i) q" using True by (simp add: id_take_nth_drop)
    have "subseq (take i q @ drop (Suc i) q) q"
      by (subst (3) q) (intro list_emb_append_mono subseq_order.order_refl list_emb_Cons)
    moreover have "filter (\<lambda>r. \<not> old r) (take i q @ drop (Suc i) q) = filter (\<lambda>r. \<not> old r) q"
      using True by (subst (3) q) simp
    ultimately show ?thesis
      using 1(1) [OF _ _ j(1,2)] True subseq_order.order_trans by fastforce
  next
    case False
    then show ?thesis
      using 1(2,3) by (subst (asm) slide_window.simps) (auto split: if_splits)
  qed
qed

lemma slide_window_bytes:
  "slide_window nx old i q bytes = Inr (q', bytes') \<Longrightarrow> bytes' = bytes - (wnd_bytes q - wnd_bytes q')"
  using slide_window_run [of nx old i q bytes q' bytes'] by (simp add: algebra_simps)

lemma slide_window_young:
  "\<forall>x\<in>set q. \<not> old x \<Longrightarrow> slide_window nx old i q bytes = Inr (q, bytes)"
  by (induction nx old i q bytes rule: slide_window.induct) (subst slide_window.simps, simp)

text \<open>An erased iterator has no position by the standard, so the first stale element makes the loop undefined.\<close>

lemma slide_window_undefined:
  "\<exists>x\<in>set (drop i q). old x \<Longrightarrow> slide_window (\<lambda>i n. None) old i q bytes = Inl UndefinedBehaviour"
proof (induction "\<lambda>(i :: nat) (n :: nat). None :: nat option" old i q bytes rule: slide_window.induct)
  case (1 old i q bytes)
  then have i: "i < length q" by (cases "i < length q") auto
  then have "drop i q = q ! i # drop (Suc i) q" by (rule Cons_nth_drop_Suc [symmetric])
  then show ?case using 1 i by (subst slide_window.simps) auto
qed

text \<open>Where the erased iterator stays at its position, as in a vector, the increment of the loop passes over the element that has
  moved up: that one stays, stale or not.\<close>

fun skip_erased :: "(RcvTime \<Rightarrow> bool) \<Rightarrow> RcvTime list \<Rightarrow> RcvTime list" where
  "skip_erased old [] = []"
| "skip_erased old [x] = (if old x then [] else [x])"
| "skip_erased old (x # y # q) = (if old x then y # skip_erased old q else x # skip_erased old (y # q))"

lemma skip_erased_young: "\<not> old x \<Longrightarrow> skip_erased old (x # q) = x # skip_erased old q"
  by (cases q) simp_all

lemma skip_erased_old: "old x \<Longrightarrow> skip_erased old (x # q) = take 1 q @ skip_erased old (drop 1 q)"
  by (cases q) simp_all

lemma slide_window_position:
  "\<exists>b. slide_window (\<lambda>i n. Some (Suc i)) old i q bytes = Inr (take i q @ skip_erased old (drop i q), b)"
proof (induction "\<lambda>(i :: nat) (n :: nat). Some (Suc i)" old i q bytes rule: slide_window.induct)
  case (1 old i q bytes)
  show ?case
  proof (cases "i < length q")
    case False
    then show ?thesis by (subst slide_window.simps) simp
  next
    case True
    then have d: "drop i q = q ! i # drop (Suc i) q" by (rule Cons_nth_drop_Suc [symmetric])
    show ?thesis
    proof (cases "old (q ! i)")
      case old: True
      let ?q = "take i q @ drop (Suc i) q"
      have "take (Suc i) ?q = take i q @ take 1 (drop (Suc i) q)" "drop (Suc i) ?q = drop 1 (drop (Suc i) q)"
        using True by (simp_all add: min_def)
      then show ?thesis
        using 1(1) [OF True old HOL.refl] True old by (subst slide_window.simps) (simp add: d skip_erased_old)
    next
      case young: False
      then show ?thesis
        using 1(2) [OF True young] True by (subst slide_window.simps) (simp add: d skip_erased_young take_Suc_conv_app_nth)
    qed
  qed
qed

section \<open>The record stays ordered\<close>

abbreviation rid :: "RcvTime \<Rightarrow> u16" where
  "rid r \<equiv> ucast (rt_pkt_id r)"

definition ordered :: "RcvTime list \<Rightarrow> bool" where
  "ordered q \<longleftrightarrow> sorted_wrt (\<lambda>a b. lessThan_simple (rt_pkt_id a) (rt_pkt_id b)) q"

text \<open>All identifiers lie in the half of the number space that ends with \<open>l\<close>.\<close>

definition fits_wnd :: "u16 \<Rightarrow> RcvTime list \<Rightarrow> bool" where
  "fits_wnd l q \<longleftrightarrow> (\<forall>r\<in>set q. behind l (rid r) < 32768 \<and> rt_pkt_id r < 65536)"

lemma fits_less:
  assumes "fits_wnd l q" "a \<in> set q" "b \<in> set q"
  shows "lessThan_simple (rt_pkt_id a) (rt_pkt_id b) \<longleftrightarrow> behind l (rid b) < behind l (rid a)"
  unfolding lessThan_simple_def using assms
  by (intro lessThan_behind) (auto simp: fits_wnd_def intro: less_imp_le)

lemma insert_from_back_eq:
  "insert_from_back rt bs after =
    (case dropWhile (\<lambda>x. \<not> lessThan_simple (rt_pkt_id x) (rt_pkt_id rt)) bs of
       [] \<Rightarrow> None
     | y # ys \<Rightarrow> Some (rev (y # ys) @ rt #
         rev (takeWhile (\<lambda>x. \<not> lessThan_simple (rt_pkt_id x) (rt_pkt_id rt)) bs) @ after))"
  by (induction bs arbitrary: after) (auto simp del: dropWhile_eq_Nil_conv split: list.splits)

lemma insert_record_ok:
  assumes ord: "ordered q" and fit: "fits_wnd l (rt # q)" and new: "rid rt \<notin> rid ` set q"
  shows "\<exists>a b. q = a @ b \<and> insert_record rt q = a @ rt # b \<and> ordered (a @ rt # b)"
proof (cases q)
  case Nil
  then show ?thesis by (simp add: insert_record_def ordered_def)
next
  case (Cons x xs)
  let ?less = "\<lambda>a b. lessThan_simple (rt_pkt_id a) (rt_pkt_id b)"
  have less: "?less a b \<longleftrightarrow> behind l (rid b) < behind l (rid a)"
    if "a \<in> insert rt (set q)" "b \<in> insert rt (set q)" for a b
    using fits_less [OF fit] that by simp
  have ne: "behind l (rid rt) \<noteq> behind l (rid r)" if "r \<in> set q" for r
    using new that behind_inj by blast
  have tot: "?less rt r" if "r \<in> set q" "\<not> ?less r rt" for r
    using less [of r rt] less [of rt r] that ne [OF that(1)] by auto
  show ?thesis
  proof (cases "?less rt x")
    case True
    have "?less rt r" if "r \<in> set q" for r
    proof -
      have "r = x \<or> ?less x r" using ord that Cons by (auto simp: ordered_def)
      then show ?thesis
        using True less [of rt x] less [of x r] less [of rt r] that Cons by auto
    qed
    then show ?thesis using True ord Cons
      by (intro exI [of _ "[]"] exI [of _ q]) (auto simp: insert_record_def ordered_def)
  next
    case False
    let ?P = "\<lambda>r. \<not> ?less r rt"
    define a where "a = rev (dropWhile ?P (rev q))"
    define b where "b = rev (takeWhile ?P (rev q))"
    have q: "q = a @ b"
    proof -
      have "rev (rev q) = rev (takeWhile ?P (rev q) @ dropWhile ?P (rev q))"
        unfolding takeWhile_dropWhile_id ..
      then show ?thesis unfolding rev_append a_def b_def by (simp only: rev_rev_ident)
    qed
    have xl: "?less x rt" using False tot [of x] Cons by auto
    then have "dropWhile ?P (rev q) \<noteq> []" using Cons by (auto simp: dropWhile_eq_Nil_conv)
    then obtain y ys where y: "dropWhile ?P (rev q) = y # ys" by (cases "dropWhile ?P (rev q)") auto
    then have ins: "insert_record rt q = a @ rt # b"
      unfolding insert_record_def insert_from_back_eq y a_def b_def using False Cons
      by (simp del: rev.simps)
    have "?less y rt" using y hd_dropWhile [of ?P "rev q"] by simp
    have a: "a = rev ys @ [y]" using y by (simp add: a_def)
    have "?less r rt" if "r \<in> set a" for r
    proof -
      have in_q: "r \<in> set q" "y \<in> set q" using that q a by auto
      have "r = y \<or> ?less r y" using ord that q a by (auto simp: ordered_def sorted_wrt_append)
      then show ?thesis
        using \<open>?less y rt\<close> less [of r y] less [of y rt] less [of r rt] in_q by auto
    qed
    moreover have "?less rt r" if "r \<in> set b" for r
    proof (rule tot)
      have "r \<in> set (takeWhile ?P (rev q))" using that by (simp add: b_def)
      from set_takeWhileD [OF this] show "r \<in> set q" "\<not> ?less r rt" by simp_all
    qed
    moreover have "sorted_wrt ?less (a @ b)" using ord q by (simp only: ordered_def)
    ultimately have "ordered (a @ rt # b)"
      unfolding ordered_def by (auto simp only: sorted_wrt_append set_simps sorted_wrt.simps)
    then show ?thesis using q ins by blast
  qed
qed

definition record_inv :: "receiver \<Rightarrow> bool" where
  "record_inv s \<longleftrightarrow> ordered (m_record s) \<and> (\<exists>l. fits_wnd l (m_record s)) \<and>
     bytes_in_wnd s = wnd_bytes (m_record s)"

lemma ordered_sub:
  "slide_window nx old i q bytes = Inr (q', bytes') \<Longrightarrow> ordered q \<Longrightarrow> ordered q'"
  using slide_window_run unfolding ordered_def by blast

lemma record_packet_ok:
  assumes inv: "record_inv s" and fit: "fits_wnd l (rt # m_record s)"
    and new: "rid rt \<notin> rid ` set (m_record s)" and run: "record_packet nx rt s = Inr s'"
  shows "record_inv s' \<and> rt \<in> set (m_record s') \<and> set (m_record s') \<subseteq> insert rt (set (m_record s))"
proof (cases "m_record s = []")
  case True
  then show ?thesis
    using run inv fit by (auto simp: record_packet_def record_inv_def ordered_def wnd_bytes_def)
next
  case False
  then obtain q bytes where sl: "slide_window nx (stale (rt_us rt) (time_wnd_size s)) 0 (m_record s)
      (bytes_in_wnd s) = Inr (q, bytes)"
    and s': "s' = s\<lparr>m_record := insert_record rt q, bytes_in_wnd := bytes + rt_pkt_size rt\<rparr>"
    using run by (auto simp: record_packet_def dest!: res_bind_InrD)
  have sub: "set q \<subseteq> set (m_record s)" and wb: "bytes - wnd_bytes q = bytes_in_wnd s - wnd_bytes (m_record s)"
    using slide_window_run [OF sl] by auto
  have ord: "ordered q" using ordered_sub [OF sl] inv by (simp add: record_inv_def)
  have fq: "fits_wnd l (rt # q)" using fit sub by (auto simp: fits_wnd_def)
  have "rid rt \<notin> rid ` set q" using new sub by auto
  from insert_record_ok [OF ord fq this] obtain a b where
    q: "q = a @ b" "insert_record rt q = a @ rt # b" "ordered (a @ rt # b)" by blast
  have "bytes = wnd_bytes q" using wb inv by (simp add: record_inv_def)
  then have "bytes + rt_pkt_size rt = wnd_bytes (a @ rt # b)"
    unfolding wnd_bytes_split q(1) by simp
  moreover have "fits_wnd l (a @ rt # b)" using fq q(1) by (auto simp: fits_wnd_def)
  ultimately show ?thesis using q sub by (auto simp: s' record_inv_def)
qed


section \<open>What the loop over the record reports\<close>

text \<open>The loss sequence read as one flag per identifier, and the flags the record stands for.\<close>

fun expand_loss_seq :: "int list \<Rightarrow> bool list" where
  "expand_loss_seq [] = []"
| "expand_loss_seq (x # xs) =
     (if 0 < x then replicate (nat x) True else replicate (nat (- x)) False) @ expand_loss_seq xs"

lemma expand_loss_seq_append:
  "expand_loss_seq (xs @ ys) = expand_loss_seq xs @ expand_loss_seq ys"
  by (induction xs) auto

definition arrived :: "u16 \<Rightarrow> u16 set \<Rightarrow> nat \<Rightarrow> bool list" where
  "arrived p A n = map (\<lambda>k. p + of_nat k \<in> A) [0..<n]"

fun flags :: "u16 \<Rightarrow> RcvTime list \<Rightarrow> bool list" where
  "flags p [] = []"
| "flags p (r # rs) = replicate (nat (uint (rid r - p) - 1)) False @ True # flags (rid r) rs"

fun isolated :: "u16 \<Rightarrow> RcvTime list \<Rightarrow> bool" where
  "isolated p [] = False"
| "isolated p (r # rs) = (if rs = [] then rid r - p \<noteq> 1 else isolated (rid r) rs)"

fun wraps :: "u32 \<Rightarrow> RcvTime list \<Rightarrow> nat" where
  "wraps p [] = 0"
| "wraps p (r # rs) = (if rid r - ucast p \<noteq> 1 \<and> rt_pkt_id r < p then 1 else 0) + wraps (rt_pkt_id r) rs"

lemma uint_ucast16: "uint (ucast (x :: u32) :: u16) = uint x mod 65536"
  by (simp add: unsigned_ucast_eq take_bit_eq_mod)

lemma gap_eq:
  fixes i p :: u32
  shows "uint ((i - p + 65536) mod 65536) = uint ((ucast i :: u16) - ucast p)"
proof -
  define x where "x = i - p + 65536"
  have "uint x = (uint i - uint p + 65536) mod 4294967296"
    unfolding x_def uint_word_ariths by (simp add: mod_simps)
  moreover have "uint (x mod 65536) = uint x mod 65536" by (simp add: uint_mod)
  ultimately have "uint (x mod 65536) = (uint i - uint p + 65536) mod 65536"
    by (simp add: mod_mod_cancel)
  also have "\<dots> = (uint i - uint p) mod 65536" by simp
  also have "\<dots> = (uint i mod 65536 - uint p mod 65536) mod 65536"
    by (rule mod_diff_eq [symmetric])
  also have "\<dots> = uint ((ucast i :: u16) - ucast p)"
    unfolding uint_word_ariths(2) uint_ucast16 by simp
  finally show ?thesis unfolding x_def .
qed

lemma gap_is_1:
  fixes i p :: u32
  shows "(i - p + 65536) mod 65536 = 1 \<longleftrightarrow> (ucast i :: u16) - ucast p = 1"
  unfolding word_uint_eq_iff gap_eq by simp

lemma gap_sint:
  fixes i p :: u32
  shows "sint (1 - (i - p + 65536) mod 65536) = 1 - uint ((ucast i :: u16) - ucast p)"
proof -
  define g where "g = (i - p + 65536) mod 65536"
  have g: "uint g = uint ((ucast i :: u16) - ucast p)" unfolding g_def by (rule gap_eq)
  then have b: "uint g < 65536" using uint_lt2p [of "(ucast i :: u16) - ucast p"] by simp
  have "1 - g = word_of_int (1 - uint g)" by simp
  then have "sint (1 - g) = sint (word_of_int (1 - uint g) :: u32)" by (rule arg_cong)
  also have "\<dots> = signed_take_bit 31 (1 - uint g)" by (simp only: signed_of_int) simp
  also have "\<dots> = 1 - uint g"
    using b by (intro signed_take_bit_int_eq_self, simp) (simp, insert uint_ge_0 [of g], linarith)
  finally show ?thesis unfolding g [unfolded g_def] g_def .
qed

lemma scan_step_flags:
  assumes "scan_step first final r l = Inr l'" "0 \<le> ls_run l" "rid r \<noteq> ucast (ls_prev l)"
  shows "ls_prev l' = rt_pkt_id r" "0 \<le> ls_run l'"
    and "expand_loss_seq (ls_seq l') @
          (if final then (if rid r - ucast (ls_prev l) \<noteq> 1 then [True] else [])
           else replicate (nat (ls_run l')) True) =
        expand_loss_seq (ls_seq l) @ replicate (nat (ls_run l)) True @
          flags (ucast (ls_prev l)) [r]"
proof -
  let ?d = "rid r - ucast (ls_prev l)"
  have "uint ?d \<noteq> 0" using assms(3) by (simp add: uint_0_iff)
  then have d: "0 < uint ?d" using uint_ge_0 [of ?d] by linarith
  have d1: "uint ?d = 1 \<longleftrightarrow> ?d = 1" by (simp add: word_uint_eq_iff)
  note [simp] = gap_is_1 gap_sint
  show "ls_prev l' = rt_pkt_id r" "0 \<le> ls_run l'"
    using assms(1,2) by (auto simp: scan_step_def Let_def ns_assert_def split: if_splits)
  show "expand_loss_seq (ls_seq l') @
          (if final then (if ?d \<noteq> 1 then [True] else []) else replicate (nat (ls_run l')) True) =
        expand_loss_seq (ls_seq l) @ replicate (nat (ls_run l)) True @
          flags (ucast (ls_prev l)) [r]"
  proof (cases "?d = 1")
    case True
    then have "ls_run l' = ls_run l + 1" "ls_seq l' = (if final then ls_seq l @ [ls_run l + 1] else ls_seq l)"
      using assms(1) by (auto simp: scan_step_def Let_def ns_assert_def split: if_splits)
    moreover have "replicate (nat (ls_run l + 1)) True = replicate (nat (ls_run l)) True @ [True]"
      using assms(2) by (simp add: nat_add_distrib replicate_append_same)
    ultimately show ?thesis using True assms(2) by (simp add: expand_loss_seq_append)
  next
    case False
    then have "ls_run l' = 1" "ls_seq l' = ls_seq l @ [ls_run l, 1 - uint ?d]"
      using assms(1) by (auto simp: scan_step_def Let_def ns_assert_def split: if_splits)
    then show ?thesis using False d d1 assms(2) by (auto simp: expand_loss_seq_append)
  qed
qed

lemma count_list_replicate: "count_list (replicate n x) x = n"
  by (induction n) auto

lemma scan_step_losses:
  assumes "scan_step first final r l = Inr l'" "rid r \<noteq> ucast (ls_prev l)"
    and small: "rid r - ucast (ls_prev l) \<noteq> 1 \<Longrightarrow> rt_pkt_id r < 65536 \<and> ls_prev l < 65536"
  shows "ls_losses l' = ls_losses l + of_nat (count_list (flags (ucast (ls_prev l)) [r]) False) -
        65536 * of_nat (wraps (ls_prev l) [r])"
proof (cases "rid r - ucast (ls_prev l) = 1")
  case True
  then show ?thesis
    using assms(1) by (auto simp: scan_step_def Let_def ns_assert_def gap_is_1 split: if_splits)
next
  case False
  let ?i = "rt_pkt_id r" and ?p = "ls_prev l"
  let ?d = "rid r - ucast ?p"
  have "uint ?d \<noteq> 0" using assms(2) by (simp add: uint_0_iff)
  then have d: "0 < uint ?d" using uint_ge_0 [of ?d] by linarith
  have b: "uint ?i < 65536" "uint ?p < 65536" using small [OF False] by (simp_all add: word_less_def)
  have "uint ?d = (uint ?i - uint ?p) mod 65536"
    unfolding uint_word_ariths(2) uint_ucast16 by (simp add: mod_simps)
  also have "\<dots> = uint ?i - uint ?p + (if ?i < ?p then 65536 else 0)"
  proof (cases "?i < ?p")
    case True
    have "(uint ?i - uint ?p) mod 65536 = (uint ?i - uint ?p + 65536) mod 65536" by simp
    also have "\<dots> = uint ?i - uint ?p + 65536"
      using b True uint_ge_0 [of ?i] unfolding word_less_def
      by (intro mod_pos_pos_trivial) linarith+
    finally show ?thesis using True by simp
  next
    case ge: False
    have "(uint ?i - uint ?p) mod 65536 = uint ?i - uint ?p"
      using b ge uint_ge_0 [of ?p] unfolding word_less_def
      by (intro mod_pos_pos_trivial) linarith+
    then show ?thesis using ge by simp
  qed
  finally have "of_int (uint ?d - 1) = ?i - ?p - 1 + (if ?i < ?p then 65536 else 0)" by simp
  moreover have "of_nat (nat (uint ?d - 1)) = (of_int (uint ?d - 1) :: u32)" using d by simp
  ultimately have c: "of_nat (nat (uint ?d - 1)) = ?i - ?p - 1 + (if ?i < ?p then 65536 else 0)" by simp
  have "ls_losses l' = ls_losses l + (?i - ?p - 1)"
    using assms(1) False by (auto simp: scan_step_def Let_def ns_assert_def gap_is_1 split: if_splits)
  moreover have "count_list (flags (ucast ?p) [r]) False = nat (uint ?d - 1)"
    by (simp add: count_list_replicate)
  ultimately show ?thesis using False by (simp add: c)
qed

lemma scan_record_flags:
  assumes "scan_record first rs l = Inr l'" "0 \<le> ls_run l" "rs \<noteq> []"
    and "\<forall>x\<in>set rs. rid x \<noteq> ucast (ls_prev l)" "distinct (map rid rs)"
  shows "expand_loss_seq (ls_seq l') @ (if isolated (ucast (ls_prev l)) rs then [True] else []) =
      expand_loss_seq (ls_seq l) @ replicate (nat (ls_run l)) True @ flags (ucast (ls_prev l)) rs"
  using assms
proof (induction rs arbitrary: first l)
  case (Cons r rs)
  obtain m where m: "scan_step first (rs = []) r l = Inr m" "scan_record False rs m = Inr l'"
    using Cons.prems(1) by (auto dest!: res_bind_InrD)
  note step = scan_step_flags [OF m(1) Cons.prems(2) bspec [OF Cons.prems(4) list.set_intros(1)]]
  have ne: "\<forall>x\<in>set rs. rid x \<noteq> rid r" using Cons.prems(5) by (simp add: image_iff) metis
  show ?case
  proof (cases "rs = []")
    case True
    then show ?thesis using m step(3) Cons.prems(4) by simp
  next
    case False
    have "expand_loss_seq (ls_seq l') @ (if isolated (ucast (ls_prev m)) rs then [True] else []) =
        expand_loss_seq (ls_seq m) @ replicate (nat (ls_run m)) True @ flags (ucast (ls_prev m)) rs"
      using Cons.prems(5) step(1,2) ne by (intro Cons.IH [OF m(2) _ False]) simp_all
    then show ?thesis using step(1,3) False Cons.prems(4) by simp
  qed
qed simp

lemma scan_record_losses:
  assumes "scan_record first rs l = Inr l'"
    and "\<forall>x\<in>set rs. rid x \<noteq> ucast (ls_prev l)" "distinct (map rid rs)" "\<forall>x\<in>set rs. rt_pkt_id x < 65536"
    and "ls_prev l < 65536 \<or> (rs \<noteq> [] \<longrightarrow> rid (hd rs) - ucast (ls_prev l) = 1)"
  shows "ls_losses l' = ls_losses l + of_nat (count_list (flags (ucast (ls_prev l)) rs) False) -
      65536 * of_nat (wraps (ls_prev l) rs)"
  using assms
proof (induction rs arbitrary: first l)
  case (Cons r rs)
  obtain m where m: "scan_step first (rs = []) r l = Inr m" "scan_record False rs m = Inr l'"
    using Cons.prems(1) by (auto dest!: res_bind_InrD)
  have pm: "ls_prev m = rt_pkt_id r"
    using m(1) by (auto simp: scan_step_def Let_def ns_assert_def split: if_splits)
  have ne: "\<forall>x\<in>set rs. rid x \<noteq> rid r" using Cons.prems(3) by (simp add: image_iff) metis
  have "ls_losses l' = ls_losses m + of_nat (count_list (flags (ucast (ls_prev m)) rs) False) -
      65536 * of_nat (wraps (ls_prev m) rs)"
    using Cons.prems(3,4) pm ne by (intro Cons.IH [OF m(2)]) simp_all
  moreover have "ls_losses m = ls_losses l + of_nat (count_list (flags (ucast (ls_prev l)) [r]) False) -
      65536 * of_nat (wraps (ls_prev l) [r])"
    using Cons.prems(2,4,5) by (intro scan_step_losses [OF m(1)]) auto
  ultimately show ?case by (simp add: pm algebra_simps)
qed simp


text \<open>The flags are the membership of the identifiers between the first and the last element.\<close>

lemma behind_plus:
  assumes "int k \<le> behind l p"
  shows "behind l (p + of_nat k) = behind l p - int k"
proof -
  have "uint (of_nat k :: u16) = int k mod 65536" by (simp add: unsigned_of_nat take_bit_eq_mod zmod_int)
  moreover have "uint (l - (p + of_nat k)) = uint ((l - p) - of_nat k)" by (simp add: algebra_simps)
  ultimately have "behind l (p + of_nat k) = (behind l p - int k mod 65536) mod 65536"
    unfolding uint_word_ariths(2) [of "l - p" "of_nat k"] by simp
  also have "\<dots> = (behind l p - int k) mod 65536" by (rule mod_diff_right_eq)
  also have "\<dots> = behind l p - int k"
    using assms uint_lt2p [of "l - p"] by (intro mod_pos_pos_trivial) simp_all
  finally show ?thesis .
qed

lemma flags_arrived:
  assumes "\<forall>r\<in>set rs. behind l (rid r) < behind l p" "sorted_wrt (\<lambda>a b. behind l (rid b) < behind l (rid a)) rs"
    and "rs \<noteq> []" "A \<inter> {x. behind l x < behind l p} = rid ` set rs"
  shows "flags p rs = arrived (p + 1) A (nat (behind l p - behind l (rid (last rs))))"
  using assms
proof (induction rs arbitrary: p)
  case (Cons r rs)
  let ?a = "behind l p" and ?b = "behind l (rid r)"
  have ab: "?b < ?a" using Cons.prems(1) by simp
  define d where "d = nat (?a - ?b)"
  have d: "0 < d" "int d = ?a - ?b" using ab by (simp_all add: d_def)
  have dist: "uint (rid r - p) = ?a - ?b"
    unfolding uint_diff_behind [of "rid r" p l]
    using ab uint_lt2p [of "l - p"] uint_ge_0 [of "l - rid r"]
    by (intro mod_pos_pos_trivial, linarith) (simp, insert uint_ge_0 [of "l - rid r"], linarith)
  have at: "behind l (p + of_nat k) = ?a - int k" if "k \<le> d" for k
    using that d uint_ge_0 [of "l - rid r"] by (intro behind_plus) linarith
  have r: "p + of_nat d = rid r" using at [of d] d by (intro behind_inj) simp
  have gone: "p + of_nat k \<notin> A" if "0 < k" "k < d" for k
  proof
    assume "p + of_nat k \<in> A"
    then have "p + of_nat k \<in> rid ` set (r # rs)" using Cons.prems(4) at [of k] that by auto
    then obtain x where "x \<in> set (r # rs)" "p + of_nat k = rid x" by auto
    then have "behind l (p + of_nat k) \<le> ?b" using Cons.prems(2) by auto
    then show False using at [of k] that d by linarith
  qed
  have there: "p + of_nat d \<in> A" using Cons.prems(4) r by auto
  have here: "arrived (p + 1) A d = replicate (d - 1) False @ [True]"
  proof (rule nth_equalityI)
    show "length (arrived (p + 1) A d) = length (replicate (d - 1) False @ [True])"
      using d by (simp add: arrived_def)
    fix i assume "i < length (arrived (p + 1) A d)"
    then have i: "i < d" by (simp add: arrived_def)
    have e: "arrived (p + 1) A d ! i \<longleftrightarrow> p + of_nat (Suc i) \<in> A"
      using i by (simp add: arrived_def add.assoc)
    show "arrived (p + 1) A d ! i = (replicate (d - 1) False @ [True]) ! i"
    proof (cases "Suc i = d")
      case True
      have "arrived (p + 1) A d ! i" by (simp only: e True there)
      then show ?thesis using True by (auto simp: nth_append)
    next
      case False
      then have "\<not> arrived (p + 1) A d ! i" unfolding e using i by (intro gone) simp_all
      moreover have "i < d - 1" using False i by linarith
      ultimately show ?thesis by (simp add: nth_append)
    qed
  qed
  have nd: "nat (uint (rid r - p) - 1) = d - 1" unfolding dist d_def using ab by simp
  show ?case
  proof (cases "rs = []")
    case True
    then show ?thesis using here nd by (simp add: d_def [symmetric])
  next
    case False
    let ?n = "nat (?b - behind l (rid (last rs)))"
    have "last rs \<in> set rs" using False by simp
    then have le: "behind l (rid (last rs)) < ?b" using Cons.prems(2) by auto
    have "A \<inter> {x. behind l x < ?b} = rid ` set rs"
    proof -
      have "A \<inter> {x. behind l x < ?b} = (rid ` set (r # rs)) \<inter> {x. behind l x < ?b}"
        using Cons.prems(4) ab by (auto dest: less_trans)
      also have "\<dots> = rid ` set rs" using Cons.prems(2) by auto
      finally show ?thesis .
    qed
    then have "flags (rid r) rs = arrived (rid r + 1) A ?n"
      using Cons.prems(2) by (intro Cons.IH [OF _ _ False]) auto
    moreover have "arrived (p + 1) A (d + ?n) = arrived (p + 1) A d @ arrived (rid r + 1) A ?n"
    proof -
      have "[0..<d + ?n] = [0..<d] @ map (\<lambda>k. k + d) [0..<?n]"
        unfolding map_add_upt upt_add_eq_append [OF le0] by (simp add: add.commute)
      then show ?thesis by (simp add: arrived_def r [symmetric] algebra_simps)
    qed
    moreover have "nat (?a - behind l (rid (last rs))) = d + ?n" using le ab by (simp add: d_def)
    ultimately show ?thesis using here nd False by simp
  qed
qed simp


text \<open>A wrap-around inside the record, and when the loop miscounts it.\<close>

abbreviation num :: "RcvTime \<Rightarrow> int" where
  "num r \<equiv> uint (rt_pkt_id r)"

definition gap_at_wrap :: "RcvTime list \<Rightarrow> bool" where
  "gap_at_wrap q \<longleftrightarrow> rt_pkt_id (last q) < rt_pkt_id (hd q) \<and>
     \<not> ({0, 65535} \<subseteq> rt_pkt_id ` set q)"

lemma uint_rid: "rt_pkt_id r < 65536 \<Longrightarrow> uint (rid r) = num r"
  unfolding uint_ucast16 word_less_def by (intro mod_pos_pos_trivial) simp_all

lemma num_after:
  assumes "behind l (rid b) < behind l (rid a)" "rt_pkt_id a < 65536" "rt_pkt_id b < 65536"
  shows "num b = num a + (behind l (rid a) - behind l (rid b)) - (if num b < num a then 65536 else 0)"
proof -
  have a: "uint (rid a) = num a" "0 \<le> num a" "num a < 65536"
    using assms(2) by (simp_all add: uint_rid word_less_def)
  have b: "uint (rid b) = num b" "0 \<le> num b" "num b < 65536"
    using assms(3) by (simp_all add: uint_rid word_less_def)
  have "uint (rid b - rid a) = behind l (rid a) - behind l (rid b)"
    unfolding uint_diff_behind [of "rid b" "rid a" l]
    using assms(1) uint_lt2p [of "l - rid a"] uint_ge_0 [of "l - rid b"]
    by (intro mod_pos_pos_trivial, linarith) (simp, insert uint_ge_0 [of "l - rid b"], linarith)
  moreover have "uint (rid b - rid a) = (num b - num a) mod 65536"
    unfolding uint_word_ariths(2) a b by simp
  ultimately have m: "(num b - num a) mod 65536 = behind l (rid a) - behind l (rid b)" by simp
  show ?thesis
  proof (cases "num b < num a")
    case True
    have "(num b - num a) mod 65536 = (num b - num a + 65536) mod 65536" by simp
    also have "\<dots> = num b - num a + 65536"
      using True a b by (intro mod_pos_pos_trivial) linarith+
    finally show ?thesis using m True by simp
  next
    case False
    then have "(num b - num a) mod 65536 = num b - num a"
      using a b by (intro mod_pos_pos_trivial) linarith+
    then show ?thesis using m False by simp
  qed
qed

lemma wraps_eq:
  assumes "sorted_wrt (\<lambda>a b. behind l (rid b) < behind l (rid a)) (x # rs)"
    and "\<forall>r\<in>set (x # rs). behind l (rid r) < 32768 \<and> rt_pkt_id r < 65536"
  shows "wraps (rt_pkt_id x) rs = (if gap_at_wrap (x # rs) then 1 else 0)"
  using assms
proof (induction rs arbitrary: x)
  case Nil
  then show ?case by (simp add: gap_at_wrap_def)
next
  case (Cons r rs)
  have IH: "wraps (rt_pkt_id r) rs = (if gap_at_wrap (r # rs) then 1 else 0)"
    using Cons.prems by (intro Cons.IH) auto
  have pos: "0 \<le> num y" "num y < 65536" if "y \<in> set (x # r # rs)" for y
    using that Cons.prems(2) by (auto simp: word_less_def)
  have "behind l (rid x) < 32768" using Cons.prems(2) by simp
  note bx = this uint_ge_0 [of "l - rid x"]
  have xr: "num r = num x + (behind l (rid x) - behind l (rid r)) - (if num r < num x then 65536 else 0)"
    using Cons.prems by (intro num_after) auto
  have br: "behind l (rid r) < behind l (rid x)" "0 \<le> behind l (rid r)" using Cons.prems(1) by auto
  have xy: "num y = num x + (behind l (rid x) - behind l (rid y)) - (if num y < num x then 65536 else 0)"
      "behind l (rid y) \<le> behind l (rid r)" "0 \<le> behind l (rid y)" if y: "y \<in> set (r # rs)" for y
  proof -
    have "behind l (rid y) < behind l (rid x)" "rt_pkt_id x < 65536" "rt_pkt_id y < 65536"
      using Cons.prems y by auto
    then show "num y = num x + (behind l (rid x) - behind l (rid y)) - (if num y < num x then 65536 else 0)"
      by (rule num_after)
    show "behind l (rid y) \<le> behind l (rid r)" "0 \<le> behind l (rid y)"
      using Cons.prems(1) y by auto
  qed
  have ry: "num y = num r + (behind l (rid r) - behind l (rid y)) - (if num y < num r then 65536 else 0)"
    if "y \<in> set rs" for y
    using Cons.prems that by (intro num_after) auto
  have step: "rid r - ucast (rt_pkt_id x) = 1 \<longleftrightarrow> behind l (rid x) - behind l (rid r) = 1"
  proof -
    have "uint (rid r - rid x) = behind l (rid x) - behind l (rid r)"
      unfolding uint_diff_behind [of "rid r" "rid x" l]
      using br bx by (intro mod_pos_pos_trivial) linarith+
    then show ?thesis by (auto simp: word_uint_eq_iff)
  qed
  have z: "0 \<in> rt_pkt_id ` set q \<longleftrightarrow> (\<exists>y\<in>set q. 0 = num y)"
    "65535 \<in> rt_pkt_id ` set q \<longleftrightarrow> (\<exists>y\<in>set q. 65535 = num y)" for q
    by (simp_all add: image_iff word_uint_eq_iff)
  let ?y = "last (r # rs)"
  have y: "?y \<in> set (r # rs)" by (rule last_in_set) simp
  show ?case
  proof (cases "num r < num x")
    case True
    have up: "num r \<le> num y \<and> num y < num x" if y: "y \<in> set (r # rs)" for y
    proof -
      have "num r = num x + (behind l (rid x) - behind l (rid r)) - 65536" "0 \<le> num r" "num y < 65536"
        using xr True pos [of r] pos [of y] y by auto
      moreover have "num y = num x + (behind l (rid x) - behind l (rid y))" if "\<not> num y < num x"
        using xy(1) [OF y] that by simp
      ultimately have "num y < num x" using xy(2) [OF y] by linarith
      then show ?thesis using xy(1-3) [OF y] xr True by simp
    qed
    have last: "num ?y < num x" "\<not> num ?y < num r" using up [OF y] by simp_all
    have both: "{0, 65535} \<subseteq> rt_pkt_id ` set (x # r # rs) \<longleftrightarrow> behind l (rid x) - behind l (rid r) = 1"
    proof
      assume "{0, 65535} \<subseteq> rt_pkt_id ` set (x # r # rs)"
      then obtain u v where u: "u \<in> set (x # r # rs)" "0 = num u" and v: "v \<in> set (x # r # rs)" "65535 = num v"
        using z [of "x # r # rs"] by blast
      have "u \<noteq> x" using u(2) True pos [of r] by auto
      then have "num r \<le> 0" using up [of u] u by simp
      moreover have "v = x" using up [of v] v pos [of x] by auto
      ultimately show "behind l (rid x) - behind l (rid r) = 1"
        using xr True v(2) pos [of r] by simp
    next
      assume 1: "behind l (rid x) - behind l (rid r) = 1"
      then have "num r = 0" "num x = 65535" using xr True pos [of r] pos [of x] by simp_all
      then show "{0, 65535} \<subseteq> rt_pkt_id ` set (x # r # rs)"
        using z [of "x # r # rs"] by auto
    qed
    have "gap_at_wrap (x # r # rs) \<longleftrightarrow> behind l (rid x) - behind l (rid r) \<noteq> 1"
      unfolding gap_at_wrap_def both using last(1) by (simp add: word_less_def)
    moreover have "\<not> gap_at_wrap (r # rs)" using last(2) by (simp add: gap_at_wrap_def word_less_def)
    ultimately show ?thesis using True IH step by (simp add: word_less_def)
  next
    case False
    have lt: "num v < num x" if v: "v \<in> set (r # rs)" "num v < num r" for v
    proof -
      have "v \<in> set rs" using v by auto
      from ry [OF this] v(2) have "num v = num r + (behind l (rid r) - behind l (rid v)) - 65536" by simp
      moreover have "num r = num x + (behind l (rid x) - behind l (rid r))" using xr False by simp
      ultimately show ?thesis using bx xy(3) [OF v(1)] by linarith
    qed
    have "num ?y < num x \<longleftrightarrow> num ?y < num r"
      using lt [OF y] False by auto
    moreover have "num x \<noteq> 65535" using False xr br pos [of r] by simp
    moreover have "num x \<noteq> 0" if "num ?y < num x" using that pos [of ?y] y by auto
    ultimately have "gap_at_wrap (x # r # rs) \<longleftrightarrow> gap_at_wrap (r # rs)"
      unfolding gap_at_wrap_def insert_subset z by (auto simp: word_less_def)
    then show ?thesis using False IH by (simp add: word_less_def)
  qed
qed


section \<open>Feedback from an ordered record\<close>

lemma scan_step_returns:
  "first \<or> lessThan_simple (ls_prev l) (rt_pkt_id r) \<Longrightarrow>
     \<exists>l'. scan_step first final r l = Inr l' \<and> ls_prev l' = rt_pkt_id r"
  by (auto simp: scan_step_def Let_def ns_assert_def)

lemma scan_record_returns:
  "ordered rs \<Longrightarrow> first \<or> rs = [] \<or> lessThan_simple (ls_prev l) (rt_pkt_id (hd rs)) \<Longrightarrow>
     \<exists>l'. scan_record first rs l = Inr l'"
proof (induction rs arbitrary: first l)
  case (Cons r rs)
  obtain m where m: "scan_step first (rs = []) r l = Inr m" "ls_prev m = rt_pkt_id r"
    using scan_step_returns [of first l r "rs = []"] Cons.prems(2) by auto
  have "\<exists>l'. scan_record False rs m = Inr l'"
    using Cons.prems(1) m(2) by (intro Cons.IH) (cases rs; auto simp: ordered_def)+
  then show ?case using m(1) by auto
qed simp

lemma ordered_behind:
  assumes "ordered q" "fits_wnd l q"
  shows "sorted_wrt (\<lambda>a b. behind l (rid b) < behind l (rid a)) q"
  using assms(1) unfolding ordered_def
  by (rule sorted_wrt_mono_rel [rotated]) (use fits_less [OF assms(2)] in blast)

text \<open>The record as the flags of the identifiers from its first to its last element.\<close>

definition record_span :: "RcvTime list \<Rightarrow> nat" where
  "record_span q = Suc (nat (uint (rid (last q) - rid (hd q))))"

definition record_flags :: "RcvTime list \<Rightarrow> bool list" where
  "record_flags q = arrived (rid (hd q)) (rid ` set q) (record_span q)"

definition lone_last :: "RcvTime list \<Rightarrow> bool" where
  "lone_last q \<longleftrightarrow> length q > 1 \<and> rid (last q) \<noteq> rid (last (butlast q)) + 1"

lemma isolated_lone: "q \<noteq> [] \<Longrightarrow> rid (hd q) = p + 1 \<Longrightarrow> isolated p q \<longleftrightarrow> lone_last q"
proof (induction q arbitrary: p)
  case (Cons r q)
  show ?case
  proof (cases q)
    case Nil
    then show ?thesis using Cons.prems by (simp add: lone_last_def)
  next
    case (Cons r' q')
    have gen: "isolated p (y # z # zs) \<longleftrightarrow> rid (last (z # zs)) \<noteq> rid (last (butlast (y # z # zs))) + 1" for p y z zs
      by (induction zs arbitrary: p y z) (auto simp: algebra_simps)
    show ?thesis unfolding Cons gen lone_last_def by simp
  qed
qed simp

lemma scan_of_record:
  assumes inv: "ordered q" "fits_wnd l q" and ne: "q \<noteq> []"
    and run: "scan_record True q m = Inr l'"
    and m: "ls_prev m = rt_pkt_id (hd q) - 1" "ls_run m = 0" "ls_losses m = 0" "ls_seq m = []"
  shows "expand_loss_seq (ls_seq l') @ (if lone_last q then [True] else []) = record_flags q"
    and "ls_losses l' = of_nat (count_list (record_flags q) False) - (if gap_at_wrap q then 65536 else 0)"
proof -
  obtain x rs where q: "q = x # rs" using ne by (cases q) auto
  let ?p = "ucast (ls_prev m) :: u16"
  have p: "?p = rid x - 1"
    using m(1) by (simp add: q word_uint_eq_iff uint_word_ariths uint_ucast16 mod_simps mod_mod_cancel)
  have srt: "sorted_wrt (\<lambda>a b. behind l (rid b) < behind l (rid a)) q" by (rule ordered_behind [OF inv])
  have fit: "\<forall>r\<in>set q. behind l (rid r) < 32768 \<and> rt_pkt_id r < 65536" using inv(2) by (simp add: fits_wnd_def)
  have bx: "behind l (rid x) < 32768" using fit q by simp
  have bp: "behind l ?p = behind l (rid x) + 1"
  proof -
    have "uint (l - ?p) = uint ((l - rid x) + 1)" unfolding p by (simp add: algebra_simps)
    also have "\<dots> = (behind l (rid x) + 1) mod 65536" unfolding uint_word_ariths(1) by simp
    also have "\<dots> = behind l (rid x) + 1"
      using bx uint_ge_0 [of "l - rid x"] by (intro mod_pos_pos_trivial) linarith+
    finally show ?thesis .
  qed
  have below: "\<forall>r\<in>set q. behind l (rid r) < behind l ?p"
    using srt bp by (auto simp: q)
  have dst: "distinct (map rid q)"
  proof -
    have "distinct q'" if "sorted_wrt (\<lambda>a b. behind l b < behind l a) q'" for q' :: "u16 list"
      using that by (induction q') auto
    then show ?thesis using srt by (simp add: sorted_wrt_map)
  qed
  have neq: "\<forall>r\<in>set q. rid r \<noteq> ?p" using below by force
  have lq: "last q \<in> set q" using ne by simp
  have span: "nat (behind l ?p - behind l (rid (last q))) = record_span q"
  proof -
    have "behind l (rid (last q)) \<le> behind l (rid x)"
      using srt lq by (auto simp: q)
    then have "uint (rid (last q) - rid x) = behind l (rid x) - behind l (rid (last q))"
      unfolding uint_diff_behind [of "rid (last q)" "rid x" l]
      using bx uint_ge_0 [of "l - rid (last q)"] by (intro mod_pos_pos_trivial) linarith+
    moreover have "nat (behind l (rid x) + 1 - behind l (rid (last q))) =
        Suc (nat (behind l (rid x) - behind l (rid (last q))))"
      using \<open>behind l (rid (last q)) \<le> behind l (rid x)\<close> by simp
    ultimately show ?thesis unfolding record_span_def bp by (simp add: q)
  qed
  have fl: "flags ?p q = record_flags q"
    unfolding record_flags_def span [symmetric]
    using flags_arrived [OF below srt ne, of "rid ` set q"] below by (force simp: p q)
  have iso: "isolated ?p q \<longleftrightarrow> lone_last q" by (rule isolated_lone [OF ne]) (simp add: p q)
  show "expand_loss_seq (ls_seq l') @ (if lone_last q then [True] else []) = record_flags q"
    using scan_record_flags [OF run _ ne neq dst] unfolding fl iso m(2,4) by simp
  have wr: "wraps (ls_prev m) q = (if gap_at_wrap q then 1 else 0)"
    using wraps_eq [of l x rs] srt fit p by (simp add: q)
  have small: "\<forall>x\<in>set q. rt_pkt_id x < 65536" and one: "q \<noteq> [] \<longrightarrow> rid (hd q) - ?p = 1"
    using fit p by (simp_all add: q)
  then show "ls_losses l' = of_nat (count_list (record_flags q) False) - (if gap_at_wrap q then 65536 else 0)"
    using scan_record_losses [OF run neq dst small disjI2 [OF one]] unfolding fl wr m(3) by simp
qed


text \<open>The correctness of the record: it is a duplicate-free window in cyclic order whose byte count
  is exact.\<close>

lemma Feedback_run:
  assumes "Feedback_NetState fs fd w raw s = Inr (s', p)" "m_record s \<noteq> []"
  shows "\<exists>l. scan_record True (m_record s) (begin_scan s) = Inr l \<and>
    losses_in_wnd s' = ls_losses l \<and> m_loss_seq s' = ls_seq l \<and>
    pkts_in_wnd s' = (if length (m_record s) > 1
      then ucast ((rt_pkt_id (last (m_record s)) - rt_pkt_id (hd (m_record s)) + 65537) mod 65536) else 0)"
proof -
  obtain l where "scan_record True (m_record s) (begin_scan s) = Inr l"
    using assms by (auto simp: Feedback_NetState_def Let_def dest!: res_bind_InrD split: if_splits)
  then show ?thesis
    using assms by (auto simp: Feedback_NetState_def Let_def dest!: res_bind_InrD split: if_splits)
qed

lemma Feedback_returns:
  assumes "record_inv s"
  shows "Feedback_NetState fs fd w raw s \<noteq> Inl AssertFailed"
proof -
  obtain l where "(if m_record s = [] then Inr (begin_scan s)
      else scan_record True (m_record s) (begin_scan s)) = Inr l"
    using scan_record_returns [of "m_record s" True "begin_scan s"] assms
    by (cases "m_record s = []") (auto simp: record_inv_def)
  then show ?thesis
    unfolding Feedback_NetState_def Let_def
    by (auto simp: float_to_u32_def)
qed

section \<open>Groups are settled\<close>

definition finished :: "u32 \<Rightarrow> receiver \<Rightarrow> bool" where
  "finished gid s \<longleftrightarrow> gid \<in> fst ` set (complete_groups s) \<or> gid \<in> fst ` set (timeout_groups s)"

definition groups_inv :: "receiver \<Rightarrow> bool" where
  "groups_inv s \<longleftrightarrow> distinct (map fst (incomplete_groups s)) \<and>
     (\<forall>(gid, g) \<in> set (incomplete_groups s). pg_group_id g = gid \<and> \<not> finished gid s) \<and>
     fst ` set (complete_groups s) \<inter> fst ` set (timeout_groups s) = {}"

lemma AddPacket_group_id:
  assumes "PacketGroup_AddPacket pick raw now pkt g = Inr g'"
  shows "pg_group_id g' = pg_group_id g"
proof -
  have i: "pg_group_id (InitGroup pkt g) = pg_group_id g"
    and u: "pg_group_id (update_statistics pkt x) = pg_group_id x" for x
    by (simp_all add: InitGroup_def update_statistics_def Let_def)
  show ?thesis
    using assms
    by (auto simp: PacketGroup_AddPacket_def Let_def i u dest!: res_bind_InrD split: if_splits)
qed

lemma GetUndecoded_group_id: "pg_group_id (snd (PacketGroup_GetUndecodedPackets g)) = pg_group_id g"
  by (simp add: PacketGroup_GetUndecodedPackets_def Let_def)

lemma statistics_groups [simp]:
  "incomplete_groups (receive_statistics pkt s) = incomplete_groups s"
  "complete_groups (receive_statistics pkt s) = complete_groups s"
  "timeout_groups (receive_statistics pkt s) = timeout_groups s"
  "r_delay_ddl (receive_statistics pkt s) = r_delay_ddl s"
  by (simp_all add: receive_statistics_def Let_def)

lemma find_or_create_id:
  "groups_inv s \<Longrightarrow> pg_group_id (find_or_create env pkt (receive_statistics pkt s)) = vh_group_id (vp_header pkt)"
  by (auto simp: find_or_create_def Let_def PacketGroup_ctor_def groups_inv_def
      split: option.splits dest: map_of_SomeD)

text \<open>The steps of \<open>ReceiveUdpPacket\<close>, up to the check whether the group is finished.\<close>

definition with_group :: "vpacket \<Rightarrow> PacketGroup \<Rightarrow> VideoDecoder \<Rightarrow> receiver \<Rightarrow> receiver" where
  "with_group pkt g d s = (receive_statistics pkt s)\<lparr>
     incomplete_groups := AList.update (vh_group_id (vp_header pkt)) g (incomplete_groups s),
     r_decoder := d\<rparr>"

lemma with_group_fields [simp]:
  "incomplete_groups (with_group pkt g d s) =
     AList.update (vh_group_id (vp_header pkt)) g (incomplete_groups s)"
  "complete_groups (with_group pkt g d s) = complete_groups s"
  "timeout_groups (with_group pkt g d s) = timeout_groups s"
  "r_delay_ddl (with_group pkt g d s) = r_delay_ddl s"
  by (simp_all add: with_group_def)

lemma finished_map:
  "finished i s \<longleftrightarrow> map_of (complete_groups s) i \<noteq> None \<or> map_of (timeout_groups s) i \<noteq> None"
  by (simp add: finished_def map_of_eq_None_iff)

lemma ReceiveUdpPacket_steps:
  assumes "groups_inv s" "ReceiveUdpPacket env now pkt s = Inr (s', ack, acks)"
  shows "\<exists>g d. pg_group_id g = vh_group_id (vp_header pkt) \<and>
    (if finished (vh_group_id (vp_header pkt)) s then s' = with_group pkt g d s
     else \<exists>s3. (if PacketGroup_CheckComplete g
                 then complete_group (vh_group_id (vp_header pkt)) g (with_group pkt g d s)
                 else Inr (with_group pkt g d s)) = Inr s3 \<and> s' = expire_groups (vp_rcv_time pkt) s3)"
proof -
  let ?gid = "vh_group_id (vp_header pkt)"
  obtain g0 where g0: "PacketGroup_AddPacket (rv_pick env) (raw_data (rv_raw env)) now pkt
      (find_or_create env pkt (receive_statistics pkt s)) = Inr g0"
    using assms(2) by (auto simp: ReceiveUdpPacket_def Let_def dest!: res_bind_InrD)
  obtain ps g where g: "PacketGroup_GetUndecodedPackets g0 = (ps, g)" by force
  have gid: "pg_group_id g = ?gid"
    using GetUndecoded_group_id [of g0] AddPacket_group_id [OF g0] find_or_create_id [OF assms(1)] g by simp
  obtain d frames where d: "DecodeDataPacket ps (r_decoder (receive_statistics pkt s)) = Inr (d, frames)"
    using assms(2) by (auto simp: ReceiveUdpPacket_def Let_def g0 g dest!: res_bind_InrD)
  have run: "(if finished ?gid s then Inr (with_group pkt g d s, ReplyACK env ps (vh_global_id (vp_header pkt)), frames)
      else res_bind (if PacketGroup_CheckComplete g then complete_group ?gid g (with_group pkt g d s)
                     else Inr (with_group pkt g d s)) (\<lambda>s3.
        Inr (expire_groups (vp_rcv_time pkt) s3, ReplyACK env ps (vh_global_id (vp_header pkt)), frames))) =
      Inr (s', ack, acks)"
    using assms(2)
    by (cases "finished ?gid s"; cases "PacketGroup_CheckComplete g")
      (simp_all add: ReceiveUdpPacket_def Let_def g0 g d finished_map with_group_def)
  show ?thesis
  proof (cases "finished ?gid s")
    case True
    then show ?thesis using run gid by auto
  next
    case False
    then obtain s3 where "(if PacketGroup_CheckComplete g then complete_group ?gid g (with_group pkt g d s)
        else Inr (with_group pkt g d s)) = Inr s3" "s' = expire_groups (vp_rcv_time pkt) s3"
      using run by (auto dest!: res_bind_InrD)
    then show ?thesis using gid False by (intro exI [of _ g] exI [of _ d]) simp
  qed
qed

lemma expire_fold:
  "fst ` set (fold (\<lambda>(_, g). AList.update (pg_group_id g) g) gs m) =
     fst ` set m \<union> (pg_group_id \<circ> snd) ` set gs"
  by (induction gs arbitrary: m) (auto simp: dom_update split: prod.splits)

lemma set_update_sub: "set (AList.update k v al) \<subseteq> insert (k, v) (set al)"
  by (induction al) auto

lemma set_delete: "set (AList.delete k al) = {x \<in> set al. fst x \<noteq> k}"
  by (auto simp: AList.delete_eq)

lemma with_group_inv:
  assumes "groups_inv s" "\<not> finished (vh_group_id (vp_header pkt)) s"
    and "pg_group_id g = vh_group_id (vp_header pkt)"
  shows "groups_inv (with_group pkt g d s)"
proof -
  have "pg_group_id h = i \<and> \<not> finished i s"
    if "(i, h) \<in> set (AList.update (vh_group_id (vp_header pkt)) g (incomplete_groups s))" for i h
    using subsetD [OF set_update_sub that] assms by (auto simp: groups_inv_def)
  then show ?thesis
    using assms by (auto simp: groups_inv_def finished_def distinct_update)
qed

lemma complete_group_fields:
  assumes "complete_group gid g s = Inr s'"
  shows "complete_groups s' = AList.update gid g (complete_groups s)"
    "incomplete_groups s' = AList.delete gid (incomplete_groups s)"
    "timeout_groups s' = timeout_groups s" "r_delay_ddl s' = r_delay_ddl s"
  using assms by (auto simp: complete_group_def Let_def Set_FECgroup_delay_def dest!: res_bind_InrD)

lemma complete_group_inv:
  assumes inv: "groups_inv s" and new: "\<not> finished gid s" and run: "complete_group gid g s = Inr s'"
  shows "groups_inv s'"
proof -
  note f = complete_group_fields [OF run]
  have fin: "finished i s' \<longleftrightarrow> finished i s \<or> i = gid" for i
    unfolding finished_def f by (auto simp: dom_update)
  have "distinct (map fst (incomplete_groups s'))"
    unfolding f using inv by (simp add: groups_inv_def distinct_delete)
  moreover have "\<forall>(i, h)\<in>set (incomplete_groups s'). pg_group_id h = i \<and> \<not> finished i s'"
    unfolding fin f set_delete using inv by (auto simp: groups_inv_def)
  moreover have "fst ` set (complete_groups s') \<inter> fst ` set (timeout_groups s') = {}"
    unfolding f using inv new by (auto simp: dom_update groups_inv_def finished_def)
  ultimately show ?thesis unfolding groups_inv_def by blast
qed

lemma expire_groups_fields:
  "incomplete_groups (expire_groups rcv s) =
     filter (\<lambda>(_, g). \<not> timed_out rcv (r_delay_ddl s) g) (incomplete_groups s)"
  "complete_groups (expire_groups rcv s) = complete_groups s"
  "fst ` set (timeout_groups (expire_groups rcv s)) = fst ` set (timeout_groups s) \<union>
     (pg_group_id \<circ> snd) ` {x \<in> set (incomplete_groups s). timed_out rcv (r_delay_ddl s) (snd x)}"
  "r_delay_ddl (expire_groups rcv s) = r_delay_ddl s"
  by (simp_all add: expire_groups_def case_prod_unfold expire_fold [unfolded case_prod_unfold])

lemma expire_groups_inv:
  assumes inv: "groups_inv s"
  shows "groups_inv (expire_groups rcv s)"
    and "\<forall>(gid, g) \<in> set (incomplete_groups (expire_groups rcv s)). \<not> timed_out rcv (r_delay_ddl s) g"
    and "gid \<in> fst ` set (incomplete_groups (expire_groups rcv s)) \<or> finished gid (expire_groups rcv s) \<longleftrightarrow>
      gid \<in> fst ` set (incomplete_groups s) \<or> finished gid s"
proof -
  let ?old = "{x \<in> set (incomplete_groups s). timed_out rcv (r_delay_ddl s) (snd x)}"
  have keys: "(pg_group_id \<circ> snd) ` ?old = fst ` ?old"
    using inv by (intro image_cong) (auto simp: groups_inv_def)
  have fin: "finished i (expire_groups rcv s) \<longleftrightarrow> finished i s \<or> i \<in> fst ` ?old" for i
    unfolding finished_def expire_groups_fields keys by blast
  have "set (incomplete_groups s) = set (incomplete_groups (expire_groups rcv s)) \<union> ?old"
    by (auto simp: expire_groups_fields)
  then have all: "fst ` set (incomplete_groups s) =
      fst ` set (incomplete_groups (expire_groups rcv s)) \<union> fst ` ?old"
    unfolding image_Un [symmetric] by (rule arg_cong)
  have dist: "distinct (map fst (incomplete_groups s))" using inv by (simp add: groups_inv_def)
  have live: "pg_group_id g = k \<and> \<not> finished k s" if "(k, g) \<in> set (incomplete_groups s)" for k g
    using inv that by (auto simp: groups_inv_def)
  have uniq: "g = g'" if "(k, g) \<in> set (incomplete_groups s)" "(k, g') \<in> set (incomplete_groups s)" for k g g'
    using dist that by (metis eq_key_imp_eq_value)
  show "groups_inv (expire_groups rcv s)"
    unfolding groups_inv_def
  proof (intro conjI)
    show "distinct (map fst (incomplete_groups (expire_groups rcv s)))"
      unfolding expire_groups_fields using dist by (rule distinct_map_filter)
    show "\<forall>(gid, g)\<in>set (incomplete_groups (expire_groups rcv s)).
        pg_group_id g = gid \<and> \<not> finished gid (expire_groups rcv s)"
      unfolding fin expire_groups_fields using live uniq by fastforce
    show "fst ` set (complete_groups (expire_groups rcv s)) \<inter> fst ` set (timeout_groups (expire_groups rcv s)) = {}"
    proof -
      have "i \<notin> fst ` set (complete_groups s)" if i: "i \<in> fst ` ?old" for i
      proof -
        obtain g where "(i, g) \<in> set (incomplete_groups s)" using i by auto
        from live [OF this] show ?thesis by (simp add: finished_def)
      qed
      moreover have "fst ` set (complete_groups s) \<inter> fst ` set (timeout_groups s) = {}"
        using inv by (simp add: groups_inv_def)
      ultimately show ?thesis unfolding expire_groups_fields keys by blast
    qed
  qed
  show "\<forall>(gid, g) \<in> set (incomplete_groups (expire_groups rcv s)). \<not> timed_out rcv (r_delay_ddl s) g"
    by (auto simp: expire_groups_fields)
  show "gid \<in> fst ` set (incomplete_groups (expire_groups rcv s)) \<or> finished gid (expire_groups rcv s) \<longleftrightarrow>
      gid \<in> fst ` set (incomplete_groups s) \<or> finished gid s"
    unfolding fin all by blast
qed

section \<open>Duplicates\<close>

lemma scan_record_repeated:
  assumes "ordered (a @ [x])" "\<not> lessThan_simple (rt_pkt_id x) (rt_pkt_id y)"
    and "first \<or> lessThan_simple (ls_prev l) (rt_pkt_id (hd (a @ [x])))"
  shows "scan_record first (a @ x # y # b) l = Inl AssertFailed"
  using assms
proof (induction a arbitrary: first l)
  case Nil
  then obtain m where "scan_step first (y # b = []) x l = Inr m" "ls_prev m = rt_pkt_id x"
    using scan_step_returns [of first l x "y # b = []"] by auto
  moreover have "scan_step False (b = []) y m = Inl AssertFailed" if "ls_prev m = rt_pkt_id x" for m
    using Nil.prems(2) that by (simp add: scan_step_def Let_def ns_assert_def)
  ultimately show ?case by simp
next
  case (Cons r a)
  then obtain m where m: "scan_step first (a @ x # y # b = []) r l = Inr m" "ls_prev m = rt_pkt_id r"
    using scan_step_returns [of first l r "a @ x # y # b = []"] by auto
  have "scan_record False (a @ x # y # b) m = Inl AssertFailed"
    using Cons.prems(1,2) m(2) by (intro Cons.IH) (cases a; auto simp: ordered_def)+
  then show ?case using m(1) by simp
qed

lemma insert_duplicate:
  assumes ord: "ordered q" and fit: "fits_wnd l q" and q: "q = a @ r # b" "a \<noteq> []"
    and dup: "rt_pkt_id rt = rt_pkt_id r"
  shows "insert_record rt q = a @ rt # r # b"
proof -
  let ?less = "\<lambda>a b. lessThan_simple (rt_pkt_id a) (rt_pkt_id b)"
  obtain x xs where a: "a = x # xs" using q(2) by (cases a) auto
  have irr: "\<not> ?less y r" if "y \<in> set (r # b)" for y
  proof -
    have "y = r \<or> ?less r y" using ord that by (auto simp: ordered_def q(1) sorted_wrt_append)
    moreover have "\<not> ?less r y \<or> \<not> ?less y r"
      using fits_less [OF fit, of r y] fits_less [OF fit, of y r] that q(1) by auto
    ultimately show ?thesis using fits_less [OF fit, of r r] q(1) by auto
  qed
  have before: "?less y r" if "y \<in> set a" for y
    using ord that by (auto simp: ordered_def q(1) sorted_wrt_append)
  have front: "\<not> ?less rt x"
    using before [of x] fits_less [OF fit, of r x] fits_less [OF fit, of x r] dup
    by (auto simp: q(1) a)
  obtain y ys where y: "rev a = y # ys" using q(2) by (cases "rev a") auto
  have yl: "?less y r" using before [of y] y by (metis list.set_intros(1) set_rev)
  have rev_q: "rev q = rev (r # b) @ y # ys" by (simp add: q(1) y)
  have all: "\<forall>z\<in>set (rev (r # b)). \<not> ?less z rt" using irr dup by simp
  have tw: "takeWhile (\<lambda>x. \<not> ?less x rt) (rev q) = rev (r # b)"
    unfolding rev_q using all yl dup by (subst takeWhile_append2) auto
  have dw: "dropWhile (\<lambda>x. \<not> ?less x rt) (rev q) = y # ys"
    unfolding rev_q using all yl dup by (subst dropWhile_append2) auto
  have "insert_from_back rt (rev q) [] = Some (rev (y # ys) @ rt # rev (rev (r # b)) @ [])"
    unfolding insert_from_back_eq dw tw by simp
  also have "rev (y # ys) = a" unfolding y [symmetric] by simp
  finally show ?thesis using front by (simp add: insert_record_def q(1) a)
qed

section \<open>An example\<close>

text \<open>Packets 65534, 65535, 2 and 3 of 100 bytes; 0 and 1 are missing.\<close>

abbreviation example_rt :: "u32 \<Rightarrow> u32 \<Rightarrow> RcvTime" where
  "example_rt i t \<equiv> \<lparr>rt_pkt_id = i, rt_us = t, rt_pkt_size = 100\<rparr>"

definition example_receiver :: "receiver \<Rightarrow> receiver" where
  "example_receiver raw = (PacketReceiverUdp_new 50000 20 1 2 3 raw)\<lparr>bytes_in_wnd := 400,
     m_record := [example_rt 65534 60000, example_rt 65535 60001, example_rt 2 60002, example_rt 3 60003]\<rparr>"

lemma example_receiver_fields:
  "m_record (example_receiver raw) =
     [example_rt 65534 60000, example_rt 65535 60001, example_rt 2 60002, example_rt 3 60003]"
  "bytes_in_wnd (example_receiver raw) = 400" "time_wnd_size (example_receiver raw) = 50000"
  "m_last_feedback (example_receiver raw) = 65535"
  "incomplete_groups (example_receiver raw) = []" "complete_groups (example_receiver raw) = []"
  "timeout_groups (example_receiver raw) = []"
  by (simp_all add: example_receiver_def PacketReceiverUdp_new_def)

lemma example_record_inv: "record_inv (example_receiver raw)"
proof -
  have "fits_wnd 3 (m_record (example_receiver raw))"
    by (simp add: fits_wnd_def example_receiver_fields)
  then show ?thesis
    by (auto simp: record_inv_def example_receiver_fields ordered_def lessThan_simple_def
        lessThan_iff wnd_bytes_def)
qed

section \<open>Properties\<close>

text \<open>C18: what recording a packet can do, given that the loop that slides the window increments an iterator whose element it
  has just erased. If no element is stale, the packet is inserted and nothing else happens. If one is, the standard leaves
  the loop undefined. On an implementation where the iterator has some position after the erasure the loop ends,
  whichever that is: it keeps every element that is not stale, in order, and the byte count loses exactly the bytes of
  those erased. If the erased iterator stays at its position, as in a
  vector, the element after each erased one stays too, stale or not; only if the loop went on with that
  element would exactly the stale ones go.\<close>

theorem record_packet_outcomes:
  fixes rt s defines "old \<equiv> stale (rt_us rt) (time_wnd_size s)"
    and "kept \<equiv> \<lambda>q. s\<lparr>m_record := insert_record rt q,
      bytes_in_wnd := bytes_in_wnd s - (wnd_bytes (m_record s) - wnd_bytes q) + rt_pkt_size rt\<rparr>"
  assumes "m_record s \<noteq> []"
  shows "(if \<exists>x\<in>set (m_record s). old x then record_packet (\<lambda>i n. None) rt s = Inl UndefinedBehaviour
      else record_packet nx rt s = Inr (kept (m_record s))) \<and>
    (\<exists>q. record_packet (\<lambda>i n. Some (h i n)) rt s = Inr (kept q) \<and> subseq q (m_record s) \<and>
      filter (\<lambda>r. \<not> old r) q = filter (\<lambda>r. \<not> old r) (m_record s)) \<and>
    record_packet (\<lambda>i n. Some (Suc i)) rt s = Inr (kept (skip_erased old (m_record s))) \<and>
    record_packet (\<lambda>i n. Some i) rt s = Inr (kept (filter (\<lambda>r. \<not> old r) (m_record s)))"
proof -
  have run: "record_packet nx rt s = Inr (kept q)"
    if "slide_window nx old 0 (m_record s) (bytes_in_wnd s) = Inr (q, b)" for nx q b
    using that slide_window_bytes [OF that] assms(3) by (simp add: record_packet_def old_def kept_def)
  have bad: "record_packet (\<lambda>i n. None) rt s = Inl UndefinedBehaviour" if "\<exists>x\<in>set (m_record s). old x"
    using slide_window_undefined [of 0 "m_record s" old] that assms(3) by (simp add: record_packet_def old_def)
  have good: "record_packet nx rt s = Inr (kept (m_record s))" if "\<not> (\<exists>x\<in>set (m_record s). old x)"
    using run [OF slide_window_young] that by blast
  obtain q b where q: "slide_window (\<lambda>i n. Some (h i n)) old 0 (m_record s) (bytes_in_wnd s) = Inr (q, b)"
    using slide_window_returns [of "\<lambda>i n. Some (h i n)" old 0 "m_record s" "bytes_in_wnd s"] by auto
  obtain b' where "slide_window (\<lambda>i n. Some (Suc i)) old 0 (m_record s) (bytes_in_wnd s) =
      Inr (skip_erased old (m_record s), b')"
    using slide_window_position [of old 0 "m_record s" "bytes_in_wnd s"] by auto
  then have pos: "record_packet (\<lambda>i n. Some (Suc i)) rt s = Inr (kept (skip_erased old (m_record s)))" by (rule run)
  have int: "record_packet (\<lambda>i n. Some i) rt s = Inr (kept (filter (\<lambda>r. \<not> old r) (m_record s)))"
    by (rule run) (simp add: slide_window_intended)
  have "if \<exists>x\<in>set (m_record s). old x then record_packet (\<lambda>i n. None) rt s = Inl UndefinedBehaviour
      else record_packet nx rt s = Inr (kept (m_record s))"
    using bad good by (simp only: split: if_splits) blast
  then show ?thesis using run [OF q] slide_window_erases [OF q] pos int by blast
qed

theorem record_packet_outcomes_witness:
  "\<forall>raw. \<exists>s'. record_packet (\<lambda>i n. Some (Suc i)) (example_rt 4 200000) (example_receiver raw) = Inr s' \<and>
     map rt_us (m_record s') = [60001, 60003, 200000]"
proof
  fix raw
  let ?r = "example_receiver raw" and ?rt = "example_rt 4 200000"
  have "m_record ?r \<noteq> []" by (simp add: example_receiver_fields)
  from record_packet_outcomes [OF this, of ?rt, THEN conjunct2, THEN conjunct2, THEN conjunct1] obtain s' where
    r: "record_packet (\<lambda>i n. Some (Suc i)) ?rt ?r = Inr s'"
    and m: "m_record s' = insert_record ?rt (skip_erased (stale (rt_us ?rt) (time_wnd_size ?r)) (m_record ?r))"
    by simp
  have "m_record s' = [example_rt 65535 60001, example_rt 3 60003, ?rt]"
    unfolding m by (simp add: example_receiver_fields stale_def insert_record_def lessThan_simple_def lessThan_iff)
  then show "\<exists>s'. record_packet (\<lambda>i n. Some (Suc i)) ?rt ?r = Inr s' \<and> map rt_us (m_record s') = [60001, 60003, 200000]"
    using r by simp
qed

text \<open>C17: the record is a window in cyclic order, without duplicates, whose byte count is exact, and
  recording a packet keeps it one, wherever the erased iterators go on, as long as the identifiers
  are new and lie in half the number space; so feedback from it never fails the
  assertion that the history is ordered.\<close>

theorem record_stays_ordered:
  assumes "record_inv s" "fits_wnd l (rt # m_record s)" "rid rt \<notin> rid ` set (m_record s)"
    and "record_packet nx rt s = Inr s'"
  shows "record_inv s' \<and> rt \<in> set (m_record s') \<and> set (m_record s') \<subseteq> insert rt (set (m_record s)) \<and>
    Feedback_NetState fs fd w raw s' \<noteq> Inl AssertFailed"
  using record_packet_ok [OF assms] Feedback_returns by blast


theorem record_stays_ordered_witness:
  "\<forall>raw. \<exists>s'. record_packet (\<lambda>i n. Some i) (example_rt 1 60004) (example_receiver raw) = Inr s' \<and>
     record_inv s'"
proof
  fix raw
  obtain s' where s': "record_packet (\<lambda>i n. Some i) (example_rt 1 60004) (example_receiver raw) = Inr s'"
    by (simp add: record_packet_def example_receiver_fields slide_window_intended)
  have "fits_wnd 3 (example_rt 1 60004 # m_record (example_receiver raw))"
    "rid (example_rt 1 60004) \<notin> rid ` set (m_record (example_receiver raw))"
    by (simp_all add: fits_wnd_def example_receiver_fields)
  from record_stays_ordered [OF example_record_inv this s'] s'
  show "\<exists>s'. record_packet (\<lambda>i n. Some i) (example_rt 1 60004) (example_receiver raw) = Inr s' \<and>
     record_inv s'" by blast
qed

text \<open>C16: what a packet does to the groups. If its group is not yet finished, then afterwards it is
  in exactly one of the three tables, no incomplete group is past its deadline, and the
  tables stay disjoint; a packet of a finished group opens the group a second time, as an incomplete
  one.\<close>

theorem packet_settles_group:
  assumes "groups_inv s" "ReceiveUdpPacket env now pkt s = Inr (s', ack, acks)"
  shows "if finished (vh_group_id (vp_header pkt)) s
    then finished (vh_group_id (vp_header pkt)) s' \<and>
      vh_group_id (vp_header pkt) \<in> fst ` set (incomplete_groups s')
    else groups_inv s' \<and>
      (vh_group_id (vp_header pkt) \<in> fst ` set (incomplete_groups s') \<or> finished (vh_group_id (vp_header pkt)) s') \<and>
      (\<forall>(gid, g) \<in> set (incomplete_groups s'). \<not> timed_out (vp_rcv_time pkt) (r_delay_ddl s) g)"
proof -
  let ?gid = "vh_group_id (vp_header pkt)"
  obtain g d where g: "pg_group_id g = ?gid"
    and run: "if finished ?gid s then s' = with_group pkt g d s
     else \<exists>s3. (if PacketGroup_CheckComplete g then complete_group ?gid g (with_group pkt g d s)
                 else Inr (with_group pkt g d s)) = Inr s3 \<and> s' = expire_groups (vp_rcv_time pkt) s3"
    using ReceiveUdpPacket_steps [OF assms] by blast
  show ?thesis
  proof (cases "finished ?gid s")
    case True
    then show ?thesis using run by (simp add: finished_def dom_update)
  next
    case False
    then obtain s3 where s3: "(if PacketGroup_CheckComplete g then complete_group ?gid g (with_group pkt g d s)
        else Inr (with_group pkt g d s)) = Inr s3" and s': "s' = expire_groups (vp_rcv_time pkt) s3"
      using run by auto
    have w: "groups_inv (with_group pkt g d s)" "\<not> finished ?gid (with_group pkt g d s)"
      using with_group_inv [OF assms(1) False g] False by (simp_all add: finished_def)
    have "groups_inv s3 \<and> (?gid \<in> fst ` set (incomplete_groups s3) \<or> finished ?gid s3) \<and>
        r_delay_ddl s3 = r_delay_ddl s"
    proof (cases "PacketGroup_CheckComplete g")
      case True
      then have c: "complete_group ?gid g (with_group pkt g d s) = Inr s3" using s3 by simp
      show ?thesis
        using complete_group_inv [OF w c]
        by (simp add: finished_def complete_group_fields [OF c] dom_update)
    next
      case incomplete: False
      then have "s3 = with_group pkt g d s" using s3 by simp
      then show ?thesis using w(1) by (simp add: dom_update)
    qed
    then show ?thesis using False expire_groups_inv [of s3] s' by simp
  qed
qed


theorem packet_settles_group_witness:
  "\<forall>raw R. \<exists>s' ack acks. ReceiveUdpPacket \<lparr>rv_pick = hd, rv_raw_group = example_group, rv_raw = R\<rparr> 5
      (VFec example_cover) (example_receiver raw) = Inr (s', ack, acks) \<and> groups_inv s'"
proof (intro allI)
  fix raw R
  let ?env = "\<lparr>rv_pick = hd, rv_raw_group = example_group, rv_raw = R\<rparr>"
  have "\<exists>s' ack acks. ReceiveUdpPacket ?env 5 (VFec example_cover) (example_receiver raw) = Inr (s', ack, acks)"
    by (simp add: ReceiveUdpPacket_def Let_def find_or_create_def example_receiver_fields
        example_cover_def example_fec_def example_video_def example_group_def PacketGroup_ctor_def
        PacketGroup_AddPacket_def InitGroup_def update_statistics_def PacketBatch_new_def ns_assert_def
        PacketBatch_AddPacket_def pkt_id_batch_def batch_receive_def PacketBatch_CheckComplete_def
        PacketBatch_GetUndecodedPackets_def PacketGroup_GetUndecodedPackets_def
        PacketGroup_CheckComplete_def)
  then obtain s' ack acks where
    run: "ReceiveUdpPacket ?env 5 (VFec example_cover) (example_receiver raw) = Inr (s', ack, acks)" by blast
  have "groups_inv (example_receiver raw)" "\<not> finished i (example_receiver raw)" for i
    by (simp_all add: groups_inv_def finished_def example_receiver_fields)
  with packet_settles_group [OF this(1) run] run
  show "\<exists>s' ack acks. ReceiveUdpPacket ?env 5 (VFec example_cover) (example_receiver raw) = Inr (s', ack, acks) \<and>
      groups_inv s'" by auto
qed

text \<open>What the feedback reports. Read with one flag per identifier, the loss sequence says which identifiers from the
  first to the last of the record have arrived, except that a last packet that follows a gap is left out;
  \<open>pkts_in_wnd\<close> counts these identifiers and \<open>losses_in_wnd\<close> those that have not
  arrived, unless the identifiers wrap around inside a gap: then it is 65536 too small, in 32-bit
  arithmetic.\<close>

theorem feedback_reports_gaps:
  assumes "record_inv s" "m_record s \<noteq> []" "Feedback_NetState fs fd w raw s = Inr (s', p)"
  shows "expand_loss_seq (m_loss_seq s') @ (if lone_last (m_record s) then [True] else []) =
      record_flags (m_record s) \<and>
    losses_in_wnd s' = of_nat (count_list (record_flags (m_record s)) False) -
      (if gap_at_wrap (m_record s) then 65536 else 0) \<and>
    pkts_in_wnd s' = (if length (m_record s) > 1 then of_nat (record_span (m_record s)) else 0)"
proof -
  let ?q = "m_record s"
  obtain l where fit: "fits_wnd l ?q" using assms(1) by (auto simp: record_inv_def)
  obtain m where m: "scan_record True ?q (begin_scan s) = Inr m" "losses_in_wnd s' = ls_losses m"
      "m_loss_seq s' = ls_seq m"
    and pkts: "pkts_in_wnd s' = (if length ?q > 1
      then ucast ((rt_pkt_id (last ?q) - rt_pkt_id (hd ?q) + 65537) mod 65536) else 0)"
    using Feedback_run [OF assms(3,2)] by blast
  have ord: "ordered ?q" using assms(1) by (simp add: record_inv_def)
  have b: "ls_prev (begin_scan s) = rt_pkt_id (hd ?q) - 1" "ls_run (begin_scan s) = 0"
    "ls_losses (begin_scan s) = 0" "ls_seq (begin_scan s) = []"
    by (simp_all add: begin_scan_def)
  have "ucast ((x - y + 65537) mod 65536) = (of_nat (Suc (nat (uint ((ucast x :: u16) - ucast y)))) :: u16)"
    for x y :: u32
  proof -
    have "uint ((x - y + 65537) mod 65536) = uint (ucast x - ucast (y - 1) :: u16)"
      using gap_eq [of x "y - 1"] by (simp add: algebra_simps)
    moreover have "(ucast (y - 1) :: u16) = ucast y - 1"
      by (simp add: word_uint_eq_iff uint_word_ariths uint_ucast16 mod_simps mod_mod_cancel)
    ultimately have "(word_of_int (uint ((x - y + 65537) mod 65536)) :: u16) =
        word_of_int (uint (ucast x - (ucast y - 1) :: u16))" by simp
    moreover have "(word_of_int (uint v) :: u16) = ucast v" for v :: u32 by simp
    ultimately show ?thesis by simp
  qed
  then show ?thesis
    using scan_of_record [OF ord fit assms(2) m(1) b] by (simp add: m(2,3) pkts record_span_def)
qed

theorem feedback_reports_gaps_witness:
  "\<forall>raw NS. \<exists>s' p. Feedback_NetState (\<lambda>_. 0) (\<lambda>_. 0) False NS (example_receiver raw) = Inr (s', p) \<and>
     expand_loss_seq (m_loss_seq s') = [True, True, False, False, True, True] \<and>
     losses_in_wnd s' = 2 - 65536 \<and> pkts_in_wnd s' = 6"
proof (intro allI)
  fix raw NS
  have ne: "m_record (example_receiver raw) \<noteq> []" by (simp add: example_receiver_fields)
  obtain l where "scan_record True (m_record (example_receiver raw)) (begin_scan (example_receiver raw)) = Inr l"
    using scan_record_returns [of "m_record (example_receiver raw)" True "begin_scan (example_receiver raw)"]
      example_record_inv [of raw] by (auto simp: record_inv_def)
  then obtain s' p where run: "Feedback_NetState (\<lambda>_. 0) (\<lambda>_. 0) False NS (example_receiver raw) = Inr (s', p)"
    using ne by (auto simp: Feedback_NetState_def Let_def example_receiver_fields(3) float_to_u32_def
        window_throughput_def trunc_def)
  have span: "record_span (m_record (example_receiver raw)) = 6"
    by (simp add: record_span_def example_receiver_fields)
  have flags: "record_flags (m_record (example_receiver raw)) = [True, True, False, False, True, True]"
    unfolding record_flags_def span
    by (simp add: arrived_def example_receiver_fields upt_rec)
  have "gap_at_wrap (m_record (example_receiver raw))" "\<not> lone_last (m_record (example_receiver raw))"
    by (simp_all add: gap_at_wrap_def lone_last_def example_receiver_fields)
  with feedback_reports_gaps [OF example_record_inv ne run] run
  show "\<exists>s' p. Feedback_NetState (\<lambda>_. 0) (\<lambda>_. 0) False NS (example_receiver raw) = Inr (s', p) \<and>
     expand_loss_seq (m_loss_seq s') = [True, True, False, False, True, True] \<and>
     losses_in_wnd s' = 2 - 65536 \<and> pkts_in_wnd s' = 6"
    unfolding span flags by (auto simp: example_receiver_fields)
qed

text \<open>A duplicate that arrives while nothing in the window is stale is stored before the
  packet it repeats, unless that is the first of the record, and the next feedback fails the
  assertion that the history is ordered.\<close>

theorem duplicate_breaks_feedback:
  assumes "record_inv s" "m_record s = a @ r # b" "a \<noteq> []" "rt_pkt_id rt = rt_pkt_id r"
    and "\<forall>x\<in>set (m_record s). \<not> stale (rt_us rt) (time_wnd_size s) x" "time_wnd_size s \<noteq> 0"
  shows "\<exists>s'. record_packet nx rt s = Inr s' \<and> m_record s' = a @ rt # r # b \<and>
    Feedback_NetState fs fd w raw s' = Inl AssertFailed"
proof -
  obtain l where fit: "fits_wnd l (m_record s)" using assms(1) by (auto simp: record_inv_def)
  have ord: "ordered (m_record s)" using assms(1) by (simp add: record_inv_def)
  have run: "record_packet nx rt s = Inr (s\<lparr>m_record := a @ rt # r # b,
      bytes_in_wnd := bytes_in_wnd s + rt_pkt_size rt\<rparr>)"
    using insert_duplicate [OF ord fit assms(2-4)] assms(2,5) by (simp add: record_packet_def slide_window_young)
  have "ordered (a @ [rt])"
    using ord assms(4) by (auto simp: ordered_def assms(2) sorted_wrt_append)
  moreover have "\<not> lessThan_simple (rt_pkt_id rt) (rt_pkt_id r)"
    using fits_less [OF fit, of r r] assms(2,4) by simp
  ultimately have "scan_record True (a @ rt # r # b) (begin_scan s') = Inl AssertFailed" for s'
    by (intro scan_record_repeated) simp_all
  then have "Feedback_NetState fs fd w raw (s\<lparr>m_record := a @ rt # r # b,
      bytes_in_wnd := bytes_in_wnd s + rt_pkt_size rt\<rparr>) = Inl AssertFailed"
    using assms(6) by (simp add: Feedback_NetState_def Let_def)
  with run show ?thesis by simp
qed


theorem duplicate_breaks_feedback_witness:
  "\<forall>raw NS. \<exists>s'. record_packet (\<lambda>i n. None) (example_rt 2 60004) (example_receiver raw) = Inr s' \<and>
     Feedback_NetState id id False NS s' = Inl AssertFailed"
proof (intro allI)
  fix raw NS
  have q: "m_record (example_receiver raw) = [example_rt 65534 60000, example_rt 65535 60001] @
      example_rt 2 60002 # [example_rt 3 60003]"
    by (simp add: example_receiver_fields)
  have "\<forall>x\<in>set (m_record (example_receiver raw)).
      \<not> stale (rt_us (example_rt 2 60004)) (time_wnd_size (example_receiver raw)) x"
    "time_wnd_size (example_receiver raw) \<noteq> 0"
    by (simp_all add: example_receiver_fields stale_def)
  from duplicate_breaks_feedback [OF example_record_inv q _ _ this, where nx = "\<lambda>i n. None"
      and fs = id and fd = id and w = False and raw = NS]
  show "\<exists>s'. record_packet (\<lambda>i n. None) (example_rt 2 60004) (example_receiver raw) = Inr s' \<and>
     Feedback_NetState id id False NS s' = Inl AssertFailed" by auto
qed

end
