(* ===== verification/Sender_Udp.thy ===== *)
theory Sender_Udp
  imports Packet_Group
begin

text \<open>
  \<open>PacketSenderUdp\<close> (\<open>bitrate-ctrl/model/packet-sender-udp.\{h,cc\}\<close>) and its base class \<open>PacketSender\<close>:
  the server's end of the UDP video stream. A frame is cut into data packets, groups are
  formed and given FEC packets, frames wait in a queue and are sent packet by packet;
  data packets that are not acknowledged in time are sent again. Acknowledgements and network states
  come back and drive the statistics and the congestion controller.

  Packets are shared between the queue, the history for retransmission and the groups being
  built, and are changed through every one of these pointers: they live in a heap, a list
  of packets, and a pointer is an index. What is scheduled, sent or told to the encoder is
  appended to \<open>s_out\<close>. The clock, the sockets, \<open>Time\<close> times double, square roots and the order of hash
  maps are ns-3's and the library's: arguments of the definitions.
\<close>

section \<open>State\<close>

record SentPacketInfo =
  si_pkt_id :: u16
  si_batch_id :: u16
  si_send_time :: time
  si_ack_time :: time
  si_pkt_type :: PacketType
  si_goodput :: bool
  si_pkt_size :: u16

definition SentPacketInfo_new :: "u16 \<Rightarrow> u16 \<Rightarrow> time \<Rightarrow> PacketType \<Rightarrow> bool \<Rightarrow> u16 \<Rightarrow> SentPacketInfo" where
  "SentPacketInfo_new i batch_id sendtime t isgoodput sz =
     \<lparr>si_pkt_id = i, si_batch_id = batch_id, si_send_time = sendtime, si_ack_time = MicroSeconds 0,
      si_pkt_type = t, si_goodput = isgoodput, si_pkt_size = sz\<rparr>"

record PacketFrame =
  packets_in_Frame :: "nat list"
  Frame_encode_time :: time
  retransmission :: bool

definition Frame_size_in_packet :: "PacketFrame \<Rightarrow> u32" where
  "Frame_size_in_packet f = of_nat (length (packets_in_Frame f))"

text \<open>\<open>FECPolicy::NetStat\<close> and \<open>FECPolicy::FECParam\<close>. The standard deviation can be NaN, and
  the FEC rate a quotient by zero: \<open>None\<close> is a double that is not a finite number.\<close>

record NetStat =
  stat_cnt :: u64
  rtt_sum_avg_ms :: rat
  rtt_square_sum_avg_ms :: rat
  current_rtt :: time
  srtt :: time
  min_rtt :: time
  rtt_sd :: "rat option"
  current_bw :: rat
  current_loss_rate :: rat
  loss_seq :: "int list"
  disp_one_way :: time
  rt_dispersion :: time

record FECParam =
  fec_group_size :: u16
  fec_rate :: "rat option"

text \<open>What the feedback keeps of the bursts of packets.\<close>

record burst =
  m_group_id :: u32
  m_groupstart_TxTime :: u64
  m_group_size :: u32
  m_prev_id :: u16
  m_prev_RxTime :: u64
  m_prev_groupend_id :: u16
  m_prev_groupend_RxTime :: u64
  m_prev_group_size :: u32
  m_prev_pkts_in_frame :: u16
  m_curr_pkts_in_frame :: u16
  m_prev_frame_TxTime :: u64
  m_curr_frame_TxTime :: u64
  m_prev_frame_RxTime :: u64
  m_curr_frame_RxTime :: u64
  inter_arrival :: u64
  inter_departure :: u64
  inter_delay_var :: u64
  inter_group_size :: u32
  m_firstFeedback :: bool

record send_stats =
  init_data_pkt_count :: u64
  other_pkt_count :: u64
  init_data_pkt_size :: u64
  other_pkt_size :: u64
  first_ten_frame_group_id :: "u32 set"
  exclude_head_init_data_pkt_count :: u64
  exclude_head_other_pkt_count :: u64
  exclude_head_init_data_pkt_size :: u64
  exclude_head_other_pkt_size :: u64
  m_finished_frame_cnt :: u64
  m_timeout_frame_cnt :: u64
  m_exclude_ten_finished_frame_cnt :: u64

datatype 'p sender_event =
    Sent 'p
  | Encode u32
  | ScheduleSend
  | CancelSend
  | ScheduleCheck time
  | ScheduleTrace time u16 rat rat
  | CancelCheck
  | CloseSocket

record ('p, 'c) sender =
  heap :: "vpacket list"
  s_out :: "'p sender_event list"
  m_netStat :: NetStat
  m_queue :: "PacketFrame list"
  pktsHistory :: "(u16 \<times> SentPacketInfo) list"
  m_send_wnd :: "u16 list"
  m_send_wnd_size :: u16
  m_goodput_wnd :: "u16 list"
  m_goodput_wnd_size :: u32
  goodput_pkts_inwnd :: u64
  total_pkts_inwnd :: u64
  m_goodput_ratio :: rat
  m_burst :: burst
  m_stats :: send_stats
  m_interval :: u16
  m_controller :: "'c option"
  m_pacing :: bool
  m_pacing_interval :: time
  m_pacingTimer :: bool
  m_pacingTimer_delay :: time
  m_send_time_limit :: time
  IPIDCounter :: u16
  m_last_acked_global_id :: u16
  m_delay_ddl :: time
  trace_set :: bool
  data_pkt_history_key :: "GroupPacketInfo list"
  data_pkt_history :: "(u32 \<times> (u16 \<times> nat) list) list"
  frame_data_pkt_cnt :: "(u32 \<times> u8) list"
  group_id :: u32
  batch_id :: u32
  s_delay_ddl :: time
  m_curr_fecparam :: FECParam
  send_group_cnt :: u64
  check_rtx_interval :: time
  m_bitrate :: u32
  m_cc_enable :: bool
  m_cc_timer :: bool
  m_cc_interval :: time

text \<open>The virtual methods of the congestion controller that the sender calls.\<close>

record 'c cc_ops =
  op_send :: "u64 \<Rightarrow> u16 \<Rightarrow> u32 \<Rightarrow> 'c \<Rightarrow> (bool \<times> 'c) res"
  op_feedback :: "u64 \<Rightarrow> u16 \<Rightarrow> u64 \<Rightarrow> u64 \<Rightarrow> u64 \<Rightarrow> u64 \<Rightarrow> u32 \<Rightarrow> u64 \<Rightarrow> 'c \<Rightarrow> (bool \<times> 'c) res"
  op_prune :: "u32 \<Rightarrow> 'c \<Rightarrow> 'c res"
  op_tx_time :: "u16 \<Rightarrow> 'c \<Rightarrow> u64"
  op_size :: "u16 \<Rightarrow> 'c \<Rightarrow> u64"
  op_loss :: "u8 \<Rightarrow> 'c \<Rightarrow> 'c"
  op_bps :: "'c \<Rightarrow> (rat \<times> 'c) res"

text \<open>What comes from outside. \<open>sn_order\<close> is the order in which a hash map is iterated.\<close>

record ('p, 'c) sender_env =
  sn_ns3 :: "'p ns3"
  sn_fl :: rounding
  sn_fs :: rounding
  sn_scale :: "rat \<Rightarrow> time \<Rightarrow> time"
  sn_sqrt :: "rat \<Rightarrow> rat"
  sn_policy :: "NetStat \<Rightarrow> u32 \<Rightarrow> u16 \<Rightarrow> u16 \<Rightarrow> bool \<Rightarrow> u8 \<Rightarrow> u16 \<Rightarrow> bool \<Rightarrow> FECParam res"
  sn_ops :: "'c cc_ops"
  sn_order :: "(u16 \<times> nat) list \<Rightarrow> (u16 \<times> nat) list"
  sn_raw :: raw_objects

section \<open>Packets in the heap\<close>

text \<open>The setters of \<open>VideoPacket\<close> through a pointer.\<close>

fun vp_SetEnqueueTime :: "time \<Rightarrow> vpacket \<Rightarrow> vpacket" where
  "vp_SetEnqueueTime t (VData p) = VData (p\<lparr>enqueue_time := t\<rparr>)"
| "vp_SetEnqueueTime t (VFec p) = VFec (p\<lparr>enqueue_time := t\<rparr>)"

fun vp_SetSendTime :: "time \<Rightarrow> vpacket \<Rightarrow> vpacket" where
  "vp_SetSendTime t (VData p) = VData (p\<lparr>send_time := t\<rparr>)"
| "vp_SetSendTime t (VFec p) = VFec (p\<lparr>send_time := t\<rparr>)"

fun vp_SetGlobalId :: "u16 \<Rightarrow> vpacket \<Rightarrow> vpacket" where
  "vp_SetGlobalId i (VData p) = VData (SetGlobalId i p)"
| "vp_SetGlobalId i (VFec p) = VFec (SetGlobalId i p)"

fun vp_send_time :: "vpacket \<Rightarrow> time" where
  "vp_send_time (VData p) = send_time p"
| "vp_send_time (VFec p) = send_time p"

fun vp_net :: "vpacket \<Rightarrow> net_packet" where
  "vp_net (VData p) = DataP p"
| "vp_net (VFec p) = FECP p"

definition on_heap :: "nat \<Rightarrow> (vpacket \<Rightarrow> vpacket) \<Rightarrow> ('p, 'c) sender \<Rightarrow> ('p, 'c) sender" where
  "on_heap r f s = s\<lparr>heap := (heap s)[r := f (heap s ! r)]\<rparr>"

text \<open>\<open>DynamicCast<DataPacket>\<close>, with the null pointer of a failed cast dereferenced.\<close>

definition data_at :: "vpacket list \<Rightarrow> nat \<Rightarrow> DataPacket res" where
  "data_at h r = (case h ! r of VData d \<Rightarrow> Inr d | VFec _ \<Rightarrow> Inl NullDeref)"

fun res_map :: "('a \<Rightarrow> 'b res) \<Rightarrow> 'a list \<Rightarrow> 'b list res" where
  "res_map f [] = Inr []"
| "res_map f (x # xs) = res_bind (f x) (\<lambda>y. res_bind (res_map f xs) (\<lambda>ys. Inr (y # ys)))"

definition emit :: "'p sender_event list \<Rightarrow> ('p, 'c) sender \<Rightarrow> ('p, 'c) sender" where
  "emit es s = s\<lparr>s_out := s_out s @ es\<rparr>"

text \<open>\<open>Timer::Schedule\<close> is a fatal error while the timer runs.\<close>

definition timer_schedule :: "bool \<Rightarrow> bool res" where
  "timer_schedule running = (if running then Inl FatalError else Inr True)"

section \<open>Network statistics\<close>

text \<open>\<open>std::rand () % 2\<close> decides which packets of the made-up loss sequence are lost.\<close>

fun draw_losses :: "bool list \<Rightarrow> int \<Rightarrow> int list \<Rightarrow> int list" where
  "draw_losses [] next_seq sq = sq"
| "draw_losses (lost # ls) next_seq sq =
     (if lost
      then (if next_seq \<le> 0 then draw_losses ls (next_seq - 1) sq
            else draw_losses ls 0 (sq @ [next_seq]))
      else (if next_seq \<ge> 0 then draw_losses ls (next_seq + 1) sq
            else draw_losses ls 0 (sq @ [next_seq])))"

definition loss_seq_bound :: "rounding \<Rightarrow> rat \<Rightarrow> rat" where
  "loss_seq_bound f bw = f (f (f (f (bw * 1000000) / 8) * f (1 / 10)) / 1300)"

definition SetNetworkStatistics :: "rounding \<Rightarrow> (nat \<Rightarrow> bool) \<Rightarrow> time \<Rightarrow> rat \<Rightarrow> rat \<Rightarrow> rat \<Rightarrow>
    NetStat \<Rightarrow> NetStat res" where
  "SetNetworkStatistics f rand default_rtt bw loss delay st =
     res_bind (to_word (f (delay * 1000)) :: u64 res) (\<lambda>us.
     let n = loss_seq_bound f bw
     in if n > 65535 then Inl Diverges
        else Inr (st\<lparr>current_rtt := default_rtt, srtt := default_rtt, min_rtt := default_rtt,
          rtt_sd := Some (of_int (GetMilliSeconds default_rtt sdiv 4)), stat_cnt := 0,
          rtt_sum_avg_ms := 0, rtt_square_sum_avg_ms := 0, current_bw := bw,
          current_loss_rate := loss, disp_one_way := MicroSeconds (uint us),
          loss_seq := draw_losses (map rand [0..<nat \<lceil>n\<rceil>]) 0 []\<rparr>))"

definition UpdateRTT :: "('p, 'c) sender_env \<Rightarrow> time \<Rightarrow> NetStat \<Rightarrow> NetStat" where
  "UpdateRTT env rtt st =
     (let f = sn_fl env;
          ms = f (f (of_int (GetMicroSeconds rtt)) / 1000);
          cnt = f (of_int (uint (stat_cnt st)));
          cnt1 = f (of_int (uint (stat_cnt st + 1)));
          sum_avg = f (f (f (rtt_sum_avg_ms st * cnt) + ms) / cnt1);
          sq_avg = f (f (f (rtt_square_sum_avg_ms st * cnt) + f (ms ^ 2)) / cnt1);
          var = f (sq_avg - f (sum_avg ^ 2))
      in st\<lparr>srtt := (if srtt st = MicroSeconds 0 then rtt
               else sn_scale env (f (1 / 5)) rtt + sn_scale env (f (4 / 5)) (srtt st)),
            current_rtt := rtt, rtt_sum_avg_ms := sum_avg, rtt_square_sum_avg_ms := sq_avg,
            stat_cnt := stat_cnt st + 1,
            rtt_sd := (if var < 0 then None else Some (sn_sqrt env var))\<rparr>)"

text \<open>\<open>m_controller->UpdateLossRate (uint8_t (loss_rate * 256))\<close>, where there is a controller.\<close>

definition tell_loss :: "('p, 'c) sender_env \<Rightarrow> rat \<Rightarrow> ('p, 'c) sender \<Rightarrow> ('p, 'c) sender res" where
  "tell_loss env q s =
     (case m_controller s of
        None \<Rightarrow> Inr s
      | Some c \<Rightarrow> res_bind (to_word q :: u8 res) (\<lambda>q8.
          Inr (s\<lparr>m_controller := Some (op_loss (sn_ops env) q8 c)\<rparr>)))"

definition SetNetworkStatisticsBytrace :: "('p, 'c) sender_env \<Rightarrow> u16 \<Rightarrow> rat \<Rightarrow> rat \<Rightarrow>
    ('p, 'c) sender \<Rightarrow> ('p, 'c) sender res" where
  "SetNetworkStatisticsBytrace env rtt bw loss_rate s =
     tell_loss env (sn_fl env (loss_rate * 256))
       (s\<lparr>m_netStat := (UpdateRTT env (MilliSeconds (uint rtt)) (m_netStat s))
            \<lparr>current_bw := bw, current_loss_rate := loss_rate\<rparr>\<rparr>)"


section \<open>Sending rate\<close>

definition UpdateSendingRate :: "('p, 'c) sender_env \<Rightarrow> ('p, 'c) sender \<Rightarrow> ('p, 'c) sender res" where
  "UpdateSendingRate env s =
     (if m_cc_enable s then
        (case m_controller s of
           None \<Rightarrow> Inl NullDeref
         | Some c \<Rightarrow>
             res_bind (op_bps (sn_ops env) c) (\<lambda>(bps, c').
             res_bind (to_word (sn_fl env (sn_fl env (17 / 20) * bps))) (\<lambda>br.
             Inr (s\<lparr>m_controller := Some c', m_bitrate := br\<rparr>))))
      else Inr s)"

definition UpdateBitrate :: "('p, 'c) sender_env \<Rightarrow> ('p, 'c) sender \<Rightarrow> ('p, 'c) sender res" where
  "UpdateBitrate env s =
     (if \<not> m_cc_enable s then Inr s
      else res_bind (UpdateSendingRate env s) (\<lambda>s.
           res_bind (timer_schedule (m_cc_timer s)) (\<lambda>running.
           Inr ((emit [Encode (m_bitrate s)] s)\<lparr>m_cc_timer := running\<rparr>))))"

definition GetFECParam :: "('p, 'c) sender_env \<Rightarrow> u16 \<Rightarrow> time \<Rightarrow> bool \<Rightarrow> bool \<Rightarrow> u32 \<Rightarrow>
    ('p, 'c) sender \<Rightarrow> (FECParam \<times> ('p, 'c) sender) res" where
  "GetFECParam env max_group_size ddl_left fix_group_size is_rtx frame_id s =
     (case map_of (frame_data_pkt_cnt s) frame_id of
        None \<Rightarrow> Inl AssertFailed
      | Some frame_size \<Rightarrow>
          res_bind (to_word (of_int \<lfloor>sn_fl env (of_int (GetMicroSeconds ddl_left) / 1000)\<rfloor>)) (\<lambda>left.
          res_bind (sn_policy env (m_netStat s) 0 (word_of_int (GetMilliSeconds (s_delay_ddl s))) left
                      is_rtx frame_size max_group_size fix_group_size) (\<lambda>fec_param.
          if \<not> m_cc_enable s then Inr (fec_param, s)
          else res_bind (UpdateBitrate env (s\<lparr>m_curr_fecparam := fec_param, m_cc_timer := False\<rparr>))
                 (\<lambda>s. Inr (fec_param, s)))))"

section \<open>Groups and batches\<close>

text \<open>The loop that numbers the data packets of a batch, and those without a group.\<close>

record batch_info =
  bi_batch_id :: u32
  bi_data_num :: u16
  bi_fec_num :: u16
  bi_group_id :: u32
  bi_group_data_num :: u16
  bi_group_fec_num :: u16

fun number_data :: "batch_info \<Rightarrow> bool \<Rightarrow> nat list \<Rightarrow> u16 \<Rightarrow> u16 \<Rightarrow> vpacket list
    \<Rightarrow> (u16 \<times> u16 \<times> vpacket list) res" where
  "number_data b new_group [] in_batch in_group h = Inr (in_batch, in_group, h)"
| "number_data b new_group (r # rs) in_batch in_group h =
     res_bind (data_at h r) (\<lambda>d.
     ns_assert (packet_type d = DATA_PKT)
       (let d1 = SetFECBatch (bi_batch_id b) (bi_data_num b) (bi_fec_num b) in_batch d
        in if \<not> new_group \<and> group_info_set_flag d1
           then ns_assert (vh_group_id (video_header d1) = bi_group_id b)
                  (number_data b new_group rs (in_batch + 1) in_group (h[r := VData d1]))
           else number_data b new_group rs (in_batch + 1) (in_group + 1)
                  (h[r := VData (SetFECGroup (bi_group_id b) (bi_group_data_num b)
                                   (bi_group_fec_num b) in_group d1)])))"

text \<open>The FEC packets of a batch, with the packet numbers they are given.\<close>

fun make_fec :: "batch_info \<Rightarrow> bool \<Rightarrow> time \<Rightarrow> u8 \<Rightarrow> DataPacket list \<Rightarrow> FECPacket \<Rightarrow> nat \<Rightarrow> u16 \<Rightarrow> u16
    \<Rightarrow> vpacket list" where
  "make_fec b is_rtx now tx_count data_pkts raw 0 in_batch in_group = []"
| "make_fec b is_rtx now tx_count data_pkts raw (Suc n) in_batch in_group =
     VFec (SetEncodeTime now
       (SetFECGroup (bi_group_id b) (bi_group_data_num b) (bi_group_fec_num b)
            (if is_rtx then RTX_FEC_GROUP_ID else in_group)
         (SetFECBatch (bi_batch_id b) (bi_data_num b) (bi_fec_num b) in_batch
           (FECPacket_ctor tx_count data_pkts raw))))
     # make_fec b is_rtx now tx_count data_pkts raw n (in_batch + 1)
         (if is_rtx then in_group else in_group + 1)"

text \<open>How many FEC packets a batch gets. The conversion of an infinite product or of NaN is undefined.\<close>

definition batch_fec_num :: "rounding \<Rightarrow> u16 \<Rightarrow> FECParam \<Rightarrow> u16 res" where
  "batch_fec_num f data_num fec_param =
     (case fec_rate fec_param of
        None \<Rightarrow> Inl UndefinedBehaviour
      | Some r \<Rightarrow> to_word (of_int (round_away (f (of_int (uint data_num) * r)))))"

definition CreatePacketBatch :: "('p, 'c) sender_env \<Rightarrow> time \<Rightarrow> nat list \<Rightarrow> FECParam \<Rightarrow> bool \<Rightarrow> u32 \<Rightarrow> bool \<Rightarrow>
    ('p, 'c) sender \<Rightarrow> (nat list \<times> ('p, 'c) sender) res" where
  "CreatePacketBatch env now pkt_batch fec_param new_group gid is_rtx s =
     ns_assert (pkt_batch \<noteq> [])
       (let data_num = of_nat (length pkt_batch) :: u16
        in res_bind (batch_fec_num (sn_fl env) data_num fec_param) (\<lambda>fec_num.
           res_bind (data_at (heap s) (hd pkt_batch)) (\<lambda>front.
           let tx_count = vh_tx_count (video_header front);
               s1 = s\<lparr>batch_id := batch_id s + 1,
                      group_id := (if new_group then group_id s + 1 else group_id s)\<rparr>;
               b = \<lparr>bi_batch_id = batch_id s, bi_data_num = data_num, bi_fec_num = fec_num,
                    bi_group_id = (if new_group then group_id s else gid),
                    bi_group_data_num = (if new_group then data_num
                      else vh_group_data_num (video_header front)),
                    bi_group_fec_num = (if new_group then fec_num
                      else vh_batch_fec_num (video_header front))\<rparr>
           in res_bind (number_data b new_group pkt_batch 0 0 (heap s1)) (\<lambda>(in_batch, in_group, h).
              res_bind (res_map (data_at h) pkt_batch) (\<lambda>data_pkts.
              let fecs = make_fec b is_rtx now tx_count data_pkts (raw_fec (sn_raw env)) (unat fec_num)
                           in_batch in_group
              in Inr (pkt_batch @ [length h..<length h + length fecs],
                      s1\<lparr>heap := h @ fecs\<rparr>))))))"

definition CreateFirstPacketBatch :: "('p, 'c) sender_env \<Rightarrow> time \<Rightarrow> nat list \<Rightarrow> FECParam \<Rightarrow>
    ('p, 'c) sender \<Rightarrow> (nat list \<times> ('p, 'c) sender) res" where
  "CreateFirstPacketBatch env now pkt_batch fec_param s =
     ns_assert (pkt_batch \<noteq> [])
       (res_bind (CreatePacketBatch env now pkt_batch fec_param True 0 False s) (\<lambda>(rs, s).
        Inr (rs, s\<lparr>send_group_cnt := send_group_cnt s + 1\<rparr>)))"

definition CreateRTXPacketBatch :: "('p, 'c) sender_env \<Rightarrow> time \<Rightarrow> nat list \<Rightarrow> FECParam \<Rightarrow>
    ('p, 'c) sender \<Rightarrow> (nat list \<times> ('p, 'c) sender) res" where
  "CreateRTXPacketBatch env now pkt_batch fec_param s =
     ns_assert (pkt_batch \<noteq> [])
       (ns_assert (length pkt_batch = unat (fec_group_size fec_param))
         (let gid = vh_group_id (vp_header (heap s ! hd pkt_batch))
          in CreatePacketBatch env now pkt_batch fec_param False gid True s))"

section \<open>Queueing a frame\<close>

definition UpdateGoodputRatio :: "('p, 'c) sender_env \<Rightarrow> ('p, 'c) sender \<Rightarrow> ('p, 'c) sender" where
  "UpdateGoodputRatio env s =
     (if total_pkts_inwnd s > 1 \<and> goodput_pkts_inwnd s > 0
      then s\<lparr>m_goodput_ratio := sn_fs env (sn_fl env
             (sn_fl env (of_int (uint (goodput_pkts_inwnd s))) / sn_fl env (of_int (uint (total_pkts_inwnd s)))))\<rparr>
      else s)"

text \<open>The loop over the frames, with the packets counted so far.\<close>

fun pace_frames :: "time \<Rightarrow> time \<Rightarrow> PacketFrame list \<Rightarrow> u32 \<Rightarrow> time \<times> time \<Rightarrow> (time \<times> time) res" where
  "pace_frames now limit [] left p = Inr p"
| "pace_frames now limit (fr # frs) left (itvl, delay) =
     (if retransmission fr then pace_frames now limit frs left (itvl, delay)
      else
        let left = left + Frame_size_in_packet fr;
            before_ddl = limit + Frame_encode_time fr - now
        in if left = 0 then Inl UndefinedBehaviour
           else
             let interval_max = before_ddl sdiv (uint left)
             in if before_ddl \<le> 0 \<or> \<not> interval_max < itvl
                then pace_frames now limit frs left (itvl, delay)
                else pace_frames now limit frs left (interval_max, interval_max))"

definition Calculate_pacing_rate :: "time \<Rightarrow> ('p, 'c) sender \<Rightarrow> ('p, 'c) sender res" where
  "Calculate_pacing_rate now s =
     res_bind (pace_frames now (m_send_time_limit s) (m_queue s) 0
                 (m_pacing_interval s, m_pacingTimer_delay s)) (\<lambda>(itvl, delay).
     Inr (s\<lparr>m_pacing_interval := itvl, m_pacingTimer_delay := delay\<rparr>))"

definition PacketFrame_new :: "nat list \<Rightarrow> bool \<Rightarrow> vpacket list \<Rightarrow> PacketFrame res" where
  "PacketFrame_new packets rtx h =
     (case packets of
        [] \<Rightarrow> Inl UndefinedBehaviour
      | r # _ \<Rightarrow> Inr \<lparr>packets_in_Frame = packets, Frame_encode_time = vh_encode_time (vp_header (h ! r)),
                      retransmission = rtx\<rparr>)"

definition SendFrame :: "('p, 'c) sender_env \<Rightarrow> time \<Rightarrow> nat list \<Rightarrow> ('p, 'c) sender \<Rightarrow> ('p, 'c) sender res" where
  "SendFrame env now packets s =
     (let s = UpdateGoodputRatio env s
      in res_bind (PacketFrame_new packets False (heap s)) (\<lambda>newFrame.
         res_bind (Calculate_pacing_rate now (s\<lparr>m_queue := m_queue s @ [newFrame]\<rparr>)) (\<lambda>s.
         Inr (if m_pacing s then s\<lparr>m_pacingTimer := True\<rparr> else emit [ScheduleSend] s))))"

definition SendRtx :: "time \<Rightarrow> nat list \<Rightarrow> ('p, 'c) sender \<Rightarrow> ('p, 'c) sender res" where
  "SendRtx now packets s =
     res_bind (PacketFrame_new packets True (heap s)) (\<lambda>newFrame.
     res_bind (Calculate_pacing_rate now (s\<lparr>m_queue := newFrame # m_queue s\<rparr>)) (\<lambda>s.
     Inr (if m_pacing s then s\<lparr>m_pacingTimer := True\<rparr> else emit [ScheduleSend] s)))"

section \<open>The history for retransmission\<close>

definition remember_packet :: "u8 \<Rightarrow> nat \<Rightarrow> ('p, 'c) sender \<Rightarrow> ('p, 'c) sender" where
  "remember_packet junk r s =
     (let p = heap s ! r; h = vp_header p
      in if vp_type p \<noteq> DATA_PKT \<or> vh_tx_count h \<noteq> 0 then s
         else s\<lparr>data_pkt_history_key := data_pkt_history_key s @
                  [\<lparr>gpi_group_id = vh_group_id h, gpi_pkt_id_in_group = vh_pkt_id_in_group h,
                    gpi_tx_count = junk\<rparr>],
                data_pkt_history := AList.update (vh_group_id h)
                  (AList.update (vh_pkt_id_in_group h) r
                    (case map_of (data_pkt_history s) (vh_group_id h) of None \<Rightarrow> [] | Some g \<Rightarrow> g))
                  (data_pkt_history s)\<rparr>)"

definition StorePackets :: "u8 \<Rightarrow> nat list \<Rightarrow> ('p, 'c) sender \<Rightarrow> ('p, 'c) sender" where
  "StorePackets junk pkts s = fold (remember_packet junk) pkts s"

definition history_ref :: "(u32 \<times> (u16 \<times> nat) list) list \<Rightarrow> GroupPacketInfo \<Rightarrow> nat option" where
  "history_ref hist info =
     (case map_of hist (gpi_group_id info) of
        None \<Rightarrow> None
      | Some g \<Rightarrow> map_of g (gpi_pkt_id_in_group info))"

definition forget :: "GroupPacketInfo \<Rightarrow> (u32 \<times> (u16 \<times> nat) list) list \<Rightarrow> (u32 \<times> (u16 \<times> nat) list) list" where
  "forget info hist =
     (case map_of hist (gpi_group_id info) of
        None \<Rightarrow> hist
      | Some g \<Rightarrow>
          let g' = AList.delete (gpi_pkt_id_in_group info) g
          in if g' = [] then AList.delete (gpi_group_id info) hist
             else AList.update (gpi_group_id info) g' hist)"

definition RcvACKPacket :: "AckPacket \<Rightarrow> ('p, 'c) sender \<Rightarrow> ('p, 'c) sender" where
  "RcvACKPacket ack s =
     s\<lparr>data_pkt_history := fold forget (ah_pkt_infos (ack_header ack)) (data_pkt_history s)\<rparr>"

definition MissesDdl :: "time \<Rightarrow> time \<Rightarrow> vpacket \<Rightarrow> bool" where
  "MissesDdl now ddl p \<longleftrightarrow> now - vh_encode_time (vp_header p) > ddl"

definition IsRtxTimeout :: "rounding \<Rightarrow> time \<Rightarrow> NetStat \<Rightarrow> DataPacket \<Rightarrow> bool res" where
  "IsRtxTimeout f now st p =
     (let batch_size = uint (vh_batch_data_num (video_header p)) + uint (vh_batch_fec_num (video_header p))
      in if now > enqueue_time p
         then (case rtt_sd st of
             None \<Rightarrow> Inl UndefinedBehaviour
           | Some sd \<Rightarrow> res_bind (to_word (f (sd * 1000)) :: u64 res) (\<lambda>us.
               Inr (now - send_time p >
                    srtt st + MicroSeconds (uint us) * 4 + batch_size * disp_one_way st)))
         else Inr False)"

section \<open>Sending packets\<close>

text \<open>The groups of \<open>n\<close> packets, and what is left.\<close>

function split_groups :: "nat \<Rightarrow> nat list \<Rightarrow> nat list list \<times> nat list" where
  "split_groups n rs =
     (if n = 0 \<or> length rs < n then ([], rs)
      else let (gs, rest) = split_groups n (drop n rs) in (take n rs # gs, rest))"
  by pat_completeness auto
termination by (relation "measure (\<lambda>(n, rs). length rs)") auto

declare split_groups.simps [simp del]

fun create_batches :: "('p, 'c) sender_env \<Rightarrow> time \<Rightarrow> FECParam \<Rightarrow> nat list list \<Rightarrow> ('p, 'c) sender \<Rightarrow>
    (nat list \<times> ('p, 'c) sender) res" where
  "create_batches env now fec_param [] s = Inr ([], s)"
| "create_batches env now fec_param (g # gs) s =
     res_bind (CreateFirstPacketBatch env now g fec_param s) (\<lambda>(rs, s).
     res_bind (create_batches env now fec_param gs s) (\<lambda>(rs', s). Inr (rs @ rs', s)))"

text \<open>A group size of 0 makes the first turn of the loop create a batch of no packets.\<close>

definition first_batches :: "('p, 'c) sender_env \<Rightarrow> time \<Rightarrow> nat list \<Rightarrow> time \<Rightarrow> u32 \<Rightarrow> ('p, 'c) sender \<Rightarrow>
    (nat list \<times> nat list \<times> ('p, 'c) sender) res" where
  "first_batches env now pkts ddl_left frame_id s =
     res_bind (GetFECParam env (of_nat (length pkts)) ddl_left False False frame_id s) (\<lambda>(fec_param, s).
     if fec_group_size fec_param = 0
     then res_bind (CreateFirstPacketBatch env now [] fec_param s) (\<lambda>_. Inl Diverges)
     else
       let (gs, rest) = split_groups (unat (fec_group_size fec_param)) pkts
       in res_bind (create_batches env now fec_param gs s) (\<lambda>(rs, s). Inr (rs, rest, s)))"

definition last_batch :: "('p, 'c) sender_env \<Rightarrow> time \<Rightarrow> nat list \<Rightarrow> time \<Rightarrow> u32 \<Rightarrow> bool \<Rightarrow> ('p, 'c) sender \<Rightarrow>
    (nat list \<times> ('p, 'c) sender) res" where
  "last_batch env now pkts ddl_left frame_id is_rtx s =
     (if pkts = [] then Inr ([], s)
      else res_bind (GetFECParam env (of_nat (length pkts)) ddl_left True is_rtx frame_id s) (\<lambda>(fec_param, s).
           if is_rtx then CreateRTXPacketBatch env now pkts fec_param s
           else CreateFirstPacketBatch env now pkts fec_param s))"

definition SendPackets :: "('p, 'c) sender_env \<Rightarrow> time \<Rightarrow> nat list \<Rightarrow> time \<Rightarrow> u32 \<Rightarrow> bool \<Rightarrow>
    ('p, 'c) sender \<Rightarrow> ('p, 'c) sender res" where
  "SendPackets env now pkts ddl_left frame_id is_rtx s =
     res_bind (if is_rtx then Inr ([], pkts, s) else first_batches env now pkts ddl_left frame_id s)
       (\<lambda>(batches, rest, s).
     res_bind (last_batch env now rest ddl_left frame_id is_rtx s) (\<lambda>(batch, s).
     let to_send = batches @ batch
     in if to_send = [] then Inr s
        else
          let s = fold (\<lambda>r. on_heap r (vp_SetEnqueueTime now)) to_send s
          in if is_rtx then SendRtx now to_send s
             else res_bind (SendFrame env now to_send s) (\<lambda>s.
                  Inr (StorePackets (raw_tx (sn_raw env)) to_send s))))"

text \<open>The sizes of the packets a frame is cut into; the pointer into the frame is 32 bits wide.\<close>

partial_function (option) frame_chunks :: "u32 \<Rightarrow> u32 \<Rightarrow> u32 \<Rightarrow> u32 list option" where
  "frame_chunks payload data_size data_ptr =
     (if data_ptr < data_size
      then Option.bind (frame_chunks payload data_size (data_ptr + payload)) (\<lambda>rest.
           Some (min payload (data_size - data_ptr) # rest))
      else Some [])"

definition new_data_packet :: "('p, 'c) sender_env \<Rightarrow> time \<Rightarrow> u32 \<Rightarrow> u16 \<Rightarrow> u16 \<Rightarrow> u32 \<Rightarrow> vpacket" where
  "new_data_packet env now frame_id data_pkt_num pkt_id sz =
     VData (SetPayload sz (SetEncodeTime now
       (DataPacket_ctor frame_id 0 data_pkt_num pkt_id (raw_data (sn_raw env)))))"

definition CreateFrame :: "('p, 'c) sender_env \<Rightarrow> time \<Rightarrow> u32 \<Rightarrow> u16 \<Rightarrow> u16 \<Rightarrow> u16 \<Rightarrow> u32 \<Rightarrow>
    ('p, 'c) sender \<Rightarrow> ('p, 'c) sender res" where
  "CreateFrame env now frame_id pkt_id data_pkt_max_payload data_pkt_num data_size s =
     (case frame_chunks (ucast data_pkt_max_payload) data_size 0 of
        None \<Rightarrow> Inl Diverges
      | Some sizes \<Rightarrow>
          let n = length (heap s);
              pkts = map (\<lambda>(i, sz). new_data_packet env now frame_id data_pkt_num (pkt_id + of_nat i) sz)
                       (enumerate 0 sizes);
              s1 = s\<lparr>heap := heap s @ pkts,
                     frame_data_pkt_cnt := AList.update frame_id (ucast data_pkt_num) (frame_data_pkt_cnt s)\<rparr>
          in ns_assert (sizes \<noteq> [])
               (SendPackets env now [n..<n + length sizes]
                  (s_delay_ddl s - int (length sizes) * disp_one_way (m_netStat s)) frame_id False s1))"

definition set_rtx :: "u8 \<Rightarrow> time \<Rightarrow> nat \<Rightarrow> vpacket list \<Rightarrow> vpacket list res" where
  "set_rtx tx_count now r h =
     res_bind (data_at h r) (\<lambda>d.
     Inr (h[r := VData (ClearFECBatch ((SetTXCount tx_count d)\<lparr>enqueue_time := now\<rparr>))]))"

fun set_rtx_all :: "u8 \<Rightarrow> time \<Rightarrow> nat list \<Rightarrow> vpacket list \<Rightarrow> vpacket list res" where
  "set_rtx_all tx_count now [] h = Inr h"
| "set_rtx_all tx_count now (r # rs) h = res_bind (set_rtx tx_count now r h) (set_rtx_all tx_count now rs)"

text \<open>The first encoding time that is not 0, or 0.\<close>

definition first_encode_time :: "vpacket list \<Rightarrow> nat list \<Rightarrow> time" where
  "first_encode_time h rs =
     (case dropWhile (\<lambda>t. t = 0) (map (\<lambda>r. vh_encode_time (vp_header (h ! r))) rs) of
        [] \<Rightarrow> 0 | t # _ \<Rightarrow> t)"

definition RetransmitGroup :: "('p, 'c) sender_env \<Rightarrow> time \<Rightarrow> u32 \<Rightarrow> ('p, 'c) sender \<Rightarrow> ('p, 'c) sender res" where
  "RetransmitGroup env now gid s =
     (case map_of (data_pkt_history s) gid of
        None \<Rightarrow> Inr s
      | Some g \<Rightarrow>
          (case map snd (sn_order env g) of
             [] \<Rightarrow> Inr s
           | r # rs \<Rightarrow>
               let tx_count = vh_tx_count (vp_header (heap s ! r)) + 1;
                   encode_time = first_encode_time (heap s) (r # rs)
               in res_bind (set_rtx_all tx_count now (r # rs) (heap s)) (\<lambda>h.
                  res_bind (data_at h r) (\<lambda>front.
                  SendPackets env now (r # rs) (s_delay_ddl s - (now - encode_time))
                    (dh_frame_id (data_header front)) True (s\<lparr>heap := h\<rparr>)))))"

text \<open>First the packets that miss their deadline leave the history.\<close>

fun purge_missed :: "(nat \<Rightarrow> bool) \<Rightarrow> GroupPacketInfo list \<Rightarrow> (u32 \<times> (u16 \<times> nat) list) list \<Rightarrow>
    GroupPacketInfo list \<times> (u32 \<times> (u16 \<times> nat) list) list" where
  "purge_missed misses [] hist = ([], hist)"
| "purge_missed misses (info # infos) hist =
     (case history_ref hist info of
        None \<Rightarrow> purge_missed misses infos hist
      | Some r \<Rightarrow> if misses r then purge_missed misses infos (forget info hist)
                  else (info # infos, hist))"

text \<open>Then the groups of packets whose timer has expired are sent again, each once.\<close>

fun retransmit_expired :: "('p, 'c) sender_env \<Rightarrow> time \<Rightarrow> GroupPacketInfo list \<Rightarrow> u32 set \<Rightarrow> ('p, 'c) sender \<Rightarrow>
    (GroupPacketInfo list \<times> ('p, 'c) sender) res" where
  "retransmit_expired env now [] done s = Inr ([], s)"
| "retransmit_expired env now (info # infos) done s =
     (case history_ref (data_pkt_history s) info of
        None \<Rightarrow> retransmit_expired env now infos done s
      | Some r \<Rightarrow>
          res_bind (data_at (heap s) r) (\<lambda>p.
          let gid = vh_group_id (video_header p);
              keep = (\<lambda>done s. res_bind (retransmit_expired env now infos done s)
                                 (\<lambda>(infos', s). Inr (info # infos', s)))
          in if now - vh_encode_time (video_header p) < min_rtt (m_netStat s) then Inr (info # infos, s)
             else if gid \<in> done then keep done s
             else res_bind (IsRtxTimeout (sn_fl env) now (m_netStat s) p) (\<lambda>expired.
                  if expired then res_bind (RetransmitGroup env now gid s) (keep (insert gid done))
                  else keep done s)))"

definition CheckRetransmission :: "('p, 'c) sender_env \<Rightarrow> time \<Rightarrow> ('p, 'c) sender \<Rightarrow> ('p, 'c) sender res" where
  "CheckRetransmission env now s =
     (let (keys, hist) = purge_missed (\<lambda>r. MissesDdl now (s_delay_ddl s) (heap s ! r))
                           (data_pkt_history_key s) (data_pkt_history s)
      in res_bind (retransmit_expired env now keys {} (s\<lparr>data_pkt_history := hist\<rparr>)) (\<lambda>(keys', s).
         Inr (emit [ScheduleCheck (check_rtx_interval s)] (s\<lparr>data_pkt_history_key := keys'\<rparr>))))"

section \<open>Putting packets on the wire\<close>

definition count_sent :: "PacketType \<Rightarrow> bool \<Rightarrow> u32 \<Rightarrow> u32 \<Rightarrow> u16 \<Rightarrow> send_stats \<Rightarrow> send_stats" where
  "count_sent pkt_type is_goodput frame_id gid pkt_size t0 =
     (let t = (if pkt_type = DATA_PKT \<and> frame_id < 10
               then t0\<lparr>first_ten_frame_group_id := insert gid (first_ten_frame_group_id t0)\<rparr> else t0);
          head = gid \<in> first_ten_frame_group_id t; z = ucast pkt_size :: u64
      in if is_goodput
         then let t = t\<lparr>init_data_pkt_count := init_data_pkt_count t + 1,
                        init_data_pkt_size := init_data_pkt_size t + z\<rparr>
              in if head then t
                 else t\<lparr>exclude_head_init_data_pkt_count := exclude_head_init_data_pkt_count t + 1,
                        exclude_head_init_data_pkt_size := exclude_head_init_data_pkt_size t + z\<rparr>
         else let t = t\<lparr>other_pkt_count := other_pkt_count t + 1, other_pkt_size := other_pkt_size t + z\<rparr>
              in if head then t
                 else t\<lparr>exclude_head_other_pkt_count := exclude_head_other_pkt_count t + 1,
                        exclude_head_other_pkt_size := exclude_head_other_pkt_size t + z\<rparr>)"

text \<open>The window of the goodput: \<open>pktsHistory [id]\<close> is a null pointer for an unknown identifier.\<close>

fun trim_goodput :: "(u16 \<times> SentPacketInfo) list \<Rightarrow> u64 \<Rightarrow> u16 list \<Rightarrow> u64 \<Rightarrow> u64 \<Rightarrow> (u16 list \<times> u64 \<times> u64) res" where
  "trim_goodput hist limit [] good tot = Inr ([], good, tot)"
| "trim_goodput hist limit (i # is) good tot =
     (case map_of hist i of
        None \<Rightarrow> Inl NullDeref
      | Some info \<Rightarrow>
          if word_of_int (GetMicroSeconds (si_send_time info)) < limit
          then trim_goodput hist limit is
                 (if si_goodput info then good - ucast (si_pkt_size info) else good)
                 (tot - ucast (si_pkt_size info))
          else Inr (i # is, good, tot))"

fun trim_history :: "nat \<Rightarrow> u16 list \<Rightarrow> (u16 \<times> SentPacketInfo) list \<Rightarrow> (u16 list \<times> (u16 \<times> SentPacketInfo) list) res" where
  "trim_history n [] hist = Inr ([], hist)"
| "trim_history n (i # is) hist =
     (if length (i # is) > n
      then ns_assert (map_of hist i \<noteq> None) (trim_history n is (AList.delete i hist))
      else Inr (i # is, hist))"

definition log_sent :: "u64 \<Rightarrow> SentPacketInfo \<Rightarrow> ('p, 'c) sender \<Rightarrow> ('p, 'c) sender res" where
  "log_sent NowUs info s =
     (let good = (if si_goodput info then goodput_pkts_inwnd s + ucast (si_pkt_size info)
                  else goodput_pkts_inwnd s);
          hist = AList.update (si_pkt_id info) info (pktsHistory s)
      in res_bind (trim_goodput hist (NowUs - ucast (m_goodput_wnd_size s)) (m_goodput_wnd s @ [si_pkt_id info])
                     good (total_pkts_inwnd s + ucast (si_pkt_size info))) (\<lambda>(gwnd, good, tot).
         res_bind (trim_history (unat (m_send_wnd_size s)) (m_send_wnd s @ [si_pkt_id info]) hist)
           (\<lambda>(wnd, hist).
         Inr (s\<lparr>pktsHistory := hist, m_send_wnd := wnd, m_goodput_wnd := gwnd,
                goodput_pkts_inwnd := good, total_pkts_inwnd := tot\<rparr>))))"

definition tell_sent :: "('p, 'c) sender_env \<Rightarrow> u64 \<Rightarrow> u32 \<Rightarrow> ('p, 'c) sender \<Rightarrow> ('p, 'c) sender res" where
  "tell_sent env NowUs sz s =
     (if m_cc_enable s then
        (case m_controller s of
           None \<Rightarrow> Inl NullDeref
         | Some c \<Rightarrow> res_bind (op_send (sn_ops env) NowUs (IPIDCounter s) sz c) (\<lambda>(_, c').
                      Inr (s\<lparr>m_controller := Some c'\<rparr>)))
      else Inr s)"

definition SendPacket :: "('p, 'c) sender_env \<Rightarrow> time \<Rightarrow> ('p, 'c) sender \<Rightarrow> ('p, 'c) sender res" where
  "SendPacket env now s0 =
     (case m_queue s0 of
        [] \<Rightarrow> Inr s0
      | fr # frs \<Rightarrow>
          (case packets_in_Frame fr of
             [] \<Rightarrow> Inl UndefinedBehaviour
           | r # rs \<Rightarrow>
               let NowUs = word_of_int (GetMicroSeconds now) :: u64;
                   i = IPIDCounter s0;
                   s = on_heap r (\<lambda>p. vp_SetGlobalId i (vp_SetSendTime now p)) s0;
                   p = heap s ! r; h = vp_header p
               in res_bind (ToNetPacket (sn_ns3 env) (sn_fl env) (vp_net p)) (\<lambda>pkt.
                  let sz = of_nat (length (PeekBytes (sn_ns3 env) pkt)) :: u32;
                      is_goodput = (vp_type p = DATA_PKT \<and> vh_tx_count h = 0);
                      info = SentPacketInfo_new i (ucast (vh_batch_id h)) now (vp_type p) is_goodput (ucast sz);
                      frame_id = (case p of VData d \<Rightarrow> dh_frame_id (data_header d) | VFec _ \<Rightarrow> 0)
                  in res_bind (tell_sent env NowUs sz s) (\<lambda>s.
                     res_bind (log_sent NowUs info (emit [Sent pkt]
                       (s\<lparr>m_stats := count_sent (vp_type p) is_goodput frame_id (vh_group_id h) (ucast sz) (m_stats s)\<rparr>)))
                     (\<lambda>s.
                     let s = s\<lparr>IPIDCounter := IPIDCounter s + 1\<rparr>
                     in res_bind (if rs = [] then Calculate_pacing_rate now (s\<lparr>m_queue := frs\<rparr>)
                                  else Inr (s\<lparr>m_queue := fr\<lparr>packets_in_Frame := rs\<rparr> # frs\<rparr>)) (\<lambda>s.
                        if m_pacing s
                        then res_bind (timer_schedule (m_pacingTimer s)) (\<lambda>t. Inr (s\<lparr>m_pacingTimer := t\<rparr>))
                        else Inr (emit [ScheduleSend] s)))))))"

definition SetTimeLimit :: "time \<Rightarrow> ('p, 'c) sender \<Rightarrow> ('p, 'c) sender" where
  "SetTimeLimit limit s = s\<lparr>m_send_time_limit := limit\<rparr>"

definition Pause :: "('p, 'c) sender \<Rightarrow> ('p, 'c) sender" where
  "Pause s = (if m_pacing s then s\<lparr>m_pacingTimer := False\<rparr> else emit [CancelSend] s)"

definition Resume :: "('p, 'c) sender \<Rightarrow> ('p, 'c) sender res" where
  "Resume s =
     (if m_pacing s then res_bind (timer_schedule (m_pacingTimer s)) (\<lambda>t. Inr (s\<lparr>m_pacingTimer := t\<rparr>))
      else Inr (emit [ScheduleSend] s))"


section \<open>Construction, start and stop\<close>

text \<open>
  \<open>raw\<close> is the memory of the object. \<open>m_delay_ddl\<close> copies \<open>delay_ddl\<close> before that has been
  constructed; \<open>trace_set\<close> and \<open>m_bitrate\<close> are never initialised.
\<close>

definition burst_new :: burst where
  "burst_new = \<lparr>m_group_id = 0, m_groupstart_TxTime = 0, m_group_size = 0, m_prev_id = 0,
     m_prev_RxTime = 0, m_prev_groupend_id = 0, m_prev_groupend_RxTime = 0, m_prev_group_size = 0,
     m_prev_pkts_in_frame = 0, m_curr_pkts_in_frame = 0, m_prev_frame_TxTime = 0,
     m_curr_frame_TxTime = 0, m_prev_frame_RxTime = 0, m_curr_frame_RxTime = 0, inter_arrival = 0,
     inter_departure = 0, inter_delay_var = 0, inter_group_size = 0, m_firstFeedback = True\<rparr>"

definition send_stats_new :: send_stats where
  "send_stats_new = \<lparr>init_data_pkt_count = 0, other_pkt_count = 0, init_data_pkt_size = 0,
     other_pkt_size = 0, first_ten_frame_group_id = {}, exclude_head_init_data_pkt_count = 0,
     exclude_head_other_pkt_count = 0, exclude_head_init_data_pkt_size = 0,
     exclude_head_other_pkt_size = 0, m_finished_frame_cnt = 0, m_timeout_frame_cnt = 0,
     m_exclude_ten_finished_frame_cnt = 0\<rparr>"

definition PacketSenderUdp_new :: "rounding \<Rightarrow> (nat \<Rightarrow> bool) \<Rightarrow> time \<Rightarrow> u16 \<Rightarrow> NetStat \<Rightarrow>
    ('p, 'c) sender \<Rightarrow> ('p, 'c) sender res" where
  "PacketSenderUdp_new f rand delayDdl interval raw_stat raw =
     res_bind (SetNetworkStatistics f rand (MilliSeconds 50) 2 0 0 (raw_stat\<lparr>rt_dispersion := 0\<rparr>)) (\<lambda>st.
     Inr (raw\<lparr>m_netStat := st, m_queue := [], pktsHistory := [], m_send_wnd := [],
       m_send_wnd_size := 10000, m_goodput_wnd := [], m_goodput_wnd_size := 50000,
       goodput_pkts_inwnd := 0, total_pkts_inwnd := 0, m_goodput_ratio := 1,
       m_burst := burst_new, m_stats := send_stats_new, m_interval := interval, m_controller := None,
       m_pacing := False, m_pacing_interval := MilliSeconds 0, m_pacingTimer := False,
       m_send_time_limit := MilliSeconds (uint interval), IPIDCounter := 0,
       m_last_acked_global_id := 0, m_delay_ddl := s_delay_ddl raw, data_pkt_history_key := [],
       data_pkt_history := [], frame_data_pkt_cnt := [], group_id := 0, batch_id := 0,
       s_delay_ddl := delayDdl, send_group_cnt := 0, check_rtx_interval := MicroSeconds 1000,
       m_cc_enable := True, m_cc_timer := False, m_cc_interval := MilliSeconds 40\<rparr>))"

text \<open>\<open>SplitString\<close> of \<open>utils.h\<close>. A separator that is empty is found again and again.\<close>

fun find_sub :: "string \<Rightarrow> string \<Rightarrow> nat option" where
  "find_sub c s =
     (if take (length c) s = c then Some 0
      else case s of [] \<Rightarrow> None | _ # t \<Rightarrow> map_option Suc (find_sub c t))"

declare find_sub.simps [simp del]

lemma find_sub_le: "find_sub c s = Some n \<Longrightarrow> n + length c \<le> length s"
proof (induction c s arbitrary: n rule: find_sub.induct)
  case (1 c s)
  show ?case
  proof (cases "take (length c) s = c")
    case True
    then have "length c \<le> length s" by (metis length_take min.cobounded1)
    then show ?thesis using True 1(2) by (subst (asm) find_sub.simps) simp
  next
    case False
    then obtain x t m where s: "s = x # t" "find_sub c t = Some m" "n = Suc m"
      using 1(2) by (subst (asm) find_sub.simps) (auto split: list.splits)
    then show ?thesis using 1(1) [OF False s(1) s(2)] by simp
  qed
qed

function SplitString :: "string \<Rightarrow> string \<Rightarrow> string list res" where
  "SplitString s c =
     (if c = [] then Inl Diverges
      else case find_sub c s of
        None \<Rightarrow> Inr (if s = [] then [] else [s])
      | Some n \<Rightarrow> res_bind (SplitString (drop (n + length c) s) c) (\<lambda>v. Inr (take n s # v)))"
  by pat_completeness auto
termination
  by (relation "measure (\<lambda>(s, c). length s)") (auto dest!: find_sub_le simp: neq_Nil_conv)

declare SplitString.simps [simp del]

text \<open>One line of a trace; \<open>atof\<close> is the library's.\<close>

definition trace_line :: "(string \<Rightarrow> rat) \<Rightarrow> string \<Rightarrow> (u16 \<times> rat \<times> rat) res" where
  "trace_line atof line =
     res_bind (SplitString line '' '') (\<lambda>trace_data.
     if trace_data = [] then Inl UndefinedBehaviour
     else res_bind (SplitString (trace_data ! 0) ''Mbps'') (\<lambda>bw_value.
     if length trace_data < 2 then Inl UndefinedBehaviour
     else res_bind (SplitString (trace_data ! 1) ''ms'') (\<lambda>rtt_value.
     if rtt_value = [] \<or> bw_value = [] then Inl UndefinedBehaviour
     else res_bind (to_word (atof (rtt_value ! 0))) (\<lambda>rtt.
     if length trace_data < 3 then Inl UndefinedBehaviour
     else Inr (rtt, atof (bw_value ! 0), atof (trace_data ! 2))))))"

fun trace_events :: "(string \<Rightarrow> rat) \<Rightarrow> u16 \<Rightarrow> u64 \<Rightarrow> string list \<Rightarrow> 'p sender_event list res" where
  "trace_events atof itvl past_time [] = Inr []"
| "trace_events atof itvl past_time (l # ls) =
     res_bind (trace_line atof l) (\<lambda>(rtt, bw, lr).
     res_bind (trace_events atof itvl (past_time + ucast itvl) ls) (\<lambda>es.
     Inr (ScheduleTrace (MilliSeconds (uint (ucast rtt + past_time))) rtt bw lr # es)))"

definition UpdateNetstateByTrace :: "(string \<Rightarrow> rat) \<Rightarrow> string list \<Rightarrow> ('p, 'c) sender \<Rightarrow> ('p, 'c) sender res" where
  "UpdateNetstateByTrace atof lines s =
     res_bind (trace_events atof (m_interval s) 0 lines) (\<lambda>es. Inr (emit es s))"

definition SetTrace :: "('p, 'c) sender \<Rightarrow> ('p, 'c) sender" where
  "SetTrace s = s\<lparr>trace_set := True\<rparr>"

definition Sender_StartApplication :: "(string \<Rightarrow> rat) \<Rightarrow> string list \<Rightarrow> ('p, 'c) sender \<Rightarrow> ('p, 'c) sender res" where
  "Sender_StartApplication atof trace_file s =
     res_bind (timer_schedule (m_cc_timer s)) (\<lambda>t.
     let s = s\<lparr>m_cc_timer := t, m_pacingTimer_delay := m_pacing_interval s\<rparr>
     in res_bind (if trace_set s then UpdateNetstateByTrace atof trace_file s else Inr s) (\<lambda>s.
        Inr (emit [ScheduleCheck (check_rtx_interval s)] s)))"

text \<open>The ratio returned; \<open>None\<close> is an infinite double.\<close>

definition GetBandwidthLossRate :: "rounding \<Rightarrow> ('p, 'c) sender \<Rightarrow> rat option" where
  "GetBandwidthLossRate f s =
     (let t = m_stats s
      in if init_data_pkt_count t + other_pkt_count t = 0 then Some 0
         else if init_data_pkt_count t = 0 then None
         else Some (f (f (of_int (uint (other_pkt_count t))) / f (of_int (uint (init_data_pkt_count t))))))"

definition Sender_StopRunning :: "('p, 'c) sender \<Rightarrow> ('p, 'c) sender" where
  "Sender_StopRunning s = emit [CancelCheck, CloseSocket] (s\<lparr>m_cc_timer := False\<rparr>)"

text \<open>The controllers are constructed elsewhere; \<open>''Fixed''\<close> leaves the pointer as it is.\<close>

definition SetController :: "string \<Rightarrow> 'c \<Rightarrow> 'c \<Rightarrow> ('p, 'c) sender \<Rightarrow> ('p, 'c) sender res" where
  "SetController cca gcc nada s =
     (if cca = ''Gcc'' then Inr (s\<lparr>m_controller := Some gcc\<rparr>)
      else if cca = ''Nada'' then Inr (s\<lparr>m_controller := Some nada\<rparr>)
      else if cca = ''Fixed'' then Inr s
      else Inl FatalError)"

section \<open>What comes back\<close>

definition mix_time :: "('p, 'c) sender_env \<Rightarrow> time \<Rightarrow> time \<Rightarrow> time" where
  "mix_time env new old = sn_scale env (sn_fl env (1 / 5)) new + sn_scale env (sn_fl env (4 / 5)) old"

definition ack_dispersion :: "('p, 'c) sender_env \<Rightarrow> time \<Rightarrow> SentPacketInfo \<Rightarrow> SentPacketInfo \<Rightarrow> NetStat \<Rightarrow> NetStat" where
  "ack_dispersion env now info prev st =
     (if si_batch_id prev = si_batch_id info \<and> si_send_time prev = si_send_time info \<and>
         si_ack_time prev \<noteq> MicroSeconds 0 \<and> now \<ge> si_ack_time prev
      then st\<lparr>rt_dispersion := (if rt_dispersion st = MicroSeconds 0 then now - si_ack_time prev
                               else mix_time env (now - si_ack_time prev) (rt_dispersion st))\<rparr>
      else st)"

definition RcvAck :: "('p, 'c) sender_env \<Rightarrow> time \<Rightarrow> AckPacket \<Rightarrow> ('p, 'c) sender \<Rightarrow> ('p, 'c) sender" where
  "RcvAck env now ack s0 =
     (let s = RcvACKPacket ack s0; i = ah_last_pkt_id (ack_header ack)
      in case map_of (pktsHistory s) i of
           None \<Rightarrow> s
         | Some info0 \<Rightarrow>
             let info = info0\<lparr>si_ack_time := now\<rparr>;
                 hist = AList.update i info (pktsHistory s);
                 st = (if i \<ge> m_last_acked_global_id s \<and> \<not> trace_set s
                       then UpdateRTT env (now - si_send_time info) (m_netStat s) else m_netStat s);
                 st = (case map_of hist (i - 1) of
                         None \<Rightarrow> st
                       | Some prev \<Rightarrow> ack_dispersion env now info prev st)
             in s\<lparr>pktsHistory := hist, m_netStat := st, m_last_acked_global_id := i\<rparr>)"

definition RcvFrameAck :: "time \<Rightarrow> FrameAckPacket \<Rightarrow> ('p, 'c) sender \<Rightarrow> ('p, 'c) sender" where
  "RcvFrameAck now ack s =
     (let h = frame_ack_header ack; t = m_stats s
      in s\<lparr>m_stats :=
           (if now - fa_frame_encode_time h \<le> m_delay_ddl s + MilliSeconds 1
            then t\<lparr>m_finished_frame_cnt := m_finished_frame_cnt t + 1,
                   m_exclude_ten_finished_frame_cnt :=
                     (if fa_frame_id h \<ge> 10 then m_exclude_ten_finished_frame_cnt t + 1
                      else m_exclude_ten_finished_frame_cnt t)\<rparr>
            else t\<lparr>m_timeout_frame_cnt := m_timeout_frame_cnt t + 1\<rparr>)\<rparr>)"

text \<open>One received packet of the feedback. A division by a count of 0 is undefined.\<close>

definition burst_first :: "'c cc_ops \<Rightarrow> 'c \<Rightarrow> u16 \<Rightarrow> u64 \<Rightarrow> u64 \<Rightarrow> burst \<Rightarrow> burst" where
  "burst_first ops c i RxTime TxTime b =
     b\<lparr>m_prev_id := i, m_prev_RxTime := RxTime, m_group_id := 0, m_group_size := ucast (op_size ops i c),
       m_groupstart_TxTime := TxTime, m_firstFeedback := False, m_curr_pkts_in_frame := 1\<rparr>"

definition burst_add :: "'c cc_ops \<Rightarrow> 'c \<Rightarrow> u16 \<Rightarrow> u64 \<Rightarrow> u64 \<Rightarrow> burst \<Rightarrow> burst" where
  "burst_add ops c i RxTime TxTime b =
     b\<lparr>m_curr_pkts_in_frame := m_curr_pkts_in_frame b + 1,
       m_curr_frame_TxTime := m_curr_frame_TxTime b + TxTime,
       m_curr_frame_RxTime := m_curr_frame_RxTime b + RxTime,
       m_group_size := ucast (scast (m_group_size b) + op_size ops i c),
       m_prev_id := i, m_prev_RxTime := RxTime\<rparr>"

definition burst_next :: "u64 \<Rightarrow> burst \<Rightarrow> burst" where
  "burst_next TxTime b =
     b\<lparr>m_prev_group_size := m_group_size b, m_prev_groupend_id := m_prev_id b,
       m_prev_groupend_RxTime := m_prev_RxTime b, m_group_id := m_group_id b + 1, m_group_size := 0,
       m_groupstart_TxTime := TxTime, m_prev_frame_TxTime := m_curr_frame_TxTime b,
       m_prev_frame_RxTime := m_curr_frame_RxTime b, m_prev_pkts_in_frame := m_curr_pkts_in_frame b,
       m_curr_frame_TxTime := 0, m_curr_frame_RxTime := 0, m_curr_pkts_in_frame := 0\<rparr>"

definition burst_measure :: "burst \<Rightarrow> burst res" where
  "burst_measure b =
     ns_assert (m_prev_pkts_in_frame b > 0)
       (if m_curr_pkts_in_frame b = 0 then Inl UndefinedBehaviour
        else
          let cur = ucast (m_curr_pkts_in_frame b); prev = ucast (m_prev_pkts_in_frame b);
              arr = m_curr_frame_RxTime b div cur - m_prev_frame_RxTime b div prev;
              dep = m_curr_frame_TxTime b div cur - m_prev_frame_TxTime b div prev
          in Inr (b\<lparr>inter_arrival := arr, inter_departure := dep, inter_delay_var := arr - dep,
                    inter_group_size := m_group_size b - m_prev_group_size b\<rparr>))"

text \<open>The end of a burst: the controller hears of it, from the second one on.\<close>

definition burst_switch :: "'c cc_ops \<Rightarrow> u64 \<Rightarrow> u16 \<Rightarrow> u64 \<Rightarrow> u64 \<Rightarrow> burst \<times> 'c \<Rightarrow> (burst \<times> 'c) res" where
  "burst_switch ops now_us i RxTime TxTime = (\<lambda>(b0, c0).
     res_bind (if m_group_id b0 > 0
               then res_bind (burst_measure b0) (\<lambda>b.
                    res_bind (op_feedback ops now_us i RxTime (inter_arrival b) (inter_departure b)
                                (inter_delay_var b) (inter_group_size b) (m_prev_RxTime b) c0) (\<lambda>(_, c).
                    Inr (b, c)))
               else Inr (b0, c0)) (\<lambda>(b, c).
     res_bind (op_prune ops (ucast (m_prev_groupend_id b)) c) (\<lambda>c.
     Inr (burst_next TxTime b, c))))"

definition burst_packet :: "'c cc_ops \<Rightarrow> u16 \<Rightarrow> u64 \<Rightarrow> RcvTime \<Rightarrow> burst \<times> 'c \<Rightarrow> (burst \<times> 'c) res" where
  "burst_packet ops interval now_us r = (\<lambda>(b, c).
     let i = ucast (rt_pkt_id r) :: u16; RxTime = ucast (rt_us r) :: u64; TxTime = op_tx_time ops i c;
         start = m_groupstart_TxTime b
     in if m_firstFeedback b then Inr (burst_first ops c i RxTime TxTime b, c)
        else if (lessThan start TxTime \<and>
                 TxTime - start \<le> ucast (20 * ucast interval * 1000 :: u32)) \<or> start = TxTime
        then res_bind (if TxTime - start > 10000 then burst_switch ops now_us i RxTime TxTime (b, c)
                       else Inr (b, c)) (\<lambda>(b, c).
             Inr (burst_add ops c i RxTime TxTime b, c))
        else Inr (b, c))"

fun burst_packets :: "'c cc_ops \<Rightarrow> u16 \<Rightarrow> u64 \<Rightarrow> RcvTime list \<Rightarrow> burst \<times> 'c \<Rightarrow> (burst \<times> 'c) res" where
  "burst_packets ops interval now_us [] bc = Inr bc"
| "burst_packets ops interval now_us (r # rs) bc =
     res_bind (burst_packet ops interval now_us r bc) (burst_packets ops interval now_us rs)"

definition RcvNetState :: "('p, 'c) sender_env \<Rightarrow> time \<Rightarrow> NetStates \<Rightarrow> ('p, 'c) sender \<Rightarrow> ('p, 'c) sender res" where
  "RcvNetState env now states s0 =
     res_bind (if trace_set s0 then Inr s0
               else tell_loss env (sn_fs env (ns_loss_rate states * 256))
                 (s0\<lparr>m_netStat := (m_netStat s0)\<lparr>
                   current_bw := sn_fl env (of_int (uint (ns_throughput_kbps states)) / 1000),
                   current_loss_rate := ns_loss_rate states\<rparr>\<rparr>)) (\<lambda>s1.
     let s = s1\<lparr>m_netStat := (m_netStat s1)\<lparr>loss_seq := ns_loss_seq states,
              disp_one_way := MicroSeconds (uint (ns_fec_group_delay_us states))\<rparr>\<rparr>
     in if \<not> m_cc_enable s \<or> ns_recvtime_hist states = [] then Inr s
        else case m_controller s of
          None \<Rightarrow> Inl NullDeref
        | Some c \<Rightarrow>
            res_bind (burst_packets (sn_ops env) (m_interval s) (word_of_int (GetMicroSeconds now))
                        (ns_recvtime_hist states) (m_burst s, c)) (\<lambda>(b, c').
            Inr (s\<lparr>m_burst := b, m_controller := Some c'\<rparr>)))"

definition OnSocketRecv_sender :: "('p, 'c) sender_env \<Rightarrow> time \<Rightarrow> 'p \<Rightarrow> ('p, 'c) sender \<Rightarrow> ('p, 'c) sender res" where
  "OnSocketRecv_sender env now pkt s =
     res_bind (ToInstance (sn_ns3 env) (sn_fs env) (sn_raw env) pkt) (\<lambda>packet.
     case packet of
       None \<Rightarrow> Inl NullDeref
     | Some (AckP ack) \<Rightarrow> Inr (RcvAck env now ack s)
     | Some (FrameAckP ack) \<Rightarrow> Inr (RcvFrameAck now ack s)
     | Some (NetStateP p) \<Rightarrow>
         (case net_state_header p of None \<Rightarrow> Inl NullDeref | Some states \<Rightarrow> RcvNetState env now states s)
     | Some _ \<Rightarrow> Inl AssertFailed)"

end
