(* ===== verification/Fec_Delivery.thy ===== *)
theory Fec_Delivery
  imports Sender_Udp Receiver_Udp
begin

text \<open>
  From the sender's groups to the receiver's: the packets that \<open>CreateFirstPacketBatch\<close> makes
  are the ones the receiver's \<open>PacketGroup\<close> expects, and any \<open>n\<close> of them, in any order, let
  it hand out all \<open>n\<close> data packets of the group.
\<close>

section \<open>What a group receives\<close>

text \<open>The steps of \<open>ReceiveUdpPacket\<close> on one group: add a packet, take what can be decoded.\<close>

fun receive_group :: "((u16 \<times> FECPacket) list \<Rightarrow> u16 \<times> FECPacket) \<Rightarrow> DataPacket \<Rightarrow> time \<Rightarrow> vpacket list \<Rightarrow>
    PacketGroup \<Rightarrow> (DataPacket list \<times> PacketGroup) res" where
  "receive_group pick raw now [] g = Inr ([], g)"
| "receive_group pick raw now (p # ps) g =
     res_bind (PacketGroup_AddPacket pick raw now p g) (\<lambda>g.
     let (out, g) = PacketGroup_GetUndecodedPackets g
     in res_bind (receive_group pick raw now ps g) (\<lambda>(out', g). Inr (out @ out', g)))"

text \<open>A packet of a batch that is a group of its own: \<open>n\<close> data packets and \<open>f\<close> FEC packets.\<close>

definition of_batch :: "u32 \<Rightarrow> nat \<Rightarrow> nat \<Rightarrow> vpacket \<Rightarrow> bool" where
  "of_batch bid n f p \<longleftrightarrow>
     (let h = vp_header p; i = unat (vh_pkt_id_in_batch h)
      in vh_batch_id h = bid \<and> unat (vh_batch_data_num h) = n \<and>
         vh_pkt_id_in_group h = vh_pkt_id_in_batch h \<and>
         (case p of
            VData d \<Rightarrow> packet_type d = DATA_PKT \<and> i < n
          | VFec x \<Rightarrow> packet_type x = FEC_PKT \<and> n \<le> i \<and> i < n + f \<and>
              map dg_pkt_id_in_batch (fec_header x) = map of_nat [0..<n] \<and>
              map dg_pkt_id_in_group (fec_header x) = map of_nat [0..<n]))"

abbreviation batch_no :: "vpacket \<Rightarrow> u16" where
  "batch_no p \<equiv> vh_pkt_id_in_batch (vp_header p)"

definition group_nos :: "DataPacket list \<Rightarrow> u16 list" where
  "group_nos ds = map (\<lambda>d. vh_pkt_id_in_group (video_header d)) ds"

definition numbers_agree :: "FECPacket \<Rightarrow> bool" where
  "numbers_agree x \<longleftrightarrow> (\<forall>d\<in>set (fec_header x). dg_pkt_id_in_group d = dg_pkt_id_in_batch d)"

lemma batch_ids_nat: "n \<le> 65536 \<Longrightarrow> batch_ids n = of_nat ` {0..<n}"
proof (intro set_eqI iffI)
  fix i :: u16
  assume "n \<le> 65536" "i \<in> batch_ids n"
  then show "i \<in> of_nat ` {0..<n}"
    by (intro image_eqI [of _ _ "unat i"]) (simp_all add: batch_ids_def)
next
  fix i :: u16
  assume "n \<le> 65536" "i \<in> of_nat ` {0..<n}"
  then show "i \<in> batch_ids n" by (auto simp: batch_ids_def unat_word_of_nat_16)
qed

lemma of_batch_fec:
  assumes "of_batch bid n f (VFec x)" "n \<le> 65535"
  shows "covers n x" "numbers_agree x"
proof -
  have b: "map dg_pkt_id_in_batch (fec_header x) = map of_nat [0..<n]"
    and g: "map dg_pkt_id_in_group (fec_header x) = map of_nat [0..<n]"
    using assms(1) by (simp_all add: of_batch_def Let_def)
  have "inj_on (of_nat :: nat \<Rightarrow> u16) {0..<n}"
    using assms(2) by (intro inj_on_inverseI [where g = unat]) (simp add: unat_word_of_nat_16)
  then show "covers n x" using assms(2) unfolding covers_def b by (simp add: distinct_map batch_ids_nat)
  have "map dg_pkt_id_in_group (fec_header x) = map dg_pkt_id_in_batch (fec_header x)"
    unfolding b g ..
  then show "numbers_agree x" unfolding numbers_agree_def by simp
qed

lemma of_batch_fits: "of_batch bid n f p \<Longrightarrow> n \<le> 65535 \<Longrightarrow> fits n p"
  using of_batch_fec [of bid n f]
  by (cases p) (auto simp: of_batch_def Let_def batch_ids_def)

text \<open>A recovered packet has the number in its group that the digest gives it.\<close>

lemma recovered_nos:
  assumes "numbers_agree x"
  shows "group_nos (recovered_pkts raw now g b x) = ids_of (recovered_pkts raw now g b x)"
  using assms
  by (auto simp: group_nos_def ids_of_def recovered_pkts_def SetEncodeTime_def DataPacket_of_digest_def
      SetFECGroup_def SetFECBatch_def Let_def numbers_agree_def)

lemma batch_out_nos:
  assumes "batch_receive pick raw now g b = Inr (c, out, b')" "pick_ok pick"
    and "group_nos (pb_undecoded_pkts b) = ids_of (pb_undecoded_pkts b)"
    and "\<forall>x\<in>snd ` set (pb_fec_pkts b). numbers_agree x"
  shows "group_nos out = ids_of out"
proof -
  have app: "group_nos (xs @ ys) = group_nos xs @ group_nos ys" "ids_of (xs @ ys) = ids_of xs @ ids_of ys"
    for xs ys by (simp_all add: group_nos_def ids_of_def)
  have "numbers_agree (snd (pick (pb_fec_pkts b)))" if "pb_fec_pkts b \<noteq> []"
    using assms(2,4) that by (auto simp: pick_ok_def)
  then show ?thesis
    using assms(1,3) recovered_nos
    by (auto simp: batch_receive_def PacketBatch_CheckComplete_def PacketBatch_GetUndecodedPackets_def
        ns_assert_def app Let_def split: if_splits)
qed

section \<open>One packet of a group\<close>

text \<open>
  The group has received the data packets \<open>D\<close> and the FEC packets \<open>F\<close> of its only batch, fewer
  than \<open>n\<close>.
\<close>

definition holds :: "nat \<Rightarrow> u16 set \<Rightarrow> u16 set \<Rightarrow> PacketBatch \<Rightarrow> bool" where
  "holds n D F b \<longleftrightarrow> batch_idle n b \<and> fst ` set (pb_data_pkts b) = D \<and> fst ` set (pb_fec_pkts b) = F \<and>
     distinct (map fst (pb_fec_pkts b)) \<and> (\<forall>x\<in>snd ` set (pb_fec_pkts b). numbers_agree x)"

definition group_at :: "u32 \<Rightarrow> nat \<Rightarrow> u16 set \<Rightarrow> u16 set \<Rightarrow> PacketGroup \<Rightarrow> bool" where
  "group_at bid n D F g \<longleftrightarrow> pg_undecoded_pkts g = [] \<and> pg_decoded_pkts g = D \<and>
     pg_complete_batches g = [] \<and> unat (pg_data_num g) = n \<and>
     (if D \<union> F = {} then pg_incomplete_batches g = []
      else \<exists>b. pg_incomplete_batches g = [(bid, b)] \<and> holds n D F b)"

definition group_done :: "u32 \<Rightarrow> nat \<Rightarrow> PacketGroup \<Rightarrow> bool" where
  "group_done bid n g \<longleftrightarrow> pg_undecoded_pkts g = [] \<and> pg_decoded_pkts g = batch_ids n \<and>
     map_of (pg_complete_batches g) bid \<noteq> None \<and> unat (pg_data_num g) = n"

lemma data_num_frame:
  "pg_data_num (InitGroup pkt g) = pg_data_num g" "pg_data_num (update_statistics pkt g) = pg_data_num g"
  by (simp_all add: InitGroup_def update_statistics_def Let_def)

lemma holds_length:
  assumes "holds n D F b"
  shows "length (pb_data_pkts b) = card D" "length (pb_fec_pkts b) = card F" "pb_decoded_pkts b = D"
    "pb_undecoded_pkts b = []" "finite D" "finite F"
proof -
  have d: "distinct (map fst (pb_data_pkts b))" "fst ` set (pb_data_pkts b) = D"
    and f: "distinct (map fst (pb_fec_pkts b))" "fst ` set (pb_fec_pkts b) = F"
    using assms by (simp_all add: holds_def batch_idle_def batch_wf_def)
  show "length (pb_data_pkts b) = card D" using distinct_card [OF d(1)] d(2) by simp
  show "length (pb_fec_pkts b) = card F" using distinct_card [OF f(1)] f(2) by simp
  show "pb_decoded_pkts b = D" "pb_undecoded_pkts b = []" "finite D" "finite F"
    using assms by (auto simp: holds_def batch_idle_def batch_wf_def ids_of_def)
qed

text \<open>The batch after a new packet has been added to it.\<close>

lemma add_to_batch:
  assumes b: "holds n D F b" and p: "of_batch bid n f p" "n \<le> 65535" and new: "batch_no p \<notin> D \<union> F"
  defines "b1 \<equiv> PacketBatch_AddPacket p b"
  shows "batch_wf n b1" "pb_decoded_pkts b1 = D"
    "length (pb_data_pkts b1) + length (pb_fec_pkts b1) = Suc (card D + card F)"
    "group_nos (pb_undecoded_pkts b1) = ids_of (pb_undecoded_pkts b1)"
    "\<forall>x\<in>snd ` set (pb_fec_pkts b1). numbers_agree x" "distinct (map fst (pb_fec_pkts b1))"
    "case p of VData d \<Rightarrow> fst ` set (pb_data_pkts b1) = insert (batch_no p) D \<and>
        fst ` set (pb_fec_pkts b1) = F \<and> ids_of (pb_undecoded_pkts b1) = [batch_no p]
      | VFec x \<Rightarrow> fst ` set (pb_data_pkts b1) = D \<and> fst ` set (pb_fec_pkts b1) = insert (batch_no p) F \<and>
        ids_of (pb_undecoded_pkts b1) = []"
proof -
  note len = holds_length [OF b]
  have idle: "batch_idle n b" using b by (simp add: holds_def)
  show wf: "batch_wf n b1" "pb_decoded_pkts b1 = D"
    using AddPacket_wf [OF idle of_batch_fits [OF p]] len by (simp_all add: b1_def)
  have keys: "fst ` set (pb_data_pkts b) = D" "fst ` set (pb_fec_pkts b) = F"
    "distinct (map fst (pb_fec_pkts b))" "\<forall>x\<in>snd ` set (pb_fec_pkts b). numbers_agree x"
    using b by (simp_all add: holds_def)
  have grow: "length (AList.update k v al) = Suc (length al)" if "k \<notin> fst ` set al" for k :: u16 and v al
    using that by (induction al) auto
  have sub: "snd ` set (AList.update k x al) \<subseteq> {x} \<union> snd ` set al" for k :: u16 and x al
    by (induction al) auto
  have "length (pb_data_pkts b1) + length (pb_fec_pkts b1) = Suc (card D + card F) \<and>
    group_nos (pb_undecoded_pkts b1) = ids_of (pb_undecoded_pkts b1) \<and>
    (\<forall>x\<in>snd ` set (pb_fec_pkts b1). numbers_agree x) \<and> distinct (map fst (pb_fec_pkts b1)) \<and>
    (case p of VData d \<Rightarrow> fst ` set (pb_data_pkts b1) = insert (batch_no p) D \<and>
        fst ` set (pb_fec_pkts b1) = F \<and> ids_of (pb_undecoded_pkts b1) = [batch_no p]
      | VFec x \<Rightarrow> fst ` set (pb_data_pkts b1) = D \<and> fst ` set (pb_fec_pkts b1) = insert (batch_no p) F \<and>
        ids_of (pb_undecoded_pkts b1) = [])"
  proof (cases p)
    case (VData d)
    have "b1 = b\<lparr>pb_data_pkts := AList.update (batch_no p) d (pb_data_pkts b), pb_undecoded_pkts := [d]\<rparr>"
      using VData p(1) new len by (simp add: b1_def PacketBatch_AddPacket_def pkt_id_batch_def Let_def of_batch_def)
    then show ?thesis
      using VData p(1) new len keys grow [of "batch_no p" "pb_data_pkts b"]
      by (auto simp: dom_update group_nos_def ids_of_def of_batch_def Let_def)
  next
    case (VFec x)
    have "b1 = b\<lparr>pb_fec_pkts := AList.update (batch_no p) x (pb_fec_pkts b)\<rparr>"
      using VFec p(1) new len by (simp add: b1_def PacketBatch_AddPacket_def pkt_id_batch_def Let_def of_batch_def)
    moreover have "\<forall>y\<in>snd ` set (AList.update (batch_no p) x (pb_fec_pkts b)). numbers_agree y"
      using sub [of "batch_no p" x "pb_fec_pkts b"] keys(4) of_batch_fec(2) [of bid n f x] p VFec by blast
    ultimately show ?thesis
      using VFec new len keys(1-3) grow [of "batch_no p" "pb_fec_pkts b"]
      by (simp add: dom_update distinct_update group_nos_def ids_of_def)
  qed
  then show "length (pb_data_pkts b1) + length (pb_fec_pkts b1) = Suc (card D + card F)"
    "group_nos (pb_undecoded_pkts b1) = ids_of (pb_undecoded_pkts b1)"
    "\<forall>x\<in>snd ` set (pb_fec_pkts b1). numbers_agree x" "distinct (map fst (pb_fec_pkts b1))"
    "case p of VData d \<Rightarrow> fst ` set (pb_data_pkts b1) = insert (batch_no p) D \<and>
        fst ` set (pb_fec_pkts b1) = F \<and> ids_of (pb_undecoded_pkts b1) = [batch_no p]
      | VFec x \<Rightarrow> fst ` set (pb_data_pkts b1) = D \<and> fst ` set (pb_fec_pkts b1) = insert (batch_no p) F \<and>
        ids_of (pb_undecoded_pkts b1) = []"
    by blast+
qed


definition empty_batch :: "VideoPacketHeader \<Rightarrow> PacketBatch" where
  "empty_batch h = \<lparr>pb_batch_id = vh_batch_id h, pb_data_num = vh_batch_data_num h,
     pb_fec_num = vh_batch_fec_num h, pb_decoded_pkts = {}, pb_undecoded_pkts = [],
     pb_data_pkts = [], pb_fec_pkts = []\<rparr>"

lemma holds_empty: "of_batch bid n f p \<Longrightarrow> holds n {} {} (empty_batch (vp_header p))"
  by (simp add: holds_def empty_batch_def batch_idle_def batch_wf_def ids_of_def of_batch_def Let_def)

definition data_nos :: "vpacket \<Rightarrow> u16 set" where
  "data_nos p = (case p of VData d \<Rightarrow> {batch_no p} | VFec x \<Rightarrow> {})"

definition fec_nos :: "vpacket \<Rightarrow> u16 set" where
  "fec_nos p = (case p of VData d \<Rightarrow> {} | VFec x \<Rightarrow> {batch_no p})"

text \<open>What the batch does with the packet, and then the group.\<close>

lemma batch_step:
  assumes b: "holds n D F b" and p: "of_batch bid n f p" "n \<le> 65535" and new: "batch_no p \<notin> D \<union> F"
    and pick: "pick_ok pick"
  shows "\<exists>c out b'. batch_receive pick raw now gi (PacketBatch_AddPacket p b) = Inr (c, out, b') \<and>
    distinct (ids_of out) \<and> set (ids_of out) \<inter> D = {} \<and> group_nos out = ids_of out \<and>
    (c \<longleftrightarrow> n \<le> Suc (card D + card F)) \<and> (c \<longrightarrow> D \<union> set (ids_of out) = batch_ids n) \<and>
    (\<not> c \<longrightarrow> D \<union> set (ids_of out) = D \<union> data_nos p \<and> holds n (D \<union> data_nos p) (F \<union> fec_nos p) b')"
proof -
  let ?b1 = "PacketBatch_AddPacket p b"
  note b1 = add_to_batch [OF b p new]
  obtain c out b' where run: "batch_receive pick raw now gi ?b1 = Inr (c, out, b')"
    and out: "distinct (ids_of out)" "set (ids_of out) \<inter> pb_decoded_pkts ?b1 = {}"
    and dec: "pb_decoded_pkts b' = pb_decoded_pkts ?b1 \<union> set (ids_of out)"
    and c: "c \<longleftrightarrow> n \<le> length (pb_data_pkts ?b1) + length (pb_fec_pkts ?b1)"
    and full: "c \<longrightarrow> pb_decoded_pkts b' = batch_ids n" and idle: "\<not> c \<longrightarrow> batch_idle n b'"
    using batch_receive_run [OF b1(1) pick, of raw now gi] by (elim exE conjE) (rule that; assumption)
  have nos: "group_nos out = ids_of out" by (rule batch_out_nos [OF run pick b1(4,5)])
  have num: "unat (pb_data_num ?b1) = n" using b1(1) by (simp add: batch_wf_def)
  have "out = pb_undecoded_pkts ?b1 \<and> pb_data_pkts b' = pb_data_pkts ?b1 \<and> pb_fec_pkts b' = pb_fec_pkts ?b1"
    if "\<not> c"
    using run that c num
    by (auto simp: batch_receive_def PacketBatch_CheckComplete_def PacketBatch_GetUndecodedPackets_def Let_def)
  then have "D \<union> set (ids_of out) = D \<union> data_nos p \<and> holds n (D \<union> data_nos p) (F \<union> fec_nos p) b'" if "\<not> c"
    using that b1(5-7) idle
    by (cases p) (auto simp: holds_def data_nos_def fec_nos_def)
  then show ?thesis
    using run out dec c full nos b1(2,3)
    by (intro exI [of _ c] exI [of _ out] exI [of _ b']) simp
qed

lemma group_step:
  assumes g: "group_at bid n D F g" and p: "of_batch bid n f p" "n \<le> 65535" and new: "batch_no p \<notin> D \<union> F"
    and pick: "pick_ok pick" and n: "0 < n" "card D + card F < n"
  shows "\<exists>g1 out g2. PacketGroup_AddPacket pick raw now p g = Inr g1 \<and>
    PacketGroup_GetUndecodedPackets g1 = (out, g2) \<and> distinct (group_nos out) \<and>
    set (group_nos out) \<inter> D = {} \<and>
    (if n \<le> Suc (card D + card F)
     then group_done bid n g2 \<and> D \<union> set (group_nos out) = batch_ids n
     else group_at bid n (D \<union> data_nos p) (F \<union> fec_nos p) g2 \<and> D \<union> set (group_nos out) = D \<union> data_nos p)"
proof -
  let ?h = "vp_header p"
  define g0 where "g0 = update_statistics p
    (if card (pg_decoded_pkts g) + length (pg_undecoded_pkts g) = 0 then InitGroup p g else g)"
  have g0: "pg_incomplete_batches g0 = pg_incomplete_batches g" "pg_complete_batches g0 = []"
    "pg_decoded_pkts g0 = D" "pg_undecoded_pkts g0 = []" "unat (pg_data_num g0) = n"
    using g by (simp_all add: g0_def statistics_frame InitGroup_frame data_num_frame group_at_def)
  have h: "vh_batch_id ?h = bid" "vh_pkt_id_in_group ?h = batch_no p" "unat (vh_batch_data_num ?h) = n"
    using p(1) by (simp_all add: of_batch_def Let_def)
  obtain b where b: "holds n D F b" and
    get: "(case map_of (pg_incomplete_batches g0) bid of None \<Rightarrow> PacketBatch_new p
           | Some b \<Rightarrow> Inr (PacketBatch_AddPacket p b)) = Inr (PacketBatch_AddPacket p b)"
  proof (cases "D \<union> F = {}")
    case True
    then have "pg_incomplete_batches g0 = []" using g by (simp add: g0 group_at_def)
    moreover have "PacketBatch_new p = Inr (PacketBatch_AddPacket p (empty_batch ?h))"
    proof -
      have "vh_batch_data_num ?h \<noteq> 0" using h(3) n(1) by auto
      then show ?thesis by (simp add: PacketBatch_new_def empty_batch_def Let_def word_gt_0)
    qed
    ultimately show ?thesis using True holds_empty [OF p(1)] by (intro that) auto
  next
    case False
    then obtain b where "pg_incomplete_batches g = [(bid, b)]" "holds n D F b"
      using g unfolding group_at_def if_not_P [OF False] by blast
    then show ?thesis by (intro that) (simp_all add: g0)
  qed
  obtain c out b' where run: "batch_receive pick raw now (group_info_of g0) (PacketBatch_AddPacket p b) = Inr (c, out, b')"
    and out: "distinct (ids_of out)" "set (ids_of out) \<inter> D = {}" "group_nos out = ids_of out"
    and c: "c \<longleftrightarrow> n \<le> Suc (card D + card F)" and full: "c \<longrightarrow> D \<union> set (ids_of out) = batch_ids n"
    and more: "\<not> c \<longrightarrow> D \<union> set (ids_of out) = D \<union> data_nos p \<and> holds n (D \<union> data_nos p) (F \<union> fec_nos p) b'"
    using batch_step [OF b p new pick, of raw now "group_info_of g0"]
    by (elim exE conjE) (rule that; assumption)
  define g1 where "g1 = (if c
      then g0\<lparr>pg_undecoded_pkts := out,
        pg_complete_batches := AList.update bid b' [],
        pg_incomplete_batches := AList.delete bid (pg_incomplete_batches g0)\<rparr>
      else g0\<lparr>pg_undecoded_pkts := out,
        pg_incomplete_batches := AList.update bid b' (pg_incomplete_batches g0)\<rparr>)"
  have add: "PacketGroup_AddPacket pick raw now p g = Inr g1"
    using new get unfolding PacketGroup_AddPacket_def Let_def g0_def [symmetric] h
    by (simp add: g0 run g1_def)
  obtain g2 where g2: "PacketGroup_GetUndecodedPackets g1 = (out, g2)"
    and f2: "pg_undecoded_pkts g2 = []" "pg_decoded_pkts g2 = D \<union> set (group_nos out)"
      "pg_complete_batches g2 = pg_complete_batches g1" "pg_incomplete_batches g2 = pg_incomplete_batches g1"
      "unat (pg_data_num g2) = n"
    by (auto simp: PacketGroup_GetUndecodedPackets_def Let_def g1_def g0 group_nos_def)
  have "data_nos p \<union> fec_nos p \<noteq> {}" by (cases p) (simp_all add: data_nos_def fec_nos_def)
  moreover have "AList.update bid b' (pg_incomplete_batches g0) = [(bid, b')]"
    using g by (auto simp: g0 group_at_def split: if_splits)
  ultimately have "if n \<le> Suc (card D + card F)
     then group_done bid n g2 \<and> D \<union> set (group_nos out) = batch_ids n
     else group_at bid n (D \<union> data_nos p) (F \<union> fec_nos p) g2 \<and> D \<union> set (group_nos out) = D \<union> data_nos p"
    using c full more out(3) f2 by (auto simp: group_done_def group_at_def g1_def g0(2))
  with add g2 out show ?thesis by (intro exI [of _ g1] exI [of _ out] exI [of _ g2]) simp
qed

lemma group_done_step:
  assumes "group_done bid n g" "of_batch bid n f p"
  shows "\<exists>g1 g2. PacketGroup_AddPacket pick raw now p g = Inr g1 \<and>
    PacketGroup_GetUndecodedPackets g1 = ([], g2) \<and> group_done bid n g2"
proof -
  define g0 where "g0 = update_statistics p
    (if card (pg_decoded_pkts g) + length (pg_undecoded_pkts g) = 0 then InitGroup p g else g)"
  have g0: "pg_complete_batches g0 = pg_complete_batches g" "pg_decoded_pkts g0 = batch_ids n"
    "pg_undecoded_pkts g0 = []" "unat (pg_data_num g0) = n"
    using assms(1) by (simp_all add: g0_def statistics_frame InitGroup_frame data_num_frame group_done_def)
  have "PacketGroup_AddPacket pick raw now p g = Inr g0"
    using assms unfolding PacketGroup_AddPacket_def Let_def g0_def [symmetric]
    by (simp add: g0 group_done_def of_batch_def Let_def)
  then show ?thesis
    using assms(1) g0 by (auto simp: PacketGroup_GetUndecodedPackets_def Let_def group_done_def)
qed

section \<open>Any \<open>n\<close> packets are enough\<close>

lemma receive_done:
  assumes "group_done bid n g" "\<forall>p\<in>set ps. of_batch bid n f p"
  shows "\<exists>g'. receive_group pick raw now ps g = Inr ([], g') \<and> group_done bid n g'"
  using assms
proof (induction ps arbitrary: g)
  case (Cons p ps)
  obtain g1 g2 where s: "PacketGroup_AddPacket pick raw now p g = Inr g1"
      "PacketGroup_GetUndecodedPackets g1 = ([], g2)" "group_done bid n g2"
    using group_done_step [OF Cons.prems(1), where f = f and p = p and pick = pick and raw = raw and now = now]
      Cons.prems(2) by auto
  from Cons.IH [OF s(3)] Cons.prems(2) s show ?case by auto
qed simp

lemma group_done_complete: "group_done bid n g \<Longrightarrow> n \<le> 65536 \<Longrightarrow> PacketGroup_CheckComplete g"
  by (simp add: group_done_def PacketGroup_CheckComplete_def card_batch_ids)

lemma receive_enough:
  assumes "group_at bid n D F g" "\<forall>p\<in>set ps. of_batch bid n f p" "n \<le> 65535" "pick_ok pick" "0 < n"
    and "distinct (map batch_no ps)" "batch_no ` set ps \<inter> (D \<union> F) = {}" "D \<inter> F = {}" "finite D" "finite F"
    and "card D + card F < n" "n \<le> card D + card F + length ps"
  shows "\<exists>out g'. receive_group pick raw now ps g = Inr (out, g') \<and> group_done bid n g' \<and>
    distinct (group_nos out) \<and> set (group_nos out) = batch_ids n - D"
  using assms(1,2,6-)
proof (induction ps arbitrary: g D F)
  case Nil
  then show ?case by simp
next
  case (Cons p ps)
  have p: "of_batch bid n f p" "batch_no p \<notin> D \<union> F" using Cons.prems by simp_all
  have app: "group_nos (xs @ ys) = group_nos xs @ group_nos ys" for xs ys by (simp add: group_nos_def)
  obtain g1 out g2 where s: "PacketGroup_AddPacket pick raw now p g = Inr g1"
      "PacketGroup_GetUndecodedPackets g1 = (out, g2)"
    and out: "distinct (group_nos out)" "set (group_nos out) \<inter> D = {}"
    and st: "if n \<le> Suc (card D + card F)
     then group_done bid n g2 \<and> D \<union> set (group_nos out) = batch_ids n
     else group_at bid n (D \<union> data_nos p) (F \<union> fec_nos p) g2 \<and> D \<union> set (group_nos out) = D \<union> data_nos p"
    using group_step [OF Cons.prems(1) p(1) assms(3) p(2) assms(4,5) Cons.prems(8), of raw now]
    by (elim exE conjE) (rule that; assumption)
  show ?case
  proof (cases "n \<le> Suc (card D + card F)")
    case True
    then have d: "group_done bid n g2" "D \<union> set (group_nos out) = batch_ids n" using st by simp_all
    obtain g' where g': "receive_group pick raw now ps g2 = Inr ([], g')" "group_done bid n g'"
      using receive_done [OF d(1), where f = f and ps = ps and pick = pick and raw = raw and now = now]
        Cons.prems(2) by auto
    have "set (group_nos out) = batch_ids n - D" using d(2) out(2) by blast
    then show ?thesis using s g' out(1) by (intro exI [of _ out] exI [of _ g']) simp
  next
    case False
    then have a: "group_at bid n (D \<union> data_nos p) (F \<union> fec_nos p) g2"
        "D \<union> set (group_nos out) = D \<union> data_nos p" using st by simp_all
    have card: "card (D \<union> data_nos p) + card (F \<union> fec_nos p) = Suc (card D + card F)"
      using p(2) Cons.prems(6,7) by (cases p) (simp_all add: data_nos_def fec_nos_def)
    have un: "(D \<union> data_nos p) \<union> (F \<union> fec_nos p) = insert (batch_no p) (D \<union> F)"
      by (cases p) (auto simp: data_nos_def fec_nos_def)
    have disj: "(D \<union> data_nos p) \<inter> (F \<union> fec_nos p) = {}"
      using p(2) Cons.prems(5) by (cases p) (auto simp: data_nos_def fec_nos_def)
    have fin: "finite (D \<union> data_nos p)" "finite (F \<union> fec_nos p)"
      using Cons.prems(6,7) by (cases p; simp add: data_nos_def fec_nos_def)+
    have "batch_no ` set ps \<inter> (D \<union> data_nos p \<union> (F \<union> fec_nos p)) = {}"
      unfolding un using Cons.prems(3,4) by auto
    with a(1) disj fin card False Cons.prems(2,3,9) obtain out' g' where
      r: "receive_group pick raw now ps g2 = Inr (out', g')" "group_done bid n g'"
        "distinct (group_nos out')" "set (group_nos out') = batch_ids n - (D \<union> data_nos p)"
      using Cons.IH [of "D \<union> data_nos p" "F \<union> fec_nos p" g2] by auto
    have "data_nos p \<inter> D = {}" using p(2) by (cases p) (simp_all add: data_nos_def)
    then have out_eq: "set (group_nos out) = data_nos p"
      using a(2) out(2) by blast
    have "data_nos p \<subseteq> batch_ids n"
      using p(1) by (cases p) (auto simp: data_nos_def of_batch_def batch_ids_def Let_def)
    then have "set (group_nos (out @ out')) = batch_ids n - D"
      using r(4) out_eq out(2) p(2) by (cases p) (auto simp: app data_nos_def)
    moreover have "distinct (group_nos (out @ out'))" using out(1) r(3,4) out_eq by (auto simp: app)
    ultimately show ?thesis using s r(1,2) by (intro exI [of _ "out @ out'"] exI [of _ g']) simp
  qed
qed


section \<open>What the sender makes\<close>

text \<open>Pointers to different data packets of the heap.\<close>

definition data_refs :: "vpacket list \<Rightarrow> nat list \<Rightarrow> bool" where
  "data_refs h rs \<longleftrightarrow> distinct rs \<and>
     (\<forall>r\<in>set rs. r < length h \<and> (\<exists>d. h ! r = VData d \<and> packet_type d = DATA_PKT))"

definition numbered :: "batch_info \<Rightarrow> u16 \<Rightarrow> u16 \<Rightarrow> DataPacket \<Rightarrow> DataPacket" where
  "numbered b i j d = SetFECGroup (bi_group_id b) (bi_group_data_num b) (bi_group_fec_num b) j
     (SetFECBatch (bi_batch_id b) (bi_data_num b) (bi_fec_num b) i d)"

lemma number_data_run:
  assumes "data_refs h rs"
  shows "\<exists>h'. number_data b True rs i j h = Inr (i + of_nat (length rs), j + of_nat (length rs), h') \<and>
    length h' = length h \<and> (\<forall>r. r \<notin> set rs \<longrightarrow> h' ! r = h ! r) \<and>
    (\<forall>k < length rs. \<exists>d. h ! (rs ! k) = VData d \<and> packet_type d = DATA_PKT \<and>
       h' ! (rs ! k) = VData (numbered b (i + of_nat k) (j + of_nat k) d))"
  using assms
proof (induction rs arbitrary: i j h)
  case (Cons r rs)
  obtain d where d: "h ! r = VData d" "packet_type d = DATA_PKT" "r < length h" "r \<notin> set rs"
    using Cons.prems by (auto simp: data_refs_def)
  let ?h = "h[r := VData (numbered b i j d)]"
  have "data_refs ?h rs" using Cons.prems d(4) by (auto simp: data_refs_def nth_list_update)
  from Cons.IH [OF this, of "i + 1" "j + 1"] obtain h' where
    h': "number_data b True rs (i + 1) (j + 1) ?h =
        Inr (i + 1 + of_nat (length rs), j + 1 + of_nat (length rs), h')"
      "length h' = length h" "\<forall>r'. r' \<notin> set rs \<longrightarrow> h' ! r' = ?h ! r'"
      "\<forall>k < length rs. \<exists>d. ?h ! (rs ! k) = VData d \<and> packet_type d = DATA_PKT \<and>
         h' ! (rs ! k) = VData (numbered b (i + 1 + of_nat k) (j + 1 + of_nat k) d)"
    by auto
  have run: "number_data b True (r # rs) i j h =
      Inr (i + of_nat (length (r # rs)), j + of_nat (length (r # rs)), h')"
    using h'(1) d by (simp add: data_at_def numbered_def add.assoc)
  have "\<exists>d. h ! ((r # rs) ! k) = VData d \<and> packet_type d = DATA_PKT \<and>
      h' ! ((r # rs) ! k) = VData (numbered b (i + of_nat k) (j + of_nat k) d)"
    if "k < length (r # rs)" for k
  proof (cases k)
    case 0
    then show ?thesis using d h'(3) by simp
  next
    case (Suc m)
    then have m: "m < length rs" using that by simp
    then have "rs ! m \<noteq> r" using d(4) by auto
    then show ?thesis using h'(4) m Suc by (fastforce simp: add.assoc)
  qed
  then show ?case using run h'(2,3) d by (intro exI [of _ h']) (auto simp: nth_list_update)
qed simp

lemma res_map_ok:
  assumes "\<And>k. k < length xs \<Longrightarrow> f (xs ! k) = Inr (ys ! k)" "length ys = length xs"
  shows "res_map f xs = Inr ys"
  using assms
proof (induction xs arbitrary: ys)
  case (Cons x xs)
  then obtain y ys' where ys: "ys = y # ys'" by (cases ys) auto
  have "f x = Inr y" using Cons.prems(1) [of 0] by (simp add: ys)
  moreover have "res_map f xs = Inr ys'"
    using Cons.prems(1) [of "Suc k" for k] Cons.prems(2) by (intro Cons.IH) (auto simp: ys)
  ultimately show ?case by (simp add: ys)
qed simp

lemma make_fec_nth:
  "length (make_fec b is_rtx now tx ds raw n i j) = n"
  "k < n \<Longrightarrow> make_fec b False now tx ds raw n i j ! k =
     VFec (SetEncodeTime now (SetFECGroup (bi_group_id b) (bi_group_data_num b) (bi_group_fec_num b)
       (j + of_nat k) (SetFECBatch (bi_batch_id b) (bi_data_num b) (bi_fec_num b) (i + of_nat k)
         (FECPacket_ctor tx ds raw))))"
proof -
  show "length (make_fec b is_rtx now tx ds raw n i j) = n"
    by (induction n arbitrary: i j) auto
  show "k < n \<Longrightarrow> make_fec b False now tx ds raw n i j ! k =
     VFec (SetEncodeTime now (SetFECGroup (bi_group_id b) (bi_group_data_num b) (bi_group_fec_num b)
       (j + of_nat k) (SetFECBatch (bi_batch_id b) (bi_data_num b) (bi_fec_num b) (i + of_nat k)
         (FECPacket_ctor tx ds raw))))"
  proof (induction n arbitrary: i j k)
    case (Suc n)
    then show ?case by (cases k) (simp_all add: add.assoc)
  qed simp
qed

text \<open>The packets of a first batch, in order.\<close>

lemma first_batch_run:
  assumes run: "CreateFirstPacketBatch env now rs fec_param s = Inr (rs', s')"
    and refs: "data_refs (heap s) rs" and small: "length rs' \<le> 65535"
  shows "\<exists>f. length rs' = length rs + f \<and> distinct rs' \<and> (\<forall>r\<in>set rs'. r < length (heap s')) \<and>
    (\<forall>k < length rs'. of_batch (batch_id s) (length rs) f (heap s' ! (rs' ! k)) \<and>
       batch_no (heap s' ! (rs' ! k)) = of_nat k \<and>
       vh_group_id (vp_header (heap s' ! (rs' ! k))) = group_id s \<and>
       vh_group_data_num (vp_header (heap s' ! (rs' ! k))) = of_nat (length rs) \<and>
       vh_encode_time (vp_header (heap s' ! (rs' ! k))) \<in>
         insert now ((\<lambda>r. vh_encode_time (vp_header (heap s ! r))) ` set rs) \<and>
       (k < length rs \<longrightarrow> (\<exists>d d'. heap s ! (rs ! k) = VData d \<and> heap s' ! (rs' ! k) = VData d' \<and>
          data_header d' = data_header d)))"
proof -
  have ne: "rs \<noteq> []" using run by (auto simp: CreateFirstPacketBatch_def dest: ns_assert_InrD)
  let ?n = "of_nat (length rs) :: u16"
  obtain fec_num :: u16 where
    fec: "batch_fec_num (sn_fl env) ?n fec_param = Inr fec_num"
    using run ne by (auto simp: CreateFirstPacketBatch_def CreatePacketBatch_def Let_def dest!: res_bind_InrD)
  define b where "b = \<lparr>bi_batch_id = batch_id s, bi_data_num = ?n, bi_fec_num = fec_num,
    bi_group_id = group_id s, bi_group_data_num = ?n, bi_group_fec_num = fec_num\<rparr>"
  obtain front where front: "data_at (heap s) (hd rs) = Inr front"
    using run ne fec by (auto simp: CreateFirstPacketBatch_def CreatePacketBatch_def Let_def dest!: res_bind_InrD)
  obtain h' where nd: "number_data b True rs 0 0 (heap s) = Inr (?n, ?n, h')" "length h' = length (heap s)"
    and h': "\<forall>k < length rs. \<exists>d. heap s ! (rs ! k) = VData d \<and> packet_type d = DATA_PKT \<and>
       h' ! (rs ! k) = VData (numbered b (of_nat k) (of_nat k) d)"
    using number_data_run [OF refs, of b 0 0] by auto
  define ds where "ds = map (\<lambda>k. case h' ! (rs ! k) of VData d \<Rightarrow> d) [0..<length rs]"
  have ds: "res_map (data_at h') rs = Inr ds"
    using h' by (intro res_map_ok) (force simp: ds_def data_at_def)+
  define fecs where "fecs = make_fec b False now (vh_tx_count (video_header front)) ds
    (raw_fec (sn_raw env)) (unat fec_num) ?n ?n"
  have lf: "length fecs = unat fec_num" by (simp add: fecs_def make_fec_nth)
  have "CreatePacketBatch env now rs fec_param True 0 False s =
      Inr (rs @ [length h'..<length h' + length fecs],
           s\<lparr>batch_id := batch_id s + 1, group_id := group_id s + 1, heap := h' @ fecs\<rparr>)"
    using ne fec front nd ds by (simp add: CreatePacketBatch_def Let_def b_def [symmetric] fecs_def)
  then have res: "rs' = rs @ [length h'..<length h' + unat fec_num]" "heap s' = h' @ fecs"
    using run ne by (auto simp: CreateFirstPacketBatch_def lf)
  have n: "length rs + unat fec_num \<le> 65535" using small by (simp add: res(1))
  have un: "unat ?n = length rs" using n by (intro unat_word_of_nat_16) simp
  have bn: "unat (of_nat k :: u16) = k" if "k < length rs + unat fec_num" for k
    using that n by (intro unat_word_of_nat_16) simp
  have dk: "ds ! k = numbered b (of_nat k) (of_nat k) d" if "h' ! (rs ! k) = VData (numbered b (of_nat k) (of_nat k) d)"
    "k < length rs" for k d using that by (simp add: ds_def)
  have digests: "map dg_pkt_id_in_batch (map DataPktDigest_ctor ds) = map of_nat [0..<length rs]"
    "map dg_pkt_id_in_group (map DataPktDigest_ctor ds) = map of_nat [0..<length rs]"
  proof -
    have "dg_pkt_id_in_batch (DataPktDigest_ctor (ds ! k)) = of_nat k \<and>
        dg_pkt_id_in_group (DataPktDigest_ctor (ds ! k)) = of_nat k" if k: "k < length rs" for k
    proof -
      obtain d where "h' ! (rs ! k) = VData (numbered b (of_nat k) (of_nat k) d)" using h' k by blast
      from dk [OF this k] show ?thesis
        by (simp add: DataPktDigest_ctor_def numbered_def SetFECGroup_def SetFECBatch_def)
    qed
    moreover have "length ds = length rs" by (simp add: ds_def)
    ultimately show "map dg_pkt_id_in_batch (map DataPktDigest_ctor ds) = map of_nat [0..<length rs]"
      "map dg_pkt_id_in_group (map DataPktDigest_ctor ds) = map of_nat [0..<length rs]"
      by (auto intro!: nth_equalityI)
  qed
  have each: "of_batch (batch_id s) (length rs) (unat fec_num) (heap s' ! (rs' ! k)) \<and>
      batch_no (heap s' ! (rs' ! k)) = of_nat k \<and>
      vh_group_id (vp_header (heap s' ! (rs' ! k))) = group_id s \<and>
      vh_group_data_num (vp_header (heap s' ! (rs' ! k))) = of_nat (length rs) \<and>
      vh_encode_time (vp_header (heap s' ! (rs' ! k))) \<in>
         insert now ((\<lambda>r. vh_encode_time (vp_header (heap s ! r))) ` set rs) \<and>
      (k < length rs \<longrightarrow> (\<exists>d d'. heap s ! (rs ! k) = VData d \<and> heap s' ! (rs' ! k) = VData d' \<and>
          data_header d' = data_header d))" if k: "k < length rs'" for k
  proof (cases "k < length rs")
    case True
    then obtain d where d: "heap s ! (rs ! k) = VData d" "packet_type d = DATA_PKT"
      "h' ! (rs ! k) = VData (numbered b (of_nat k) (of_nat k) d)" using h' by blast
    have "rs ! k < length h'" using refs True nd(2) by (auto simp: data_refs_def)
    then have "heap s' ! (rs' ! k) = VData (numbered b (of_nat k) (of_nat k) d)"
      using True d(3) by (simp add: res nth_append)
    moreover have "vh_encode_time (video_header d) \<in> (\<lambda>r. vh_encode_time (vp_header (heap s ! r))) ` set rs"
      using True d(1) by (intro image_eqI [of _ _ "rs ! k"]) simp_all
    ultimately show ?thesis using True d un bn [of k]
      by (simp add: of_batch_def Let_def numbered_def SetFECGroup_def SetFECBatch_def b_def)
  next
    case False
    define m where "m = k - length rs"
    have m: "m < unat fec_num" "k = length rs + m" using False k by (simp_all add: m_def res)
    have "rs' ! k = length h' + m" using m by (simp add: res nth_append)
    then have "heap s' ! (rs' ! k) = fecs ! m" by (simp add: res nth_append)
    also have "\<dots> = VFec (SetEncodeTime now (SetFECGroup (bi_group_id b) (bi_group_data_num b) (bi_group_fec_num b)
       (of_nat k) (SetFECBatch (bi_batch_id b) (bi_data_num b) (bi_fec_num b) (of_nat k)
         (FECPacket_ctor (vh_tx_count (video_header front)) ds (raw_fec (sn_raw env))))))"
      using m by (simp add: fecs_def make_fec_nth)
    finally show ?thesis using m un bn [of k] digests
      by (simp add: of_batch_def Let_def SetEncodeTime_def SetFECGroup_def SetFECBatch_def b_def
          FECPacket_ctor_def SetTXCount_def VideoPacket_ctor_def NetworkPacket_ctor_def)
  qed
  have dist: "distinct rs'" using refs nd(2) by (auto simp: res data_refs_def)
  have inh: "\<forall>r\<in>set rs'. r < length (heap s')" using refs nd(2) by (auto simp: res lf data_refs_def)
  have "length rs' = length rs + unat fec_num" by (simp add: res)
  then show ?thesis using each dist inh by (intro exI [of _ "unat fec_num"]) simp
qed


section \<open>Over the network\<close>

text \<open>The packet \<open>q\<close> that the receiver sees when \<open>p\<close> has been sent.\<close>

definition arrives :: "'p ns3 \<Rightarrow> rounding \<Rightarrow> raw_objects \<Rightarrow> vpacket \<Rightarrow> vpacket \<Rightarrow> bool" where
  "arrives k f raws p q \<longleftrightarrow> (\<exists>pkt np t. ToNetPacket k f (vp_net p) = Inr pkt \<and>
     ToInstance k f raws pkt = Inr (Some np) \<and> video_packet_of t np = Some q)"

lemma arrives_of_batch:
  assumes k: "ns3_ok k" and p: "of_batch bid n f p" "n \<le> 65535"
    and t: "0 \<le> vh_encode_time (vp_header p)" "vh_encode_time (vp_header p) < 2 ^ 63"
    and a: "arrives k fl raws p q"
  shows "of_batch bid n f q \<and> batch_no q = batch_no p \<and>
    vh_group_id (vp_header q) = vh_group_id (vp_header p) \<and>
    vh_group_data_num (vp_header q) = vh_group_data_num (vp_header p)"
proof (cases p)
  case (VData d)
  have "packet_ok k fl (DataP d)"
    using p t k VData by (simp add: of_batch_def Let_def video_ok_def)
  from data_roundtrip [OF k this, of raws] obtain pkt where
    "DataPacket_ToNetPacket k d = Inr pkt" "ToInstance k fl raws pkt = Inr (Some (received fl raws (DataP d)))"
    by blast
  then show ?thesis
    using a p VData
    by (auto simp: arrives_def of_batch_def Let_def video_view_def VideoPacket_ctor_def NetworkPacket_ctor_def)
next
  case (VFec x)
  have "map dg_pkt_id_in_batch (fec_header x) = map of_nat [0..<n]"
    using p(1) VFec by (simp add: of_batch_def Let_def)
  from arg_cong [OF this, of length] have "length (fec_header x) = n" by simp
  then have "packet_ok k fl (FECP x)"
    using p t k VFec by (simp add: of_batch_def Let_def video_ok_def fec_ok_def)
  from fec_roundtrip [OF k this, of raws] obtain pkt where
    "FECPacket_ToNetPacket k x = Inr pkt" "ToInstance k fl raws pkt = Inr (Some (received fl raws (FECP x)))"
    by blast
  then show ?thesis
    using a p VFec
    by (auto simp: arrives_def of_batch_def Let_def video_view_def VideoPacket_ctor_def NetworkPacket_ctor_def)
qed

lemma arrives_exists:
  assumes k: "ns3_ok k" and p: "of_batch bid n f p" "n \<le> 65535"
    and t: "0 \<le> vh_encode_time (vp_header p)" "vh_encode_time (vp_header p) < 2 ^ 63"
  shows "\<exists>q. arrives k fl raws p q"
proof (cases p)
  case (VData d)
  have "packet_ok k fl (DataP d)"
    using p t k VData by (simp add: of_batch_def Let_def video_ok_def)
  from data_roundtrip [OF k this, of raws] obtain pkt where
    "DataPacket_ToNetPacket k d = Inr pkt" "ToInstance k fl raws pkt = Inr (Some (received fl raws (DataP d)))"
    by blast
  then show ?thesis using VData by (force simp: arrives_def)
next
  case (VFec x)
  have "map dg_pkt_id_in_batch (fec_header x) = map of_nat [0..<n]"
    using p(1) VFec by (simp add: of_batch_def Let_def)
  from arg_cong [OF this, of length] have "length (fec_header x) = n" by simp
  then have "packet_ok k fl (FECP x)"
    using p t k VFec by (simp add: of_batch_def Let_def video_ok_def fec_ok_def)
  from fec_roundtrip [OF k this, of raws] obtain pkt where
    "FECPacket_ToNetPacket k x = Inr pkt" "ToInstance k fl raws pkt = Inr (Some (received fl raws (FECP x)))"
    by blast
  then show ?thesis using VFec by (force simp: arrives_def)
qed

text \<open>C19: forward error correction end to end. Of the packets the sender makes of a new group of \<open>n\<close> data
  packets, let any that are at least \<open>n\<close> arrive over the network, each once, in any order and delay.
  Then the receiver's group never fails, hands each of the \<open>n\<close> data packets to the decoder exactly once, and is
  complete.\<close>

theorem fec_group_delivered:
  assumes k: "ns3_ok k" and pick: "pick_ok pick"
    and sent: "CreateFirstPacketBatch env now rs fec_param s = Inr (rs', s')" "data_refs (heap s) rs"
      "length rs' \<le> 65535"
    and times: "\<forall>t \<in> insert now ((\<lambda>r. vh_encode_time (vp_header (heap s ! r))) ` set rs). 0 \<le> t \<and> t < 2 ^ 63"
    and got: "distinct is" "set is \<subseteq> set rs'" "length rs \<le> length is"
      "list_all2 (\<lambda>r. arrives k fl raws (heap s' ! r)) is ps"
  shows "\<exists>out g. receive_group pick raw t ps (PacketGroup_ctor (vh_group_id (vp_header (hd ps)))
        (vh_group_data_num (vp_header (hd ps))) enc rawg) = Inr (out, g) \<and>
      PacketGroup_CheckComplete g \<and> distinct (group_nos out) \<and> set (group_nos out) = of_nat ` {0..<length rs}"
proof -
  let ?n = "length rs"
  obtain f where f: "length rs' = ?n + f" "distinct rs'"
    and each: "\<forall>k < length rs'. of_batch (batch_id s) ?n f (heap s' ! (rs' ! k)) \<and>
       batch_no (heap s' ! (rs' ! k)) = of_nat k \<and>
       vh_group_id (vp_header (heap s' ! (rs' ! k))) = group_id s \<and>
       vh_group_data_num (vp_header (heap s' ! (rs' ! k))) = of_nat ?n \<and>
       vh_encode_time (vp_header (heap s' ! (rs' ! k))) \<in>
         insert now ((\<lambda>r. vh_encode_time (vp_header (heap s ! r))) ` set rs)"
    using first_batch_run [OF sent] by blast
  have n: "0 < ?n" "?n \<le> 65535"
    using sent f(1) by (auto simp: CreateFirstPacketBatch_def dest: ns_assert_InrD)
  have len: "length ps = length is" using got(4) by (simp add: list_all2_lengthD)
  have arr: "of_batch (batch_id s) ?n f (ps ! i) \<and> batch_no (ps ! i) = batch_no (heap s' ! (is ! i)) \<and>
      vh_group_id (vp_header (ps ! i)) = group_id s \<and> vh_group_data_num (vp_header (ps ! i)) = of_nat ?n"
    if i: "i < length is" for i
  proof -
    have "is ! i \<in> set rs'" using i got(2) by auto
    then obtain j where j: "j < length rs'" "rs' ! j = is ! i" by (auto simp: in_set_conv_nth)
    have t: "0 \<le> vh_encode_time (vp_header (heap s' ! (is ! i)))" "vh_encode_time (vp_header (heap s' ! (is ! i))) < 2 ^ 63"
      using each j times by auto
    have "arrives k fl raws (heap s' ! (is ! i)) (ps ! i)" using list_all2_nthD [OF got(4) i] .
    from arrives_of_batch [OF k _ n(2) t this] each j show ?thesis by auto
  qed
  have nos: "distinct (map batch_no ps)"
  proof -
    have inj: "x = y" if xy: "x \<in> set rs'" "y \<in> set rs'" "batch_no (heap s' ! x) = batch_no (heap s' ! y)" for x y
    proof -
      obtain a b where ab: "a < length rs'" "rs' ! a = x" "b < length rs'" "rs' ! b = y"
        using xy(1,2) by (auto simp: in_set_conv_nth)
      then have "(of_nat a :: u16) = of_nat b" using each xy(3) by auto
      then have "unat (of_nat a :: u16) = unat (of_nat b :: u16)" by simp
      then have "a = b" using ab sent(3) by (simp add: unat_word_of_nat_16)
      then show ?thesis using ab by simp
    qed
    have "map batch_no ps = map (\<lambda>r. batch_no (heap s' ! r)) is"
      using arr len by (intro nth_equalityI) simp_all
    moreover have "inj_on (\<lambda>r. batch_no (heap s' ! r)) (set is)"
      using inj got(2) by (intro inj_onI) blast
    ultimately show ?thesis using got(1) by (simp add: distinct_map)
  qed
  have ob: "\<forall>p\<in>set ps. of_batch (batch_id s) ?n f p" using arr len by (auto simp: in_set_conv_nth)
  have ne: "ps \<noteq> []" "0 < length is" using len got(3) n(1) by auto
  then have hd: "vh_group_id (vp_header (hd ps)) = group_id s" "vh_group_data_num (vp_header (hd ps)) = of_nat ?n"
    using arr [OF ne(2)] by (simp_all add: hd_conv_nth)
  let ?g = "PacketGroup_ctor (group_id s) (of_nat ?n) enc rawg"
  have "group_at (batch_id s) ?n {} {} ?g"
    using n by (simp add: group_at_def PacketGroup_ctor_def unat_word_of_nat_16)
  from receive_enough [OF this ob n(2) pick n(1) nos, of raw t] got(3) len n obtain out g' where
    r: "receive_group pick raw t ps ?g = Inr (out, g')" "group_done (batch_id s) ?n g'"
      "distinct (group_nos out)" "set (group_nos out) = batch_ids ?n" by auto
  have "PacketGroup_CheckComplete g'" using group_done_complete [OF r(2)] n(2) by simp
  moreover have "batch_ids ?n = of_nat ` {0..<?n}" using batch_ids_nat [of ?n] n(2) by simp
  ultimately show ?thesis using r unfolding hd by auto
qed

text \<open>A frame of two data packets, of which the second is lost: it is recovered from the FEC packet.\<close>

definition example_stream :: "vpacket list" where
  "example_stream = [VData (example_data\<lparr>packet_type := DATA_PKT\<rparr>), VData (example_data\<lparr>packet_type := DATA_PKT\<rparr>)]"

lemma example_fec_num:
  "to_word (of_int (round_away (id (of_int (uint (of_nat (length [0::nat, 1])  :: u16)) * (1 / 2))))) = Inr (1 :: u16)"
proof -
  have "\<lfloor>3 / 2 :: rat\<rfloor> = 1" by (simp add: floor_eq_iff)
  then show ?thesis by (simp add: round_away_def to_word_def trunc_def)
qed

lemma example_stream_batch:
  "\<exists>s'. CreateFirstPacketBatch (env\<lparr>sn_fl := id\<rparr>) 0 [0, 1] \<lparr>fec_group_size = 2, fec_rate = Some (1 / 2)\<rparr>
     (s\<lparr>heap := example_stream, batch_id := 3, group_id := 7\<rparr>) = Inr ([0, 1, 2], s')"
  using example_fec_num
  by (simp add: CreateFirstPacketBatch_def CreatePacketBatch_def Let_def example_stream_def ns_assert_def
      data_at_def SetFECBatch_def SetFECGroup_def example_data_def make_fec_nth(1) batch_fec_num_def)

theorem fec_group_delivered_witness:
  "\<forall>env s raw rawg. \<exists>s' ps out g.
     CreateFirstPacketBatch (env\<lparr>sn_fl := id\<rparr>) 0 [0, 1] \<lparr>fec_group_size = 2, fec_rate = Some (1 / 2)\<rparr>
       (s\<lparr>heap := example_stream, batch_id := 3, group_id := 7\<rparr>) = Inr ([0, 1, 2], s') \<and>
     list_all2 (\<lambda>r. arrives plain_ns3 id example_raw (heap s' ! r)) [2, 0] ps \<and>
     receive_group hd raw 0 ps (PacketGroup_ctor (vh_group_id (vp_header (hd ps)))
        (vh_group_data_num (vp_header (hd ps))) 0 rawg) = Inr (out, g) \<and>
     distinct (group_nos out) \<and> set (group_nos out) = {0, 1}"
proof (intro allI)
  fix env :: "('a, 'b) sender_env" and s :: "('a, 'b) sender" and raw rawg
  let ?s = "s\<lparr>heap := example_stream, batch_id := 3, group_id := 7\<rparr>"
  let ?env = "env\<lparr>sn_fl := id\<rparr>" and ?fp = "\<lparr>fec_group_size = 2, fec_rate = Some (1 / 2)\<rparr>"
  obtain s' where run: "CreateFirstPacketBatch ?env 0 [0, 1] ?fp ?s = Inr ([0, 1, 2], s')"
    using example_stream_batch by blast
  have refs: "data_refs (heap ?s) [0, 1]"
    by (simp add: data_refs_def example_stream_def nth_Cons')
  have times: "\<forall>t\<in>insert 0 ((\<lambda>r. vh_encode_time (vp_header (heap ?s ! r))) ` set [0, 1]). 0 \<le> t \<and> t < 2 ^ 63"
    by (simp add: example_stream_def example_data_def example_video_def time_defs nth_Cons')
  obtain f where f: "\<forall>k < length [0, 1, 2]. of_batch (batch_id ?s) (length [0, 1]) f (heap s' ! ([0, 1, 2] ! k)) \<and>
      vh_encode_time (vp_header (heap s' ! ([0, 1, 2] ! k))) \<in>
        insert 0 ((\<lambda>r. vh_encode_time (vp_header (heap ?s ! r))) ` set [0, 1])"
    using first_batch_run [OF run refs] by auto
  have "\<exists>q. arrives plain_ns3 id example_raw (heap s' ! r) q" if "r \<in> {0, 2}" for r
  proof -
    have "of_batch 3 2 f (heap s' ! r)" "vh_encode_time (vp_header (heap s' ! r)) \<in>
        insert 0 ((\<lambda>r. vh_encode_time (vp_header (heap ?s ! r))) ` set [0, 1])"
      using f [rule_format, of r] that by (auto simp: numeral_2_eq_2)
    with times show ?thesis by (intro arrives_exists [OF plain_ns3_ok]) auto
  qed
  then obtain p q where "arrives plain_ns3 id example_raw (heap s' ! 2) p"
    "arrives plain_ns3 id example_raw (heap s' ! 0) q" by (metis insertCI)
  then have ps: "list_all2 (\<lambda>r. arrives plain_ns3 id example_raw (heap s' ! r)) [2, 0] [p, q]" by simp
  have pick: "pick_ok hd" by (simp add: pick_ok_def)
  from fec_group_delivered [OF plain_ns3_ok pick run refs _ times _ _ _ ps, where raw = raw and t = 0 and
      enc = 0 and rawg = rawg] run ps
  show "\<exists>s' ps out g. CreateFirstPacketBatch ?env 0 [0, 1] ?fp ?s = Inr ([0, 1, 2], s') \<and>
     list_all2 (\<lambda>r. arrives plain_ns3 id example_raw (heap s' ! r)) [2, 0] ps \<and>
     receive_group hd raw 0 ps (PacketGroup_ctor (vh_group_id (vp_header (hd ps)))
        (vh_group_data_num (vp_header (hd ps))) 0 rawg) = Inr (out, g) \<and>
     distinct (group_nos out) \<and> set (group_nos out) = {0, 1}"
    by (fastforce simp: atLeast0_lessThan_Suc numeral_2_eq_2)
qed

end
