(* ===== verification/Sender_Window.thy ===== *)
theory Sender_Window
  imports Sender_Udp
begin

text \<open>
  What holds of the UDP sender: cutting a frame into packets ends and loses no byte, the two
  windows of sent packets agree with the history and their counters are exact, acknowledged and late packets
  are forgotten, and without a congestion controller no frame can be sent.
\<close>

section \<open>Cutting a frame\<close>

lemma frame_chunks_run:
  assumes "0 < payload" "unat sz + unat payload < 2 ^ 32" "unat p \<le> unat sz + unat payload"
    "n = (unat sz - unat p + unat payload - 1) div unat payload"
  shows "\<exists>l. frame_chunks payload sz p = Some l \<and> sum_list (map unat l) = unat sz - unat p \<and>
    (\<forall>c\<in>set l. 0 < c \<and> c \<le> payload) \<and> length l = n"
  using assms
proof (induction n arbitrary: p)
  case 0
  have pos: "0 < unat payload" using 0(1) by (simp add: word_greater_zero_iff unat_eq_0 flip: neq0_conv)
  have "\<not> p < sz"
  proof
    assume "p < sz"
    then have "unat payload \<le> unat sz - unat p + unat payload - 1" by (simp add: word_less_nat_alt)
    then have "1 \<le> (unat sz - unat p + unat payload - 1) div unat payload"
      using pos by (simp add: Suc_le_eq div_greater_zero_iff)
    with 0(4) show False by simp
  qed
  then show ?case by (subst frame_chunks.simps) (simp add: word_less_nat_alt)
next
  case (Suc n)
  have pos: "0 < unat payload" using Suc(2) by (simp add: word_greater_zero_iff unat_eq_0 flip: neq0_conv)
  have lt: "p < sz"
  proof (rule ccontr)
    assume "\<not> p < sz"
    then have "unat sz - unat p = 0" by (simp add: word_less_nat_alt)
    then show False using Suc(5) pos by simp
  qed
  then have ltn: "unat p < unat sz" by (simp add: word_less_nat_alt)
  have un: "unat (p + payload) = unat p + unat payload"
    using Suc(3) ltn by (simp add: unat_word_ariths)
  have n: "n = (unat sz - unat (p + payload) + unat payload - 1) div unat payload"
  proof (cases "unat payload \<le> unat sz - unat p")
    case True
    then have "unat sz - unat p + unat payload - 1 =
        (unat sz - unat (p + payload) + unat payload - 1) + unat payload"
      using un pos by simp
    then have "Suc n = (unat sz - unat (p + payload) + unat payload - 1) div unat payload + 1"
      using Suc(5) pos by (simp only: div_add_self2 neq0_conv)
    then show ?thesis by simp
  next
    case False
    then have "(unat sz - unat p + unat payload - 1) div unat payload = 1"
      using ltn pos by (intro div_nat_eqI) auto
    moreover have "(unat sz - unat (p + payload) + unat payload - 1) div unat payload = 0"
      using False un pos by simp
    ultimately show ?thesis using Suc(5) by simp
  qed
  obtain l where l: "frame_chunks payload sz (p + payload) = Some l"
      "sum_list (map unat l) = unat sz - unat (p + payload)" "\<forall>c\<in>set l. 0 < c \<and> c \<le> payload" "length l = n"
    using Suc(1) [OF Suc(2,3) _ n] un ltn by auto
  let ?c = "min payload (sz - p)"
  have d: "unat (sz - p) = unat sz - unat p" using lt by (intro unat_sub) simp
  have c: "unat ?c = min (unat payload) (unat sz - unat p)"
    by (auto simp: min_def d word_le_nat_alt)
  have "frame_chunks payload sz p = Some (?c # l)"
    using lt l(1) by (subst frame_chunks.simps) simp
  moreover have "sum_list (map unat (?c # l)) = unat sz - unat p"
    unfolding list.map sum_list.Cons c l(2) un using ltn by (auto simp: min_def)
  moreover have "0 < ?c" "?c \<le> payload"
    using c pos ltn by (auto simp: word_less_nat_alt word_le_nat_alt)
  ultimately show ?case using l(3,4) by (intro exI [of _ "?c # l"]) auto
qed

lemma frame_chunks_stuck:
  assumes "frame_chunks payload sz p = Some l"
  shows "payload = 0 \<longrightarrow> \<not> p < sz"
  by (rule frame_chunks.raw_induct [OF _ assms, where P = "\<lambda>a b c d. a = 0 \<longrightarrow> \<not> c < b"])
    (force split: if_splits bind_splits)

text \<open>C21: cutting a frame of \<open>sz\<close> bytes ends, if a packet can carry a byte at all and the pointer into the frame does
  not overflow: it gives \<open>sz / payload\<close> packets, rounded up, none empty, none larger than the payload,
  \<open>sz\<close> bytes together. With a payload of 0 the loop of \<open>CreateFrame\<close> never ends, unless the frame is
  empty.\<close>

theorem frame_cut:
  assumes "payload \<noteq> 0 \<Longrightarrow> unat sz + unat payload < 2 ^ 32"
  shows "case frame_chunks payload sz 0 of
      Some l \<Rightarrow> sum_list (map unat l) = unat sz \<and> (\<forall>c\<in>set l. 0 < c \<and> c \<le> payload) \<and>
        (payload \<noteq> 0 \<longrightarrow> length l = (unat sz + unat payload - 1) div unat payload)
    | None \<Rightarrow> payload = 0 \<and> sz \<noteq> 0"
proof (cases "payload = 0")
  case True
  then show ?thesis
    using frame_chunks_stuck [of payload sz 0]
    by (cases "sz = 0"; cases "frame_chunks payload sz 0")
      (auto simp: word_greater_zero_iff frame_chunks.simps [of 0 0 0])
next
  case False
  then have "0 < payload" by (simp add: word_greater_zero_iff)
  from frame_chunks_run [OF this assms [OF False], of 0] show ?thesis using False by auto
qed

theorem frame_cut_witness:
  "unat (5000 :: u32) + unat (1404 :: u32) < 2 ^ 32 \<and> (\<exists>l. frame_chunks 1404 5000 0 = Some l \<and> length l = 4)"
  using frame_cut [of 1404 5000] by (auto split: option.splits)

section \<open>The windows of sent packets\<close>

text \<open>The \<open>n\<close> identifiers before \<open>c\<close>, oldest first.\<close>

primrec last_ids :: "nat \<Rightarrow> u16 \<Rightarrow> u16 list" where
  "last_ids 0 c = []"
| "last_ids (Suc n) c = (c - of_nat (Suc n)) # last_ids n c"

lemma last_ids_snoc: "last_ids (Suc n) (c + 1) = last_ids n c @ [c]"
  by (induction n) simp_all

lemma length_last_ids [simp]: "length (last_ids n c) = n"
  by (induction n) simp_all

lemma back_unat: "0 < k \<Longrightarrow> k < 65536 \<Longrightarrow> unat (c - (c - of_nat k) :: u16) = k"
  by (simp add: unat_word_of_nat_16)

lemma set_last_ids: "n < 65536 \<Longrightarrow> set (last_ids n c) = {i. 0 < unat (c - i) \<and> unat (c - i) \<le> n}"
proof (induction n)
  case (Suc n)
  have "i = c - of_nat (Suc n)" if "unat (c - i) = Suc n" for i :: u16
  proof -
    have "c - i = of_nat (Suc n)" using that by (metis of_nat_unat ucast_id)
    then have "c = of_nat (Suc n) + i" by (simp only: diff_eq_eq)
    then show ?thesis by (simp only: add_diff_cancel_left')
  qed
  then show ?case
    using Suc back_unat [of "Suc n" c] by (auto simp: le_Suc_eq simp del: of_nat_Suc)
qed (auto simp: unat_eq_0)

lemma last_ids_fresh: "n < 65536 \<Longrightarrow> c \<notin> set (last_ids n c)"
  by (simp add: set_last_ids)

lemma distinct_last_ids: "n < 65536 \<Longrightarrow> distinct (last_ids n c)"
proof (induction n)
  case (Suc n)
  have "c - of_nat (Suc n) \<notin> set (last_ids n c)"
  proof -
    have "unat (c - (c - of_nat (Suc n))) = Suc n" using Suc.prems by (intro back_unat) simp_all
    then show ?thesis using Suc.prems by (simp add: set_last_ids del: of_nat_Suc)
  qed
  then show ?case using Suc by simp
qed simp

text \<open>The bytes of a window, and the bytes of it that count as goodput.\<close>

definition window_bytes :: "(u16 \<times> SentPacketInfo) list \<Rightarrow> u16 list \<Rightarrow> nat" where
  "window_bytes hist is = sum_list (map (\<lambda>i. unat (si_pkt_size (the (map_of hist i)))) is)"

definition goodput_bytes :: "(u16 \<times> SentPacketInfo) list \<Rightarrow> u16 list \<Rightarrow> nat" where
  "goodput_bytes hist is = window_bytes hist (filter (\<lambda>i. si_goodput (the (map_of hist i))) is)"

lemma window_bytes_simps [simp]:
  "window_bytes hist [] = 0"
  "window_bytes hist (i # is) = unat (si_pkt_size (the (map_of hist i))) + window_bytes hist is"
  "window_bytes hist (is @ js) = window_bytes hist is + window_bytes hist js"
  by (simp_all add: window_bytes_def)

lemma goodput_bytes_simps [simp]:
  "goodput_bytes hist [] = 0"
  "goodput_bytes hist (i # is) = (if si_goodput (the (map_of hist i))
     then unat (si_pkt_size (the (map_of hist i))) else 0) + goodput_bytes hist is"
  "goodput_bytes hist (is @ js) = goodput_bytes hist is + goodput_bytes hist js"
  by (simp_all add: goodput_bytes_def)

lemma goodput_le: "goodput_bytes hist is \<le> window_bytes hist is"
  by (induction "is") auto

lemma window_bytes_le: "window_bytes hist is \<le> 65535 * length is"
proof (induction "is")
  case (Cons i "is")
  have "unat (si_pkt_size (the (map_of hist i))) \<le> 65535" using unat_lt(2) by (simp add: less_Suc_eq_le [symmetric])
  then show ?case using Cons by simp
qed simp

lemma window_bytes_cong:
  "\<forall>i\<in>set is. map_of hist i = map_of hist' i \<Longrightarrow> window_bytes hist is = window_bytes hist' is"
  "\<forall>i\<in>set is. map_of hist i = map_of hist' i \<Longrightarrow> goodput_bytes hist is = goodput_bytes hist' is"
  by (induction "is") auto

definition wnd_inv :: "('p, 'c) sender \<Rightarrow> bool" where
  "wnd_inv s \<longleftrightarrow> (\<exists>n m. m \<le> n \<and> n \<le> unat (m_send_wnd_size s) \<and> unat (m_send_wnd_size s) < 65535 \<and>
     m_send_wnd s = last_ids n (IPIDCounter s) \<and> m_goodput_wnd s = last_ids m (IPIDCounter s) \<and>
     distinct (map fst (pktsHistory s)) \<and> fst ` set (pktsHistory s) = set (m_send_wnd s) \<and>
     unat (total_pkts_inwnd s) = window_bytes (pktsHistory s) (m_goodput_wnd s) \<and>
     unat (goodput_pkts_inwnd s) = goodput_bytes (pktsHistory s) (m_goodput_wnd s))"

text \<open>What leaves the goodput window is a prefix.\<close>

lemma trim_goodput_run:
  assumes "set (last_ids m c) \<subseteq> fst ` set hist" "unat tot = window_bytes hist (last_ids m c)"
    "unat good = goodput_bytes hist (last_ids m c)"
  shows "\<exists>m' good' tot'. trim_goodput hist limit (last_ids m c) good tot = Inr (last_ids m' c, good', tot') \<and>
    m' \<le> m \<and> unat tot' = window_bytes hist (last_ids m' c) \<and> unat good' = goodput_bytes hist (last_ids m' c)"
  using assms
proof (induction m arbitrary: good tot)
  case 0
  then show ?case by (intro exI [of _ 0]) (simp add: unat_eq_0)
next
  case (Suc m)
  let ?i = "c - of_nat (Suc m)"
  obtain info where info: "map_of hist ?i = Some info"
    using Suc.prems(1) by (cases "map_of hist ?i") (auto simp: map_of_eq_None_iff simp del: of_nat_Suc)
  show ?case
  proof (cases "word_of_int (GetMicroSeconds (si_send_time info)) < limit")
    case True
    have z: "unat (ucast (si_pkt_size info) :: u64) = unat (si_pkt_size info)"
      by simp
    let ?good = "if si_goodput info then good - ucast (si_pkt_size info) else good"
    have t: "unat (tot - ucast (si_pkt_size info)) = window_bytes hist (last_ids m c)"
      using Suc.prems(2) info z by (simp add: unat_sub_if' del: of_nat_Suc)
    have g: "unat ?good = goodput_bytes hist (last_ids m c)"
      using Suc.prems(3) info z by (simp add: unat_sub_if' del: of_nat_Suc split: if_splits)
    from Suc.IH [OF _ t g] Suc.prems(1) obtain m' good' tot' where
      "trim_goodput hist limit (last_ids m c) ?good (tot - ucast (si_pkt_size info)) =
        Inr (last_ids m' c, good', tot')" "m' \<le> m"
      "unat tot' = window_bytes hist (last_ids m' c)" "unat good' = goodput_bytes hist (last_ids m' c)"
      by (auto simp del: of_nat_Suc)
    then show ?thesis using info True
      by (intro exI [of _ m'] exI [of _ good'] exI [of _ tot']) (simp del: of_nat_Suc)
  next
    case False
    then show ?thesis using info Suc.prems(2,3)
      by (intro exI [of _ "Suc m"] exI [of _ good] exI [of _ tot]) (simp del: of_nat_Suc)
  qed
qed

lemma keys_delete: "fst ` set (AList.delete k m) = fst ` set m - {k}"
  by (auto simp: AList.delete_eq)

lemma trim_history_run:
  assumes "n < 65536" "set (last_ids n c) = fst ` set hist" "distinct (map fst hist)"
  shows "\<exists>hist'. trim_history z (last_ids n c) hist = Inr (last_ids (min n z) c, hist') \<and>
    distinct (map fst hist') \<and> fst ` set hist' = set (last_ids (min n z) c) \<and>
    (\<forall>i\<in>set (last_ids (min n z) c). map_of hist' i = map_of hist i)"
  using assms
proof (induction n arbitrary: hist)
  case (Suc n)
  let ?i = "c - of_nat (Suc n)"
  show ?case
  proof (cases "Suc n > z")
    case True
    have d: "distinct (last_ids (Suc n) c)" using distinct_last_ids [OF Suc.prems(1)] .
    then have new: "?i \<notin> set (last_ids n c)" by (simp del: of_nat_Suc)
    have "map_of hist ?i \<noteq> None" using Suc.prems(2) by (auto simp: map_of_eq_None_iff simp del: of_nat_Suc)
    moreover have "set (last_ids n c) = fst ` set (AList.delete ?i hist)"
      using Suc.prems(2) new by (simp add: keys_delete insert_Diff_if flip: Suc.prems(2) del: of_nat_Suc)
    moreover have "distinct (map fst (AList.delete ?i hist))"
      using Suc.prems(3) by (rule distinct_delete)
    ultimately obtain hist' where h': "trim_history z (last_ids n c) (AList.delete ?i hist) =
        Inr (last_ids (min n z) c, hist')" "distinct (map fst hist')" "fst ` set hist' = set (last_ids (min n z) c)"
        "\<forall>i\<in>set (last_ids (min n z) c). map_of hist' i = map_of (AList.delete ?i hist) i"
      using Suc.IH [of "AList.delete ?i hist"] Suc.prems(1) by auto
    have "min n z = min (Suc n) z" using True by simp
    moreover have "set (last_ids (min n z) c) \<subseteq> set (last_ids n c)"
      using Suc.prems(1) by (auto simp: set_last_ids)
    ultimately show ?thesis using h' new True \<open>map_of hist ?i \<noteq> None\<close>
      by (intro exI [of _ hist']) (auto simp: ns_assert_def delete_conv' simp del: of_nat_Suc)
  next
    case False
    then have "min (Suc n) z = Suc n" by simp
    then show ?thesis using Suc.prems False by (intro exI [of _ hist]) (simp del: of_nat_Suc)
  qed
qed simp

lemma log_sent_run:
  assumes inv: "wnd_inv s" and info: "si_pkt_id info = IPIDCounter s"
  shows "\<exists>s'. log_sent NowUs info s = Inr s' \<and> IPIDCounter s' = IPIDCounter s \<and>
    m_send_wnd_size s' = m_send_wnd_size s \<and>
    (length (m_goodput_wnd s') \<le> unat (m_send_wnd_size s) \<longrightarrow>
      wnd_inv (s'\<lparr>IPIDCounter := IPIDCounter s + 1\<rparr>))"
proof -
  let ?c = "IPIDCounter s" and ?z = "unat (m_send_wnd_size s)"
  let ?hist = "AList.update (si_pkt_id info) info (pktsHistory s)"
  obtain n m where nm: "m \<le> n" "n \<le> ?z" "?z < 65535" "m_send_wnd s = last_ids n ?c"
    "m_goodput_wnd s = last_ids m ?c" "distinct (map fst (pktsHistory s))"
    "fst ` set (pktsHistory s) = set (last_ids n ?c)"
    "unat (total_pkts_inwnd s) = window_bytes (pktsHistory s) (last_ids m ?c)"
    "unat (goodput_pkts_inwnd s) = goodput_bytes (pktsHistory s) (last_ids m ?c)"
    using inv by (auto simp: wnd_inv_def)
  have sub: "set (last_ids m ?c) \<subseteq> set (last_ids n ?c)" using nm(1-3) by (auto simp: set_last_ids)
  have old: "map_of ?hist i = map_of (pktsHistory s) i" if "i \<in> set (last_ids n ?c)" for i
    using that last_ids_fresh [of n ?c] nm(2,3) info by (auto simp: update_conv')
  have new: "map_of ?hist ?c = Some info" using info by (simp add: update_conv')
  have keys: "fst ` set ?hist = set (last_ids (Suc n) (?c + 1))"
    unfolding last_ids_snoc using nm(7) info by (simp add: dom_update)
  have z: "unat (ucast (si_pkt_size info) :: u64) = unat (si_pkt_size info)" by simp
  have small: "window_bytes (pktsHistory s) (last_ids m ?c) \<le> 65535 * 65535"
    using window_bytes_le [of "pktsHistory s" "last_ids m ?c"] nm(1-3) by simp
  have sz: "unat (si_pkt_size info) < 65536" by (rule unat_lt)
  let ?good = "if si_goodput info then goodput_pkts_inwnd s + ucast (si_pkt_size info) else goodput_pkts_inwnd s"
  have tot: "unat (total_pkts_inwnd s + ucast (si_pkt_size info)) =
      window_bytes ?hist (last_ids (Suc m) (?c + 1))"
    unfolding last_ids_snoc
    using nm(8) small sz z new window_bytes_cong(1) [of "last_ids m ?c" ?hist "pktsHistory s"] old sub
    by (simp add: unat_word_ariths(1) subset_iff)
  have good: "unat ?good = goodput_bytes ?hist (last_ids (Suc m) (?c + 1))"
    unfolding last_ids_snoc
    using nm(9) small sz z new goodput_le [of "pktsHistory s" "last_ids m ?c"]
      window_bytes_cong(2) [of "last_ids m ?c" ?hist "pktsHistory s"] old sub
    by (simp add: unat_word_ariths(1) subset_iff)
  have "set (last_ids (Suc m) (?c + 1)) \<subseteq> fst ` set ?hist"
    unfolding keys last_ids_snoc using sub by auto
  from trim_goodput_run [OF this tot good] obtain m' good' tot' where
    g: "trim_goodput ?hist (NowUs - ucast (m_goodput_wnd_size s)) (last_ids (Suc m) (?c + 1)) ?good
        (total_pkts_inwnd s + ucast (si_pkt_size info)) = Inr (last_ids m' (?c + 1), good', tot')"
      "m' \<le> Suc m" "unat tot' = window_bytes ?hist (last_ids m' (?c + 1))"
      "unat good' = goodput_bytes ?hist (last_ids m' (?c + 1))" by blast
  have "Suc n < 65536" using nm by simp
  from trim_history_run [OF this keys [symmetric] distinct_update [OF nm(6)], of ?z] obtain hist' where
    h: "trim_history ?z (last_ids (Suc n) (?c + 1)) ?hist = Inr (last_ids (min (Suc n) ?z) (?c + 1), hist')"
      "distinct (map fst hist')" "fst ` set hist' = set (last_ids (min (Suc n) ?z) (?c + 1))"
      "\<forall>i\<in>set (last_ids (min (Suc n) ?z) (?c + 1)). map_of hist' i = map_of ?hist i" by blast
  let ?s = "s\<lparr>pktsHistory := hist', m_send_wnd := last_ids (min (Suc n) ?z) (?c + 1),
    m_goodput_wnd := last_ids m' (?c + 1), goodput_pkts_inwnd := good', total_pkts_inwnd := tot'\<rparr>"
  have run: "log_sent NowUs info s = Inr ?s"
    using g(1) h(1) nm(4,5) info by (simp add: log_sent_def Let_def last_ids_snoc [symmetric])
  have "wnd_inv (?s\<lparr>IPIDCounter := ?c + 1\<rparr>)" if "m' \<le> ?z"
  proof -
    have le: "m' \<le> min (Suc n) ?z" using that g(2) nm(1) by simp
    then have "set (last_ids m' (?c + 1)) \<subseteq> set (last_ids (min (Suc n) ?z) (?c + 1))"
      using nm by (auto simp: set_last_ids)
    then have agree: "\<forall>i\<in>set (last_ids m' (?c + 1)). map_of hist' i = map_of ?hist i" using h(4) by blast
    show ?thesis
      unfolding wnd_inv_def using le g(3,4) h(2,3) nm(3) window_bytes_cong [OF agree]
      by (intro exI [of _ "min (Suc n) ?z"] exI [of _ m']) simp
  qed
  with run show ?thesis by (intro exI [of _ ?s]) simp
qed

text \<open>The rest of \<open>SendPacket\<close> leaves the windows alone.\<close>

lemma wnd_inv_cong:
  assumes "m_send_wnd_size s' = m_send_wnd_size s" "m_send_wnd s' = m_send_wnd s"
    "IPIDCounter s' = IPIDCounter s" "m_goodput_wnd s' = m_goodput_wnd s" "pktsHistory s' = pktsHistory s"
    "total_pkts_inwnd s' = total_pkts_inwnd s" "goodput_pkts_inwnd s' = goodput_pkts_inwnd s"
  shows "wnd_inv s' \<longleftrightarrow> wnd_inv s"
  unfolding wnd_inv_def assms by (rule refl)

lemma tell_sent_fields: "tell_sent env t z s = Inr s' \<Longrightarrow> s' = s\<lparr>m_controller := m_controller s'\<rparr>"
  by (auto simp: tell_sent_def split: if_splits option.splits dest!: res_bind_InrD)

lemma pacing_fields:
  "Calculate_pacing_rate now s = Inr s' \<Longrightarrow>
    s' = s\<lparr>m_pacing_interval := m_pacing_interval s', m_pacingTimer_delay := m_pacingTimer_delay s'\<rparr>"
  by (auto simp: Calculate_pacing_rate_def dest!: res_bind_InrD)

definition same_windows :: "('p, 'c) sender \<Rightarrow> ('p, 'c) sender \<Rightarrow> bool" where
  "same_windows s s' \<longleftrightarrow> wnd_inv s' = wnd_inv s \<and> m_goodput_wnd s' = m_goodput_wnd s \<and>
     m_send_wnd_size s' = m_send_wnd_size s \<and> IPIDCounter s' = IPIDCounter s"

lemma same_windowsI:
  assumes "m_send_wnd_size s' = m_send_wnd_size s" "m_send_wnd s' = m_send_wnd s"
    "IPIDCounter s' = IPIDCounter s" "m_goodput_wnd s' = m_goodput_wnd s" "pktsHistory s' = pktsHistory s"
    "total_pkts_inwnd s' = total_pkts_inwnd s" "goodput_pkts_inwnd s' = goodput_pkts_inwnd s"
  shows "same_windows s s'"
  using wnd_inv_cong [OF assms] assms by (simp add: same_windows_def)

lemma same_windows_trans: "same_windows s t \<Longrightarrow> same_windows t u \<Longrightarrow> same_windows s u"
  by (simp add: same_windows_def)

lemma same_windows_steps:
  "tell_sent env t z s = Inr s' \<Longrightarrow> same_windows s s'"
  "Calculate_pacing_rate now s = Inr s' \<Longrightarrow> same_windows s s'"
proof -
  assume "tell_sent env t z s = Inr s'"
  then obtain c where "s' = s\<lparr>m_controller := c\<rparr>" using tell_sent_fields by blast
  then show "same_windows s s'" by (intro same_windowsI) simp_all
next
  assume "Calculate_pacing_rate now s = Inr s'"
  then obtain a b where "s' = s\<lparr>m_pacing_interval := a, m_pacingTimer_delay := b\<rparr>"
    using pacing_fields by blast
  then show "same_windows s s'" by (intro same_windowsI) simp_all
qed

text \<open>The steps of a \<open>SendPacket\<close> that has a packet to send.\<close>

lemma SendPacket_run:
  assumes run: "SendPacket env now s = Inr s'" and q: "m_queue s = fr # frs" and fr: "packets_in_Frame fr = r # rs"
  obtains info sz s1 es st s2 s3 where "si_pkt_id info = IPIDCounter s"
    "tell_sent env (word_of_int (GetMicroSeconds now)) sz
       (on_heap r (\<lambda>p. vp_SetGlobalId (IPIDCounter s) (vp_SetSendTime now p)) s) = Inr s1"
    "log_sent (word_of_int (GetMicroSeconds now)) info (emit es (s1\<lparr>m_stats := st\<rparr>)) = Inr s2"
    "(if rs = [] then Calculate_pacing_rate now (s2\<lparr>IPIDCounter := IPIDCounter s2 + 1, m_queue := frs\<rparr>)
      else Inr (s2\<lparr>IPIDCounter := IPIDCounter s2 + 1, m_queue := fr\<lparr>packets_in_Frame := rs\<rparr> # frs\<rparr>)) = Inr s3"
    "(if m_pacing s3 then res_bind (timer_schedule (m_pacingTimer s3)) (\<lambda>t. Inr (s3\<lparr>m_pacingTimer := t\<rparr>))
      else Inr (emit [ScheduleSend] s3)) = Inr s'"
proof -
  define s0 where "s0 = on_heap r (\<lambda>p. vp_SetGlobalId (IPIDCounter s) (vp_SetSendTime now p)) s"
  note that = that [folded s0_def]
  show thesis
    using run q fr
    apply (simp add: SendPacket_def Let_def flip: s0_def del: split_paired_Ex split: list.split)
    apply (drule res_bind_InrD, elim exE conjE)+
    apply (rule that [rotated], assumption, assumption, assumption, assumption)
    apply (simp add: SentPacketInfo_new_def)
    done
qed

lemma SendPacket_windows:
  assumes inv: "wnd_inv s" and run: "SendPacket env now s = Inr s'"
    and room: "length (m_goodput_wnd s') \<le> unat (m_send_wnd_size s)"
  shows "wnd_inv s'"
proof (cases "m_queue s")
  case Nil
  then show ?thesis using inv run by (simp add: SendPacket_def)
next
  case (Cons fr frs)
  obtain r rs where fr: "packets_in_Frame fr = r # rs"
    using run Cons by (cases "packets_in_Frame fr") (simp_all add: SendPacket_def)
  let ?i = "IPIDCounter s" and ?us = "word_of_int (GetMicroSeconds now) :: u64"
  define s0 where "s0 = on_heap r (\<lambda>p. vp_SetGlobalId ?i (vp_SetSendTime now p)) s"
  have w0: "same_windows s s0" unfolding s0_def on_heap_def by (intro same_windowsI) simp_all
  obtain info sz s1 es st s2 s3 where i: "si_pkt_id info = ?i"
    and s1: "tell_sent env ?us sz s0 = Inr s1"
    and s2: "log_sent ?us info (emit es (s1\<lparr>m_stats := st\<rparr>)) = Inr s2"
    and s3: "(if rs = [] then Calculate_pacing_rate now (s2\<lparr>IPIDCounter := IPIDCounter s2 + 1, m_queue := frs\<rparr>)
       else Inr (s2\<lparr>IPIDCounter := IPIDCounter s2 + 1, m_queue := fr\<lparr>packets_in_Frame := rs\<rparr> # frs\<rparr>)) = Inr s3"
    and s4: "(if m_pacing s3 then res_bind (timer_schedule (m_pacingTimer s3)) (\<lambda>t. Inr (s3\<lparr>m_pacingTimer := t\<rparr>))
       else Inr (emit [ScheduleSend] s3)) = Inr s'"
    by (rule SendPacket_run [OF run Cons fr, folded s0_def])
  have "same_windows s1 (emit es (s1\<lparr>m_stats := st\<rparr>))" unfolding emit_def by (intro same_windowsI) simp_all
  then have w1: "same_windows s (emit es (s1\<lparr>m_stats := st\<rparr>))"
    using w0 same_windows_steps(1) [OF s1] same_windows_trans by blast
  let ?s1 = "emit es (s1\<lparr>m_stats := st\<rparr>)"
  have "wnd_inv ?s1" "si_pkt_id info = IPIDCounter ?s1" using w1 inv i by (simp_all add: same_windows_def)
  from log_sent_run [OF this, of ?us] s2 have l: "IPIDCounter s2 = IPIDCounter ?s1"
    "length (m_goodput_wnd s2) \<le> unat (m_send_wnd_size ?s1) \<Longrightarrow> wnd_inv (s2\<lparr>IPIDCounter := IPIDCounter ?s1 + 1\<rparr>)"
    by auto
  have w2: "same_windows (s2\<lparr>IPIDCounter := IPIDCounter s2 + 1\<rparr>) s3"
  proof (cases "rs = []")
    case True
    have "same_windows (s2\<lparr>IPIDCounter := IPIDCounter s2 + 1\<rparr>) (s2\<lparr>IPIDCounter := IPIDCounter s2 + 1, m_queue := frs\<rparr>)"
      by (intro same_windowsI) simp_all
    moreover have "same_windows (s2\<lparr>IPIDCounter := IPIDCounter s2 + 1, m_queue := frs\<rparr>) s3"
      using s3 unfolding if_P [OF True] by (rule same_windows_steps(2))
    ultimately show ?thesis by (rule same_windows_trans)
  next
    case False
    have "s3 = s2\<lparr>IPIDCounter := IPIDCounter s2 + 1, m_queue := fr\<lparr>packets_in_Frame := rs\<rparr> # frs\<rparr>"
      using s3 unfolding if_not_P [OF False] by simp
    then show ?thesis by (intro same_windowsI) simp_all
  qed
  have "same_windows s3 s'"
  proof (cases "m_pacing s3")
    case True
    then obtain t where "s' = s3\<lparr>m_pacingTimer := t\<rparr>" using s4 by (auto dest!: res_bind_InrD)
    then show ?thesis by (intro same_windowsI) simp_all
  next
    case False
    then have "s' = emit [ScheduleSend] s3" using s4 by simp
    then show ?thesis by (intro same_windowsI) (simp_all add: emit_def)
  qed
  with w2 have w3: "same_windows (s2\<lparr>IPIDCounter := IPIDCounter s2 + 1\<rparr>) s'" by (rule same_windows_trans)
  then have "wnd_inv (s2\<lparr>IPIDCounter := IPIDCounter ?s1 + 1\<rparr>)"
    using l room w1 by (simp add: same_windows_def)
  then show ?thesis using w3 l(1) by (simp add: same_windows_def)
qed

text \<open>C20: the windows of sent packets. They hold consecutive identifiers up to the last one sent, the history
  has exactly the packets of the send window, and the two byte counters are the sums over the goodput window, so the
  goodput never exceeds the total. Recording a packet never fails then, and
  \<open>SendPacket\<close> keeps all this, as long as the goodput window has no more packets than the send window may
  hold; \<open>UpdateGoodputRatio\<close> and a new sender have it too.\<close>

theorem send_windows_exact:
  assumes "wnd_inv s"
  shows "(\<forall>NowUs info. si_pkt_id info = IPIDCounter s \<longrightarrow> (\<exists>s'. log_sent NowUs info s = Inr s')) \<and>
    (\<forall>s'. SendPacket env now s = Inr s' \<and> length (m_goodput_wnd s') \<le> unat (m_send_wnd_size s) \<longrightarrow>
       wnd_inv s' \<and> goodput_pkts_inwnd s' \<le> total_pkts_inwnd s' \<and> wnd_inv (UpdateGoodputRatio env s'))"
proof (intro conjI allI impI)
  fix NowUs and info :: SentPacketInfo assume "si_pkt_id info = IPIDCounter s"
  from log_sent_run [OF assms this] show "\<exists>s'. log_sent NowUs info s = Inr s'" by blast
next
  fix s' assume "SendPacket env now s = Inr s' \<and> length (m_goodput_wnd s') \<le> unat (m_send_wnd_size s)"
  then show w: "wnd_inv s'" using SendPacket_windows [OF assms] by blast
  then show "goodput_pkts_inwnd s' \<le> total_pkts_inwnd s'"
    using goodput_le by (auto simp: wnd_inv_def word_le_nat_alt)
  have "same_windows s' (UpdateGoodputRatio env s')"
    by (intro same_windowsI) (simp_all add: UpdateGoodputRatio_def)
  with w show "wnd_inv (UpdateGoodputRatio env s')" by (simp add: same_windows_def)
qed

lemma new_sender_windows:
  assumes "PacketSenderUdp_new f rand ddl itvl raw_stat raw = Inr s"
  shows "wnd_inv s" "m_cc_enable s" "m_controller s = None"
  using assms by (auto simp: PacketSenderUdp_new_def wnd_inv_def dest!: res_bind_InrD intro!: exI [of _ 0])

theorem send_windows_exact_witness:
  "\<forall>raw_stat raw info. \<exists>s s'. PacketSenderUdp_new id (\<lambda>i. even i) (MilliSeconds 100) 16 raw_stat raw = Inr s \<and>
     log_sent 5000 (info\<lparr>si_pkt_id := 0\<rparr>) s = Inr s'"
proof (intro allI)
  fix raw_stat raw info
  have "\<exists>s. PacketSenderUdp_new id (\<lambda>i. even i) (MilliSeconds 100) 16 raw_stat raw = Inr s \<and> IPIDCounter s = 0"
    by (simp add: PacketSenderUdp_new_def SetNetworkStatistics_def loss_seq_bound_def to_word_def trunc_def Let_def)
  then obtain s where s: "PacketSenderUdp_new id (\<lambda>i. even i) (MilliSeconds 100) 16 raw_stat raw = Inr s"
    "IPIDCounter s = 0" by blast
  from send_windows_exact [OF new_sender_windows(1) [OF s(1)]] s
  show "\<exists>s s'. PacketSenderUdp_new id (\<lambda>i. even i) (MilliSeconds 100) 16 raw_stat raw = Inr s \<and>
     log_sent 5000 (info\<lparr>si_pkt_id := 0\<rparr>) s = Inr s'" by (metis SentPacketInfo.select_convs(1) SentPacketInfo.surjective SentPacketInfo.update_convs(1))
qed

section \<open>The history for retransmission\<close>

definition same_packet :: "GroupPacketInfo \<Rightarrow> GroupPacketInfo \<Rightarrow> bool" where
  "same_packet i j \<longleftrightarrow> gpi_group_id i = gpi_group_id j \<and> gpi_pkt_id_in_group i = gpi_pkt_id_in_group j"

definition empty_groups :: "(u32 \<times> (u16 \<times> nat) list) list \<Rightarrow> u32 set" where
  "empty_groups hist = {g. map_of hist g = Some []}"

lemma history_ref_forget:
  "history_ref (forget i hist) j = (if same_packet i j then None else history_ref hist j)"
proof (cases "map_of hist (gpi_group_id i)")
  case None
  then show ?thesis by (auto simp: forget_def history_ref_def same_packet_def)
next
  case (Some g)
  have gone: "map_of g p = None" if "AList.delete (gpi_pkt_id_in_group i) g = []" "p \<noteq> gpi_pkt_id_in_group i" for p
    using arg_cong [OF that(1), of "\<lambda>m. map_of m p"] that(2) by (simp add: delete_conv')
  show ?thesis
    using Some gone
    by (auto simp: forget_def history_ref_def same_packet_def Let_def delete_conv' update_conv' split: option.splits)
qed

lemma forget_empty_groups: "empty_groups (forget i hist) \<subseteq> empty_groups hist"
  by (auto simp: empty_groups_def forget_def Let_def delete_conv' update_conv' split: option.splits if_splits)

lemma fold_forget:
  "history_ref (fold forget infos hist) j = (if \<exists>i\<in>set infos. same_packet i j then None else history_ref hist j)"
  "empty_groups (fold forget infos hist) \<subseteq> empty_groups hist"
proof (induction infos arbitrary: hist)
  case (Cons i infos)
  { case 1 show ?case by (simp add: Cons.IH(1) history_ref_forget)
  next
    case 2 show ?case using Cons.IH(2) [of "forget i hist"] forget_empty_groups [of i hist] by simp }
qed simp_all

text \<open>An acknowledgement removes from the history exactly the packets it names, whether or not they
  are there, and leaves no group without packets behind: only packets that are not acknowledged can be
  sent again.\<close>

theorem acked_forgotten:
  "history_ref (data_pkt_history (RcvACKPacket ack s)) j =
     (if \<exists>i\<in>set (ah_pkt_infos (ack_header ack)). same_packet i j then None
      else history_ref (data_pkt_history s) j) \<and>
   empty_groups (data_pkt_history (RcvACKPacket ack s)) \<subseteq> empty_groups (data_pkt_history s)"
  by (simp add: RcvACKPacket_def fold_forget)

text \<open>The packets of the keys, where the history has them.\<close>

definition key_refs :: "GroupPacketInfo list \<Rightarrow> (u32 \<times> (u16 \<times> nat) list) list \<Rightarrow> nat list" where
  "key_refs keys hist = map (\<lambda>i. the (history_ref hist i)) (filter (\<lambda>i. history_ref hist i \<noteq> None) keys)"

lemma history_ref_same: "same_packet i j \<Longrightarrow> history_ref hist i = history_ref hist j"
  by (auto simp: history_ref_def same_packet_def split: option.split)

lemma purge_missed_run:
  assumes "purge_missed misses keys hist = (keys', hist')"
  shows "\<exists>pre. keys = pre @ keys' \<and>
    (\<forall>j. history_ref hist' j = (if \<exists>i\<in>set pre. same_packet i j then None else history_ref hist j)) \<and>
    (\<forall>i\<in>set pre. \<forall>r. history_ref hist i = Some r \<longrightarrow> misses r) \<and>
    (keys' = [] \<or> (\<exists>r. history_ref hist' (hd keys') = Some r \<and> \<not> misses r))"
  using assms
proof (induction misses keys hist rule: purge_missed.induct)
  case (2 misses info infos hist)
  show ?case
  proof (cases "history_ref hist info")
    case None
    with 2(3) have "purge_missed misses infos hist = (keys', hist')" by simp
    from 2(1) [OF None this] obtain pre where "infos = pre @ keys'"
      "\<forall>j. history_ref hist' j = (if \<exists>i\<in>set pre. same_packet i j then None else history_ref hist j)"
      "\<forall>i\<in>set pre. \<forall>r. history_ref hist i = Some r \<longrightarrow> misses r"
      "keys' = [] \<or> (\<exists>r. history_ref hist' (hd keys') = Some r \<and> \<not> misses r)" by blast
    then show ?thesis using None history_ref_same [of info _ hist] by (intro exI [of _ "info # pre"]) auto
  next
    case (Some r)
    show ?thesis
    proof (cases "misses r")
      case True
      with Some 2(3) have "purge_missed misses infos (forget info hist) = (keys', hist')" by simp
      from 2(2) [OF Some True this] obtain pre where p: "infos = pre @ keys'"
        "\<forall>j. history_ref hist' j = (if \<exists>i\<in>set pre. same_packet i j then None else history_ref (forget info hist) j)"
        "\<forall>i\<in>set pre. \<forall>r. history_ref (forget info hist) i = Some r \<longrightarrow> misses r"
        "keys' = [] \<or> (\<exists>r. history_ref hist' (hd keys') = Some r \<and> \<not> misses r)" by blast
      have "\<forall>i\<in>set pre. \<forall>r. history_ref hist i = Some r \<longrightarrow> misses r"
      proof (intro ballI allI impI)
        fix i q assume i: "i \<in> set pre" "history_ref hist i = Some q"
        show "misses q"
        proof (cases "same_packet info i")
          case True
          then have "q = r" using Some i(2) history_ref_same [of info i hist] by simp
          then show ?thesis using \<open>misses r\<close> by simp
        next
          case False
          then show ?thesis using p(3) i by (simp add: history_ref_forget)
        qed
      qed
      then show ?thesis using p True Some by (intro exI [of _ "info # pre"]) (auto simp: history_ref_forget)
    next
      case False
      then show ?thesis using Some 2(3) by (intro exI [of _ "[]"]) auto
    qed
  qed
qed simp

text \<open>Late packets. If the keys of the history are in the order in which their packets were encoded, the first
  part of \<open>CheckRetransmission\<close> removes exactly the packets that miss their deadline, so none of the
  packets it goes on to look at is late.\<close>

theorem late_packets_forgotten:
  assumes order: "sorted (map (\<lambda>r. vh_encode_time (vp_header (h ! r))) (key_refs keys hist))"
    and run: "purge_missed (\<lambda>r. MissesDdl now ddl (h ! r)) keys hist = (keys', hist')"
  shows "(\<forall>r\<in>set (key_refs keys' hist'). now - vh_encode_time (vp_header (h ! r)) \<le> ddl) \<and>
    (\<forall>j. history_ref hist' j =
      (if \<exists>i\<in>set keys. same_packet i j \<and> (\<exists>r. history_ref hist i = Some r \<and> MissesDdl now ddl (h ! r))
       then None else history_ref hist j))"
proof -
  obtain pre where keys: "keys = pre @ keys'"
    and hist': "\<And>j. history_ref hist' j = (if \<exists>i\<in>set pre. same_packet i j then None else history_ref hist j)"
    and pre: "\<And>i r. i \<in> set pre \<Longrightarrow> history_ref hist i = Some r \<Longrightarrow> MissesDdl now ddl (h ! r)"
    and hd: "keys' = [] \<or> (\<exists>r. history_ref hist' (hd keys') = Some r \<and> \<not> MissesDdl now ddl (h ! r))"
    using purge_missed_run [OF run] by blast
  have live: "\<not> MissesDdl now ddl (h ! r)" if i: "i \<in> set keys'" "history_ref hist i = Some r" for i r
  proof -
    obtain k ks where k: "keys' = k # ks" using i by (cases keys') auto
    then obtain r0 where r0: "history_ref hist k = Some r0" "\<not> MissesDdl now ddl (h ! r0)"
      using hd hist' [of k] by (auto split: if_splits)
    have "r \<in> insert r0 (set (key_refs ks hist))"
      using i k r0 by (auto simp: key_refs_def image_iff intro!: bexI [of _ i])
    moreover have "sorted (map (\<lambda>r. vh_encode_time (vp_header (h ! r))) (r0 # key_refs ks hist))"
      using order r0 k keys by (auto simp: key_refs_def sorted_append)
    ultimately show ?thesis using r0(2) by (auto simp: MissesDdl_def)
  qed
  have sub: "history_ref hist i = Some r" if "history_ref hist' i = Some r" for i r
    using that hist' [of i] by (simp split: if_splits)
  have "now - vh_encode_time (vp_header (h ! r)) \<le> ddl" if r: "r \<in> set (key_refs keys' hist')" for r
  proof -
    obtain i where "i \<in> set keys'" "history_ref hist' i = Some r" using r by (auto simp: key_refs_def)
    with live sub show ?thesis by (force simp: MissesDdl_def)
  qed
  moreover have "history_ref hist' j =
      (if \<exists>i\<in>set keys. same_packet i j \<and> (\<exists>r. history_ref hist i = Some r \<and> MissesDdl now ddl (h ! r))
       then None else history_ref hist j)" for j
  proof (cases "\<exists>i\<in>set pre. same_packet i j")
    case True
    then obtain i where i: "i \<in> set pre" "same_packet i j" by blast
    show ?thesis
    proof (cases "history_ref hist j")
      case None
      then show ?thesis using hist' [of j] True by auto
    next
      case (Some r)
      with i have r: "history_ref hist i = Some r" using history_ref_same by metis
      have "\<exists>i\<in>set keys. same_packet i j \<and> (\<exists>r. history_ref hist i = Some r \<and> MissesDdl now ddl (h ! r))"
        using i r pre [OF i(1) r] keys by auto
      then show ?thesis using hist' [of j] True by auto
    qed
  next
    case False
    have "\<not> (\<exists>i\<in>set keys. same_packet i j \<and> (\<exists>r. history_ref hist i = Some r \<and> MissesDdl now ddl (h ! r)))"
      using False live keys by auto
    then show ?thesis using hist' [of j] False by auto
  qed
  ultimately show ?thesis by blast
qed

theorem late_packets_forgotten_witness:
  "\<exists>keys' hist'. purge_missed (\<lambda>r. MissesDdl 20000000 5000000 (replicate 2 (VData example_data) ! r))
       [\<lparr>gpi_group_id = 7, gpi_pkt_id_in_group = 0, gpi_tx_count = 0\<rparr>,
        \<lparr>gpi_group_id = 7, gpi_pkt_id_in_group = 1, gpi_tx_count = 0\<rparr>] [(7, [(0, 0), (1, 1)])] = (keys', hist') \<and>
     history_ref hist' \<lparr>gpi_group_id = 7, gpi_pkt_id_in_group = 1, gpi_tx_count = 9\<rparr> = None"
proof -
  let ?i = "\<lambda>n. \<lparr>gpi_group_id = 7, gpi_pkt_id_in_group = n, gpi_tx_count = 0 :: u8\<rparr>"
  let ?keys = "[?i 0, ?i 1]" and ?hist = "[(7 :: u32, [(0 :: u16, 0 :: nat), (1, 1)])]"
  let ?h = "replicate 2 (VData example_data)"
  obtain keys' hist' where run: "purge_missed (\<lambda>r. MissesDdl 20000000 5000000 (?h ! r)) ?keys ?hist = (keys', hist')"
    by (cases "purge_missed (\<lambda>r. MissesDdl 20000000 5000000 (?h ! r)) ?keys ?hist")
  have "sorted (map (\<lambda>r. vh_encode_time (vp_header (?h ! r))) (key_refs ?keys ?hist))"
    by (simp add: key_refs_def history_ref_def numeral_2_eq_2)
  from conjunct2 [OF late_packets_forgotten [OF this run], rule_format, of "\<lparr>gpi_group_id = 7, gpi_pkt_id_in_group = 1, gpi_tx_count = 9\<rparr>"]
  have "history_ref hist' \<lparr>gpi_group_id = 7, gpi_pkt_id_in_group = 1, gpi_tx_count = 9\<rparr> = None"
    by (simp add: same_packet_def history_ref_def MissesDdl_def numeral_2_eq_2 example_data_def example_video_def time_defs)
  with run show ?thesis by blast
qed

section \<open>Without a controller\<close>

lemma no_controller_stuck:
  assumes "m_cc_enable s" "m_controller s = None"
  shows "GetFECParam env n left fix_sz rtx fid s \<noteq> Inr x"
proof
  assume "GetFECParam env n left fix_sz rtx fid s = Inr x"
  then show False using assms
    by (auto simp: GetFECParam_def UpdateBitrate_def UpdateSendingRate_def split: option.splits dest!: res_bind_InrD)
qed

text \<open>The controller \<open>''Fixed''\<close>, which the configuration names as the default, cannot send: after
  \<open>SetController\<close> there is no controller object, yet the rate is asked of it for every frame. No
  \<open>CreateFrame\<close> ever returns, whatever the frame and the FEC policy.\<close>

theorem fixed_rate_cannot_send:
  assumes "PacketSenderUdp_new f rand ddl itvl raw_stat raw = Inr s0"
    and "SetController ''Fixed'' gcc nada s0 = Inr s"
  shows "CreateFrame env now frame_id pkt_id max_payload data_pkt_num data_size s \<noteq> Inr s'"
proof
  assume run: "CreateFrame env now frame_id pkt_id max_payload data_pkt_num data_size s = Inr s'"
  have s: "m_cc_enable s" "m_controller s = None"
    using new_sender_windows [OF assms(1)] assms(2) by (simp_all add: SetController_def)
  from run obtain rs left t where "SendPackets env now rs left frame_id False t = Inr s'"
    "m_cc_enable t" "m_controller t = None"
    using s by (auto simp: CreateFrame_def Let_def split: option.splits dest!: ns_assert_InrD)
  then show False
    by (auto simp: SendPackets_def first_batches_def no_controller_stuck dest!: res_bind_InrD)
qed

theorem fixed_rate_cannot_send_witness:
  "\<forall>raw_stat raw env gcc nada. \<exists>s. PacketSenderUdp_new id (\<lambda>i. even i) (MilliSeconds 100) 16 raw_stat raw = Inr s \<and>
     (\<forall>s'. CreateFrame env 0 0 0 1404 4 5000 s \<noteq> Inr s')"
proof (intro allI)
  fix raw_stat raw env gcc nada
  obtain s where s: "PacketSenderUdp_new id (\<lambda>i. even i) (MilliSeconds 100) 16 raw_stat raw = Inr s"
    by (cases "PacketSenderUdp_new id (\<lambda>i. even i) (MilliSeconds 100) 16 raw_stat raw")
      (simp_all add: PacketSenderUdp_new_def SetNetworkStatistics_def loss_seq_bound_def to_word_def trunc_def Let_def)
  have "SetController ''Fixed'' gcc nada s = Inr s" by (simp add: SetController_def)
  from fixed_rate_cannot_send [OF s this] s
  show "\<exists>s. PacketSenderUdp_new id (\<lambda>i. even i) (MilliSeconds 100) 16 raw_stat raw = Inr s \<and>
     (\<forall>s'. CreateFrame env 0 0 0 1404 4 5000 s \<noteq> Inr s')" by blast
qed

end
