(* ===== verification/Tcp_Stream.thy ===== *)
theory Tcp_Stream
  imports Video_Decoder "HOL-Library.Sublist"
begin

text \<open>
  The video stream over TCP: \<open>PacketSenderTcp\<close> and \<open>PacketReceiverTcp\<close>
  (\<open>bitrate-ctrl/model/packet-sender-tcp.\{h,cc\}\<close>, \<open>packet-receiver-tcp.\{h,cc\}\<close>). A frame is one packet: 12
  bytes of header and the frame. The receiver cuts the byte stream back into frames; the sender measures how long
  its buffer was busy and adapts the bitrate of the encoder.

  The sockets are ns-3's. What \<open>Send\<close> returns and the fill levels of the send buffer are arguments;
  \<open>Recv\<close> is an argument too, with what the documentation of the socket says of it in
  \<open>recv_ok\<close>.
\<close>

section \<open>The receiver\<close>

record tcp_receiver =
  BytesToRecv :: u32
  tr_frame_id :: u32
  tr_frame_size :: u32
  halfpkt :: bytes
  curHdr :: DataPacketHeader
  RecvPktStart :: bool
  tr_decoder :: VideoDecoder

text \<open>\<open>raw\<close> is the memory of the object, \<open>hdr\<close> a default constructed header.\<close>

definition PacketReceiverTcp_new :: "DataPacketHeader \<Rightarrow> VideoDecoder \<Rightarrow> tcp_receiver \<Rightarrow> tcp_receiver" where
  "PacketReceiverTcp_new hdr decoder raw =
     raw\<lparr>RecvPktStart := True, tr_decoder := decoder, curHdr := hdr\<rparr>"

text \<open>\<open>Recv (n, false)\<close> gives a packet or a null pointer.\<close>

type_synonym ('p, 's) recv = "nat \<Rightarrow> 's \<Rightarrow> 'p option \<times> 's"

text \<open>The packet handed to the decoder.\<close>

definition ready_packet :: "DataPacket \<Rightarrow> DataPacketHeader \<Rightarrow> DataPacket" where
  "ready_packet raw h = DataPacket_ctor (dh_frame_id h) (dh_frame_size h) (dh_frame_pkt_num h)
     (dh_pkt_id_in_frame h) raw"

definition tcp_finish :: "'p ns3 \<Rightarrow> DataPacket \<Rightarrow> tcp_receiver \<Rightarrow> DataPacket list \<times> tcp_receiver" where
  "tcp_finish k raw s =
     (if RecvPktStart s
      then ([ready_packet raw (curHdr s)],
            s\<lparr>halfpkt := DataPacketHeader_Serialize k (curHdr s) @ halfpkt s\<rparr>)
      else ([], s))"

definition tcp_receive :: "'p ns3 \<Rightarrow> ('p, 's) recv \<Rightarrow> DataPacket \<Rightarrow> tcp_receiver \<Rightarrow> 's
    \<Rightarrow> (DataPacket list \<times> tcp_receiver \<times> 's) res" where
  "tcp_receive k recv raw s sock =
     (if RecvPktStart s
      then (case recv 12 sock of
          (None, _) \<Rightarrow> Inl NullDeref
        | (Some pkt, sock) \<Rightarrow>
            res_bind (RemoveHeader k (DataPacketHeader_Deserialize k (curHdr s)) pkt) (\<lambda>(h, _).
            let s1 = s\<lparr>halfpkt := PeekBytes k pkt, curHdr := h, tr_frame_id := dh_frame_id h,
                       tr_frame_size := dh_frame_size h\<rparr>
            in case recv (unat (dh_frame_size h)) sock of
                 (None, _) \<Rightarrow> Inl NullDeref
               | (Some payload, sock) \<Rightarrow>
                   let n = of_nat (length (PeekBytes k payload)) :: u32;
                       s2 = s1\<lparr>halfpkt := halfpkt s1 @ PeekBytes k payload\<rparr>;
                       s3 = (if n < dh_frame_size h
                             then s2\<lparr>BytesToRecv := dh_frame_size h - n, RecvPktStart := False\<rparr> else s2);
                       (ready, s4) = tcp_finish k raw s3
                   in Inr (ready, s4, sock)))
      else (case recv (unat (BytesToRecv s)) sock of
          (None, _) \<Rightarrow> Inl NullDeref
        | (Some payload, sock) \<Rightarrow>
            let n = of_nat (length (PeekBytes k payload)) :: u32;
                s1 = s\<lparr>halfpkt := halfpkt s @ PeekBytes k payload\<rparr>;
                s2 = (if n < BytesToRecv s then s1\<lparr>BytesToRecv := BytesToRecv s - n\<rparr>
                      else s1\<lparr>RecvPktStart := True, BytesToRecv := 0\<rparr>);
                (ready, s3) = tcp_finish k raw s2
            in Inr (ready, s3, sock)))"

definition OnSocketRecv_tcp :: "'p ns3 \<Rightarrow> ('p, 's) recv \<Rightarrow> DataPacket \<Rightarrow> tcp_receiver \<Rightarrow> 's
    \<Rightarrow> (tcp_receiver \<times> 's \<times> (u32 \<times> time) list) res" where
  "OnSocketRecv_tcp k recv raw s sock =
     res_bind (tcp_receive k recv raw s sock) (\<lambda>(ready, s, sock).
     if ready = [] then Inr (s, sock, [])
     else res_bind (DecodeDataPacket ready (tr_decoder s)) (\<lambda>(d, acks).
          Inr (s\<lparr>tr_decoder := d\<rparr>, sock, acks)))"

section \<open>The sender\<close>

datatype 'p tcp_event =
    Tcp_Send 'p
  | Tcp_ScheduleSend
  | Tcp_ScheduleDuty
  | Tcp_Encode u32
  | Tcp_Close

record tcp_sender =
  ts_queue :: "DataPacket list"
  m_time_history :: "int list"
  m_write_history :: "u32 list"
  m_dutyState :: "bool list option"
  m_txBufSize :: u32
  m_lastPendingBuf :: u32
  m_firstUpdate :: bool
  m_cc_create :: bool
  m_connected :: bool
  kTxRateUpdateWindowMs :: u32
  kMinEncodeBps :: u32
  kMaxEncodeBps :: u32
  ts_bitrate :: u32
  ts_cc_enable :: bool
  ts_cc_timer :: bool
  ts_cc_interval :: time

definition PacketSenderTcp_new :: "u32 \<Rightarrow> u32 \<Rightarrow> tcp_sender \<Rightarrow> tcp_sender" where
  "PacketSenderTcp_new minEncodeBps maxEncodeBps raw =
     raw\<lparr>ts_queue := [], m_time_history := [], m_write_history := [], m_dutyState := None,
       kMinEncodeBps := minEncodeBps, kMaxEncodeBps := maxEncodeBps, m_firstUpdate := True,
       m_lastPendingBuf := 0, ts_cc_enable := True, ts_cc_timer := False, ts_cc_interval := MilliSeconds 40\<rparr>"

text \<open>The attribute \<open>SndBufSize\<close> of the socket is an argument.\<close>

definition Tcp_StartApplication :: "u64 \<Rightarrow> tcp_sender \<Rightarrow> (tcp_sender \<times> 'p tcp_event list) res" where
  "Tcp_StartApplication sndBufSize s =
     (if ts_cc_timer s then Inl FatalError
      else Inr (s\<lparr>m_txBufSize := ucast sndBufSize, ts_cc_timer := True\<rparr>, [Tcp_ScheduleDuty]))"

definition Tcp_StopRunning :: "tcp_sender \<Rightarrow> tcp_sender \<times> 'p tcp_event list" where
  "Tcp_StopRunning s = (s\<lparr>ts_cc_timer := False\<rparr>, [Tcp_Close])"

definition ConnectionSucceeded :: "tcp_sender \<Rightarrow> tcp_sender" where
  "ConnectionSucceeded s = s\<lparr>m_connected := True\<rparr>"

definition Tcp_SetController :: "tcp_sender \<Rightarrow> tcp_sender" where
  "Tcp_SetController s =
     (let w = word_of_int (GetMilliSeconds (ts_cc_interval s)) :: u32
      in s\<lparr>ts_cc_enable := True, m_cc_create := False, kTxRateUpdateWindowMs := w,
           m_dutyState := Some (replicate (unat w) False)\<rparr>)"

definition Tcp_CreateFrame :: "DataPacket \<Rightarrow> time \<Rightarrow> u32 \<Rightarrow> u16 \<Rightarrow> u32 \<Rightarrow> tcp_sender
    \<Rightarrow> tcp_sender \<times> 'p tcp_event list" where
  "Tcp_CreateFrame raw now frame_id pkt_id data_size s =
     (let data_pkt = SetPayload data_size (SetEncodeTime now (DataPacket_ctor frame_id data_size 1 pkt_id raw))
      in (s\<lparr>ts_queue := ts_queue s @ [data_pkt]\<rparr>, [Tcp_ScheduleSend]))"

text \<open>\<open>send\<close> is what \<open>Send\<close> returns: the bytes taken, or a negative number.\<close>

definition Tcp_SendPacket :: "'p ns3 \<Rightarrow> ('p \<Rightarrow> int) \<Rightarrow> time \<Rightarrow> tcp_sender
    \<Rightarrow> (tcp_sender \<times> 'p tcp_event list) res" where
  "Tcp_SendPacket k send now s =
     (case ts_queue s of
        [] \<Rightarrow> Inr (s, [])
      | p # ps \<Rightarrow> res_bind (DataPacket_ToTcpSendPacket k p) (\<lambda>pkt.
          if m_connected s \<and> send pkt > 0
          then Inr (s\<lparr>ts_queue := ps, m_time_history := m_time_history s @ [GetMilliSeconds now],
                      m_write_history := m_write_history s @ [word_of_int (send pkt)]\<rparr>,
                    [Tcp_Send pkt, Tcp_ScheduleSend])
          else Inr (s, [])))"

definition UpdateDutyRatio :: "u32 \<Rightarrow> u32 \<Rightarrow> time \<Rightarrow> tcp_sender \<Rightarrow> (tcp_sender \<times> 'p tcp_event list) res" where
  "UpdateDutyRatio sentsize txbuffer now s =
     (case m_dutyState s of
        None \<Rightarrow> Inl UndefinedBehaviour
      | Some duty \<Rightarrow>
          if kTxRateUpdateWindowMs s = 0 then Inl UndefinedBehaviour
          else
            let nowIndex = word_of_int (GetMilliSeconds now smod uint (kTxRateUpdateWindowMs s)) :: u16
            in if unat nowIndex < length duty
               then Inr (s\<lparr>m_dutyState := Some (duty[unat nowIndex := (sentsize + txbuffer < m_txBufSize s)])\<rparr>,
                         [Tcp_ScheduleDuty])
               else Inl UndefinedBehaviour)"

text \<open>The writes of the last window. The sum is taken modulo \<open>2 ^ 32\<close>.\<close>

fun trim_writes :: "int \<Rightarrow> int \<Rightarrow> int list \<Rightarrow> u32 list \<Rightarrow> (int list \<times> u32 list) res" where
  "trim_writes now w [] ws = Inr ([], ws)"
| "trim_writes now w (t # ts) ws =
     (if now - t > w
      then (case ws of [] \<Rightarrow> Inl UndefinedBehaviour | _ # ws' \<Rightarrow> trim_writes now w ts ws')
      else Inr (t # ts, ws))"

definition duty_ratio :: "rounding \<Rightarrow> bool list \<Rightarrow> rat" where
  "duty_ratio f duty = f (of_nat (length (filter id duty)) / of_nat (length duty))"

text \<open>The part of the buffer that the sender may leave filled: \<open>0.1\<close> where the division is by zero.\<close>

definition drain_share :: "rounding \<Rightarrow> u32 \<Rightarrow> u32 \<Rightarrow> rat" where
  "drain_share f pending sent =
     (if sent = 0 then f (1 / 10)
      else max (f (1 / 10)) (f (1 - f (of_nat (unat pending) / of_nat (unat sent)))))"

definition next_bitrate :: "rounding \<Rightarrow> u32 \<Rightarrow> u32 \<Rightarrow> u32 \<Rightarrow> rat \<Rightarrow> u32 \<Rightarrow> u32 res" where
  "next_bitrate f pending sent rate duty br =
     (if pending > 0
      then to_word (f (3 / 4 * min (of_nat (unat br)) (f (drain_share f pending sent * of_nat (unat rate)))))
      else to_word (f (of_nat (unat br) - f (f (1 / 2 * f (duty - 3 / 4)) * of_nat (unat br)))))"

definition Tcp_UpdateSendingRate :: "rounding \<Rightarrow> u32 \<Rightarrow> u32 \<Rightarrow> time \<Rightarrow> tcp_sender \<Rightarrow> tcp_sender res" where
  "Tcp_UpdateSendingRate f sentsize txavailable now s =
     (let pending = m_txBufSize s - sentsize - txavailable;
          delta = sint pending - sint (m_lastPendingBuf s);
          w = kTxRateUpdateWindowMs s
      in if delta < - (2 ^ 31) \<or> 2 ^ 31 \<le> delta then Inl UndefinedBehaviour
         else res_bind (trim_writes (GetMilliSeconds now) (uint w) (m_time_history s) (m_write_history s))
           (\<lambda>(times, writes).
         let total = sum_list writes;
             s = s\<lparr>m_time_history := times, m_write_history := writes\<rparr>
         in if m_firstUpdate s
            then Inr (s\<lparr>ts_bitrate := kMinEncodeBps s, m_firstUpdate := False, m_lastPendingBuf := pending\<rparr>)
            else (case m_dutyState s of
                None \<Rightarrow> Inl UndefinedBehaviour
              | Some duty \<Rightarrow>
                  if w = 0 \<or> length duty \<noteq> unat w then Inl UndefinedBehaviour
                  else
                    let sent = total - word_of_int delta;
                        rate = sent * 1000 * 8 div w
                    in res_bind (next_bitrate f pending sent rate (duty_ratio f duty) (ts_bitrate s)) (\<lambda>br.
                       Inr (s\<lparr>ts_bitrate := max (min br (kMaxEncodeBps s)) (kMinEncodeBps s),
                              m_lastPendingBuf := pending\<rparr>)))))"

text \<open>\<open>PacketSender::UpdateBitrate\<close>, which runs this every 40 ms.\<close>

definition Tcp_UpdateBitrate :: "rounding \<Rightarrow> u32 \<Rightarrow> u32 \<Rightarrow> time \<Rightarrow> tcp_sender
    \<Rightarrow> (tcp_sender \<times> 'p tcp_event list) res" where
  "Tcp_UpdateBitrate f sentsize txavailable now s =
     (if \<not> ts_cc_enable s then Inr (s, [])
      else res_bind (Tcp_UpdateSendingRate f sentsize txavailable now (s\<lparr>ts_cc_timer := False\<rparr>)) (\<lambda>s.
           Inr (s\<lparr>ts_cc_timer := True\<rparr>, [Tcp_Encode (ts_bitrate s)])))"

section \<open>Frames over the byte stream\<close>

text \<open>
  What ns-3 documents of \<open>Recv\<close>: it takes at most \<open>n\<close> bytes from the front of those that have
  arrived, \<open>avail\<close>, and gives a null pointer only when there are none to give. \<open>arrive\<close> is the arrival of
  bytes. Reading a header from fewer than 12 bytes is an assertion failure of the buffer.
\<close>

definition recv_ok :: "'p ns3 \<Rightarrow> ('p, 's) recv \<Rightarrow> ('s \<Rightarrow> bytes) \<Rightarrow> bool" where
  "recv_ok k recv avail \<longleftrightarrow> (\<forall>n \<sigma>. avail (snd (recv n \<sigma>)) = drop n (avail \<sigma>) \<and>
     (case fst (recv n \<sigma>) of
        None \<Rightarrow> n = 0 \<or> avail \<sigma> = []
      | Some p \<Rightarrow> PeekBytes k p = take n (avail \<sigma>)))"

definition arrive_ok :: "(bytes \<Rightarrow> 's \<Rightarrow> 's) \<Rightarrow> ('s \<Rightarrow> bytes) \<Rightarrow> bool" where
  "arrive_ok arrive avail \<longleftrightarrow> (\<forall>c \<sigma>. avail (arrive c \<sigma>) = avail \<sigma> @ c)"

definition reads_checked :: "'p ns3 \<Rightarrow> bool" where
  "reads_checked k \<longleftrightarrow>
     (\<forall>this bs. length bs < 12 \<longrightarrow> (\<exists>e. DataPacketHeader_Deserialize k this bs = Inl e))"

text \<open>The bytes of the frames that the sender has written.\<close>

definition sent_bytes :: "'p ns3 \<Rightarrow> DataPacket \<Rightarrow> bytes" where
  "sent_bytes k d = (case DataPacket_ToTcpSendPacket k d of Inr p \<Rightarrow> PeekBytes k p | Inl _ \<Rightarrow> [])"

definition tcp_stream :: "'p ns3 \<Rightarrow> DataPacket list \<Rightarrow> bytes" where
  "tcp_stream k ds = concat (map (sent_bytes k) ds)"

definition tcp_frame :: "DataPacket \<Rightarrow> bool" where
  "tcp_frame d \<longleftrightarrow> dh_frame_size (data_header d) = payload_size d"

lemma sent_bytes_split:
  assumes "ns3_ok k" "tcp_frame d"
  obtains h p where "sent_bytes k d = h @ p" "length h = 12" "h = DataPacketHeader_Serialize k (data_header d)"
    "length p = unat (dh_frame_size (data_header d))"
  using assms
  by (auto simp: sent_bytes_def DataPacket_ToTcpSendPacket_def AddHeader_def ns3_packet tcp_frame_def
      DataPacketHeader_Serialize_def ns3_width)

text \<open>The receiver's calls, each after some bytes have arrived; the packets are those given to the decoder.\<close>

fun tcp_run :: "'p ns3 \<Rightarrow> ('p, 's) recv \<Rightarrow> (bytes \<Rightarrow> 's \<Rightarrow> 's) \<Rightarrow> DataPacket \<Rightarrow> bytes list \<Rightarrow> tcp_receiver \<Rightarrow> 's
    \<Rightarrow> (DataPacket list \<times> tcp_receiver \<times> 's) res" where
  "tcp_run k recv arrive raw [] s sock = Inr ([], s, sock)"
| "tcp_run k recv arrive raw (c # cs) s sock =
     res_bind (tcp_receive k recv raw s (arrive c sock)) (\<lambda>(ready, s, sock).
     res_bind (tcp_run k recv arrive raw cs s sock) (\<lambda>(ds, s, sock). Inr (ready @ ds, s, sock)))"

text \<open>The abstract state: the frames still to come, whose bytes are the ones still to be read.\<close>

definition same_header :: "DataPacketHeader \<Rightarrow> DataPacketHeader \<Rightarrow> bool" where
  "same_header h h' \<longleftrightarrow> h = h'\<lparr>dh_last_pkt_mark := dh_last_pkt_mark h\<rparr>"

definition awaits :: "'p ns3 \<Rightarrow> DataPacket list \<Rightarrow> tcp_receiver \<Rightarrow> bytes \<Rightarrow> bool" where
  "awaits k ds s rest \<longleftrightarrow>
     (if RecvPktStart s then rest = tcp_stream k ds
      else \<exists>d ds' tl. ds = d # ds' \<and> rest = tl @ tcp_stream k ds' \<and> length tl = unat (BytesToRecv s) \<and>
        same_header (curHdr s) (data_header d))"

lemma ready_same: "same_header h h' \<Longrightarrow> ready_packet raw h = ready_packet raw h'"
  unfolding same_header_def by (metis (no_types, lifting) DataPacketHeader.select_convs(1-4) DataPacketHeader.surjective
      DataPacketHeader.update_convs(5) ready_packet_def)

text \<open>A piece of what is left of a frame.\<close>

lemma split_rest:
  assumes "a @ future = ys @ rest" "n = length (take (length ys) a)"
  shows "n < length ys \<Longrightarrow> drop (length ys) a @ future = drop n ys @ rest"
    and "\<not> n < length ys \<Longrightarrow> drop (length ys) a @ future = rest"
proof -
  show "drop (length ys) a @ future = drop n ys @ rest" if "n < length ys"
  proof -
    have "length a < length ys" "n = length a" using that assms(2) by auto
    then show ?thesis using arg_cong [OF assms(1), of "drop (length a)"] by simp
  qed
  show "drop (length ys) a @ future = rest" if "\<not> n < length ys"
  proof -
    have "length ys \<le> length a" using that assms(2) by auto
    then show ?thesis using arg_cong [OF assms(1), of "drop (length ys)"] by simp
  qed
qed

definition gets :: "'p ns3 \<Rightarrow> DataPacket \<Rightarrow> bytes \<Rightarrow> DataPacket list \<Rightarrow> DataPacket list \<Rightarrow> tcp_receiver \<Rightarrow> bool" where
  "gets k raw rest ds ready s \<longleftrightarrow> (\<exists>n \<le> 1. ready = map (\<lambda>d. ready_packet raw (data_header d)) (take n ds) \<and>
     n \<le> length ds \<and> awaits k (drop n ds) s rest)"

lemma gets_finish:
  assumes "ds = d # ds'" "same_header (curHdr s) (data_header d)"
    and "if RecvPktStart s then rest = tcp_stream k ds' else rest = ys @ tcp_stream k ds' \<and> length ys = unat (BytesToRecv s)"
    and "tcp_finish k raw s = (ready, s')"
  shows "gets k raw rest ds ready s'"
proof (cases "RecvPktStart s")
  case True
  then show ?thesis using assms ready_same [OF assms(2), of raw]
    by (auto simp: gets_def tcp_finish_def awaits_def intro!: exI [of _ 1])
next
  case False
  then show ?thesis using assms by (auto simp: gets_def tcp_finish_def awaits_def intro!: exI [of _ 0])
qed

lemma recv_Some:
  assumes "recv_ok k recv avail" "recv n \<sigma> = (Some p, \<sigma>')"
  shows "PeekBytes k p = take n (avail \<sigma>)" "avail \<sigma>' = drop n (avail \<sigma>)"
  using assms(1) [unfolded recv_ok_def, THEN spec, THEN spec, of n \<sigma>] assms(2) by simp_all

lemma tcp_step:
  assumes k: "ns3_ok k" "reads_checked k" and recv: "recv_ok k recv avail"
    and ds: "\<forall>d\<in>set ds. tcp_frame d" and a: "awaits k ds s (avail \<sigma> @ future)"
    and run: "tcp_receive k recv raw s \<sigma> = Inr (ready, s', \<sigma>')"
  shows "gets k raw (avail \<sigma>' @ future) ds ready s'"
proof (cases "RecvPktStart s")
  case True
  obtain pkt \<sigma>1 where r1: "recv 12 \<sigma> = (Some pkt, \<sigma>1)"
    using run True by (auto simp: tcp_receive_def split: prod.splits option.splits)
  have p1: "PeekBytes k pkt = take 12 (avail \<sigma>)" "avail \<sigma>1 = drop 12 (avail \<sigma>)"
    using recv_Some [OF recv r1] by simp_all
  obtain h q where h: "RemoveHeader k (DataPacketHeader_Deserialize k (curHdr s)) pkt = Inr (h, q)"
    using run True r1 by (auto simp: tcp_receive_def dest!: res_bind_InrD)
  have len: "12 \<le> length (avail \<sigma>)"
  proof (rule ccontr)
    assume "\<not> 12 \<le> length (avail \<sigma>)"
    then have "length (PeekBytes k pkt) < 12" using p1 by simp
    then obtain e where "DataPacketHeader_Deserialize k (curHdr s) (PeekBytes k pkt) = Inl e"
      using k(2) unfolding reads_checked_def by blast
    then show False using h by (simp add: RemoveHeader_def)
  qed
  have "tcp_stream k ds = avail \<sigma> @ future" using a True by (simp add: awaits_def)
  with len obtain d ds' where d: "ds = d # ds'" by (cases ds) (auto simp: tcp_stream_def)
  obtain hb pb where b: "sent_bytes k d = hb @ pb" "length hb = 12" "hb = DataPacketHeader_Serialize k (data_header d)"
    "length pb = unat (dh_frame_size (data_header d))"
    using sent_bytes_split [OF k(1), of d] ds d by auto
  have all: "avail \<sigma> @ future = hb @ pb @ tcp_stream k ds'"
    using \<open>tcp_stream k ds = avail \<sigma> @ future\<close> d b by (simp add: tcp_stream_def)
  have hb: "take 12 (avail \<sigma>) = hb" "drop 12 (avail \<sigma>) @ future = pb @ tcp_stream k ds'"
    using arg_cong [OF all, of "take 12"] arg_cong [OF all, of "drop 12"] len b(2) by simp_all
  have "DataPacketHeader_Deserialize k (curHdr s) (hb @ bs) =
      Inr (((data_header d)\<lparr>dh_last_pkt_mark := dh_last_pkt_mark (curHdr s)\<rparr>, DataPacketHeader_GetSerializedSize), bs)"
    for bs unfolding b(3) DataPacketHeader_Serialize_def DataPacketHeader_Deserialize_def
    by (simp add: rd_run ns3_read [OF k(1)])
  from this [of "[]"] have hd: "same_header h (data_header d)"
    using h p1 hb by (auto simp: RemoveHeader_def same_header_def)
  then have fs: "dh_frame_size h = dh_frame_size (data_header d)"
    unfolding same_header_def by (metis DataPacketHeader.select_convs(4) DataPacketHeader.surjective DataPacketHeader.update_convs(5))
  let ?n = "unat (dh_frame_size h)"
  obtain payload where r2: "recv ?n \<sigma>1 = (Some payload, \<sigma>')"
    using run True r1 h by (auto simp: tcp_receive_def Let_def split: prod.splits option.splits)
  have p2: "PeekBytes k payload = take ?n (avail \<sigma>1)" "avail \<sigma>' = drop ?n (avail \<sigma>1)"
    using recv_Some [OF recv r2] by simp_all
  define m where "m = length (PeekBytes k payload)"
  have "m \<le> ?n" by (simp add: m_def p2)
  then have um: "unat (of_nat m :: u32) = m" using unat_lt(3) [of "dh_frame_size h"]
    by (simp add: unat_word_of_nat_32)
  define s3 where "s3 = (let s2 = s\<lparr>curHdr := h, tr_frame_id := dh_frame_id h, tr_frame_size := dh_frame_size h,
      halfpkt := PeekBytes k pkt @ PeekBytes k payload\<rparr> in
    if (of_nat m :: u32) < dh_frame_size h
    then s2\<lparr>BytesToRecv := dh_frame_size h - of_nat m, RecvPktStart := False\<rparr> else s2)"
  have fin: "tcp_finish k raw s3 = (ready, s')"
    using run True r1 h r2 unfolding s3_def m_def
    by (simp add: tcp_receive_def Let_def split: prod.splits split del: if_split)
  have sp: "length pb = ?n" "m = length (take (length pb) (avail \<sigma>1))"
    "avail \<sigma>1 @ future = pb @ tcp_stream k ds'"
    using b(4) fs p1 p2 hb by (simp_all add: m_def)
  have rest: "if RecvPktStart s3 then avail \<sigma>' @ future = tcp_stream k ds'
      else avail \<sigma>' @ future = drop m pb @ tcp_stream k ds' \<and> length (drop m pb) = unat (BytesToRecv s3)"
  proof (cases "m < ?n")
    case True
    then have lt: "(of_nat m :: u32) < dh_frame_size h" by (simp add: word_less_nat_alt um)
    then have "unat (dh_frame_size h - of_nat m) = ?n - m" by (simp add: unat_sub um)
    then show ?thesis using lt split_rest(1) [OF sp(3,2)] True sp(1) p2(2) by (simp add: s3_def)
  next
    case False
    then have "\<not> (of_nat m :: u32) < dh_frame_size h" by (simp add: word_less_nat_alt um)
    then show ?thesis using split_rest(2) [OF sp(3,2)] False sp(1) p2(2) \<open>RecvPktStart s\<close> by (simp add: s3_def)
  qed
  have "same_header (curHdr s3) (data_header d)" using hd by (simp add: s3_def Let_def)
  from gets_finish [OF d this rest fin] show ?thesis .
next
  case False
  then obtain d ds' ys where d: "ds = d # ds'" "avail \<sigma> @ future = ys @ tcp_stream k ds'"
    "length ys = unat (BytesToRecv s)" "same_header (curHdr s) (data_header d)"
    using a by (auto simp: awaits_def)
  let ?n = "unat (BytesToRecv s)"
  obtain payload where r2: "recv ?n \<sigma> = (Some payload, \<sigma>')"
    using run False by (auto simp: tcp_receive_def Let_def split: prod.splits option.splits)
  have p2: "PeekBytes k payload = take ?n (avail \<sigma>)" "avail \<sigma>' = drop ?n (avail \<sigma>)"
    using recv_Some [OF recv r2] by simp_all
  define m where "m = length (PeekBytes k payload)"
  have "m \<le> ?n" by (simp add: m_def p2)
  then have um: "unat (of_nat m :: u32) = m" using unat_lt(3) [of "BytesToRecv s"]
    by (simp add: unat_word_of_nat_32)
  define s3 where "s3 = (let s1 = s\<lparr>halfpkt := halfpkt s @ PeekBytes k payload\<rparr> in
    if (of_nat m :: u32) < BytesToRecv s then s1\<lparr>BytesToRecv := BytesToRecv s - of_nat m\<rparr>
    else s1\<lparr>RecvPktStart := True, BytesToRecv := 0\<rparr>)"
  have fin: "tcp_finish k raw s3 = (ready, s')"
    using run False r2 unfolding s3_def m_def
    by (simp add: tcp_receive_def Let_def split: prod.splits split del: if_split)
  have sp: "m = length (take (length ys) (avail \<sigma>))" using d(3) p2 by (simp add: m_def)
  have rest: "if RecvPktStart s3 then avail \<sigma>' @ future = tcp_stream k ds'
      else avail \<sigma>' @ future = drop m ys @ tcp_stream k ds' \<and> length (drop m ys) = unat (BytesToRecv s3)"
  proof (cases "m < ?n")
    case True
    then have lt: "(of_nat m :: u32) < BytesToRecv s" by (simp add: word_less_nat_alt um)
    then have "unat (BytesToRecv s - of_nat m) = ?n - m" by (simp add: unat_sub um)
    then show ?thesis using lt split_rest(1) [OF d(2) sp] True d(3) p2(2) False by (simp add: s3_def)
  next
    case ge: False
    then have "\<not> (of_nat m :: u32) < BytesToRecv s" by (simp add: word_less_nat_alt um)
    then show ?thesis using split_rest(2) [OF d(2) sp] ge d(3) p2(2) by (simp add: s3_def)
  qed
  have "same_header (curHdr s3) (data_header d)" using d(4) by (simp add: s3_def Let_def)
  from gets_finish [OF d(1) this rest fin] show ?thesis .
qed

lemma tcp_run_steps:
  assumes k: "ns3_ok k" "reads_checked k" and recv: "recv_ok k recv avail" "arrive_ok arrive avail"
    and ds: "\<forall>d\<in>set ds. tcp_frame d" and a: "awaits k ds s (avail \<sigma> @ concat cs @ future)"
    and run: "tcp_run k recv arrive raw cs s \<sigma> = Inr (ready, s', \<sigma>')"
  shows "\<exists>n \<le> length cs. ready = map (\<lambda>d. ready_packet raw (data_header d)) (take n ds) \<and>
     n \<le> length ds \<and> awaits k (drop n ds) s' (avail \<sigma>' @ future)"
  using ds a run
proof (induction cs arbitrary: ds s \<sigma> ready)
  case (Cons c cs)
  obtain r1 s1 \<sigma>1 r2 where step: "tcp_receive k recv raw s (arrive c \<sigma>) = Inr (r1, s1, \<sigma>1)"
    and rest: "tcp_run k recv arrive raw cs s1 \<sigma>1 = Inr (r2, s', \<sigma>')" and r: "ready = r1 @ r2"
    using Cons.prems(3) by (auto dest!: res_bind_InrD)
  have "awaits k ds s (avail (arrive c \<sigma>) @ concat cs @ future)"
    using Cons.prems(2) recv(2) by (simp add: arrive_ok_def)
  from tcp_step [OF k recv(1) Cons.prems(1) this step] obtain m where
    m: "m \<le> 1" "r1 = map (\<lambda>d. ready_packet raw (data_header d)) (take m ds)" "m \<le> length ds"
      "awaits k (drop m ds) s1 (avail \<sigma>1 @ concat cs @ future)" by (auto simp: gets_def)
  have "\<forall>d\<in>set (drop m ds). tcp_frame d" using Cons.prems(1) by (auto dest: in_set_dropD)
  from Cons.IH [OF this m(4) rest] obtain n where
    n: "n \<le> length cs" "r2 = map (\<lambda>d. ready_packet raw (data_header d)) (take n (drop m ds))"
      "n \<le> length (drop m ds)" "awaits k (drop n (drop m ds)) s' (avail \<sigma>' @ future)" by blast
  show ?case using m(1-3) n unfolding r
    by (intro exI [of _ "m + n"]) (simp add: take_add add.commute)
qed (auto intro!: exI [of _ 0])

lemma tcp_stream_nil:
  assumes "ns3_ok k" "\<forall>d\<in>set ds. tcp_frame d" "tcp_stream k ds = []"
  shows "ds = []"
proof (cases ds)
  case (Cons d ds')
  then have "tcp_frame d" using assms(2) by simp
  from sent_bytes_split [OF assms(1) this] have "sent_bytes k d \<noteq> []" by force
  then show ?thesis using assms(3) Cons by (simp add: tcp_stream_def)
qed

text \<open>C22: the byte stream refines the sequence of frames. However the stream of frames is cut into pieces on its way, the
  packets that the receiver gives to the decoder are the frames sent, in order, each once, with the headers sent;
  what has not been decoded is exactly what has not been read. When all has been read the decoder has every frame. At
  most one frame is decoded per call, so frames that arrive together wait for later arrivals.\<close>

theorem tcp_frames_in_order:
  assumes "ns3_ok k" "reads_checked k" "recv_ok k recv avail" "arrive_ok arrive avail"
    and "\<forall>d\<in>set ds. tcp_frame d" "tcp_stream k ds = concat cs @ future" "avail \<sigma> = []"
    and "tcp_run k recv arrive raw cs (PacketReceiverTcp_new hdr dec s0) \<sigma> = Inr (ready, s, \<sigma>')"
  shows "\<exists>n \<le> length cs. ready = map (\<lambda>d. ready_packet raw (data_header d)) (take n ds) \<and>
     awaits k (drop n ds) s (avail \<sigma>' @ future) \<and>
     (RecvPktStart s \<and> avail \<sigma>' @ future = [] \<longrightarrow> length ready = length ds)"
proof -
  have "awaits k ds (PacketReceiverTcp_new hdr dec s0) (avail \<sigma> @ concat cs @ future)"
    using assms(6,7) by (simp add: awaits_def PacketReceiverTcp_new_def)
  from tcp_run_steps [OF assms(1-5) this assms(8)] obtain n where
    n: "n \<le> length cs" "ready = map (\<lambda>d. ready_packet raw (data_header d)) (take n ds)"
      "n \<le> length ds" "awaits k (drop n ds) s (avail \<sigma>' @ future)" by blast
  have "length ready = length ds" if "RecvPktStart s" "avail \<sigma>' @ future = []"
  proof -
    have "tcp_stream k (drop n ds) = []" using n(4) that by (simp add: awaits_def)
    moreover have "\<forall>d\<in>set (drop n ds). tcp_frame d" using assms(5) by (auto dest: in_set_dropD)
    ultimately have "drop n ds = []" using tcp_stream_nil [OF assms(1)] by blast
    then show ?thesis using n by simp
  qed
  with n show ?thesis by blast
qed

text \<open>A header that arrives alone: the read of the frame finds nothing.\<close>

lemma header_alone_null:
  assumes "recv_ok k recv avail" "\<And>n \<sigma>. avail \<sigma> = [] \<Longrightarrow> fst (recv n \<sigma>) = None"
    and "RecvPktStart s" "length (avail \<sigma>) = 12" "fst (recv 12 \<sigma>) \<noteq> None"
  shows "\<exists>e. tcp_receive k recv raw s \<sigma> = Inl e"
proof (rule ccontr)
  assume "\<nexists>e. tcp_receive k recv raw s \<sigma> = Inl e"
  then obtain x where run: "tcp_receive k recv raw s \<sigma> = Inr x" by (cases "tcp_receive k recv raw s \<sigma>") auto
  obtain pkt \<sigma>1 where r1: "recv 12 \<sigma> = (Some pkt, \<sigma>1)" using assms(5) by (cases "recv 12 \<sigma>") auto
  have "avail \<sigma>1 = []" using recv_Some(2) [OF assms(1) r1] assms(4) by simp
  then have none: "\<exists>\<sigma>2. recv n \<sigma>1 = (None, \<sigma>2)" for n using assms(2) by (metis prod.collapse)
  obtain h q where h: "RemoveHeader k (DataPacketHeader_Deserialize k (curHdr s)) pkt = Inr (h, q)"
    using run assms(3) r1 by (auto simp: tcp_receive_def dest!: res_bind_InrD)
  then show False using run assms(3) r1 none [of "unat (dh_frame_size h)"] by (auto simp: tcp_receive_def Let_def)
qed

section \<open>The bitrate of the sender\<close>

text \<open>
  The sender after \<open>SetController\<close>: the flags of the last window are as many as the window has
  milliseconds, each write has its time, and the bitrate, once there is one, is within its bounds.
\<close>

definition ts_inv :: "tcp_sender \<Rightarrow> bool" where
  "ts_inv s \<longleftrightarrow> (\<exists>duty. m_dutyState s = Some duty \<and> length duty = unat (kTxRateUpdateWindowMs s)) \<and>
     0 < kTxRateUpdateWindowMs s \<and> length (m_time_history s) = length (m_write_history s) \<and>
     kMinEncodeBps s \<le> kMaxEncodeBps s \<and> unat (kMaxEncodeBps s) < 2 ^ 31 \<and>
     (m_firstUpdate s \<or> kMinEncodeBps s \<le> ts_bitrate s \<and> ts_bitrate s \<le> kMaxEncodeBps s)"

lemma trim_writes_run:
  "length ts = length ws \<Longrightarrow> \<exists>ts' ws'. trim_writes now w ts ws = Inr (ts', ws') \<and> length ts' = length ws' \<and>
     suffix ts' ts \<and> (\<forall>t\<in>set (take 1 ts'). now - t \<le> w)"
proof (induction ts arbitrary: ws)
  case (Cons t ts)
  then obtain x ws' where ws: "ws = x # ws'" "length ts = length ws'" by (cases ws) auto
  show ?case
  proof (cases "now - t > w")
    case True
    obtain ts' us where "trim_writes now w ts ws' = Inr (ts', us)" "length ts' = length us" "suffix ts' ts"
      "\<forall>t\<in>set (take 1 ts'). now - t \<le> w" using Cons.IH [OF ws(2)] by blast
    then show ?thesis using True ws(1)
      by (intro exI [of _ ts'] exI [of _ us]) (simp add: suffix_ConsI)
  next
    case False
    then show ?thesis using ws by (intro exI [of _ "t # ts"] exI [of _ ws]) simp
  qed
qed simp

lemma duty_ratio_bounds:
  assumes "rounding_ok f" "duty \<noteq> []"
  shows "0 \<le> duty_ratio f duty" "duty_ratio f duty \<le> 1"
proof -
  have n: "length (filter id duty) \<le> length duty" "0 < length duty" using assms(2) by simp_all
  show "0 \<le> duty_ratio f duty"
    unfolding duty_ratio_def by (rule rounding_nonneg [OF assms(1)]) simp
  have "of_nat (length (filter id duty)) / of_nat (length duty) \<le> (1 :: rat)"
    using n by (simp add: divide_le_eq)
  then show "duty_ratio f duty \<le> 1" unfolding duty_ratio_def by (rule rounding_le_one [OF assms(1)])
qed

lemma rounding_between:
  assumes "rounding_ok f" "\<bar>n\<bar> \<le> 2 ^ 53" "\<bar>x\<bar> \<le> of_int n"
  shows "\<bar>f x\<bar> \<le> of_int n"
proof -
  have "of_int (- n) \<le> x" "x \<le> of_int n" using assms(3) by auto
  then have "f (of_int (- n)) \<le> f x" "f x \<le> f (of_int n)"
    using rounding_mono [OF assms(1)] by blast+
  moreover have "f (of_int n) = of_int n" by (rule rounding_int [OF assms(1,2)])
  moreover have "f (of_int (- n)) = of_int (- n)" by (rule rounding_int [OF assms(1)]) (simp only: abs_minus_cancel assms(2))
  ultimately show ?thesis by simp
qed

lemma to_word_fits:
  assumes "0 \<le> x" "x < 2 ^ LENGTH('a)"
  shows "\<exists>w. to_word x = Inr (w :: 'a::len word)"
proof -
  have "0 \<le> trunc x" "trunc x < 2 ^ LENGTH('a)" using assms by (simp_all add: trunc_def floor_less_iff)
  then show ?thesis by (simp add: to_word_def)
qed

lemma next_bitrate_run:
  assumes f: "rounding_ok f" and br: "unat br < 2 ^ 31" and duty: "0 \<le> duty" "duty \<le> 1"
  shows "\<exists>br'. next_bitrate f pending sent rate duty br = Inr br'"
proof -
  define b :: rat where "b = of_nat (unat br)"
  have b: "0 \<le> b" unfolding b_def by (rule of_nat_0_le_iff)
  have bi: "b = of_int (int (unat br))" unfolding b_def by (rule of_int_of_nat_eq [symmetric])
  have "of_nat (unat br) < (of_nat (2 ^ 31) :: rat)" using br by (simp only: of_nat_less_iff)
  then have b31: "2 * b < 2 ^ LENGTH(32)" by (simp add: b_def)
  have small: "\<bar>int (unat br)\<bar> \<le> 2 ^ 53" "\<bar>2 * int (unat br)\<bar> \<le> 2 ^ 53"
    using uint_lt(3) [of br] uint_ge_0 [of br] by simp_all
  show ?thesis
  proof (cases "pending > 0")
    case True
    define q where "q = f (drain_share f pending sent * of_nat (unat rate))"
    have "0 \<le> f (1 / 10 :: rat)" by (rule rounding_nonneg [OF f]) simp
    then have "0 \<le> drain_share f pending sent" by (auto simp: drain_share_def max_def)
    then have "0 \<le> q" unfolding q_def by (intro rounding_nonneg [OF f] mult_nonneg_nonneg of_nat_0_le_iff)
    then have m: "0 \<le> min b q" "min b q \<le> b" using b by simp_all
    have "0 \<le> 3 / 4 * min b q" "3 / 4 * min b q \<le> b" using m by linarith+
    then have "\<bar>3 / 4 * min b q\<bar> \<le> of_int (int (unat br))" unfolding bi [symmetric] by simp
    from rounding_between [OF f small(1) this] have "f (3 / 4 * min b q) \<le> b" by (simp only: bi)
    moreover have "0 \<le> f (3 / 4 * min b q)" by (rule rounding_nonneg [OF f]) (use m in simp)
    ultimately have "\<exists>w :: u32. to_word (f (3 / 4 * min b q)) = Inr w" using b31 b by (intro to_word_fits) linarith+
    then show ?thesis using True by (simp only: next_bitrate_def if_True q_def [symmetric] b_def [symmetric])
  next
    case False
    define e where "e = f (1 / 2 * f (duty - 3 / 4))"
    have "\<bar>duty - 3 / 4\<bar> \<le> of_int 1" using duty by simp
    from rounding_between [OF f _ this] have "\<bar>f (duty - 3 / 4)\<bar> \<le> 1" by simp
    then have "\<bar>1 / 2 * f (duty - 3 / 4)\<bar> \<le> of_int 1" by (simp add: abs_mult)
    from rounding_between [OF f _ this] have c: "\<bar>e\<bar> \<le> 1" by (simp add: e_def)
    have "\<bar>e * b\<bar> \<le> of_int (int (unat br))"
      using mult_right_mono [OF c b] b unfolding bi [symmetric] by (simp add: abs_mult)
    from rounding_between [OF f small(1) this] have d: "\<bar>f (e * b)\<bar> \<le> b" by (simp only: bi)
    then have nn: "0 \<le> b - f (e * b)" by linarith
    have "\<bar>b - f (e * b)\<bar> \<le> of_int (2 * int (unat br))"
      using d b unfolding of_int_mult bi [symmetric] by simp
    from rounding_between [OF f small(2) this] have "f (b - f (e * b)) \<le> 2 * b"
      unfolding of_int_mult bi [symmetric] by simp
    moreover have "0 \<le> f (b - f (e * b))" using rounding_nonneg [OF f nn] .
    ultimately have "\<exists>w :: u32. to_word (f (b - f (e * b))) = Inr w" using b31 by (intro to_word_fits) linarith+
    then show ?thesis using False by (simp only: next_bitrate_def if_False e_def [symmetric] b_def [symmetric])
  qed
qed

text \<open>The fill of the send buffer that the connection had at an update.\<close>

definition pending_bytes :: "u32 \<Rightarrow> u32 \<Rightarrow> tcp_sender \<Rightarrow> u32" where
  "pending_bytes sentsize txavailable s = m_txBufSize s - sentsize - txavailable"

text \<open>The sending rate. While the buffer holds less than \<open>2 ^ 31\<close> bytes, an update of a
  sender that has its controller never fails, leaves the bitrate within the configured bounds, whatever
  the buffer, the writes and the duty flags were and however doubles are rounded, and keeps the state ready for the
  next update. The first update starts from the lower bound.\<close>

theorem tcp_rate_bounded:
  assumes "ts_inv s" "rounding_ok f"
    and "unat (pending_bytes sentsize txavailable s) < 2 ^ 31" "unat (m_lastPendingBuf s) < 2 ^ 31"
  shows "\<exists>s'. Tcp_UpdateSendingRate f sentsize txavailable now s = Inr s' \<and> ts_inv s' \<and>
    kMinEncodeBps s \<le> ts_bitrate s' \<and> ts_bitrate s' \<le> kMaxEncodeBps s \<and>
    (m_firstUpdate s \<longrightarrow> ts_bitrate s' = kMinEncodeBps s) \<and>
    m_lastPendingBuf s' = pending_bytes sentsize txavailable s"
proof -
  let ?p = "pending_bytes sentsize txavailable s" and ?w = "kTxRateUpdateWindowMs s"
  obtain duty where duty: "m_dutyState s = Some duty" "length duty = unat ?w"
    using assms(1) by (auto simp: ts_inv_def)
  have w: "?w \<noteq> 0" "duty \<noteq> []" using assms(1) duty(2) by (auto simp: ts_inv_def unat_eq_0)
  have "0 \<le> sint x \<and> sint x < 2 ^ 31" if "unat x < 2 ^ 31" for x :: u32
  proof -
    have "int (unat x) < int (2 ^ 31)" using that by (simp only: of_nat_less_iff)
    then have u: "uint x < 2 ^ 31" unfolding of_nat_unat [of x] by (simp only: of_nat_power of_nat_numeral)
    have "- (2 ^ 31) \<le> uint x" using uint_ge_0 [of x] by (rule order_trans [rotated]) simp
    then have "signed_take_bit 31 (uint x) = uint x" using u by (rule signed_take_bit_int_eq_self)
    then have "sint x = uint x" using sint_uint [of x] by simp
    then show ?thesis using u uint_ge_0 [of x] by metis
  qed
  from this [OF assms(3)] this [OF assms(4)]
  have delta: "\<not> (sint ?p - sint (m_lastPendingBuf s) < - (2 ^ 31) \<or> 2 ^ 31 \<le> sint ?p - sint (m_lastPendingBuf s))"
    by simp
  obtain ts ws where trim: "trim_writes (GetMilliSeconds now) (uint ?w) (m_time_history s) (m_write_history s) = Inr (ts, ws)"
    "length ts = length ws" using trim_writes_run assms(1) unfolding ts_inv_def by metis
  show ?thesis
  proof (cases "m_firstUpdate s")
    case True
    then show ?thesis using delta trim duty assms(1)
      by (simp add: Tcp_UpdateSendingRate_def Let_def pending_bytes_def ts_inv_def)
  next
    case False
    have "unat (ts_bitrate s) < 2 ^ 31" using False assms(1) by (auto simp: ts_inv_def word_le_nat_alt)
    from next_bitrate_run [OF assms(2) this duty_ratio_bounds [OF assms(2) w(2)]]
    have "\<exists>br. next_bitrate f ?p sent rate (duty_ratio f duty) (ts_bitrate s) = Inr br" for sent rate by blast
    then obtain br where br: "next_bitrate f ?p (sum_list ws - word_of_int (sint ?p - sint (m_lastPendingBuf s)))
        ((sum_list ws - word_of_int (sint ?p - sint (m_lastPendingBuf s))) * 1000 * 8 div ?w)
        (duty_ratio f duty) (ts_bitrate s) = Inr br" by blast
    have "kMinEncodeBps s \<le> kMaxEncodeBps s" using assms(1) by (simp add: ts_inv_def)
    then show ?thesis using False delta trim duty w br assms(1)
      by (simp add: Tcp_UpdateSendingRate_def Let_def pending_bytes_def ts_inv_def)
  qed
qed

text \<open>A sender as \<open>GameServer\<close> makes it.\<close>

definition example_tcp :: "tcp_sender \<Rightarrow> tcp_sender" where
  "example_tcp raw = (Tcp_SetController (PacketSenderTcp_new 100000 100000000 raw))
     \<lparr>m_txBufSize := 131072, m_firstUpdate := False, ts_bitrate := 500000\<rparr>"

lemma example_tcp_inv: "ts_inv (example_tcp raw)" "m_lastPendingBuf (example_tcp raw) = 0"
  "m_txBufSize (example_tcp raw) = 131072" "kMinEncodeBps (example_tcp raw) = 100000"
  "kMaxEncodeBps (example_tcp raw) = 100000000"
  by (simp_all add: ts_inv_def example_tcp_def Tcp_SetController_def PacketSenderTcp_new_def time_defs Let_def
      word_less_nat_alt word_le_nat_alt)

theorem tcp_rate_bounded_witness:
  "\<forall>raw. \<exists>s'. Tcp_UpdateSendingRate id 1000 130000 40000000 (example_tcp raw) = Inr s' \<and>
     100000 \<le> ts_bitrate s' \<and> ts_bitrate s' \<le> 100000000"
proof
  fix raw
  have "unat (pending_bytes 1000 130000 (example_tcp raw)) < 2 ^ 31" "unat (m_lastPendingBuf (example_tcp raw)) < 2 ^ 31"
    by (simp_all add: pending_bytes_def example_tcp_inv)
  moreover have "rounding_ok id" by (simp add: rounding_ok_def)
  ultimately show "\<exists>s'. Tcp_UpdateSendingRate id 1000 130000 40000000 (example_tcp raw) = Inr s' \<and>
     100000 \<le> ts_bitrate s' \<and> ts_bitrate s' \<le> 100000000"
    using tcp_rate_bounded [OF example_tcp_inv(1), of id 1000 130000 raw 40000000]
    unfolding example_tcp_inv by blast
qed

text \<open>A stream of one frame that arrives in two pieces, over a socket that is a list of bytes.\<close>

definition list_recv :: "(bytes, bytes) recv" where
  "list_recv n bs = (if n = 0 \<or> bs = [] then (None, bs) else (Some (take n bs), drop n bs))"

definition example_frame_packet :: DataPacket where
  "example_frame_packet = example_data\<lparr>payload_size := 3,
     data_header := (data_header example_data)\<lparr>dh_frame_size := 3\<rparr>\<rparr>"

lemma list_recv_ok: "recv_ok plain_ns3 list_recv id" "arrive_ok (\<lambda>c \<sigma>. \<sigma> @ c) id" "reads_checked plain_ns3"
proof -
  show "recv_ok plain_ns3 list_recv id" "arrive_ok (\<lambda>c \<sigma>. \<sigma> @ c) id"
    by (auto simp: recv_ok_def list_recv_def plain_ns3_def arrive_ok_def)
  show "reads_checked plain_ns3"
    by (auto simp: reads_checked_def DataPacketHeader_Deserialize_def rd_bind_def rd_return_def plain_ns3_def
        be_read_def split: sum.split)
qed

lemma example_stream_bytes:
  "tcp_stream plain_ns3 [example_frame_packet] = [0, 0, 0, 5, 0, 0, 0, 3, 0, 4, 0, 1] @ [0, 0, 0]"
proof -
  have "DataPacketHeader_Serialize plain_ns3 (data_header example_frame_packet) = [0, 0, 0, 5, 0, 0, 0, 3, 0, 4, 0, 1]"
    by code_simp
  moreover have "PeekBytes plain_ns3 (CreatePacket plain_ns3 3) = [0, 0, 0]" by code_simp
  moreover have "payload_size example_frame_packet = 3" by (simp add: example_frame_packet_def)
  ultimately show ?thesis
    by (simp add: tcp_stream_def sent_bytes_def DataPacket_ToTcpSendPacket_def AddHeader_def ns3_packet [OF plain_ns3_ok])
qed

theorem tcp_frames_in_order_witness:
  "\<forall>raw hdr dec s0. \<exists>s \<sigma>'.
     tcp_run plain_ns3 list_recv (\<lambda>c \<sigma>. \<sigma> @ c) raw
       [take 14 (tcp_stream plain_ns3 [example_frame_packet]), drop 14 (tcp_stream plain_ns3 [example_frame_packet])]
       (PacketReceiverTcp_new hdr dec s0) [] = Inr ([ready_packet raw (data_header example_frame_packet)], s, \<sigma>')"
proof (intro allI)
  fix raw hdr dec s0
  let ?ds = "[example_frame_packet]" and ?s = "PacketReceiverTcp_new hdr dec s0"
  let ?cs = "[take 14 (tcp_stream plain_ns3 ?ds), drop 14 (tcp_stream plain_ns3 ?ds)]"
  obtain ready s \<sigma>' where run: "tcp_run plain_ns3 list_recv (\<lambda>c \<sigma>. \<sigma> @ c) raw ?cs ?s [] = Inr (ready, s, \<sigma>')"
    and e: "RecvPktStart s" "\<sigma>' = []"
    unfolding example_stream_bytes
    by (auto simp: tcp_receive_def list_recv_def PacketReceiverTcp_new_def RemoveHeader_def Let_def tcp_finish_def
        DataPacketHeader_Deserialize_def rd_bind_def rd_return_def plain_ns3_def be_read_def unbe_def)
  have "\<forall>d\<in>set ?ds. tcp_frame d" by (simp add: tcp_frame_def example_frame_packet_def)
  from tcp_frames_in_order [OF plain_ns3_ok list_recv_ok(3,1,2) this _ _ run, of "[]"] e run
  show "\<exists>s \<sigma>'. tcp_run plain_ns3 list_recv (\<lambda>c \<sigma>. \<sigma> @ c) raw ?cs ?s [] =
      Inr ([ready_packet raw (data_header example_frame_packet)], s, \<sigma>')" by auto
qed

end
