(* ===== verification/Game_App.thy ===== *)
theory Game_App
  imports Sender_Window Tcp_Stream Receiver_Udp
begin

text \<open>
  The application: the video encoder (\<open>bitrate-ctrl/model/video-encoder.\{h,cc\}\<close>), the server
  (\<open>game-server.\{h,cc\}\<close>) that owns it and a packet sender, and the client (\<open>game-client.\{h,cc\}\<close>) that
  owns the decoder and a packet receiver. The encoder calls the server with every frame, the server cuts it
  into packets, the sender's congestion control sets the bitrate of the encoder.
\<close>

section \<open>The encoder\<close>

record encoder =
  enc_fps :: u8
  enc_bitrate :: u32
  frame_count :: u64

definition DumbVideoEncoder_new :: "u8 \<Rightarrow> u32 \<Rightarrow> encoder" where
  "DumbVideoEncoder_new fps bitrate = \<lparr>enc_fps = fps, enc_bitrate = bitrate, frame_count = 0\<rparr>"

definition SetFPS :: "u8 \<Rightarrow> encoder \<Rightarrow> encoder" where
  "SetFPS fps e = e\<lparr>enc_fps := fps\<rparr>"

definition SetBitrate :: "u32 \<Rightarrow> encoder \<Rightarrow> encoder" where
  "SetBitrate bitrate_kbps e = e\<lparr>enc_bitrate := bitrate_kbps\<rparr>"

definition next_encoding :: "rounding \<Rightarrow> encoder \<Rightarrow> time res" where
  "next_encoding f e =
     (if enc_fps e = 0 then Inl UndefinedBehaviour
      else res_bind (to_word (f (1000000 / of_nat (unat (enc_fps e)))) :: u64 res) (\<lambda>us.
           Inr (MicroSeconds (uint us))))"

definition encoded_size :: "encoder \<Rightarrow> u32 res" where
  "encoded_size e =
     (if enc_fps e = 0 then Inl UndefinedBehaviour
      else Inr (enc_bitrate e * 1000 div 8 div ucast (enc_fps e)))"

section \<open>The server\<close>

datatype ('p, 'c) packet_sender = UdpSender "('p, 'c) sender" | TcpSender tcp_sender

datatype 'p server_event =
    TcpEvent "'p tcp_event"
  | EncodeNow
  | EncodeAfter time
  | EncodeCancel

record ('p, 'c) server =
  sv_sender :: "('p, 'c) packet_sender option"
  sv_encoder :: "encoder option"
  sv_kMinEncodeBps :: u32
  sv_kMaxEncodeBps :: u32
  sv_frame_id :: u32
  sv_fps :: u8
  sv_bitrate :: u32
  sv_cca :: string
  sv_send_frame_cnt :: u64
  sv_send_group_cnt :: u64
  sv_out :: "'p server_event list"

definition GameServer_new :: "('p, 'c) server \<Rightarrow> ('p, 'c) server" where
  "GameServer_new raw = raw\<lparr>sv_sender := None, sv_encoder := None, sv_kMinEncodeBps := 100000,
     sv_kMaxEncodeBps := 100000000, sv_frame_id := 0, sv_fps := 0, sv_bitrate := 0, sv_cca := ''Fixed'', sv_out := []\<rparr>"

text \<open>The environment of the server: the one of its UDP sender, the memory of new objects and the controllers.\<close>

record ('p, 'c) server_env =
  se_sender :: "('p, 'c) sender_env"
  se_rand :: "nat \<Rightarrow> bool"
  se_raw_stat :: NetStat
  se_raw_udp :: "('p, 'c) sender"
  se_raw_tcp :: tcp_sender
  se_gcc :: 'c
  se_nada :: 'c
  se_atof :: "string \<Rightarrow> rat"
  se_trace :: "string list"
  se_sndBufSize :: u64

definition GameServer_Setup :: "('p, 'c) server_env \<Rightarrow> time \<Rightarrow> u16 \<Rightarrow> bool \<Rightarrow> ('p, 'c) server \<Rightarrow> ('p, 'c) server res" where
  "GameServer_Setup env delayDdl interval tcpEnabled sv =
     (if interval = 0 then Inl UndefinedBehaviour
      else
        let sv = sv\<lparr>sv_encoder := Some (DumbVideoEncoder_new (ucast (1000 div interval)) (sv_bitrate sv))\<rparr>
        in if tcpEnabled
           then Inr (sv\<lparr>sv_sender := Some (TcpSender (PacketSenderTcp_new (sv_kMinEncodeBps sv)
                        (sv_kMaxEncodeBps sv) (se_raw_tcp env))), sv_send_frame_cnt := 0\<rparr>)
           else res_bind (PacketSenderUdp_new (sn_fl (se_sender env)) (se_rand env) delayDdl interval
                            (se_raw_stat env) (se_raw_udp env)) (\<lambda>s.
                Inr (sv\<lparr>sv_sender := Some (UdpSender s), sv_send_frame_cnt := 0\<rparr>)))"

definition Server_SetController :: "string \<Rightarrow> ('p, 'c) server \<Rightarrow> ('p, 'c) server" where
  "Server_SetController cca sv = sv\<lparr>sv_cca := cca\<rparr>"

text \<open>\<open>StartApplication\<close> starts the sender, gives it its controller and encodes the first frame.\<close>

definition Server_StartApplication :: "('p, 'c) server_env \<Rightarrow> ('p, 'c) server \<Rightarrow> ('p, 'c) server res" where
  "Server_StartApplication env sv =
     (case sv_sender sv of
        None \<Rightarrow> Inl NullDeref
      | Some (UdpSender s) \<Rightarrow>
          res_bind (Sender_StartApplication (se_atof env) (se_trace env) s) (\<lambda>s.
          res_bind (SetController (sv_cca sv) (se_gcc env) (se_nada env) s) (\<lambda>s.
          if sv_encoder sv = None then Inl NullDeref
          else Inr (sv\<lparr>sv_sender := Some (UdpSender s), sv_out := sv_out sv @ [EncodeNow]\<rparr>)))
      | Some (TcpSender s) \<Rightarrow>
          res_bind (Tcp_StartApplication (se_sndBufSize env) s) (\<lambda>(s, es).
          if sv_encoder sv = None then Inl NullDeref
          else Inr (sv\<lparr>sv_sender := Some (TcpSender (Tcp_SetController s)),
                       sv_out := sv_out sv @ map TcpEvent es @ [EncodeNow]\<rparr>)))"

definition Server_StopApplication :: "('p, 'c) server \<Rightarrow> ('p, 'c) server res" where
  "Server_StopApplication sv =
     (case sv_sender sv of
        None \<Rightarrow> Inl NullDeref
      | Some (UdpSender s) \<Rightarrow> Inr (sv\<lparr>sv_sender := Some (UdpSender (Sender_StopRunning s))\<rparr>)
      | Some (TcpSender s) \<Rightarrow>
          let (s, es) = Tcp_StopRunning s
          in Inr (sv\<lparr>sv_sender := Some (TcpSender s), sv_out := sv_out sv @ map TcpEvent es\<rparr>))"

definition Server_StopEncoding :: "('p, 'c) server \<Rightarrow> ('p, 'c) server res" where
  "Server_StopEncoding sv =
     (if sv_encoder sv = None then Inl NullDeref else Inr (sv\<lparr>sv_out := sv_out sv @ [EncodeCancel]\<rparr>))"

text \<open>The call from the sender, with the bitrate it has computed.\<close>

definition Server_UpdateBitrate :: "u32 \<Rightarrow> ('p, 'c) server \<Rightarrow> ('p, 'c) server res" where
  "Server_UpdateBitrate encodeRateBps sv =
     (let r = min (max encodeRateBps (sv_kMinEncodeBps sv)) (sv_kMaxEncodeBps sv)
      in case sv_encoder sv of
           None \<Rightarrow> Inl NullDeref
         | Some e \<Rightarrow> Inr (sv\<lparr>sv_encoder := Some (SetBitrate (drop_bit 10 r) e)\<rparr>))"

text \<open>The calls made while the sender ran: its new output tells them.\<close>

fun hear_rates :: "'p sender_event list \<Rightarrow> ('p, 'c) server \<Rightarrow> ('p, 'c) server res" where
  "hear_rates [] sv = Inr sv"
| "hear_rates (Encode r # es) sv = res_bind (Server_UpdateBitrate r sv) (hear_rates es)"
| "hear_rates (_ # es) sv = hear_rates es sv"

definition Server_CreateFrame :: "('p, 'c) server_env \<Rightarrow> time \<Rightarrow> u32 \<Rightarrow> u16 \<Rightarrow> u16 \<Rightarrow> u16 \<Rightarrow> u32 \<Rightarrow>
    ('p, 'c) server \<Rightarrow> ('p, 'c) server res" where
  "Server_CreateFrame env now frame_id pkt_id max_payload data_pkt_num data_size sv =
     (case sv_sender sv of
        None \<Rightarrow> Inl NullDeref
      | Some (UdpSender s) \<Rightarrow>
          res_bind (CreateFrame (se_sender env) now frame_id pkt_id max_payload data_pkt_num data_size s) (\<lambda>s'.
          hear_rates (drop (length (s_out s)) (s_out s')) (sv\<lparr>sv_sender := Some (UdpSender s')\<rparr>))
      | Some (TcpSender s) \<Rightarrow>
          let (s', es) = Tcp_CreateFrame (raw_data (sn_raw (se_sender env))) now frame_id pkt_id data_size s
          in Inr (sv\<lparr>sv_sender := Some (TcpSender s'), sv_out := sv_out sv @ map TcpEvent es\<rparr>))"

definition pkts_of_size :: "u32 \<Rightarrow> u16" where
  "pkts_of_size data_size =
     (let m = ucast DataPacket_GetMaxPayloadSize
      in ucast (data_size div m + (if data_size mod m \<noteq> 0 then 1 else 0)))"

definition Server_SendFrame :: "('p, 'c) server_env \<Rightarrow> time \<Rightarrow> u32 \<Rightarrow> ('p, 'c) server \<Rightarrow> ('p, 'c) server res" where
  "Server_SendFrame env now data_size sv =
     (if data_size = 0 then Inr sv
      else Server_CreateFrame env now (sv_frame_id sv) 0 DataPacket_GetMaxPayloadSize (pkts_of_size data_size) data_size
             (sv\<lparr>sv_send_frame_cnt := sv_send_frame_cnt sv + 1, sv_frame_id := sv_frame_id sv + 1\<rparr>))"

text \<open>\<open>DumbVideoEncoder::EncodeFrame\<close>, called by the simulator.\<close>

definition EncodeFrame :: "('p, 'c) server_env \<Rightarrow> time \<Rightarrow> ('p, 'c) server \<Rightarrow> ('p, 'c) server res" where
  "EncodeFrame env now sv =
     (case sv_encoder sv of
        None \<Rightarrow> Inl NullDeref
      | Some e \<Rightarrow>
          res_bind (encoded_size e) (\<lambda>frame_size.
          res_bind (Server_SendFrame env now frame_size sv) (\<lambda>sv.
          case sv_encoder sv of
            None \<Rightarrow> Inl NullDeref
          | Some e \<Rightarrow>
              res_bind (next_encoding (sn_fl (se_sender env)) e) (\<lambda>t.
              Inr (sv\<lparr>sv_encoder := Some (e\<lparr>frame_count := frame_count e + 1\<rparr>),
                      sv_out := sv_out sv @ [EncodeAfter t]\<rparr>)))))"

text \<open>The 40 ms timer of the sender; the fill levels are the TCP socket's.\<close>

definition Server_CcTimer :: "('p, 'c) server_env \<Rightarrow> u32 \<Rightarrow> u32 \<Rightarrow> time \<Rightarrow> ('p, 'c) server \<Rightarrow> ('p, 'c) server res" where
  "Server_CcTimer env sentsize txavailable now sv =
     (case sv_sender sv of
        None \<Rightarrow> Inl NullDeref
      | Some (UdpSender s) \<Rightarrow>
          res_bind (UpdateBitrate (se_sender env) (s\<lparr>m_cc_timer := False\<rparr>)) (\<lambda>s'.
          hear_rates (drop (length (s_out s)) (s_out s')) (sv\<lparr>sv_sender := Some (UdpSender s')\<rparr>))
      | Some (TcpSender s) \<Rightarrow>
          res_bind (Tcp_UpdateBitrate (sn_fl (se_sender env)) sentsize txavailable now s) (\<lambda>(s', es :: 'p tcp_event list).
          let sv = sv\<lparr>sv_sender := Some (TcpSender s')\<rparr>
          in if es = [] then Inr sv else Server_UpdateBitrate (ts_bitrate s') sv))"

section \<open>The client\<close>

datatype packet_receiver = UdpReceiver receiver | TcpReceiver tcp_receiver

record client =
  cl_receiver :: "packet_receiver option"
  cl_decoder :: "VideoDecoder option"
  cl_fps :: u8
  cl_delay_ddl :: time
  cl_interval :: u16
  cl_cc_create :: bool
  cl_receiver_window :: u32

definition GameClient_new :: "client \<Rightarrow> client" where
  "GameClient_new raw = raw\<lparr>cl_receiver := None, cl_decoder := None, cl_fps := 0, cl_receiver_window := 34000\<rparr>"

definition GameClient_Setup :: "u32 \<Rightarrow> u16 \<Rightarrow> u16 \<Rightarrow> u16 \<Rightarrow> time \<Rightarrow> bool \<Rightarrow> DataPacketHeader \<Rightarrow> receiver \<Rightarrow> tcp_receiver
    \<Rightarrow> client \<Rightarrow> client res" where
  "GameClient_Setup srcIP srcPort destPort interval ddl cc_create hdr raw_udp raw_tcp cl =
     (if interval = 0 then Inl UndefinedBehaviour
      else
        let fps = ucast (1000 div interval) :: u8
        in res_bind (VideoDecoder_ctor ddl (ucast fps)) (\<lambda>dec.
           Inr (cl\<lparr>cl_fps := fps, cl_decoder := Some dec, cl_delay_ddl := ddl, cl_interval := interval,
                   cl_cc_create := cc_create, cl_receiver := Some
                     (if cc_create then TcpReceiver (PacketReceiverTcp_new hdr dec raw_tcp)
                      else UdpReceiver (PacketReceiverUdp_new (cl_receiver_window cl) interval srcIP srcPort
                             destPort raw_udp))\<rparr>)))"

definition Client_StartApplication :: "client \<Rightarrow> client res" where
  "Client_StartApplication cl =
     (case (cl_receiver cl, cl_decoder cl) of
        (Some (UdpReceiver r), Some dec) \<Rightarrow>
          Inr (cl\<lparr>cl_receiver := Some (UdpReceiver (Receiver_StartApplication dec (cl_delay_ddl cl) r))\<rparr>)
      | (Some (TcpReceiver r), _) \<Rightarrow> Inr cl
      | _ \<Rightarrow> Inl NullDeref)"

definition Client_StopApplication :: "rounding \<Rightarrow> client \<Rightarrow> client res" where
  "Client_StopApplication f cl =
     (case cl_receiver cl of
        None \<Rightarrow> Inl NullDeref
      | Some (UdpReceiver r) \<Rightarrow> res_bind (Receiver_StopRunning f r) (\<lambda>r. Inr (cl\<lparr>cl_receiver := Some (UdpReceiver r)\<rparr>))
      | Some (TcpReceiver r) \<Rightarrow> Inr cl)"

text \<open>The frame acknowledgement that goes out, where there is one.\<close>

definition ReplyFrameACK :: "FrameAckPacket \<Rightarrow> u32 \<Rightarrow> time \<Rightarrow> client \<Rightarrow> net_packet list res" where
  "ReplyFrameACK raw frame_id frame_encode_time cl =
     (if cl_cc_create cl then Inr []
      else if cl_receiver cl = None then Inl NullDeref
      else Inr [FrameAckP (FrameAckPacket_ctor frame_id frame_encode_time raw)])"

section \<open>The frames of the encoder\<close>

text \<open>The bitrate of the encoder is 0 at first and then between the server's bounds, in units of 1024 bit/s.\<close>

definition encoder_ok :: "encoder \<Rightarrow> bool" where
  "encoder_ok e \<longleftrightarrow> enc_fps e \<noteq> 0 \<and> (enc_bitrate e = 0 \<or> 97 \<le> enc_bitrate e \<and> enc_bitrate e \<le> 97656)"

definition server_ok :: "('p, 'c) server \<Rightarrow> bool" where
  "server_ok sv \<longleftrightarrow> sv_kMinEncodeBps sv = 100000 \<and> sv_kMaxEncodeBps sv = 100000000 \<and>
     (\<exists>e. sv_encoder sv = Some e \<and> encoder_ok e)"

text \<open>What can happen to a running server; \<open>sender\<close> is anything else that its sender does on its own.\<close>

inductive server_run :: "('p, 'c) server_env \<Rightarrow> ('p, 'c) server \<Rightarrow> ('p, 'c) server \<Rightarrow> bool" for env sv0 where
  init: "server_run env sv0 sv0"
| start: "server_run env sv0 sv \<Longrightarrow> Server_StartApplication env sv = Inr sv' \<Longrightarrow> server_run env sv0 sv'"
| encode: "server_run env sv0 sv \<Longrightarrow> EncodeFrame env now sv = Inr sv' \<Longrightarrow> server_run env sv0 sv'"
| timer: "server_run env sv0 sv \<Longrightarrow> Server_CcTimer env sentsize avail now sv = Inr sv' \<Longrightarrow> server_run env sv0 sv'"
| sender: "server_run env sv0 sv \<Longrightarrow> server_run env sv0 (sv\<lparr>sv_sender := Some x\<rparr>)"
| stop_encoding: "server_run env sv0 sv \<Longrightarrow> Server_StopEncoding sv = Inr sv' \<Longrightarrow> server_run env sv0 sv'"
| stop: "server_run env sv0 sv \<Longrightarrow> Server_StopApplication sv = Inr sv' \<Longrightarrow> server_run env sv0 sv'"

lemma server_ok_update [simp]:
  "server_ok (sv\<lparr>sv_sender := x\<rparr>) = server_ok sv" "server_ok (sv\<lparr>sv_out := es\<rparr>) = server_ok sv"
  "server_ok (sv\<lparr>sv_send_frame_cnt := n\<rparr>) = server_ok sv" "server_ok (sv\<lparr>sv_frame_id := i\<rparr>) = server_ok sv"
  by (simp_all add: server_ok_def)

lemma rate_bounds:
  "97 \<le> drop_bit 10 (min (max r 100000) 100000000 :: u32)" "drop_bit 10 (min (max r 100000) 100000000 :: u32) \<le> 97656"
proof -
  have u: "unat (drop_bit 10 w :: u32) = unat w div 1024" for w :: u32
    by (simp add: drop_bit_eq_div unat_div)
  have "100000 \<le> unat (min (max r 100000) 100000000 :: u32)" "unat (min (max r 100000) 100000000 :: u32) \<le> 100000000"
    by (auto simp: min_def max_def word_le_nat_alt)
  then show "97 \<le> drop_bit 10 (min (max r 100000) 100000000 :: u32)"
    "drop_bit 10 (min (max r 100000) 100000000 :: u32) \<le> 97656"
    using div_le_mono [of 100000 "unat (min (max r 100000) 100000000 :: u32)" 1024]
      div_le_mono [of "unat (min (max r 100000) 100000000 :: u32)" 100000000 1024]
    by (simp_all add: word_le_nat_alt u)
qed

lemma UpdateBitrate_ok: "Server_UpdateBitrate r sv = Inr sv' \<Longrightarrow> server_ok sv \<Longrightarrow> server_ok sv'"
  using rate_bounds [of r]
  by (auto simp: server_ok_def Server_UpdateBitrate_def Let_def SetBitrate_def encoder_ok_def)

lemma UpdateBitrate_sender_ok:
  "Server_UpdateBitrate r (sv\<lparr>sv_sender := x\<rparr>) = Inr sv' \<Longrightarrow> server_ok sv \<Longrightarrow> server_ok sv'"
  using UpdateBitrate_ok by (metis server_ok_update(1))

lemma hear_rates_ok: "hear_rates es sv = Inr sv' \<Longrightarrow> server_ok sv \<Longrightarrow> server_ok sv'"
  by (induction es sv rule: hear_rates.induct) (auto dest!: res_bind_InrD dest: UpdateBitrate_ok)

lemma SendFrame_ok: "Server_SendFrame env now sz sv = Inr sv' \<Longrightarrow> server_ok sv \<Longrightarrow> server_ok sv'"
  by (auto simp: Server_SendFrame_def Server_CreateFrame_def Tcp_CreateFrame_def Let_def dest!: res_bind_InrD
      dest: hear_rates_ok split: if_splits option.splits packet_sender.splits prod.splits)

lemma EncodeFrame_ok: "EncodeFrame env now sv = Inr sv' \<Longrightarrow> server_ok sv \<Longrightarrow> server_ok sv'"
proof -
  assume run: "EncodeFrame env now sv = Inr sv'" and ok: "server_ok sv"
  then obtain n sv1 t e where 1: "Server_SendFrame env now n sv = Inr sv1" "sv_encoder sv1 = Some e"
    and 2: "sv' = sv1\<lparr>sv_encoder := Some (e\<lparr>frame_count := frame_count e + 1\<rparr>), sv_out := sv_out sv1 @ [EncodeAfter t]\<rparr>"
    by (auto simp: EncodeFrame_def dest!: res_bind_InrD split: option.splits)
  from SendFrame_ok [OF 1(1) ok] 1(2) show ?thesis unfolding 2 by (simp add: server_ok_def encoder_ok_def)
qed

lemma CcTimer_ok: "Server_CcTimer env a b now sv = Inr sv' \<Longrightarrow> server_ok sv \<Longrightarrow> server_ok sv'"
  by (auto simp: Server_CcTimer_def Let_def dest!: res_bind_InrD dest: hear_rates_ok UpdateBitrate_sender_ok
      split: if_splits option.splits packet_sender.splits prod.splits)

lemma server_run_ok: "server_run env sv0 sv \<Longrightarrow> server_ok sv0 \<Longrightarrow> server_ok sv"
proof (induction rule: server_run.induct)
  case (start sv sv')
  then show ?case
    by (auto simp: Server_StartApplication_def Let_def dest!: res_bind_InrD split: if_splits option.splits packet_sender.splits prod.splits)
next
  case (encode sv now sv')
  then show ?case using EncodeFrame_ok by blast
next
  case (timer sv sentsize avail now sv')
  then show ?case using CcTimer_ok by blast
next
  case (stop_encoding sv sv')
  then show ?case by (auto simp: Server_StopEncoding_def split: if_splits)
next
  case (stop sv sv')
  then show ?case by (auto simp: Server_StopApplication_def Let_def split: option.splits packet_sender.splits prod.splits)
qed simp_all

lemma div_nonzero:
  fixes interval :: u16
  assumes "interval \<noteq> 0" "interval \<le> 1000"
  shows "(ucast (1000 div interval) :: u8) \<noteq> 0"
proof
  assume z: "(ucast (1000 div interval) :: u8) = 0"
  let ?i = "unat interval"
  have i: "0 < ?i" "?i \<le> 1000" using assms by (auto simp: word_le_nat_alt unat_gt_0)
  have "unat (ucast (1000 div interval) :: u8) = (1000 div ?i) mod 256"
    by (simp add: unsigned_ucast_eq take_bit_eq_mod unat_div)
  then have m: "(1000 div ?i) mod 256 = 0" using z by simp
  have "0 < 1000 div ?i" using i by (simp add: div_greater_zero_iff)
  have "1000 div ?i \<noteq> 256 \<and> 1000 div ?i \<noteq> 512 \<and> 1000 div ?i \<noteq> 768"
  proof -
    have "1000 div ?i = 1000 \<or> 1000 div ?i = 500 \<or> 1000 div ?i = 333 \<or> 1000 div ?i \<le> 250"
    proof (cases "?i \<le> 3")
      case True
      then have "?i = 1 \<or> ?i = 2 \<or> ?i = 3" using i by auto
      then show ?thesis by (elim disjE) simp_all
    next
      case False
      then have "1000 div ?i \<le> 1000 div 4" by (intro div_le_mono2) simp_all
      then show ?thesis by simp
    qed
    then show ?thesis by auto
  qed
  moreover have "1000 div ?i \<le> 1000" by simp
  moreover have "k mod 256 = 0 \<Longrightarrow> 0 < k \<Longrightarrow> k \<le> 1000 \<Longrightarrow> k = 256 \<or> k = 512 \<or> k = 768" for k :: nat
    by presburger
  from this [of "1000 div ?i"] have "1000 div ?i \<le> 1000 \<Longrightarrow> 1000 div ?i = 256 \<or> 1000 div ?i = 512 \<or> 1000 div ?i = 768"
    using m \<open>0 < 1000 div ?i\<close> by blast
  ultimately show False by blast
qed

lemma encoded_size_exact:
  assumes "encoder_ok e"
  shows "\<exists>n. encoded_size e = Inr n \<and> unat n = unat (enc_bitrate e) * 125 div unat (enc_fps e) \<and> unat n \<le> 12207000"
proof -
  have fps: "enc_fps e \<noteq> 0" and br: "unat (enc_bitrate e) \<le> 97656"
    using assms by (auto simp: encoder_ok_def word_le_nat_alt)
  have m: "unat (enc_bitrate e * 1000) = unat (enc_bitrate e) * 1000"
    using br by (simp add: unat_word_ariths(2))
  have f: "unat (ucast (enc_fps e) :: u32) = unat (enc_fps e)"
    using unat_lt(1) [of "enc_fps e"] by (simp add: unsigned_ucast_eq take_bit_nat_eq_self)
  have "unat (enc_bitrate e * 1000 div 8 div ucast (enc_fps e)) = unat (enc_bitrate e) * 1000 div 8 div unat (enc_fps e)"
    by (simp add: unat_div m f)
  moreover have "unat (enc_bitrate e) * 1000 div 8 = unat (enc_bitrate e) * 125" by simp
  moreover have "unat (enc_bitrate e) * 125 div unat (enc_fps e) \<le> 12207000"
    using br by (intro order_trans [OF div_le_dividend]) simp
  ultimately show ?thesis using fps by (simp add: encoded_size_def)
qed

lemma ceil_div:
  fixes k m :: nat
  assumes "0 < m"
  shows "k div m + (if k mod m \<noteq> 0 then 1 else 0) = (k + m - 1) div m"
proof -
  define a b where "a = k div m" and "b = k mod m"
  have k: "k = b + a * m" and b: "b < m" using assms by (simp_all add: a_def b_def)
  show ?thesis
  proof (cases "b = 0")
    case True
    have "(k + m - 1) div m = a"
      using k assms True by (intro div_nat_eqI) (simp_all add: algebra_simps)
    then show ?thesis using True by (simp add: a_def b_def)
  next
    case False
    have "(k + m - 1) div m = a + 1"
      using k b assms False by (intro div_nat_eqI) (simp_all add: algebra_simps)
    then show ?thesis using False by (simp add: a_def b_def)
  qed
qed

text \<open>The number of packets computed by the server is the one \<open>CreateFrame\<close> makes.\<close>

lemma pkts_of_size_exact:
  assumes "unat n \<le> 12207000"
  shows "unat (pkts_of_size n) = (unat n + 1406 - 1) div 1406"
proof -
  have p: "(ucast DataPacket_GetMaxPayloadSize :: u32) = 1406"
    by (simp add: DataPacket_GetMaxPayloadSize_def VideoPacket_GetMaxPayloadSize_def MAX_PACKET_SIZE_def)
  let ?c = "n div 1406 + (if n mod 1406 \<noteq> 0 then 1 else 0)"
  have m: "(n mod 1406 \<noteq> 0) = (unat n mod 1406 \<noteq> 0)" by (simp add: unat_mod unat_eq_0 [symmetric])
  have d: "unat n div 1406 \<le> 8682" using div_le_mono [OF assms, of 1406] by simp
  have q: "unat (n div 1406) = unat n div 1406" by (simp add: unat_div)
  then have "unat (n div 1406 + 1) = unat n div 1406 + 1" using d by (subst unat_word_ariths(1)) simp
  then have "unat ?c = unat n div 1406 + (if unat n mod 1406 \<noteq> 0 then 1 else 0)"
    using q unfolding m
    by (cases "unat n mod 1406 \<noteq> 0") (simp_all only: if_True if_False add_0_right not_False_eq_True not_True_eq_False)
  also have "\<dots> = (unat n + 1406 - 1) div 1406" by (rule ceil_div) simp
  finally have c: "unat ?c = (unat n + 1406 - 1) div 1406" .
  have "(unat n + 1406 - 1) div 1406 < 65536" using assms by (simp add: less_Suc_eq_le [symmetric] div_less_iff_less_mult)
  then show ?thesis using c
    by (simp add: pkts_of_size_def Let_def p unsigned_ucast_eq take_bit_nat_eq_self del: c)
qed

lemma Setup_ok:
  assumes "GameServer_Setup env ddl interval tcp (GameServer_new raw) = Inr sv" "interval \<le> 1000"
  shows "server_ok sv"
proof -
  have "interval \<noteq> 0" using assms(1) by (auto simp: GameServer_Setup_def)
  then have "(ucast (1000 div interval) :: u8) \<noteq> 0" using assms(2) by (rule div_nonzero)
  then show ?thesis
    using assms(1) \<open>interval \<noteq> 0\<close>
    by (auto simp: GameServer_Setup_def GameServer_new_def Let_def server_ok_def encoder_ok_def DumbVideoEncoder_new_def
        dest!: res_bind_InrD split: if_splits)
qed

text \<open>C23: the encoder of a running server is well formed. From \<open>Setup\<close> with a frame interval of at most a second on,
  whatever its sender and congestion control do, its bitrate is 0 or between the server's bounds; the size of
  the next frame is the bitrate's share without overflow, and the number of packets that the server
  writes into each packet of the frame is the number of packets the frame needs, without truncation to 16 bits.\<close>

theorem encoder_well_formed:
  assumes "GameServer_Setup env ddl interval tcp (GameServer_new raw) = Inr sv0" "interval \<le> 1000"
    and "server_run env sv0 sv"
  shows "\<exists>e n. sv_encoder sv = Some e \<and> encoder_ok e \<and> encoded_size e = Inr n \<and>
    unat n = unat (enc_bitrate e) * 125 div unat (enc_fps e) \<and>
    unat (pkts_of_size n) = (unat n + 1406 - 1) div 1406"
proof -
  obtain e where e: "sv_encoder sv = Some e" "encoder_ok e"
    using server_run_ok [OF assms(3) Setup_ok [OF assms(1,2)]] by (auto simp: server_ok_def)
  obtain n where "encoded_size e = Inr n" "unat n = unat (enc_bitrate e) * 125 div unat (enc_fps e)"
    "unat n \<le> 12207000" using encoded_size_exact [OF e(2)] by blast
  with e pkts_of_size_exact show ?thesis by blast
qed

lemma first_rate:
  assumes "m_firstUpdate s" "ts_cc_enable s" "m_time_history s = []" "m_lastPendingBuf s = 0"
  shows "\<exists>s'. Tcp_UpdateBitrate f sentsize avail now s = Inr (s', [Tcp_Encode (kMinEncodeBps s)]) \<and>
    ts_bitrate s' = kMinEncodeBps s"
proof -
  let ?p = "m_txBufSize s - sentsize - avail"
  have "- (2 ^ 31) \<le> sint ?p \<and> sint ?p < 2 ^ 31"
    using sint_ge [of ?p] sint_less [of ?p] by simp
  then show ?thesis using assms by (simp add: Tcp_UpdateBitrate_def Tcp_UpdateSendingRate_def Let_def)
qed

theorem encoder_well_formed_witness:
  "\<forall>env raw. \<exists>sv0 sv e n. GameServer_Setup env 100 16 True (GameServer_new raw) = Inr sv0 \<and>
     server_run env sv0 sv \<and> sv_encoder sv = Some e \<and> encoded_size e = Inr n \<and> unat n = 195 \<and>
     unat (pkts_of_size n) = 1"
proof (intro allI)
  fix env :: "('a, 'b) server_env" and raw :: "('a, 'b) server"
  obtain s0 sv0 where s0: "s0 = PacketSenderTcp_new 100000 100000000 (se_raw_tcp env)"
    and sv0: "GameServer_Setup env 100 16 True (GameServer_new raw) = Inr sv0" "sv_sender sv0 = Some (TcpSender s0)"
      "sv_encoder sv0 = Some (DumbVideoEncoder_new 62 0)"
      "sv_kMinEncodeBps sv0 = 100000" "sv_kMaxEncodeBps sv0 = 100000000"
    by (simp add: GameServer_Setup_def GameServer_new_def Let_def)
  obtain sv1 s1 where sv1: "Server_StartApplication env sv0 = Inr sv1" "sv_sender sv1 = Some (TcpSender s1)"
    "sv_encoder sv1 = sv_encoder sv0" "sv_kMinEncodeBps sv1 = 100000" "sv_kMaxEncodeBps sv1 = 100000000"
    and s1: "m_firstUpdate s1" "ts_cc_enable s1" "m_time_history s1 = []" "m_lastPendingBuf s1 = 0"
      "kMinEncodeBps s1 = 100000"
    using sv0(2-5) unfolding s0
    by (auto simp: Server_StartApplication_def Tcp_StartApplication_def PacketSenderTcp_new_def Tcp_SetController_def Let_def)
  obtain s2 where s2: "Tcp_UpdateBitrate (sn_fl (se_sender env)) 0 0 0 s1 = Inr (s2, [Tcp_Encode 100000 :: 'a tcp_event])"
    "ts_bitrate s2 = 100000" using first_rate [OF s1(1-4), of "sn_fl (se_sender env)" 0 0 0] unfolding s1(5) by blast
  obtain sv2 where sv2: "Server_CcTimer env 0 0 0 sv1 = Inr sv2"
    "sv_encoder sv2 = Some (SetBitrate 97 (DumbVideoEncoder_new 62 0))"
    using sv1(2-5) sv0(3) s2
    by (auto simp: Server_CcTimer_def Server_UpdateBitrate_def Let_def)
  have run: "server_run env sv0 sv2"
    using server_run.timer [OF server_run.start [OF server_run.init sv1(1)] sv2(1)] .
  from encoder_well_formed [OF sv0(1) _ run] obtain n where
    "encoded_size (SetBitrate 97 (DumbVideoEncoder_new 62 0)) = Inr n" "unat n = 195"
    "unat (pkts_of_size n) = (unat n + 1406 - 1) div 1406"
    using sv2(2) by (auto simp: SetBitrate_def DumbVideoEncoder_new_def)
  with sv0(1) run sv2(2) show "\<exists>sv0 sv e n. GameServer_Setup env 100 16 True (GameServer_new raw) = Inr sv0 \<and>
     server_run env sv0 sv \<and> sv_encoder sv = Some e \<and> encoded_size e = Inr n \<and> unat n = 195 \<and>
     unat (pkts_of_size n) = 1" by auto
qed

section \<open>The packets of a frame\<close>

text \<open>The packets that \<open>CreateFrame\<close> makes, before they are grouped.\<close>

definition frame_packets :: "u32 \<Rightarrow> u16 \<Rightarrow> u32 \<Rightarrow> time \<Rightarrow> DataPacket list \<Rightarrow> bool" where
  "frame_packets frame_id cnt data_size now ds \<longleftrightarrow>
     unat cnt = length ds \<and> sum_list (map (unat \<circ> payload_size) ds) = unat data_size \<and>
     map (dh_pkt_id_in_frame \<circ> data_header) ds = map of_nat [0..<length ds] \<and>
     (\<forall>d\<in>set ds. packet_type d = DATA_PKT \<and> dh_frame_id (data_header d) = frame_id \<and>
        dh_frame_pkt_num (data_header d) = cnt \<and> vh_encode_time (video_header d) = now \<and>
        0 < payload_size d \<and> payload_size d \<le> ucast DataPacket_GetMaxPayloadSize)"

lemma add_packets:
  "vf_pkts (fold VideoFrame_AddPacket ps fr) = vf_pkts fr \<union> (dh_pkt_id_in_frame \<circ> data_header) ` set ps"
  "vf_data_pkt_num (fold VideoFrame_AddPacket ps fr) = vf_data_pkt_num fr"
  by (induction ps arbitrary: fr) (auto simp: VideoFrame_AddPacket_def Let_def)

text \<open>A frame is complete at the decoder exactly when all its packets have come.\<close>

lemma complete_iff_all:
  assumes "frame_packets frame_id cnt sz now ds" "ps \<noteq> []" "set ps \<subseteq> set ds"
  shows "frame_complete (fold VideoFrame_AddPacket ps (VideoFrame_new (hd ps))) \<longleftrightarrow> set ps = set ds"
proof -
  let ?i = "dh_pkt_id_in_frame \<circ> data_header"
  have ids: "map ?i ds = map of_nat [0..<length ds]" and cnt: "unat cnt = length ds"
    using assms(1) by (simp_all add: frame_packets_def)
  have small: "length ds < 65536" using cnt unat_lt(2) [of cnt] by simp
  have "inj_on (of_nat :: nat \<Rightarrow> u16) {0..<length ds}"
    using small by (intro inj_on_inverseI [where g = unat]) (simp add: unat_word_of_nat_16)
  then have d: "distinct (map ?i ds)" unfolding ids by (simp add: distinct_map)
  then have inj: "inj_on ?i (set ds)" "distinct ds" by (simp_all add: distinct_map)
  have pk: "vf_pkts (fold VideoFrame_AddPacket ps (VideoFrame_new (hd ps))) = ?i ` set ps"
    using assms(2) by (auto simp: add_packets VideoFrame_new_def VideoFrame_AddPacket_def Let_def)
  have "hd ps \<in> set ds" using assms(2,3) by auto
  then have nm: "vf_data_pkt_num (fold VideoFrame_AddPacket ps (VideoFrame_new (hd ps))) = cnt"
    using assms(1) by (auto simp: add_packets VideoFrame_new_def VideoFrame_AddPacket_def Let_def frame_packets_def)
  have "card (?i ` set ps) = card (set ps)" using inj(1) assms(3) by (intro card_image) (rule inj_on_subset)
  moreover have "card (set ps) \<le> card (set ds)" by (rule card_mono) (use assms(3) in auto)
  moreover have cd: "card (set ds) = length ds" by (rule distinct_card [OF inj(2)])
  ultimately have "frame_complete (fold VideoFrame_AddPacket ps (VideoFrame_new (hd ps))) \<longleftrightarrow> card (set ps) = length ds"
    using cnt small unfolding frame_complete_def GetDataPktRcvedNum_def pk nm
    by (auto simp: unat_word_of_nat_16 word_unat_eq_iff)
  also have "\<dots> \<longleftrightarrow> set ps = set ds"
    using card_subset_eq [OF _ assms(3)] cd by fastforce
  finally show ?thesis .
qed

text \<open>C24: a frame from the server to the decoder's view of it. \<open>SendFrame\<close> hands to \<open>SendPackets\<close>
  distinct data packets that carry the frame's bytes, none empty and none above the maximal payload, numbered from 0, each
  with the frame's number, its encoding time and the number of the frame's packets. A decoder that receives some of
  them, in any order and with repetitions, takes the frame for complete exactly when it has them all.\<close>

theorem frame_split_complete:
  assumes "0 < data_size" "unat data_size \<le> 12207000"
  shows "\<exists>ds refs s1 left.
    CreateFrame env now frame_id 0 DataPacket_GetMaxPayloadSize (pkts_of_size data_size) data_size s =
      SendPackets env now refs left frame_id False s1 \<and>
    frame_packets frame_id (pkts_of_size data_size) data_size now ds \<and>
    distinct refs \<and> map ((!) (heap s1)) refs = map VData ds \<and>
    (\<forall>ps. ps \<noteq> [] \<and> set ps \<subseteq> set ds \<longrightarrow>
      frame_complete (fold VideoFrame_AddPacket ps (VideoFrame_new (hd ps))) = (set ps = set ds))"
proof -
  have p: "(ucast DataPacket_GetMaxPayloadSize :: u32) = 1406"
    by (simp add: DataPacket_GetMaxPayloadSize_def VideoPacket_GetMaxPayloadSize_def MAX_PACKET_SIZE_def)
  obtain sizes where l: "frame_chunks 1406 data_size 0 = Some sizes" "sum_list (map unat sizes) = unat data_size"
    "\<forall>c\<in>set sizes. 0 < c \<and> c \<le> 1406" "length sizes = (unat data_size + 1406 - 1) div 1406"
    using frame_chunks_run [of 1406 data_size 0] assms(2) by auto
  have n: "unat (pkts_of_size data_size) = length sizes" using pkts_of_size_exact [OF assms(2)] l(4) by simp
  have ne: "sizes \<noteq> []" using l(2) assms(1) by (auto simp: word_greater_zero_iff unat_eq_0)
  define ds where "ds = map (\<lambda>(i, sz). SetPayload sz (SetEncodeTime now
     (DataPacket_ctor frame_id 0 (pkts_of_size data_size) (0 + of_nat i) (raw_data (sn_raw env))))) (enumerate 0 sizes)"
  have len: "length ds = length sizes" by (simp add: ds_def)
  have nth: "ds ! i = SetPayload (sizes ! i) (SetEncodeTime now
     (DataPacket_ctor frame_id 0 (pkts_of_size data_size) (of_nat i) (raw_data (sn_raw env))))" if "i < length sizes" for i
    using that by (simp add: ds_def nth_enumerate_eq)
  have flds: "packet_type (ds ! i) = DATA_PKT" "payload_size (ds ! i) = sizes ! i"
    "dh_frame_id (data_header (ds ! i)) = frame_id" "dh_pkt_id_in_frame (data_header (ds ! i)) = of_nat i"
    "dh_frame_pkt_num (data_header (ds ! i)) = pkts_of_size data_size" "vh_encode_time (video_header (ds ! i)) = now"
    if "i < length sizes" for i
    using nth [OF that] by (simp_all add: SetPayload_def SetEncodeTime_def DataPacket_ctor_def SetFrameInfo_def
        SetLastPkt_def VideoPacket_ctor_def NetworkPacket_ctor_def)
  have fp: "frame_packets frame_id (pkts_of_size data_size) data_size now ds"
    unfolding frame_packets_def
  proof (intro conjI ballI)
    show "unat (pkts_of_size data_size) = length ds" by (simp add: n len)
    have "map (unat \<circ> payload_size) ds = map unat sizes" using flds(2) len by (intro nth_equalityI) simp_all
    then show "sum_list (map (unat \<circ> payload_size) ds) = unat data_size" using l(2) by simp
    show "map (dh_pkt_id_in_frame \<circ> data_header) ds = map of_nat [0..<length ds]"
      using flds(4) len by (intro nth_equalityI) simp_all
  next
    fix d assume "d \<in> set ds"
    then obtain i where i: "i < length sizes" "d = ds ! i" using len by (auto simp: in_set_conv_nth)
    then have "sizes ! i \<in> set sizes" by simp
    with i flds l(3) show "packet_type d = DATA_PKT" "dh_frame_id (data_header d) = frame_id"
      "dh_frame_pkt_num (data_header d) = pkts_of_size data_size" "vh_encode_time (video_header d) = now"
      "0 < payload_size d" "payload_size d \<le> ucast DataPacket_GetMaxPayloadSize" by (simp_all add: p)
  qed
  let ?refs = "[length (heap s)..<length (heap s) + length sizes]"
  let ?s1 = "s\<lparr>heap := heap s @ map VData ds, frame_data_pkt_cnt :=
    AList.update frame_id (ucast (pkts_of_size data_size)) (frame_data_pkt_cnt s)\<rparr>"
  have vd: "map (\<lambda>(i, sz). new_data_packet env now frame_id (pkts_of_size data_size) (0 + of_nat i) sz) (enumerate 0 sizes) = map VData ds"
    by (simp add: ds_def new_data_packet_def split_def)
  have "CreateFrame env now frame_id 0 DataPacket_GetMaxPayloadSize (pkts_of_size data_size) data_size s =
      SendPackets env now ?refs (s_delay_ddl s - int (length sizes) * disp_one_way (m_netStat s)) frame_id False ?s1"
    using l(1) ne vd unfolding CreateFrame_def p by (simp add: Let_def)
  moreover have "map ((!) (heap ?s1)) ?refs = map VData ds"
    using len by (intro nth_equalityI) (simp_all add: nth_append)
  ultimately show ?thesis using fp complete_iff_all [OF fp] by (intro exI conjI) (auto simp: distinct_upt)
qed

theorem frame_split_complete_witness:
  "\<forall>env s. \<exists>ds refs s1 left.
    CreateFrame env 0 3 0 DataPacket_GetMaxPayloadSize (pkts_of_size 5000) 5000 s = SendPackets env 0 refs left 3 False s1 \<and>
    frame_packets 3 (pkts_of_size 5000) 5000 0 ds \<and> length ds = 4"
proof (intro allI)
  fix env s
  have "unat (pkts_of_size 5000) = 4" using pkts_of_size_exact [of 5000] by simp
  with frame_split_complete [of 5000 env 0 3 s]
  show "\<exists>ds refs s1 left.
    CreateFrame env 0 3 0 DataPacket_GetMaxPayloadSize (pkts_of_size 5000) 5000 s = SendPackets env 0 refs left 3 False s1 \<and>
    frame_packets 3 (pkts_of_size 5000) 5000 0 ds \<and> length ds = 4" by (auto simp: frame_packets_def)
qed

end
