(* ===== verification/Gcc.thy ===== *)
theory Gcc
  imports Cc_Base
begin

text \<open>
  \<open>congestion-control/gcc-controller.\{h,cc\}\<close>: Google congestion control. A trend line through the
  one-way delays and a threshold that adapts to it tell overuse from normal use and underuse; a
  state machine turns that into a rate between the configured bounds; a second controller based on
  the loss rate follows. The members of the class are split as its comments split them:
  \<open>overuse\<close> is the estimator and the detector, \<open>aimd\<close> the delay based rate control,
  \<open>lossctl\<close> the loss based one.

  A derived class is a record with a field for its base class. Signed 64-bit and 32-bit
  integers are \<open>int\<close>, with the conversions to and from unsigned types written out. What is written to files and streams is left out.
\<close>

section \<open>State\<close>

definition LOSS_TIMER :: u64 where "LOSS_TIMER = 1000"
definition kMinFramePeriodHistoryLength :: nat where "kMinFramePeriodHistoryLength = 60"
definition kDeltaCounterMax :: u16 where "kDeltaCounterMax = 1000"
definition kMaxAdaptOffsetMs :: rat where "kMaxAdaptOffsetMs = 15"
definition kOverUsingTimeThreshold :: rat where "kOverUsingTimeThreshold = 10"
definition kMinNumDeltas :: int where "kMinNumDeltas = 60"
definition kDefaultRttMs :: int where "kDefaultRttMs = 200"
definition kBweIncreaseIntervalMs :: int where "kBweIncreaseIntervalMs = 1000"
definition kBweDecreaseIntervalMs :: int where "kBweDecreaseIntervalMs = 300"
definition kStartPhaseMs :: int where "kStartPhaseMs = 2000"
definition kLimitNumPackets :: int where "kLimitNumPackets = 20"
definition kDefaultMaxBitrateBps :: int where "kDefaultMaxBitrateBps = 1000000000"
definition kLowBitrateLogPeriodMs :: int where "kLowBitrateLogPeriodMs = 10000"
definition kRtcEventLogPeriodMs :: int where "kRtcEventLogPeriodMs = 5000"
definition kDefaultTrendlineWindowSize :: nat where "kDefaultTrendlineWindowSize = 20"

record overuse =
  num_of_deltas :: u16
  o_slope :: rat
  o_offset :: rat
  prev_offset :: rat
  o_E :: "(rat \<times> rat) \<times> (rat \<times> rat)"
  process_noise :: "rat \<times> rat"
  avg_noise :: rat
  var_noise :: rat
  ts_delta_hist :: "rat list"
  window_size :: nat
  smoothing_coef :: rat
  threshold_gain :: rat
  accumulated_delay :: rat
  smoothed_delay :: rat
  delay_hist :: "(rat \<times> rat) list"
  k_up :: rat
  k_down :: rat
  overusing_time_threshold :: rat
  o_threshold :: rat
  ut_last_update_ms :: int
  D_prev_offset :: rat
  time_over_using :: rat
  overuse_counter :: int
  D_hypothesis :: char

record aimd =
  min_configured_bitrate_bps :: u32
  max_configured_bitrate_bps :: u32
  current_bitrate_bps :: u32
  latest_incoming_bitrate_bps :: u32
  avg_max_bitrate_kbps :: rat
  var_max_bitrate_kbps :: rat
  rate_control_state :: char
  rate_control_region :: char
  time_last_bitrate_change :: int
  time_first_incoming_estimate :: int
  bitrate_is_initialized :: bool
  beta :: rat
  g_rtt :: int
  in_experiment :: bool
  smoothing_experiment :: bool
  last_decrease :: int

record lossctl =
  min_bitrate_history :: "(int \<times> u32) list"
  lost_packets_since_last_loss_update :: int
  expected_packets_since_last_loss_update :: int
  min_bitrate_configured :: u32
  max_bitrate_configured :: u32
  last_low_bitrate_log_ms :: int
  has_decreased_since_last_fraction_loss :: bool
  last_feedback_ms :: int
  last_packet_report_ms :: int
  last_timeout_ms :: int
  own_last_fraction_loss :: u8
  last_logged_fraction_loss :: u8
  last_round_trip_time_ms :: int
  bwe_incoming :: u32
  delay_based_bitrate_bps :: u32
  time_last_decrease_ms :: int
  first_report_time_ms :: int
  initially_lost_packets :: int
  bitrate_at_2_seconds_kbps :: int
  last_rtc_event_log_ms :: int
  in_timeout_experiment :: bool
  low_loss_threshold :: rat
  high_loss_threshold :: rat
  bitrate_threshold_bps :: u32

record gcc =
  g_base :: controller
  g_lastTimeCalcUs :: u64
  g_lastTimeCalcValid :: bool
  g_QdelayUs :: u64
  g_Pkt :: u32
  g_ploss :: u32
  g_plr :: rat
  g_RecvR :: rat
  g_timer :: u64
  prev_seq_loss :: int
  loss_moving_avg :: rat
  plrmoving_avg :: rat
  g_overuse :: overuse
  last_update_ms :: int
  g_rate :: aimd
  g_loss :: lossctl
  g_port :: u16

text \<open>The constructor leaves three members unset: \<open>raw\<close> is the memory of the object.\<close>

definition overuse_new :: "libm \<Rightarrow> overuse" where
  "overuse_new M = \<lparr>num_of_deltas = 0, o_slope = 8 / 512, o_offset = 0, prev_offset = 0,
     o_E = ((100, 0), (0, lm_fd M (1 / 10))),
     process_noise = (lm_fd M (1 / 10 ^ 10), lm_fd M (1 / 1000)),
     avg_noise = 0, var_noise = 50, ts_delta_hist = [],
     window_size = kDefaultTrendlineWindowSize, smoothing_coef = lm_fd M (9 / 10),
     threshold_gain = 4, accumulated_delay = 0, smoothed_delay = 0, delay_hist = [],
     k_up = lm_fd M (87 / 10000), k_down = lm_fd M (39 / 1000),
     overusing_time_threshold = kOverUsingTimeThreshold, o_threshold = 25 / 2,
     ut_last_update_ms = - 1, D_prev_offset = 0, time_over_using = - 1, overuse_counter = 0,
     D_hypothesis = CHR ''N''\<rparr>"

definition aimd_new :: "libm \<Rightarrow> aimd" where
  "aimd_new M = \<lparr>min_configured_bitrate_bps = 500000, max_configured_bitrate_bps = 100000000,
     current_bitrate_bps = 500000, latest_incoming_bitrate_bps = 500000,
     avg_max_bitrate_kbps = - 1, var_max_bitrate_kbps = lm_fs M (2 / 5),
     rate_control_state = CHR ''H'', rate_control_region = CHR ''M'',
     time_last_bitrate_change = - 1, time_first_incoming_estimate = - 1,
     bitrate_is_initialized = False, beta = lm_fs M (17 / 20), g_rtt = kDefaultRttMs,
     in_experiment = False, smoothing_experiment = False, last_decrease = 0\<rparr>"

definition lossctl_new :: "libm \<Rightarrow> lossctl \<Rightarrow> lossctl" where
  "lossctl_new M raw = \<lparr>min_bitrate_history = [], lost_packets_since_last_loss_update = 0,
     expected_packets_since_last_loss_update = 0, min_bitrate_configured = 500000,
     max_bitrate_configured = 100000000, last_low_bitrate_log_ms = - 1,
     has_decreased_since_last_fraction_loss = False, last_feedback_ms = - 1,
     last_packet_report_ms = - 1, last_timeout_ms = - 1,
     own_last_fraction_loss = own_last_fraction_loss raw, last_logged_fraction_loss = 0,
     last_round_trip_time_ms = 0, bwe_incoming = bwe_incoming raw, delay_based_bitrate_bps = 0,
     time_last_decrease_ms = 0, first_report_time_ms = - 1, initially_lost_packets = 0,
     bitrate_at_2_seconds_kbps = 0, last_rtc_event_log_ms = last_rtc_event_log_ms raw,
     in_timeout_experiment = False, low_loss_threshold = lm_fs M (1 / 50),
     high_loss_threshold = lm_fs M (1 / 10), bitrate_threshold_bps = 0\<rparr>"

definition GccController_new :: "libm \<Rightarrow> string \<Rightarrow> u16 \<Rightarrow> lossctl \<Rightarrow> gcc" where
  "GccController_new M this port raw = \<lparr>g_base = SenderBasedController_new this,
     g_lastTimeCalcUs = 0, g_lastTimeCalcValid = False, g_QdelayUs = 0, g_Pkt = 0, g_ploss = 0,
     g_plr = 0, g_RecvR = 0, g_timer = 0, prev_seq_loss = 0, loss_moving_avg = 0,
     plrmoving_avg = 0, g_overuse = overuse_new M, last_update_ms = - 1, g_rate = aimd_new M,
     g_loss = lossctl_new M raw, g_port = port\<rparr>"

section \<open>Trend line and noise\<close>

text \<open>\<open>LinearFitSlope\<close>: the slope of the least squares line through the points; 0 when they have
  one abscissa. The size of the deque is converted to double.\<close>

definition lf_sum :: "rounding \<Rightarrow> rat list \<Rightarrow> rat" where
  "lf_sum f xs = fold (\<lambda>x acc. f (acc + x)) xs 0"

definition LinearFitSlope :: "rounding \<Rightarrow> (rat \<times> rat) list \<Rightarrow> rat" where
  "LinearFitSlope f points =
     (if points = [] then 0
      else let n = f (of_nat (length points));
               x_avg = f (lf_sum f (map fst points) / n);
               y_avg = f (lf_sum f (map snd points) / n);
               numerator = lf_sum f (map (\<lambda>(x, y). f (f (x - x_avg) * f (y - y_avg))) points);
               denominator = lf_sum f (map (\<lambda>(x, y). f (f (x - x_avg) * f (x - x_avg))) points)
           in if denominator = 0 then 0 else f (numerator / denominator))"

definition OveruseEstimatorUpdate ::
  "libm \<Rightarrow> int \<Rightarrow> rat \<Rightarrow> int \<Rightarrow> char \<Rightarrow> int \<Rightarrow> overuse \<Rightarrow> overuse" where
  "OveruseEstimatorUpdate M t_delta ts_delta size_delta hyp now_ms s =
     (let f = lm_fd M;
          t_ts_delta = f (dbl64 M t_delta - ts_delta);
          n = num_of_deltas s + 1;
          acc = f (accumulated_delay s + t_ts_delta);
          sm = f (f (smoothing_coef s * smoothed_delay s)
                  + f (f (1 - smoothing_coef s) * acc));
          hist = delay_hist s @ [(dbl64 M now_ms, sm)];
          hist = (if length hist > window_size s then tl hist else hist)
      in s\<lparr>num_of_deltas := (if n > kDeltaCounterMax then kDeltaCounterMax else n),
           accumulated_delay := acc, smoothed_delay := sm, delay_hist := hist,
           o_offset := (if length hist = window_size s then LinearFitSlope f hist
                        else o_offset s)\<rparr>)"

definition UpdateMinFramePeriod :: "rat \<Rightarrow> overuse \<Rightarrow> rat \<times> overuse" where
  "UpdateMinFramePeriod ts_delta s =
     (let hist = (if length (ts_delta_hist s) \<ge> kMinFramePeriodHistoryLength
                  then tl (ts_delta_hist s) else ts_delta_hist s)
      in (fold min hist ts_delta, s\<lparr>ts_delta_hist := hist @ [ts_delta]\<rparr>))"

definition UpdateNoiseEstimate :: "libm \<Rightarrow> rat \<Rightarrow> rat \<Rightarrow> bool \<Rightarrow> overuse \<Rightarrow> overuse" where
  "UpdateNoiseEstimate M residual ts_delta stable_state s =
     (if \<not> stable_state then s
      else let f = lm_fd M;
               alpha = (if unat (num_of_deltas s) > 10 * 30 then f (2 / 1000) else f (1 / 100));
               b = f (lm_pow M (f (1 - alpha)) (f (f (ts_delta * 30) / 1000)));
               avg = f (f (b * avg_noise s) + f (f (1 - b) * residual));
               var = f (f (b * var_noise s)
                        + f (f (f (1 - b) * f (avg - residual)) * f (avg - residual)))
           in s\<lparr>avg_noise := avg, var_noise := (if var < 1 then 1 else var)\<rparr>)"

section \<open>Overuse detector\<close>

text \<open>\<open>rtc::SafeClamp\<close> on numbers of one kind.\<close>

definition SafeClamp :: "'a::linorder \<Rightarrow> 'a \<Rightarrow> 'a \<Rightarrow> 'a" where
  "SafeClamp x lo hi = (if x \<le> lo then lo else if x \<ge> hi then hi else x)"

definition UpdateThreshold :: "libm \<Rightarrow> rat \<Rightarrow> int \<Rightarrow> overuse \<Rightarrow> overuse" where
  "UpdateThreshold M modified_offset now_ms s0 =
     (let f = lm_fd M;
          s = (if ut_last_update_ms s0 = - 1 then s0\<lparr>ut_last_update_ms := now_ms\<rparr> else s0);
          a = \<bar>modified_offset\<bar>
      in if a > f (o_threshold s + kMaxAdaptOffsetMs) then s\<lparr>ut_last_update_ms := now_ms\<rparr>
         else let k = (if a < o_threshold s then k_down s else k_up s);
                  time_delta_ms = min (now_ms - ut_last_update_ms s) 100;
                  t = f (o_threshold s
                         + f (f (k * f (a - o_threshold s)) * dbl64 M time_delta_ms))
              in s\<lparr>o_threshold := SafeClamp t 6 600, ut_last_update_ms := now_ms\<rparr>)"

definition State :: "overuse \<Rightarrow> char" where
  "State s = D_hypothesis s"

text \<open>The decision on the modified offset \<open>T\<close>.\<close>

definition classify :: "libm \<Rightarrow> rat \<Rightarrow> rat \<Rightarrow> rat \<Rightarrow> overuse \<Rightarrow> overuse" where
  "classify M T off ts_delta s =
     (if T > o_threshold s then
        let t = (if time_over_using s = - 1 then lm_fd M (ts_delta / 2)
                 else lm_fd M (time_over_using s + ts_delta));
            n = overuse_counter s + 1;
            s1 = s\<lparr>time_over_using := t, overuse_counter := n\<rparr>
        in if t > overusing_time_threshold s \<and> n > 1 \<and> off \<ge> D_prev_offset s
           then s1\<lparr>time_over_using := 0, overuse_counter := 0, D_hypothesis := CHR ''O''\<rparr>
           else s1
      else s\<lparr>time_over_using := - 1, overuse_counter := 0,
             D_hypothesis := (if T < - o_threshold s then CHR ''U'' else CHR ''N'')\<rparr>)"

definition OveruseDetectorDetect ::
  "libm \<Rightarrow> rat \<Rightarrow> rat \<Rightarrow> int \<Rightarrow> int \<Rightarrow> overuse \<Rightarrow> char \<times> overuse" where
  "OveruseDetectorDetect M off ts_delta n_deltas now_ms s =
     (if n_deltas < 2 then (CHR ''N'', s)
      else let f = lm_fd M;
               T = f (f (dbl64 M (min n_deltas kMinNumDeltas) * off) * threshold_gain s);
               s1 = UpdateThreshold M T now_ms ((classify M T off ts_delta s)\<lparr>D_prev_offset := off\<rparr>)
           in (D_hypothesis s1, s1))"

section \<open>Delay based rate control\<close>

definition ValidEstimate :: "aimd \<Rightarrow> bool" where
  "ValidEstimate s = bitrate_is_initialized s"

definition LatestEstimate :: "aimd \<Rightarrow> u32" where
  "LatestEstimate s = current_bitrate_bps s"

definition SetStartBitrate :: "int \<Rightarrow> aimd \<Rightarrow> aimd" where
  "SetStartBitrate b s = s\<lparr>current_bitrate_bps := word_of_int b,
     latest_incoming_bitrate_bps := word_of_int b, bitrate_is_initialized := True\<rparr>"

definition SetMinBitrate :: "int \<Rightarrow> aimd \<Rightarrow> aimd" where
  "SetMinBitrate b s = s\<lparr>min_configured_bitrate_bps := word_of_int b,
     current_bitrate_bps := word_of_int (max b (sint (current_bitrate_bps s)))\<rparr>"

definition GetFeedbackInterval :: "libm \<Rightarrow> aimd \<Rightarrow> u64 res" where
  "GetFeedbackInterval M s =
     (let f = lm_fd M; d = f (f (1 / 20) * dbl64 M (uint (current_bitrate_bps s)))
      in if d = 0 then Inl UndefinedBehaviour
         else let x = trunc (f (f (640000 / d) + 1 / 2))
              in if - (2 ^ 63) \<le> x \<and> x < 2 ^ 63 then Inr (word_of_int (SafeClamp x 200 1000))
                 else Inl UndefinedBehaviour)"

definition TimeToReduceFurther :: "libm \<Rightarrow> int \<Rightarrow> u32 \<Rightarrow> aimd \<Rightarrow> bool res" where
  "TimeToReduceFurther M time_now incoming s =
     (if time_now - time_last_bitrate_change s \<ge> max (min (g_rtt s) 200) 10 then Inr True
      else if ValidEstimate s
      then res_bind (to_word (lm_fd M (1 / 2 * dbl64 M (uint (LatestEstimate s)))) :: u32 res)
             (\<lambda>threshold. Inr (incoming < threshold))
      else Inr False)"

text \<open>The conversion of a double to \<open>int\<close>.\<close>

definition to_int32 :: "rat \<Rightarrow> int res" where
  "to_int32 x = (if - (2 ^ 31) \<le> trunc x \<and> trunc x < 2 ^ 31 then Inr (trunc x)
     else Inl UndefinedBehaviour)"

text \<open>With a bit rate of 0 the average packet size is not a number, and \<open>std::max\<close> returns its
  first argument.\<close>

definition GetNearMaxIncreaseRateBps :: "libm \<Rightarrow> aimd \<Rightarrow> int res" where
  "GetNearMaxIncreaseRateBps M s =
     (let f = lm_fd M;
          bits_per_frame = f (dbl64 M (uint (current_bitrate_bps s)) / 30);
          packets_per_frame = of_int \<lceil>f (bits_per_frame / 9600)\<rceil> :: rat;
          response_time = (if in_experiment s then (g_rtt s + 100) * 2 else g_rtt s + 100)
      in if packets_per_frame = 0 then Inr 4000
         else if response_time = 0 then Inl UndefinedBehaviour
         else to_int32 (max 4000 (f (f (f (bits_per_frame / packets_per_frame) * 1000)
                                      / dbl64 M response_time))))"

definition GetExpectedBandwidthPeriodMs :: "libm \<Rightarrow> aimd \<Rightarrow> int res" where
  "GetExpectedBandwidthPeriodMs M s =
     (let kMinPeriodMs = (if smoothing_experiment s then 500 else 2000)
      in res_bind (GetNearMaxIncreaseRateBps M s) (\<lambda>increase_rate.
         if last_decrease s = 0 then Inr (if smoothing_experiment s then kMinPeriodMs else 3000)
         else if increase_rate = 0 then Inl UndefinedBehaviour
         else Inr (min 50000
                (max (sint (word_of_int ((1000 * last_decrease s) sdiv increase_rate) :: u32))
                   kMinPeriodMs))))"

definition ClampBitrate :: "libm \<Rightarrow> u32 \<Rightarrow> u32 \<Rightarrow> aimd \<Rightarrow> u32 res" where
  "ClampBitrate M new incoming s =
     res_bind (to_word (lm_fs M (3 / 2 * flt M incoming))) (\<lambda>w.
     let max_bitrate_bps = w + 10000;
         new = (if new > current_bitrate_bps s \<and> new > max_bitrate_bps
                   \<and> max_bitrate_bps > current_bitrate_bps s
                then max (current_bitrate_bps s) max_bitrate_bps else new)
     in Inr (max (min new max_bitrate_bps) (min_configured_bitrate_bps s)))"

definition SetEstimate :: "libm \<Rightarrow> int \<Rightarrow> int \<Rightarrow> aimd \<Rightarrow> aimd res" where
  "SetEstimate M b now_ms s =
     res_bind (ClampBitrate M (word_of_int b) (word_of_int b) s) (\<lambda>c.
     Inr (s\<lparr>bitrate_is_initialized := True, current_bitrate_bps := c,
            time_last_bitrate_change := now_ms\<rparr>))"

definition MultiplicativeRateIncrease :: "libm \<Rightarrow> int \<Rightarrow> int \<Rightarrow> u32 \<Rightarrow> u32 res" where
  "MultiplicativeRateIncrease M now_ms last_ms cur =
     (let f = lm_fd M;
          alpha = f (27 / 25);
          alpha = (if last_ms > - 1
                   then f (lm_pow M alpha (f (dbl64 M (min (now_ms - last_ms) 1000) / 1000)))
                   else alpha)
      in to_word (max (f (dbl64 M (uint cur) * f (alpha - 1))) 1000))"

definition AdditiveRateIncrease :: "libm \<Rightarrow> int \<Rightarrow> int \<Rightarrow> aimd \<Rightarrow> u32 res" where
  "AdditiveRateIncrease M now_ms last_ms s =
     res_bind (GetNearMaxIncreaseRateBps M s) (\<lambda>r.
     Inr (word_of_int (((now_ms - last_ms) * r) sdiv 1000)))"

definition UpdateMaxBitRateEstimate :: "libm \<Rightarrow> rat \<Rightarrow> aimd \<Rightarrow> aimd" where
  "UpdateMaxBitRateEstimate M incoming s =
     (let f = lm_fs M;
          alpha = f (1 / 20);
          avg = (if avg_max_bitrate_kbps s = - 1 then incoming
                 else f (f (f (1 - alpha) * avg_max_bitrate_kbps s) + f (alpha * incoming)));
          norm = max avg 1;
          d = f (avg - incoming);
          var = f (f (f (1 - alpha) * var_max_bitrate_kbps s) + f (f (f (alpha * d) * d) / norm));
          var = (if var < f (2 / 5) then f (2 / 5) else var);
          var = (if var > 5 / 2 then 5 / 2 else var)
      in s\<lparr>avg_max_bitrate_kbps := avg, var_max_bitrate_kbps := var\<rparr>)"

definition ChangeState :: "char \<Rightarrow> int \<Rightarrow> aimd \<Rightarrow> aimd res" where
  "ChangeState bw_state now_ms s =
     (if bw_state = CHR ''N'' then
        Inr (if rate_control_state s = CHR ''H''
             then s\<lparr>time_last_bitrate_change := now_ms, rate_control_state := CHR ''I''\<rparr>
             else if rate_control_state s = CHR ''D'' then s\<lparr>rate_control_state := CHR ''H''\<rparr> else s)
      else if bw_state = CHR ''O'' then Inr (s\<lparr>rate_control_state := CHR ''D''\<rparr>)
      else if bw_state = CHR ''U'' then Inr (s\<lparr>rate_control_state := CHR ''H''\<rparr>)
      else Inl AssertFailed)"

definition ChangeRegion :: "char \<Rightarrow> aimd \<Rightarrow> aimd" where
  "ChangeRegion region s = s\<lparr>rate_control_region := region\<rparr>"

text \<open>\<open>sqrt (var_max_bitrate_kbps_ * avg_max_bitrate_kbps_)\<close>, where \<open>None\<close> is not a
  number: every comparison with it is false.\<close>

definition std_max_bit_rate :: "libm \<Rightarrow> aimd \<Rightarrow> rat option" where
  "std_max_bit_rate M s =
     (let x = lm_fs M (var_max_bitrate_kbps s * avg_max_bitrate_kbps s)
      in if x < 0 then None else Some (lm_fs M (lm_sqrt M x)))"

text \<open>The cases 'I' and 'D' of \<open>ChangeBitrate\<close>.\<close>

definition increase_bitrate :: "libm \<Rightarrow> u32 \<Rightarrow> rat \<Rightarrow> rat option \<Rightarrow> int \<Rightarrow> aimd \<Rightarrow> (u32 \<times> aimd) res" where
  "increase_bitrate M new incoming_kbps std now_ms s =
     (let f = lm_fs M;
          above = (case std of None \<Rightarrow> False
                   | Some d \<Rightarrow> incoming_kbps > f (avg_max_bitrate_kbps s + f (3 * d)));
          s1 = (if avg_max_bitrate_kbps s \<ge> 0 \<and> above
                then (ChangeRegion CHR ''M'' s)\<lparr>avg_max_bitrate_kbps := - 1\<rparr> else s)
      in res_bind (if rate_control_region s1 = CHR ''N''
                   then AdditiveRateIncrease M now_ms (time_last_bitrate_change s1) s1
                   else MultiplicativeRateIncrease M now_ms (time_last_bitrate_change s1) new)
           (\<lambda>inc. Inr (new + inc, s1\<lparr>time_last_bitrate_change := now_ms\<rparr>)))"

definition decreased_bitrate :: "libm \<Rightarrow> u32 \<Rightarrow> aimd \<Rightarrow> u32 res" where
  "decreased_bitrate M incoming s =
     res_bind (to_word (lm_fd M (lm_fs M (beta s * flt M incoming) + 1 / 2))) (\<lambda>new.
     if new > current_bitrate_bps s
     then res_bind (if rate_control_region s \<noteq> CHR ''M''
                    then to_word (lm_fs M (lm_fs M (lm_fs M (beta s * avg_max_bitrate_kbps s) * 1000) + 1 / 2))
                    else Inr new) (\<lambda>new.
          Inr (min new (current_bitrate_bps s)))
     else Inr new)"

definition decrease_bitrate :: "libm \<Rightarrow> u32 \<Rightarrow> rat \<Rightarrow> rat option \<Rightarrow> int \<Rightarrow> aimd \<Rightarrow> (u32 \<times> aimd) res" where
  "decrease_bitrate M incoming incoming_kbps std now_ms s0 =
     res_bind (decreased_bitrate M incoming s0) (\<lambda>new.
     let f = lm_fs M; s = ChangeRegion CHR ''N'' s0;
         s = (if bitrate_is_initialized s \<and> incoming < current_bitrate_bps s
              then if smoothing_experiment s
                      \<and> flt M new < f (f (f (9 / 10) * beta s) * flt M (current_bitrate_bps s))
                   then s\<lparr>last_decrease := 0\<rparr>
                   else s\<lparr>last_decrease := sint (current_bitrate_bps s - new)\<rparr>
              else s);
         below = (case std of None \<Rightarrow> False
                  | Some d \<Rightarrow> incoming_kbps < f (avg_max_bitrate_kbps s - f (3 * d)));
         s = (if below then s\<lparr>avg_max_bitrate_kbps := - 1\<rparr> else s);
         s = UpdateMaxBitRateEstimate M incoming_kbps (s\<lparr>bitrate_is_initialized := True\<rparr>)
     in Inr (new, s\<lparr>rate_control_state := CHR ''H'', time_last_bitrate_change := now_ms\<rparr>))"

definition ChangeBitrate :: "libm \<Rightarrow> u32 \<Rightarrow> char \<Rightarrow> u32 \<Rightarrow> rat \<Rightarrow> int \<Rightarrow> aimd \<Rightarrow> (u32 \<times> aimd) res" where
  "ChangeBitrate M new bw_state incoming noise_var now_ms s0 =
     (let s = (if incoming \<noteq> 0 then s0\<lparr>latest_incoming_bitrate_bps := incoming\<rparr> else s0)
      in if \<not> bitrate_is_initialized s \<and> bw_state = CHR ''O'' then Inr (current_bitrate_bps s, s)
         else res_bind (ChangeState bw_state now_ms s) (\<lambda>s.
           let kbps = lm_fs M (flt M incoming / 1000); std = std_max_bit_rate M s
           in res_bind (if rate_control_state s = CHR ''H'' then Inr (new, s)
                        else if rate_control_state s = CHR ''I''
                        then increase_bitrate M new kbps std now_ms s
                        else if rate_control_state s = CHR ''D''
                        then decrease_bitrate M incoming kbps std now_ms s
                        else Inl AssertFailed) (\<lambda>(new, s).
              res_bind (ClampBitrate M new incoming s) (\<lambda>r. Inr (r, s)))))"

definition Update :: "libm \<Rightarrow> char \<Rightarrow> u32 \<Rightarrow> rat \<Rightarrow> int \<Rightarrow> aimd \<Rightarrow> (u32 \<times> aimd) res" where
  "Update M bw_state incoming noise_var now_ms s0 =
     (let s = (if bitrate_is_initialized s0 then s0
               else if time_first_incoming_estimate s0 < 0
               then if incoming \<noteq> 0 then s0\<lparr>time_first_incoming_estimate := now_ms\<rparr> else s0
               else if now_ms - time_first_incoming_estimate s0 > 5000 \<and> incoming > 0
               then s0\<lparr>current_bitrate_bps := incoming, bitrate_is_initialized := True\<rparr> else s0)
      in res_bind (ChangeBitrate M (current_bitrate_bps s) bw_state incoming noise_var now_ms s)
           (\<lambda>(r, s). Inr (r, s\<lparr>current_bitrate_bps := r, bitrate_is_initialized := True\<rparr>)))"

section \<open>Loss based rate control\<close>

text \<open>These methods share \<open>current_bitrate_bps_\<close> with the delay based control: they take it
  and return it.\<close>

definition CapBitrateToThresholds :: "int \<Rightarrow> u32 \<Rightarrow> u32 \<times> lossctl \<Rightarrow> u32 \<times> lossctl" where
  "CapBitrateToThresholds now_ms bitrate = (\<lambda>(cur, s).
     let b = (if delay_based_bitrate_bps s > 0 \<and> bitrate > delay_based_bitrate_bps s
              then delay_based_bitrate_bps s else bitrate);
         b = (if b > max_bitrate_configured s then max_bitrate_configured s else b);
         s1 = (if b < min_bitrate_configured s \<and>
                  (last_low_bitrate_log_ms s = - 1 \<or>
                   now_ms - last_low_bitrate_log_ms s > kLowBitrateLogPeriodMs)
               then s\<lparr>last_low_bitrate_log_ms := now_ms\<rparr> else s);
         b = (if b < min_bitrate_configured s then min_bitrate_configured s else b);
         s2 = (if b \<noteq> cur \<or> own_last_fraction_loss s1 \<noteq> last_logged_fraction_loss s1 \<or>
                  now_ms - last_rtc_event_log_ms s1 > kRtcEventLogPeriodMs
               then s1\<lparr>last_logged_fraction_loss := own_last_fraction_loss s1,
                       last_rtc_event_log_ms := now_ms\<rparr> else s1)
     in (b, s2))"

definition GetMinBitrate :: "lossctl \<Rightarrow> int" where
  "GetMinBitrate s = sint (min_bitrate_configured s)"

definition SetMinMaxBitrate :: "int \<Rightarrow> int \<Rightarrow> lossctl \<Rightarrow> lossctl" where
  "SetMinMaxBitrate min_bitrate max_bitrate s0 =
     (let s = s0\<lparr>min_bitrate_configured := word_of_int (max min_bitrate (GetMinBitrate s0))\<rparr>
      in s\<lparr>max_bitrate_configured :=
             (if max_bitrate > 0 then max (min_bitrate_configured s) (word_of_int max_bitrate)
              else word_of_int kDefaultMaxBitrateBps)\<rparr>)"

definition SetSendBitrate :: "int \<Rightarrow> int \<Rightarrow> u32 \<times> lossctl \<Rightarrow> u32 \<times> lossctl" where
  "SetSendBitrate bitrate nowms = (\<lambda>(cur, s0).
     let (cur, s) = CapBitrateToThresholds nowms (word_of_int bitrate)
                      (cur, s0\<lparr>delay_based_bitrate_bps := 0\<rparr>)
     in (cur, s\<lparr>min_bitrate_history := []\<rparr>))"

definition SetBitrates :: "int \<Rightarrow> int \<Rightarrow> int \<Rightarrow> int \<Rightarrow> u32 \<times> lossctl \<Rightarrow> u32 \<times> lossctl" where
  "SetBitrates send_bitrate min_bitrate max_bitrate nowms = (\<lambda>(cur, s0).
     let s = SetMinMaxBitrate min_bitrate max_bitrate s0
     in if send_bitrate > 0 then SetSendBitrate send_bitrate nowms (cur, s) else (cur, s))"

definition IsInStartPhase :: "int \<Rightarrow> lossctl \<Rightarrow> bool" where
  "IsInStartPhase now_ms s \<longleftrightarrow>
     first_report_time_ms s = - 1 \<or> now_ms - first_report_time_ms s < kStartPhaseMs"

text \<open>The second loop of \<open>UpdateMinHistory\<close> pops from the back.\<close>

definition UpdateMinHistory :: "int \<Rightarrow> u32 \<Rightarrow> (int \<times> u32) list \<Rightarrow> (int \<times> u32) list" where
  "UpdateMinHistory now_ms cur h =
     (let young = pop_while (\<lambda>(t, b). now_ms - t + 1 > kBweIncreaseIntervalMs) h
      in rev (pop_while (\<lambda>(t, b). cur \<le> b) (rev young)) @ [(now_ms, cur)])"

text \<open>The reaction to the loss rate, once a report has come.\<close>

definition react_to_loss :: "libm \<Rightarrow> int \<Rightarrow> u32 \<Rightarrow> lossctl \<Rightarrow> (u32 \<times> lossctl) res" where
  "react_to_loss M now_ms cur s =
     (let loss = lm_fs M (flt M (own_last_fraction_loss s) / 256)
      in if cur < bitrate_threshold_bps s \<or> loss \<le> low_loss_threshold s
         then (case min_bitrate_history s of
                 [] \<Rightarrow> Inl UndefinedBehaviour
               | (t, b) # _ \<Rightarrow>
                   res_bind (to_word (lm_fd M (lm_fd M (dbl64 M (uint b) * lm_fd M (27 / 25)) + 1 / 2)))
                     (\<lambda>w. Inr (w + 1000, s)))
         else if cur > bitrate_threshold_bps s \<and> \<not> loss \<le> high_loss_threshold s \<and>
                 \<not> has_decreased_since_last_fraction_loss s \<and>
                 now_ms - time_last_decrease_ms s \<ge>
                   kBweDecreaseIntervalMs + last_round_trip_time_ms s
         then res_bind (to_word (lm_fd M (lm_fd M (dbl64 M (uint cur) *
                  dbl64 M (512 - uint (own_last_fraction_loss s))) / 512))) (\<lambda>w.
                Inr (w, s\<lparr>time_last_decrease_ms := now_ms,
                          has_decreased_since_last_fraction_loss := True\<rparr>))
         else Inr (cur, s))"

definition UpdateEstimate :: "libm \<Rightarrow> int \<Rightarrow> u32 \<times> lossctl \<Rightarrow> (u32 \<times> lossctl) res" where
  "UpdateEstimate M now_ms = (\<lambda>(cur, s).
     let probe = (if own_last_fraction_loss s = 0 \<and> IsInStartPhase now_ms s
                  then max (delay_based_bitrate_bps s) cur else cur)
     in if probe \<noteq> cur
        then Inr (CapBitrateToThresholds now_ms probe
                    (cur, s\<lparr>min_bitrate_history := [(now_ms, cur)]\<rparr>))
        else let s1 = s\<lparr>min_bitrate_history := UpdateMinHistory now_ms cur (min_bitrate_history s)\<rparr>
             in if last_packet_report_ms s1 = - 1
                then Inr (CapBitrateToThresholds now_ms cur (cur, s1))
                else res_bind (react_to_loss M now_ms cur s1) (\<lambda>(new, s2).
                     Inr (CapBitrateToThresholds now_ms new (cur, s2))))"

definition UpdateDelayBasedEstimate :: "int \<Rightarrow> u32 \<Rightarrow> u32 \<times> lossctl \<Rightarrow> u32 \<times> lossctl" where
  "UpdateDelayBasedEstimate now_ms b = (\<lambda>(cur, s).
     CapBitrateToThresholds now_ms cur (cur, s\<lparr>delay_based_bitrate_bps := b\<rparr>))"

text \<open>\<open>lost << 8\<close> of an \<open>int\<close> that is negative or does not fit is undefined.\<close>

definition UpdatePacketsLost :: "libm \<Rightarrow> int \<Rightarrow> int \<Rightarrow> int \<Rightarrow> u32 \<times> lossctl \<Rightarrow> (u32 \<times> lossctl) res" where
  "UpdatePacketsLost M packets_lost number_of_packets now_ms = (\<lambda>(cur, s0).
     let s = s0\<lparr>last_feedback_ms := now_ms,
               first_report_time_ms := (if first_report_time_ms s0 = - 1 then now_ms
                                        else first_report_time_ms s0)\<rparr>
     in if number_of_packets \<le> 0 then Inr (cur, s)
        else if number_of_packets < kLimitNumPackets
        then Inr (cur, s\<lparr>lost_packets_since_last_loss_update := packets_lost,
                         expected_packets_since_last_loss_update := number_of_packets\<rparr>)
        else if packets_lost < 0 \<or> packets_lost \<ge> 2 ^ 24 then Inl UndefinedBehaviour
        else UpdateEstimate M now_ms (cur,
               s\<lparr>has_decreased_since_last_fraction_loss := False,
                 own_last_fraction_loss :=
                   word_of_int (min (sint (word_of_int (packets_lost * 256) :: u32) sdiv number_of_packets) 255),
                 lost_packets_since_last_loss_update := 0,
                 expected_packets_since_last_loss_update := 0,
                 last_packet_report_ms := now_ms\<rparr>))"

definition CurrentEstimate :: "u32 \<times> lossctl \<Rightarrow> int \<times> u8 \<times> int" where
  "CurrentEstimate = (\<lambda>(cur, s). (sint cur, own_last_fraction_loss s, last_round_trip_time_ms s))"

section \<open>Feedback\<close>

definition Gcc_setCurrentBw :: "rat \<Rightarrow> gcc \<Rightarrow> gcc" where
  "Gcc_setCurrentBw bw s = s\<lparr>g_base := setInitBw bw (g_base s)\<rparr>"

definition Gcc_reset :: "string \<Rightarrow> gcc \<Rightarrow> gcc" where
  "Gcc_reset this s = s\<lparr>g_lastTimeCalcUs := 0, g_lastTimeCalcValid := False, g_QdelayUs := 0,
     g_ploss := 0, g_Pkt := 0, g_plr := 0, g_RecvR := 0, g_base := reset this (g_base s)\<rparr>"

definition Gcc_getBandwidth :: "gcc \<Rightarrow> rat" where
  "Gcc_getBandwidth s = m_initBw (g_base s)"

definition Gcc_getSendBps :: "gcc \<Rightarrow> u32" where
  "Gcc_getSendBps s = current_bitrate_bps (g_rate s)"

definition Gcc_updateMetrics :: "libm \<Rightarrow> gcc \<Rightarrow> gcc res" where
  "Gcc_updateMetrics M s0 =
     (let s1 = (case getCurrentQdelay (g_base s0) of None \<Rightarrow> s0 | Some q \<Rightarrow> s0\<lparr>g_QdelayUs := q\<rparr>)
      in res_bind (getCurrentRecvRate (lm_fs M) (g_base s1)) (\<lambda>(rate, base).
         let s2 = s1\<lparr>g_base := base, g_RecvR := (case rate of None \<Rightarrow> g_RecvR s1 | Some r \<Rightarrow> r)\<rparr>
         in res_bind (getPktLossInfo (lm_fs M) (g_base s2)) (\<lambda>info.
            Inr (case info of None \<Rightarrow> s2
                 | Some (nLoss, plr, nPkt) \<Rightarrow> s2\<lparr>g_ploss := nLoss, g_Pkt := nPkt, g_plr := plr\<rparr>))))"

text \<open>The loss ratio of the last period of \<open>LOSS_TIMER\<close> milliseconds, by the number of the
  packet that the feedback is for.\<close>

definition loss_timer :: "libm \<Rightarrow> u64 \<Rightarrow> u16 \<Rightarrow> gcc \<Rightarrow> gcc" where
  "loss_timer M now_ms sq s =
     (if prev_seq_loss s = 0 then s\<lparr>prev_seq_loss := uint sq, g_timer := now_ms\<rparr>
      else if g_timer s + LOSS_TIMER < now_ms
      then let delta_seq = uint sq - prev_seq_loss s;
               fs = lm_fs M; fd = lm_fd M;
               ratio = fs (fs (of_int (loss_counter (g_base s))) / fs (of_int delta_seq))
           in s\<lparr>loss_moving_avg := (if delta_seq \<noteq> 0
                    then fs (fd (fd (loss_moving_avg s * fd (4 / 5)) + fd (ratio * fd (1 / 5))))
                    else loss_moving_avg s),
                g_base := (g_base s)\<lparr>loss_counter := 0\<rparr>,
                prev_seq_loss := uint sq + 1, g_timer := now_ms\<rparr>
      else s)"

text \<open>The static variables of \<open>processFeedback\<close>, set by the first call in the program.\<close>

type_synonym gcc_statics = "(int \<times> int \<times> int) option"

definition init_statics :: "gcc \<Rightarrow> gcc_statics \<Rightarrow> int \<times> int \<times> int" where
  "init_statics s st = (case st of
     None \<Rightarrow> (sint (min_bitrate_configured (g_loss s)), sint (max_bitrate_configured (g_loss s)),
              sint (min_bitrate_configured (g_loss s)))
   | Some v \<Rightarrow> v)"

definition on_loss :: "(u32 \<times> lossctl \<Rightarrow> u32 \<times> lossctl) \<Rightarrow> gcc \<Rightarrow> gcc" where
  "on_loss f s = (let (cur, l) = f (current_bitrate_bps (g_rate s), g_loss s)
     in s\<lparr>g_rate := (g_rate s)\<lparr>current_bitrate_bps := cur\<rparr>, g_loss := l\<rparr>)"

text \<open>The estimator, the detector and the round trip time; \<open>junk\<close> is the value of the variable
  \<open>rtt_us\<close> while the history is empty.\<close>

definition detect_overuse ::
  "libm \<Rightarrow> int \<Rightarrow> u64 \<Rightarrow> int \<Rightarrow> int \<Rightarrow> u64 \<Rightarrow> gcc \<Rightarrow> gcc" where
  "detect_overuse M inter_arrival inter_departure group_size arrival junk s =
     (let ts_delta = (ucast inter_departure :: u32) div 1000;
          t_delta = inter_arrival sdiv 1000;
          ms = arrival sdiv 1000;
          d = OveruseEstimatorUpdate M t_delta (dbl64 M (uint ts_delta)) group_size
                (D_hypothesis (g_overuse s)) ms (g_overuse s);
          (_, d) = OveruseDetectorDetect M (o_offset d) (dbl64 M (uint ts_delta))
                     (uint (num_of_deltas d)) ms d;
          rtt_us = (case getCurrentRTT (g_base s) of None \<Rightarrow> junk | Some r \<Rightarrow> r)
      in s\<lparr>g_overuse := d, g_rate := (g_rate s)\<lparr>g_rtt := uint (rtt_us div 1000)\<rparr>\<rparr>)"

definition incoming_rate :: "gcc \<Rightarrow> u32 res" where
  "incoming_rate s = res_bind (to_word (g_RecvR s)) (\<lambda>w. Inr (min w (current_bitrate_bps (g_rate s))))"

definition rtt_clamped :: "gcc \<Rightarrow> u16" where
  "rtt_clamped s = min (max (word_of_int (g_rtt (g_rate s))) 10) 200"

text \<open>Whether it is time for a new estimate.\<close>

definition update_due :: "libm \<Rightarrow> u64 \<Rightarrow> gcc \<Rightarrow> bool res" where
  "update_due M now_ms s =
     (if last_update_ms s = - 1 \<or> now_ms - word_of_int (last_update_ms s) > ucast (rtt_clamped s)
      then Inr True
      else if D_hypothesis (g_overuse s) = CHR ''O''
      then res_bind (incoming_rate s) (\<lambda>r.
             if r = 0 then Inr False
             else TimeToReduceFurther M (sint (ucast now_ms :: u32)) r (g_rate s))
      else Inr False)"

definition new_estimate :: "libm \<Rightarrow> u64 \<Rightarrow> gcc \<Rightarrow> gcc res" where
  "new_estimate M now_ms s =
     res_bind (incoming_rate s) (\<lambda>r.
     res_bind (Update M (D_hypothesis (g_overuse s)) r (var_noise (g_overuse s)) (sint now_ms) (g_rate s))
       (\<lambda>(_, a). Inr (s\<lparr>g_rate := a, last_update_ms := sint now_ms\<rparr>)))"

definition Gcc_processFeedback ::
  "libm \<Rightarrow> u64 \<Rightarrow> u64 \<Rightarrow> u64 \<Rightarrow> u16 \<Rightarrow> u64 \<Rightarrow> int \<Rightarrow> u64 \<Rightarrow> int \<Rightarrow> int
    \<Rightarrow> gcc_statics \<times> gcc \<Rightarrow> (bool \<times> gcc_statics \<times> gcc) res" where
  "Gcc_processFeedback M now_ms junk nowUs sq rx inter_arrival inter_departure group_size arrival
     = (\<lambda>(st0, s0).
     res_bind (processFeedback nowUs sq rx (g_base s0)) (\<lambda>(ok, base).
     let s1 = s0\<lparr>g_base := base\<rparr>; st = init_statics s1 st0; s = loss_timer M now_ms sq s1
     in if \<not> ok then Inr (False, Some st, s)
        else if \<not> g_lastTimeCalcValid s
        then let (kMin, kMax, kInit) = st
             in Inr (True, Some st, on_loss (\<lambda>(cur, l). SetSendBitrate kInit (sint (ucast nowUs :: u32))
                       (cur, SetMinMaxBitrate kMin kMax l)) (s\<lparr>g_lastTimeCalcValid := True\<rparr>))
        else res_bind (Gcc_updateMetrics M s) (\<lambda>s.
             let s = detect_overuse M inter_arrival inter_departure group_size arrival junk s
             in res_bind (update_due M now_ms s) (\<lambda>due.
             res_bind (if due then new_estimate M now_ms s else Inr s) (\<lambda>s.
             let s = on_loss (UpdateDelayBasedEstimate (sint now_ms) (current_bitrate_bps (g_rate s))) s
             in res_bind (UpdateEstimate M (sint now_ms) (current_bitrate_bps (g_rate s), g_loss s))
                  (\<lambda>cl. Inr (True, Some st, on_loss (\<lambda>_. cl) s)))))))"

end
