(* ===== verification/Gcc_Rate.thy ===== *)
theory Gcc_Rate
  imports Gcc
begin

text \<open>
  What holds of Google congestion control: no conversion of a float overflows and the rate stays
  between the configured bounds, overuse never raises the rate, the loss based controller never
  changes it, the detector reports overuse only after two samples in a row above its threshold,
  and the history of rates yields the minimum over the last second.
\<close>

section \<open>Conversions\<close>

lemma to_word_ok:
  "0 \<le> x \<Longrightarrow> x < 2 ^ LENGTH('a) \<Longrightarrow> to_word x = Inr (word_of_int \<lfloor>x\<rfloor> :: 'a::len word)"
  by (simp add: to_word_def trunc_def floor_less_iff)

lemma to_word_unat:
  assumes "0 \<le> x" "x \<le> of_nat n" "n < 2 ^ LENGTH('a)"
  shows "\<exists>w :: 'a::len word. to_word x = Inr w \<and> unat w \<le> n \<and> uint w = \<lfloor>x\<rfloor>"
proof -
  have "x < of_nat (2 ^ LENGTH('a))"
    using assms(2,3) by (metis of_nat_less_iff order.strict_trans1)
  then have lt: "x < 2 ^ LENGTH('a)" by simp
  have fl: "\<lfloor>x\<rfloor> \<le> int n" "0 \<le> \<lfloor>x\<rfloor>" using assms(1,2) by (simp_all add: floor_le_iff)
  have u: "uint (word_of_int \<lfloor>x\<rfloor> :: 'a word) = \<lfloor>x\<rfloor>"
    using fl assms(3) by (intro uint_word_of_int_eq [THEN trans] take_bit_int_eq_self)
      (auto intro: order.strict_trans1 simp flip: of_nat_power_eq_of_nat_cancel_iff)
  then have "unat (word_of_int \<lfloor>x\<rfloor> :: 'a word) \<le> n" using fl by (simp add: unat_eq_nat_uint)
  then show ?thesis using to_word_ok [OF assms(1) lt] u by blast
qed

section \<open>Rates\<close>

lemma uint_rat: "(0 :: rat) \<le> of_int (uint w)" "uint w \<le> n \<Longrightarrow> (of_int (uint w) :: rat) \<le> of_int n"
  by (simp_all only: of_int_0_le_iff of_int_le_iff uint_ge_0)

lemma unat_uint_le: "unat w \<le> n \<Longrightarrow> uint w \<le> int n"
  by (simp only: unat_eq_nat_uint nat_le_iff)

lemma flt_le:
  assumes f: "float_ok (lm_fs M)" and w: "uint w \<le> 2 ^ k" "k \<le> 40"
  shows "flt M w \<le> 2 ^ k"
proof -
  have "of_int (uint w) \<le> (of_int 1 * 2 ^ k :: rat)" using uint_rat(2) [OF w(1)] by simp
  from float_le [OF f this _ w(2)] show ?thesis by simp
qed

lemma flt_nonneg: "float_ok (lm_fs M) \<Longrightarrow> 0 \<le> flt M w"
  by (rule float_nonneg [of "lm_fs M"]) (simp_all only: uint_rat)

lemma flt_rate: "float_ok (lm_fs M) \<Longrightarrow> unat w \<le> 100000000 \<Longrightarrow> flt M (w :: u32) \<le> 2 ^ 27"
  by (rule flt_le) (auto dest: unat_uint_le)

lemma clamp_run:
  assumes M: "float_ok (lm_fs M)" and i: "unat incoming \<le> 100000000"
  shows "\<exists>r. ClampBitrate M new incoming s = Inr r \<and> min_configured_bitrate_bps s \<le> r \<and>
    unat r \<le> max 201336592 (unat (min_configured_bitrate_bps s)) \<and>
    r \<le> max new (min_configured_bitrate_bps s)"
proof -
  have "3 / 2 * flt M incoming \<le> of_int 3 * 2 ^ 26" using flt_rate [OF M i] by simp
  then have u: "lm_fs M (3 / 2 * flt M incoming) \<le> of_int 3 * 2 ^ 26" by (intro float_le [OF M]) simp_all
  have "0 \<le> lm_fs M (3 / 2 * flt M incoming)"
    using flt_nonneg [OF M, of incoming] by (intro float_nonneg [OF M]) simp
  then obtain w :: u32 where w: "to_word (lm_fs M (3 / 2 * flt M incoming)) = Inr w" "unat w \<le> 201326592"
    using to_word_unat [of "lm_fs M (3 / 2 * flt M incoming)" 201326592, where ?'a = 32] u by auto
  have "unat (w + 10000) = unat w + 10000" using w(2) by (simp add: unat_word_ariths)
  then have "unat (w + 10000) \<le> 201336592" using w(2) by simp
  then show ?thesis
    unfolding ClampBitrate_def w(1) Let_def
    by (auto simp: word_le_nat_alt word_less_nat_alt max_def min_def)
qed

lemma pow_rate:
  assumes "libm_ok M" and x: "x \<le> 1"
  shows "to_word (max (lm_fd M (dbl64 M (uint (cur :: u32)) * lm_fd M
      ((if lst > - 1 then lm_fd M (lm_pow M (lm_fd M (27 / 25)) x) else lm_fd M (27 / 25)) - 1))) 1000)
    = Inr (word_of_int \<lfloor>max (lm_fd M (dbl64 M (uint (cur :: u32)) * lm_fd M
      ((if lst > - 1 then lm_fd M (lm_pow M (lm_fd M (27 / 25)) x) else lm_fd M (27 / 25)) - 1))) 1000\<rfloor> :: u32)"
proof -
  have f: "rounding_ok (lm_fd M)" using assms(1) by (simp add: libm_ok_def)
  let ?a = "lm_fd M (27 / 25)"
  have a1: "1 \<le> ?a" using rounding_mono [OF f, of 1 "27 / 25"] by (simp add: rounding_one [OF f])
  have a2: "?a \<le> 2" using rounding_mono [OF f, of "27 / 25" 2] rounding_int [OF f, of 2] by simp
  have "lm_pow M ?a x \<le> ?a" using assms(1) a1 x by (simp add: libm_ok_def)
  then have "lm_pow M ?a x \<le> 2" using a2 by linarith
  then have "lm_fd M (lm_pow M ?a x) \<le> 2"
    using rounding_mono [OF f, of "lm_pow M ?a x" 2] rounding_int [OF f, of 2] by simp
  then have al: "(if lst > - 1 then lm_fd M (lm_pow M ?a x) else ?a) - 1 \<le> 1"
    using a2 by simp
  let ?b = "lm_fd M ((if lst > - 1 then lm_fd M (lm_pow M ?a x) else ?a) - 1)"
  have b: "?b \<le> 1" using al by (rule rounding_le_one [OF f])
  have c: "dbl64 M (uint cur) = of_int (uint cur)"
    using uint_lt(3) [of cur] by (intro rounding_int [OF f]) simp
  have c0: "(0 :: rat) \<le> of_int (uint cur)" by (rule uint_rat)
  have "of_int (uint cur) * ?b \<le> of_int (uint cur)"
    using mult_left_mono [OF b c0] by simp
  then have "lm_fd M (dbl64 M (uint cur) * ?b) \<le> of_int (uint cur)"
    using rounding_mono [OF f, of "of_int (uint cur) * ?b" "of_int (uint cur)"] c by simp
  also have "of_int (uint cur) < (2 ^ 32 :: rat)"
    using of_int_less_iff [where ?'a = rat, THEN iffD2, OF uint_lt(3) [of cur]] by simp
  finally show ?thesis by (intro to_word_ok) simp_all
qed

lemma multiplicative_run:
  assumes M: "libm_ok M"
  shows "\<exists>w. MultiplicativeRateIncrease M now lst cur = Inr w"
proof -
  have f: "rounding_ok (lm_fd M)" using M by (simp add: libm_ok_def)
  have "dbl64 M (min (now - lst) 1000) \<le> 1000"
    using rounding_mono [OF f, of "of_int (min (now - lst) 1000)" "of_int 1000"]
      rounding_int [OF f, of 1000] by (simp add: min_def split: if_splits)
  then have "lm_fd M (dbl64 M (min (now - lst) 1000) / 1000) \<le> 1"
    by (intro rounding_le_one [OF f]) simp
  from pow_rate [OF M, OF this, of cur lst] show ?thesis
    unfolding MultiplicativeRateIncrease_def Let_def by blast
qed

text \<open>The rate of the additive increase fits an \<open>int\<close>.\<close>

lemma near_max_run:
  assumes f: "rounding_ok (lm_fd M)" and c: "unat (current_bitrate_bps s) \<le> 100000000"
    and rtt: "0 \<le> g_rtt s"
  shows "\<exists>r. GetNearMaxIncreaseRateBps M s = Inr r"
proof -
  let ?cur = "of_int (uint (current_bitrate_bps s)) :: rat"
  have cur: "dbl64 M (uint (current_bitrate_bps s)) = ?cur"
    using uint_lt(3) [of "current_bitrate_bps s"] by (intro rounding_int [OF f]) simp
  have "uint (current_bitrate_bps s) \<le> 100000000" using unat_uint_le [OF c] by simp
  then have c8: "?cur \<le> 100000000"
    using uint_rat(2) [of "current_bitrate_bps s" 100000000] by simp
  let ?bits = "lm_fd M (dbl64 M (uint (current_bitrate_bps s)) / 30)"
  have b0: "0 \<le> ?bits" unfolding cur by (rule rounding_nonneg [OF f]) (simp only: divide_nonneg_pos uint_rat zero_less_numeral)
  have "?cur / 30 \<le> of_int 100000000" using c8 by simp
  then have b8: "?bits \<le> 100000000"
    using rounding_mono [OF f, of "?cur / 30" "of_int 100000000"] rounding_int [OF f, of 100000000]
    unfolding cur by simp
  let ?n = "\<lceil>lm_fd M (?bits / 9600)\<rceil>"
  have n0: "0 \<le> ?n" using rounding_nonneg [OF f, of "?bits / 9600"] b0 by (simp only: le_ceiling_iff) simp
  show ?thesis
  proof (cases "?n = 0")
    case True
    then show ?thesis unfolding GetNearMaxIncreaseRateBps_def Let_def by simp
  next
    case False
    then have n1: "(1 :: rat) \<le> of_int ?n" using n0 by linarith
    let ?resp = "if in_experiment s then (g_rtt s + 100) * 2 else g_rtt s + 100"
    have r: "100 \<le> ?resp" using rtt by simp
    then have "dbl64 M 100 \<le> dbl64 M ?resp" by (intro rounding_mono [OF f]) linarith
    then have r1: "(1 :: rat) \<le> dbl64 M ?resp" using rounding_int [OF f, of 100] by simp
    have "?bits / of_int ?n \<le> ?bits / 1" using b0 n1 by (intro divide_left_mono) auto
    then have "?bits / of_int ?n \<le> of_int 100000000" using b8 by simp
    then have x: "lm_fd M (?bits / of_int ?n) \<le> 100000000" (is "?x \<le> _")
      using rounding_mono [OF f, of "?bits / of_int ?n" "of_int 100000000"] rounding_int [OF f, of 100000000] by simp
    then have "?x * 1000 \<le> of_int 100000000000" by simp
    then have y: "lm_fd M (?x * 1000) \<le> of_int 100000000000" (is "?y \<le> _")
      using rounding_mono [OF f, of "?x * 1000" "of_int 100000000000"] rounding_int [OF f, of 100000000000] by simp
    have r100: "(100 :: rat) \<le> dbl64 M ?resp"
      using \<open>dbl64 M 100 \<le> dbl64 M ?resp\<close> rounding_int [OF f, of 100] by simp
    have "0 \<le> ?bits / of_int ?n" using n1 by (intro divide_nonneg_nonneg b0) linarith
    then have "0 \<le> ?x" by (rule rounding_nonneg [OF f])
    then have "0 \<le> ?x * 1000" by simp
    then have y0: "0 \<le> ?y" by (rule rounding_nonneg [OF f])
    have "?y / dbl64 M ?resp \<le> ?y / 100" using y0 r100 by (intro divide_left_mono) auto
    also have "\<dots> \<le> of_int 1000000000" using y by simp
    finally have z: "lm_fd M (?y / dbl64 M ?resp) \<le> 1000000000" (is "?z \<le> _")
      using rounding_mono [OF f, of "?y / dbl64 M ?resp" "of_int 1000000000"] rounding_int [OF f, of 1000000000] by simp
    have lo: "- (2 ^ 31) \<le> trunc (max 4000 ?z)"
      by (rule order_trans [OF _ trunc_nonneg]) (simp_all add: max_def)
    have "trunc (max 4000 ?z) \<le> 1000000000" using z by (simp add: trunc_def floor_le_iff)
    then have "\<exists>r. to_int32 (max 4000 ?z) = Inr r" using lo unfolding to_int32_def by simp
    then show ?thesis
      unfolding GetNearMaxIncreaseRateBps_def Let_def using False r by simp
  qed
qed

text \<open>What every rate control state satisfies: the settings of the constructor, a rate of at most
  the configured maximum, and an average of the rates at overuse whenever the state is near it.\<close>

definition avg_ok :: "rat \<Rightarrow> bool" where
  "avg_ok x \<longleftrightarrow> x = - 1 \<or> 0 \<le> x \<and> x \<le> 2 ^ 20"

definition aimd_ok :: "libm \<Rightarrow> aimd \<Rightarrow> bool" where
  "aimd_ok M s \<longleftrightarrow> min_configured_bitrate_bps s = 500000 \<and> beta s = lm_fs M (17 / 20) \<and>
     \<not> smoothing_experiment s \<and> \<not> in_experiment s \<and> 0 \<le> g_rtt s \<and>
     unat (current_bitrate_bps s) \<le> 100000000 \<and>
     rate_control_state s \<in> {CHR ''H'', CHR ''I''} \<and> rate_control_region s \<in> {CHR ''M'', CHR ''N''} \<and>
     avg_ok (avg_max_bitrate_kbps s) \<and>
     (rate_control_region s = CHR ''N'' \<longrightarrow> avg_max_bitrate_kbps s \<noteq> - 1)"

lemma max_estimate_run:
  assumes f: "float_ok (lm_fs M)" and a: "avg_ok (avg_max_bitrate_kbps s)"
    and i: "0 \<le> inc" "inc \<le> 2 ^ 18"
  shows "\<exists>avg var. UpdateMaxBitRateEstimate M inc s
      = s\<lparr>avg_max_bitrate_kbps := avg, var_max_bitrate_kbps := var\<rparr> \<and> 0 \<le> avg \<and> avg \<le> 2 ^ 20"
proof (cases "avg_max_bitrate_kbps s = - 1")
  case True
  then show ?thesis using i unfolding UpdateMaxBitRateEstimate_def Let_def by fastforce
next
  case False
  let ?f = "lm_fs M" let ?al = "?f (1 / 20)" let ?avg = "avg_max_bitrate_kbps s"
  from False a have avg: "0 \<le> ?avg" "?avg \<le> 2 ^ 20" by (simp_all add: avg_ok_def)
  have al1: "3 / 64 \<le> ?al" using float_ge_frac [OF f, of 3 6 "1 / 20"] by simp
  have al2: "?al \<le> 1 / 16" using float_le_frac [OF f, of "1 / 20" 1 4] by simp
  have c1: "?f (1 - ?al) \<le> 61 / 64" using float_le_frac [OF f, of "1 - ?al" 61 6] al1 by simp
  have c0: "0 \<le> ?f (1 - ?al)" using al2 by (intro float_nonneg [OF f]) simp
  have "?f (1 - ?al) * ?avg \<le> 61 / 64 * 2 ^ 20" using c1 c0 avg by (intro mult_mono) auto
  then have x: "?f (?f (1 - ?al) * ?avg) \<le> 999424" using float_le [OF f, of _ 61 14] by simp
  have "?al * inc \<le> 1 / 16 * 2 ^ 18" using al1 al2 i by (intro mult_mono) auto
  then have y: "?f (?al * inc) \<le> 16384" using float_le [OF f, of _ 1 14] by simp
  have "0 \<le> ?f (?f (1 - ?al) * ?avg)" "0 \<le> ?f (?al * inc)"
    using c0 avg al1 i by (auto intro!: float_nonneg [OF f] mult_nonneg_nonneg)
  then have "0 \<le> ?f (?f (?f (1 - ?al) * ?avg) + ?f (?al * inc))" by (intro float_nonneg [OF f]) simp
  moreover have "?f (?f (?f (1 - ?al) * ?avg) + ?f (?al * inc)) \<le> 2 ^ 20"
    using x y float_le [OF f, of _ 1 20] by simp
  ultimately show ?thesis using False unfolding UpdateMaxBitRateEstimate_def Let_def by fastforce
qed

lemma incoming_kbps:
  assumes f: "float_ok (lm_fs M)" and i: "unat (incoming :: u32) \<le> 100000000"
  shows "0 \<le> lm_fs M (flt M incoming / 1000)" "lm_fs M (flt M incoming / 1000) \<le> 2 ^ 18"
proof -
  show "0 \<le> lm_fs M (flt M incoming / 1000)"
    using flt_nonneg [OF f, of incoming] by (intro float_nonneg [OF f]) simp
  have "flt M incoming / 1000 \<le> of_int 1 * 2 ^ 18" using flt_rate [OF f i] by simp
  from float_le [OF f this] show "lm_fs M (flt M incoming / 1000) \<le> 2 ^ 18" by simp
qed

lemma decreased_run:
  assumes M: "libm_ok M" and i: "unat incoming \<le> 100000000" and b: "beta s = lm_fs M (17 / 20)"
    and a: "rate_control_region s \<noteq> CHR ''M'' \<Longrightarrow>
      0 \<le> avg_max_bitrate_kbps s \<and> avg_max_bitrate_kbps s \<le> 2 ^ 20"
  shows "\<exists>w. decreased_bitrate M incoming s = Inr w \<and> w \<le> current_bitrate_bps s"
proof -
  have f: "float_ok (lm_fs M)" and d: "rounding_ok (lm_fd M)" using M by (simp_all add: libm_ok_def)
  have b0: "0 \<le> beta s" unfolding b by (rule float_nonneg [OF f]) simp
  have b1: "beta s \<le> 1" unfolding b using float_int [OF f, of 1] float_mono [OF f, of "17 / 20" 1] by simp
  have conv: "\<exists>w :: u32. to_word x = Inr w" if "0 \<le> x" "x \<le> 2 ^ 31" for x :: rat
    by (rule exI, rule to_word_ok) (use that in simp_all)
  let ?x = "lm_fs M (beta s * flt M incoming)"
  have "beta s * flt M incoming \<le> 1 * 2 ^ 27"
    using b0 b1 flt_rate [OF f i] flt_nonneg [OF f, of incoming] by (intro mult_mono) auto
  then have "?x \<le> 2 ^ 27" using float_le [OF f, of _ 1 27] by simp
  moreover have "0 \<le> ?x" 
    by (rule float_nonneg [OF f], rule mult_nonneg_nonneg, rule b0, rule flt_nonneg [OF f])
  ultimately have "?x + 1 / 2 \<le> of_int (2 ^ 28)" "0 \<le> ?x + 1 / 2" by simp_all
  then have "lm_fd M (?x + 1 / 2) \<le> 2 ^ 31" "0 \<le> lm_fd M (?x + 1 / 2)"
    using rounding_mono [OF d, of "?x + 1 / 2" "of_int (2 ^ 28)"] rounding_int [OF d, of "2 ^ 28"]
      rounding_nonneg [OF d, of "?x + 1 / 2"] by simp_all
  then obtain w :: u32 where w: "to_word (lm_fd M (?x + 1 / 2)) = Inr w" using conv by blast
  show ?thesis
  proof (cases "w > current_bitrate_bps s \<and> rate_control_region s \<noteq> CHR ''M''")
    case True
    let ?avg = "avg_max_bitrate_kbps s"
    have avg: "0 \<le> ?avg" "?avg \<le> 2 ^ 20" using a True by simp_all
    have "beta s * ?avg \<le> 1 * 2 ^ 20" using b0 b1 avg by (intro mult_mono) auto
    then have "lm_fs M (beta s * ?avg) \<le> 2 ^ 20" using float_le [OF f, of _ 1 20] by simp
    then have y: "lm_fs M (lm_fs M (beta s * ?avg) * 1000) \<le> 2 ^ 30"
      using float_le [OF f, of _ 1 30] by simp
    have y0: "0 \<le> lm_fs M (lm_fs M (beta s * ?avg) * 1000)"
      using b0 avg by (intro float_nonneg [OF f] mult_nonneg_nonneg) auto
    let ?y = "lm_fs M (lm_fs M (lm_fs M (beta s * ?avg) * 1000) + 1 / 2)"
    have "?y \<le> 2 ^ 31" using y float_le [OF f, of _ 1 31] by simp
    moreover have "0 \<le> ?y" using y0 by (intro float_nonneg [OF f]) simp
    ultimately obtain v :: u32 where "to_word ?y = Inr v" using conv by blast
    then show ?thesis using True w unfolding decreased_bitrate_def by simp
  next
    case False
    then show ?thesis using w unfolding decreased_bitrate_def by (auto simp: not_less)
  qed
qed

lemma increase_run:
  assumes M: "libm_ok M" and s: "aimd_ok M s"
  shows "\<exists>w a. increase_bitrate M new kbps std now s = Inr (w, a) \<and> aimd_ok M a \<and>
    current_bitrate_bps a = current_bitrate_bps s"
proof -
  have d: "rounding_ok (lm_fd M)" using M by (simp add: libm_ok_def)
  have add: "\<exists>w. AdditiveRateIncrease M now t a = Inr w" if "aimd_ok M a" for a t
    using near_max_run [OF d, of a] that unfolding AdditiveRateIncrease_def aimd_ok_def by fastforce
  have reset: "aimd_ok M ((ChangeRegion CHR ''M'' s)\<lparr>avg_max_bitrate_kbps := - 1\<rparr>)"
    using s by (simp add: aimd_ok_def ChangeRegion_def avg_ok_def)
  have keep: "aimd_ok M (a\<lparr>time_last_bitrate_change := now\<rparr>)" if "aimd_ok M a" for a
    using that by (simp add: aimd_ok_def)
  have step: "\<exists>w a'. res_bind (if rate_control_region a = CHR ''N''
      then AdditiveRateIncrease M now (time_last_bitrate_change a) a
      else MultiplicativeRateIncrease M now (time_last_bitrate_change a) new)
      (\<lambda>inc. Inr (new + inc, a\<lparr>time_last_bitrate_change := now\<rparr>)) = Inr (w, a') \<and> aimd_ok M a' \<and>
      current_bitrate_bps a' = current_bitrate_bps a" if ok: "aimd_ok M a" for a
  proof -
    obtain w1 where w1: "AdditiveRateIncrease M now (time_last_bitrate_change a) a = Inr w1"
      using add [OF ok] by blast
    obtain w2 where w2: "MultiplicativeRateIncrease M now (time_last_bitrate_change a) new = Inr w2"
      using multiplicative_run [OF M] by blast
    show ?thesis using keep [OF ok] by (simp add: w1 w2)
  qed
  show ?thesis
    unfolding increase_bitrate_def Let_def
    using step [OF s] step [OF reset] by (auto simp: ChangeRegion_def split: if_splits)
qed

lemma decrease_run:
  assumes M: "libm_ok M" and s: "aimd_ok M (s\<lparr>rate_control_state := CHR ''H''\<rparr>)"
    and i: "unat incoming \<le> 100000000" and k: "0 \<le> k" "k \<le> 2 ^ 18"
  shows "\<exists>w a. decrease_bitrate M incoming k std now s = Inr (w, a) \<and>
    aimd_ok M a \<and> current_bitrate_bps a = current_bitrate_bps s \<and> w \<le> current_bitrate_bps s"
proof -
  have f: "float_ok (lm_fs M)" using M by (simp add: libm_ok_def)
  have "\<exists>w. decreased_bitrate M incoming s = Inr w \<and> w \<le> current_bitrate_bps s"
    using s by (intro decreased_run [OF M i]) (auto simp: aimd_ok_def avg_ok_def)
  then obtain w where w: "decreased_bitrate M incoming s = Inr w" "w \<le> current_bitrate_bps s" by blast
  define s1 where "s1 = (if bitrate_is_initialized s \<and> incoming < current_bitrate_bps s
    then (ChangeRegion CHR ''N'' s)\<lparr>last_decrease := sint (current_bitrate_bps s - w)\<rparr>
    else ChangeRegion CHR ''N'' s)"
  define s2 where "s2 = (if (case std of None \<Rightarrow> False
      | Some d \<Rightarrow> k < lm_fs M (avg_max_bitrate_kbps s1 - lm_fs M (3 * d)))
    then s1\<lparr>avg_max_bitrate_kbps := - 1\<rparr> else s1)"
  have s2: "avg_ok (avg_max_bitrate_kbps (s2\<lparr>bitrate_is_initialized := True\<rparr>))"
    using s by (simp add: s2_def s1_def aimd_ok_def avg_ok_def ChangeRegion_def)
  have fields: "min_configured_bitrate_bps s2 = min_configured_bitrate_bps s" "beta s2 = beta s"
      "smoothing_experiment s2 = smoothing_experiment s" "in_experiment s2 = in_experiment s"
      "g_rtt s2 = g_rtt s" "current_bitrate_bps s2 = current_bitrate_bps s"
      "rate_control_region s2 = CHR ''N''"
    by (simp_all add: s2_def s1_def ChangeRegion_def)
  obtain avg var where u: "UpdateMaxBitRateEstimate M k
      (s2\<lparr>bitrate_is_initialized := True\<rparr>) = s2\<lparr>bitrate_is_initialized := True,
        avg_max_bitrate_kbps := avg, var_max_bitrate_kbps := var\<rparr>" "0 \<le> avg" "avg \<le> 2 ^ 20"
    using max_estimate_run [OF f s2 k] by auto
  have "decrease_bitrate M incoming k std now s
      = Inr (w, s2\<lparr>bitrate_is_initialized := True, avg_max_bitrate_kbps := avg,
          var_max_bitrate_kbps := var, rate_control_state := CHR ''H'', time_last_bitrate_change := now\<rparr>)"
    unfolding u(1) [symmetric]
  proof -
    have "\<not> smoothing_experiment s" using s by (simp add: aimd_ok_def)
    then show "decrease_bitrate M incoming k std now s = Inr (w, (UpdateMaxBitRateEstimate M k
        (s2\<lparr>bitrate_is_initialized := True\<rparr>))\<lparr>rate_control_state := CHR ''H'',
          time_last_bitrate_change := now\<rparr>)"
      by (cases "bitrate_is_initialized s \<and> incoming < current_bitrate_bps s"; cases std)
         (auto simp: decrease_bitrate_def Let_def ChangeRegion_def s1_def s2_def w(1))
  qed
  moreover have "aimd_ok M (s2\<lparr>bitrate_is_initialized := True, avg_max_bitrate_kbps := avg,
          var_max_bitrate_kbps := var, rate_control_state := CHR ''H'', time_last_bitrate_change := now\<rparr>)"
    using s u(2,3) by (simp add: aimd_ok_def avg_ok_def fields)
  ultimately show ?thesis using w(2) fields by auto
qed

definition known_usage :: "char \<Rightarrow> bool" where
  "known_usage c \<longleftrightarrow> c \<in> {CHR ''N'', CHR ''O'', CHR ''U''}"

lemma ChangeState_run:
  assumes "known_usage c" "aimd_ok M s"
  shows "\<exists>st t. ChangeState c now s = Inr (s\<lparr>time_last_bitrate_change := t, rate_control_state := st\<rparr>) \<and>
    (if c = CHR ''O'' then st = CHR ''D'' else st \<in> {CHR ''H'', CHR ''I''})"
  using assms
  by (cases s) (auto simp: ChangeState_def known_usage_def aimd_ok_def)

lemma change_run:
  assumes M: "libm_ok M" and s: "aimd_ok M s" and c: "known_usage c"
    and i: "unat incoming \<le> 100000000" and new: "new = current_bitrate_bps s"
    and init: "bitrate_is_initialized s \<or> 500000 \<le> current_bitrate_bps s"
  shows "\<exists>r a. ChangeBitrate M new c incoming nv now s = Inr (r, a) \<and> aimd_ok M a \<and>
    500000 \<le> r \<and> unat r \<le> 201336592 \<and> (c = CHR ''O'' \<longrightarrow> r \<le> max new 500000)"
proof -
  have f: "float_ok (lm_fs M)" using M by (simp add: libm_ok_def)
  define s1 where "s1 = (if incoming \<noteq> 0 then s\<lparr>latest_incoming_bitrate_bps := incoming\<rparr> else s)"
  have s1: "aimd_ok M s1" and cur: "current_bitrate_bps s1 = current_bitrate_bps s"
    and ini: "bitrate_is_initialized s1 = bitrate_is_initialized s"
    using s by (simp_all add: s1_def aimd_ok_def)
  show ?thesis
  proof (cases "\<not> bitrate_is_initialized s1 \<and> c = CHR ''O''")
    case True
    moreover have "unat (current_bitrate_bps s) \<le> 201336592" using s by (simp add: aimd_ok_def)
    ultimately show ?thesis
      using s1 init new ini cur unfolding ChangeBitrate_def Let_def s1_def [symmetric] by simp
  next
    case False
    obtain st t where st: "ChangeState c now s1 =
        Inr (s1\<lparr>time_last_bitrate_change := t, rate_control_state := st\<rparr>)" (is "_ = Inr ?s2")
        "if c = CHR ''O'' then st = CHR ''D'' else st \<in> {CHR ''H'', CHR ''I''}"
      using ChangeState_run [OF c s1] by blast
    have ok2: "aimd_ok M (?s2\<lparr>rate_control_state := CHR ''H''\<rparr>)"
      "st \<in> {CHR ''H'', CHR ''I''} \<Longrightarrow> aimd_ok M ?s2"
      using s1 by (auto simp: aimd_ok_def)
    let ?k = "lm_fs M (flt M incoming / 1000)"
    let ?std = "std_max_bit_rate M ?s2"
    obtain w a where wa: "(if rate_control_state ?s2 = CHR ''H'' then Inr (new, ?s2)
        else if rate_control_state ?s2 = CHR ''I'' then increase_bitrate M new ?k ?std now ?s2
        else if rate_control_state ?s2 = CHR ''D'' then decrease_bitrate M incoming ?k ?std now ?s2
        else Inl AssertFailed) = Inr (w, a)" "aimd_ok M a" "c = CHR ''O'' \<longrightarrow> w \<le> new"
    proof -
      obtain wi ai where inc: "increase_bitrate M new ?k ?std now ?s2 = Inr (wi, ai)" "aimd_ok M ai"
        if "st \<in> {CHR ''H'', CHR ''I''}"
        using increase_run [OF M ok2(2)] by blast
      obtain wd ad where dec: "decrease_bitrate M incoming ?k ?std now ?s2 = Inr (wd, ad)" "aimd_ok M ad"
        "wd \<le> new"
        using decrease_run [OF M ok2(1) i incoming_kbps [OF f i], of ?std now] new cur by auto
      consider "st = CHR ''H''" | "st = CHR ''I''" | "st = CHR ''D''" using st(2) by (auto split: if_splits)
      then show thesis
      proof cases
        case 1
        then show thesis using that [of new ?s2] ok2(2) by simp
      next
        case 2
        then show thesis using that [of wi ai] inc st(2) by (auto split: if_splits)
      next
        case 3
        then show thesis using that [of wd ad] dec by simp
      qed
    qed
    obtain r where r: "ClampBitrate M w incoming a = Inr r" "500000 \<le> r" "unat r \<le> 201336592"
        "r \<le> max w 500000"
      using clamp_run [OF f i, of w a] wa(2) by (auto simp: aimd_ok_def)
    have "ChangeBitrate M new c incoming nv now s = Inr (r, a)"
      unfolding ChangeBitrate_def Let_def s1_def [symmetric]
      using False by (simp only: if_False st(1) res_bind.simps wa(1) prod.case r(1))
    moreover have "c = CHR ''O'' \<longrightarrow> r \<le> max new 500000"
      using r(4) wa(3) by (auto simp: max_def split: if_splits)
    ultimately show ?thesis using r wa(2) by blast
  qed
qed

lemma Update_run:
  assumes M: "libm_ok M" and s: "aimd_ok M s" and c: "known_usage c"
    and cur: "500000 \<le> current_bitrate_bps s" and i: "incoming \<le> current_bitrate_bps s"
  shows "\<exists>r a. Update M c incoming nv now s = Inr (r, a) \<and> current_bitrate_bps a = r \<and>
    aimd_ok M (a\<lparr>current_bitrate_bps := 500000\<rparr>) \<and>
    500000 \<le> r \<and> (c = CHR ''O'' \<longrightarrow> r \<le> current_bitrate_bps s)"
proof -
  define s1 where "s1 = (if bitrate_is_initialized s then s
     else if time_first_incoming_estimate s < 0
     then if incoming \<noteq> 0 then s\<lparr>time_first_incoming_estimate := now\<rparr> else s
     else if now - time_first_incoming_estimate s > 5000 \<and> incoming > 0
     then s\<lparr>current_bitrate_bps := incoming, bitrate_is_initialized := True\<rparr> else s)"
  have le: "unat incoming \<le> unat (current_bitrate_bps s)" using i by (simp add: word_le_nat_alt)
  then have i8: "unat incoming \<le> 100000000" using s by (simp add: aimd_ok_def)
  have s1: "aimd_ok M s1" using s i8 by (simp add: s1_def aimd_ok_def)
  have init: "bitrate_is_initialized s1 \<or> 500000 \<le> current_bitrate_bps s1"
    using cur by (simp add: s1_def)
  have low: "current_bitrate_bps s1 \<le> current_bitrate_bps s" using i by (simp add: s1_def)
  obtain r a where r: "ChangeBitrate M (current_bitrate_bps s1) c incoming nv now s1 = Inr (r, a)"
      "aimd_ok M a" "500000 \<le> r" "c = CHR ''O'' \<longrightarrow> r \<le> max (current_bitrate_bps s1) 500000"
    using change_run [OF M s1 c i8 refl init] by blast
  have "Update M c incoming nv now s = Inr (r, a\<lparr>current_bitrate_bps := r, bitrate_is_initialized := True\<rparr>)"
    unfolding Update_def Let_def s1_def [symmetric] r(1) by simp
  moreover have "c = CHR ''O'' \<longrightarrow> r \<le> current_bitrate_bps s"
    using r(4) low cur by (auto simp: max_def split: if_splits)
  ultimately show ?thesis using r(2,3) by (simp add: aimd_ok_def)
qed

section \<open>The loss based control\<close>

definition loss_ok :: "lossctl \<Rightarrow> bool" where
  "loss_ok l \<longleftrightarrow> min_bitrate_configured l = 500000 \<and> max_bitrate_configured l = 100000000 \<and>
     last_packet_report_ms l = - 1 \<and> first_report_time_ms l = - 1"

definition in_range :: "u32 \<Rightarrow> u32" where
  "in_range b = max (min b 100000000) 500000"

lemma in_range_bounds: "500000 \<le> in_range b" "unat (in_range b) \<le> 100000000"
  "b \<le> c \<Longrightarrow> 500000 \<le> c \<Longrightarrow> in_range b \<le> c" "500000 \<le> b \<Longrightarrow> b \<le> 100000000 \<Longrightarrow> in_range b = b"
  by (auto simp: in_range_def max_def min_def) (simp add: word_le_nat_alt)

lemma cap_if:
  fixes b d x h l :: "'a::{linorder, zero}"
  shows "(if 0 < d \<and> d < b then d else b) = (if 0 < d then min b d else b)"
    "(if h < x then h else x) = min x h" "(if x < l then l else x) = max x l"
  by (auto simp: min_def max_def)

lemma Cap_run:
  assumes "loss_ok l"
  shows "\<exists>l'. CapBitrateToThresholds now b (cur, l) = (in_range (if delay_based_bitrate_bps l > 0
      then min b (delay_based_bitrate_bps l) else b), l') \<and> loss_ok l' \<and>
    delay_based_bitrate_bps l' = delay_based_bitrate_bps l"
proof -
  let ?c = "CapBitrateToThresholds now b (cur, l)"
  have "fst ?c = in_range (if delay_based_bitrate_bps l > 0 then min b (delay_based_bitrate_bps l) else b)"
    using assms by (simp add: CapBitrateToThresholds_def Let_def loss_ok_def in_range_def cap_if split del: if_split)
  moreover have "loss_ok (snd ?c)" "delay_based_bitrate_bps (snd ?c) = delay_based_bitrate_bps l"
    using assms by (simp_all add: CapBitrateToThresholds_def Let_def loss_ok_def)
  ultimately show ?thesis by (intro exI [of _ "snd ?c"]) (simp add: prod_eq_iff)
qed

text \<open>What ends every feedback: the two updates of the loss based control put the rate into the
  configured range, and nothing else.\<close>

lemma loss_update_run:
  assumes "loss_ok l"
  shows "\<exists>l1 l2. UpdateDelayBasedEstimate now cur (cur, l) = (in_range cur, l1) \<and>
    UpdateEstimate M now (in_range cur, l1) = Inr (in_range cur, l2) \<and> loss_ok l2"
proof -
  have l0: "loss_ok (l\<lparr>delay_based_bitrate_bps := cur\<rparr>)" using assms by (simp add: loss_ok_def)
  obtain l1 where l1: "UpdateDelayBasedEstimate now cur (cur, l) = (in_range cur, l1)" "loss_ok l1"
      "delay_based_bitrate_bps l1 = cur"
    using Cap_run [OF l0, of now cur cur] by (auto simp: UpdateDelayBasedEstimate_def)
  have idem: "in_range (in_range cur) = in_range cur"
    using in_range_bounds(1,2) [of cur] by (intro in_range_bounds(4)) (simp_all add: word_le_nat_alt)
  have hist: "loss_ok (l1\<lparr>min_bitrate_history := h\<rparr>)" for h using l1(2) by (simp add: loss_ok_def)
  have cap: "in_range (if cur > 0 then min b cur else b) = in_range cur" if "b = max cur (in_range cur) \<or> b = in_range cur" for b
    using that by (auto simp: in_range_def max_def min_def not_le word_le_nat_alt word_less_nat_alt)
  have run: "\<exists>l2. CapBitrateToThresholds now b (in_range cur, l1\<lparr>min_bitrate_history := h\<rparr>)
      = (in_range cur, l2) \<and> loss_ok l2" if "b = max cur (in_range cur) \<or> b = in_range cur" for b h
    using Cap_run [OF hist, of now b "in_range cur" h] cap [OF that] l1(3) by auto
  have "\<exists>l2. UpdateEstimate M now (in_range cur, l1) = Inr (in_range cur, l2) \<and> loss_ok l2"
    using run [of "max cur (in_range cur)" "[(now, in_range cur)]"]
      run [of "in_range cur" "UpdateMinHistory now (in_range cur) (min_bitrate_history l1)"] l1(2,3)
    by (auto simp: UpdateEstimate_def Let_def loss_ok_def)
  then show ?thesis using l1(1) by blast
qed

section \<open>The detector\<close>

lemma classify_usage: "known_usage (D_hypothesis s) \<Longrightarrow> known_usage (D_hypothesis (classify M T off ts s))"
  by (simp add: classify_def Let_def known_usage_def)

lemma classify_threshold: "o_threshold (classify M T off ts s) = o_threshold s"
  by (simp add: classify_def Let_def)

lemma UpdateThreshold_fields:
  "D_hypothesis (UpdateThreshold M T now s) = D_hypothesis s"
  "6 \<le> o_threshold s \<Longrightarrow> o_threshold s \<le> 600 \<Longrightarrow>
     6 \<le> o_threshold (UpdateThreshold M T now s) \<and> o_threshold (UpdateThreshold M T now s) \<le> 600"
  by (simp_all add: UpdateThreshold_def Let_def SafeClamp_def)

definition overuse_ok :: "overuse \<Rightarrow> bool" where
  "overuse_ok d \<longleftrightarrow> known_usage (D_hypothesis d) \<and> 6 \<le> o_threshold d \<and> o_threshold d \<le> 600"

lemma Detect_ok:
  assumes "overuse_ok d"
  shows "overuse_ok (snd (OveruseDetectorDetect M off ts n now d))"
proof -
  have "overuse_ok ((classify M T off ts d)\<lparr>D_prev_offset := off\<rparr>)" for T
    using assms classify_usage by (simp add: overuse_ok_def classify_threshold)
  then show ?thesis
    using assms by (simp add: OveruseDetectorDetect_def Let_def overuse_ok_def UpdateThreshold_fields)
qed

section \<open>The controller\<close>

definition gcc_inv :: "libm \<Rightarrow> gcc \<Rightarrow> bool" where
  "gcc_inv M s \<longleftrightarrow> aimd_ok M (g_rate s) \<and> 500000 \<le> current_bitrate_bps (g_rate s) \<and>
     loss_ok (g_loss s) \<and> overuse_ok (g_overuse s)"

definition statics_ok :: "gcc_statics \<Rightarrow> bool" where
  "statics_ok st \<longleftrightarrow> st = None \<or> st = Some (500000, 100000000, 500000)"

lemma gcc_inv_new: "gcc_inv M (GccController_new M this port raw)"
  by (simp add: gcc_inv_def GccController_new_def aimd_ok_def aimd_new_def lossctl_new_def
      overuse_new_def loss_ok_def overuse_ok_def known_usage_def avg_ok_def kDefaultRttMs_def)

lemma statics_run: "statics_ok st \<Longrightarrow> loss_ok (g_loss s) \<Longrightarrow>
    init_statics s st = (500000, 100000000, 500000)"
  by (auto simp: statics_ok_def init_statics_def loss_ok_def)

lemma loss_timer_fields:
  "g_rate (loss_timer M now sq s) = g_rate s" "g_loss (loss_timer M now sq s) = g_loss s"
  "g_overuse (loss_timer M now sq s) = g_overuse s"
  "g_lastTimeCalcValid (loss_timer M now sq s) = g_lastTimeCalcValid s"
  by (simp_all add: loss_timer_def Let_def)

lemma metrics_fields:
  "Gcc_updateMetrics M s = Inr s' \<Longrightarrow>
     g_rate s' = g_rate s \<and> g_loss s' = g_loss s \<and> g_overuse s' = g_overuse s"
  by (auto simp: Gcc_updateMetrics_def Let_def dest!: res_bind_InrD split: option.splits)

lemma detect_fields:
  "g_loss (detect_overuse M ia idp sz arr junk s) = g_loss s"
  "\<exists>r. 0 \<le> r \<and> g_rate (detect_overuse M ia idp sz arr junk s) = (g_rate s)\<lparr>g_rtt := r\<rparr>"
  "overuse_ok (g_overuse s) \<Longrightarrow> overuse_ok (g_overuse (detect_overuse M ia idp sz arr junk s))"
proof -
  show "g_loss (detect_overuse M ia idp sz arr junk s) = g_loss s"
    "\<exists>r. 0 \<le> r \<and> g_rate (detect_overuse M ia idp sz arr junk s) = (g_rate s)\<lparr>g_rtt := r\<rparr>"
    by (auto simp: detect_overuse_def Let_def split: prod.splits intro!: exI [of _ "uint _"])
  assume o: "overuse_ok (g_overuse s)"
  have "overuse_ok (OveruseEstimatorUpdate M t ts z h ms d)" if "overuse_ok d" for t ts z h ms d
    using that by (simp add: OveruseEstimatorUpdate_def Let_def overuse_ok_def)
  from Detect_ok [OF this [OF o]] show "overuse_ok (g_overuse (detect_overuse M ia idp sz arr junk s))"
    unfolding detect_overuse_def Let_def by (simp add: split_beta)
qed

lemma reduce_run:
  assumes d: "rounding_ok (lm_fd M)"
  shows "\<exists>b. TimeToReduceFurther M now r a = Inr b"
proof -
  let ?c = "of_int (uint (current_bitrate_bps a)) :: rat"
  have c: "dbl64 M (uint (current_bitrate_bps a)) = ?c"
    using uint_lt(3) [of "current_bitrate_bps a"] by (intro rounding_int [OF d]) simp
  have c0: "0 \<le> ?c" by (rule uint_rat)
  have "1 / 2 * ?c \<le> ?c" using c0 by linarith
  then have "lm_fd M (1 / 2 * ?c) \<le> lm_fd M ?c" by (rule rounding_mono [OF d])
  also have "lm_fd M ?c = ?c" by (rule c)
  also have "?c < (2 ^ 32 :: rat)"
    using of_int_less_iff [where ?'a = rat, THEN iffD2, OF uint_lt(3) [of "current_bitrate_bps a"]] by simp
  finally have lt: "lm_fd M (1 / 2 * ?c) < 2 ^ LENGTH(32)" by simp
  have "0 \<le> 1 / 2 * ?c" using c0 by linarith
  then have "0 \<le> lm_fd M (1 / 2 * ?c)" by (rule rounding_nonneg [OF d])
  from to_word_ok [OF this lt] show ?thesis
    unfolding TimeToReduceFurther_def LatestEstimate_def c by auto
qed

lemma estimate_step_run:
  assumes M: "libm_ok M" and s: "gcc_inv M s" and w: "to_word (g_RecvR s) = Inr (w :: u32)"
  shows "\<exists>due s1. update_due M now s = Inr due \<and> (if due then new_estimate M now s else Inr s) = Inr s1 \<and>
    aimd_ok M ((g_rate s1)\<lparr>current_bitrate_bps := 500000\<rparr>) \<and> 500000 \<le> current_bitrate_bps (g_rate s1) \<and>
    (D_hypothesis (g_overuse s) = CHR ''O'' \<longrightarrow>
       current_bitrate_bps (g_rate s1) \<le> current_bitrate_bps (g_rate s)) \<and>
    g_loss s1 = g_loss s \<and> g_overuse s1 = g_overuse s"
proof -
  have d: "rounding_ok (lm_fd M)" using M by (simp add: libm_ok_def)
  let ?r = "min w (current_bitrate_bps (g_rate s))"
  have r: "incoming_rate s = Inr ?r" by (simp add: incoming_rate_def w)
  obtain b where b: "TimeToReduceFurther M (sint (ucast now :: u32)) ?r (g_rate s) = Inr b"
    using reduce_run [OF d] by blast
  obtain due where due: "update_due M now s = Inr due"
    by (cases "last_update_ms s = - 1 \<or> now - word_of_int (last_update_ms s) > ucast (rtt_clamped s)";
        cases "D_hypothesis (g_overuse s) = CHR ''O''"; cases "?r = 0")
       (auto simp: update_due_def r b)
  have a: "aimd_ok M (g_rate s)" "500000 \<le> current_bitrate_bps (g_rate s)"
    "known_usage (D_hypothesis (g_overuse s))"
    using s by (simp_all add: gcc_inv_def overuse_ok_def)
  obtain n a' where u: "Update M (D_hypothesis (g_overuse s)) ?r (var_noise (g_overuse s)) (sint now) (g_rate s)
      = Inr (n, a')" "aimd_ok M (a'\<lparr>current_bitrate_bps := 500000\<rparr>)" "500000 \<le> current_bitrate_bps a'"
      "D_hypothesis (g_overuse s) = CHR ''O'' \<longrightarrow> current_bitrate_bps a' \<le> current_bitrate_bps (g_rate s)"
    using Update_run [OF M a(1,3,2), of ?r "var_noise (g_overuse s)" "sint now"] by auto
  have "new_estimate M now s = Inr (s\<lparr>g_rate := a', last_update_ms := sint now\<rparr>)"
    by (simp add: new_estimate_def r u(1))
  moreover have "aimd_ok M ((g_rate s)\<lparr>current_bitrate_bps := 500000\<rparr>)"
    using a(1) by (simp add: aimd_ok_def)
  ultimately show ?thesis using due u a(2) by (cases due) auto
qed

text \<open>The same when the estimate succeeds without a receive rate that fits, because it is not asked
  for.\<close>

lemma estimate_step_any:
  assumes M: "libm_ok M" and s: "gcc_inv M s" and due: "update_due M now s = Inr due"
    and s1: "(if due then new_estimate M now s else Inr s) = Inr s1"
  shows "aimd_ok M ((g_rate s1)\<lparr>current_bitrate_bps := 500000\<rparr>) \<and> 500000 \<le> current_bitrate_bps (g_rate s1) \<and>
    (D_hypothesis (g_overuse s) = CHR ''O'' \<longrightarrow>
       current_bitrate_bps (g_rate s1) \<le> current_bitrate_bps (g_rate s)) \<and>
    g_loss s1 = g_loss s \<and> g_overuse s1 = g_overuse s"
proof (cases "to_word (g_RecvR s) :: u32 res")
  case (Inl e)
  then have "s1 = s" using s1 by (cases due) (simp_all add: new_estimate_def incoming_rate_def)
  then show ?thesis using s by (simp add: gcc_inv_def aimd_ok_def)
next
  case (Inr w)
  from estimate_step_run [OF M s Inr, of now] due s1 show ?thesis by auto
qed

lemma finish_run:
  assumes a: "aimd_ok M ((g_rate s)\<lparr>current_bitrate_bps := 500000\<rparr>)" and l: "loss_ok (g_loss s)"
    and o: "overuse_ok (g_overuse s)"
  shows "\<exists>s1 cl. on_loss (UpdateDelayBasedEstimate now (current_bitrate_bps (g_rate s))) s = s1 \<and>
    UpdateEstimate M now (current_bitrate_bps (g_rate s1), g_loss s1) = Inr cl \<and>
    (\<exists>l'. loss_ok l' \<and> on_loss (\<lambda>_. cl) s1 =
       s\<lparr>g_rate := (g_rate s)\<lparr>current_bitrate_bps := in_range (current_bitrate_bps (g_rate s))\<rparr>, g_loss := l'\<rparr>)"
proof -
  let ?c = "current_bitrate_bps (g_rate s)"
  obtain l1 l2 where "UpdateDelayBasedEstimate now ?c (?c, g_loss s) = (in_range ?c, l1)"
      "UpdateEstimate M now (in_range ?c, l1) = Inr (in_range ?c, l2)" "loss_ok l2"
    using loss_update_run [OF l] by blast
  then show ?thesis by (auto simp: on_loss_def)
qed

lemma finish_inv:
  assumes "aimd_ok M ((g_rate s)\<lparr>current_bitrate_bps := 500000\<rparr>)" "overuse_ok (g_overuse s)" "loss_ok l'"
  shows "gcc_inv M (s\<lparr>g_rate := (g_rate s)\<lparr>current_bitrate_bps := in_range c\<rparr>, g_loss := l'\<rparr>)"
  using assms in_range_bounds(1,2) [of c] by (simp add: gcc_inv_def aimd_ok_def)

text \<open>The first feedback: the rate is set to the configured minimum.\<close>

lemma first_feedback_run:
  assumes "gcc_inv M s"
  shows "\<exists>l'. loss_ok l' \<and> on_loss (\<lambda>(cur, l). SetSendBitrate 500000 t (cur, SetMinMaxBitrate 500000 100000000 l)) s
    = s\<lparr>g_rate := (g_rate s)\<lparr>current_bitrate_bps := 500000\<rparr>, g_loss := l'\<rparr>"
proof -
  let ?l = "SetMinMaxBitrate 500000 100000000 (g_loss s)"
  have "loss_ok (?l\<lparr>delay_based_bitrate_bps := 0\<rparr>)"
    using assms by (simp add: gcc_inv_def loss_ok_def SetMinMaxBitrate_def GetMinBitrate_def Let_def max_def)
  from Cap_run [OF this, of t 500000 "current_bitrate_bps (g_rate s)"]
  obtain l' where "CapBitrateToThresholds t 500000 (current_bitrate_bps (g_rate s), ?l\<lparr>delay_based_bitrate_bps := 0\<rparr>)
      = (500000, l')" "loss_ok l'"
    by (auto simp: in_range_def)
  moreover from this(2) have "loss_ok (l'\<lparr>min_bitrate_history := []\<rparr>)" by (simp add: loss_ok_def)
  ultimately show ?thesis by (auto simp: on_loss_def SetSendBitrate_def)
qed

text \<open>The feedback from the detector on, with what it does to the rate.\<close>

definition measured_state :: "libm \<Rightarrow> u64 \<Rightarrow> u64 \<Rightarrow> u16 \<Rightarrow> u64 \<Rightarrow> gcc \<Rightarrow> gcc res" where
  "measured_state M now_ms nowUs sq rx s =
     res_bind (processFeedback nowUs sq rx (g_base s)) (\<lambda>(ok, base).
     if ok \<and> g_lastTimeCalcValid s then Gcc_updateMetrics M (loss_timer M now_ms sq (s\<lparr>g_base := base\<rparr>))
     else Inr (s\<lparr>g_base := base\<rparr>))"

text \<open>No step but the last two reads the state of the loss based control.\<close>

lemma loss_ignored:
  "loss_timer M now sq (s\<lparr>g_loss := l, g_base := b\<rparr>) = (loss_timer M now sq (s\<lparr>g_base := b\<rparr>))\<lparr>g_loss := l\<rparr>"
  "detect_overuse M ia idp sz arr junk (s\<lparr>g_loss := l\<rparr>) = (detect_overuse M ia idp sz arr junk s)\<lparr>g_loss := l\<rparr>"
  "update_due M now (s\<lparr>g_loss := l\<rparr>) = update_due M now s"
  "incoming_rate (s\<lparr>g_loss := l\<rparr>) = incoming_rate s"
  by (simp_all add: loss_timer_def detect_overuse_def update_due_def incoming_rate_def rtt_clamped_def
      Let_def split_beta cong del: if_weak_cong)

lemma loss_ignored_run:
  "Gcc_updateMetrics M s = Inr s' \<Longrightarrow> Gcc_updateMetrics M (s\<lparr>g_loss := l\<rparr>) = Inr (s'\<lparr>g_loss := l\<rparr>)"
  "(if due then new_estimate M now s else Inr s) = Inr s' \<Longrightarrow>
   (if due then new_estimate M now (s\<lparr>g_loss := l\<rparr>) else Inr (s\<lparr>g_loss := l\<rparr>)) = Inr (s'\<lparr>g_loss := l\<rparr>)"
proof -
  show "Gcc_updateMetrics M s = Inr s' \<Longrightarrow> Gcc_updateMetrics M (s\<lparr>g_loss := l\<rparr>) = Inr (s'\<lparr>g_loss := l\<rparr>)"
    unfolding Gcc_updateMetrics_def Let_def
    by (cases "getCurrentQdelay (g_base s)")
       (auto dest!: res_bind_InrD split: option.splits prod.splits)
  show "(if due then new_estimate M now s else Inr s) = Inr s' \<Longrightarrow>
   (if due then new_estimate M now (s\<lparr>g_loss := l\<rparr>) else Inr (s\<lparr>g_loss := l\<rparr>)) = Inr (s'\<lparr>g_loss := l\<rparr>)"
    by (cases due) (auto simp: new_estimate_def loss_ignored(4) dest!: res_bind_InrD)
qed

abbreviation gcc_statics_const :: gcc_statics where
  "gcc_statics_const \<equiv> Some (500000, 100000000, 500000)"

lemma rate_known: "to_word x = Inr (w :: u32) \<Longrightarrow> (\<exists>w :: u32. to_word x = Inr w) \<or> Q"
  by blast

lemma run_known: "p = Inr r \<Longrightarrow> Q \<or> (\<exists>r. p = Inr r) \<or> R"
  by blast

lemma gcc_feedback_run:
  assumes M: "libm_ok M" and s: "gcc_inv M s" and st: "statics_ok st"
    and m: "measured_state M now_ms nowUs sq rx s = Inr m"
    and w: "(\<exists>w :: u32. to_word (g_RecvR m) = Inr w) \<or>
      (\<exists>r. Gcc_processFeedback M now_ms junk nowUs sq rx ia idp sz arr (st, s) = Inr r) \<or>
      update_due M now_ms (detect_overuse M ia idp sz arr junk m) = Inr False"
  shows "\<exists>b s'. (\<forall>l. loss_ok l \<longrightarrow> (\<exists>l'. loss_ok l' \<and>
      Gcc_processFeedback M now_ms junk nowUs sq rx ia idp sz arr (st, s\<lparr>g_loss := l\<rparr>)
        = Inr (b, gcc_statics_const, s'\<lparr>g_loss := l'\<rparr>))) \<and> gcc_inv M s' \<and>
    (D_hypothesis (g_overuse s') = CHR ''O'' \<longrightarrow>
       current_bitrate_bps (g_rate s') \<le> current_bitrate_bps (g_rate s))"
proof -
  obtain ok base where base: "processFeedback nowUs sq rx (g_base s) = Inr (ok, base)"
    using m by (cases "processFeedback nowUs sq rx (g_base s)") (auto simp: measured_state_def)
  let ?s = "loss_timer M now_ms sq (s\<lparr>g_base := base\<rparr>)"
  have inv: "gcc_inv M ?s" using s by (simp add: gcc_inv_def loss_timer_fields)
  have K: "init_statics (s\<lparr>g_loss := l, g_base := base\<rparr>) st = (500000, 100000000, 500000)" if "loss_ok l" for l
    by (rule statics_run [OF st]) (simp add: that)
  have lt: "loss_timer M now_ms sq (s\<lparr>g_loss := l, g_base := base\<rparr>) = ?s\<lparr>g_loss := l\<rparr>" for l
    by (rule loss_ignored(1))
  note run = Gcc_processFeedback_def prod.case base res_bind.simps Let_def K lt
  have same: "current_bitrate_bps (g_rate ?s) = current_bitrate_bps (g_rate s)"
    by (simp add: loss_timer_fields)
  consider "\<not> ok" | "ok" "\<not> g_lastTimeCalcValid s" | "ok" "g_lastTimeCalcValid s" by blast
  then show ?thesis
  proof cases
    case 1
    have "Gcc_processFeedback M now_ms junk nowUs sq rx ia idp sz arr (st, s\<lparr>g_loss := l\<rparr>)
        = Inr (False, gcc_statics_const, ?s\<lparr>g_loss := l\<rparr>)" if "loss_ok l" for l
      using 1 that by (simp add: run)
    then show ?thesis using inv same by (intro exI [of _ False] exI [of _ ?s]) auto
  next
    case 2
    let ?s' = "?s\<lparr>g_lastTimeCalcValid := True, g_rate := (g_rate ?s)\<lparr>current_bitrate_bps := 500000\<rparr>\<rparr>"
    have "\<exists>l'. loss_ok l' \<and> Gcc_processFeedback M now_ms junk nowUs sq rx ia idp sz arr (st, s\<lparr>g_loss := l\<rparr>)
        = Inr (True, gcc_statics_const, ?s'\<lparr>g_loss := l'\<rparr>)" if l: "loss_ok l" for l
    proof -
      have "gcc_inv M (?s\<lparr>g_loss := l, g_lastTimeCalcValid := True\<rparr>)" using inv l by (simp add: gcc_inv_def)
      from first_feedback_run [OF this, of "sint (ucast nowUs :: u32)"]
      show ?thesis using 2 l by (auto simp: run loss_timer_fields)
    qed
    moreover have "gcc_inv M ?s'" using inv by (simp add: gcc_inv_def aimd_ok_def)
    moreover have "current_bitrate_bps (g_rate ?s') \<le> current_bitrate_bps (g_rate s)"
      using s by (simp add: gcc_inv_def)
    ultimately show ?thesis by blast
  next
    case 3
    have mt: "Gcc_updateMetrics M ?s = Inr m" using m 3 base by (simp add: measured_state_def)
    let ?d = "detect_overuse M ia idp sz arr junk m"
    obtain r where r: "0 \<le> r" "g_rate ?d = (g_rate m)\<lparr>g_rtt := r\<rparr>" using detect_fields(2) by blast
    have fields: "g_rate m = g_rate ?s" "g_loss m = g_loss ?s" "g_overuse m = g_overuse ?s"
      using metrics_fields [OF mt] by simp_all
    have "overuse_ok (g_overuse ?d)" using inv fields by (intro detect_fields(3)) (simp add: gcc_inv_def)
    then have dinv: "gcc_inv M ?d"
      using inv r fields by (simp add: gcc_inv_def aimd_ok_def detect_fields(1))
    have rd: "g_RecvR ?d = g_RecvR m" by (simp add: detect_overuse_def Let_def split_beta)
    have "\<exists>due s1. update_due M now_ms ?d = Inr due \<and>
        (if due then new_estimate M now_ms ?d else Inr ?d) = Inr s1"
      using w
    proof (elim disjE)
      assume "\<exists>w :: u32. to_word (g_RecvR m) = Inr w"
      then obtain w :: u32 where "to_word (g_RecvR ?d) = Inr w" unfolding rd by blast
      from estimate_step_run [OF M dinv this, of now_ms] show ?thesis by blast
    next
      assume "\<exists>r. Gcc_processFeedback M now_ms junk nowUs sq rx ia idp sz arr (st, s) = Inr r"
      then obtain r where r: "Gcc_processFeedback M now_ms junk nowUs sq rx ia idp sz arr (st, s) = Inr r" ..
      have v: "g_lastTimeCalcValid ?s = True" "ok = True" using 3 by (simp_all add: loss_timer_fields)
      show ?thesis
        using r unfolding Gcc_processFeedback_def prod.case base res_bind.simps Let_def v mt not_True_eq_False if_False
        by (elim res_bind_InrD [elim_format] exE conjE) blast
    next
      assume "update_due M now_ms ?d = Inr False"
      then show ?thesis by (intro exI [of _ False] exI [of _ ?d]) simp
    qed
    then obtain due s1 where e: "update_due M now_ms ?d = Inr due"
        "(if due then new_estimate M now_ms ?d else Inr ?d) = Inr s1"
      by blast
    note e = e estimate_step_any [OF M dinv e, THEN conjunct1]
      estimate_step_any [OF M dinv e, THEN conjunct2, THEN conjunct1]
      estimate_step_any [OF M dinv e, THEN conjunct2, THEN conjunct2, THEN conjunct1]
      estimate_step_any [OF M dinv e, THEN conjunct2, THEN conjunct2, THEN conjunct2, THEN conjunct1]
      estimate_step_any [OF M dinv e, THEN conjunct2, THEN conjunct2, THEN conjunct2, THEN conjunct2]
    have so: "loss_ok (g_loss s1)" "overuse_ok (g_overuse s1)" using dinv e(6,7) by (simp_all add: gcc_inv_def)
    let ?s' = "s1\<lparr>g_rate := (g_rate s1)\<lparr>current_bitrate_bps := in_range (current_bitrate_bps (g_rate s1))\<rparr>\<rparr>"
    have "\<exists>l'. loss_ok l' \<and> Gcc_processFeedback M now_ms junk nowUs sq rx ia idp sz arr (st, s\<lparr>g_loss := l\<rparr>)
        = Inr (True, gcc_statics_const, ?s'\<lparr>g_loss := l'\<rparr>)" if l: "loss_ok l" for l
    proof -
      obtain s2 cl l' where f: "on_loss (UpdateDelayBasedEstimate (sint now_ms) (current_bitrate_bps (g_rate s1))) (s1\<lparr>g_loss := l\<rparr>) = s2"
          "UpdateEstimate M (sint now_ms) (current_bitrate_bps (g_rate s2), g_loss s2) = Inr cl" "loss_ok l'"
          "on_loss (\<lambda>_. cl) s2 = ?s'\<lparr>g_loss := l'\<rparr>"
        using finish_run [of M "s1\<lparr>g_loss := l\<rparr>" "sint now_ms"] e(3) l so(2) by auto
      have v: "g_lastTimeCalcValid (?s\<lparr>g_loss := l\<rparr>)" using 3 by (simp add: loss_timer_fields)
      have ok: "ok = True" using 3 by simp
      have base': "processFeedback nowUs sq rx (g_base (s\<lparr>g_loss := l\<rparr>)) = Inr (ok, base)"
        using base by simp
      have cur: "current_bitrate_bps (g_rate (s1\<lparr>g_loss := l\<rparr>)) = current_bitrate_bps (g_rate s1)" by simp
      show ?thesis
        by (intro exI [of _ l'] conjI f(3))
           (simp only: run base' cur K [OF l] ok v loss_ignored loss_ignored_run(1) [OF mt] e(1)
             loss_ignored_run(2) [OF e(2)] f simp_thms if_False if_True aimd.simps gcc.simps)
    qed
    moreover have "gcc_inv M ?s'"
      using finish_inv [OF e(3) so(2,1), of "current_bitrate_bps (g_rate s1)"] by simp
    moreover have "D_hypothesis (g_overuse ?s') = CHR ''O'' \<longrightarrow>
        current_bitrate_bps (g_rate ?s') \<le> current_bitrate_bps (g_rate s)"
      using e(5,7) r(2) fields(1) same s in_range_bounds(3) [of "current_bitrate_bps (g_rate s1)" "current_bitrate_bps (g_rate s)"]
      by (simp add: gcc_inv_def)
    ultimately show ?thesis by blast
  qed
qed

section \<open>The minimum over the last second\<close>

text \<open>The history after the calls of \<open>UpdateMinHistory\<close> at the times and with the rates of
  the list.\<close>

definition min_history :: "(int \<times> u32) list \<Rightarrow> (int \<times> u32) list" where
  "min_history calls = fold (\<lambda>(t, b) h. UpdateMinHistory t b h) calls []"

lemma min_history_snoc: "min_history (calls @ [(t, b)]) = UpdateMinHistory t b (min_history calls)"
  by (simp add: min_history_def)

text \<open>The entries are calls of the last second, in time and with growing rates, and every call of
  the last second is covered by a later one with a rate no higher.\<close>

definition hist_inv :: "int \<Rightarrow> (int \<times> u32) list \<Rightarrow> (int \<times> u32) list \<Rightarrow> bool" where
  "hist_inv now calls h \<longleftrightarrow> sorted_wrt (\<lambda>x y. fst x \<le> fst y \<and> snd x < snd y) h \<and>
     set h \<subseteq> set calls \<and>
     (\<forall>x\<in>set calls. now - fst x < 1000 \<longrightarrow> (\<exists>y\<in>set h. fst x \<le> fst y \<and> snd y \<le> snd x))"

lemma dropWhile_rev_below:
  "sorted_wrt (\<lambda>x y. snd x < snd y) h \<Longrightarrow>
    rev (dropWhile (\<lambda>(t, b). cur \<le> b) (rev h)) = filter (\<lambda>x. snd x < (cur :: u32)) h"
proof (induction h rule: rev_induct)
  case (snoc x xs)
  then show ?case
    by (cases x) (auto simp: sorted_wrt_append not_less filter_id_conv [THEN iffD2] intro!: filter_True [symmetric])
qed simp

lemma UpdateMinHistory_filter:
  assumes "sorted_wrt (\<lambda>x y. fst x \<le> fst y \<and> snd x < snd y) h"
  shows "UpdateMinHistory now cur h = filter (\<lambda>x. now - fst x < 1000 \<and> snd x < cur) h @ [(now, cur)]"
proof -
  have "sorted_wrt (\<lambda>x y. now - fst y + 1 > 1000 \<longrightarrow> now - fst x + 1 > 1000) h"
    by (rule sorted_wrt_mono_rel [OF _ assms]) auto
  then have y: "pop_while (\<lambda>(t, b). now - t + 1 > kBweIncreaseIntervalMs) h = filter (\<lambda>x. now - fst x < 1000) h"
    using pop_while_sorted [of "\<lambda>x. now - fst x + 1 > 1000" h]
    by (simp add: case_prod_beta' kBweIncreaseIntervalMs_def not_le)
  have "sorted_wrt (\<lambda>x y. snd x < snd y) (filter (\<lambda>x. now - fst x < 1000) h)"
    by (rule sorted_wrt_filter, rule sorted_wrt_mono_rel [OF _ assms]) auto
  from dropWhile_rev_below [OF this, of cur] show ?thesis
    unfolding UpdateMinHistory_def y Let_def by (simp add: pop_while_dropWhile conj_commute)
qed

lemma hist_inv_step:
  assumes h: "hist_inv now calls h" and t: "now \<le> t" "\<forall>x\<in>set calls. fst x \<le> t"
  shows "hist_inv t (calls @ [(t, b)]) (UpdateMinHistory t b h)"
proof -
  have s: "sorted_wrt (\<lambda>x y. fst x \<le> fst y \<and> snd x < snd y) h" using h by (simp add: hist_inv_def)
  have old: "\<exists>y\<in>set (UpdateMinHistory t b h). fst x \<le> fst y \<and> snd y \<le> snd x"
    if x: "x \<in> set calls" "t - fst x < 1000" for x
  proof -
    have "now - fst x < 1000" using x(2) t(1) by linarith
    with h x(1) obtain y where y: "y \<in> set h" "fst x \<le> fst y" "snd y \<le> snd x" by (auto simp: hist_inv_def)
    show ?thesis
    proof (cases "snd y < b")
      case True
      with y x show ?thesis unfolding UpdateMinHistory_filter [OF s] by (auto intro!: bexI [of _ y])
    next
      case False
      with y x t show ?thesis unfolding UpdateMinHistory_filter [OF s] by (intro bexI [of _ "(t, b)"]) auto
    qed
  qed
  show ?thesis
    unfolding hist_inv_def using old h t(2)
    by (fastforce simp: UpdateMinHistory_filter [OF s] hist_inv_def sorted_wrt_append sorted_wrt_filter subset_iff)
qed

lemma min_history_inv:
  assumes "sorted (map fst calls)"
  shows "calls = [] \<or> hist_inv (fst (last calls)) calls (min_history calls)"
  using assms
proof (induction calls rule: rev_induct)
  case (snoc c calls)
  obtain t b where c: "c = (t, b)" by (cases c)
  have le: "\<forall>x\<in>set calls. fst x \<le> t" using snoc.prems by (auto simp: sorted_append c)
  have "hist_inv (if calls = [] then t else fst (last calls)) calls (min_history calls)"
    using snoc by (auto simp: sorted_append min_history_def hist_inv_def)
  then show ?case
    using hist_inv_step [OF _ _ le] le by (auto simp: c min_history_snoc split: if_splits)
qed simp

text \<open>Whenever the feedback returns it keeps the invariant.\<close>

lemma gcc_feedback_keeps:
  assumes M: "libm_ok M" and s: "gcc_inv M s" and st: "statics_ok st"
    and run: "Gcc_processFeedback M now_ms junk nowUs sq rx ia idp sz arr (st, s) = Inr (b, st', s')"
  shows "gcc_inv M s' \<and> statics_ok st'"
proof -
  have "\<exists>m. measured_state M now_ms nowUs sq rx s = Inr m"
    using run by (auto simp: Gcc_processFeedback_def measured_state_def Let_def loss_timer_fields
        split: prod.splits if_splits dest!: res_bind_InrD)
  then obtain m where m: "measured_state M now_ms nowUs sq rx s = Inr m" ..
  have l: "loss_ok (g_loss s)" using s by (simp add: gcc_inv_def)
  obtain b1 s1 where r: "\<forall>l. loss_ok l \<longrightarrow> (\<exists>l'. loss_ok l' \<and>
      Gcc_processFeedback M now_ms junk nowUs sq rx ia idp sz arr (st, s\<lparr>g_loss := l\<rparr>)
        = Inr (b1, gcc_statics_const, s1\<lparr>g_loss := l'\<rparr>))" "gcc_inv M s1"
    using gcc_feedback_run [OF M s st m run_known [OF run]] by blast
  from r(1) l run obtain l' where "s' = s1\<lparr>g_loss := l'\<rparr>" "loss_ok l'" "st' = gcc_statics_const"
    by fastforce
  then show ?thesis using r(2) by (simp add: gcc_inv_def statics_ok_def)
qed

text \<open>The only errors: those of the base class and its metrics, and the conversion of the measured rate.\<close>

lemma gcc_feedback_error:
  assumes M: "libm_ok M" and s: "gcc_inv M s" and st: "statics_ok st"
    and run: "Gcc_processFeedback M now_ms junk nowUs sq rx ia idp sz arr (st, s) = Inl e"
  shows "measured_state M now_ms nowUs sq rx s = Inl e \<or>
    (\<exists>m. measured_state M now_ms nowUs sq rx s = Inr m \<and> to_word (g_RecvR m) = (Inl e :: u32 res))"
proof (cases "processFeedback nowUs sq rx (g_base s)")
  case (Inl e')
  then show ?thesis using run by (simp add: Gcc_processFeedback_def measured_state_def)
next
  case (Inr r)
  obtain ok base where base: "processFeedback nowUs sq rx (g_base s) = Inr (ok, base)" using Inr by (cases r) simp
  let ?s = "loss_timer M now_ms sq (s\<lparr>g_base := base\<rparr>)"
  have valid: "g_lastTimeCalcValid ?s = g_lastTimeCalcValid s" by (simp add: loss_timer_fields)
  have both: "ok \<and> g_lastTimeCalcValid s"
    using run by (rule contrapos_pp)
      (simp add: Gcc_processFeedback_def base Let_def valid split: prod.split)
  have fb: "Gcc_processFeedback M now_ms junk nowUs sq rx ia idp sz arr (st, s) =
      res_bind (Gcc_updateMetrics M ?s) (\<lambda>m.
        let d = detect_overuse M ia idp sz arr junk m
        in res_bind (update_due M now_ms d) (\<lambda>due.
           res_bind (if due then new_estimate M now_ms d else Inr d) (\<lambda>d.
           let d = on_loss (UpdateDelayBasedEstimate (sint now_ms) (current_bitrate_bps (g_rate d))) d
           in res_bind (UpdateEstimate M (sint now_ms) (current_bitrate_bps (g_rate d), g_loss d))
             (\<lambda>cl. Inr (True, Some (init_statics (s\<lparr>g_base := base\<rparr>) st), on_loss (\<lambda>_. cl) d)))))"
    using both by (simp add: Gcc_processFeedback_def base Let_def valid)
  show ?thesis
  proof (cases "Gcc_updateMetrics M ?s")
    case (Inl e')
    then show ?thesis using run both by (simp add: fb measured_state_def base)
  next
    case (Inr m)
    then have m: "measured_state M now_ms nowUs sq rx s = Inr m" using both by (simp add: measured_state_def base)
    let ?d = "detect_overuse M ia idp sz arr junk m"
    have rd: "g_RecvR ?d = g_RecvR m" by (simp add: detect_overuse_def Let_def split_beta)
    have l: "loss_ok (g_loss s)" using s by (simp add: gcc_inv_def)
    have no: "\<not> ((\<exists>w :: u32. to_word (g_RecvR m) = Inr w) \<or>
        (\<exists>r. Gcc_processFeedback M now_ms junk nowUs sq rx ia idp sz arr (st, s) = Inr r) \<or> update_due M now_ms ?d = Inr False)"
    proof
      assume "(\<exists>w :: u32. to_word (g_RecvR m) = Inr w) \<or>
        (\<exists>r. Gcc_processFeedback M now_ms junk nowUs sq rx ia idp sz arr (st, s) = Inr r) \<or> update_due M now_ms ?d = Inr False"
      from gcc_feedback_run [OF M s st m this] l run show False by fastforce
    qed
    then obtain e' where w: "to_word (g_RecvR m) = (Inl e' :: u32 res)" by (cases "to_word (g_RecvR m) :: u32 res") auto
    have rate: "incoming_rate ?d = Inl e'" by (simp add: incoming_rate_def rd w)
    have "update_due M now_ms ?d = Inl e' \<or> update_due M now_ms ?d = Inr True"
      using no by (auto simp: update_due_def rate split: if_splits)
    then have "e' = e"
      using run by (auto simp: fb Inr Let_def new_estimate_def rate)
    then show ?thesis using m w by blast
  qed
qed

section \<open>An example\<close>

text \<open>A controller at 2 Mbit/s that hears of packet 8 while its detector says overuse; the memory it
  was built in held 7 as fraction of lost packets.\<close>

definition example_loss :: lossctl where
  "example_loss = lossctl_new plain_libm
     \<lparr>min_bitrate_history = [], lost_packets_since_last_loss_update = 0,
      expected_packets_since_last_loss_update = 0, min_bitrate_configured = 0, max_bitrate_configured = 0,
      last_low_bitrate_log_ms = 0, has_decreased_since_last_fraction_loss = False, last_feedback_ms = 0,
      last_packet_report_ms = 0, last_timeout_ms = 0, own_last_fraction_loss = 7,
      last_logged_fraction_loss = 0, last_round_trip_time_ms = 0, bwe_incoming = 0,
      delay_based_bitrate_bps = 0, time_last_decrease_ms = 0, first_report_time_ms = 0,
      initially_lost_packets = 0, bitrate_at_2_seconds_kbps = 0, last_rtc_event_log_ms = 0,
      in_timeout_experiment = False, low_loss_threshold = 0, high_loss_threshold = 0,
      bitrate_threshold_bps = 0\<rparr>"

definition gcc_example :: gcc where
  "gcc_example = (GccController_new plain_libm ''cc'' 80 example_loss)\<lparr>g_base := example_sent,
     g_lastTimeCalcValid := True, g_overuse := (overuse_new plain_libm)\<lparr>D_hypothesis := CHR ''O''\<rparr>,
     g_rate := (aimd_new plain_libm)\<lparr>current_bitrate_bps := 2000000, rate_control_state := CHR ''I'',
       bitrate_is_initialized := True\<rparr>\<rparr>"

lemma gcc_example_inv: "gcc_inv plain_libm gcc_example"
  using gcc_inv_new [of plain_libm "''cc''" 80 example_loss]
  by (simp add: gcc_example_def gcc_inv_def aimd_ok_def overuse_ok_def known_usage_def aimd_new_def
      GccController_new_def overuse_new_def)

lemma gcc_example_measured:
  "\<exists>m w. measured_state plain_libm 5 5000 8 2500 gcc_example = Inr m \<and> to_word (g_RecvR m) = Inr (w :: u32)"
proof -
  have "case measured_state plain_libm 5 5000 8 2500 gcc_example of Inl _ \<Rightarrow> False
    | Inr m \<Rightarrow> to_word (g_RecvR m) = Inr (0 :: u32)" by code_simp
  then show ?thesis by (auto split: sum.splits)
qed

lemma gcc_example_over:
  "case Gcc_processFeedback plain_libm 5 0 5000 8 2500 0 0 0 0 (None, gcc_example) of Inl _ \<Rightarrow> False
   | Inr (b, st, s) \<Rightarrow> State (g_overuse s) = CHR ''O''"
  by code_simp

lemma statics_ok_None: "statics_ok None"
  by (simp add: statics_ok_def)

section \<open>Properties\<close>

text \<open>C25: in every state of a controller that the constructor made and that fed back messages have
  changed, feedback returns and leaves the invariant, or it fails where the base class, its metrics or the conversion of the
  measured receive rate to 32 bits fail, with their error; nothing after that conversion fails. So whenever it returns, the rate is
  between 500 kbit/s and 100 Mbit/s, the detector's threshold between 6 and 600, and the state machine in its states.\<close>

theorem gcc_rate_in_range:
  assumes "libm_ok M" "gcc_inv M s" "statics_ok st"
  shows "gcc_inv M (GccController_new M this port raw) \<and>
    (case Gcc_processFeedback M now_ms junk nowUs sq rx ia idp sz arr (st, s) of
       Inr (b, st', s') \<Rightarrow> statics_ok st' \<and> gcc_inv M s' \<and> 500000 \<le> Gcc_getSendBps s' \<and> Gcc_getSendBps s' \<le> 100000000
     | Inl e \<Rightarrow> (case measured_state M now_ms nowUs sq rx s of
           Inl e' \<Rightarrow> e = e'
         | Inr m \<Rightarrow> to_word (g_RecvR m) = (Inl e :: u32 res)))"
proof (cases "Gcc_processFeedback M now_ms junk nowUs sq rx ia idp sz arr (st, s)")
  case (Inl e)
  from gcc_feedback_error [OF assms Inl] show ?thesis using gcc_inv_new Inl by auto
next
  case (Inr r)
  obtain b st' s' where r: "r = (b, st', s')" by (cases r)
  have k: "gcc_inv M s' \<and> statics_ok st'" using gcc_feedback_keeps [OF assms] Inr r by blast
  then have "500000 \<le> Gcc_getSendBps s'" "Gcc_getSendBps s' \<le> 100000000"
    by (simp_all add: gcc_inv_def aimd_ok_def Gcc_getSendBps_def word_le_nat_alt)
  then show ?thesis using k gcc_inv_new Inr r by simp
qed

theorem gcc_rate_in_range_witness:
  "\<exists>b st' s'. Gcc_processFeedback plain_libm 5 0 5000 8 2500 0 0 0 0 (None, gcc_example) = Inr (b, st', s') \<and>
     500000 \<le> Gcc_getSendBps s' \<and> Gcc_getSendBps s' \<le> 100000000"
proof -
  obtain m w where "measured_state plain_libm 5 5000 8 2500 gcc_example = Inr m"
    "to_word (g_RecvR m) = Inr (w :: u32)" using gcc_example_measured by blast
  with gcc_rate_in_range [OF plain_libm_ok gcc_example_inv statics_ok_None, where this = "''cc''"
      and port = 80 and raw = example_loss and junk = 0 and ia = 0 and idp = 0 and sz = 0 and arr = 0
      and now_ms = 5 and nowUs = 5000 and sq = 8 and rx = 2500]
  show ?thesis by (auto split: sum.splits)
qed

text \<open>C26: when the detector says overuse after a feedback, that feedback has not raised the
  rate.\<close>

theorem overuse_never_raises:
  assumes "libm_ok M" "gcc_inv M s" "statics_ok st"
    "measured_state M now_ms nowUs sq rx s = Inr m" "to_word (g_RecvR m) = Inr (w :: u32)"
    and run: "Gcc_processFeedback M now_ms junk nowUs sq rx ia idp sz arr (st, s) = Inr (b, st', s')"
    and over: "State (g_overuse s') = CHR ''O''"
  shows "Gcc_getSendBps s' \<le> Gcc_getSendBps s"
proof -
  have l: "loss_ok (g_loss s)" using assms(2) by (simp add: gcc_inv_def)
  from gcc_feedback_run [OF assms(1-4) rate_known [OF assms(5)], of junk ia idp sz arr] obtain b1 s1 where
    r: "\<forall>l. loss_ok l \<longrightarrow> (\<exists>l'. loss_ok l' \<and>
      Gcc_processFeedback M now_ms junk nowUs sq rx ia idp sz arr (st, s\<lparr>g_loss := l\<rparr>)
        = Inr (b1, gcc_statics_const, s1\<lparr>g_loss := l'\<rparr>))"
      "D_hypothesis (g_overuse s1) = CHR ''O'' \<longrightarrow> current_bitrate_bps (g_rate s1) \<le> current_bitrate_bps (g_rate s)"
    by blast
  from r(1) l run obtain l' where "s' = s1\<lparr>g_loss := l'\<rparr>" by fastforce
  with r(2) over show ?thesis by (simp add: State_def Gcc_getSendBps_def)
qed

theorem overuse_never_raises_witness:
  "\<exists>b st' s'. Gcc_processFeedback plain_libm 5 0 5000 8 2500 0 0 0 0 (None, gcc_example) = Inr (b, st', s') \<and>
     State (g_overuse s') = CHR ''O'' \<and> Gcc_getSendBps s' \<le> Gcc_getSendBps gcc_example"
proof -
  obtain m w where m: "measured_state plain_libm 5 5000 8 2500 gcc_example = Inr m"
    "to_word (g_RecvR m) = Inr (w :: u32)" using gcc_example_measured by blast
  obtain b st' s' where r: "Gcc_processFeedback plain_libm 5 0 5000 8 2500 0 0 0 0 (None, gcc_example) = Inr (b, st', s')"
    "State (g_overuse s') = CHR ''O''" using gcc_example_over by (auto split: sum.splits prod.splits)
  from overuse_never_raises [OF plain_libm_ok gcc_example_inv statics_ok_None m r] r show ?thesis by blast
qed

text \<open>The loss based control never decides the rate: whatever its state, the fraction of lost
  packets that the constructor leaves unset included, feedback gives the same result, rate and
  remaining state.\<close>

theorem loss_never_counts:
  assumes "libm_ok M" "gcc_inv M s" "statics_ok st" "loss_ok l"
    "measured_state M now_ms nowUs sq rx s = Inr m" "to_word (g_RecvR m) = Inr (w :: u32)"
  shows "\<exists>b st' s' l1 l2.
    Gcc_processFeedback M now_ms junk nowUs sq rx ia idp sz arr (st, s) = Inr (b, st', s'\<lparr>g_loss := l1\<rparr>) \<and>
    Gcc_processFeedback M now_ms junk nowUs sq rx ia idp sz arr (st, s\<lparr>g_loss := l\<rparr>) = Inr (b, st', s'\<lparr>g_loss := l2\<rparr>) \<and>
    loss_ok (l\<lparr>own_last_fraction_loss := q\<rparr>)"
proof -
  have l: "loss_ok (g_loss s)" using assms(2) by (simp add: gcc_inv_def)
  from gcc_feedback_run [OF assms(1-3,5) rate_known [OF assms(6)], of junk ia idp sz arr] obtain b s' where
    r: "\<forall>l. loss_ok l \<longrightarrow> (\<exists>l'. loss_ok l' \<and>
      Gcc_processFeedback M now_ms junk nowUs sq rx ia idp sz arr (st, s\<lparr>g_loss := l\<rparr>)
        = Inr (b, gcc_statics_const, s'\<lparr>g_loss := l'\<rparr>))"
    by blast
  from r l obtain l1 where
    "Gcc_processFeedback M now_ms junk nowUs sq rx ia idp sz arr (st, s) = Inr (b, gcc_statics_const, s'\<lparr>g_loss := l1\<rparr>)"
    by fastforce
  moreover from r assms(4) obtain l2 where
    "Gcc_processFeedback M now_ms junk nowUs sq rx ia idp sz arr (st, s\<lparr>g_loss := l\<rparr>) = Inr (b, gcc_statics_const, s'\<lparr>g_loss := l2\<rparr>)"
    by fastforce
  moreover have "loss_ok (l\<lparr>own_last_fraction_loss := q\<rparr>)" using assms(4) by (simp add: loss_ok_def)
  ultimately show ?thesis by blast
qed

theorem loss_never_counts_witness:
  "\<exists>b st' s' l1 l2.
    Gcc_processFeedback plain_libm 5 0 5000 8 2500 0 0 0 0 (None, gcc_example) = Inr (b, st', s'\<lparr>g_loss := l1\<rparr>) \<and>
    Gcc_processFeedback plain_libm 5 0 5000 8 2500 0 0 0 0 (None, gcc_example\<lparr>g_loss := example_loss\<rparr>)
      = Inr (b, st', s'\<lparr>g_loss := l2\<rparr>)"
proof -
  obtain m w where m: "measured_state plain_libm 5 5000 8 2500 gcc_example = Inr m"
    "to_word (g_RecvR m) = Inr (w :: u32)" using gcc_example_measured by blast
  have "loss_ok example_loss" by (simp add: loss_ok_def example_loss_def lossctl_new_def)
  from loss_never_counts [OF plain_libm_ok gcc_example_inv statics_ok_None this m, where junk = 0 and ia = 0
      and idp = 0 and sz = 0 and arr = 0 and q = 0]
  show ?thesis by blast
qed

text \<open>Called at times that do not decrease, \<open>UpdateMinHistory\<close> keeps at the front of its deque
  the lowest rate of the last second.\<close>

theorem min_history_front:
  assumes "sorted (map fst calls)" "calls \<noteq> []"
  shows "min_history calls \<noteq> [] \<and>
    snd (hd (min_history calls)) = Min (snd ` {x \<in> set calls. fst (last calls) - fst x < 1000})"
proof -
  let ?now = "fst (last calls)" and ?h = "min_history calls"
  let ?W = "{x \<in> set calls. ?now - fst x < 1000}"
  have inv: "hist_inv ?now calls ?h" using min_history_inv [OF assms(1)] assms(2) by simp
  have "last calls \<in> set calls" using assms(2) by simp
  with inv have ne: "?h \<noteq> []" by (force simp: hist_inv_def)
  obtain cs c where calls: "calls = cs @ [c]" using assms(2) by (metis rev_exhaust)
  have srt: "sorted_wrt (\<lambda>x y. fst x \<le> fst y \<and> snd x < snd y) (min_history cs)"
    using min_history_inv [of cs] assms(1) by (auto simp: calls hist_inv_def min_history_def sorted_append)
  have "\<forall>x\<in>set ?h. ?now - fst x < 1000"
    unfolding calls by (cases c) (auto simp: min_history_snoc UpdateMinHistory_filter [OF srt])
  then have hd: "hd ?h \<in> ?W" using inv ne by (auto simp: hist_inv_def)
  have "snd (hd ?h) \<le> snd y" if "y \<in> set ?h" for y
    using inv ne that by (cases ?h) (auto simp: hist_inv_def)
  then have "snd (hd ?h) \<le> snd x" if "x \<in> ?W" for x
    using inv that unfolding hist_inv_def by (force intro: order_trans)
  then have "Min (snd ` ?W) = snd (hd ?h)" using hd by (intro Min_eqI) auto
  then show ?thesis using ne by simp
qed

theorem min_history_front_witness:
  "snd (hd (min_history [(0, 900), (400, 700), (500, 800), (1450, 850)]))
     = Min (snd ` {x \<in> set [(0, 900), (400, 700), (500, 800), (1450, 850)]. 1450 - fst x < (1000 :: int)})"
  using min_history_front [of "[(0, 900), (400, 700), (500, 800), (1450, 850)]"] by simp

end
