(* ===== verification/Nada.thy ===== *)
theory Nada
  imports Gcc_Rate
begin

text \<open>
  \<open>congestion-control/nada-controller.\{h,cc\}\<close> and \<open>dummy-controller.\{h,cc\}\<close>: the NADA
  congestion control, whose rate follows one congestion signal made of queuing delay and loss, and the
  controller of constant rate. As in \<open>Gcc\<close> a derived class has a field for its base class, and the
  mathematics library is an argument. A rate that is not a number, which dividing by a rate of 0
  yields, is \<open>None\<close>; other non-finite floats do not occur. Logs are left out.
\<close>

section \<open>NADA\<close>

definition NADA_PARAM_PRIO :: rat where "NADA_PARAM_PRIO = 1"
definition NADA_PARAM_XREF :: rat where "NADA_PARAM_XREF = 10"
definition NADA_PARAM_KAPPA :: rat where "NADA_PARAM_KAPPA = 1 / 2"
definition NADA_PARAM_ETA :: rat where "NADA_PARAM_ETA = 2"
definition NADA_PARAM_TAU :: rat where "NADA_PARAM_TAU = 500"
definition NADA_PARAM_DELTA_US :: u64 where "NADA_PARAM_DELTA_US = 100 * 1000"
definition NADA_PARAM_QEPS_US :: u64 where "NADA_PARAM_QEPS_US = 10 * 1000"
definition NADA_PARAM_DFILT_US :: u64 where "NADA_PARAM_DFILT_US = 120 * 1000"
definition NADA_PARAM_GAMMA_MAX :: rat where "NADA_PARAM_GAMMA_MAX = 1 / 2"
definition NADA_PARAM_QBOUND :: rat where "NADA_PARAM_QBOUND = 50"
definition NADA_PARAM_MULTILOSS :: rat where "NADA_PARAM_MULTILOSS = 7"
definition NADA_PARAM_QTH :: rat where "NADA_PARAM_QTH = 50"
definition NADA_PARAM_LAMBDA :: rat where "NADA_PARAM_LAMBDA = 1 / 2"
definition NADA_PARAM_DLOSS :: rat where "NADA_PARAM_DLOSS = 10"
definition NADA_PARAM_XMAX :: rat where "NADA_PARAM_XMAX = 500"

definition NADA_PARAM_PLRREF :: "libm \<Rightarrow> rat" where "NADA_PARAM_PLRREF M = lm_fs M (1 / 100)"
definition NADA_PARAM_ALPHA :: "libm \<Rightarrow> rat" where "NADA_PARAM_ALPHA M = lm_fs M (1 / 10)"

record nada =
  n_base :: controller
  n_ploss :: u32
  n_plr :: rat
  n_warpMode :: bool
  n_lastTimeCalcUs :: u64
  n_lastTimeCalcValid :: bool
  n_currBw :: "rat option"
  n_QdelayUs :: u64
  n_RttUs :: u64
  n_Xcurr :: rat
  n_Xprev :: rat
  n_RecvR :: rat
  n_avgInt :: rat
  n_currInt :: u16
  n_lossesSeen :: bool

definition NadaController_new :: "string \<Rightarrow> nada" where
  "NadaController_new this = (let base = SenderBasedController_new this in
     \<lparr>n_base = base, n_ploss = 0, n_plr = 0, n_warpMode = False, n_lastTimeCalcUs = 0,
      n_lastTimeCalcValid = False, n_currBw = Some (m_initBw base), n_QdelayUs = 0, n_RttUs = 0,
      n_Xcurr = 0, n_Xprev = 0, n_RecvR = 0, n_avgInt = 0, n_currInt = 0, n_lossesSeen = False\<rparr>)"

definition Nada_setCurrentBw :: "rat \<Rightarrow> nada \<Rightarrow> nada" where
  "Nada_setCurrentBw bw s = s\<lparr>n_currBw := Some bw\<rparr>"

definition Nada_reset :: "string \<Rightarrow> nada \<Rightarrow> nada" where
  "Nada_reset this s =
     \<lparr>n_base = reset this (n_base s), n_ploss = 0, n_plr = 0, n_warpMode = False, n_lastTimeCalcUs = 0,
      n_lastTimeCalcValid = False, n_currBw = Some (m_initBw (n_base s)), n_QdelayUs = 0, n_RttUs = 0,
      n_Xcurr = 0, n_Xprev = 0, n_RecvR = 0, n_avgInt = 0, n_currInt = 0, n_lossesSeen = False\<rparr>"

definition Nada_getBandwidth :: "nada \<Rightarrow> rat option" where
  "Nada_getBandwidth s = n_currBw s"

definition Nada_getSendBps :: "nada \<Rightarrow> u32" where
  "Nada_getSendBps s = 0"

subsection \<open>The congestion signal\<close>

definition calcDtilde :: "libm \<Rightarrow> nada \<Rightarrow> rat" where
  "calcDtilde M s =
     (let f = lm_fs M; qDelay = f (flt M (n_QdelayUs s) / 1000)
      in if flt M (n_QdelayUs s div 1000) > NADA_PARAM_QTH
         then let ratio = f (NADA_PARAM_LAMBDA * f (f (qDelay - NADA_PARAM_QTH) / NADA_PARAM_QTH))
              in f (lm_fd M (NADA_PARAM_QTH * lm_exp M (- ratio)))
         else qDelay)"

text \<open>The signal before the loss penalty, and whether the delay is warped.\<close>

definition delay_signal :: "libm \<Rightarrow> nada \<Rightarrow> rat \<times> bool" where
  "delay_signal M s =
     (let f = lm_fs M; xdel = f (flt M (n_QdelayUs s) / 1000); xtilde = calcDtilde M s;
          currInt = flt M (n_currInt s)
      in if n_lossesSeen s \<and> currInt < f (NADA_PARAM_MULTILOSS * n_avgInt s) then (xtilde, True)
         else if n_lossesSeen s
         then if currInt < f (f (NADA_PARAM_MULTILOSS + 1) * n_avgInt s)
              then let alpha = f (f (currInt - f (NADA_PARAM_MULTILOSS * n_avgInt s)) / n_avgInt s)
                   in (f (f (alpha * xdel) + f (f (1 - alpha) * xtilde)), n_warpMode s)
              else (xdel, False)
         else (xdel, False))"

definition updateXcurr :: "libm \<Rightarrow> nada \<Rightarrow> nada" where
  "updateXcurr M s =
     (let f = lm_fs M; (x, warp) = delay_signal M s;
          plr0 = f (n_plr s / NADA_PARAM_PLRREF M);
          x = f (x + f (f (NADA_PARAM_DLOSS * plr0) * plr0))
      in s\<lparr>n_Xcurr := (if x > NADA_PARAM_XMAX then NADA_PARAM_XMAX else x), n_warpMode := warp\<rparr>)"

definition Nada_updateMetrics :: "libm \<Rightarrow> nada \<Rightarrow> nada res" where
  "Nada_updateMetrics M s =
     (let q = getCurrentQdelay (n_base s);
          s = (case q of None \<Rightarrow> s | Some x \<Rightarrow> s\<lparr>n_QdelayUs := x\<rparr>);
          s = (case getCurrentRTT (n_base s) of None \<Rightarrow> s | Some x \<Rightarrow> s\<lparr>n_RttUs := x\<rparr>)
      in res_bind (getCurrentRecvRate (lm_fs M) (n_base s)) (\<lambda>(rate, base).
         let s = s\<lparr>n_base := base, n_RecvR := (case rate of None \<Rightarrow> n_RecvR s | Some r \<Rightarrow> r)\<rparr>
         in res_bind (getPktLossInfo (lm_fs M) (n_base s)) (\<lambda>info.
         let s = (case info of None \<Rightarrow> s
                  | Some (nLoss, plr, nPkt) \<Rightarrow> s\<lparr>n_ploss := nLoss, n_plr := lm_fs M (n_plr s +
                      lm_fs M (NADA_PARAM_ALPHA M * lm_fs M (plr - n_plr s)))\<rparr>)
         in res_bind (getLossIntervalInfo (lm_fs M) (n_base s)) (\<lambda>ints.
         let s = (case ints of None \<Rightarrow> s\<lparr>n_lossesSeen := False\<rparr>
                  | Some (avg, cur) \<Rightarrow> s\<lparr>n_lossesSeen := True, n_avgInt := avg, n_currInt := cur\<rparr>);
             s = s\<lparr>n_Xprev := n_Xcurr s\<rparr>
         in Inr (if q \<noteq> None then updateXcurr M s else s)))))"

subsection \<open>The rate\<close>

text \<open>Half the relative change per \<open>TAU\<close> by the offset from the reference signal, and by the
  signal's own change. Dividing by a rate of 0 makes every later value not a number.\<close>

definition gradual_rate :: "libm \<Rightarrow> u64 \<Rightarrow> rat \<Rightarrow> rat \<Rightarrow> rat \<Rightarrow> rat \<Rightarrow> rat" where
  "gradual_rate M deltaUs x_curr x_prev maxBw bw =
     (let f = lm_fs M; x_diff = f (x_curr - x_prev);
          x_offset = f (x_curr - f (f (f (NADA_PARAM_PRIO * NADA_PARAM_XREF) * maxBw) / bw));
          delta = f (lm_fd M (flt M deltaUs / 1000));
          r_offset = f (f (f (bw * NADA_PARAM_KAPPA) * f (delta / NADA_PARAM_TAU)) *
                        f (x_offset / NADA_PARAM_TAU));
          r_diff = f (f (f (bw * NADA_PARAM_KAPPA) * NADA_PARAM_ETA) * f (x_diff / NADA_PARAM_TAU))
      in f (f (bw - r_offset) - r_diff))"

definition calcGradualRateUpdate :: "libm \<Rightarrow> u64 \<Rightarrow> nada \<Rightarrow> nada" where
  "calcGradualRateUpdate M deltaUs s = s\<lparr>n_currBw := (case n_currBw s of None \<Rightarrow> None
     | Some bw \<Rightarrow> if bw = 0 then None
         else Some (gradual_rate M deltaUs (n_Xcurr s) (n_Xprev s) (m_maxBw (n_base s)) bw))\<rparr>"

definition ramp_up_rate :: "libm \<Rightarrow> nada \<Rightarrow> rat" where
  "ramp_up_rate M s =
     (let f = lm_fs M; denom = (n_RttUs s + NADA_PARAM_DELTA_US + NADA_PARAM_DFILT_US) div 1000;
          gamma = f (NADA_PARAM_QBOUND / flt M denom);
          gamma = (if denom = 0 \<or> gamma > NADA_PARAM_GAMMA_MAX then NADA_PARAM_GAMMA_MAX else gamma)
      in f (f (1 + gamma) * n_RecvR s))"

definition calcAcceleratedRampUp :: "libm \<Rightarrow> nada \<Rightarrow> nada" where
  "calcAcceleratedRampUp M s = s\<lparr>n_currBw := (case n_currBw s of None \<Rightarrow> None
     | Some bw \<Rightarrow> Some (if bw < ramp_up_rate M s then ramp_up_rate M s else bw))\<rparr>"

definition getRampUpMode :: "nada \<Rightarrow> int" where
  "getRampUpMode s =
     (if n_ploss s > 0 \<or>
         (\<exists>p\<in>set (m_packetHistory (n_base s)). owdUs p - m_baseDelayUs (n_base s) > NADA_PARAM_QEPS_US)
      then 1 else 0)"

text \<open>\<open>std::min\<close> and \<open>std::max\<close> return their first argument when it is not a number.\<close>

definition updateBw :: "libm \<Rightarrow> u64 \<Rightarrow> nada \<Rightarrow> nada" where
  "updateBw M deltaUs s0 =
     (let s = (if getRampUpMode s0 = 0 then calcAcceleratedRampUp M s0
               else calcGradualRateUpdate M deltaUs s0)
      in s\<lparr>n_currBw := map_option (\<lambda>bw. max (min bw (m_maxBw (n_base s))) (m_minBw (n_base s)))
                         (n_currBw s)\<rparr>)"

definition Nada_processFeedback :: "libm \<Rightarrow> u64 \<Rightarrow> u16 \<Rightarrow> u64 \<Rightarrow> nada \<Rightarrow> (bool \<times> nada) res" where
  "Nada_processFeedback M nowUs sq rx s0 =
     res_bind (processFeedback nowUs sq rx (n_base s0)) (\<lambda>(ok, base).
     let s = s0\<lparr>n_base := base\<rparr>
     in if \<not> ok then Inr (False, s)
        else if \<not> n_lastTimeCalcValid s
        then Inr (True, s\<lparr>n_lastTimeCalcUs := nowUs, n_lastTimeCalcValid := True\<rparr>)
        else ns_assert (lessThan (n_lastTimeCalcUs s) (nowUs + 1))
          (let deltaUs = nowUs - n_lastTimeCalcUs s
           in if deltaUs \<ge> NADA_PARAM_DELTA_US
              then res_bind (Nada_updateMetrics M s) (\<lambda>s.
                   Inr (True, (updateBw M deltaUs s)\<lparr>n_lastTimeCalcUs := nowUs\<rparr>))
              else Inr (True, s)))"

section \<open>The controller of constant rate\<close>

record cbr =
  d_base :: controller
  d_lastTimeCalcUs :: u64
  d_lastTimeCalcValid :: bool
  d_QdelayUs :: u64
  d_ploss :: u32
  d_plr :: rat
  d_RecvR :: rat

definition DummyController_new :: "string \<Rightarrow> cbr" where
  "DummyController_new this = \<lparr>d_base = SenderBasedController_new this, d_lastTimeCalcUs = 0,
     d_lastTimeCalcValid = False, d_QdelayUs = 0, d_ploss = 0, d_plr = 0, d_RecvR = 0\<rparr>"

definition Dummy_setCurrentBw :: "rat \<Rightarrow> cbr \<Rightarrow> cbr" where
  "Dummy_setCurrentBw bw s = s\<lparr>d_base := setInitBw bw (d_base s)\<rparr>"

definition Dummy_reset :: "string \<Rightarrow> cbr \<Rightarrow> cbr" where
  "Dummy_reset this s = \<lparr>d_base = reset this (d_base s), d_lastTimeCalcUs = 0,
     d_lastTimeCalcValid = False, d_QdelayUs = 0, d_ploss = 0, d_plr = 0, d_RecvR = 0\<rparr>"

definition Dummy_updateMetrics :: "libm \<Rightarrow> cbr \<Rightarrow> cbr res" where
  "Dummy_updateMetrics M s =
     (let s = (case getCurrentQdelay (d_base s) of None \<Rightarrow> s | Some q \<Rightarrow> s\<lparr>d_QdelayUs := q\<rparr>)
      in res_bind (getCurrentRecvRate (lm_fs M) (d_base s)) (\<lambda>(rate, base).
         let s = s\<lparr>d_base := base, d_RecvR := (case rate of None \<Rightarrow> d_RecvR s | Some r \<Rightarrow> r)\<rparr>
         in res_bind (getPktLossInfo (lm_fs M) (d_base s)) (\<lambda>info.
            Inr (case info of None \<Rightarrow> s
                 | Some (nLoss, plr, nPkt) \<Rightarrow> s\<lparr>d_ploss := nLoss, d_plr := plr\<rparr>))))"

definition Dummy_processFeedback :: "libm \<Rightarrow> u64 \<Rightarrow> u16 \<Rightarrow> u64 \<Rightarrow> cbr \<Rightarrow> (bool \<times> cbr) res" where
  "Dummy_processFeedback M nowUs sq rx s0 =
     res_bind (processFeedback nowUs sq rx (d_base s0)) (\<lambda>(ok, base).
     let s = s0\<lparr>d_base := base\<rparr>
     in if d_lastTimeCalcValid s
        then ns_assert (lessThan (d_lastTimeCalcUs s) (nowUs + 1))
          (if nowUs - d_lastTimeCalcUs s \<ge> 200 * 1000
           then res_bind (Dummy_updateMetrics M s) (\<lambda>s. Inr (ok, s\<lparr>d_lastTimeCalcUs := nowUs\<rparr>))
           else Inr (ok, s))
        else Inr (ok, s\<lparr>d_lastTimeCalcUs := nowUs, d_lastTimeCalcValid := True\<rparr>))"

definition Dummy_getBandwidth :: "cbr \<Rightarrow> rat" where
  "Dummy_getBandwidth s = m_initBw (d_base s)"

definition Dummy_getSendBps :: "cbr \<Rightarrow> u32" where
  "Dummy_getSendBps s = 0"

section \<open>Frames\<close>

text \<open>The base class leaves the bounds of the rate alone.\<close>

definition same_bounds :: "controller \<Rightarrow> controller \<Rightarrow> bool" where
  "same_bounds s s' \<longleftrightarrow> m_minBw s' = m_minBw s \<and> m_maxBw s' = m_maxBw s \<and> m_initBw s' = m_initBw s"

lemma measure_bounds: "measure_packet now rx p s = Inr (b, s') \<Longrightarrow> same_bounds s s'"
  by (auto simp: measure_packet_def Let_def same_bounds_def ns_assert_def dest!: res_bind_InrD split: if_splits)

lemma accept_bounds: "accept_packet now rx p s = Inr (b, s') \<Longrightarrow> same_bounds s s'"
  by (auto simp: accept_packet_def Let_def same_bounds_def dest!: measure_bounds split: if_splits)

lemma feedback_bounds: "processFeedback now sq rx s = Inr (b, s') \<Longrightarrow> same_bounds s s'"
  by (auto simp: processFeedback_def Let_def ns_assert_def dest!: res_bind_InrD
      split: if_splits list.splits dest: accept_bounds)
     (auto simp: same_bounds_def dest!: accept_bounds)

lemma send_bounds: "processSendPacket tx sq sz s = Inr (b, s') \<Longrightarrow> same_bounds s s'"
  by (auto simp: processSendPacket_def Let_def same_bounds_def dest!: res_bind_InrD split: if_splits)

lemma recv_rate_bounds: "getCurrentRecvRate f s = Inr (r, s') \<Longrightarrow> same_bounds s s'"
  by (drule getCurrentRecvRate_frame) (auto simp: same_bounds_def)

lemma updateXcurr_fields:
  "n_base (updateXcurr M s) = n_base s" "n_currBw (updateXcurr M s) = n_currBw s"
  by (simp_all add: updateXcurr_def Let_def split_beta)

lemma nada_metrics_fields:
  "Nada_updateMetrics M s = Inr s' \<Longrightarrow> same_bounds (n_base s) (n_base s') \<and> n_currBw s' = n_currBw s"
  by (auto simp: Nada_updateMetrics_def Let_def updateXcurr_fields dest!: res_bind_InrD recv_rate_bounds
      split: option.splits if_splits)

section \<open>Properties\<close>

definition nada_inv :: "nada \<Rightarrow> bool" where
  "nada_inv s \<longleftrightarrow> 0 < m_minBw (n_base s) \<and> m_minBw (n_base s) \<le> m_maxBw (n_base s) \<and>
     (\<exists>b. n_currBw s = Some b \<and> m_minBw (n_base s) \<le> b \<and> b \<le> m_maxBw (n_base s))"

lemma updateBw_inv:
  assumes "nada_inv s" shows "nada_inv (updateBw M d s)"
proof -
  have "n_base (updateBw M d s) = n_base s"
    by (simp add: updateBw_def Let_def calcAcceleratedRampUp_def calcGradualRateUpdate_def)
  moreover have "\<exists>b. n_currBw (updateBw M d s) = Some (max (min b (m_maxBw (n_base s))) (m_minBw (n_base s)))"
  proof -
    let ?s = "if getRampUpMode s = 0 then calcAcceleratedRampUp M s else calcGradualRateUpdate M d s"
    have "n_currBw ?s \<noteq> None"
      using assms by (auto simp: nada_inv_def calcAcceleratedRampUp_def calcGradualRateUpdate_def)
    then obtain b where "n_currBw ?s = Some b" by blast
    moreover have "n_base ?s = n_base s"
      by (simp add: calcAcceleratedRampUp_def calcGradualRateUpdate_def)
    ultimately show ?thesis unfolding updateBw_def Let_def by (intro exI [of _ b]) simp
  qed
  ultimately show ?thesis using assms by (auto simp: nada_inv_def)
qed

lemma nada_inv_new: "nada_inv (NadaController_new this)"
  by (simp add: nada_inv_def NadaController_new_def SenderBasedController_new_def Let_def
      RMCAT_CC_DEFAULT_RMIN_def RMCAT_CC_DEFAULT_RMAX_def RMCAT_CC_DEFAULT_RINIT_def)

text \<open>A controller that hears of packet 8, its last update 200 ms ago.\<close>

definition nada_example :: nada where
  "nada_example = (NadaController_new ''cc'')\<lparr>n_base := example_sent, n_lastTimeCalcValid := True\<rparr>"

lemma nada_example_inv: "nada_inv nada_example"
  using nada_inv_new [of "''cc''"]
  by (simp add: nada_inv_def nada_example_def NadaController_new_def Let_def SenderBasedController_new_def
      example_sent_def)

text \<open>C27: NADA's own feedback keeps its rate a number between the minimum and the maximum, from the
  constructor on; it fails only where the base class, its metrics or the check of the clock
  fail.\<close>

theorem nada_rate_in_range:
  assumes "nada_inv s"
  shows "nada_inv (NadaController_new this) \<and>
    (case Nada_processFeedback M now sq rx s of
       Inr (b, s') \<Rightarrow> nada_inv s' \<and> (\<exists>r. Nada_getBandwidth s' = Some r \<and> 0 < r)
     | Inl e \<Rightarrow> processFeedback now sq rx (n_base s) = Inl e \<or>
         (\<exists>s1. Nada_updateMetrics M s1 = Inl e) \<or>
         e = AssertFailed \<and> \<not> lessThan (n_lastTimeCalcUs s) (now + 1))"
proof -
  note new = nada_inv_new [of this]
  have pos: "\<exists>r. Nada_getBandwidth s' = Some r \<and> 0 < r" if "nada_inv s'" for s'
    using that by (auto simp: nada_inv_def Nada_getBandwidth_def)
  show ?thesis
  proof (cases "processFeedback now sq rx (n_base s)")
    case (Inl e)
    then show ?thesis using new by (simp add: Nada_processFeedback_def)
  next
    case (Inr p)
    obtain ok base where p: "p = (ok, base)" by (cases p)
    let ?s = "s\<lparr>n_base := base\<rparr>"
    have "same_bounds (n_base s) base" using feedback_bounds Inr p by simp
    then have inv: "nada_inv ?s" using assms by (simp add: nada_inv_def same_bounds_def)
    have upd: "nada_inv ((updateBw M (now - n_lastTimeCalcUs s) s1)\<lparr>n_lastTimeCalcUs := now\<rparr>)"
      if "Nada_updateMetrics M ?s = Inr s1" for s1
    proof -
      have "nada_inv s1"
        using nada_metrics_fields [OF that] inv by (simp add: nada_inv_def same_bounds_def)
      from updateBw_inv [OF this] show ?thesis by (simp add: nada_inv_def)
    qed
    have stamp: "nada_inv (?s\<lparr>n_lastTimeCalcUs := now, n_lastTimeCalcValid := True\<rparr>)"
      using inv by (simp add: nada_inv_def)
    show ?thesis
      using new inv stamp upd pos unfolding Nada_processFeedback_def Inr p
      by (cases "Nada_updateMetrics M ?s") (auto simp: Let_def ns_assert_def)
  qed
qed

theorem nada_rate_in_range_witness:
  "\<exists>b s' r. Nada_processFeedback plain_libm 200000 8 2500 nada_example = Inr (b, s') \<and>
     nada_inv s' \<and> Nada_getBandwidth s' = Some r \<and> 0 < r"
proof -
  have "case Nada_processFeedback plain_libm 200000 8 2500 nada_example of Inl _ \<Rightarrow> False | Inr _ \<Rightarrow> True"
    by code_simp
  then show ?thesis
    using nada_rate_in_range [OF nada_example_inv, where this = "''cc''" and M = plain_libm and now = 200000 and sq = 8 and rx = 2500]
    by (auto split: sum.splits)
qed

text \<open>The gradual update moves the rate in the direction of the congestion signal: above the
  reference and not falling it does not raise the rate, below it and not rising it does not lower
  it. \<open>bw\<close> is a float.\<close>

theorem gradual_update_direction:
  assumes f: "float_ok (lm_fs M)" and bw: "0 \<le> bw" "lm_fs M bw = bw" and d: "rounding_ok (lm_fd M)"
    and ref: "ref = lm_fs M (lm_fs M (lm_fs M (NADA_PARAM_PRIO * NADA_PARAM_XREF) * maxBw) / bw)"
  shows "(ref \<le> x \<and> x_prev \<le> x \<longrightarrow> gradual_rate M deltaUs x x_prev maxBw bw \<le> bw) \<and>
    (x \<le> ref \<and> x \<le> x_prev \<longrightarrow> bw \<le> gradual_rate M deltaUs x x_prev maxBw bw)"
proof -
  let ?f = "lm_fs M"
  have f0: "?f 0 = 0" using float_int [OF f, of 0] by simp
  have pos: "0 \<le> y \<Longrightarrow> 0 \<le> ?f y" and neg: "y \<le> 0 \<Longrightarrow> ?f y \<le> 0" for y
    using float_mono [OF f, of 0 y] float_mono [OF f, of y 0] by (simp_all add: f0)
  let ?delta = "?f (lm_fd M (flt M deltaUs / 1000))"
  have "0 \<le> flt M deltaUs" by (rule pos) (rule uint_rat)
  then have "0 \<le> lm_fd M (flt M deltaUs / 1000)" by (intro rounding_nonneg [OF d]) simp
  then have "0 \<le> ?delta / 500" using pos by simp
  then have dt: "0 \<le> ?f (?delta / NADA_PARAM_TAU)" unfolding NADA_PARAM_TAU_def by (rule pos)
  have "0 \<le> bw * (1 / 2)" using bw(1) by simp
  then have half: "0 \<le> ?f (bw * NADA_PARAM_KAPPA)" unfolding NADA_PARAM_KAPPA_def by (rule pos)
  have a: "0 \<le> ?f (?f (bw * NADA_PARAM_KAPPA) * ?f (?delta / NADA_PARAM_TAU))" (is "0 \<le> ?a")
    by (rule pos, rule mult_nonneg_nonneg, rule half, rule dt)
  have b: "0 \<le> ?f (?f (bw * NADA_PARAM_KAPPA) * NADA_PARAM_ETA)" (is "0 \<le> ?b")
    using half by (intro pos) (simp add: NADA_PARAM_ETA_def)
  let ?x = "?f (?f (x - ref) / NADA_PARAM_TAU)" and ?y = "?f (?f (x - x_prev) / NADA_PARAM_TAU)"
  have rate: "gradual_rate M deltaUs x x_prev maxBw bw = ?f (?f (bw - ?f (?a * ?x)) - ?f (?b * ?y))"
    by (simp only: gradual_rate_def Let_def ref)
  have up: "?f (?f (bw - u) - v) \<le> bw" if "0 \<le> u" "0 \<le> v" for u v
    using that float_mono [OF f, of "bw - u" bw] float_mono [OF f, of "?f (bw - u) - v" bw] bw(2) by simp
  have down: "bw \<le> ?f (?f (bw - u) - v)" if "u \<le> 0" "v \<le> 0" for u v
    using that float_mono [OF f, of bw "bw - u"] float_mono [OF f, of bw "?f (bw - u) - v"] bw(2) by simp
  have q: "0 \<le> z \<Longrightarrow> 0 \<le> ?f (?f z / NADA_PARAM_TAU)" "z \<le> 0 \<Longrightarrow> ?f (?f z / NADA_PARAM_TAU) \<le> 0" for z
    using pos [of "?f z / 500"] neg [of "?f z / 500"] pos [of z] neg [of z] by (simp_all add: NADA_PARAM_TAU_def)
  show ?thesis
    unfolding rate
  proof (intro conjI impI)
    assume h: "ref \<le> x \<and> x_prev \<le> x"
    then have "0 \<le> ?x" "0 \<le> ?y" by (simp_all add: q(1))
    then show "?f (?f (bw - ?f (?a * ?x)) - ?f (?b * ?y)) \<le> bw"
      using mult_nonneg_nonneg [OF a] mult_nonneg_nonneg [OF b] by (intro up pos) blast+
  next
    assume h: "x \<le> ref \<and> x \<le> x_prev"
    then have "?x \<le> 0" "?y \<le> 0" by (simp_all add: q(2))
    then show "bw \<le> ?f (?f (bw - ?f (?a * ?x)) - ?f (?b * ?y))"
      using mult_nonneg_nonpos [OF a] mult_nonneg_nonpos [OF b] by (intro down neg) blast+
  qed
qed

theorem gradual_update_direction_witness:
  "gradual_rate plain_libm 100000 60 50 1500000 300000 \<le> 300000 \<and>
   300000 \<le> gradual_rate plain_libm 100000 40 50 1500000 300000"
  using gradual_update_direction [of plain_libm 300000 50 1500000 60 50 100000]
    gradual_update_direction [of plain_libm 300000 50 1500000 40 50 100000] plain_libm_ok
  by (simp add: libm_ok_def plain_libm_def NADA_PARAM_PRIO_def NADA_PARAM_XREF_def)

end
