(* ===== verification/Controllers.thy ===== *)
theory Controllers
  imports Sender_Window Nada
begin

text \<open>
  The congestion controllers behind the pointer \<open>m_controller\<close> of the UDP sender: the virtual calls
  that the sender makes, dispatched to the two classes it can create, and the contract between
  sender and controller as a locale. A step of the sender that returns keeps what every
  operation of the controller keeps; the locale is interpreted for Google congestion control and for
  NADA.
\<close>

section \<open>Virtual calls\<close>

text \<open>The objects \<open>SetController\<close> makes. The static variables of \<open>GccController::processFeedback\<close> are
  part of the world the calls change.\<close>

datatype cc = GccCc gcc | NadaCc nada

fun cc_base :: "cc \<Rightarrow> controller" where
  "cc_base (GccCc g) = g_base g"
| "cc_base (NadaCc n) = n_base n"

fun with_base :: "controller \<Rightarrow> cc \<Rightarrow> cc" where
  "with_base b (GccCc g) = GccCc (g\<lparr>g_base := b\<rparr>)"
| "with_base b (NadaCc n) = NadaCc (n\<lparr>n_base := b\<rparr>)"

type_synonym cc_world = "gcc_statics \<times> cc"

definition on_base :: "(controller \<Rightarrow> ('a \<times> controller) res) \<Rightarrow> cc_world \<Rightarrow> ('a \<times> cc_world) res" where
  "on_base f = (\<lambda>(st, c). res_bind (f (cc_base c)) (\<lambda>(x, b). Inr (x, st, with_base b c)))"

text \<open>\<open>processFeedback\<close> of the base class is virtual and \<open>GccController\<close> overrides it. The method
  of \<open>NadaController\<close> has other parameters, so it hides the one of the base class but does not override
  it: a call through the base class runs the base class's own. The current time in milliseconds is
  that of the call.\<close>

fun cc_feedback :: "libm \<Rightarrow> u64 \<Rightarrow> u64 \<Rightarrow> u16 \<Rightarrow> u64 \<Rightarrow> u64 \<Rightarrow> u64 \<Rightarrow> u64 \<Rightarrow> u32 \<Rightarrow> u64
    \<Rightarrow> cc_world \<Rightarrow> (bool \<times> cc_world) res" where
  "cc_feedback M junk nowUs sq rx ia idep idv sz arr (st, GccCc g) =
     res_bind (Gcc_processFeedback M (nowUs div 1000) junk nowUs sq rx (sint ia) idep (sint sz) (sint arr) (st, g))
       (\<lambda>(b, st', g'). Inr (b, st', GccCc g'))"
| "cc_feedback M junk nowUs sq rx ia idep idv sz arr (st, NadaCc n) =
     on_base (processFeedback nowUs sq rx) (st, NadaCc n)"

fun cc_getSendBps :: "cc \<Rightarrow> u32" where
  "cc_getSendBps (GccCc g) = Gcc_getSendBps g"
| "cc_getSendBps (NadaCc n) = Nada_getSendBps n"

definition controller_ops :: "libm \<Rightarrow> u64 \<Rightarrow> cc_world cc_ops" where
  "controller_ops M junk = \<lparr>
     op_send = \<lambda>t i z. on_base (processSendPacket t i z),
     op_feedback = cc_feedback M junk,
     op_prune = \<lambda>tar c. res_bind (on_base (\<lambda>b. res_bind (PrunTransitHistory tar b) (\<lambda>b. Inr ((), b))) c)
                          (\<lambda>(_, c). Inr c),
     op_tx_time = \<lambda>i (st, c). GetPacketTxTimestamp i (cc_base c),
     op_size = \<lambda>i (st, c). GetPacketSize i (cc_base c),
     op_loss = \<lambda>q (st, c). (st, with_base (UpdateLossRate q (cc_base c)) c),
     op_bps = \<lambda>(st, c). Inr (of_int (uint (cc_getSendBps c)), st, c)\<rparr>"

section \<open>Steps of the sender\<close>

text \<open>What changes a running sender: a frame to send, a packet to put on the wire, the check for
  retransmission, a packet that arrives, a line of a trace, and the timer of the bitrate.\<close>

inductive sender_step :: "('p, 'c) sender_env \<Rightarrow> ('p, 'c) sender \<Rightarrow> ('p, 'c) sender \<Rightarrow> bool" for env where
  step_frame: "CreateFrame env now fid pid mp n sz s = Inr s' \<Longrightarrow> sender_step env s s'"
| step_send: "SendPacket env now s = Inr s' \<Longrightarrow> sender_step env s s'"
| step_check: "CheckRetransmission env now s = Inr s' \<Longrightarrow> sender_step env s s'"
| step_recv: "OnSocketRecv_sender env now pkt s = Inr s' \<Longrightarrow> sender_step env s s'"
| step_trace: "SetNetworkStatisticsBytrace env rtt bw lr s = Inr s' \<Longrightarrow> sender_step env s s'"
| step_rate: "UpdateBitrate env s = Inr s' \<Longrightarrow> sender_step env s s'"

inductive sender_steps :: "('p, 'c) sender_env \<Rightarrow> ('p, 'c) sender \<Rightarrow> ('p, 'c) sender \<Rightarrow> bool" for env where
  steps_refl: "sender_steps env s s"
| steps_trans: "sender_steps env s t \<Longrightarrow> sender_step env t u \<Longrightarrow> sender_steps env s u"

text \<open>What leaves the controller alone.\<close>

lemma keeps_controller:
  "CreatePacketBatch env now rs fp new gid rtx s = Inr (rs', s') \<Longrightarrow> m_controller s' = m_controller s"
  "CreateFirstPacketBatch env now rs fp s = Inr (rs', s') \<Longrightarrow> m_controller s' = m_controller s"
  "CreateRTXPacketBatch env now rs fp s = Inr (rs', s') \<Longrightarrow> m_controller s' = m_controller s"
proof -
  show batch: "CreatePacketBatch env now rs fp new gid rtx s = Inr (rs', s') \<Longrightarrow> m_controller s' = m_controller s"
    for gid rtx new s s'
    by (auto simp: CreatePacketBatch_def Let_def dest!: res_bind_InrD ns_assert_InrD)
  then show "CreateFirstPacketBatch env now rs fp s = Inr (rs', s') \<Longrightarrow> m_controller s' = m_controller s"
    by (auto simp: CreateFirstPacketBatch_def dest!: res_bind_InrD ns_assert_InrD)
  show "CreateRTXPacketBatch env now rs fp s = Inr (rs', s') \<Longrightarrow> m_controller s' = m_controller s"
    by (auto simp: CreateRTXPacketBatch_def Let_def dest!: ns_assert_InrD batch)
qed

lemma create_batches_controller:
  "create_batches env now fp gs s = Inr (rs, s') \<Longrightarrow> m_controller s' = m_controller s"
proof (induction gs arbitrary: s rs)
  case (Cons g gs)
  then show ?case by (fastforce dest!: res_bind_InrD keeps_controller(2))
qed simp

lemma pacing_controller: "Calculate_pacing_rate now s = Inr s' \<Longrightarrow> m_controller s' = m_controller s"
  by (auto simp: Calculate_pacing_rate_def dest!: res_bind_InrD)

lemma send_frame_controller:
  "SendFrame env now rs s = Inr s' \<Longrightarrow> m_controller s' = m_controller s"
  "SendRtx now rs s = Inr s' \<Longrightarrow> m_controller s' = m_controller s"
  by (auto simp: SendFrame_def SendRtx_def UpdateGoodputRatio_def emit_def Let_def
      dest!: res_bind_InrD pacing_controller split: if_splits)

lemma fold_controller:
  "m_controller (fold (\<lambda>r. on_heap r f) rs s) = m_controller s"
  "m_controller (StorePackets junk rs s) = m_controller s"
proof -
  show "m_controller (fold (\<lambda>r. on_heap r f) rs s) = m_controller s"
    by (induction rs arbitrary: s) (simp_all add: on_heap_def)
  have one: "m_controller (remember_packet junk r s) = m_controller s" for r s
    by (simp add: remember_packet_def Let_def)
  show "m_controller (StorePackets junk rs s) = m_controller s"
    unfolding StorePackets_def by (induction rs arbitrary: s) (simp_all add: one)
qed

lemma log_sent_controller: "log_sent t info s = Inr s' \<Longrightarrow> m_controller s' = m_controller s"
  by (auto simp: log_sent_def Let_def dest!: res_bind_InrD)

lemma SendPacket_controller:
  assumes run: "SendPacket env now s = Inr s'"
  shows "s' = s \<or> (\<exists>t z s0 s1. m_controller s0 = m_controller s \<and> tell_sent env t z s0 = Inr s1 \<and>
    m_controller s' = m_controller s1)"
proof (cases "m_queue s")
  case Nil
  then show ?thesis using run by (simp add: SendPacket_def)
next
  case (Cons fr frs)
  obtain r rs where fr: "packets_in_Frame fr = r # rs"
    using run Cons by (cases "packets_in_Frame fr") (simp_all add: SendPacket_def)
  obtain info sz s1 es st s2 s3 where t: "tell_sent env (word_of_int (GetMicroSeconds now)) sz
       (on_heap r (\<lambda>p. vp_SetGlobalId (IPIDCounter s) (vp_SetSendTime now p)) s) = Inr s1"
    and l: "log_sent (word_of_int (GetMicroSeconds now)) info (emit es (s1\<lparr>m_stats := st\<rparr>)) = Inr s2"
    and p: "(if rs = [] then Calculate_pacing_rate now (s2\<lparr>IPIDCounter := IPIDCounter s2 + 1, m_queue := frs\<rparr>)
      else Inr (s2\<lparr>IPIDCounter := IPIDCounter s2 + 1, m_queue := fr\<lparr>packets_in_Frame := rs\<rparr> # frs\<rparr>)) = Inr s3"
    and e: "(if m_pacing s3 then res_bind (timer_schedule (m_pacingTimer s3)) (\<lambda>t. Inr (s3\<lparr>m_pacingTimer := t\<rparr>))
      else Inr (emit [ScheduleSend] s3)) = Inr s'"
    by (rule SendPacket_run [OF run Cons fr])
  have "m_controller s' = m_controller s3"
    using e by (auto simp: emit_def dest!: res_bind_InrD split: if_splits)
  also have "\<dots> = m_controller s2" using p by (auto dest!: pacing_controller split: if_splits)
  also have "\<dots> = m_controller s1" using log_sent_controller [OF l] by (simp add: emit_def)
  finally have "m_controller s' = m_controller s1" .
  moreover have "m_controller (on_heap r (\<lambda>p. vp_SetGlobalId (IPIDCounter s) (vp_SetSendTime now p)) s) = m_controller s"
    by (simp add: on_heap_def)
  ultimately show ?thesis using t by blast
qed

lemma ack_controller: "m_controller (RcvAck env now ack s) = m_controller s"
  "m_controller (RcvFrameAck now fa s) = m_controller s"
  by (simp_all add: RcvAck_def RcvACKPacket_def RcvFrameAck_def Let_def split: option.splits)

section \<open>The contract\<close>

text \<open>A sender whose controller, if it has one, satisfies an invariant.\<close>

definition controller_ok :: "('c \<Rightarrow> bool) \<Rightarrow> ('p, 'c) sender \<Rightarrow> bool" where
  "controller_ok ok s \<longleftrightarrow> (\<forall>c. m_controller s = Some c \<longrightarrow> ok c)"

lemma controller_ok_cong: "m_controller s' = m_controller s \<Longrightarrow> controller_ok ok s' = controller_ok ok s"
  by (simp add: controller_ok_def)

text \<open>What a controller promises: its operations keep an invariant whenever they return, and the rate
  it answers lies between two bounds.\<close>

locale rate_controller =
  fixes ops :: "'c cc_ops" and ok :: "'c \<Rightarrow> bool" and lo hi :: rat
  assumes send_inv: "ok c \<Longrightarrow> op_send ops t i z c = Inr (b, c') \<Longrightarrow> ok c'"
    and feedback_inv: "ok c \<Longrightarrow> op_feedback ops t i rx ia idep idv sz arr c = Inr (b, c') \<Longrightarrow> ok c'"
    and prune_inv: "ok c \<Longrightarrow> op_prune ops tar c = Inr c' \<Longrightarrow> ok c'"
    and loss_inv: "ok c \<Longrightarrow> ok (op_loss ops q c)"
    and bps_inv: "ok c \<Longrightarrow> op_bps ops c = Inr (r, c') \<Longrightarrow> ok c' \<and> lo \<le> r \<and> r \<le> hi"
begin

abbreviation ctl_ok :: "('p, 'c) sender \<Rightarrow> bool" where
  "ctl_ok s \<equiv> controller_ok ok s"

lemma burst_packet_inv: "burst_packet ops itvl now r (b, c) = Inr (b', c') \<Longrightarrow> ok c \<Longrightarrow> ok c'"
  by (auto simp: burst_packet_def burst_switch_def Let_def dest!: res_bind_InrD split: if_splits
      intro: feedback_inv prune_inv)

lemma burst_packets_inv: "burst_packets ops itvl now rs (b, c) = Inr (b', c') \<Longrightarrow> ok c \<Longrightarrow> ok c'"
proof (induction rs arbitrary: b c)
  case (Cons r rs)
  then show ?case using burst_packet_inv by (fastforce dest!: res_bind_InrD)
qed simp

lemma tell_loss_inv: "tell_loss env q s = Inr s' \<Longrightarrow> sn_ops env = ops \<Longrightarrow> ctl_ok s \<Longrightarrow> ctl_ok s'"
  using loss_inv by (auto simp: tell_loss_def controller_ok_def dest!: res_bind_InrD split: option.splits)

lemma tell_sent_inv: "tell_sent env t z s = Inr s' \<Longrightarrow> sn_ops env = ops \<Longrightarrow> ctl_ok s \<Longrightarrow> ctl_ok s'"
  by (auto simp: tell_sent_def controller_ok_def dest!: res_bind_InrD split: option.splits if_splits intro: send_inv)

lemma RcvNetState_inv:
  assumes run: "RcvNetState env now st s = Inr s'" and env: "sn_ops env = ops" and cok: "ctl_ok s"
  shows "ctl_ok s'"
proof -
  let ?heard = "s\<lparr>m_netStat := (m_netStat s)\<lparr>
      current_bw := sn_fl env (of_int (uint (ns_throughput_kbps st)) / 1000),
      current_loss_rate := ns_loss_rate st\<rparr>\<rparr>"
  obtain s1 where s1: "(if trace_set s then Inr s
      else tell_loss env (sn_fs env (ns_loss_rate st * 256)) ?heard) = Inr s1"
    using res_bind_InrD [OF run [unfolded RcvNetState_def]] by blast
  have h: "ctl_ok ?heard" using cok by (simp add: controller_ok_def)
  have ok1: "ctl_ok s1"
  proof (cases "trace_set s")
    case True
    then show ?thesis using s1 cok by simp
  next
    case False
    then show ?thesis using tell_loss_inv [OF _ env h] s1 by simp
  qed
  show ?thesis
    using run ok1 burst_packets_inv unfolding RcvNetState_def s1 env
    by (auto simp: controller_ok_def Let_def dest!: res_bind_InrD split: if_splits option.splits)
qed

lemma OnSocketRecv_inv:
  assumes "OnSocketRecv_sender env now pkt s = Inr s'" "sn_ops env = ops" "ctl_ok s"
  shows "ctl_ok s'"
  using assms(1,3) RcvNetState_inv [OF _ assms(2)]
  by (auto simp: OnSocketRecv_sender_def controller_ok_cong [OF ack_controller(1)]
      controller_ok_cong [OF ack_controller(2)] dest!: res_bind_InrD split: option.splits net_packet.splits)

lemma UpdateSendingRate_inv:
  assumes "UpdateSendingRate env s = Inr s'" "sn_ops env = ops" "ctl_ok s"
  shows "ctl_ok s'" and "m_cc_enable s \<Longrightarrow> \<exists>r. lo \<le> r \<and> r \<le> hi \<and>
    to_word (sn_fl env (sn_fl env (17 / 20) * r)) = Inr (m_bitrate s')"
  using assms(1,3) bps_inv
  by (auto simp: UpdateSendingRate_def controller_ok_def assms(2) dest!: res_bind_InrD
      split: if_splits option.splits) blast+

lemma UpdateBitrate_inv:
  assumes "UpdateBitrate env s = Inr s'" "sn_ops env = ops" "ctl_ok s"
  shows "ctl_ok s'" and "m_cc_enable s \<Longrightarrow> \<exists>r. lo \<le> r \<and> r \<le> hi \<and>
    to_word (sn_fl env (sn_fl env (17 / 20) * r)) = Inr (m_bitrate s')"
proof -
  have "ctl_ok s' \<and> (m_cc_enable s \<longrightarrow> (\<exists>r. lo \<le> r \<and> r \<le> hi \<and>
    to_word (sn_fl env (sn_fl env (17 / 20) * r)) = Inr (m_bitrate s')))"
  proof (cases "m_cc_enable s")
    case True
    then obtain s1 where s1: "UpdateSendingRate env s = Inr s1" "m_controller s' = m_controller s1"
        "m_bitrate s' = m_bitrate s1"
      using assms(1) by (auto simp: UpdateBitrate_def emit_def dest!: res_bind_InrD)
    then show ?thesis
      using UpdateSendingRate_inv [OF s1(1) assms(2,3)] True controller_ok_cong [OF s1(2), of ok] by simp
  next
    case False
    then show ?thesis using assms by (simp add: UpdateBitrate_def)
  qed
  then show "ctl_ok s'" and "m_cc_enable s \<Longrightarrow> \<exists>r. lo \<le> r \<and> r \<le> hi \<and>
    to_word (sn_fl env (sn_fl env (17 / 20) * r)) = Inr (m_bitrate s')" by simp_all
qed

lemma GetFECParam_inv:
  assumes "GetFECParam env n left fx rtx fid s = Inr (p, s')" "sn_ops env = ops" "ctl_ok s"
  shows "ctl_ok s'"
proof -
  have "ctl_ok (s\<lparr>m_curr_fecparam := fp, m_cc_timer := False\<rparr>)" for fp
    using assms(3) by (simp add: controller_ok_def)
  then show ?thesis
    using assms UpdateBitrate_inv(1)
    by (auto simp: GetFECParam_def dest!: res_bind_InrD split: option.splits if_splits) blast
qed

lemma SendPackets_inv:
  assumes run: "SendPackets env now rs left fid rtx s = Inr s'" and env: "sn_ops env = ops" and cok: "ctl_ok s"
  shows "ctl_ok s'"
proof -
  have first: "ctl_ok t" if fb: "first_batches env now rs left fid s = Inr (bs, rest, t)" for bs rest t
  proof -
    obtain fp u where u: "GetFECParam env (of_nat (length rs)) left False False fid s = Inr (fp, u)"
        and r: "fec_group_size fp \<noteq> 0"
          "res_bind (create_batches env now fp (fst (split_groups (unat (fec_group_size fp)) rs)) u)
            (\<lambda>(b, s). Inr (b, snd (split_groups (unat (fec_group_size fp)) rs), s)) = Inr (bs, rest, t)"
      using fb by (auto simp: first_batches_def split_beta dest!: res_bind_InrD split: if_splits)
    have "m_controller t = m_controller u"
      using r(2) create_batches_controller by (fastforce dest!: res_bind_InrD)
    then show ?thesis using GetFECParam_inv [OF u env cok] controller_ok_cong by blast
  qed
  obtain bs rest t where t: "(if rtx then Inr ([], rs, s) else first_batches env now rs left fid s) = Inr (bs, rest, t)"
    and r: "res_bind (last_batch env now rest left fid rtx t) (\<lambda>(batch, s).
     let to_send = bs @ batch
     in if to_send = [] then Inr s
        else
          let s = fold (\<lambda>r. on_heap r (vp_SetEnqueueTime now)) to_send s
          in if rtx then SendRtx now to_send s
             else res_bind (SendFrame env now to_send s) (\<lambda>s.
                  Inr (StorePackets (raw_tx (sn_raw env)) to_send s))) = Inr s'"
    using res_bind_InrD [OF run [unfolded SendPackets_def]] by auto
  have tok: "ctl_ok t" using t cok first by (cases rtx) auto
  obtain batch u where u: "last_batch env now rest left fid rtx t = Inr (batch, u)"
    and fin: "(let to_send = bs @ batch
     in if to_send = [] then Inr u
        else
          let s = fold (\<lambda>r. on_heap r (vp_SetEnqueueTime now)) to_send u
          in if rtx then SendRtx now to_send s
             else res_bind (SendFrame env now to_send s) (\<lambda>s.
                  Inr (StorePackets (raw_tx (sn_raw env)) to_send s))) = Inr s'"
    using res_bind_InrD [OF r] by auto
  have uok: "ctl_ok u"
  proof (cases "rest = []")
    case True
    then show ?thesis using u tok by (simp add: last_batch_def)
  next
    case False
    then obtain fp v where v: "GetFECParam env (of_nat (length rest)) left True rtx fid t = Inr (fp, v)"
      "(if rtx then CreateRTXPacketBatch env now rest fp v else CreateFirstPacketBatch env now rest fp v) = Inr (batch, u)"
      using u by (auto simp: last_batch_def dest!: res_bind_InrD)
    have "m_controller u = m_controller v" using v(2) keeps_controller(2,3) by (cases rtx) auto
    then show ?thesis using GetFECParam_inv [OF v(1) env tok] controller_ok_cong by blast
  qed
  let ?ts = "bs @ batch"
  let ?e = "fold (\<lambda>r. on_heap r (vp_SetEnqueueTime now)) ?ts u"
  consider "?ts = []" "s' = u" | "SendRtx now ?ts ?e = Inr s'"
    | v where "SendFrame env now ?ts ?e = Inr v" "s' = StorePackets (raw_tx (sn_raw env)) ?ts v"
    using fin by (cases "?ts = []"; cases rtx) (auto simp: Let_def simp del: append_is_Nil_conv fold_append dest!: res_bind_InrD)
  then have "m_controller s' = m_controller u"
    by cases (simp_all add: fold_controller send_frame_controller [THEN trans, OF _ fold_controller(1)] del: fold_append)
  then show ?thesis using uok controller_ok_cong by blast
qed

lemma retransmit_inv:
  assumes env: "sn_ops env = ops"
  shows "retransmit_expired env now infos dn s = Inr (infos', s') \<Longrightarrow> ctl_ok s \<Longrightarrow> ctl_ok s'"
proof (induction infos arbitrary: dn s infos')
  case (Cons info infos)
  have group: "ctl_ok t" if g: "RetransmitGroup env now gid s = Inr t" for gid t
  proof -
    have "ctl_ok (s\<lparr>heap := h\<rparr>)" for h using Cons.prems(2) by (simp add: controller_ok_def)
    then show ?thesis
      using g Cons.prems(2) SendPackets_inv [OF _ env]
      by (auto simp: RetransmitGroup_def Let_def dest!: res_bind_InrD split: option.splits list.splits)
  qed
  show ?case
    using Cons.prems group
    by (auto simp: Let_def dest!: res_bind_InrD split: option.splits if_splits intro: Cons.IH)
       (meson Cons.IH)+
qed simp

lemma step_inv:
  assumes "sender_step env s s'" "sn_ops env = ops" "ctl_ok s"
  shows "ctl_ok s'"
  using assms(1)
proof (cases rule: sender_step.cases)
  case (step_frame now fid pid mp n sz)
  have "ctl_ok (s\<lparr>heap := h, frame_data_pkt_cnt := c\<rparr>)" for h c
    using assms(3) by (simp add: controller_ok_def)
  then show ?thesis
    using step_frame SendPackets_inv [OF _ assms(2)]
    by (auto simp: CreateFrame_def Let_def dest!: ns_assert_InrD split: option.splits)
next
  case (step_send now)
  from SendPacket_controller [OF this] show ?thesis
  proof (elim disjE exE conjE)
    fix t z s0 s1
    assume "m_controller s0 = m_controller s" "tell_sent env t z s0 = Inr s1" "m_controller s' = m_controller s1"
    then show ?thesis using tell_sent_inv [OF _ assms(2)] assms(3) controller_ok_cong by blast
  qed (simp add: assms(3))
next
  case (step_check now)
  let ?p = "purge_missed (\<lambda>r. MissesDdl now (s_delay_ddl s) (heap s ! r)) (data_pkt_history_key s) (data_pkt_history s)"
  obtain infos t where t: "retransmit_expired env now (fst ?p) {} (s\<lparr>data_pkt_history := snd ?p\<rparr>) = Inr (infos, t)"
      "s' = emit [ScheduleCheck (check_rtx_interval t)] (t\<lparr>data_pkt_history_key := infos\<rparr>)"
    using step_check by (auto simp: CheckRetransmission_def Let_def split_beta dest!: res_bind_InrD)
  have "ctl_ok (s\<lparr>data_pkt_history := snd ?p\<rparr>)" using assms(3) by (simp add: controller_ok_def)
  then have "ctl_ok t" by (rule retransmit_inv [OF assms(2) t(1)])
  then show ?thesis unfolding t(2) by (simp add: controller_ok_def emit_def)
next
  case (step_recv now pkt)
  then show ?thesis using OnSocketRecv_inv [OF _ assms(2,3)] by blast
next
  case (step_trace rtt bw lr)
  have "ctl_ok (s\<lparr>m_netStat := st\<rparr>)" for st
    using assms(3) by (simp add: controller_ok_def)
  then show ?thesis
    using step_trace tell_loss_inv [OF _ assms(2)] by (auto simp: SetNetworkStatisticsBytrace_def)
next
  case step_rate
  then show ?thesis using UpdateBitrate_inv(1) [OF _ assms(2,3)] by blast
qed

lemma steps_inv:
  assumes "sender_steps env s s'" "sn_ops env = ops" "ctl_ok s"
  shows "ctl_ok s'"
  using assms(1,3)
proof (induction rule: sender_steps.induct)
  case (steps_trans s t u)
  then show ?case using step_inv [OF _ assms(2)] by blast
qed

text \<open>What the sender may tell the encoder after any run.\<close>

lemma rate_after_steps:
  assumes "sender_steps env s s'" "sn_ops env = ops" "ctl_ok s" "UpdateBitrate env s' = Inr s''" "m_cc_enable s'"
  shows "\<exists>r. lo \<le> r \<and> r \<le> hi \<and> to_word (sn_fl env (sn_fl env (17 / 20) * r)) = Inr (m_bitrate s'')"
  using UpdateBitrate_inv(2) [OF assms(4,2) steps_inv [OF assms(1-3)] assms(5)] .

end

section \<open>The two controllers\<close>

definition gcc_world_ok :: "libm \<Rightarrow> cc_world \<Rightarrow> bool" where
  "gcc_world_ok M = (\<lambda>(st, c). libm_ok M \<and> statics_ok st \<and>
     (case c of GccCc g \<Rightarrow> gcc_inv M g | NadaCc n \<Rightarrow> False))"

definition nada_world_ok :: "rat option \<Rightarrow> cc_world \<Rightarrow> bool" where
  "nada_world_ok bw = (\<lambda>(st, c). case c of GccCc g \<Rightarrow> False | NadaCc n \<Rightarrow> Nada_getBandwidth n = bw)"

lemma gcc_inv_base: "gcc_inv M (g\<lparr>g_base := b\<rparr>) = gcc_inv M g"
  by (simp add: gcc_inv_def)

lemma gcc_world_base: "gcc_world_ok M (st, with_base b c) = gcc_world_ok M (st, c)"
  by (cases c) (simp_all add: gcc_world_ok_def gcc_inv_base)

lemma nada_world_base: "nada_world_ok bw (st, with_base b c) = nada_world_ok bw (st, c)"
  by (cases c) (simp_all add: nada_world_ok_def Nada_getBandwidth_def)

lemma on_base_InrD: "on_base f (st, c) = Inr (x, w) \<Longrightarrow> \<exists>b. w = (st, with_base b c)"
  by (auto simp: on_base_def dest!: res_bind_InrD)

interpretation gcc_ctl: rate_controller "controller_ops M junk" "gcc_world_ok M" 500000 100000000 for M junk
proof
  fix c c' :: cc_world and t :: u64 and i :: u16 and z :: u32 and b
  assume "gcc_world_ok M c" "op_send (controller_ops M junk) t i z c = Inr (b, c')"
  then show "gcc_world_ok M c'"
    by (cases c) (auto simp: controller_ops_def gcc_world_base dest!: on_base_InrD)
next
  fix c c' :: cc_world and t i rx ia idep idv sz arr b
  assume ok: "gcc_world_ok M c"
    and run: "op_feedback (controller_ops M junk) t i rx ia idep idv sz arr c = Inr (b, c')"
  obtain st g where c: "c = (st, GccCc g)" "libm_ok M" "statics_ok st" "gcc_inv M g"
    using ok by (cases c) (auto simp: gcc_world_ok_def split: cc.splits)
  obtain st' g' where "Gcc_processFeedback M (t div 1000) junk t i rx (sint ia) idep (sint sz) (sint arr) (st, g)
      = Inr (b, st', g')" "c' = (st', GccCc g')"
    using run by (auto simp: controller_ops_def c dest!: res_bind_InrD)
  then show "gcc_world_ok M c'"
    using gcc_feedback_keeps [OF c(2,4,3)] c(2) by (auto simp: gcc_world_ok_def)
next
  fix c c' :: cc_world and tar
  assume "gcc_world_ok M c" "op_prune (controller_ops M junk) tar c = Inr c'"
  then show "gcc_world_ok M c'"
    by (cases c) (auto simp: controller_ops_def gcc_world_base dest!: res_bind_InrD on_base_InrD)
next
  fix c :: cc_world and q
  assume "gcc_world_ok M c"
  then show "gcc_world_ok M (op_loss (controller_ops M junk) q c)"
    by (cases c) (simp add: controller_ops_def gcc_world_base)
next
  fix c c' :: cc_world and r
  assume ok: "gcc_world_ok M c" and run: "op_bps (controller_ops M junk) c = Inr (r, c')"
  obtain st g where c: "c = (st, GccCc g)" "gcc_inv M g"
    using ok by (cases c) (auto simp: gcc_world_ok_def split: cc.splits)
  have u: "500000 \<le> uint (current_bitrate_bps (g_rate g))" "uint (current_bitrate_bps (g_rate g)) \<le> 100000000"
    using c(2) unat_uint_le [of "current_bitrate_bps (g_rate g)" 100000000]
    by (simp_all add: gcc_inv_def aimd_ok_def word_le_def)
  then have "(of_int 500000 :: rat) \<le> of_int (uint (current_bitrate_bps (g_rate g)))"
    "(of_int (uint (current_bitrate_bps (g_rate g))) :: rat) \<le> of_int 100000000"
    by (simp_all only: of_int_le_iff)
  then show "gcc_world_ok M c' \<and> 500000 \<le> r \<and> r \<le> 100000000"
    using run ok by (auto simp: controller_ops_def c(1) Gcc_getSendBps_def)
qed

interpretation nada_ctl: rate_controller "controller_ops M junk" "nada_world_ok bw" 0 0 for M junk bw
proof
  fix c c' :: cc_world and t :: u64 and i :: u16 and z :: u32 and b
  assume "nada_world_ok bw c" "op_send (controller_ops M junk) t i z c = Inr (b, c')"
  then show "nada_world_ok bw c'"
    by (cases c) (auto simp: controller_ops_def nada_world_base dest!: on_base_InrD)
next
  fix c c' :: cc_world and t i rx ia idep idv sz arr b
  assume ok: "nada_world_ok bw c"
    and run: "op_feedback (controller_ops M junk) t i rx ia idep idv sz arr c = Inr (b, c')"
  obtain st n where c: "c = (st, NadaCc n)" using ok by (cases c) (auto simp: nada_world_ok_def split: cc.splits)
  then have "\<exists>b. c' = (st, with_base b (NadaCc n))"
    using run by (auto simp: controller_ops_def dest!: on_base_InrD)
  then show "nada_world_ok bw c'" using ok nada_world_base unfolding c by blast
next
  fix c c' :: cc_world and tar
  assume "nada_world_ok bw c" "op_prune (controller_ops M junk) tar c = Inr c'"
  then show "nada_world_ok bw c'"
    by (cases c) (auto simp: controller_ops_def nada_world_base dest!: res_bind_InrD on_base_InrD)
next
  fix c :: cc_world and q
  assume "nada_world_ok bw c"
  then show "nada_world_ok bw (op_loss (controller_ops M junk) q c)"
    by (cases c) (simp add: controller_ops_def nada_world_base)
next
  fix c c' :: cc_world and r
  assume ok: "nada_world_ok bw c" and run: "op_bps (controller_ops M junk) c = Inr (r, c')"
  obtain st n where c: "c = (st, NadaCc n)" using ok by (cases c) (auto simp: nada_world_ok_def split: cc.splits)
  then show "nada_world_ok bw c' \<and> 0 \<le> r \<and> r \<le> 0"
    using run ok by (auto simp: controller_ops_def Nada_getSendBps_def)
qed

section \<open>Properties\<close>

lemma share_bounds:
  assumes f: "float_ok f" and r: "500000 \<le> r" "r \<le> 100000000"
    and w: "to_word (f (f (17 / 20) * r)) = Inr (w :: u32)"
  shows "421875 \<le> uint w \<and> uint w \<le> 85937504"
proof -
  have s1: "27 / 32 \<le> f (17 / 20)" using float_ge_frac [OF f, of 27 5 "17 / 20"] by simp
  have s2: "f (17 / 20) \<le> 55 / 64" using float_le_frac [OF f, of "17 / 20" 55 6] by simp
  have "27 / 32 * 500000 \<le> f (17 / 20) * r" using s1 r by (intro mult_mono) auto
  then have lo: "421875 \<le> f (f (17 / 20) * r)" using float_ge_frac [OF f, of 421875 0] by simp
  have "f (17 / 20) * r \<le> 55 / 64 * 100000000" using s1 s2 r by (intro mult_mono) auto
  then have "f (17 / 20) * r \<le> of_int 5371094 * 2 ^ 4" by simp
  then have hi: "f (f (17 / 20) * r) \<le> 85937504" using float_le [OF f, of "f (17 / 20) * r" 5371094 4] by simp
  have "uint w = \<lfloor>f (f (17 / 20) * r)\<rfloor>" using to_word_InrD [OF w] lo by (simp add: trunc_def)
  then show ?thesis using lo hi by (simp add: le_floor_iff floor_le_iff)
qed

lemma nothing_to_share: "float_ok f \<Longrightarrow> 0 \<le> r \<Longrightarrow> r \<le> 0 \<Longrightarrow> to_word (f (f (17 / 20) * r)) = Inr (w :: u32) \<Longrightarrow> w = 0"
  using to_word_InrD [of "f (f (17 / 20) * r)" w] float_int [of f 0] by (simp add: trunc_def uint_0_iff)

lemma controller_set: "controller_ok ok (s\<lparr>m_controller := Some c\<rparr>) = ok c"
  by (simp add: controller_ok_def)

text \<open>C28: a sender whose controller is Google congestion control tells the encoder, whatever happened
  before, the bitrate that is 85 percent of the controller's rate: between 421875 and 85937504
  bit/s.\<close>

theorem gcc_sender_bitrate:
  assumes "libm_ok M" "float_ok (sn_fl env)" and env: "sn_ops env = controller_ops M junk"
    and set: "SetController ''Gcc'' (None, GccCc (GccController_new M this port raw)) nada s0 = Inr s"
    and run: "sender_steps env s s'" "UpdateBitrate env s' = Inr s''" "m_cc_enable s'"
  shows "421875 \<le> uint (m_bitrate s'') \<and> uint (m_bitrate s'') \<le> 85937504"
proof -
  have "gcc_world_ok M (None, GccCc (GccController_new M this port raw))"
    using assms(1) gcc_inv_new by (simp add: gcc_world_ok_def statics_ok_None)
  then have ok: "controller_ok (gcc_world_ok M) s"
    using set by (auto simp: SetController_def controller_set)
  show ?thesis using gcc_ctl.rate_after_steps [OF run(1) env ok run(2,3)] share_bounds [OF assms(2)] by blast
qed

theorem gcc_sender_bitrate_witness:
  "\<forall>raw_stat raw env nada. \<exists>s s''. PacketSenderUdp_new id (\<lambda>i. even i) (MilliSeconds 100) 16 raw_stat raw = Inr s \<and>
     UpdateBitrate (env\<lparr>sn_fl := (\<lambda>x. x), sn_ops := controller_ops plain_libm 0\<rparr>)
       (s\<lparr>m_controller := Some (None, GccCc (GccController_new plain_libm ''cc'' 80 example_loss))\<rparr>) = Inr s'' \<and>
     421875 \<le> uint (m_bitrate s'')"
proof (intro allI)
  fix raw_stat and raw :: "('a, cc_world) sender" and env :: "('a, cc_world) sender_env" and nada :: cc_world
  obtain s where s: "PacketSenderUdp_new id (\<lambda>i. even i) (MilliSeconds 100) 16 raw_stat raw = Inr s"
    by (cases "PacketSenderUdp_new id (\<lambda>i. even i) (MilliSeconds 100) 16 raw_stat raw")
      (simp_all add: PacketSenderUdp_new_def SetNetworkStatistics_def loss_seq_bound_def to_word_def trunc_def Let_def)
  let ?env = "env\<lparr>sn_fl := (\<lambda>x. x), sn_ops := controller_ops plain_libm 0\<rparr>"
  let ?gcc = "(None, GccCc (GccController_new plain_libm ''cc'' 80 example_loss)) :: cc_world"
  let ?s = "s\<lparr>m_controller := Some ?gcc\<rparr>"
  have set: "SetController ''Gcc'' ?gcc nada s = Inr ?s" by (simp add: SetController_def)
  have fresh: "m_cc_enable ?s" "\<not> m_cc_timer ?s"
    using s by (auto simp: PacketSenderUdp_new_def dest!: res_bind_InrD)
  obtain s'' where up: "UpdateBitrate ?env ?s = Inr s''"
    using fresh by (simp add: UpdateBitrate_def UpdateSendingRate_def controller_ops_def timer_schedule_def
        Gcc_getSendBps_def GccController_new_def aimd_new_def to_word_def trunc_def)
  have "libm_ok plain_libm" "float_ok (sn_fl ?env)" "sn_ops ?env = controller_ops plain_libm 0"
    using plain_libm_ok by (simp_all add: float_ok_def rounding_ok_id)
  from gcc_sender_bitrate [OF this set steps_refl up fresh(1)] s up
  show "\<exists>s s''. PacketSenderUdp_new id (\<lambda>i. even i) (MilliSeconds 100) 16 raw_stat raw = Inr s \<and>
     UpdateBitrate ?env (s\<lparr>m_controller := Some ?gcc\<rparr>) = Inr s'' \<and> 421875 \<le> uint (m_bitrate s'')" by blast
qed

text \<open>A sender whose controller is NADA tells the encoder a bitrate of zero at every update, and
  the rate NADA keeps never leaves its initial value: neither reaches the other.\<close>

theorem nada_sends_nothing:
  assumes "float_ok (sn_fl env)" and env: "sn_ops env = controller_ops M junk"
    and set: "SetController ''Nada'' gcc (st, NadaCc (NadaController_new this)) s0 = Inr s"
    and run: "sender_steps env s s'" "UpdateBitrate env s' = Inr s''" "m_cc_enable s'"
  shows "m_bitrate s'' = 0 \<and>
    (\<exists>st' n. m_controller s'' = Some (st', NadaCc n) \<and> Nada_getBandwidth n = Some 150000)"
proof -
  have "nada_world_ok (Some 150000) (st, NadaCc (NadaController_new this))"
    by (simp add: nada_world_ok_def Nada_getBandwidth_def NadaController_new_def SenderBasedController_new_def
        Let_def RMCAT_CC_DEFAULT_RINIT_def)
  then have ok: "controller_ok (nada_world_ok (Some 150000)) s"
    using set by (auto simp: SetController_def controller_set)
  have "controller_ok (nada_world_ok (Some 150000)) s''"
    using nada_ctl.steps_inv [OF run(1) env ok] nada_ctl.UpdateBitrate_inv(1) [OF run(2) env] by blast
  moreover have "m_controller s'' \<noteq> None"
    using run(2,3) by (auto simp: UpdateBitrate_def UpdateSendingRate_def emit_def dest!: res_bind_InrD split: option.splits)
  ultimately have "\<exists>st' n. m_controller s'' = Some (st', NadaCc n) \<and> Nada_getBandwidth n = Some 150000"
    by (cases "m_controller s''") (auto simp: controller_ok_def nada_world_ok_def split: cc.splits)
  moreover have "m_bitrate s'' = 0"
    using nada_ctl.rate_after_steps [OF run(1) env ok run(2,3)] nothing_to_share [OF assms(1)] by blast
  ultimately show ?thesis by blast
qed

theorem nada_sends_nothing_witness:
  "\<forall>raw_stat raw env gcc. \<exists>s s''. PacketSenderUdp_new id (\<lambda>i. even i) (MilliSeconds 100) 16 raw_stat raw = Inr s \<and>
     UpdateBitrate (env\<lparr>sn_fl := (\<lambda>x. x), sn_ops := controller_ops plain_libm 0\<rparr>)
       (s\<lparr>m_controller := Some (None, NadaCc (NadaController_new ''cc''))\<rparr>) = Inr s'' \<and> m_bitrate s'' = 0"
proof (intro allI)
  fix raw_stat and raw :: "('a, cc_world) sender" and env :: "('a, cc_world) sender_env" and gcc :: cc_world
  obtain s where s: "PacketSenderUdp_new id (\<lambda>i. even i) (MilliSeconds 100) 16 raw_stat raw = Inr s"
    by (cases "PacketSenderUdp_new id (\<lambda>i. even i) (MilliSeconds 100) 16 raw_stat raw")
      (simp_all add: PacketSenderUdp_new_def SetNetworkStatistics_def loss_seq_bound_def to_word_def trunc_def Let_def)
  let ?env = "env\<lparr>sn_fl := (\<lambda>x. x), sn_ops := controller_ops plain_libm 0\<rparr>"
  let ?nada = "(None, NadaCc (NadaController_new ''cc'')) :: cc_world"
  let ?s = "s\<lparr>m_controller := Some ?nada\<rparr>"
  have set: "SetController ''Nada'' gcc ?nada s = Inr ?s" by (simp add: SetController_def)
  have fresh: "m_cc_enable ?s" "\<not> m_cc_timer ?s"
    using s by (auto simp: PacketSenderUdp_new_def dest!: res_bind_InrD)
  obtain s'' where up: "UpdateBitrate ?env ?s = Inr s''"
    using fresh by (simp add: UpdateBitrate_def UpdateSendingRate_def controller_ops_def timer_schedule_def
        Nada_getSendBps_def to_word_def trunc_def)
  have "float_ok (sn_fl ?env)" "sn_ops ?env = controller_ops plain_libm 0"
    by (simp_all add: float_ok_def rounding_ok_id)
  from nada_sends_nothing [OF this set steps_refl up fresh(1)] s up
  show "\<exists>s s''. PacketSenderUdp_new id (\<lambda>i. even i) (MilliSeconds 100) 16 raw_stat raw = Inr s \<and>
     UpdateBitrate ?env (s\<lparr>m_controller := Some ?nada\<rparr>) = Inr s'' \<and> m_bitrate s'' = 0" by blast
qed

end
