(* ===== verification/Fec_Policy.thy ===== *)
theory Fec_Policy
  imports Sender_Window Fec_Table
begin

text \<open>
  \<open>fec-policy/\<close>: how many FEC packets a group gets. The lookups of \<open>fec-array.cc\<close> and
  \<open>webrtc-fec-array.cc\<close>, and \<open>GetFECParam\<close> of the five policies. The two
  arrays of \<open>fec-array.h\<close>, a file that the repository leaves out, are arguments.
\<close>

section \<open>Lookups\<close>

definition clamp_range :: "'a::linorder \<Rightarrow> 'a \<Rightarrow> 'a \<Rightarrow> 'a" where
  "clamp_range lo hi x = (if x < lo then lo else if hi < x then hi else x)"

text \<open>\<open>(uint8_t) round ((x - start) / interval)\<close>.\<close>

definition grid_index :: "rounding \<Rightarrow> rat \<Rightarrow> rat \<Rightarrow> rat \<Rightarrow> u8 res" where
  "grid_index f x start interval = to_word (of_int (round_away (f (f (x - start) / interval))))"

definition array_at :: "'a list \<Rightarrow> nat \<Rightarrow> 'a res" where
  "array_at xs i = (if i < length xs then Inr (xs ! i) else Inl UndefinedBehaviour)"

definition get_fec_count :: "rounding \<Rightarrow> u8 list \<Rightarrow> rat \<Rightarrow> u8 \<Rightarrow> u16 \<Rightarrow> u16 \<Rightarrow> u8 \<Rightarrow> u8 res" where
  "get_fec_count f beta_array loss frame_size remaining_time rtt packet =
     res_bind (grid_index f (clamp_range 0 (1 / 2) loss) 0 (f (1 / 100))) (\<lambda>loss_index.
     let frame_size = clamp_range 5 55 frame_size
     in res_bind (to_word (of_int \<lceil>f (f (of_int (uint frame_size) - 5) / 5)\<rceil>)) (\<lambda>frame_size_index :: u8.
     if rtt = 0 then Inl UndefinedBehaviour
     else
       let layer = clamp_range 1 15 (ucast (remaining_time div rtt) :: u8)
       in res_bind (grid_index f (of_int (uint layer)) 1 1) (\<lambda>layer_index.
          res_bind (grid_index f (of_int (uint (clamp_range 1 55 packet))) 1 1) (\<lambda>packet_index.
          array_at beta_array (unat loss_index * 9075 + unat frame_size_index * 825 +
            unat layer_index * 55 + unat packet_index)))))"

definition get_block_size :: "rounding \<Rightarrow> u8 list \<Rightarrow> rat \<Rightarrow> u8 \<Rightarrow> u16 \<Rightarrow> u16 \<Rightarrow> rat \<Rightarrow> u8 res" where
  "get_block_size f block_array loss frame_size ddl rtt rdisp =
     res_bind (grid_index f (clamp_range 0 (1 / 2) loss) 0 (f (1 / 100))) (\<lambda>loss_index.
     let frame_size = clamp_range 5 55 frame_size
     in res_bind (to_word (of_int \<lceil>f (f (of_int (uint frame_size) - 5) / 5)\<rceil>)) (\<lambda>frame_size_index :: u8.
     res_bind (grid_index f (of_int (uint (clamp_range 20 140 ddl))) 20 20) (\<lambda>ddl_index.
     res_bind (grid_index f (of_int (uint (clamp_range 10 80 rtt))) 10 2) (\<lambda>rtt_index.
     res_bind (grid_index f (clamp_range 0 1 rdisp) 0 (f (1 / 50))) (\<lambda>rdisp_index.
     array_at block_array (unat loss_index * 141372 + unat frame_size_index * 12852 +
       unat ddl_index * 1836 + unat rtt_index * 51 + unat rdisp_index))))))"

text \<open>\<open>round (((double_t) group_size - 5) / 5) * 5 + 5\<close>, converted back to \<open>uint8_t\<close>.\<close>

definition grid_group_size :: "rounding \<Rightarrow> u8 \<Rightarrow> u8 res" where
  "grid_group_size f group_size =
     to_word (f (f (of_int (round_away (f (f (of_int (uint (clamp_range 5 55 group_size)) - 5) / 5))) * 5) + 5))"

definition get_fec_rate_webrtc :: "rounding \<Rightarrow> rat \<Rightarrow> u8 \<Rightarrow> u16 \<Rightarrow> rat res" where
  "get_fec_rate_webrtc f loss group_size bitrate =
     res_bind (grid_index f (clamp_range 0 (1 / 2) loss) 0 (f (1 / 100))) (\<lambda>loss_index.
     res_bind (grid_group_size f group_size) (\<lambda>group_size.
     res_bind (grid_index f (of_int (uint group_size)) 5 5) (\<lambda>group_size_index.
     res_bind (grid_index f (of_int (uint (clamp_range 2 30 bitrate))) 2 1) (\<lambda>bitrate_index.
     res_bind (array_at fec_array_webrtc (unat loss_index * 319 + unat group_size_index * 29 + unat bitrate_index))
       (\<lambda>n. Inr (f (of_int n / of_int (uint group_size))))))))"

section \<open>Policies\<close>

text \<open>The classes derived from \<open>FECPolicy\<close>, with their members. A class built without a fixed loss rate leaves
  those members unset.\<close>

datatype policy =
    FECOnlyPolicy
  | RTXOnlyPolicy
  | WebRTCPolicy bool rat
  | WebRTCStarPolicy bool rat rat int
  | HairpinPolicy u16 rat

text \<open>A quotient of doubles; \<open>None\<close> is infinite or not a number.\<close>

definition dbl_quot :: "rounding \<Rightarrow> rat \<Rightarrow> rat \<Rightarrow> rat option" where
  "dbl_quot f x y = (if y = 0 then None else Some (f (x / y)))"

definition MIN1 :: "rat \<Rightarrow> rat" where
  "MIN1 r = (if r < 1 then r else 1)"

definition FECOnly_GetFECParam :: "libm \<Rightarrow> u8 list \<Rightarrow> NetStat \<Rightarrow> u16 \<Rightarrow> bool \<Rightarrow> u8 \<Rightarrow> u16 \<Rightarrow> FECParam res" where
  "FECOnly_GetFECParam M beta_array st ddl_left is_rtx frame_size max_group_size =
     res_bind (if is_rtx then Inr 0
        else res_bind (get_fec_count (lm_fd M) beta_array (current_loss_rate st) frame_size ddl_left ddl_left
                         (ucast max_group_size)) (\<lambda>c. ns_assert (c \<noteq> 255) (Inr c)))
       (\<lambda>fec_count :: u8.
     Inr \<lparr>fec_group_size = max_group_size,
          fec_rate = dbl_quot (lm_fd M) (of_int (uint fec_count)) (of_int (uint max_group_size))\<rparr>)"

definition RTXOnly_GetFECParam :: "u16 \<Rightarrow> FECParam res" where
  "RTXOnly_GetFECParam max_group_size = Inr \<lparr>fec_group_size = max_group_size, fec_rate = Some 0\<rparr>"

definition bitrate_mbps :: "libm \<Rightarrow> u32 \<Rightarrow> u16 res" where
  "bitrate_mbps M bitrate = to_word (lm_fd M (of_int (uint bitrate) / 1000))"

definition WebRTC_GetFECParam :: "libm \<Rightarrow> bool \<Rightarrow> rat \<Rightarrow> NetStat \<Rightarrow> u32 \<Rightarrow> bool \<Rightarrow> u16 \<Rightarrow> FECParam res" where
  "WebRTC_GetFECParam M fixed loss_rate st bitrate is_rtx max_group_size =
     (if is_rtx then Inr \<lparr>fec_group_size = max_group_size, fec_rate = Some (MIN1 0)\<rparr>
      else
        let loss = (if fixed then loss_rate else current_loss_rate st);
            group = (if max_group_size > 48 then 48 else max_group_size)
        in res_bind (bitrate_mbps M bitrate) (\<lambda>mbps.
           res_bind (get_fec_rate_webrtc (lm_fd M) loss (ucast group) mbps) (\<lambda>r.
           Inr \<lparr>fec_group_size = group, fec_rate = Some (MIN1 r)\<rparr>)))"

text \<open>The multipliers of \<open>WebRTCStarPolicy\<close>. A comparison with NaN is false.\<close>

definition LinearFECRate :: "libm \<Rightarrow> rat \<Rightarrow> u16 \<Rightarrow> u16 \<Rightarrow> rat option" where
  "LinearFECRate M beta ddl_left rtt =
     (case dbl_quot (lm_fd M) (of_int (uint rtt)) (of_int (uint ddl_left)) of
        None \<Rightarrow> Some 1
      | Some q \<Rightarrow> let b = lm_fd M (lm_fd M (2 * beta) * q) in Some (if b < 1 then b else 1))"

definition QuadraticFECRate :: "libm \<Rightarrow> rat \<Rightarrow> u16 \<Rightarrow> u16 \<Rightarrow> rat option" where
  "QuadraticFECRate M beta ddl_left rtt =
     (case dbl_quot (lm_fd M) (of_int (uint rtt)) (of_int (uint ddl_left)) of
        None \<Rightarrow> None
      | Some q \<Rightarrow> Some (lm_fd M (lm_fd M (lm_fd M (4 * beta) * q) * q)))"

definition SqrtFECRate :: "libm \<Rightarrow> rat \<Rightarrow> u16 \<Rightarrow> u16 \<Rightarrow> rat option" where
  "SqrtFECRate M beta ddl_left rtt =
     (case dbl_quot (lm_fd M) (of_int (uint rtt)) (of_int (uint ddl_left)) of
        None \<Rightarrow> None
      | Some q \<Rightarrow> Some (lm_fd M (beta * lm_fd M (lm_sqrt M (lm_fd M (2 * q))))))"

definition WebRTCStar_GetFECParam :: "libm \<Rightarrow> bool \<Rightarrow> rat \<Rightarrow> rat \<Rightarrow> int \<Rightarrow> NetStat \<Rightarrow> u32 \<Rightarrow> u16 \<Rightarrow> u16 \<Rightarrow> FECParam res" where
  "WebRTCStar_GetFECParam M fixed loss_rate fixed_rtt order st bitrate ddl_left max_group_size =
     (let loss = (if fixed then loss_rate else current_loss_rate st);
          group = (if max_group_size > 48 then 48 else max_group_size)
      in res_bind (if fixed then to_word fixed_rtt else Inr (word_of_int (GetMilliSeconds (current_rtt st)))) (\<lambda>rtt.
         res_bind (bitrate_mbps M bitrate) (\<lambda>mbps.
         res_bind (get_fec_rate_webrtc (lm_fd M) loss (ucast group) mbps) (\<lambda>r.
         let fec = MIN1 r
         in Inr \<lparr>fec_group_size = group,
              fec_rate = (if order = 1 then LinearFECRate M fec ddl_left rtt
                          else if order = 2 then QuadraticFECRate M fec ddl_left rtt
                          else if order = 0 then SqrtFECRate M fec ddl_left rtt
                          else Some fec)\<rparr>))))"

text \<open>The optimisation of the block size is switched off by a constant, so \<open>get_block_size\<close> is never called.\<close>

definition Hairpin_GetFECParam :: "libm \<Rightarrow> u8 list \<Rightarrow> NetStat \<Rightarrow> u16 \<Rightarrow> u8 \<Rightarrow> u16 \<Rightarrow> FECParam res" where
  "Hairpin_GetFECParam M beta_array st ddl_left frame_size max_group_size =
     res_bind (to_word (of_int \<lceil>lm_fd M (dbl64 M (GetMicroSeconds (srtt st)) / 1000)\<rceil>)) (\<lambda>rtt.
     let block_size = ucast max_group_size :: u8
     in res_bind (get_fec_count (lm_fd M) beta_array (current_loss_rate st) frame_size ddl_left rtt block_size)
          (\<lambda>fec_count.
        ns_assert (fec_count \<noteq> 255)
          (Inr \<lparr>fec_group_size = ucast block_size,
                fec_rate = dbl_quot (lm_fd M) (of_int (uint fec_count)) (of_int (uint block_size))\<rparr>)))"

text \<open>The virtual call of the sender.\<close>

definition policy_GetFECParam :: "libm \<Rightarrow> u8 list \<Rightarrow> policy \<Rightarrow> NetStat \<Rightarrow> u32 \<Rightarrow> u16 \<Rightarrow> u16 \<Rightarrow> bool \<Rightarrow> u8 \<Rightarrow>
    u16 \<Rightarrow> bool \<Rightarrow> FECParam res" where
  "policy_GetFECParam M beta_array p st bitrate ddl ddl_left is_rtx frame_size max_group_size fix_group_size =
     (case p of
        FECOnlyPolicy \<Rightarrow> FECOnly_GetFECParam M beta_array st ddl_left is_rtx frame_size max_group_size
      | RTXOnlyPolicy \<Rightarrow> RTXOnly_GetFECParam max_group_size
      | WebRTCPolicy fixed loss \<Rightarrow> WebRTC_GetFECParam M fixed loss st bitrate is_rtx max_group_size
      | WebRTCStarPolicy fixed loss rtt order \<Rightarrow>
          WebRTCStar_GetFECParam M fixed loss rtt order st bitrate ddl_left max_group_size
      | HairpinPolicy delay_ddl qoe_coeff \<Rightarrow>
          Hairpin_GetFECParam M beta_array st ddl_left frame_size max_group_size)"

definition SetOrder :: "int \<Rightarrow> policy \<Rightarrow> policy" where
  "SetOrder order p = (case p of WebRTCStarPolicy fixed loss rtt _ \<Rightarrow> WebRTCStarPolicy fixed loss rtt order | _ \<Rightarrow> p)"

section \<open>The lookups stay in their arrays\<close>

definition double_ok :: "rounding \<Rightarrow> bool" where
  "double_ok f \<longleftrightarrow> rounding_ok f \<and> float_ok f"

lemma double_ok_id: "double_ok (\<lambda>x. x)"
  by (simp add: double_ok_def rounding_ok_id float_ok_def)

lemma round_away_range: "0 \<le> x \<Longrightarrow> x < of_int n + 1 / 2 \<Longrightarrow> 0 \<le> round_away x \<and> round_away x \<le> n"
  by (simp add: round_away_def floor_le_iff)

lemma round_away_int: "0 \<le> n \<Longrightarrow> round_away (of_int n) = n"
  by (simp add: round_away_def floor_eq_iff)

lemma to_u8: "0 \<le> n \<Longrightarrow> n < 256 \<Longrightarrow> to_word (of_int n) = Inr (word_of_int n :: u8)"
  "0 \<le> n \<Longrightarrow> n < 256 \<Longrightarrow> uint (word_of_int n :: u8) = n"
  by (simp_all add: to_word_def trunc_def uint_word_of_int_eq take_bit_int_eq_self)

lemma to_u8_le: "0 \<le> n \<Longrightarrow> n \<le> m \<Longrightarrow> m < 256 \<Longrightarrow> \<exists>i :: u8. to_word (of_int n) = Inr i \<and> uint i \<le> m"
  by (simp add: to_u8)

lemma clamp_range_in: "lo \<le> hi \<Longrightarrow> lo \<le> clamp_range lo hi x \<and> clamp_range lo hi x \<le> hi"
  by (auto simp: clamp_range_def)

lemma hundredths_range:
  assumes fl: "float_ok f" and x: "0 \<le> f x" "f x \<le> m" and c: "m \<le> 403 / 8 * f c" "0 < f c"
  shows "\<exists>l. grid_index f x 0 (f c) = Inr l \<and> uint l \<le> 50"
proof -
  have q: "0 \<le> f x / f c" "f x / f c \<le> 403 / 8"
    using x c by (simp_all add: divide_le_eq)
  have "0 \<le> f (f x / f c)" "f (f x / f c) \<le> 403 / 8"
    using float_nonneg [OF fl q(1)] float_le_frac [OF fl, of "f x / f c" 403 3] q(2) by simp_all
  then have "0 \<le> round_away (f (f x / f c)) \<and> round_away (f (f x / f c)) \<le> 50"
    by (intro round_away_range) simp_all
  then show ?thesis unfolding grid_index_def by (intro to_u8_le) simp_all
qed

lemma loss_index_range:
  assumes f: "double_ok f"
  shows "\<exists>l. grid_index f (clamp_range 0 (1 / 2) loss) 0 (f (1 / 100)) = Inr l \<and> uint l \<le> 50"
proof (rule hundredths_range)
  show fl: "float_ok f" using f by (simp add: double_ok_def)
  let ?x = "clamp_range 0 (1 / 2) loss"
  show "0 \<le> f ?x" "f ?x \<le> 1 / 2"
    using clamp_range_in [of 0 "1 / 2" loss] float_nonneg [OF fl] float_le_frac [OF fl, of ?x 1 1] by simp_all
  have "10737418 / 1073741824 \<le> f (1 / 100)" using float_ge_frac [OF fl, of 10737418 30 "1 / 100"] by simp
  then show "1 / 2 \<le> 403 / 8 * f (1 / 100)" "0 < f (1 / 100)" by simp_all
qed

lemma disp_index_range:
  assumes f: "double_ok f"
  shows "\<exists>l. grid_index f (clamp_range 0 1 x) 0 (f (1 / 50)) = Inr l \<and> uint l \<le> 50"
proof (rule hundredths_range)
  show fl: "float_ok f" using f by (simp add: double_ok_def)
  let ?x = "clamp_range 0 1 x"
  show "0 \<le> f ?x" "f ?x \<le> 1"
    using clamp_range_in [of 0 1 x] float_nonneg [OF fl] float_le_frac [OF fl, of ?x 1 0] by simp_all
  have "10737418 / 536870912 \<le> f (1 / 50)" using float_ge_frac [OF fl, of 10737418 29 "1 / 50"] by simp
  then show "1 \<le> 403 / 8 * f (1 / 50)" "0 < f (1 / 50)" by simp_all
qed

lemma grid_index_int:
  assumes f: "double_ok f" and s: "0 < s" and x: "a \<le> x" "x - a \<le> n * s" "x - a \<le> 1000" and n: "n < 256"
  shows "\<exists>i. grid_index f (of_int x) (of_int a) (of_int s) = Inr i \<and> uint i \<le> n"
proof -
  have r: "rounding_ok f" using f by (simp add: double_ok_def)
  have n0: "0 \<le> n"
  proof (rule ccontr)
    assume "\<not> 0 \<le> n"
    then have "n * s < 0" using s by (simp add: mult_neg_pos)
    then show False using x by simp
  qed
  have e: "f (of_int x - of_int a) = of_int (x - a)"
    using rounding_int [OF r, of "x - a"] x by simp
  have "(of_int (x - a) :: rat) \<le> of_int (n * s)" using x(2) by (simp only: of_int_le_iff)
  then have "(of_int (x - a) / of_int s :: rat) \<le> of_int n"
    using s by (simp add: divide_le_eq)
  then have "f (of_int (x - a) / of_int s) \<le> of_int n"
    using rounding_mono [OF r, of "of_int (x - a) / of_int s" "of_int n"] rounding_int [OF r, of n] n n0 by simp
  moreover have "0 \<le> f (of_int (x - a) / of_int s)" using x(1) s by (intro rounding_nonneg [OF r]) simp
  ultimately have "0 \<le> round_away (f (of_int (x - a) / of_int s)) \<and> round_away (f (of_int (x - a) / of_int s)) \<le> n"
    by (intro round_away_range) simp_all
  then show ?thesis using n by (simp add: grid_index_def e to_u8)
qed

lemma clamped_word:
  fixes x :: "'a::len word"
  assumes "lo \<le> hi"
  shows "uint lo \<le> uint (clamp_range lo hi x) \<and> uint (clamp_range lo hi x) \<le> uint hi"
  using clamp_range_in [OF assms, of x] by (simp add: word_le_def)

lemma frame_size_index_range:
  assumes f: "double_ok f"
  shows "\<exists>i :: u8. to_word (of_int \<lceil>f (f (of_int (uint (clamp_range 5 55 (x :: u8))) - 5) / 5)\<rceil>) = Inr i \<and> uint i \<le> 10"
proof -
  have r: "rounding_ok f" using f by (simp add: double_ok_def)
  let ?n = "uint (clamp_range 5 55 x)"
  have n: "5 \<le> ?n" "?n \<le> 55" using clamped_word [of 5 55 x] by simp_all
  have e: "f (of_int ?n - 5) = of_int (?n - 5)" using rounding_int [OF r, of "?n - 5"] n by simp
  have "(of_int (?n - 5) :: rat) \<le> of_int 50" "(0 :: rat) \<le> of_int (?n - 5)"
    using n by (simp_all only: of_int_le_iff of_int_0_le_iff)
  then have "0 \<le> f (of_int (?n - 5) / 5)" "f (of_int (?n - 5) / 5) \<le> 10"
    using rounding_nonneg [OF r, of "of_int (?n - 5) / 5"] rounding_mono [OF r, of "of_int (?n - 5) / 5" 10]
      rounding_int [OF r, of 10] by simp_all
  then have "0 \<le> \<lceil>f (of_int (?n - 5) / 5)\<rceil>" "\<lceil>f (of_int (?n - 5) / 5)\<rceil> \<le> 10"
    by (simp_all add: ceiling_le_iff le_ceiling_iff)
  then show ?thesis unfolding e by (intro to_u8_le) simp_all
qed

text \<open>The index of the last element of each array is the largest that the lookups can form.\<close>

lemma array_at_run: "i < length xs \<Longrightarrow> \<exists>x\<in>set xs. array_at xs i = Inr x"
  by (auto simp: array_at_def)

lemma unat_le_uint: "unat (w :: 'a::len word) \<le> n \<longleftrightarrow> uint w \<le> int n"
  unfolding unat_eq_nat_uint by (rule nat_le_iff)

lemma layer_index_range:
  assumes f: "double_ok f"
  shows "\<exists>i. grid_index f (of_int (uint (clamp_range 1 15 (x :: u8)))) 1 1 = Inr i \<and> uint i \<le> 14"
    and "\<exists>i. grid_index f (of_int (uint (clamp_range 1 55 (x :: u8)))) 1 1 = Inr i \<and> uint i \<le> 54"
proof -
  have "1 \<le> uint (clamp_range 1 15 x)" "uint (clamp_range 1 15 x) \<le> 15"
    using clamped_word [of 1 15 x] by simp_all
  then show "\<exists>i. grid_index f (of_int (uint (clamp_range 1 15 x))) 1 1 = Inr i \<and> uint i \<le> 14"
    using grid_index_int [OF f, of 1 1 "uint (clamp_range 1 15 x)" 14] by (simp only: of_int_1)
  have "1 \<le> uint (clamp_range 1 55 x)" "uint (clamp_range 1 55 x) \<le> 55"
    using clamped_word [of 1 55 x] by simp_all
  then show "\<exists>i. grid_index f (of_int (uint (clamp_range 1 55 x))) 1 1 = Inr i \<and> uint i \<le> 54"
    using grid_index_int [OF f, of 1 1 "uint (clamp_range 1 55 x)" 54] by (simp only: of_int_1)
qed

lemma fec_count_run:
  assumes f: "double_ok f" and len: "length beta_array = 462825"
  shows "if rtt = 0 then get_fec_count f beta_array loss frame_size time rtt packet = Inl UndefinedBehaviour
    else \<exists>c\<in>set beta_array. get_fec_count f beta_array loss frame_size time rtt packet = Inr c"
proof -
  obtain a where a: "grid_index f (clamp_range 0 (1 / 2) loss) 0 (f (1 / 100)) = Inr a" "uint a \<le> 50"
    using loss_index_range [OF f] by blast
  obtain b :: u8 where b: "to_word (of_int \<lceil>f (f (of_int (uint (clamp_range 5 55 frame_size)) - 5) / 5)\<rceil>) = Inr b"
    "uint b \<le> 10" using frame_size_index_range [OF f] by blast
  obtain c where c: "grid_index f (of_int (uint (clamp_range 1 15 (ucast (time div rtt) :: u8)))) 1 1 = Inr c"
    "uint c \<le> 14" using layer_index_range(1) [OF f] by blast
  obtain d where d: "grid_index f (of_int (uint (clamp_range 1 55 packet))) 1 1 = Inr d" "uint d \<le> 54"
    using layer_index_range(2) [OF f] by blast
  have "unat a \<le> 50" "unat b \<le> 10" "unat c \<le> 14" "unat d \<le> 54"
    using a(2) b(2) c(2) d(2) by (simp_all add: unat_le_uint)
  then have "unat a * 9075 + unat b * 825 + unat c * 55 + unat d < length beta_array"
    unfolding len by linarith
  from array_at_run [OF this] show ?thesis
    unfolding get_fec_count_def Let_def a(1) b(1) c(1) d(1) res_bind.simps by auto
qed

lemma block_size_run:
  assumes f: "double_ok f" and len: "length block_array = 7209972"
  shows "\<exists>c\<in>set block_array. get_block_size f block_array loss frame_size ddl rtt rdisp = Inr c"
proof -
  obtain a where a: "grid_index f (clamp_range 0 (1 / 2) loss) 0 (f (1 / 100)) = Inr a" "uint a \<le> 50"
    using loss_index_range [OF f] by blast
  obtain b :: u8 where b: "to_word (of_int \<lceil>f (f (of_int (uint (clamp_range 5 55 frame_size)) - 5) / 5)\<rceil>) = Inr b"
    "uint b \<le> 10" using frame_size_index_range [OF f] by blast
  obtain c where c: "grid_index f (of_int (uint (clamp_range 20 140 ddl))) 20 20 = Inr c" "uint c \<le> 6"
    using grid_index_int [OF f, of 20 20 "uint (clamp_range 20 140 ddl)" 6] clamped_word [of 20 140 ddl] by auto
  obtain d where d: "grid_index f (of_int (uint (clamp_range 10 80 rtt))) 10 2 = Inr d" "uint d \<le> 35"
    using grid_index_int [OF f, of 2 10 "uint (clamp_range 10 80 rtt)" 35] clamped_word [of 10 80 rtt] by auto
  obtain e where e: "grid_index f (clamp_range 0 1 rdisp) 0 (f (1 / 50)) = Inr e" "uint e \<le> 50"
    using disp_index_range [OF f] by blast
  have "unat a \<le> 50" "unat b \<le> 10" "unat c \<le> 6" "unat d \<le> 35" "unat e \<le> 50"
    using a(2) b(2) c(2) d(2) e(2) by (simp_all add: unat_le_uint)
  then have "unat a * 141372 + unat b * 12852 + unat c * 1836 + unat d * 51 + unat e < length block_array"
    unfolding len by linarith
  from array_at_run [OF this] show ?thesis
    unfolding get_block_size_def Let_def a(1) b(1) c(1) d(1) e(1) res_bind.simps by auto
qed

lemma grid_group_size_run:
  assumes f: "double_ok f"
  shows "\<exists>g < 11. grid_group_size f x = Inr (word_of_nat (5 * g + 5))"
proof -
  have r: "rounding_ok f" using f by (simp add: double_ok_def)
  let ?n = "uint (clamp_range 5 55 x)"
  have n: "5 \<le> ?n" "?n \<le> 55" using clamped_word [of 5 55 x] by simp_all
  have e: "f (of_int ?n - 5) = of_int (?n - 5)" using rounding_int [OF r, of "?n - 5"] n by simp
  define k where "k = round_away (f (of_int (?n - 5) / 5))"
  have "(of_int (?n - 5) :: rat) \<le> of_int 50" "(0 :: rat) \<le> of_int (?n - 5)"
    using n by (simp_all only: of_int_le_iff of_int_0_le_iff)
  then have "0 \<le> f (of_int (?n - 5) / 5)" "f (of_int (?n - 5) / 5) \<le> 10"
    using rounding_nonneg [OF r, of "of_int (?n - 5) / 5"] rounding_mono [OF r, of "of_int (?n - 5) / 5" 10]
      rounding_int [OF r, of 10] by simp_all
  then have k: "0 \<le> k" "k \<le> 10"
    using round_away_range [of "f (of_int (?n - 5) / 5)" 10] by (simp_all add: k_def)
  have "f (f (of_int k * 5) + 5) = of_int (5 * k + 5)"
    using rounding_int [OF r, of "k * 5"] rounding_int [OF r, of "5 * k + 5"] k by (simp add: mult.commute)
  then have "grid_group_size f x = Inr (word_of_int (5 * k + 5))"
    unfolding grid_group_size_def e k_def [symmetric] using to_u8(1) [of "5 * k + 5"] k by simp
  moreover have "word_of_int (5 * k + 5) = (word_of_nat (5 * nat k + 5) :: u8)"
    using k by (simp add: of_nat_nat)
  ultimately show ?thesis using k by (intro exI [of _ "nat k"]) simp
qed

section \<open>The rate of the WebRTC array\<close>

lemma u8_of_nat: "m < 256 \<Longrightarrow> uint (word_of_nat m :: u8) = int m"
  by (simp add: unsigned_of_nat take_bit_nat_eq_self)

lemma webrtc_rate_run:
  assumes f: "double_ok f"
  shows "\<exists>l g b. l < 51 \<and> g < 11 \<and> b < 29 \<and> get_fec_rate_webrtc f loss gs bitrate =
    Inr (f (of_int (fec_array_webrtc ! (l * 319 + (g * 29 + b))) / of_int (5 * int g + 5)))"
proof -
  obtain l where l: "grid_index f (clamp_range 0 (1 / 2) loss) 0 (f (1 / 100)) = Inr l" "uint l \<le> 50"
    using loss_index_range [OF f] by blast
  obtain n where n: "n < 11" "grid_group_size f gs = Inr (word_of_nat (5 * n + 5))"
    using grid_group_size_run [OF f] by blast
  have un: "uint (word_of_nat (5 * n + 5) :: u8) = 5 * int n + 5"
    using u8_of_nat [of "5 * n + 5"] n(1) by simp
  obtain g where g: "grid_index f (of_int (uint (word_of_nat (5 * n + 5) :: u8))) 5 5 = Inr g" "uint g = int n"
  proof -
    have r: "rounding_ok f" using f by (simp add: double_ok_def)
    have "f (of_int (5 * int n + 5) - 5) = of_int (5 * int n)" using rounding_int [OF r, of "5 * int n"] n(1) by simp
    then have "round_away (f (f (of_int (5 * int n + 5) - 5) / 5)) = int n"
      using rounding_int [OF r, of "int n"] n(1) round_away_int [of "int n"] by simp
    then show ?thesis
      using that to_u8 [of "int n"] n(1) unfolding grid_index_def un by simp
  qed
  obtain b where b: "grid_index f (of_int (uint (clamp_range 2 30 bitrate))) 2 1 = Inr b" "uint b \<le> 28"
    using grid_index_int [OF f, of 1 2 "uint (clamp_range 2 30 bitrate)" 28] clamped_word [of 2 30 bitrate] by auto
  have "unat l \<le> 50" "unat b \<le> 28" using l(2) b(2) by (simp_all add: unat_le_uint)
  moreover have "unat g = n" unfolding unat_eq_nat_uint g(2) by simp
  ultimately have u: "unat l < 51" "unat g = n" "unat b < 29" by simp_all
  then have i: "unat l * 319 + unat g * 29 + unat b < length fec_array_webrtc"
    unfolding webrtc_length using n(1) by linarith
  have "get_fec_rate_webrtc f loss gs bitrate =
      Inr (f (of_int (fec_array_webrtc ! (unat l * 319 + (n * 29 + unat b))) / of_int (5 * int n + 5)))"
    unfolding get_fec_rate_webrtc_def l(1) n(2) g(1) b(1) res_bind.simps array_at_def if_P [OF i]
    by (simp only: un u(2) add.assoc)
  then show ?thesis using u n(1) by blast
qed

lemma webrtc_rate_in_range:
  assumes f: "double_ok f"
  shows "\<exists>r. get_fec_rate_webrtc f loss gs bitrate = Inr r \<and> 1 / 64 \<le> r \<and> r \<le> 1"
proof -
  obtain l g b where r: "l < 51" "g < 11" "b < 29" "get_fec_rate_webrtc f loss gs bitrate =
      Inr (f (of_int (fec_array_webrtc ! (l * 319 + (g * 29 + b))) / of_int (5 * int g + 5)))"
    using webrtc_rate_run [OF f] by blast
  let ?v = "fec_array_webrtc ! (l * 319 + (g * 29 + b))"
  have fl: "float_ok f" and ro: "rounding_ok f" using f by (simp_all add: double_ok_def)
  have v: "1 \<le> ?v" "?v \<le> 5 * int g + 5" using webrtc_entry [OF r(1,2,3)] by simp_all
  have "(of_int ?v :: rat) \<le> of_int (5 * int g + 5)" using v(2) by (simp only: of_int_le_iff)
  then have "f (of_int ?v / of_int (5 * int g + 5)) \<le> 1" by (intro rounding_le_one [OF ro]) simp
  moreover have "(1 :: rat) \<le> of_int ?v" "(of_int (5 * int g + 5) :: rat) \<le> of_int 64" "(0 :: rat) < of_int (5 * int g + 5)"
    using v(1) r(2) by (simp_all only: of_int_1_le_iff of_int_le_iff of_int_0_less_iff)
  then have "1 / 64 \<le> (of_int ?v / of_int (5 * int g + 5) :: rat)"
    by (simp add: le_divide_eq divide_le_eq)
  then have "1 / 64 \<le> f (of_int ?v / of_int (5 * int g + 5))" using float_ge_frac [OF fl, of 1 6] by simp
  ultimately show ?thesis using r(4) by blast
qed

lemma webrtc_rate_InrD: "double_ok f \<Longrightarrow> get_fec_rate_webrtc f loss gs bitrate = Inr r \<Longrightarrow> 0 \<le> r"
  using webrtc_rate_in_range [of f loss gs bitrate] by auto

section \<open>What the sender relies on\<close>

text \<open>A policy that never answers a group of no packets, and one that protects small groups: a first
  transmission has at most \<open>maxg\<close> data packets in a group, and a rate between 0 and 1.\<close>

type_synonym policy_fun = "NetStat \<Rightarrow> u32 \<Rightarrow> u16 \<Rightarrow> u16 \<Rightarrow> bool \<Rightarrow> u8 \<Rightarrow> u16 \<Rightarrow> bool \<Rightarrow> FECParam res"

locale fec_policy =
  fixes policy :: "libm \<Rightarrow> policy_fun"
  assumes group_size: "policy M st br ddl left rtx fs mg fixed = Inr fp \<Longrightarrow> mg \<noteq> 0 \<Longrightarrow>
    0 < fec_group_size fp \<and> fec_group_size fp \<le> mg"

locale protecting_policy = fec_policy +
  fixes maxg :: nat
  assumes small_group: "policy M st br ddl left False fs mg fixed = Inr fp \<Longrightarrow> unat (fec_group_size fp) \<le> maxg"
    and rate: "double_ok (lm_fd M) \<Longrightarrow> policy M st br ddl left rtx fs mg fixed = Inr fp \<Longrightarrow> \<exists>r. fec_rate fp = Some r \<and> 0 \<le> r \<and> r \<le> 1"

context protecting_policy
begin

lemma fec_no_more_than_data:
  assumes f: "rounding_ok f" and M: "double_ok (lm_fd M)" and fp: "policy M st br ddl left rtx fs mg fixed = Inr fp"
    and n: "batch_fec_num f n fp = Inr k"
  shows "k \<le> n"
proof -
  obtain r where r: "fec_rate fp = Some r" "0 \<le> r" "r \<le> 1" using rate [OF M fp] by blast
  have n0: "(0 :: rat) \<le> of_int (uint n)" by (simp only: of_int_0_le_iff uint_ge_0)
  have "of_int (uint n) * r \<le> of_int (uint n) * 1" "0 \<le> of_int (uint n) * r"
    using mult_left_mono [OF r(3) n0] mult_nonneg_nonneg [OF n0 r(2)] by simp_all
  then have "f (of_int (uint n) * r) \<le> of_int (uint n)" "0 \<le> f (of_int (uint n) * r)"
    using rounding_mono [OF f, of "of_int (uint n) * r" "of_int (uint n)"] rounding_int [OF f, of "uint n"]
      rounding_nonneg [OF f] uint_lt(2) [of n] by simp_all
  then have "0 \<le> round_away (f (of_int (uint n) * r)) \<and> round_away (f (of_int (uint n) * r)) \<le> uint n"
    by (intro round_away_range) simp_all
  moreover have "to_word (of_int (round_away (f (of_int (uint n) * r)))) = Inr k"
    using n r(1) by (simp add: batch_fec_num_def)
  ultimately show ?thesis using to_word_InrD by (fastforce simp: word_le_def)
qed

end

lemma cap48: "(if mg > 48 then 48 else mg) \<le> (mg :: u16)" "mg \<noteq> 0 \<Longrightarrow> 0 < (if mg > 48 then 48 else (mg :: u16))"
  "unat (if mg > 48 then 48 else (mg :: u16)) \<le> 48"
  by (auto simp: word_less_nat_alt word_le_nat_alt unat_gt_0 [symmetric])

lemma MIN1_range: "0 \<le> r \<Longrightarrow> 0 \<le> MIN1 r \<and> MIN1 r \<le> 1"
  by (simp add: MIN1_def)

interpretation rtx_only: fec_policy "\<lambda>M. policy_GetFECParam M beta_array RTXOnlyPolicy" for beta_array
  by unfold_locales (auto simp: policy_GetFECParam_def RTXOnly_GetFECParam_def word_neq_0_conv)

interpretation fec_only: fec_policy "\<lambda>M. policy_GetFECParam M beta_array FECOnlyPolicy" for beta_array
  by unfold_locales (auto simp: policy_GetFECParam_def FECOnly_GetFECParam_def word_neq_0_conv dest!: res_bind_InrD)

interpretation webrtc: protecting_policy "\<lambda>M. policy_GetFECParam M beta_array (WebRTCPolicy fixed lr)" 48
  for beta_array fixed lr
proof (unfold_locales, goal_cases)
  case (1 M st br ddl left rtx fs mg fixed' fp)
  then show ?case
    by (auto simp: policy_GetFECParam_def WebRTC_GetFECParam_def Let_def cap48 word_neq_0_conv
        dest!: res_bind_InrD split: if_splits)
next
  case (2 M st br ddl left fs mg fixed' fp)
  then show ?case
    using cap48(3) [of mg] by (auto simp: policy_GetFECParam_def WebRTC_GetFECParam_def Let_def dest!: res_bind_InrD)
next
  case (3 M st br ddl left rtx fs mg fixed' fp)
  then obtain r where "fec_rate fp = Some (MIN1 r)" "0 \<le> r"
    by (auto simp: policy_GetFECParam_def WebRTC_GetFECParam_def Let_def dest!: res_bind_InrD webrtc_rate_InrD [OF 3(1)]
        split: if_splits)
  then show ?case using MIN1_range by blast
qed

interpretation webrtc_star: protecting_policy "\<lambda>M. policy_GetFECParam M beta_array (WebRTCStarPolicy fixed lr rtt 1)" 48
  for beta_array fixed lr rtt
proof (unfold_locales, goal_cases)
  case (1 M st br ddl left rtx fs mg fixed' fp)
  then show ?case
    by (auto simp: policy_GetFECParam_def WebRTCStar_GetFECParam_def Let_def cap48 word_neq_0_conv
        dest!: res_bind_InrD split: if_splits)
next
  case (2 M st br ddl left fs mg fixed' fp)
  then show ?case
    using cap48(3) [of mg] by (auto simp: policy_GetFECParam_def WebRTCStar_GetFECParam_def Let_def dest!: res_bind_InrD)
next
  case (3 M st br ddl left rtx fs mg fixed' fp)
  then obtain r t where r: "fec_rate fp = LinearFECRate M (MIN1 r) left t" "0 \<le> r"
    by (auto simp: policy_GetFECParam_def WebRTCStar_GetFECParam_def Let_def dest!: res_bind_InrD
        webrtc_rate_InrD [OF 3(1)])
  have ro: "rounding_ok (lm_fd M)" using 3(1) by (simp add: double_ok_def)
  have "0 \<le> lm_fd M (lm_fd M (2 * MIN1 r) * lm_fd M (of_int (uint t) / of_int (uint left)))"
  proof -
    have "0 \<le> lm_fd M (2 * MIN1 r)" using MIN1_range [OF r(2)] by (intro rounding_nonneg [OF ro]) simp
    moreover have "0 \<le> lm_fd M (of_int (uint t) / of_int (uint left))"
      by (intro rounding_nonneg [OF ro] divide_nonneg_nonneg) (simp_all only: of_int_0_le_iff uint_ge_0)
    ultimately show ?thesis by (rule rounding_nonneg [OF ro mult_nonneg_nonneg])
  qed
  then show ?case using r(1) by (auto simp: LinearFECRate_def dbl_quot_def Let_def)
qed

end
