(* ===== verification/Policy_Frames.thy ===== *)
theory Policy_Frames
  imports Fec_Policy
begin

text \<open>
  The sender with an FEC policy: what the contracts of \<open>Fec_Policy\<close> give for the groups and batches that
  \<open>SendPackets\<close> makes, and the policy whose group size is cut to 8 bits.
\<close>

section \<open>The packets of a batch\<close>

text \<open>The numbers of data packets and of FEC packets of the batch that a packet belongs to.\<close>

definition batch_counts :: "vpacket \<Rightarrow> u16 \<times> u16" where
  "batch_counts p = (vh_batch_data_num (vp_header p), vh_batch_fec_num (vp_header p))"

definition counts_ok :: "nat \<Rightarrow> vpacket \<Rightarrow> bool" where
  "counts_ok maxg p = (case batch_counts p of (n, k) \<Rightarrow> 0 < n \<and> unat n \<le> maxg \<and> k \<le> n)"

lemma number_data_counts:
  assumes "number_data b ng rs i j h = Inr (x, y, h')" "\<forall>r\<in>set rs. r < length h"
  shows "length h' = length h \<and> (\<forall>r. r \<notin> set rs \<longrightarrow> h' ! r = h ! r) \<and>
    (\<forall>r\<in>set rs. batch_counts (h' ! r) = (bi_data_num b, bi_fec_num b))"
  using assms
proof (induction rs arbitrary: i j h)
  case (Cons r rs)
  obtain p j' where p: "number_data b ng rs (i + 1) j' (h[r := p]) = Inr (x, y, h')"
      "batch_counts p = (bi_data_num b, bi_fec_num b)"
    using Cons.prems(1)
    by (fastforce simp: Let_def batch_counts_def SetFECGroup_def SetFECBatch_def dest!: res_bind_InrD ns_assert_InrD
        split: if_splits)
  have "\<forall>r'\<in>set rs. r' < length (h[r := p])" using Cons.prems(2) by simp
  from Cons.IH [OF p(1) this] p(2) Cons.prems(2) show ?case by (auto simp: nth_list_update)
qed simp

lemma make_fec_counts:
  "p \<in> set (make_fec b is_rtx now tx ds raw n i j) \<Longrightarrow> batch_counts p = (bi_data_num b, bi_fec_num b)"
  by (induction n arbitrary: i j)
    (auto simp: batch_counts_def SetFECGroup_def SetFECBatch_def SetEncodeTime_def)

text \<open>What a step of the sender may do to the packets it holds: leave them, or give them the counts of
  a protected batch.\<close>

definition protects :: "nat \<Rightarrow> ('p, 'c) sender \<Rightarrow> ('p, 'c) sender \<Rightarrow> nat list \<Rightarrow> bool" where
  "protects maxg s s' rs \<longleftrightarrow> length (heap s) \<le> length (heap s') \<and> m_queue s' = m_queue s \<and>
     (\<forall>r < length (heap s). heap s' ! r = heap s ! r \<or> counts_ok maxg (heap s' ! r)) \<and>
     (\<forall>r\<in>set rs. r < length (heap s') \<and> counts_ok maxg (heap s' ! r))"

lemma protects_append:
  assumes st: "protects maxg s t rs" and tu: "protects maxg t u rs'"
  shows "protects maxg s u (rs @ rs')"
proof -
  have len: "length (heap s) \<le> length (heap t)" "length (heap t) \<le> length (heap u)"
    using st tu by (simp_all add: protects_def)
  have step: "heap u ! r = heap t ! r \<or> counts_ok maxg (heap u ! r)" if "r < length (heap t)" for r
    using tu that by (simp add: protects_def)
  have "heap u ! r = heap s ! r \<or> counts_ok maxg (heap u ! r)" if "r < length (heap s)" for r
  proof -
    have "heap t ! r = heap s ! r \<or> counts_ok maxg (heap t ! r)" using st that by (simp add: protects_def)
    then show ?thesis using step [of r] that len by auto
  qed
  moreover have "r < length (heap u) \<and> counts_ok maxg (heap u ! r)" if "r \<in> set (rs @ rs')" for r
  proof (cases "r \<in> set rs'")
    case False
    then have "r < length (heap t)" "counts_ok maxg (heap t ! r)" using st that by (auto simp: protects_def)
    then show ?thesis using step [of r] len by auto
  qed (use tu in \<open>simp add: protects_def\<close>)
  ultimately show ?thesis using st tu len by (simp add: protects_def)
qed

lemma batch_protects:
  assumes run: "CreateFirstPacketBatch env now rs fp s = Inr (rs', s')" and refs: "\<forall>r\<in>set rs. r < length (heap s)"
    and size: "length rs \<le> maxg" "maxg < 65536"
    and fec: "\<And>n k. batch_fec_num (sn_fl env) n fp = Inr k \<Longrightarrow> k \<le> n"
  shows "protects maxg s s' rs' \<and> set rs \<subseteq> set rs'"
proof -
  obtain rs0 t where b: "rs \<noteq> []" "CreatePacketBatch env now rs fp True 0 False s = Inr (rs', t)"
    "heap s' = heap t" "m_queue s' = m_queue t"
    using run by (auto simp: CreateFirstPacketBatch_def dest!: ns_assert_InrD res_bind_InrD)
  let ?n = "of_nat (length rs) :: u16"
  obtain k where k: "batch_fec_num (sn_fl env) ?n fp = Inr k"
    using b(1,2) by (auto simp: CreatePacketBatch_def Let_def dest!: res_bind_InrD)
  define bi where "bi = \<lparr>bi_batch_id = batch_id s, bi_data_num = ?n, bi_fec_num = k,
    bi_group_id = group_id s, bi_group_data_num = ?n, bi_group_fec_num = k\<rparr>"
  have bi: "bi_data_num bi = ?n" "bi_fec_num bi = k" by (simp_all add: bi_def)
  note defs = CreatePacketBatch_def Let_def k bi_def [symmetric]
  obtain front where front: "data_at (heap s) (hd rs) = Inr front"
    using b(1,2) by (auto simp: defs dest!: res_bind_InrD)
  obtain x y h where h: "number_data bi True rs 0 0 (heap s) = Inr (x, y, h)"
    using b(1,2) by (auto simp: defs front dest!: res_bind_InrD)
  obtain ds where ds: "res_map (data_at h) rs = Inr ds"
    using b(1,2) by (auto simp: defs front h dest!: res_bind_InrD)
  let ?fecs = "make_fec bi False now (vh_tx_count (video_header front)) ds (raw_fec (sn_raw env)) (unat k) x y"
  have t: "rs' = rs @ [length h..<length h + length ?fecs]" "heap t = h @ ?fecs" "m_queue t = m_queue s"
    using b(1,2) by (auto simp: defs front h ds)
  have n: "unat ?n = length rs" using size by (intro unat_word_of_nat_16) simp
  then have ok: "counts_ok maxg p" if "batch_counts p = (?n, k)" for p
    using that fec [OF k] size(1) b(1) by (simp add: counts_ok_def word_less_nat_alt)
  note hc = number_data_counts [OF h refs]
  have old: "heap t ! r = heap s ! r \<or> counts_ok maxg (heap t ! r)" if "r < length (heap s)" for r
    using that hc ok by (cases "r \<in> set rs") (simp_all add: t(2) nth_append bi)
  have new: "r < length (heap t) \<and> counts_ok maxg (heap t ! r)" if "r \<in> set rs'" for r
  proof (cases "r \<in> set rs")
    case True
    then show ?thesis using refs hc ok by (simp add: t(2) nth_append bi trans_less_add1)
  next
    case False
    then have r: "length h \<le> r" "r < length h + length ?fecs" using that by (auto simp: t(1))
    then have "?fecs ! (r - length h) \<in> set ?fecs" by (intro nth_mem) simp
    from make_fec_counts [OF this] have "batch_counts (heap t ! r) = (?n, k)"
      using r(1) by (simp add: t(2) nth_append bi)
    then show ?thesis using ok r by (simp add: t(2))
  qed
  show ?thesis using old new hc b(3,4) t by (auto simp: protects_def)
qed

lemma batches_protect:
  assumes "create_batches env now fp gs s = Inr (rs', s')"
    and "\<forall>g\<in>set gs. length g \<le> maxg \<and> (\<forall>r\<in>set g. r < length (heap s))" and size: "maxg < 65536"
    and fec: "\<And>n k. batch_fec_num (sn_fl env) n fp = Inr k \<Longrightarrow> k \<le> n"
  shows "protects maxg s s' rs' \<and> (\<Union>g\<in>set gs. set g) \<subseteq> set rs'"
  using assms(1,2)
proof (induction gs arbitrary: s rs')
  case Nil
  then show ?case by (auto simp: protects_def)
next
  case (Cons g gs)
  then obtain r1 t r2 where t: "CreateFirstPacketBatch env now g fp s = Inr (r1, t)"
    "create_batches env now fp gs t = Inr (r2, s')" "rs' = r1 @ r2"
    by (auto dest!: res_bind_InrD)
  have g: "\<forall>r\<in>set g. r < length (heap s)" "length g \<le> maxg" using Cons.prems(2) by auto
  note one = batch_protects [OF t(1) g size fec]
  then have "length (heap s) \<le> length (heap t)" by (simp add: protects_def)
  then have "\<forall>g\<in>set gs. length g \<le> maxg \<and> (\<forall>r\<in>set g. r < length (heap t))" using Cons.prems(2) by fastforce
  from Cons.IH [OF t(2) this] one show ?case
    unfolding t(3) using protects_append by auto
qed

text \<open>What leaves the heap and the queue alone.\<close>

lemma rate_update_heap: "UpdateBitrate env s = Inr s' \<Longrightarrow> heap s' = heap s \<and> m_queue s' = m_queue s"
  by (auto simp: UpdateBitrate_def UpdateSendingRate_def emit_def dest!: res_bind_InrD split: if_splits option.splits)

lemma GetFECParam_run:
  assumes "GetFECParam env n left fx rtx fid s = Inr (fp, s')"
  shows "heap s' = heap s \<and> m_queue s' = m_queue s \<and>
    (\<exists>ddl left' fs. sn_policy env (m_netStat s) 0 ddl left' rtx fs n fx = Inr fp)"
  using assms
  by (auto simp: GetFECParam_def dest!: res_bind_InrD rate_update_heap split: option.splits if_splits)
    blast+

lemma split_groups_run:
  "0 < n \<Longrightarrow> split_groups n rs = (gs, rest) \<Longrightarrow> (\<forall>g\<in>set gs. length g = n) \<and> length rest < n \<and> concat gs @ rest = rs"
proof (induction n rs arbitrary: gs rest rule: split_groups.induct)
  case (1 n rs)
  show ?case
  proof (cases "length rs < n")
    case True
    then show ?thesis using "1.prems" by (simp add: split_groups.simps [of n rs])
  next
    case False
    obtain gs' where gs': "split_groups n (drop n rs) = (gs', rest)" "gs = take n rs # gs'"
      using "1.prems" False by (auto simp: split_groups.simps [of n rs] split: prod.splits)
    have "(\<forall>g\<in>set gs'. length g = n) \<and> length rest < n \<and> concat gs' @ rest = drop n rs"
      using "1.IH" [OF _ "1.prems"(1) gs'(1)] "1.prems"(1) False by simp
    then show ?thesis using False gs'(2) by (metis append.assoc append_take_drop_id concat.simps(2) length_take
      linorder_not_le list.set_intros min.absorb2 nless_le order_less_imp_le set_ConsD)
  qed
qed

lemma set_enqueue_counts:
  "length (heap (fold (\<lambda>r. on_heap r (vp_SetEnqueueTime now)) rs s)) = length (heap s)"
  "batch_counts (heap (fold (\<lambda>r. on_heap r (vp_SetEnqueueTime now)) rs s) ! r) = batch_counts (heap s ! r)"
  "m_queue (fold (\<lambda>r. on_heap r (vp_SetEnqueueTime now)) rs s) = m_queue s"
proof -
  have vp: "vp_header (vp_SetEnqueueTime now p) = vp_header p" for p by (cases p) simp_all
  show "length (heap (fold (\<lambda>r. on_heap r (vp_SetEnqueueTime now)) rs s)) = length (heap s)"
    by (induction rs arbitrary: s) (simp_all add: on_heap_def)
  show "batch_counts (heap (fold (\<lambda>r. on_heap r (vp_SetEnqueueTime now)) rs s) ! r) = batch_counts (heap s ! r)"
  proof (induction rs arbitrary: s)
    case (Cons x rs)
    have "batch_counts (heap (on_heap x (vp_SetEnqueueTime now) s) ! r) = batch_counts (heap s ! r)"
      by (cases "x < length (heap s)") (auto simp: on_heap_def nth_list_update vp batch_counts_def list_update_beyond)
    then show ?case using Cons.IH by simp
  qed simp
  show "m_queue (fold (\<lambda>r. on_heap r (vp_SetEnqueueTime now)) rs s) = m_queue s"
    by (induction rs arbitrary: s) (simp_all add: on_heap_def)
qed

lemma pacing_queue: "Calculate_pacing_rate now s = Inr s' \<Longrightarrow> heap s' = heap s \<and> m_queue s' = m_queue s"
  by (auto simp: Calculate_pacing_rate_def dest!: res_bind_InrD)

lemma SendFrame_queue:
  assumes "SendFrame env now rs s = Inr s'"
  shows "heap s' = heap s \<and> (\<exists>fr. m_queue s' = m_queue s @ [fr] \<and> packets_in_Frame fr = rs)"
  using assms
  by (auto simp: SendFrame_def PacketFrame_new_def UpdateGoodputRatio_def emit_def Let_def
      dest!: res_bind_InrD pacing_queue split: if_splits list.splits)

lemma StorePackets_queue: "heap (StorePackets junk rs s) = heap s \<and> m_queue (StorePackets junk rs s) = m_queue s"
proof -
  have one: "heap (remember_packet junk r s) = heap s \<and> m_queue (remember_packet junk r s) = m_queue s" for r s
    by (simp add: remember_packet_def Let_def)
  show ?thesis unfolding StorePackets_def by (induction rs arbitrary: s) (simp_all add: one)
qed

section \<open>The loop over the groups\<close>

text \<open>A policy that never answers 0 makes the loop of \<open>SendPackets\<close> end, after at least one group.\<close>

context fec_policy
begin

lemma groups_end:
  assumes env: "sn_policy env = policy M" and n: "0 < length pkts" "length pkts < 65536"
    and fp: "GetFECParam env (of_nat (length pkts)) left False False fid s = Inr (fp, u)"
  shows "\<exists>g gs rest. split_groups (unat (fec_group_size fp)) pkts = (g # gs, rest) \<and>
    first_batches env now pkts left fid s =
      res_bind (create_batches env now fp (g # gs) u) (\<lambda>(rs, s). Inr (rs, rest, s))"
proof -
  have mg: "unat (of_nat (length pkts) :: u16) = length pkts" using n by (intro unat_word_of_nat_16) simp
  then have ne: "(of_nat (length pkts) :: u16) \<noteq> 0" using n(1) by (metis less_irrefl unat_0)
  obtain ddl left' fs where "policy M (m_netStat s) 0 ddl left' False fs (of_nat (length pkts)) False = Inr fp"
    using GetFECParam_run [OF fp] unfolding env by blast
  from group_size [OF this ne] have size: "0 < unat (fec_group_size fp)" "unat (fec_group_size fp) \<le> length pkts"
    unfolding word_less_nat_alt word_le_nat_alt mg by simp_all
  obtain gs rest where gs: "split_groups (unat (fec_group_size fp)) pkts = (gs, rest)" by fastforce
  have "gs \<noteq> []" using split_groups_run [OF size(1) gs] size(2) by auto
  then obtain g gs' where "gs = g # gs'" by (cases gs) auto
  then show ?thesis using fp gs size(1) by (auto simp: first_batches_def Let_def)
qed

end

section \<open>Frames under a protecting policy\<close>

context protecting_policy
begin

lemma frame_protected:
  assumes M: "double_ok (lm_fd M)" and env: "sn_policy env = policy M" "rounding_ok (sn_fl env)" and size: "maxg < 65536"
    and run: "SendPackets env now pkts left fid False s = Inr s'"
    and refs: "pkts \<noteq> []" "\<forall>r\<in>set pkts. r < length (heap s)"
  shows "\<exists>fr. m_queue s' = m_queue s @ [fr] \<and> set pkts \<subseteq> set (packets_in_Frame fr) \<and>
    (\<forall>r\<in>set (packets_in_Frame fr). counts_ok maxg (heap s' ! r))"
proof -
  have fec: "k \<le> n" if "GetFECParam env m left fx rtx fid t = Inr (fp, u)" "batch_fec_num (sn_fl env) n fp = Inr k"
    for m fx rtx t fp u n k
    using GetFECParam_run [OF that(1)] fec_no_more_than_data [OF env(2) M _ that(2)] unfolding env(1) by blast
  obtain bs rest t where first: "first_batches env now pkts left fid s = Inr (bs, rest, t)"
    and r: "res_bind (last_batch env now rest left fid False t) (\<lambda>(batch, s).
       let to_send = bs @ batch
       in if to_send = [] then Inr s
          else let s = fold (\<lambda>r. on_heap r (vp_SetEnqueueTime now)) to_send s
               in res_bind (SendFrame env now to_send s) (\<lambda>s.
                  Inr (StorePackets (raw_tx (sn_raw env)) to_send s))) = Inr s'"
    using res_bind_InrD [OF run [unfolded SendPackets_def if_False]] by auto
  obtain fp u where u: "GetFECParam env (of_nat (length pkts)) left False False fid s = Inr (fp, u)"
    using first by (auto simp: first_batches_def dest!: res_bind_InrD)
  have n: "fec_group_size fp \<noteq> 0" using first u by (auto simp: first_batches_def dest!: res_bind_InrD)
  obtain gs where gs: "split_groups (unat (fec_group_size fp)) pkts = (gs, rest)"
    "create_batches env now fp gs u = Inr (bs, t)"
    using first u n by (auto simp: first_batches_def Let_def dest!: res_bind_InrD split: prod.splits)
  have g: "unat (fec_group_size fp) \<le> maxg"
    using GetFECParam_run [OF u] small_group unfolding env(1) by blast
  have "0 < unat (fec_group_size fp)" using n by (simp add: unat_gt_0)
  note c = split_groups_run [OF this gs(1)]
  then have cut: "\<forall>g\<in>set gs. length g \<le> maxg" "length rest \<le> maxg" using g by auto
  have sp: "set pkts = (\<Union>g\<in>set gs. set g) \<union> set rest"
    using arg_cong [OF conjunct2 [OF conjunct2 [OF c]], of set] by simp
  have hu: "heap u = heap s" "m_queue u = m_queue s" using GetFECParam_run [OF u] by simp_all
  have "\<forall>g\<in>set gs. length g \<le> maxg \<and> (\<forall>r\<in>set g. r < length (heap u))"
    using cut(1) refs(2) sp by (auto simp: hu)
  then have one: "protects maxg u t bs" "(\<Union>g\<in>set gs. set g) \<subseteq> set bs"
    using batches_protect [OF gs(2) _ size fec [OF u]] by blast+
  obtain batch v where v: "last_batch env now rest left fid False t = Inr (batch, v)"
    and fin: "(let to_send = bs @ batch
       in if to_send = [] then Inr v
          else let s = fold (\<lambda>r. on_heap r (vp_SetEnqueueTime now)) to_send v
               in res_bind (SendFrame env now to_send s) (\<lambda>s.
                  Inr (StorePackets (raw_tx (sn_raw env)) to_send s))) = Inr s'"
    using res_bind_InrD [OF r] by auto
  have two: "protects maxg t v batch \<and> set rest \<subseteq> set batch"
  proof (cases "rest = []")
    case True
    then show ?thesis using v by (simp add: last_batch_def protects_def)
  next
    case False
    then obtain fp' w where w: "GetFECParam env (of_nat (length rest)) left True False fid t = Inr (fp', w)"
      "CreateFirstPacketBatch env now rest fp' w = Inr (batch, v)"
      using v by (auto simp: last_batch_def dest!: res_bind_InrD)
    have hw: "heap w = heap t" "m_queue w = m_queue t" using GetFECParam_run [OF w(1)] by simp_all
    have len: "length (heap s) \<le> length (heap t)" using one(1) by (simp add: protects_def hu)
    have "r < length (heap w)" if "r \<in> set rest" for r
    proof -
      have "r \<in> set pkts" using that by (simp add: sp)
      then show ?thesis using refs(2) len by (auto simp: hw)
    qed
    then have "\<forall>r\<in>set rest. r < length (heap w)" by blast
    from batch_protects [OF w(2) this cut(2) size fec [OF w(1)]] show ?thesis
      by (simp add: protects_def hw)
  qed
  let ?ts = "bs @ batch" and ?e = "fold (\<lambda>r. on_heap r (vp_SetEnqueueTime now)) (bs @ batch) v"
  have sub: "set pkts \<subseteq> set ?ts" using one(2) two sp by auto
  have all: "protects maxg u v ?ts" using protects_append [OF one(1)] two by blast
  have ne: "?ts \<noteq> []" using sub refs(1) by auto
  obtain x where x: "SendFrame env now ?ts ?e = Inr x" "s' = StorePackets (raw_tx (sn_raw env)) ?ts x"
    using res_bind_InrD [OF fin [unfolded Let_def if_not_P [OF ne]]] by (elim exE conjE) (simp del: fold_append)
  obtain fr where fr: "heap x = heap ?e" "m_queue x = m_queue ?e @ [fr]" "packets_in_Frame fr = ?ts"
    using SendFrame_queue [OF x(1)] by blast
  have "heap s' = heap ?e" "m_queue s' = m_queue s @ [fr]"
    using fr(1,2) all by (simp_all add: x(2) StorePackets_queue set_enqueue_counts(3) protects_def hu del: fold_append)
  moreover have "counts_ok maxg (heap ?e ! r)" if "r \<in> set ?ts" for r
    using all that by (simp add: counts_ok_def set_enqueue_counts(2) protects_def del: fold_append)
  ultimately show ?thesis using sub fr(3) by (intro exI [of _ fr]) simp
qed

end

lemma CreateFrame_run:
  assumes run: "CreateFrame env now frame_id pkt_id max_payload data_pkt_num data_size s = Inr s'"
  obtains sizes left s1 where "frame_chunks (ucast max_payload) data_size 0 = Some sizes" "sizes \<noteq> []"
    "length (heap s1) = length (heap s) + length sizes" "m_queue s1 = m_queue s"
    "SendPackets env now [length (heap s)..<length (heap s) + length sizes] left frame_id False s1 = Inr s'"
proof (cases "frame_chunks (ucast max_payload) data_size 0")
  case None
  then show thesis using run by (simp add: CreateFrame_def)
next
  case (Some sizes)
  note r = ns_assert_InrD [OF run [unfolded CreateFrame_def Let_def Some option.case]]
  show thesis by (rule that [OF Some conjunct1 [OF r] _ _ conjunct2 [OF r]]) simp_all
qed

section \<open>The policy whose group size is cut to 8 bits\<close>

lemma ucast_256: "n mod 256 = 0 \<Longrightarrow> (ucast (word_of_nat n :: u16) :: u8) = 0"
proof -
  assume "n mod 256 = 0"
  then have "256 dvd n mod 65536" by (intro dvd_mod) (simp_all add: mod_eq_0_iff_dvd)
  then show ?thesis by (simp add: unsigned_of_nat take_bit_nat_def word_of_nat_eq_0_iff)
qed

lemma hairpin_group_size:
  assumes "policy_GetFECParam M beta_array (HairpinPolicy d q) st br ddl left rtx fs (word_of_nat n) fixed = Inr fp"
    and "n mod 256 = 0"
  shows "fec_group_size fp = 0"
  using assms
  by (auto simp: policy_GetFECParam_def Hairpin_GetFECParam_def Let_def ucast_256 dest!: res_bind_InrD ns_assert_InrD)

section \<open>A frame of one packet\<close>

text \<open>A sender without a controller that sends one packet of 1000 bytes with the WebRTC policy.\<close>

definition example_policy_env :: "('p, 'c) sender_env \<Rightarrow> ('p, 'c) sender_env" where
  "example_policy_env env = env\<lparr>sn_fl := (\<lambda>x. x), sn_policy := policy_GetFECParam plain_libm [] (WebRTCPolicy True 0)\<rparr>"

definition example_idle :: "('p, 'c) sender \<Rightarrow> ('p, 'c) sender" where
  "example_idle s = s\<lparr>heap := [], m_queue := [], m_pacing := False, m_cc_enable := False,
     s_delay_ddl := MilliSeconds 100, m_netStat := (m_netStat s)\<lparr>disp_one_way := 0\<rparr>\<rparr>"

lemma webrtc_first_entry: "fec_array_webrtc ! 0 = 1"
  by (simp add: fec_array_webrtc_def webrtc_rows_def webrtc_row_0_def)

lemma floor_half: "\<lfloor>1 / 2 :: rat\<rfloor> = 0" by (simp add: floor_eq_iff)
lemma example_rate: "get_fec_rate_webrtc (\<lambda>x. x) 0 1 0 = Inr (1 / 5)"
  by (simp add: get_fec_rate_webrtc_def grid_index_def grid_group_size_def clamp_range_def round_away_def to_word_def trunc_def
      array_at_def webrtc_length webrtc_first_entry floor_half)

lemma example_policy: "policy_GetFECParam plain_libm [] (WebRTCPolicy True 0) st 0 ddl left False 1 1 fx
   = Inr \<lparr>fec_group_size = 1, fec_rate = Some (1 / 5)\<rparr>"
  by (simp add: policy_GetFECParam_def WebRTC_GetFECParam_def bitrate_mbps_def plain_libm_def example_rate MIN1_def to_word_def trunc_def)

lemma floor_seven_tenths: "\<lfloor>7 / 10 :: rat\<rfloor> = 0" by (simp add: floor_eq_iff)

lemma example_fec_none: "batch_fec_num (\<lambda>x. x) 1 \<lparr>fec_group_size = 1, fec_rate = Some (1 / 5)\<rparr> = Inr 0"
  by (simp add: batch_fec_num_def round_away_def to_word_def trunc_def floor_seven_tenths)

lemma example_chunk: "frame_chunks 1404 1000 0 = Some [1000]"
  by (simp add: frame_chunks.simps [of 1404 1000 0] frame_chunks.simps [of 1404 1000 1404])

lemma example_param: "GetFECParam (example_policy_env env) 1 (MilliSeconds 100) False False fid
   (example_idle s\<lparr>heap := h, frame_data_pkt_cnt := AList.update fid 1 x\<rparr>)
  = Inr (\<lparr>fec_group_size = 1, fec_rate = Some (1 / 5)\<rparr>, example_idle s\<lparr>heap := h, frame_data_pkt_cnt := AList.update fid 1 x\<rparr>)"
  by (simp add: GetFECParam_def example_policy_env_def example_idle_def example_policy time_defs to_word_def trunc_def update_conv')

lemma split_one: "split_groups 1 [r] = ([[r]], [])"
  by (simp add: split_groups.simps)



lemma example_batch: "\<exists>h. CreateFirstPacketBatch (example_policy_env env) now [0] \<lparr>fec_group_size = 1, fec_rate = Some (1 / 5)\<rparr>
   (s\<lparr>heap := [new_data_packet env now fid n i sz], frame_data_pkt_cnt := c\<rparr>) =
  Inr ([0], s\<lparr>frame_data_pkt_cnt := c, batch_id := batch_id s + 1, group_id := group_id s + 1, heap := [h],
     send_group_cnt := send_group_cnt s + 1\<rparr>)"
  by (simp add: CreateFirstPacketBatch_def CreatePacketBatch_def example_fec_none Let_def example_policy_env_def new_data_packet_def data_at_def
     DataPacket_ctor_def SetPayload_def SetEncodeTime_def SetFECBatch_def SetFECGroup_def VideoPacket_ctor_def NetworkPacket_ctor_def
     SetFrameInfo_def SetLastPkt_def) (rule exI, rule refl)

lemma example_packet: "new_data_packet (example_policy_env env) = new_data_packet env"
  by (intro ext) (simp add: new_data_packet_def example_policy_env_def)

lemma example_frame_sent: "\<exists>s'. CreateFrame (example_policy_env env) 0 3 0 1404 1 1000 (example_idle s) = Inr s'"
proof -
  let ?c = "AList.update 3 1 (frame_data_pkt_cnt s)"
  let ?s1 = "example_idle s\<lparr>heap := [new_data_packet env 0 3 1 0 1000], frame_data_pkt_cnt := ?c\<rparr>"
  obtain h where h: "CreateFirstPacketBatch (example_policy_env env) 0 [0] \<lparr>fec_group_size = 1, fec_rate = Some (1 / 5)\<rparr> ?s1
     = Inr ([0], example_idle s\<lparr>frame_data_pkt_cnt := ?c, batch_id := batch_id s + 1, group_id := group_id s + 1, heap := [h],
     send_group_cnt := send_group_cnt s + 1\<rparr>)"
    using example_batch [where env = env and now = 0 and s = "example_idle s" and fid = 3 and n = 1 and i = 0 and sz = 1000 and c = ?c] by (auto simp: example_idle_def)
  have f: "first_batches (example_policy_env env) 0 [0] (MilliSeconds 100) 3 ?s1 =
     Inr ([0], [], example_idle s\<lparr>frame_data_pkt_cnt := ?c, batch_id := batch_id s + 1, group_id := group_id s + 1, heap := [h],
     send_group_cnt := send_group_cnt s + 1\<rparr>)"
    using example_param [where env = env and fid = 3 and s = s and h = "[new_data_packet env 0 3 1 0 1000]" and x = "frame_data_pkt_cnt s"] h split_one [of 0] by (simp add: first_batches_def)
  have "CreateFrame (example_policy_env env) 0 3 0 1404 1 1000 (example_idle s) =
    SendPackets (example_policy_env env) 0 [0] (MilliSeconds 100) 3 False ?s1"
    by (simp add: CreateFrame_def example_chunk example_packet Let_def example_idle_def)
  also have "\<exists>s'. \<dots> = Inr s'"
    unfolding SendPackets_def if_False f
    by (simp add: last_batch_def on_heap_def SendFrame_def PacketFrame_new_def Calculate_pacing_rate_def UpdateGoodputRatio_def
       example_idle_def Frame_size_in_packet_def Let_def)
  finally show ?thesis .
qed

section \<open>Properties\<close>

text \<open>C30: no lookup of a policy leaves its array, which has as many elements as the strides of the
  index say; the WebRTC lookup always returns, with a rate between 1/64 and 1. Only \<open>get_fec_count\<close> can fail: it
  divides by the round trip time, and a time of 0 is undefined.\<close>

theorem fec_lookups_in_bounds:
  assumes "double_ok f" "length beta_array = 51 * 9075" "length block_array = 51 * 141372"
  shows "(\<exists>r. get_fec_rate_webrtc f loss gs bitrate = Inr r \<and> 1 / 64 \<le> r \<and> r \<le> 1) \<and>
    (\<exists>b\<in>set block_array. get_block_size f block_array loss frame_size ddl rtt rdisp = Inr b) \<and>
    (if rtt = 0 then get_fec_count f beta_array loss frame_size time rtt packet = Inl UndefinedBehaviour
     else \<exists>c\<in>set beta_array. get_fec_count f beta_array loss frame_size time rtt packet = Inr c)"
proof -
  have len: "length beta_array = 462825" "length block_array = 7209972" using assms(2,3) by simp_all
  show ?thesis
    by (intro conjI webrtc_rate_in_range [OF assms(1)] block_size_run [OF assms(1) len(2)]
        fec_count_run [OF assms(1) len(1)])
qed

theorem fec_lookups_in_bounds_witness:
  "(\<exists>r. get_fec_rate_webrtc (\<lambda>x. x) (- 1) 255 65535 = Inr r \<and> 1 / 64 \<le> r \<and> r \<le> 1) \<and>
   get_fec_count (\<lambda>x. x) (replicate 462825 7) 2 255 500 1 0 = Inr 7"
  using fec_lookups_in_bounds [OF double_ok_id, of "replicate 462825 7" "replicate 7209972 5" "- 1" 255 65535 255 0 1 0 500 0]
    fec_lookups_in_bounds [OF double_ok_id, of "replicate 462825 7" "replicate 7209972 5" 2 255 65535 255 0 1 0 500 0]
  by simp

text \<open>The policy that only uses FEC answers for a first transmission exactly when at least one millisecond
  is left before the deadline: it passes the time left as the round trip time too, and divides by it.\<close>

theorem fec_only_needs_time:
  assumes "double_ok (lm_fd M)" "length beta_array = 462825" "255 \<notin> set beta_array"
  shows "(\<exists>fp. policy_GetFECParam M beta_array FECOnlyPolicy st br ddl left rtx fs mg fixed = Inr fp) \<longleftrightarrow> rtx \<or> left \<noteq> 0"
proof (cases "rtx \<or> left = 0")
  case True
  then show ?thesis
    using fec_count_run [OF assms(1,2), where rtt = left and time = left and loss = "current_loss_rate st" and
        frame_size = fs and packet = "ucast mg"]
    by (auto simp: policy_GetFECParam_def FECOnly_GetFECParam_def)
next
  case False
  then obtain c where c: "c \<in> set beta_array"
    "get_fec_count (lm_fd M) beta_array (current_loss_rate st) fs left left (ucast mg) = Inr c"
    using fec_count_run [OF assms(1,2), where rtt = left and time = left and loss = "current_loss_rate st" and
        frame_size = fs and packet = "ucast mg"] by auto
  then have "c \<noteq> 255" using assms(3) by auto
  then show ?thesis using c False by (simp add: policy_GetFECParam_def FECOnly_GetFECParam_def)
qed

theorem fec_only_needs_time_witness:
  "\<forall>st. \<not> (\<exists>fp. policy_GetFECParam plain_libm (replicate 462825 7) FECOnlyPolicy st 0 100 0 False 10 10 False = Inr fp) \<and>
    (\<exists>fp. policy_GetFECParam plain_libm (replicate 462825 7) FECOnlyPolicy st 0 100 1 False 10 10 False = Inr fp)"
proof -
  have "double_ok (lm_fd plain_libm)" using double_ok_id by (simp add: plain_libm_def)
  from fec_only_needs_time [OF this, of "replicate 462825 7"] show ?thesis by simp
qed

text \<open>C29: with the WebRTC policy, or its variant of order 1, every frame that \<open>CreateFrame\<close> returns from has been queued
  as one frame that holds all its data packets, in batches of at most 48 data packets with at most as
  many FEC packets as data packets.\<close>

theorem webrtc_frames_protected:
  assumes M: "double_ok (lm_fd M)" and fl: "sn_fl env = lm_fd M"
    and p: "sn_policy env = policy_GetFECParam M beta_array p" "p \<in> {WebRTCPolicy fixed lr, WebRTCStarPolicy fixed lr rtt 1}"
    and run: "CreateFrame env now frame_id pkt_id max_payload data_pkt_num data_size s = Inr s'"
  shows "\<exists>fr sizes. frame_chunks (ucast max_payload) data_size 0 = Some sizes \<and> m_queue s' = m_queue s @ [fr] \<and>
    {length (heap s)..<length (heap s) + length sizes} \<subseteq> set (packets_in_Frame fr) \<and>
    (\<forall>r\<in>set (packets_in_Frame fr). counts_ok 48 (heap s' ! r))"
proof -
  obtain sizes s1 left where f: "frame_chunks (ucast max_payload) data_size 0 = Some sizes" "sizes \<noteq> []"
    "length (heap s1) = length (heap s) + length sizes" "m_queue s1 = m_queue s"
    "SendPackets env now [length (heap s)..<length (heap s) + length sizes] left frame_id False s1 = Inr s'"
    by (rule CreateFrame_run [OF run])
  have ro: "rounding_ok (sn_fl env)" using M fl by (simp add: double_ok_def)
  let ?pkts = "[length (heap s)..<length (heap s) + length sizes]"
  have refs: "?pkts \<noteq> []" "\<forall>r\<in>set ?pkts. r < length (heap s1)" using f(2,3) by simp_all
  have "\<exists>fr. m_queue s' = m_queue s1 @ [fr] \<and> set ?pkts \<subseteq> set (packets_in_Frame fr) \<and>
    (\<forall>r\<in>set (packets_in_Frame fr). counts_ok 48 (heap s' ! r))"
    using webrtc.frame_protected [OF M _ ro _ f(5) refs] webrtc_star.frame_protected [OF M _ ro _ f(5) refs] p by auto
  then show ?thesis using f(1,4) by auto
qed

theorem webrtc_frames_protected_witness:
  "\<forall>env s. \<exists>s' fr. CreateFrame (example_policy_env env) 0 3 0 1404 1 1000 (example_idle s) = Inr s' \<and>
     m_queue s' = [fr] \<and> (\<forall>r\<in>set (packets_in_Frame fr). counts_ok 48 (heap s' ! r))"
proof (intro allI)
  fix env :: "('a, 'b) sender_env" and s :: "('a, 'b) sender"
  obtain s' where run: "CreateFrame (example_policy_env env) 0 3 0 1404 1 1000 (example_idle s) = Inr s'"
    using example_frame_sent by blast
  have M: "double_ok (lm_fd plain_libm)" using double_ok_id by (simp add: plain_libm_def)
  have fl: "sn_fl (example_policy_env env) = lm_fd plain_libm" by (simp add: example_policy_env_def plain_libm_def)
  have p: "sn_policy (example_policy_env env) = policy_GetFECParam plain_libm [] (WebRTCPolicy True 0)"
    by (simp add: example_policy_env_def)
  have "WebRTCPolicy True 0 \<in> {WebRTCPolicy True 0, WebRTCStarPolicy True 0 0 1}" by simp
  from webrtc_frames_protected [OF M fl p this run] run
  show "\<exists>s' fr. CreateFrame (example_policy_env env) 0 3 0 1404 1 1000 (example_idle s) = Inr s' \<and>
     m_queue s' = [fr] \<and> (\<forall>r\<in>set (packets_in_Frame fr). counts_ok 48 (heap s' ! r))"
    by (auto simp: example_idle_def)
qed

text \<open>With the Hairpin policy no frame of a multiple of 256 packets can be sent, whatever the array
  holds: the group size is kept in 8 bits, becomes 0, and the first turn of the loop makes a batch of
  no packets.\<close>

theorem hairpin_cannot_send_256:
  assumes "sn_policy env = policy_GetFECParam M beta_array (HairpinPolicy delay_ddl qoe)"
    and "frame_chunks (ucast max_payload) data_size 0 = Some sizes" "length sizes mod 256 = 0"
  shows "CreateFrame env now frame_id pkt_id max_payload data_pkt_num data_size s \<noteq> Inr s'"
proof
  assume "CreateFrame env now frame_id pkt_id max_payload data_pkt_num data_size s = Inr s'"
  then obtain sizes2 left s1 where s2: "frame_chunks (ucast max_payload) data_size 0 = Some sizes2"
    "SendPackets env now [length (heap s)..<length (heap s) + length sizes2] left frame_id False s1 = Inr s'"
    by (rule CreateFrame_run)
  have "sizes2 = sizes" using s2(1) assms(2) by simp
  with s2(2) obtain fp u where u: "GetFECParam env (of_nat (length sizes)) left False False frame_id s1 = Inr (fp, u)"
    "fec_group_size fp \<noteq> 0"
    by (auto simp: SendPackets_def first_batches_def dest!: res_bind_InrD split: if_splits)
  then show False using GetFECParam_run [OF u(1)] hairpin_group_size assms(1,3) by fastforce
qed

theorem hairpin_cannot_send_256_witness:
  "\<forall>env s s'. CreateFrame (env\<lparr>sn_policy := policy_GetFECParam plain_libm [] (HairpinPolicy 100 0)\<rparr>)
     0 3 0 4 256 1024 s \<noteq> Inr s'"
proof -
  obtain sizes where "frame_chunks (ucast (4 :: u16)) 1024 0 = Some sizes" "length sizes mod 256 = 0"
    using frame_chunks_run [of 4 1024 0 256] by auto
  note never = hairpin_cannot_send_256 [OF _ this]
  show ?thesis
  proof (intro allI)
    fix env :: "('a, 'b) sender_env" and s s'
    let ?env = "env\<lparr>sn_policy := policy_GetFECParam plain_libm [] (HairpinPolicy 100 0)\<rparr>"
    have "sn_policy ?env = policy_GetFECParam plain_libm [] (HairpinPolicy 100 0)" by simp
    from never [OF this] show "CreateFrame ?env 0 3 0 4 256 1024 s \<noteq> Inr s'" .
  qed
qed

end
