(* ===== verification/Abc_Queue.thy ===== *)
theory Abc_Queue
  imports Zhuge_Queue
begin

text \<open>
  \<open>NetworkQueueAbc\<close> (\<open>src/zhuge/model/network-queue-abc.\{h,cc\}\<close>): the access point of ABC. Every millisecond it
  measures two rates over a window, one per busy time and one per time, and hands them to the interface with the
  delay of the queue; ACKs pass unchanged. The measurement is that of Zhuge's access point
  (\<open>Zhuge_Queue\<close>) up to its guards; what the two have in common is stated once, in the locale \<open>byte_window\<close>.
\<close>

section \<open>State\<close>

record abc_queue =
  ab_wirtcEnable :: bool
  ab_sendIP :: u32
  ab_sendPort :: u16
  ab_recvIP :: u32
  ab_recvPort :: u16
  ab_cc_create :: bool
  ab_lastTotalTxBytes :: u32
  ab_lastHeadId :: u16
  ab_lastHeadDstAddr :: u32
  ab_curQHeadTimeMs :: u32
  ab_interval :: time
  ab_mode :: int
  ab_txBytesList :: "int list"
  ab_window :: u16
  ab_minTxRateBps :: u32
  ab_curTxRateBps :: u32
  ab_curTxDelayUs :: u32
  ab_curTxTransRateBps :: u32




section \<open>The timer\<close>



text \<open>The bytes that have left the queue so far, and the slot of a tick after \<open>prev\<close> bytes.\<close>

definition left_bytes :: "'p tx_queue \<Rightarrow> u32" where
  "left_bytes q = GetTotalReceivedBytes q - GetNBytes q"

definition slot_of :: "u32 \<Rightarrow> 'p tx_queue \<Rightarrow> int" where
  "slot_of prev q =
     (if left_bytes q > prev then sint (left_bytes q - prev) else if GetNBytes q > 0 then 0 else -1)"






section \<open>Packets\<close>

text \<open>The packet that \<open>SendPkt\<close> forwards at once, if any; the other callback forwards nothing.\<close>

definition Abc_OnRecv_snddev :: "'p ip_packet \<Rightarrow> abc_queue \<Rightarrow> 'p ip_packet option" where
  "Abc_OnRecv_snddev packet s = (if ip_dst packet = ab_sendIP s then Some packet else None)"

definition Abc_OnRecv_rcvdev :: "'p ip_packet \<Rightarrow> abc_queue \<Rightarrow> bool" where
  "Abc_OnRecv_rcvdev packet s = True"

section \<open>A window of bytes\<close>


fun slots_from :: "u32 \<Rightarrow> 'p tx_queue list \<Rightarrow> int list" where
  "slots_from prev [] = []"
| "slots_from prev (q # qs) = slot_of prev q # slots_from (left_bytes q) qs"



lemma length_slots_from [simp]: "length (slots_from prev qs) = length qs"
  by (induction qs arbitrary: prev) auto









section \<open>The two access points\<close>















section \<open>Properties\<close>







end
