(* ===== verification/Fast_Ack.thy ===== *)
theory Fast_Ack
  imports Zhuge_Queue "HOL-Library.Multiset"
begin

text \<open>
  \<open>NetworkQueueFastAck\<close> (\<open>src/zhuge/model/network-queue-fastack.\{h,cc\}\<close>): the access point that acknowledges TCP
  segments on the client's behalf as soon as the device has sent them, caches them for a local retransmission
  and swallows the client's own acknowledgements. The list of packets that the device has sent (\<open>m_PacketList\<close>, a field
  the project adds to ns-3's devices) and the order of \<open>SequenceNumber32\<close> are arguments.
\<close>

section \<open>State\<close>

record 'p tcp_packet = "'p ip_packet" +
  tcp_seq :: u32
  tcp_ack :: u32
  tcp_window :: u16

record 'p fastack =
  fa_sendIP :: u32
  fa_sendPort :: u16
  fa_recvIP :: u32
  fa_recvPort :: u16
  fa_cc_create :: bool
  fa_mode :: int
  fa_AckNumber :: u32
  fa_HighestSeq :: u32
  fa_LastAckNumber :: u32
  fa_ExpAckNumber :: u32
  SndTimeHistory :: "(u32 \<times> u32) list"
  SndLengthHistory :: "(u32 \<times> u16) list"
  fa_Qseq :: "'p tcp_packet list"
  fa_cache :: "'p tcp_packet list"
  fa_RxWinSize :: u16
  fa_LastAckId :: u16
  fa_DupNumber :: u32
  fa_LastRcvAck :: u32
  CollectAckInterval :: time

text \<open>A sequence number starts at 0; the plain integers and \<open>cc_create\<close> are left unset.\<close>

definition FastAck_ctor :: "'p fastack \<Rightarrow> 'p fastack" where
  "FastAck_ctor raw = raw\<lparr>fa_AckNumber := 0, fa_HighestSeq := 0, fa_LastAckNumber := 0, fa_ExpAckNumber := 0,
     SndTimeHistory := [], SndLengthHistory := [], fa_Qseq := [], fa_cache := [], fa_LastRcvAck := 0\<rparr>"

text \<open>\<open>Setup\<close> assigns \<open>cc_create\<close> to itself: the parameter has another name.\<close>

definition FastAck_Setup :: "u32 \<Rightarrow> u16 \<Rightarrow> u32 \<Rightarrow> u16 \<Rightarrow> bool \<Rightarrow> int \<Rightarrow> 'p fastack \<Rightarrow> 'p fastack" where
  "FastAck_Setup sendIP sendPort recvIP recvPort tcpEnabled mode s =
     s\<lparr>fa_sendIP := sendIP, fa_sendPort := sendPort, fa_recvIP := recvIP, fa_recvPort := recvPort,
       fa_cc_create := fa_cc_create s, fa_mode := mode, fa_RxWinSize := 65535,
       CollectAckInterval := MicroSeconds 200\<rparr>"

text \<open>The part of \<open>InitSocket\<close> that is state of the application, and when \<open>CheckAck\<close> first runs.\<close>

definition FastAck_InitSocket :: "'p fastack \<Rightarrow> time \<times> 'p fastack" where
  "FastAck_InitSocket s = (CollectAckInterval s, s\<lparr>fa_HighestSeq := 1, fa_ExpAckNumber := 1\<rparr>)"

section \<open>Acknowledgements made here\<close>

text \<open>What is set of the acknowledgement, and the delay after which \<open>SendPkt\<close> sends it.\<close>

record fast_ack =
  fk_ack :: u32
  fk_window :: u16
  fk_id :: u16
  fk_sport :: u16
  fk_dport :: u16
  fk_src :: u32
  fk_dst :: u32
  fk_delay :: time

text \<open>The loop over the two histories, which are read at the same index: the length recorded for the segment, and the
  histories without it.\<close>

fun take_record :: "u32 \<Rightarrow> (u32 \<times> u32) list \<Rightarrow> (u32 \<times> u16) list \<Rightarrow>
    (u16 \<times> (u32 \<times> u32) list \<times> (u32 \<times> u16) list) option res" where
  "take_record seq [] ls = Inr None"
| "take_record seq (t # ts) [] =
     (if fst t = seq then Inl UndefinedBehaviour
      else res_bind (take_record seq ts []) (\<lambda>r. Inr (map_option (\<lambda>(n, ts', ls'). (n, t # ts', ls')) r)))"
| "take_record seq (t # ts) (l # ls) =
     (if fst t = seq \<and> fst l = seq then Inr (Some (snd l, ts, ls))
      else res_bind (take_record seq ts ls) (\<lambda>r. Inr (map_option (\<lambda>(n, ts', ls'). (n, t # ts', l # ls')) r)))"

definition to_receiver :: "'p fastack \<Rightarrow> 'p tcp_packet \<Rightarrow> bool" where
  "to_receiver s p \<longleftrightarrow> ip_dst p = fa_recvIP s \<and> ip_proto p = 6"

text \<open>One turn of the loop of \<open>CreateAckPkt\<close>, for the packet at the front. A segment that starts where the last
  acknowledgement made here ended is not acknowledged.\<close>

definition ack_one :: "'p tcp_packet \<Rightarrow> 'p fastack \<Rightarrow> (fast_ack list \<times> 'p fastack) res" where
  "ack_one p s =
     (if \<not> to_receiver s p then Inr ([], s)
      else
        res_bind (take_record (tcp_seq p) (SndTimeHistory s) (SndLengthHistory s)) (\<lambda>r.
        case r of
          None \<Rightarrow> Inr ([], s)
        | Some (len, ts, ls) \<Rightarrow>
            if tcp_seq p = fa_LastAckNumber s then Inr ([], s\<lparr>SndTimeHistory := ts, SndLengthHistory := ls\<rparr>)
            else
              let n = tcp_seq p + ucast len
              in Inr ([\<lparr>fk_ack = n, fk_window = fa_RxWinSize s - 0, fk_id = fa_LastAckId s + 1,
                       fk_sport = fa_recvPort s, fk_dport = fa_sendPort s, fk_src = fa_recvIP s, fk_dst = fa_sendIP s,
                       fk_delay = (if fa_mode s = 0 then 0 else MilliSeconds 16)\<rparr>],
                     s\<lparr>SndTimeHistory := ts, SndLengthHistory := ls, fa_AckNumber := n, fa_LastAckNumber := n,
                       fa_LastAckId := fa_LastAckId s + 1\<rparr>)))"

text \<open>The loop, whose index grows while the queue that bounds it shrinks.\<close>

fun create_acks :: "nat \<Rightarrow> 'p tcp_packet list \<Rightarrow> 'p fastack \<Rightarrow> (fast_ack list \<times> 'p tcp_packet list \<times> 'p fastack) res" where
  "create_acks index [] s = Inr ([], [], s)"
| "create_acks index (p # q) s =
     (if index < length (p # q) then
        res_bind (ack_one p s) (\<lambda>(a, s).
        res_bind (create_acks (index + 1) q s) (\<lambda>(as, q', s). Inr (a @ as, q', s)))
      else Inr ([], p # q, s))"

definition CreateAckPkt :: "'p fastack \<Rightarrow> (fast_ack list \<times> 'p fastack) res" where
  "CreateAckPkt s = res_bind (create_acks 0 (fa_Qseq s) s) (\<lambda>(as, q, s). Inr (as, s\<lparr>fa_Qseq := q\<rparr>))"

definition ack_queue :: "'p fastack \<Rightarrow> (fast_ack list \<times> 'p fastack) res" where
  "ack_queue s = (if 0 < length (fa_Qseq s) then CreateAckPkt s else Inr ([], s))"

text \<open>\<open>CheckAck\<close>: the acknowledgements made, the timers scheduled, and the state. Outside mode 0 the code after the
  branch is run a second time.\<close>

definition CheckAck :: "'p tcp_packet list \<Rightarrow> 'p fastack \<Rightarrow> (fast_ack list \<times> time list \<times> 'p fastack) res" where
  "CheckAck m_PacketList s =
     (let s = s\<lparr>fa_Qseq := fa_Qseq s @ m_PacketList\<rparr> in
      res_bind (if fa_mode s = 0 then Inr ([], [], s)
                else res_bind (ack_queue s) (\<lambda>(as, s). Inr (as, [CollectAckInterval s], s)))
        (\<lambda>(as1, timers, s).
      res_bind (ack_queue s) (\<lambda>(as2, s). Inr (as1 @ as2, timers @ [CollectAckInterval s], s))))"

section \<open>Packets\<close>

datatype 'p fa_out = Forward "'p tcp_packet" | Retransmit "'p tcp_packet"

definition segment_end :: "'p tcp_packet \<Rightarrow> u32" where
  "segment_end p = tcp_seq p + word_of_int (uint (ip_payload_size p) - 20)"

text \<open>A third acknowledgement with the same number sends the segment that starts there again, once. A new one drops
  the cached segments up to the one that ends at the previous number.\<close>

definition retransmit :: "u32 \<Rightarrow> 'p fastack \<Rightarrow> 'p fa_out list \<times> 'p fastack" where
  "retransmit seq s =
     (case dropWhile (\<lambda>p. tcp_seq p \<noteq> seq) (fa_cache s) of
        [] \<Rightarrow> ([], s)
      | p # rest \<Rightarrow>
          ([Retransmit p], s\<lparr>fa_cache := takeWhile (\<lambda>p. tcp_seq p \<noteq> seq) (fa_cache s) @ rest\<rparr>))"

definition drop_cached :: "u32 \<Rightarrow> 'p tcp_packet list \<Rightarrow> 'p tcp_packet list" where
  "drop_cached prev cache =
     (case dropWhile (\<lambda>p. segment_end p \<noteq> prev) cache of [] \<Rightarrow> cache | p # rest \<Rightarrow> rest)"

definition FastAck_OnRecv_snddev :: "(u32 \<Rightarrow> u32 \<Rightarrow> bool) \<Rightarrow> 'p tcp_packet \<Rightarrow> 'p fastack \<Rightarrow>
    'p fa_out list \<times> 'p fastack" where
  "FastAck_OnRecv_snddev seq_gt packet s =
     (if ip_dst packet = fa_sendIP s \<and> ip_proto packet = 6 then
        if tcp_flags packet = 16 then
          let s = s\<lparr>fa_RxWinSize := tcp_window packet\<rparr>; seq = tcp_ack packet
          in if seq = fa_LastRcvAck s then
               let s = s\<lparr>fa_DupNumber := fa_DupNumber s + 1\<rparr>
               in if fa_DupNumber s = 3 then retransmit seq s else ([], s)
             else if seq_gt seq (fa_LastRcvAck s) then
               ([], s\<lparr>fa_cache := drop_cached (fa_LastRcvAck s) (fa_cache s), fa_DupNumber := 1, fa_LastRcvAck := seq\<rparr>)
             else ([], s)
        else ([Forward packet], s)
      else ([], s))"

definition recorded :: "'p fastack \<Rightarrow> 'p tcp_packet \<Rightarrow> bool" where
  "recorded s p \<longleftrightarrow> fa_cc_create s \<and> ip_proto p = 6 \<and> ip_dst p = fa_recvIP s \<and> tcp_flags p = 16 \<and>
     ip_payload_size p > 20"

definition FastAck_OnRecv_rcvdev :: "time \<Rightarrow> 'p tcp_packet \<Rightarrow> 'p fastack \<Rightarrow> 'p fastack" where
  "FastAck_OnRecv_rcvdev now packet s =
     (if recorded s packet then
        let SndTime = word_of_int (GetMilliSeconds now) - 25 :: u32;
            SndLength = ip_payload_size packet - 20; seq = tcp_seq packet
        in s\<lparr>SndTimeHistory := SndTimeHistory s @ [(seq, SndTime)],
             SndLengthHistory := SndLengthHistory s @ [(seq, SndLength)],
             fa_HighestSeq := (if seq = fa_ExpAckNumber s then seq else fa_HighestSeq s),
             fa_ExpAckNumber := seq + ucast SndLength, fa_cache := fa_cache s @ [packet]\<rparr>
      else s)"

section \<open>Runs\<close>

text \<open>What happens at the access point: a packet for the client, the timer with the packets the device has sent since
  the last one, a packet of the client. The callback for the latter is only registered with \<open>cc_create\<close>.\<close>

datatype 'p fa_event = DataIn time "'p tcp_packet" | Timer "'p tcp_packet list" | ClientIn "'p tcp_packet"

fun fa_step :: "(u32 \<Rightarrow> u32 \<Rightarrow> bool) \<Rightarrow> 'p fa_event \<Rightarrow> 'p fastack \<Rightarrow>
    (fast_ack list \<times> 'p fa_out list \<times> 'p fastack) res" where
  "fa_step gt (DataIn now p) s = Inr ([], [], FastAck_OnRecv_rcvdev now p s)"
| "fa_step gt (Timer ps) s = res_bind (CheckAck ps s) (\<lambda>(as, timers, s). Inr (as, [], s))"
| "fa_step gt (ClientIn p) s =
     (if fa_cc_create s then case FastAck_OnRecv_snddev gt p s of (out, s') \<Rightarrow> Inr ([], out, s') else Inr ([], [], s))"

fun fa_run :: "(u32 \<Rightarrow> u32 \<Rightarrow> bool) \<Rightarrow> 'p fa_event list \<Rightarrow> 'p fastack \<Rightarrow>
    (fast_ack list \<times> 'p fa_out list \<times> 'p fastack) res" where
  "fa_run gt [] s = Inr ([], [], s)"
| "fa_run gt (e # es) s =
     res_bind (fa_step gt e s) (\<lambda>(as, out, s).
     res_bind (fa_run gt es s) (\<lambda>(as', out', s). Inr (as @ as', out @ out', s)))"

text \<open>The segments that a run records, and the end of the one a record is for.\<close>

fun recorded_of :: "'p fastack \<Rightarrow> 'p fa_event list \<Rightarrow> 'p tcp_packet list" where
  "recorded_of s [] = []"
| "recorded_of s (DataIn now p # es) = (if recorded s p then p # recorded_of s es else recorded_of s es)"
| "recorded_of s (e # es) = recorded_of s es"

abbreviation record_end :: "u32 \<times> u16 \<Rightarrow> u32" where
  "record_end r \<equiv> fst r + ucast (snd r)"

text \<open>The two histories are parallel.\<close>

definition parallel :: "'p fastack \<Rightarrow> bool" where
  "parallel s \<longleftrightarrow> map fst (SndTimeHistory s) = map fst (SndLengthHistory s)"

lemma take_record_run:
  assumes "map fst ts = map fst ls"
  shows "take_record seq ts ls = Inr None \<and> seq \<notin> fst ` set ls \<or>
    (\<exists>xs n ys ts'. ls = xs @ (seq, n) # ys \<and> seq \<notin> fst ` set xs \<and> map fst ts' = map fst (xs @ ys) \<and>
       take_record seq ts ls = Inr (Some (n, ts', xs @ ys)))"
  using assms
proof (induction ls arbitrary: ts)
  case (Cons l ls)
  then obtain t ts1 where ts: "ts = t # ts1" "fst t = fst l" "map fst ts1 = map fst ls" by (cases ts) auto
  show ?case
  proof (cases "fst l = seq")
    case True
    then have "take_record seq ts (l # ls) = Inr (Some (snd l, ts1, ls))" "l # ls = [] @ (seq, snd l) # ls"
      using ts by auto
    then show ?thesis using ts(3) by (metis append_Nil empty_iff image_is_empty list.set(1))
  next
    case False
    from Cons.IH [OF ts(3)] show ?thesis
    proof
      assume "take_record seq ts1 ls = Inr None \<and> seq \<notin> fst ` set ls"
      then show ?thesis using False ts by auto
    next
      assume "\<exists>xs n ys ts'. ls = xs @ (seq, n) # ys \<and> seq \<notin> fst ` set xs \<and> map fst ts' = map fst (xs @ ys) \<and>
       take_record seq ts1 ls = Inr (Some (n, ts', xs @ ys))"
      then obtain xs n ys ts' where r: "ls = xs @ (seq, n) # ys" "seq \<notin> fst ` set xs" "map fst ts' = map fst (xs @ ys)"
       "take_record seq ts1 ls = Inr (Some (n, ts', xs @ ys))" by blast
      have "l # ls = (l # xs) @ (seq, n) # ys" "seq \<notin> fst ` set (l # xs)"
        "map fst (t # ts') = map fst ((l # xs) @ ys)"
        "take_record seq ts (l # ls) = Inr (Some (n, t # ts', (l # xs) @ ys))"
        using r ts False by auto
      then show ?thesis by blast
    qed
  qed
qed simp

text \<open>What a turn of the loop does, as a relation between states that all later facts use.\<close>

definition fa_frame :: "'p fastack \<Rightarrow> 'p fastack \<Rightarrow> bool" where
  "fa_frame s s' \<longleftrightarrow> fa_recvIP s' = fa_recvIP s \<and> fa_cc_create s' = fa_cc_create s \<and> fa_mode s' = fa_mode s \<and>
     fa_cache s' = fa_cache s"

definition acks_from :: "'p fastack \<Rightarrow> fast_ack list \<Rightarrow> 'p fastack \<Rightarrow> bool" where
  "acks_from s as s' \<longleftrightarrow> fa_frame s s' \<and> parallel s' \<and>
     mset (map fk_ack as) + mset (map record_end (SndLengthHistory s')) \<subseteq># mset (map record_end (SndLengthHistory s))"

lemma acks_from_trans:
  assumes "acks_from s as t" "acks_from t bs u"
  shows "acks_from s (as @ bs) u"
proof -
  have "mset (map fk_ack as) + (mset (map fk_ack bs) + mset (map record_end (SndLengthHistory u)))
      \<subseteq># mset (map record_end (SndLengthHistory s))"
    using assms by (auto simp: acks_from_def intro: subset_mset.order_trans [OF subset_mset.add_left_mono])
  then show ?thesis using assms by (auto simp: acks_from_def fa_frame_def ac_simps)
qed

lemma ack_one_run:
  assumes "parallel s"
  shows "\<exists>as s'. ack_one p s = Inr (as, s') \<and> acks_from s as s' \<and> fa_Qseq s' = fa_Qseq s"
proof (cases "to_receiver s p")
  case False
  then show ?thesis using assms by (simp add: ack_one_def acks_from_def fa_frame_def)
next
  case True
  from take_record_run [OF assms [unfolded parallel_def], of "tcp_seq p"] show ?thesis
  proof
    assume "take_record (tcp_seq p) (SndTimeHistory s) (SndLengthHistory s) = Inr None \<and>
      tcp_seq p \<notin> fst ` set (SndLengthHistory s)"
    then show ?thesis using True assms by (simp add: ack_one_def acks_from_def fa_frame_def)
  next
    assume "\<exists>xs n ys ts'. SndLengthHistory s = xs @ (tcp_seq p, n) # ys \<and> tcp_seq p \<notin> fst ` set xs \<and>
      map fst ts' = map fst (xs @ ys) \<and>
      take_record (tcp_seq p) (SndTimeHistory s) (SndLengthHistory s) = Inr (Some (n, ts', xs @ ys))"
    then obtain xs n ys ts' where r: "SndLengthHistory s = xs @ (tcp_seq p, n) # ys" "map fst ts' = map fst (xs @ ys)"
      "take_record (tcp_seq p) (SndTimeHistory s) (SndLengthHistory s) = Inr (Some (n, ts', xs @ ys))" by blast
    then show ?thesis using True
      by (auto simp: ack_one_def acks_from_def fa_frame_def parallel_def Let_def)
  qed
qed

lemma create_acks_run:
  assumes "parallel s"
  shows "\<exists>as q' s'. create_acks i q s = Inr (as, q', s') \<and> acks_from s as s' \<and> fa_Qseq s' = fa_Qseq s"
  using assms
proof (induction q arbitrary: i s)
  case Nil
  then show ?case by (simp add: acks_from_def fa_frame_def)
next
  case (Cons p q)
  show ?case
  proof (cases "i < length (p # q)")
    case False
    then show ?thesis using Cons.prems by (auto simp: acks_from_def fa_frame_def)
  next
    case True
    obtain as t where t: "ack_one p s = Inr (as, t)" "acks_from s as t" "fa_Qseq t = fa_Qseq s"
      using ack_one_run [OF Cons.prems] by blast
    have "parallel t" using t(2) by (simp add: acks_from_def)
    then obtain bs q' u where u: "create_acks (i + 1) q t = Inr (bs, q', u)" "acks_from t bs u" "fa_Qseq u = fa_Qseq t"
      using Cons.IH by blast
    then show ?thesis using True t acks_from_trans [OF t(2) u(2)] by auto
  qed
qed

lemma acks_from_Qseq: "acks_from s as s' \<Longrightarrow> acks_from (s\<lparr>fa_Qseq := q\<rparr>) as (s'\<lparr>fa_Qseq := q'\<rparr>)"
  by (simp add: acks_from_def fa_frame_def parallel_def)

lemma ack_queue_run:
  assumes "parallel s"
  shows "\<exists>as s'. ack_queue s = Inr (as, s') \<and> acks_from s as s'"
proof -
  obtain as q' s' where "create_acks 0 (fa_Qseq s) s = Inr (as, q', s')" "acks_from s as s'"
    using create_acks_run [OF assms] by blast
  moreover have "acks_from s [] s" using assms by (simp add: acks_from_def fa_frame_def)
  ultimately show ?thesis using acks_from_Qseq [of s as s' "fa_Qseq s" q'] by (auto simp: ack_queue_def CreateAckPkt_def)
qed

lemma CheckAck_run:
  assumes "parallel s"
  shows "\<exists>as ts s'. CheckAck ps s = Inr (as, ts, s') \<and> acks_from s as s'"
proof -
  let ?s = "s\<lparr>fa_Qseq := fa_Qseq s @ ps\<rparr>"
  have p: "parallel ?s" using assms by (simp add: parallel_def)
  have lift: "acks_from s as t" if "acks_from ?s as t" for as t
    using that by (simp add: acks_from_def fa_frame_def)
  obtain as s1 where 1: "ack_queue ?s = Inr (as, s1)" "acks_from ?s as s1" using ack_queue_run [OF p] by blast
  have "parallel s1" using 1(2) by (simp add: acks_from_def)
  then obtain bs s2 where 2: "ack_queue s1 = Inr (bs, s2)" "acks_from s1 bs s2" using ack_queue_run by blast
  show ?thesis
  proof (cases "fa_mode s = 0")
    case True
    then show ?thesis using 1 lift by (auto simp: CheckAck_def Let_def)
  next
    case False
    then show ?thesis using 1 2 lift [OF acks_from_trans [OF 1(2) 2(2)]] by (auto simp: CheckAck_def Let_def)
  qed
qed

section \<open>What a run sends\<close>

abbreviation own_record :: "'p tcp_packet \<Rightarrow> u32 \<times> u16" where
  "own_record p \<equiv> (tcp_seq p, ip_payload_size p - 20)"

lemma own_record_end: "20 < ip_payload_size p \<Longrightarrow> record_end (own_record p) = segment_end p"
proof -
  assume "20 < ip_payload_size p"
  then have "uint (ip_payload_size p - 20) = uint (ip_payload_size p) - 20"
    by (subst uint_minus_le) (simp_all add: word_less_def)
  moreover have "ucast (ip_payload_size p - 20) = (word_of_int (uint (ip_payload_size p - 20)) :: u32)"
    by (metis uint_widen(1) word_of_int_uint)
  ultimately show ?thesis by (simp add: segment_end_def)
qed

definition fa_same :: "'p fastack \<Rightarrow> 'p fastack \<Rightarrow> bool" where
  "fa_same s s' \<longleftrightarrow> fa_recvIP s' = fa_recvIP s \<and> fa_cc_create s' = fa_cc_create s"

lemma recorded_of_same: "fa_same s s' \<Longrightarrow> recorded_of s' es = recorded_of s es"
  by (induction s es rule: recorded_of.induct) (auto simp: recorded_def fa_same_def)

text \<open>The acknowledgements made, the histories that are left and the cache after a run, against what it recorded.\<close>

definition run_ok :: "'p fastack \<Rightarrow> 'p tcp_packet list \<Rightarrow> fast_ack list \<Rightarrow> 'p fa_out list \<Rightarrow> 'p fastack \<Rightarrow> bool" where
  "run_ok s rs as out s' \<longleftrightarrow> fa_same s s' \<and> parallel s' \<and>
     mset (map fk_ack as) + mset (map record_end (SndLengthHistory s')) \<subseteq>#
       mset (map record_end (SndLengthHistory s)) + mset (map segment_end rs) \<and>
     {p. Forward p \<in> set out} \<subseteq> {p. tcp_flags p \<noteq> 16} \<and>
     {p. Retransmit p \<in> set out} \<union> set (fa_cache s') \<subseteq> set (fa_cache s) \<union> set rs"

lemma run_ok_trans:
  assumes "run_ok s rs as out t" "run_ok t rs' as' out' u"
  shows "run_ok s (rs @ rs') (as @ as') (out @ out') u"
proof -
  have "mset (map fk_ack as) + (mset (map fk_ack as') + mset (map record_end (SndLengthHistory u)))
      \<subseteq># mset (map fk_ack as) + (mset (map record_end (SndLengthHistory t)) + mset (map segment_end rs'))"
    using assms(2) by (intro subset_mset.add_left_mono) (simp add: run_ok_def)
  also have "\<dots> \<subseteq># mset (map record_end (SndLengthHistory s)) + mset (map segment_end rs) + mset (map segment_end rs')"
    using assms(1) by (simp add: run_ok_def add.assoc [symmetric])
  finally have "mset (map fk_ack (as @ as')) + mset (map record_end (SndLengthHistory u))
      \<subseteq># mset (map record_end (SndLengthHistory s)) + mset (map segment_end (rs @ rs'))" by (simp add: ac_simps)
  then show ?thesis using assms unfolding run_ok_def fa_same_def by auto
qed

lemma set_dropWhile_subset: "set (dropWhile P xs) \<subseteq> set xs"
  by (auto dest: set_dropWhileD)

lemma drop_cached_set: "set (drop_cached prev cache) \<subseteq> set cache"
  using set_dropWhile_subset [of "\<lambda>p. segment_end p \<noteq> prev" cache]
  by (cases "dropWhile (\<lambda>p. segment_end p \<noteq> prev) cache") (simp_all add: drop_cached_def del: dropWhile_eq_Nil_conv)

lemma retransmit_run:
  assumes "retransmit seq s = (out, s')"
  shows "\<exists>c. s' = s\<lparr>fa_cache := c\<rparr> \<and> {p. Forward p \<in> set out} = {} \<and>
    {p. Retransmit p \<in> set out} \<union> set c \<subseteq> set (fa_cache s)"
proof (cases "dropWhile (\<lambda>p. tcp_seq p \<noteq> seq) (fa_cache s)")
  case Nil
  then show ?thesis using assms
    by (intro exI [of _ "fa_cache s"]) (simp add: retransmit_def Nil del: dropWhile_eq_Nil_conv)
next
  case (Cons p rest)
  have "set (takeWhile (\<lambda>p. tcp_seq p \<noteq> seq) (fa_cache s)) \<subseteq> set (fa_cache s)" by (auto dest: set_takeWhileD)
  with set_dropWhile_subset [of "\<lambda>p. tcp_seq p \<noteq> seq" "fa_cache s"] show ?thesis using assms Cons
    by (intro exI [of _ "takeWhile (\<lambda>p. tcp_seq p \<noteq> seq) (fa_cache s) @ rest"]) (auto simp: retransmit_def)
qed

lemma snddev_run:
  assumes "parallel s" "FastAck_OnRecv_snddev gt p s = (out, s')"
  shows "run_ok s [] [] out s'"
proof -
  let ?t = "s\<lparr>fa_RxWinSize := tcp_window p, fa_DupNumber := fa_DupNumber s + 1\<rparr>"
  have r: "run_ok s [] [] out s'" if "retransmit (tcp_ack p) ?t = (out, s')"
    using retransmit_run [OF that] assms(1) by (auto simp: run_ok_def fa_same_def parallel_def)
  show ?thesis
    using assms r drop_cached_set [of "fa_LastRcvAck s" "fa_cache s"]
    by (auto simp: FastAck_OnRecv_snddev_def Let_def run_ok_def fa_same_def parallel_def split: if_splits)
qed

lemma rcvdev_run:
  assumes "parallel s"
  shows "run_ok s (if recorded s p then [p] else []) [] [] (FastAck_OnRecv_rcvdev now p s)"
proof (cases "recorded s p")
  case True
  then have "tcp_seq p + ucast (ip_payload_size p - 20) = segment_end p"
    using own_record_end [of p] by (simp add: recorded_def)
  then show ?thesis using True assms
    by (auto simp: FastAck_OnRecv_rcvdev_def Let_def run_ok_def fa_same_def parallel_def)
next
  case False
  then show ?thesis using assms by (auto simp: FastAck_OnRecv_rcvdev_def run_ok_def fa_same_def)
qed

lemma fa_step_run:
  assumes "parallel s"
  shows "\<exists>as out s'. fa_step gt e s = Inr (as, out, s') \<and> run_ok s (recorded_of s [e]) as out s'"
proof (cases e)
  case (DataIn now p)
  then show ?thesis using rcvdev_run [OF assms, of p now] by (cases "recorded s p") simp_all
next
  case (Timer ps)
  obtain as ts s' where "CheckAck ps s = Inr (as, ts, s')" "acks_from s as s'" using CheckAck_run [OF assms] by blast
  then show ?thesis using Timer by (auto simp: run_ok_def acks_from_def fa_frame_def fa_same_def)
next
  case (ClientIn p)
  obtain out s' where o: "FastAck_OnRecv_snddev gt p s = (out, s')" by fastforce
  have "run_ok s [] [] [] s" using assms by (auto simp: run_ok_def fa_same_def)
  then show ?thesis using ClientIn snddev_run [OF assms o] o by auto
qed

lemma recorded_of_Cons: "recorded_of s (e # es) = recorded_of s [e] @ recorded_of s es"
  by (cases e) auto

lemma fa_run_ok:
  assumes "parallel s"
  shows "\<exists>as out s'. fa_run gt es s = Inr (as, out, s') \<and> run_ok s (recorded_of s es) as out s'"
  using assms
proof (induction es arbitrary: s)
  case Nil
  then show ?case by (auto simp: run_ok_def fa_same_def)
next
  case (Cons e es)
  obtain as out t where t: "fa_step gt e s = Inr (as, out, t)" "run_ok s (recorded_of s [e]) as out t"
    using fa_step_run [OF Cons.prems] by blast
  then have "parallel t" "recorded_of t es = recorded_of s es"
    by (simp_all add: run_ok_def recorded_of_same)
  with Cons.IH obtain as' out' u where "fa_run gt es t = Inr (as', out', u)" "run_ok t (recorded_of s es) as' out' u"
    by metis
  then show ?case using t run_ok_trans [OF t(2)] by (fastforce simp: recorded_of_Cons [of s e es])
qed

section \<open>Every second segment\<close>

fun ack_all :: "'p tcp_packet list \<Rightarrow> 'p fastack \<Rightarrow> (fast_ack list \<times> 'p fastack) res" where
  "ack_all [] s = Inr ([], s)"
| "ack_all (p # ps) s = res_bind (ack_one p s) (\<lambda>(a, s). res_bind (ack_all ps s) (\<lambda>(as, s). Inr (a @ as, s)))"

text \<open>The loop leaves the second half of the queue for the next timer.\<close>

lemma create_acks_half:
  "create_acks i q s = res_bind (ack_all (take ((length q + 1 - i) div 2) q) s)
     (\<lambda>(as, s). Inr (as, drop ((length q + 1 - i) div 2) q, s))"
proof (induction q arbitrary: i s)
  case (Cons p q)
  show ?case
  proof (cases "i < length (p # q)")
    case True
    then have k: "(length (p # q) + 1 - i) div 2 = Suc ((length q + 1 - (i + 1)) div 2)" by simp
    let ?k = "(length q + 1 - (i + 1)) div 2"
    show ?thesis
    proof (cases "ack_one p s")
      case (Inr r)
      obtain a t where r: "r = (a, t)" by fastforce
      show ?thesis unfolding k using True Inr r Cons.IH [of "i + 1" t]
        by (cases "ack_all (take ?k q) t") auto
    qed (use True k in simp)
  qed simp
qed simp

lemma CreateAckPkt_half:
  "CreateAckPkt s = res_bind (ack_all (take ((length (fa_Qseq s) + 1) div 2) (fa_Qseq s)) s)
     (\<lambda>(as, s'). Inr (as, s'\<lparr>fa_Qseq := drop ((length (fa_Qseq s) + 1) div 2) (fa_Qseq s)\<rparr>))"
  by (cases "ack_all (take ((length (fa_Qseq s) + 1) div 2) (fa_Qseq s)) s")
    (auto simp: CreateAckPkt_def create_acks_half)

text \<open>Segments in order from \<open>a\<close>, and every second one of a list.\<close>

fun in_order :: "u32 \<Rightarrow> 'p tcp_packet list \<Rightarrow> bool" where
  "in_order a [] \<longleftrightarrow> True"
| "in_order a (p # ps) \<longleftrightarrow> tcp_seq p = a \<and> in_order (segment_end p) ps"

fun every_second :: "'a list \<Rightarrow> 'a list" where
  "every_second [] = []"
| "every_second [x] = [x]"
| "every_second (x # y # zs) = x # every_second zs"

definition data_for :: "'p fastack \<Rightarrow> 'p tcp_packet list \<Rightarrow> bool" where
  "data_for s ps \<longleftrightarrow> (\<forall>p\<in>set ps. to_receiver s p \<and> 20 < ip_payload_size p)"

lemma segment_end_neq: "20 < ip_payload_size p \<Longrightarrow> segment_end p \<noteq> tcp_seq p"
proof
  assume p: "20 < ip_payload_size p" and "segment_end p = tcp_seq p"
  then have "ucast (ip_payload_size p - 20) = (0 :: u32)" using own_record_end [OF p] by simp
  then have "uint (ip_payload_size p - 20) = 0" by (metis uint_widen(1) unsigned_0)
  then show False using p by (simp add: uint_0_iff)
qed

lemma ack_one_front:
  assumes "parallel s" "to_receiver s p" "20 < ip_payload_size p" "SndLengthHistory s = own_record p # rest"
  shows "\<exists>as s'. ack_one p s = Inr (as, s') \<and> parallel s' \<and> SndLengthHistory s' = rest \<and> fa_recvIP s' = fa_recvIP s \<and>
    map fk_ack as = (if tcp_seq p = fa_LastAckNumber s then [] else [segment_end p]) \<and>
    fa_LastAckNumber s' = (if tcp_seq p = fa_LastAckNumber s then fa_LastAckNumber s else segment_end p)"
proof -
  obtain t ts where ts: "SndTimeHistory s = t # ts" "fst t = tcp_seq p" "map fst ts = map fst rest"
    using assms(1,4) by (cases "SndTimeHistory s") (auto simp: parallel_def)
  have "tcp_seq p + ucast (ip_payload_size p - 20) = segment_end p" using own_record_end [OF assms(3)] by simp
  then show ?thesis using assms(2,4) ts by (auto simp: ack_one_def parallel_def Let_def)
qed

lemma ack_all_alternates:
  assumes "parallel s" "data_for s ps" "in_order a ps" "SndLengthHistory s = map own_record ps @ rest" "a \<noteq> fa_LastAckNumber s"
  shows "\<exists>as s'. ack_all ps s = Inr (as, s') \<and> map fk_ack as = map segment_end (every_second ps) \<and>
    SndLengthHistory s' = rest \<and> parallel s'"
  using assms
proof (induction ps arbitrary: s a rule: every_second.induct)
  case (2 p)
  obtain as s' where "ack_one p s = Inr (as, s')" "parallel s'" "SndLengthHistory s' = rest" "map fk_ack as = [segment_end p]"
    using ack_one_front [of s p rest] 2 by (auto simp: data_for_def)
  then show ?case by auto
next
  case (3 p q ps)
  note prems = "3.prems"
  obtain as s1 where 1: "ack_one p s = Inr (as, s1)" "parallel s1" "SndLengthHistory s1 = own_record q # map own_record ps @ rest"
    "fa_recvIP s1 = fa_recvIP s" "map fk_ack as = [segment_end p]" "fa_LastAckNumber s1 = segment_end p"
    using ack_one_front [of s p "own_record q # map own_record ps @ rest"] prems by (auto simp: data_for_def)
  have q: "to_receiver s1 q" "20 < ip_payload_size q" "tcp_seq q = fa_LastAckNumber s1"
    using prems 1(4,6) by (auto simp: data_for_def to_receiver_def)
  obtain s2 where 2: "ack_one q s1 = Inr ([], s2)" "parallel s2" "SndLengthHistory s2 = map own_record ps @ rest"
    "fa_recvIP s2 = fa_recvIP s1" "fa_LastAckNumber s2 = segment_end p"
    using ack_one_front [OF 1(2) q(1,2) 1(3)] q(3) 1(6) by auto
  have "data_for s2 ps" using prems(2) 1(4) 2(4) by (auto simp: data_for_def to_receiver_def)
  moreover have "in_order (segment_end q) ps" "segment_end q \<noteq> fa_LastAckNumber s2"
    using prems(3) segment_end_neq [OF q(2)] 2(5) by auto
  ultimately obtain bs s3 where "ack_all ps s2 = Inr (bs, s3)" "map fk_ack bs = map segment_end (every_second ps)"
    "SndLengthHistory s3 = rest" "parallel s3"
    using "3.IH" [OF 2(2) _ _ 2(3)] by blast
  then show ?case using 1 2 by auto
qed auto

text \<open>Segments that start where the last acknowledgement ended are passed over.\<close>

lemma ack_one_skips:
  assumes "parallel s" "to_receiver s p \<longrightarrow> tcp_seq p = fa_LastAckNumber s"
  shows "\<exists>s'. ack_one p s = Inr ([], s') \<and> parallel s' \<and> fa_LastAckNumber s' = fa_LastAckNumber s \<and>
    fa_recvIP s' = fa_recvIP s \<and> fa_cc_create s' = fa_cc_create s"
  using ack_one_run [OF assms(1), of p] assms(2)
  by (auto simp: ack_one_def acks_from_def fa_frame_def dest!: res_bind_InrD split: option.splits if_splits)

lemma ack_all_skips:
  assumes "parallel s" "\<forall>p\<in>set ps. to_receiver s p \<longrightarrow> tcp_seq p = fa_LastAckNumber s"
  shows "\<exists>s'. ack_all ps s = Inr ([], s') \<and> parallel s' \<and> fa_LastAckNumber s' = fa_LastAckNumber s \<and>
    fa_recvIP s' = fa_recvIP s \<and> fa_cc_create s' = fa_cc_create s"
  using assms
proof (induction ps arbitrary: s)
  case (Cons p ps)
  obtain t where t: "ack_one p s = Inr ([], t)" "parallel t" "fa_LastAckNumber t = fa_LastAckNumber s"
    "fa_recvIP t = fa_recvIP s" "fa_cc_create t = fa_cc_create s"
    using ack_one_skips [of s p] Cons.prems by auto
  then show ?case using Cons.IH [of t] Cons.prems by (auto simp: to_receiver_def)
qed auto

text \<open>A state in which everything that waits starts at the last number.\<close>

definition only_last :: "'p fastack \<Rightarrow> 'p tcp_packet list \<Rightarrow> bool" where
  "only_last s ps \<longleftrightarrow> (\<forall>p\<in>set ps. to_receiver s p \<longrightarrow> tcp_seq p = fa_LastAckNumber s)"

definition waits :: "'p fastack \<Rightarrow> 'p fastack \<Rightarrow> bool" where
  "waits s s' \<longleftrightarrow> parallel s' \<and> only_last s' (fa_Qseq s') \<and> fa_LastAckNumber s' = fa_LastAckNumber s \<and>
     fa_recvIP s' = fa_recvIP s \<and> fa_cc_create s' = fa_cc_create s"

lemma ack_queue_waits:
  assumes "waits s0 s"
  shows "\<exists>s'. ack_queue s = Inr ([], s') \<and> waits s0 s'"
proof -
  let ?k = "(length (fa_Qseq s) + 1) div 2"
  have w: "parallel s" "only_last s (fa_Qseq s)" using assms by (simp_all add: waits_def)
  have "\<forall>p\<in>set (take ?k (fa_Qseq s)). to_receiver s p \<longrightarrow> tcp_seq p = fa_LastAckNumber s"
    using w(2) by (auto simp: only_last_def dest: in_set_takeD)
  then obtain t where t: "ack_all (take ?k (fa_Qseq s)) s = Inr ([], t)" "parallel t" "fa_LastAckNumber t = fa_LastAckNumber s"
    "fa_recvIP t = fa_recvIP s" "fa_cc_create t = fa_cc_create s"
    using ack_all_skips [OF w(1)] by blast
  have "waits s0 (t\<lparr>fa_Qseq := drop ?k (fa_Qseq s)\<rparr>)"
    using assms t w(2) by (auto simp: waits_def only_last_def parallel_def to_receiver_def dest: in_set_dropD)
  then show ?thesis using t(1) assms by (auto simp: ack_queue_def CreateAckPkt_half)
qed

lemma CheckAck_waits:
  assumes "waits s0 s" "only_last s ps"
  shows "\<exists>ts s'. CheckAck ps s = Inr ([], ts, s') \<and> waits s0 s'"
proof -
  let ?s = "s\<lparr>fa_Qseq := fa_Qseq s @ ps\<rparr>"
  have "waits s0 ?s" using assms by (auto simp: waits_def only_last_def parallel_def to_receiver_def)
  then obtain s1 where 1: "ack_queue ?s = Inr ([], s1)" "waits s0 s1" using ack_queue_waits by blast
  then obtain s2 where 2: "ack_queue s1 = Inr ([], s2)" "waits s0 s2" using ack_queue_waits by blast
  show ?thesis using 1 2 by (cases "fa_mode s = 0") (auto simp: CheckAck_def Let_def)
qed

text \<open>The device only sends that segment again, and the client only acknowledges.\<close>

fun stuck_event :: "'p fastack \<Rightarrow> 'p fa_event \<Rightarrow> bool" where
  "stuck_event s (DataIn now p) \<longleftrightarrow> True"
| "stuck_event s (Timer ps) \<longleftrightarrow> only_last s ps"
| "stuck_event s (ClientIn p) \<longleftrightarrow> tcp_flags p = 16"

lemma snddev_waits:
  assumes "waits s0 s" "FastAck_OnRecv_snddev gt p s = (out, s')"
  shows "waits s0 s'"
proof -
  have "fa_Qseq s' = fa_Qseq s \<and> fa_LastAckNumber s' = fa_LastAckNumber s"
    using assms(2) by (auto simp: FastAck_OnRecv_snddev_def retransmit_def Let_def split: if_splits list.splits)
  moreover have "parallel s'" "fa_recvIP s' = fa_recvIP s" "fa_cc_create s' = fa_cc_create s"
    using snddev_run [OF _ assms(2)] assms(1) by (auto simp: run_ok_def fa_same_def waits_def)
  ultimately show ?thesis using assms(1) by (auto simp: waits_def only_last_def to_receiver_def)
qed

lemma fa_run_waits:
  assumes "waits s0 s" "list_all (stuck_event s0) es"
  shows "\<exists>out s'. fa_run gt es s = Inr ([], out, s') \<and> waits s0 s' \<and> {p. Forward p \<in> set out} = {}"
  using assms
proof (induction es arbitrary: s)
  case (Cons e es)
  have par: "parallel s" using Cons.prems by (simp add: waits_def)
  obtain out t where t: "fa_step gt e s = Inr ([], out, t)" "waits s0 t" "{p. Forward p \<in> set out} = {}"
  proof (cases e)
    case (DataIn now p)
    have "waits s0 (FastAck_OnRecv_rcvdev now p s)"
      using Cons.prems(1) rcvdev_run [OF par, of p now]
      by (auto simp: waits_def run_ok_def fa_same_def only_last_def to_receiver_def FastAck_OnRecv_rcvdev_def Let_def)
    then show ?thesis using that DataIn by simp
  next
    case (Timer ps)
    have "only_last s ps" using Cons.prems Timer by (auto simp: waits_def only_last_def to_receiver_def)
    from CheckAck_waits [OF Cons.prems(1) this] show ?thesis using that Timer by auto
  next
    case (ClientIn p)
    obtain out s' where o: "FastAck_OnRecv_snddev gt p s = (out, s')" by fastforce
    have flags: "tcp_flags p = 16" using Cons.prems(2) ClientIn by simp
    have "{p. Forward p \<in> set out} = {}"
      using o retransmit_run by (fastforce simp: FastAck_OnRecv_snddev_def flags Let_def split: if_splits)
    then show ?thesis
      using that [of out s'] that [of "[]" s] ClientIn o snddev_waits [OF Cons.prems(1) o] Cons.prems(1)
      by (cases "fa_cc_create s") auto
  qed
  have "list_all (stuck_event s0) es" using Cons.prems(2) by simp
  from Cons.IH [OF t(2) this] t show ?case by auto
qed simp

text \<open>Outside mode 0 every timer schedules two, so their number doubles every 200 microseconds; \<open>m_checkack\<close>, which
  \<open>StopApplication\<close> cancels, holds one of them.\<close>

lemma CheckAck_timers: "CheckAck ps s = Inr (as, ts, s') \<Longrightarrow> length ts = (if fa_mode s = 0 then 1 else 2)"
  by (auto simp: CheckAck_def Let_def dest!: res_bind_InrD split: if_splits)

section \<open>Properties\<close>

text \<open>Segments of 100 bytes for the witnesses.\<close>

definition example_segment :: "u32 \<Rightarrow> bytes tcp_packet" where
  "example_segment n = \<lparr>ip_src = 1, ip_dst = 2, ip_id = 7, ip_proto = 6, ip_payload_size = 120,
     udp_sport = 5000, tcp_flags = 16, is_action = False, pk_size = 140, pk_size_udp = 120,
     pk_left = 900, pk_app = [], tcp_seq = n, tcp_ack = 101, tcp_window = 1000\<rparr>"

definition example_fastack :: "bytes fastack \<Rightarrow> bytes tcp_packet list \<Rightarrow> bytes fastack" where
  "example_fastack raw ps = raw\<lparr>fa_recvIP := 2, fa_mode := 0, fa_LastAckNumber := 101, fa_Qseq := [],
     SndTimeHistory := map (\<lambda>p. (tcp_seq p, 0)) ps, SndLengthHistory := map own_record ps\<rparr>"

lemma example_segment_end: "segment_end (example_segment n) = n + 100"
  by (simp add: segment_end_def example_segment_def)

lemma example_fields:
  "fa_mode (example_fastack raw ps) = 0" "fa_Qseq (example_fastack raw ps) = []"
  "fa_LastAckNumber (example_fastack raw ps) = 101" "SndLengthHistory (example_fastack raw ps) = map own_record ps"
  "tcp_seq (example_segment n) = n"
  by (simp_all add: example_fastack_def example_segment_def)

lemma example_fastack_data: "data_for (example_fastack raw ps) (map example_segment ns)"
  by (auto simp: data_for_def to_receiver_def example_segment_def example_fastack_def)

text \<open>C32: no run of the access point fails. Every acknowledgement it makes up is for the end of a data segment that came
  in for the client, each segment at most once; what it sends again to the client came in for it; and it never forwards a
  packet of the client that carries the ACK flag alone.\<close>

theorem fast_acks_backed:
  "\<exists>as out s'. fa_run gt es (snd (FastAck_InitSocket (FastAck_Setup sip sport rip rport tcp mode (FastAck_ctor raw)))) =
      Inr (as, out, s') \<and>
    mset (map fk_ack as) \<subseteq># mset (map segment_end (recorded_of (raw\<lparr>fa_recvIP := rip\<rparr>) es)) \<and>
    {p. Retransmit p \<in> set out} \<subseteq> set (recorded_of (raw\<lparr>fa_recvIP := rip\<rparr>) es) \<and>
    {p. Forward p \<in> set out} \<subseteq> {p. tcp_flags p \<noteq> 16}"
proof -
  let ?s = "snd (FastAck_InitSocket (FastAck_Setup sip sport rip rport tcp mode (FastAck_ctor raw)))"
  note defs = FastAck_InitSocket_def FastAck_Setup_def FastAck_ctor_def
  have s: "parallel ?s" "SndLengthHistory ?s = []" "fa_cache ?s = []" by (simp_all add: parallel_def defs)
  obtain as out s' where "fa_run gt es ?s = Inr (as, out, s')" "run_ok ?s (recorded_of ?s es) as out s'"
    using fa_run_ok [OF s(1)] by blast
  moreover have "recorded_of ?s es = recorded_of (raw\<lparr>fa_recvIP := rip\<rparr>) es"
    by (rule recorded_of_same) (simp add: fa_same_def defs)
  ultimately show ?thesis
    using s by (auto simp: run_ok_def intro: subset_mset.order_trans [OF mset_subset_eq_add_left])
qed

text \<open>When the device has sent segments in order that the histories record in the same order, and the first does not
  start at the last number acknowledged here, the timer acknowledges every second segment of the first half
  of them, in order, and leaves the second half waiting, with its records.\<close>

theorem every_second_acknowledged:
  assumes "parallel s" "fa_mode s = 0" "fa_Qseq s = []" "data_for s ps" "in_order a ps" "a \<noteq> fa_LastAckNumber s"
    "SndLengthHistory s = map own_record ps @ rest" "ps \<noteq> []"
  shows "\<exists>as s'. CheckAck ps s = Inr (as, [CollectAckInterval s'], s') \<and>
    map fk_ack as = map segment_end (every_second (take ((length ps + 1) div 2) ps)) \<and>
    fa_Qseq s' = drop ((length ps + 1) div 2) ps \<and>
    SndLengthHistory s' = map own_record (drop ((length ps + 1) div 2) ps) @ rest"
proof -
  let ?k = "(length ps + 1) div 2" and ?s = "s\<lparr>fa_Qseq := ps\<rparr>"
  have "in_order a (take k ps)" for k
    using assms(5) by (induction a ps arbitrary: k rule: in_order.induct) (auto split: nat.splits simp: take_Cons)
  moreover have "data_for ?s (take ?k ps)"
    using assms(4) by (auto simp: data_for_def to_receiver_def dest: in_set_takeD)
  moreover have "parallel ?s" "a \<noteq> fa_LastAckNumber ?s" using assms(1,6) by (simp_all add: parallel_def)
  moreover have "SndLengthHistory ?s = map own_record (take ?k ps) @ map own_record (drop ?k ps) @ rest"
    using assms(7) by (simp add: append_assoc [symmetric] map_append [symmetric] del: append_assoc map_append)
  ultimately obtain as t where "ack_all (take ?k ps) ?s = Inr (as, t)"
    "map fk_ack as = map segment_end (every_second (take ?k ps))"
    "SndLengthHistory t = map own_record (drop ?k ps) @ rest"
    using ack_all_alternates by blast
  then show ?thesis
    using assms(2,3,8) by (simp add: CheckAck_def ack_queue_def CreateAckPkt_half Let_def)
qed

theorem every_second_acknowledged_witness:
  "\<forall>raw. \<exists>as s'. CheckAck (map example_segment [1, 101, 201, 301, 401])
      (example_fastack raw (map example_segment [1, 101, 201, 301, 401])) = Inr (as, [CollectAckInterval s'], s') \<and>
    map fk_ack as = [101, 301]"
proof
  fix raw
  let ?ps = "map example_segment [1, 101, 201, 301, 401]"
  let ?s = "example_fastack raw ?ps"
  have h: "parallel ?s" "fa_mode ?s = 0" "fa_Qseq ?s = []" "data_for ?s ?ps" "in_order 1 ?ps" "1 \<noteq> fa_LastAckNumber ?s"
    "SndLengthHistory ?s = map own_record ?ps @ []" "?ps \<noteq> []"
    by (simp_all add: parallel_def example_fastack_def comp_def example_fastack_data [unfolded example_fastack_def]
        example_fields example_segment_end data_for_def to_receiver_def)
      (simp_all add: example_segment_def)
  obtain as s' where c: "CheckAck ?ps ?s = Inr (as, [CollectAckInterval s'], s')"
    and m: "map fk_ack as = map segment_end (every_second (take ((length ?ps + 1) div 2) ?ps))"
    using every_second_acknowledged [OF h] by blast
  have "map segment_end (every_second (take ((length ?ps + 1) div 2) ?ps)) = [101, 301]"
    by (simp add: example_segment_end)
  with m have e: "map fk_ack as = [101, 301]" by (rule trans)
  show "\<exists>as s'. CheckAck ?ps ?s = Inr (as, [CollectAckInterval s'], s') \<and> map fk_ack as = [101, 301]"
    by (rule exI, rule exI, rule conjI, rule c, rule e)
qed

text \<open>C33: once the access point has acknowledged up to some number, a segment that starts there is not acknowledged as long as
  it is the only one that the device sends the client: no other segment for the client is queued for an acknowledgement or sent
  by the device, and the client's packets are pure acknowledgements, as at the end of a transfer or when the sender's window is used up.
  However often the sender then repeats the segment, the device sends it and the client acknowledges it, the
  access point returns from every event without sending the sender anything, and waits for the same number. (\<open>wait_ends_example\<close> below:
  once the device sends another segment, that one is acknowledged, and after it a repetition of this one.)\<close>

theorem lone_segment_never_acknowledged:
  assumes "parallel s"
    and "\<forall>p\<in>set (fa_Qseq s). to_receiver s p \<longrightarrow> tcp_seq p = fa_LastAckNumber s"
    and "\<forall>ps p. Timer ps \<in> set es \<longrightarrow> p \<in> set ps \<longrightarrow> to_receiver s p \<longrightarrow> tcp_seq p = fa_LastAckNumber s"
    and "\<forall>p. ClientIn p \<in> set es \<longrightarrow> tcp_flags p = 16"
  shows "\<exists>out s'. fa_run gt es s = Inr ([], out, s') \<and> {p. Forward p \<in> set out} = {} \<and>
    fa_LastAckNumber s' = fa_LastAckNumber s"
proof -
  have "waits s s" using assms(1,2) by (simp add: waits_def only_last_def)
  moreover have "list_all (stuck_event s) es"
    unfolding list_all_iff
  proof
    fix e assume e: "e \<in> set es"
    show "stuck_event s e"
    proof (cases e)
      case (Timer ps)
      then show ?thesis using e assms(3) by (auto simp: only_last_def)
    next
      case (ClientIn p)
      then show ?thesis using e assms(4) by auto
    qed simp
  qed
  ultimately show ?thesis using fa_run_waits [of s s es gt] by (auto simp: waits_def)
qed

theorem lone_segment_never_acknowledged_witness:
  "\<forall>raw gt. \<exists>out s'. fa_run gt [DataIn 0 (example_segment 101), Timer [example_segment 101], ClientIn (example_segment 1)]
      (example_fastack raw []) = Inr ([], out, s') \<and> {p. Forward p \<in> set out} = {}"
proof (intro allI)
  fix raw gt
  let ?s = "example_fastack raw []"
  let ?es = "[DataIn 0 (example_segment 101), Timer [example_segment 101], ClientIn (example_segment 1)]"
  have "parallel ?s" "\<forall>p\<in>set (fa_Qseq ?s). to_receiver ?s p \<longrightarrow> tcp_seq p = fa_LastAckNumber ?s"
    "\<forall>ps p. Timer ps \<in> set ?es \<longrightarrow> p \<in> set ps \<longrightarrow> to_receiver ?s p \<longrightarrow> tcp_seq p = fa_LastAckNumber ?s"
    "\<forall>p. ClientIn p \<in> set ?es \<longrightarrow> tcp_flags p = 16"
    by (simp_all add: parallel_def example_fastack_def example_segment_def)
  from lone_segment_never_acknowledged [OF this, of gt]
  show "\<exists>out s'. fa_run gt ?es ?s = Inr ([], out, s') \<and> {p. Forward p \<in> set out} = {}" by blast
qed

text \<open>How the wait ends: the device sends the segment at 201 and then repeats the one at 101.\<close>

lemma wait_ends_example:
  "\<exists>as s'. fa_run gt [DataIn 0 (example_segment 201), Timer [example_segment 201], DataIn 0 (example_segment 101),
      Timer [example_segment 101]] (example_fastack raw [] \<lparr>fa_cc_create := True\<rparr>) = Inr (as, [], s') \<and> map fk_ack as = [301, 201]"
  by (simp add: FastAck_OnRecv_rcvdev_def recorded_def example_fastack_def example_segment_def CheckAck_def ack_queue_def
      CreateAckPkt_def ack_one_def to_receiver_def Let_def time_defs)

end
