(* ===== verification/Tcp_Abc.thy ===== *)
theory Tcp_Abc
  imports Copa
begin

text \<open>
  \<open>internet/model/tcp-abc.\{h,cc\}\<close>: the sender's side of ABC. Every acknowledgement carries a mark of the access
  point, accelerate (\<open>ECN_ECT1\<close>) or brake (\<open>ECN_ECT0\<close>), and moves the window by a segment. The socket's state is
  the one of \<open>Copa\<close> with the fields ABC adds; that ns-3 sets \<open>m_EcnValue\<close> and \<open>m_lastRtt\<close> before it calls \<open>CongControl\<close>
  is an argument of a run.
\<close>

section \<open>State\<close>

datatype ecn_value = ECN_NotECT | ECN_ECT1 | ECN_ECT0 | ECN_CE

datatype use_ecn = EcnOff | EcnOn | EcnAcceptOnly
datatype ecn_mode = ClassicEcn | DctcpEcn | ABCEcn
datatype ect_code_point = Ect0 | Ect1

record abc_socket = tcp_socket_state +
  tcb_EcnValue :: ecn_value
  tcb_useEcn :: use_ecn
  tcb_ecnMode :: ecn_mode
  tcb_ectCodePoint :: ect_code_point

definition TcpABC_Init :: "abc_socket \<Rightarrow> abc_socket" where
  "TcpABC_Init tcb = tcb\<lparr>tcb_useEcn := EcnOn, tcb_ecnMode := ABCEcn, tcb_ectCodePoint := Ect1\<rparr>"

definition TcpABC_GetSsThresh :: "abc_socket \<Rightarrow> u32 \<Rightarrow> u32" where
  "TcpABC_GetSsThresh tcb bytesInFlight = tcb_cWnd tcb"

section \<open>An acknowledgement\<close>

definition whole_step :: "abc_socket \<Rightarrow> u32 res" where
  "whole_step tcb =
     (if tcb_cWnd tcb = 0 then Inl UndefinedBehaviour
      else Inr (tcb_segmentSize tcb + tcb_segmentSize tcb div tcb_cWnd tcb))"

definition mark_window :: "abc_socket \<Rightarrow> abc_socket res" where
  "mark_window tcb =
     (if tcb_EcnValue tcb = ECN_ECT1 then
        res_bind (whole_step tcb) (\<lambda>d. Inr (tcb\<lparr>tcb_cWnd := tcb_cWnd tcb + d\<rparr>))
      else if tcb_EcnValue tcb = ECN_ECT0 then
        if tcb_cWnd tcb > (4 + 1) * tcb_segmentSize tcb then
          res_bind (whole_step tcb) (\<lambda>d. Inr (tcb\<lparr>tcb_cWnd := tcb_cWnd tcb - d\<rparr>))
        else Inr (tcb\<lparr>tcb_cWnd := 4 * tcb_segmentSize tcb\<rparr>)
      else Inr tcb)"

text \<open>The quotient is one of integers, and it comes before the test for a round trip time of zero.\<close>

definition abc_pacing :: "abc_socket \<Rightarrow> u64 res" where
  "abc_pacing tcb =
     (let ms = GetMilliSeconds (tcb_lastRtt tcb)
      in if ms = 0 then Inl UndefinedBehaviour
         else to_word (if tcb_lastRtt tcb = 0 then 1000000
                       else of_int (uint (2 * (tcb_cWnd tcb * 8)) sdiv ms * 1000)))"

definition TcpABC_CongControl :: "abc_socket \<Rightarrow> abc_socket res" where
  "TcpABC_CongControl tcb =
     res_bind (mark_window tcb) (\<lambda>tcb.
     res_bind (abc_pacing tcb) (\<lambda>bps. Inr (tcb\<lparr>tcb_pacingRate := bps\<rparr>)))"

text \<open>A run of acknowledgements, each with its mark and round trip time.\<close>

fun abc_acks :: "(ecn_value \<times> time) list \<Rightarrow> abc_socket \<Rightarrow> abc_socket res" where
  "abc_acks [] tcb = Inr tcb"
| "abc_acks ((e, rtt) # as) tcb =
     res_bind (TcpABC_CongControl (tcb\<lparr>tcb_lastRtt := rtt, tcb_EcnValue := e\<rparr>)) (abc_acks as)"

section \<open>The window as a reflected walk\<close>

fun mark :: "ecn_value \<Rightarrow> int" where
  "mark ECN_ECT1 = 1"
| "mark ECN_ECT0 = -1"
| "mark _ = 0"

definition net_marks :: "(ecn_value \<times> time) list \<Rightarrow> int" where
  "net_marks as = sum_list (map (mark \<circ> fst) as)"

lemma net_marks_snoc: "net_marks (as @ [a]) = net_marks as + mark (fst a)"
  by (simp add: net_marks_def)

lemma net_marks_le: "net_marks as \<le> int (length as)"
proof (induction as)
  case (Cons a as)
  then show ?case by (cases "fst a") (simp_all add: net_marks_def)
qed (simp add: net_marks_def)

text \<open>The walk that starts at \<open>w\<close>, moves by \<open>seg\<close> and is held above \<open>4 * seg\<close>, as a maximum over the
  moments at which it was last held.\<close>

definition reflected :: "int \<Rightarrow> int \<Rightarrow> (ecn_value \<times> time) list \<Rightarrow> int" where
  "reflected seg w as = Max ((\<lambda>k. (if k = 0 then w else 4 * seg) + seg * net_marks (drop k as)) ` {..length as})"

lemma reflected_Nil: "reflected seg w [] = w"
  by (simp add: reflected_def net_marks_def)

lemma reflected_snoc: "reflected seg w (as @ [a]) = max (4 * seg) (reflected seg w as + seg * mark (fst a))"
proof -
  let ?f = "\<lambda>as k. (if k = 0 then w else 4 * seg) + seg * net_marks (drop k as)"
  have "{..length (as @ [a])} = insert (Suc (length as)) {..length as}" by auto
  then have "reflected seg w (as @ [a]) = max (?f (as @ [a]) (Suc (length as))) (Max (?f (as @ [a]) ` {..length as}))"
    unfolding reflected_def by (simp only: image_insert) (intro Max_insert; simp)
  also have "?f (as @ [a]) ` {..length as} = (\<lambda>k. ?f as k + seg * mark (fst a)) ` {..length as}"
    by (intro image_cong) (auto simp: net_marks_snoc algebra_simps)
  also have "Max \<dots> = reflected seg w as + seg * mark (fst a)"
    unfolding reflected_def by (intro Max_add_commute) auto
  finally show ?thesis by (simp add: net_marks_def)
qed

lemma reflected_bounds:
  assumes "0 \<le> seg" "4 * seg \<le> w"
  shows "4 * seg \<le> reflected seg w as \<and> reflected seg w as \<le> w + seg * int (length as)"
proof (induction as rule: rev_induct)
  case (snoc a as)
  have "mark (fst a) \<le> 1" by (cases "fst a") simp_all
  then have "seg * mark (fst a) \<le> seg * 1" using assms(1) by (rule mult_left_mono)
  then show ?case using snoc assms by (auto simp: reflected_snoc algebra_simps)
qed (simp add: reflected_Nil assms)

section \<open>The code against the walk\<close>

lemma uint_times_lt:
  fixes b :: "'a::len word"
  assumes "uint (a :: 'a word) * uint b < 2 ^ LENGTH('a)"
  shows "uint (a * b) = uint a * uint b"
  unfolding uint_word_ariths(3) using assms by (intro mod_pos_pos_trivial) simp_all

lemma floor_multiples:
  assumes "5 * uint (seg :: u32) < 2 ^ 32"
  shows "uint (4 * seg) = 4 * uint seg" "uint ((4 + 1) * seg) = 5 * uint seg"
  using assms uint_times_lt [of 4 seg] uint_times_lt [of "4 + 1" seg] by simp_all

text \<open>The quotient of the segment and the window is 0 in any window above one segment, so a step is a segment.\<close>

lemma whole_step_run:
  assumes "0 < tcb_segmentSize tcb" "tcb_segmentSize tcb < tcb_cWnd tcb"
  shows "whole_step tcb = Inr (tcb_segmentSize tcb)"
proof -
  have "tcb_segmentSize tcb div tcb_cWnd tcb = 0"
    using assms(2) by (simp add: word_unat_eq_iff unat_div_distrib word_less_nat_alt)
  then show ?thesis using assms(2) by (auto simp: whole_step_def)
qed

lemma mark_window_run:
  assumes "0 < tcb_segmentSize tcb" "4 * uint (tcb_segmentSize tcb) \<le> uint (tcb_cWnd tcb)"
    "uint (tcb_cWnd tcb) + uint (tcb_segmentSize tcb) < 2 ^ 32"
  shows "\<exists>w. mark_window tcb = Inr (tcb\<lparr>tcb_cWnd := w\<rparr>) \<and>
    uint w = max (4 * uint (tcb_segmentSize tcb)) (uint (tcb_cWnd tcb) + uint (tcb_segmentSize tcb) * mark (tcb_EcnValue tcb))"
proof -
  let ?s = "tcb_segmentSize tcb" and ?w = "tcb_cWnd tcb"
  have s0: "0 < uint ?s" using assms(1) by (simp add: word_less_def)
  then have lt: "?s < ?w" using assms(2) by (simp add: word_less_def)
  note step = whole_step_run [OF assms(1) lt]
  have five: "5 * uint ?s < 2 ^ 32" using assms(2,3) by linarith
  note fl = floor_multiples [OF five]
  have plus: "uint (?w + ?s) = uint ?w + uint ?s" using assms(3) by (intro uint_plus_lt) simp
  have minus: "uint (?w - ?s) = uint ?w - uint ?s" using lt by (intro uint_minus_le) (simp add: word_less_def)
  show ?thesis
  proof (cases "tcb_EcnValue tcb")
    case ECN_ECT1
    then show ?thesis using s0 assms(2) by (intro exI [of _ "?w + ?s"]) (simp add: mark_window_def step plus)
  next
    case ECN_ECT0
    show ?thesis
    proof (cases "?w > (4 + 1) * ?s")
      case True
      then have "5 * uint ?s < uint ?w" using fl(2) by (simp add: word_less_def)
      then show ?thesis using ECN_ECT0 True
        by (intro exI [of _ "?w - ?s"]) (simp add: mark_window_def step minus)
    next
      case False
      then have "uint ?w \<le> 5 * uint ?s" using fl(2) by (simp add: word_less_def not_less)
      then show ?thesis using ECN_ECT0 False fl(1)
        by (intro exI [of _ "4 * ?s"]) (simp add: mark_window_def)
    qed
  next
    case ECN_NotECT
    then have "mark_window tcb = Inr (tcb\<lparr>tcb_cWnd := ?w\<rparr>)" by (simp add: mark_window_def)
    then show ?thesis using ECN_NotECT assms(2) by (intro exI [of _ ?w]) simp
  next
    case ECN_CE
    then have "mark_window tcb = Inr (tcb\<lparr>tcb_cWnd := ?w\<rparr>)" by (simp add: mark_window_def)
    then show ?thesis using ECN_CE assms(2) by (intro exI [of _ ?w]) simp
  qed
qed

lemma sdiv_nonneg: "0 \<le> a \<Longrightarrow> 0 < b \<Longrightarrow> a sdiv b = a div (b :: int)"
  by (cases "a = 0") (simp_all add: signed_divide_int_def)

lemma abc_pacing_run:
  assumes "MilliSeconds 1 \<le> tcb_lastRtt tcb"
  shows "\<exists>bps. abc_pacing tcb = Inr bps \<and> (16 * uint (tcb_cWnd tcb) < 2 ^ 32 \<longrightarrow>
    uint bps = 1000 * (16 * uint (tcb_cWnd tcb) div GetMilliSeconds (tcb_lastRtt tcb)))"
proof -
  let ?ms = "GetMilliSeconds (tcb_lastRtt tcb)" and ?b = "uint (2 * (tcb_cWnd tcb * 8))"
  have pos: "0 < tcb_lastRtt tcb" "tcb_lastRtt tcb \<noteq> 0" using assms by (simp_all add: time_defs)
  have "?ms = tcb_lastRtt tcb div 1000000"
    using pos(1) by (simp add: time_defs signed_divide_int_def)
  then have ms: "1 \<le> ?ms" using assms by (simp add: time_defs)
  have q: "?b sdiv ?ms = ?b div ?ms" using ms by (intro sdiv_nonneg) simp_all
  have "?b div ?ms \<le> ?b div 1" using ms by (intro zdiv_mono2) simp_all
  moreover have "?b < 2 ^ 32" using uint_lt(3) [of "2 * (tcb_cWnd tcb * 8)"] by simp
  ultimately have r: "0 \<le> ?b sdiv ?ms * 1000" "?b sdiv ?ms * 1000 < 2 ^ 64"
    using ms unfolding q by (simp_all add: pos_imp_zdiv_nonneg_iff)
  have "abc_pacing tcb = to_word (of_int (?b sdiv ?ms * 1000))"
    using ms pos by (simp add: abc_pacing_def Let_def)
  also have "\<dots> = Inr (word_of_int (?b sdiv ?ms * 1000))"
    using r by (simp only: to_word_def trunc_of_int) simp
  finally have "abc_pacing tcb = Inr (word_of_int (?b sdiv ?ms * 1000))" .
  moreover have "uint (word_of_int (?b sdiv ?ms * 1000) :: u64) = ?b sdiv ?ms * 1000"
    unfolding uint_word_of_int using r by (intro mod_pos_pos_trivial) simp_all
  moreover have "?b = 16 * uint (tcb_cWnd tcb)" if "16 * uint (tcb_cWnd tcb) < 2 ^ 32"
  proof -
    have "2 * (tcb_cWnd tcb * 8) = 16 * tcb_cWnd tcb" by simp
    then show ?thesis using uint_times_lt [of 16 "tcb_cWnd tcb"] that by simp
  qed
  ultimately show ?thesis using q by (auto simp: mult.commute)
qed

lemma abc_acks_snoc:
  "abc_acks (as @ [a]) tcb = res_bind (abc_acks as tcb)
     (\<lambda>t. TcpABC_CongControl (t\<lparr>tcb_lastRtt := snd a, tcb_EcnValue := fst a\<rparr>))"
proof (induction as arbitrary: tcb)
  case Nil
  then show ?case by (cases a; cases "TcpABC_CongControl (tcb\<lparr>tcb_lastRtt := snd a, tcb_EcnValue := fst a\<rparr>)") auto
next
  case (Cons b as)
  show ?case
    by (cases b; cases "TcpABC_CongControl (tcb\<lparr>tcb_lastRtt := snd b, tcb_EcnValue := fst b\<rparr>)") (auto simp: Cons.IH)
qed

definition abc_window_ok :: "abc_socket \<Rightarrow> (ecn_value \<times> time) list \<Rightarrow> abc_socket \<Rightarrow> bool" where
  "abc_window_ok tcb as tcb' \<longleftrightarrow> tcb_segmentSize tcb' = tcb_segmentSize tcb \<and>
     uint (tcb_cWnd tcb') = reflected (uint (tcb_segmentSize tcb)) (uint (tcb_cWnd tcb)) as \<and>
     (as \<noteq> [] \<longrightarrow> 16 * uint (tcb_cWnd tcb') < 2 ^ 32 \<longrightarrow>
        uint (tcb_pacingRate tcb') = 1000 * (16 * uint (tcb_cWnd tcb') div GetMilliSeconds (snd (last as))))"

lemma abc_acks_run:
  assumes "0 < tcb_segmentSize tcb" "4 * uint (tcb_segmentSize tcb) \<le> uint (tcb_cWnd tcb)"
    "uint (tcb_cWnd tcb) + uint (tcb_segmentSize tcb) * int (length as) < 2 ^ 32"
    "\<forall>a\<in>set as. MilliSeconds 1 \<le> snd a"
  shows "\<exists>tcb'. abc_acks as tcb = Inr tcb' \<and> abc_window_ok tcb as tcb'"
  using assms(3,4)
proof (induction as rule: rev_induct)
  case Nil
  then show ?case by (simp add: abc_window_ok_def reflected_Nil)
next
  case (snoc a as)
  let ?s = "tcb_segmentSize tcb"
  have room: "uint (tcb_cWnd tcb) + uint ?s * int (length as) + uint ?s < 2 ^ 32"
    using snoc.prems(1) by (simp add: algebra_simps)
  then have "uint (tcb_cWnd tcb) + uint ?s * int (length as) < 2 ^ 32"
    using uint_ge_0 [of ?s] by linarith
  with snoc obtain t where t: "abc_acks as tcb = Inr t" "tcb_segmentSize t = ?s"
    "uint (tcb_cWnd t) = reflected (uint ?s) (uint (tcb_cWnd tcb)) as"
    by (auto simp: abc_window_ok_def)
  let ?t = "t\<lparr>tcb_lastRtt := snd a, tcb_EcnValue := fst a\<rparr>"
  have b: "4 * uint ?s \<le> uint (tcb_cWnd t) \<and> uint (tcb_cWnd t) \<le> uint (tcb_cWnd tcb) + uint ?s * int (length as)"
    unfolding t(3) using assms(2) by (intro reflected_bounds) simp_all
  then have "uint (tcb_cWnd t) + uint ?s < 2 ^ 32" using room by linarith
  with mark_window_run [of ?t] b assms(1) t(2) obtain w where w: "mark_window ?t = Inr (?t\<lparr>tcb_cWnd := w\<rparr>)"
    "uint w = max (4 * uint ?s) (uint (tcb_cWnd t) + uint ?s * mark (fst a))" by auto
  obtain bps where "abc_pacing (?t\<lparr>tcb_cWnd := w\<rparr>) = Inr bps" "16 * uint w < 2 ^ 32 \<longrightarrow>
      uint bps = 1000 * (16 * uint w div GetMilliSeconds (snd a))"
    using abc_pacing_run [of "?t\<lparr>tcb_cWnd := w\<rparr>"] snoc.prems(2) by auto
  then show ?case
    using t w by (simp add: abc_acks_snoc TcpABC_CongControl_def abc_window_ok_def reflected_snoc)
qed

section \<open>Properties\<close>

text \<open>C34: an ABC sender whose window starts at four segments or more, and has room for one more per acknowledgement,
  processes every run of acknowledgements with round trip times of at least a millisecond. Its window is
  exactly the walk that goes up a segment for every accelerate and down one for every brake and is
  held at four segments; the share of a segment that the code adds to every step is always 0. The
  pacing rate is two windows per round trip, in whole bits per millisecond.\<close>

theorem abc_window_reflected:
  assumes "0 < tcb_segmentSize tcb" "4 * uint (tcb_segmentSize tcb) \<le> uint (tcb_cWnd tcb)"
    "uint (tcb_cWnd tcb) + uint (tcb_segmentSize tcb) * int (length as) < 2 ^ 32"
    "\<forall>a\<in>set as. MilliSeconds 1 \<le> snd a"
  shows "\<exists>tcb'. abc_acks as tcb = Inr tcb' \<and>
    uint (tcb_cWnd tcb') = reflected (uint (tcb_segmentSize tcb)) (uint (tcb_cWnd tcb)) as \<and>
    4 * uint (tcb_segmentSize tcb) \<le> uint (tcb_cWnd tcb') \<and>
    (as \<noteq> [] \<longrightarrow> 16 * uint (tcb_cWnd tcb') < 2 ^ 32 \<longrightarrow>
       uint (tcb_pacingRate tcb') = 1000 * (16 * uint (tcb_cWnd tcb') div GetMilliSeconds (snd (last as))))"
  using abc_acks_run [OF assms] reflected_bounds [of "uint (tcb_segmentSize tcb)" "uint (tcb_cWnd tcb)" as] assms(2)
  by (auto simp: abc_window_ok_def)

theorem abc_window_reflected_witness:
  "\<forall>raw. \<exists>tcb'. abc_acks [(ECN_ECT1, MilliSeconds 20), (ECN_ECT0, MilliSeconds 20), (ECN_ECT0, MilliSeconds 20)]
      (raw\<lparr>tcb_segmentSize := 1000, tcb_cWnd := 4500\<rparr>) = Inr tcb' \<and> uint (tcb_cWnd tcb') = 4000"
proof
  fix raw
  let ?as = "[(ECN_ECT1, MilliSeconds 20), (ECN_ECT0, MilliSeconds 20), (ECN_ECT0, MilliSeconds 20)]"
  have "reflected 1000 4500 (([] @ [(ECN_ECT1, MilliSeconds 20)]) @ [(ECN_ECT0, MilliSeconds 20)] @ [(ECN_ECT0, MilliSeconds 20)]) = 4000"
    unfolding append_assoc [symmetric] reflected_snoc reflected_Nil by simp
  then have "reflected 1000 4500 ?as = 4000" by simp
  then show "\<exists>tcb'. abc_acks ?as (raw\<lparr>tcb_segmentSize := 1000, tcb_cWnd := 4500\<rparr>) = Inr tcb' \<and> uint (tcb_cWnd tcb') = 4000"
    using abc_window_reflected [of "raw\<lparr>tcb_segmentSize := 1000, tcb_cWnd := 4500\<rparr>" ?as] by (auto simp: time_defs)
qed

text \<open>A round trip time below a millisecond, also the 0 that the code tests for afterwards, is divided by.\<close>

theorem abc_short_rtt_undefined:
  assumes "\<bar>tcb_lastRtt tcb\<bar> < MilliSeconds 1"
  shows "abc_pacing tcb = Inl UndefinedBehaviour"
  using assms by (simp add: abc_pacing_def time_defs signed_divide_int_def)

end
