(* ===== verification/Abc_Loop.thy ===== *)
theory Abc_Loop
  imports Abc_Queue Tcp_Abc
begin

text \<open>
  The closed loop of ABC. The changes to ns-3 in \<open>ns-diff.patch\<close> connect its two ends: \<open>Ipv4Interface\<close> marks every TCP
  packet for the client by what the access point last told it (\<open>ABCEstimation\<close>), a socket remembers the mark of the
  last packet (\<open>ForwardUp\<close>) and puts it on what it sends (\<open>AddSocketTags\<close>). \<open>abc_loop\<close> composes them with the timer of
  the access point (\<open>Abc_Queue\<close>) and the sender's window (\<open>Tcp_Abc\<close>). The random numbers are arguments.
\<close>

section \<open>The interface\<close>

record abc_iface =
  CurDequeueRate :: rat
  TarDequeueRate :: rat
  QueueDelay :: rat
  ABCMode :: bool
  if_adr :: u32




definition target_rate :: "rounding \<Rightarrow> abc_iface \<Rightarrow> rat" where
  "target_rate fd i =
     (let QdelayRef = 10; delta = 133
      in fd (fd (fd (98 / 100) * TarDequeueRate i) +
             fd (fd (TarDequeueRate i / delta) * min 0 (fd (QdelayRef - QueueDelay i)))))"

definition credit_prob :: "rounding \<Rightarrow> abc_iface \<Rightarrow> rat" where
  "credit_prob fd i = fd (fd (target_rate fd i / CurDequeueRate i) * (1 / 2))"

definition ABCEstimation :: "rounding \<Rightarrow> rat \<Rightarrow> abc_iface \<Rightarrow> ecn_value res" where
  "ABCEstimation fd RandNum i =
     (if CurDequeueRate i = 0 then Inl UndefinedBehaviour
      else Inr (if RandNum < credit_prob fd i then ECN_ECT1 else ECN_ECT0))"


section \<open>A socket's mark\<close>


text \<open>The tags for the type of service: \<open>Marked tos c\<close> is \<open>MarkEcnCodePoint (tos, c)\<close>. What ns-3 decides about the socket
  (\<open>GetIpTos\<close>, whether its ECN is disabled, \<open>CheckNoEcn\<close>) is an argument.\<close>

datatype tos_tag = Marked u8 ect_code_point | Plain u8

definition AddSocketTags :: "u8 \<Rightarrow> bool \<Rightarrow> bool \<Rightarrow> u32 \<Rightarrow> abc_socket \<Rightarrow> tos_tag list \<times> abc_socket" where
  "AddSocketTags tos ecnDisabled noEcn pktSize tcb =
     (let abc = tcb_ecnMode tcb = ABCEcn;
          tcb = (if abc then tcb\<lparr>tcb_ectCodePoint := Ect1\<rparr> else tcb);
          tags = (if abc then [Marked tos (tcb_ectCodePoint tcb)] else [])
      in if tcb_EcnValue tcb = ECN_ECT0 \<or> tcb_EcnValue tcb = ECN_ECT1 then
           if abc then (tags, tcb)
           else let tcb = tcb\<lparr>tcb_ectCodePoint := (if tcb_EcnValue tcb = ECN_ECT1 then Ect1 else Ect0)\<rparr>
                in ([Marked tos (tcb_ectCodePoint tcb)], tcb)
         else if tos \<noteq> 0 then
           (tags @ [if \<not> ecnDisabled \<and> \<not> noEcn then Marked tos (tcb_ectCodePoint tcb) else Plain tos], tcb)
         else if (\<not> ecnDisabled \<and> 0 < pktSize) \<or> tcb_ecnMode tcb = DctcpEcn then
           (tags @ [Marked tos (tcb_ectCodePoint tcb)], tcb)
         else (tags, tcb))"

section \<open>The loop\<close>

text \<open>A step is the timer of the access point, with the bytes of the queue discipline and the queue of the device, or a data packet
  that crosses it, with the random number for it and the round trip time that its acknowledgement measures.
  The receiver acknowledges every packet, and acknowledgements pass the access point unchanged.\<close>

datatype 'p ap_step = ApTimer u32 "'p tx_queue" | DataPacket rat time





section \<open>Marks\<close>


text \<open>In exact arithmetic: the share of packets that are told to accelerate, for a queue of \<open>d\<close> milliseconds.\<close>

definition credit_share :: "rat \<Rightarrow> rat \<Rightarrow> rat \<Rightarrow> rat" where
  "credit_share tar cur d = (98 / 100 - max 0 (d - 10) / 133) * tar / cur / 2"

lemma credit_exact: "credit_prob (\<lambda>x. x) i = credit_share (TarDequeueRate i) (CurDequeueRate i) (QueueDelay i)"
  by (simp add: credit_prob_def target_rate_def credit_share_def max_def min_def field_simps)







section \<open>Runs\<close>

definition packets :: "'p ap_step list \<Rightarrow> (rat \<times> time) list" where
  "packets steps = concat (map (\<lambda>x. case x of DataPacket rnd rtt \<Rightarrow> [(rnd, rtt)] | ApTimer _ _ \<Rightarrow> []) steps)"

lemma packets_simps [simp]:
  "packets [] = []" "packets (ApTimer qdisc q # steps) = packets steps"
  "packets (DataPacket rnd rtt # steps) = (rnd, rtt) # packets steps"
  by (simp_all add: packets_def)











section \<open>Properties\<close>






text \<open>In exact arithmetic a packet is told to accelerate exactly if its random number is below the credit, which falls by
  1 / 266 of the ratio of the two rates with every millisecond over 10 and is gone at 140.34 milliseconds.\<close>

theorem abc_credit:
  assumes "CurDequeueRate i \<noteq> 0"
  shows "ABCEstimation (\<lambda>x. x) rnd i =
    Inr (if rnd < (98 / 100 - max 0 (QueueDelay i - 10) / 133) * TarDequeueRate i / CurDequeueRate i / 2 then ECN_ECT1 else ECN_ECT0)"
  using assms by (simp add: ABCEstimation_def credit_exact credit_share_def)

text \<open>An ABC sender that has not yet received a mark puts two tags of the same type on its data.\<close>

theorem abc_two_tags:
  assumes "tcb_ecnMode tcb = ABCEcn" "tcb_EcnValue tcb = ECN_NotECT" "0 < len"
  shows "fst (AddSocketTags 0 False noEcn len tcb) = [Marked 0 Ect1, Marked 0 Ect1]"
  using assms by (simp add: AddSocketTags_def Let_def)

end
