(* ===== verification/Feedback_Loop.thy ===== *)
theory Feedback_Loop
  imports Receiver_Udp Sender_Window Zhuge_Queue
begin

text \<open>
  The two ways by which the sender hears of the network: the report that the receiver makes of its reception record,
  and the report that Zhuge's access point makes in the client's name. Each is followed from the state it is made from, over
  the wire, into the sender's statistics.
\<close>

section \<open>What a report changes in the sender\<close>

lemma tell_loss_stat: "tell_loss env q s = Inr s' \<Longrightarrow> m_netStat s' = m_netStat s"
  by (auto simp: tell_loss_def dest!: res_bind_InrD split: option.splits)

lemma RcvNetState_stat:
  assumes "RcvNetState env now st s = Inr s'"
  shows "loss_seq (m_netStat s') = ns_loss_seq st"
    and "\<not> trace_set s \<Longrightarrow> current_loss_rate (m_netStat s') = ns_loss_rate st \<and>
      current_bw (m_netStat s') = sn_fl env (of_int (uint (ns_throughput_kbps st)) / 1000)"
proof -
  obtain s1 where s1: "(if trace_set s then Inr s
      else tell_loss env (sn_fs env (ns_loss_rate st * 256))
        (s\<lparr>m_netStat := (m_netStat s)\<lparr>current_bw := sn_fl env (of_int (uint (ns_throughput_kbps st)) / 1000),
           current_loss_rate := ns_loss_rate st\<rparr>\<rparr>)) = Inr s1"
    and r: "m_netStat s' = (m_netStat s1)\<lparr>loss_seq := ns_loss_seq st,
      disp_one_way := MicroSeconds (uint (ns_fec_group_delay_us st))\<rparr>"
    using assms unfolding RcvNetState_def
    by (auto simp: Let_def dest!: res_bind_InrD split: if_splits option.splits)
  show "loss_seq (m_netStat s') = ns_loss_seq st" by (simp add: r)
  show "current_loss_rate (m_netStat s') = ns_loss_rate st \<and>
      current_bw (m_netStat s') = sn_fl env (of_int (uint (ns_throughput_kbps st)) / 1000)" if "\<not> trace_set s"
    using s1 tell_loss_stat r that by fastforce
qed

lemma report_received:
  assumes "ns3_ok (sn_ns3 env)" "packet_ok (sn_ns3 env) (sn_fs env) (NetStateP (SetNetStates st p))"
  shows "\<exists>q. ToNetPacket (sn_ns3 env) (sn_fs env) (NetStateP (SetNetStates st p)) = Inr q \<and>
    (\<forall>now s. OnSocketRecv_sender env now q s = RcvNetState env now (net_state_view (sn_fs env) st) s)"
proof -
  obtain q where q: "ToNetPacket (sn_ns3 env) (sn_fs env) (NetStateP (SetNetStates st p)) = Inr q"
    "ToInstance (sn_ns3 env) (sn_fs env) (sn_raw env) q =
       Inr (Some (received (sn_fs env) (sn_raw env) (NetStateP (SetNetStates st p))))"
    using net_state_packet_roundtrip [OF assms] by auto
  then show ?thesis by (auto simp: OnSocketRecv_sender_def SetNetStates_def)
qed

section \<open>The receiver's report\<close>

lemma Feedback_report:
  assumes "Feedback_NetState fs fd False raw s = Inr (s', p)"
  shows "\<exists>st. p = Some (NetStateP (SetNetStates st (NetStatePacket_ctor raw))) \<and> ns_loss_seq st = m_loss_seq s' \<and>
    ns_loss_rate st = r_loss_rate s' \<and> ns_recvtime_hist st = m_recv_sample s'"
  using assms by (auto simp: Feedback_NetState_def Let_def dest!: res_bind_InrD split: if_splits)

section \<open>The access point's report\<close>

text \<open>The packet that \<open>Sendback\<close> makes of the states.\<close>

definition report_of :: "NetStates \<Rightarrow> NetStatePacket \<Rightarrow> net_packet" where
  "report_of st raw = NetStateP (SetNetStates st (NetStatePacket_ctor raw))"

lemma UpdateTxRate_keeps:
  assumes "UpdateTxRate q s = Inr s'"
  shows "sndback_pkt s' = sndback_pkt s" "last_id s' = last_id s"
    "m_mode s' = m_mode s" "m_wirtcEnable s' = m_wirtcEnable s" "extra_bytes s' = extra_bytes s"
proof -
  obtain hp s1 s2 where s: "update_head hp s = Inr s1" "update_rate (record_slot q s1) = Inr s2"
    "s' = s2\<lparr>m_curTxRateBps := max (m_curTxRateBps s2) (kMinTxRateBps s2)\<rparr>"
    using assms by (auto simp: UpdateTxRate_def dest!: res_bind_InrD)
  have 1: "sndback_pkt s1 = sndback_pkt s" "last_id s1 = last_id s"
    "m_mode s1 = m_mode s" "m_wirtcEnable s1 = m_wirtcEnable s" "extra_bytes s1 = extra_bytes s"
    using s(1) by (auto simp: update_head_def split: option.splits if_splits)
  have 2: "sndback_pkt s2 = sndback_pkt t" "last_id s2 = last_id t"
    "m_mode s2 = m_mode t" "m_wirtcEnable s2 = m_wirtcEnable t" "extra_bytes s2 = extra_bytes t" if "update_rate t = Inr s2" for t
    using that by (auto simp: update_rate_def Let_def split: prod.splits if_splits)
  show "sndback_pkt s' = sndback_pkt s" "last_id s' = last_id s"
    "m_mode s' = m_mode s" "m_wirtcEnable s' = m_wirtcEnable s" "extra_bytes s' = extra_bytes s"
    using 1 2 [OF s(2)] s(3) by (simp_all add: record_slot_def Let_def)
qed

lemma scheduled_packet:
  assumes "OnRecv_rcvdev k f raw now qdisc q packet s = Inr (b, True, s1)"
  shows "last_id s1 = last_id s \<and> (\<exists>pkt. ToInstance k f raw (pk_app packet) = Inr pkt \<and> sndback_pkt s1 = pkt)"
  using assms by (auto simp: OnRecv_rcvdev_def Let_def dest!: res_bind_InrD split: if_splits)

lemma ToInstance_ToNetPacket_run:
  assumes "ns3_ok k" "packet_ok k f (DataP d)" "ToNetPacket k f (DataP d) = Inr q"
  shows "ToInstance k f raw q = Inr (Some (received f raw (DataP d)))"
  using data_roundtrip [OF assms(1,2)] assms(3) by (metis ToNetPacket.simps(1) sum.inject(2))

lemma Sendback_made:
  assumes "Sendback f now qdisc q s = Inr (Some st, s')" "sndback_pkt s = Some (DataP pkt)"
  shows "packet_type pkt = DATA_PKT \<and> ns_loss_rate st = 0 \<and> ns_throughput_kbps st = drop_bit 10 (m_curTxRateBps s) \<and>
    ns_loss_seq st = [uint (vh_global_id (video_header pkt) - last_id s)] \<and> length (ns_recvtime_hist st) = 1 \<and>
    rt_pkt_id (hd (ns_recvtime_hist st)) = ucast (vh_global_id (video_header pkt))"
proof -
  let ?s = "s\<lparr>schedule_flag := False\<rparr>"
  obtain d s1 where c: "CalculateTotalDelayMs f (extra_bytes s) qdisc q ?s = Inr (d, s1)" and t: "packet_type pkt = DATA_PKT"
    and ne: "m_txBytesList s \<noteq> []" and w: "m_wirtcEnable s1"
    and st: "st = sendback_states now d (ucast (vh_global_id (video_header pkt))) s1"
    using assms CalculateTotalDelayMs_frame [of f "extra_bytes s" qdisc q ?s]
    by (fastforce simp: Sendback_def Let_def dest!: res_bind_InrD split: if_splits)
  obtain sz where s1: "s1 = ?s\<lparr>m_curQSizeByte := sz\<rparr>" using CalculateTotalDelayMs_frame [OF c] by blast
  from Sendback_report [OF ne assms(2) t HOL.refl assms(1)]
  have "ns_loss_seq st = [uint (vh_global_id (video_header pkt) - last_id s)]"
    using w by (auto simp: s1 split: if_splits)
  then show ?thesis using t by (simp add: st sendback_states_def Let_def s1)
qed

section \<open>Examples\<close>

text \<open>A sender that neither runs a controller nor follows a trace, and what its environment gives.\<close>

abbreviation example_wire_env :: "(bytes, 'c) sender_env \<Rightarrow> (bytes, 'c) sender_env" where
  "example_wire_env env \<equiv> env\<lparr>sn_ns3 := plain_ns3, sn_fs := (\<lambda>_. 0)\<rparr>"

abbreviation quiet_sender :: "(bytes, 'c) sender \<Rightarrow> (bytes, 'c) sender" where
  "quiet_sender peer \<equiv> peer\<lparr>m_cc_enable := False, trace_set := True\<rparr>"

lemma quiet_sender_hears: "\<exists>peer'. RcvNetState env now st (quiet_sender peer) = Inr peer'"
  by (simp add: RcvNetState_def)

lemma example_scan:
  "\<exists>l. scan_record True (m_record (example_receiver raw)) (begin_scan (example_receiver raw)) = Inr l \<and>
     ls_seq l = [2, -2, 2] \<and> length (ls_sample l) < 65536"
  by (simp add: example_receiver_fields begin_scan_def scan_step_def Let_def lessThan_def lessThan_simple_def
      ns_assert_def) (simp add: word_less_def unsigned_minus_1_eq_mask mask_eq_exp_minus_1)

lemma example_record_flags:
  "record_flags (m_record (example_receiver raw)) = [True, True, False, False, True, True]"
  "\<not> lone_last (m_record (example_receiver raw))"
proof -
  have span: "record_span (m_record (example_receiver raw)) = 6"
    by (simp add: record_span_def example_receiver_fields)
  show "record_flags (m_record (example_receiver raw)) = [True, True, False, False, True, True]"
    unfolding record_flags_def span by (simp add: arrived_def example_receiver_fields upt_rec)
  show "\<not> lone_last (m_record (example_receiver raw))"
    by (simp add: lone_last_def example_receiver_fields)
qed

lemma example_feedback:
  "\<exists>s' p. Feedback_NetState (\<lambda>_. 0) (\<lambda>_. 0) False NS (example_receiver raw) = Inr (s', Some p) \<and>
     packet_ok plain_ns3 (\<lambda>_. 0) p"
proof -
  obtain l where l: "scan_record True (m_record (example_receiver raw)) (begin_scan (example_receiver raw)) = Inr l"
    "ls_seq l = [2, -2, 2]" "length (ls_sample l) < 65536"
    using example_scan by blast
  then show ?thesis
    by (simp add: Feedback_NetState_def Let_def example_receiver_fields(3) float_to_u32_def window_throughput_def trunc_def
        net_state_ok_def loss_rate_code_def plain_ns3_ok SetNetStates_def NetStatePacket_ctor_def NetworkPacket_ctor_def)
      (simp add: example_receiver_fields)
qed

section \<open>Properties\<close>

text \<open>C35: the receiver's report over the wire. A report made from a reception record, if it fits the header's fields, is parsed by
  the sender as what it is, and after it the sender's loss sequence expands to exactly which packets of the record arrived and
  which are missing, up to a last packet that stands alone; unless a trace sets them, the sender's loss rate is
  the receiver's in units of 1/10000.\<close>

theorem receiver_report_reaches_sender:
  assumes "ns3_ok (sn_ns3 env)" "record_inv s" "m_record s \<noteq> []" "Feedback_NetState fs fd False raw s = Inr (s', Some p)"
    and "packet_ok (sn_ns3 env) (sn_fs env) p"
  shows "\<exists>bytes. ToNetPacket (sn_ns3 env) (sn_fs env) p = Inr bytes \<and>
    (\<forall>now snd snd'. OnSocketRecv_sender env now bytes snd = Inr snd' \<longrightarrow>
       expand_loss_seq (loss_seq (m_netStat snd')) @ (if lone_last (m_record s) then [True] else []) = record_flags (m_record s) \<and>
       (\<not> trace_set snd \<longrightarrow> current_loss_rate (m_netStat snd') =
          sn_fs env (of_int (trunc (sn_fs env (r_loss_rate s' * 10000))) / 10000)))"
proof -
  obtain st where st: "p = NetStateP (SetNetStates st (NetStatePacket_ctor raw))" "ns_loss_seq st = m_loss_seq s'"
    "ns_loss_rate st = r_loss_rate s'"
    using Feedback_report [OF assms(4)] by auto
  have flags: "expand_loss_seq (m_loss_seq s') @ (if lone_last (m_record s) then [True] else []) = record_flags (m_record s)"
    using feedback_reports_gaps [OF assms(2,3,4)] by blast
  obtain q where q: "ToNetPacket (sn_ns3 env) (sn_fs env) p = Inr q"
    "\<forall>now snd. OnSocketRecv_sender env now q snd = RcvNetState env now (net_state_view (sn_fs env) st) snd"
    using report_received [OF assms(1) assms(5) [unfolded st(1)]] st(1) by blast
  show ?thesis
  proof (intro exI conjI allI impI, rule q(1))
    fix now snd snd' assume "OnSocketRecv_sender env now q snd = Inr snd'"
    then have r: "RcvNetState env now (net_state_view (sn_fs env) st) snd = Inr snd'" using q(2) by simp
    show "expand_loss_seq (loss_seq (m_netStat snd')) @ (if lone_last (m_record s) then [True] else []) = record_flags (m_record s)"
      using flags by (simp add: RcvNetState_stat(1) [OF r] net_state_view_def st(2))
    show "current_loss_rate (m_netStat snd') = sn_fs env (of_int (trunc (sn_fs env (r_loss_rate s' * 10000))) / 10000)"
      if "\<not> trace_set snd"
      using RcvNetState_stat(2) [OF r that] by (simp add: net_state_view_def loss_rate_code_def st(3))
  qed
qed

theorem receiver_report_reaches_sender_witness:
  "\<forall>raw NS env snd. \<exists>s' p bytes snd'. Feedback_NetState (\<lambda>_. 0) (\<lambda>_. 0) False NS (example_receiver raw) = Inr (s', Some p) \<and>
     ToNetPacket plain_ns3 (\<lambda>_. 0) p = Inr bytes \<and>
     OnSocketRecv_sender (example_wire_env env) 0 bytes (quiet_sender snd) = Inr snd' \<and>
     expand_loss_seq (loss_seq (m_netStat snd')) = [True, True, False, False, True, True]"
proof (intro allI)
  fix raw NS and env :: "(bytes, 'c) sender_env" and snd
  let ?env = "example_wire_env env"
  obtain s' p where p: "Feedback_NetState (\<lambda>_. 0) (\<lambda>_. 0) False NS (example_receiver raw) = Inr (s', Some p)"
    "packet_ok plain_ns3 (\<lambda>_. 0) p"
    using example_feedback by blast
  obtain st where st: "p = NetStateP (SetNetStates st (NetStatePacket_ctor NS))" using Feedback_report [OF p(1)] by auto
  have k: "ns3_ok (sn_ns3 ?env)" "packet_ok (sn_ns3 ?env) (sn_fs ?env) p" using p(2) plain_ns3_ok by simp_all
  have ne: "m_record (example_receiver raw) \<noteq> []" by (simp add: example_receiver_fields)
  obtain bytes where b: "ToNetPacket plain_ns3 (\<lambda>_. 0) p = Inr bytes"
    "\<And>now snd snd'. OnSocketRecv_sender ?env now bytes snd = Inr snd' \<Longrightarrow>
      expand_loss_seq (loss_seq (m_netStat snd')) = [True, True, False, False, True, True]"
    using receiver_report_reaches_sender [OF k(1) example_record_inv ne p(1) k(2)] example_record_flags [of raw] by auto
  obtain snd' where "OnSocketRecv_sender ?env 0 bytes (quiet_sender snd) = Inr snd'"
    using report_received [OF k(1) k(2) [unfolded st]] b(1) quiet_sender_hears [of ?env] unfolding st by fastforce
  then show "\<exists>s' p bytes snd'. Feedback_NetState (\<lambda>_. 0) (\<lambda>_. 0) False NS (example_receiver raw) = Inr (s', Some p) \<and>
     ToNetPacket plain_ns3 (\<lambda>_. 0) p = Inr bytes \<and>
     OnSocketRecv_sender ?env 0 bytes (quiet_sender snd) = Inr snd' \<and>
     expand_loss_seq (loss_seq (m_netStat snd')) = [True, True, False, False, True, True]"
    using p(1) b by blast
qed

lemma zhuge_report_parsed:
  assumes "ns3_ok (sn_ns3 env)" "sn_fs env 0 = 0"
    and "packet_ok (sn_ns3 env) (sn_fs env) (DataP d)" "ToNetPacket (sn_ns3 env) (sn_fs env) (DataP d) = Inr (pk_app packet)"
    and "OnRecv_rcvdev (sn_ns3 env) (sn_fs env) rec_raw now qdisc q packet s = Inr (b, True, s1)"
    and "UpdateTxRate q1 s1 = Inr s2" "Sendback f later qdisc2 q2 s2 = Inr (Some st, s3)"
  shows "\<exists>bytes. ToNetPacket (sn_ns3 env) (sn_fs env) (report_of st raw) = Inr bytes \<and>
    (\<forall>t peer. OnSocketRecv_sender env t bytes peer = RcvNetState env t (net_state_view (sn_fs env) st) peer) \<and>
    ns_loss_seq st = [uint (vh_global_id (video_header d) - last_id s)] \<and> loss_rate_code (sn_fs env) st = 0 \<and>
    ns_throughput_kbps st = drop_bit 10 (m_curTxRateBps s2)"
proof -
  have "ToInstance (sn_ns3 env) (sn_fs env) rec_raw (pk_app packet) = Inr (Some (received (sn_fs env) rec_raw (DataP d)))"
    using ToInstance_ToNetPacket_run [OF assms(1,3,4)] .
  then obtain d' where d': "sndback_pkt s1 = Some (DataP d')" "vh_global_id (video_header d') = vh_global_id (video_header d)"
    using scheduled_packet [OF assms(5)] by (auto simp: video_view_def)
  have s2: "sndback_pkt s2 = Some (DataP d')" "last_id s2 = last_id s"
    using UpdateTxRate_keeps [OF assms(6)] d'(1) scheduled_packet [OF assms(5)] by auto
  note made = Sendback_made [OF assms(7) s2(1), unfolded s2(2) d'(2)]
  have lt: "\<bar>uint (vh_global_id (video_header d) - last_id s)\<bar> < 65536"
    using uint_lt(2) [of "vh_global_id (video_header d) - last_id s"] uint_ge_0 [of "vh_global_id (video_header d) - last_id s"]
    by (simp only: abs_of_nonneg)
  have code: "loss_rate_code (sn_fs env) st = 0" using made assms(2) by (simp add: loss_rate_code_def trunc_def)
  have "packet_ok (sn_ns3 env) (sn_fs env) (report_of st raw)"
    using made assms(1) lt code
    by (simp add: report_of_def net_state_ok_def SetNetStates_def NetStatePacket_ctor_def NetworkPacket_ctor_def)
  from report_received [OF assms(1) this [unfolded report_of_def]] obtain bytes where
    q: "ToNetPacket (sn_ns3 env) (sn_fs env) (report_of st raw) = Inr bytes"
    "\<forall>t snd. OnSocketRecv_sender env t bytes snd = RcvNetState env t (net_state_view (sn_fs env) st) snd"
    unfolding report_of_def by blast
  then show ?thesis using made code by blast
qed

text \<open>C36: the access point's report over the wire. A data packet of the sender that Zhuge's access point has parsed and scheduled a
  report for, with a tick of the timer in between, leads to a report that the sender parses: its loss sequence is then
  the distance of the packet's id from the last one reported, modulo 2 to the 16, and unless a trace sets them its loss
  rate is 0 and its bandwidth the rate the access point has measured, in units of 1024 bit/s.\<close>

theorem zhuge_report_reaches_sender:
  assumes "ns3_ok (sn_ns3 env)" "sn_fs env 0 = 0"
    and "packet_ok (sn_ns3 env) (sn_fs env) (DataP d)" "ToNetPacket (sn_ns3 env) (sn_fs env) (DataP d) = Inr (pk_app packet)"
    and "OnRecv_rcvdev (sn_ns3 env) (sn_fs env) rec_raw now qdisc q packet s = Inr (b, True, s1)"
    and "UpdateTxRate q1 s1 = Inr s2" "Sendback f later qdisc2 q2 s2 = Inr (Some st, s3)"
  shows "\<exists>bytes. ToNetPacket (sn_ns3 env) (sn_fs env) (report_of st raw) = Inr bytes \<and>
    (\<forall>t snd snd'. OnSocketRecv_sender env t bytes snd = Inr snd' \<longrightarrow>
       loss_seq (m_netStat snd') = [uint (vh_global_id (video_header d) - last_id s)] \<and>
       (\<not> trace_set snd \<longrightarrow> current_loss_rate (m_netStat snd') = 0 \<and>
          current_bw (m_netStat snd') = sn_fl env (of_int (uint (drop_bit 10 (m_curTxRateBps s2))) / 1000)))"
proof -
  obtain bytes where q: "ToNetPacket (sn_ns3 env) (sn_fs env) (report_of st raw) = Inr bytes"
    "\<forall>t peer. OnSocketRecv_sender env t bytes peer = RcvNetState env t (net_state_view (sn_fs env) st) peer"
    and made: "ns_loss_seq st = [uint (vh_global_id (video_header d) - last_id s)]" "loss_rate_code (sn_fs env) st = 0"
      "ns_throughput_kbps st = drop_bit 10 (m_curTxRateBps s2)"
    using zhuge_report_parsed [OF assms] by blast
  show ?thesis
  proof (intro exI conjI allI impI, rule q(1))
    fix t snd snd' assume "OnSocketRecv_sender env t bytes snd = Inr snd'"
    then have r: "RcvNetState env t (net_state_view (sn_fs env) st) snd = Inr snd'" using q(2) by simp
    show "loss_seq (m_netStat snd') = [uint (vh_global_id (video_header d) - last_id s)]"
      using made by (simp add: RcvNetState_stat(1) [OF r] net_state_view_def)
    show "current_loss_rate (m_netStat snd') = 0"
      "current_bw (m_netStat snd') = sn_fl env (of_int (uint (drop_bit 10 (m_curTxRateBps s2))) / 1000)"
      if "\<not> trace_set snd"
      using RcvNetState_stat(2) [OF r that] made assms(2) by (simp_all add: net_state_view_def)
  qed
qed

text \<open>The access point of the example, carrying UDP, and the packet it reports on.\<close>

abbreviation example_udp_ap :: "bytes zhuge" where
  "example_udp_ap \<equiv> zhuge_example\<lparr>cc_create := False\<rparr>"

abbreviation example_udp_packet :: "bytes \<Rightarrow> bytes ip_packet" where
  "example_udp_packet q \<equiv> example_packet\<lparr>ip_src := 1, ip_dst := 2, ip_proto := 17, pk_app := q\<rparr>"

lemma report_packet_ok: "packet_ok plain_ns3 f (DataP report_packet)"
  using example_data_ok [of f] by (simp add: report_packet_def video_ok_def)

lemma example_ap_scheduled:
  assumes "ToNetPacket plain_ns3 (\<lambda>_. 0) (DataP report_packet) = Inr q"
  shows "\<exists>s1. OnRecv_rcvdev plain_ns3 (\<lambda>_. 0) rec_raw 0 0 example_queue (example_udp_packet q) example_udp_ap = Inr (True, True, s1) \<and>
    sndback_pkt s1 = Some (received (\<lambda>_. 0) rec_raw (DataP report_packet)) \<and> m_mode s1 = 1 \<and>
    kTxBytesListInterval s1 = MilliSeconds 1 \<and> kTxBytesListWindow s1 = 50 \<and> kMinTxRateBps s1 = 512000 \<and>
    m_wirtcEnable s1 \<and> extra_bytes s1 = 0 \<and> last_id s1 = 0"
  using ToInstance_ToNetPacket_run [OF plain_ns3_ok report_packet_ok assms, of rec_raw]
  by (simp add: OnRecv_rcvdev_def Let_def example_packet_def zhuge_example_def Zhuge_InitSocket_def Zhuge_Setup_def
      Zhuge_ctor_def zhuge_raw_def ms_one)

lemma example_ap_reports:
  assumes "sndback_pkt s1 = Some (received (\<lambda>_. 0) rec_raw (DataP report_packet))" "m_mode s1 = 1"
    "kTxBytesListInterval s1 = MilliSeconds 1" "kTxBytesListWindow s1 = 50" "kMinTxRateBps s1 = 512000"
    "m_wirtcEnable s1" "extra_bytes s1 = 0" "last_id s1 = 0"
  shows "\<exists>s2 st s3. UpdateTxRate example_queue s1 = Inr s2 \<and>
    Sendback (\<lambda>_. 0) 0 0 example_queue s2 = Inr (Some st, s3)"
proof -
  obtain s2 where s2: "UpdateTxRate example_queue s1 = Inr s2" "m_txBytesList s2 = m_txBytesList (record_slot example_queue s1)"
    "512000 \<le> m_curTxRateBps s2"
    using UpdateTxRate_run [OF assms(2,3), of example_queue] assms(5) by auto
  have "m_txBytesList s2 \<noteq> []"
  proof
    assume "m_txBytesList s2 = []"
    then have "length (m_txBytesList (record_slot example_queue s1)) = 0" using s2(2) by simp
    then show False using assms(4) by (simp add: record_slot_def Let_def length_keep_last)
  qed
  moreover have "m_curTxRateBps s2 \<noteq> 0" using s2(3) by auto
  moreover note UpdateTxRate_keeps [OF s2(1), unfolded assms]
  ultimately have "\<exists>st s3. Sendback (\<lambda>_. 0) 0 0 example_queue s2 = Inr (Some st, s3)"
    using assms(6)
    by (simp add: Sendback_def CalculateTotalDelayMs_def queue_size_def queue_delay_def Let_def trunc_def report_packet_def
        video_view_def VideoPacket_ctor_def NetworkPacket_ctor_def)
  then show ?thesis using s2(1) by blast
qed

theorem zhuge_report_reaches_sender_witness:
  "\<forall>raw rec_raw env peer. \<exists>q s1 s2 st s3 bytes peer'. ToNetPacket plain_ns3 (\<lambda>_. 0) (DataP report_packet) = Inr q \<and>
     OnRecv_rcvdev plain_ns3 (\<lambda>_. 0) rec_raw 0 0 example_queue (example_udp_packet q) example_udp_ap = Inr (True, True, s1) \<and>
     UpdateTxRate example_queue s1 = Inr s2 \<and> Sendback (\<lambda>_. 0) 0 0 example_queue s2 = Inr (Some st, s3) \<and>
     ToNetPacket plain_ns3 (\<lambda>_. 0) (report_of st raw) = Inr bytes \<and>
     OnSocketRecv_sender (example_wire_env env) 0 bytes (quiet_sender peer) = Inr peer' \<and>
     loss_seq (m_netStat peer') = [65530]"
proof (intro allI)
  fix raw rec_raw and env :: "(bytes, 'c) sender_env" and peer
  let ?env = "example_wire_env env"
  obtain q where q: "ToNetPacket plain_ns3 (\<lambda>_. 0) (DataP report_packet) = Inr q"
    using data_roundtrip [OF plain_ns3_ok report_packet_ok] by (metis ToNetPacket.simps(1))
  obtain s1 where s1: "OnRecv_rcvdev plain_ns3 (\<lambda>_. 0) rec_raw 0 0 example_queue (example_udp_packet q) example_udp_ap =
      Inr (True, True, s1)" "\<exists>s2 st s3. UpdateTxRate example_queue s1 = Inr s2 \<and>
      Sendback (\<lambda>_. 0) 0 0 example_queue s2 = Inr (Some st, s3)"
    using example_ap_scheduled [OF q, of rec_raw] example_ap_reports by metis
  then obtain s2 st s3 where s3: "UpdateTxRate example_queue s1 = Inr s2"
    "Sendback (\<lambda>_. 0) 0 0 example_queue s2 = Inr (Some st, s3)" by blast
  have k: "ns3_ok (sn_ns3 ?env)" "sn_fs ?env 0 = 0" "packet_ok (sn_ns3 ?env) (sn_fs ?env) (DataP report_packet)"
    "ToNetPacket (sn_ns3 ?env) (sn_fs ?env) (DataP report_packet) = Inr (pk_app (example_udp_packet q))"
    "OnRecv_rcvdev (sn_ns3 ?env) (sn_fs ?env) rec_raw 0 0 example_queue (example_udp_packet q) example_udp_ap = Inr (True, True, s1)"
    using plain_ns3_ok report_packet_ok q s1(1) by simp_all
  have i: "uint (vh_global_id (video_header report_packet) - last_id example_udp_ap) = 65530"
    by (simp add: report_packet_def zhuge_example_def Zhuge_InitSocket_def Zhuge_Setup_def)
  obtain bytes where b: "ToNetPacket plain_ns3 (\<lambda>_. 0) (report_of st raw) = Inr bytes"
    "\<And>t peer peer'. OnSocketRecv_sender ?env t bytes peer = Inr peer' \<Longrightarrow> loss_seq (m_netStat peer') = [65530]"
    using zhuge_report_reaches_sender [OF k s3, of raw] unfolding i by auto
  obtain peer' where "OnSocketRecv_sender ?env 0 bytes (quiet_sender peer) = Inr peer'"
    using zhuge_report_parsed [OF k s3, of raw] b(1) quiet_sender_hears [of ?env] by fastforce
  then show "\<exists>q s1 s2 st s3 bytes peer'. ToNetPacket plain_ns3 (\<lambda>_. 0) (DataP report_packet) = Inr q \<and>
     OnRecv_rcvdev plain_ns3 (\<lambda>_. 0) rec_raw 0 0 example_queue (example_udp_packet q) example_udp_ap = Inr (True, True, s1) \<and>
     UpdateTxRate example_queue s1 = Inr s2 \<and> Sendback (\<lambda>_. 0) 0 0 example_queue s2 = Inr (Some st, s3) \<and>
     ToNetPacket plain_ns3 (\<lambda>_. 0) (report_of st raw) = Inr bytes \<and>
     OnSocketRecv_sender ?env 0 bytes (quiet_sender peer) = Inr peer' \<and> loss_seq (m_netStat peer') = [65530]"
    using q s1(1) s3 b by blast
qed

end
