(* ===== verification/Fec_Chain.thy ===== *)
theory Fec_Chain
  imports Fec_Policy Receiver_Udp
begin

text \<open>
  The Markov model of \<open>fec-policy/hairpin-policy.\{h,cc\}\<close>: how the packets a group has lost thin out from one
  retransmission to the next, and what share of the group misses its deadline. The header documents these private functions; none of the
  other sources calls them.

  \<open>None\<close> is a double that is infinite or not a number. \<open>pow\<close> is the library's; what is proved is about exact
  arithmetic (\<open>exact_libm\<close>).
\<close>

section \<open>Doubles that may not be finite\<close>

fun lift2 :: "(rat \<Rightarrow> rat \<Rightarrow> rat option) \<Rightarrow> rat option \<Rightarrow> rat option \<Rightarrow> rat option" where
  "lift2 g (Some x) (Some y) = g x y"
| "lift2 g _ _ = None"

definition dadd :: "libm \<Rightarrow> rat option \<Rightarrow> rat option \<Rightarrow> rat option" where
  "dadd M = lift2 (\<lambda>x y. Some (lm_fd M (x + y)))"

definition dsub :: "libm \<Rightarrow> rat option \<Rightarrow> rat option \<Rightarrow> rat option" where
  "dsub M = lift2 (\<lambda>x y. Some (lm_fd M (x - y)))"

definition dmul :: "libm \<Rightarrow> rat option \<Rightarrow> rat option \<Rightarrow> rat option" where
  "dmul M = lift2 (\<lambda>x y. Some (lm_fd M (x * y)))"

definition ddiv :: "libm \<Rightarrow> rat option \<Rightarrow> rat option \<Rightarrow> rat option" where
  "ddiv M = lift2 (dbl_quot (lm_fd M))"

definition dint :: "int \<Rightarrow> rat option" where
  "dint n = Some (of_int n)"

text \<open>\<open>pow\<close> with an integer for exponent.\<close>

fun dpow :: "libm \<Rightarrow> rat option \<Rightarrow> int \<Rightarrow> rat option" where
  "dpow M (Some x) e = (if x = 0 \<and> e < 0 then None else Some (lm_pow M x (of_int e)))"
| "dpow M None e = None"

text \<open>\<open>s += term (i)\<close> for the indices of a loop, in their order.\<close>

fun sum_loop :: "libm \<Rightarrow> (nat \<Rightarrow> rat option res) \<Rightarrow> nat list \<Rightarrow> rat option \<Rightarrow> rat option res" where
  "sum_loop M g [] s = Inr s"
| "sum_loop M g (i # js) s = res_bind (g i) (\<lambda>x. sum_loop M g js (dadd M s x))"

section \<open>Losses per group\<close>

text \<open>A group is filled from the back of the loss sequence: positive runs have arrived, negative ones are lost. The
  counters stay below the size of the group, which has 16 bits.\<close>

function fill_group :: "nat \<Rightarrow> nat \<Rightarrow> int list \<Rightarrow> int \<Rightarrow> nat \<Rightarrow> nat \<Rightarrow> nat \<Rightarrow> int list \<times> int \<times> nat \<times> nat \<times> nat" where
  "fill_group group_size tot sq next_seq pkt_count data_loss fec_loss =
     (if pkt_count < tot then
        if next_seq = 0 then
          if sq = [] then (sq, next_seq, pkt_count, data_loss, fec_loss)
          else fill_group group_size tot (butlast sq) (last sq) pkt_count data_loss fec_loss
        else if 0 < next_seq then fill_group group_size tot sq (next_seq - 1) (pkt_count + 1) data_loss fec_loss
        else if pkt_count < group_size
          then fill_group group_size tot sq (next_seq + 1) (pkt_count + 1) (data_loss + 1) fec_loss
        else fill_group group_size tot sq (next_seq + 1) (pkt_count + 1) data_loss (fec_loss + 1)
      else (sq, next_seq, pkt_count, data_loss, fec_loss))"
  by pat_completeness auto
termination
  by (relation "measure (\<lambda>(group_size, tot, sq, next_seq, pkt_count, data_loss, fec_loss).
    (tot - pkt_count) + length sq)") (auto simp flip: length_greater_0_conv)

declare fill_group.simps [simp del]

definition loss_index :: "nat \<Rightarrow> nat \<Rightarrow> nat \<Rightarrow> nat" where
  "loss_index fec_count data_loss fec_loss = (if fec_count < data_loss + fec_loss then data_loss else 0)"

text \<open>What is left of the sequence and of the current run, as a measure.\<close>

definition left_over :: "int list \<Rightarrow> int \<Rightarrow> nat" where
  "left_over sq next_seq = nat \<bar>next_seq\<bar> + sum_list (map (\<lambda>r. nat \<bar>r\<bar>) sq)"

lemma left_over_pop: "sq \<noteq> [] \<Longrightarrow> left_over (butlast sq) (last sq) = left_over sq 0"
  by (cases sq rule: rev_cases) (simp_all add: left_over_def)

lemma fill_group_uses:
  "fill_group gs tot sq n pkt dl fl = (sq', n', pkt', dl', fl') \<Longrightarrow> pkt \<le> tot \<Longrightarrow>
   pkt \<le> pkt' \<and> pkt' \<le> tot \<and> left_over sq n + pkt = left_over sq' n' + pkt' \<and> (pkt' < tot \<longrightarrow> sq' = [] \<and> n' = 0)"
proof (induction gs tot sq n pkt dl fl rule: fill_group.induct)
  case (1 gs tot sq n pkt dl fl)
  show ?case
  proof (cases "pkt < tot")
    case True
    consider "n = 0" "sq = []" | "n = 0" "sq \<noteq> []" | "0 < n" | "n < 0" by linarith
    then show ?thesis
    proof cases
      case 1 then show ?thesis using "1.prems" True by (subst (asm) fill_group.simps) simp
    next
      case 2 then show ?thesis
        using "1.IH"(1) "1.prems" True left_over_pop [of sq] by (subst (asm) fill_group.simps) simp
    next
      case 3 then show ?thesis
        using "1.IH"(2) "1.prems" True by (subst (asm) fill_group.simps) (auto simp: left_over_def)
    next
      case 4 then show ?thesis
        using "1.IH"(3,4) "1.prems" True
        by (subst (asm) fill_group.simps) (auto simp: left_over_def split: if_splits)
    qed
  next
    case False then show ?thesis using "1.prems" by (subst (asm) fill_group.simps) auto
  qed
qed

lemma fill_group_full:
  "fill_group gs tot sq n 0 0 0 = (sq', n', pkt, dl, fl) \<Longrightarrow> \<not> pkt < tot \<Longrightarrow> 0 < tot \<Longrightarrow>
    left_over sq' n' < left_over sq n"
  using fill_group_uses [of gs tot sq n 0 0 0 sq' n' pkt dl fl] by simp

function count_groups :: "libm \<Rightarrow> nat \<Rightarrow> nat \<Rightarrow> nat \<Rightarrow> int list \<Rightarrow> int \<Rightarrow> rat list \<Rightarrow> u16 \<Rightarrow> (rat list \<times> u16) res" where
  "count_groups M group_size fec_count tot sq next_seq dis group_count =
     (if sq = [] then Inr (dis, group_count)
      else if tot = 0 then Inl Diverges
      else case fill_group group_size tot sq next_seq 0 0 0 of (sq', next_seq', pkt_count, data_loss, fec_loss) \<Rightarrow>
        if pkt_count < tot then ns_assert (sq' = []) (Inr (dis, group_count))
        else
          let j = loss_index fec_count data_loss fec_loss
          in count_groups M group_size fec_count tot sq' next_seq' (dis[j := lm_fd M (dis ! j + 1)]) (group_count + 1))"
  by pat_completeness auto
termination
  by (relation "measure (\<lambda>(M, gs, fec, tot, sq, n, dis, c). left_over sq n)") (auto dest!: fill_group_full [OF sym])

declare count_groups.simps [simp del]

definition GetAverageLostPackets :: "libm \<Rightarrow> int list \<Rightarrow> u16 \<Rightarrow> rat \<Rightarrow> rat list res" where
  "GetAverageLostPackets M sq group_size beta_0 =
     res_bind (to_word (of_int (round_away (lm_fd M (of_int (uint group_size) * beta_0))))) (\<lambda>fec_count :: u8.
     let total_group_size = group_size + ucast fec_count
     in res_bind (count_groups M (unat group_size) (unat fec_count) (unat total_group_size) sq 0
                    (replicate (unat group_size + 1) 0) 0) (\<lambda>(dis, group_count).
        if group_count \<noteq> 0 then
          if group_size = 65535 then Inl Diverges
          else Inr (map (\<lambda>p. lm_fd M (p / of_int (uint group_count))) dis)
        else Inr (dis[0 := 1])))"

section \<open>Binomial coefficients\<close>

text \<open>The loop of \<open>Comb\<close>: its product is an \<open>int\<close>, whose overflow is undefined.\<close>

function comb_loop :: "int \<Rightarrow> int \<Rightarrow> int \<Rightarrow> int \<Rightarrow> int res" where
  "comb_loop n k i r =
     (if i \<le> k then
        let p = r * (n - i + 1)
        in if p < - (2 ^ 31) \<or> 2 ^ 31 \<le> p then Inl UndefinedBehaviour else comb_loop n k (i + 1) (p sdiv i)
      else Inr r)"
  by pat_completeness auto
termination by (relation "measure (\<lambda>(n, k, i, r). nat (k + 1 - i))") auto

declare comb_loop.simps [simp del]

definition Comb :: "u8 \<Rightarrow> u8 \<Rightarrow> u32 res" where
  "Comb n k =
     (if n < k then Inr 0
      else
        let k = (if uint n < uint k * 2 then n - k else k)
        in if k = 0 then Inr 1
           else res_bind (comb_loop (uint n) (uint k) 2 (uint n)) (\<lambda>r. Inr (word_of_int r)))"

subsection \<open>\<open>Comb\<close> computes them, or overflows\<close>

lemma binomial_next: "(n choose j) * (n - j) = Suc j * (n choose Suc j)"
  using binomial_absorption [of j n] binomial_absorb_comp [of n j] by (metis mult.commute)

lemma binomial_rises_step: "2 * j < m \<Longrightarrow> m choose j \<le> m choose Suc j"
proof -
  assume j: "2 * j < m"
  have "Suc j * (m choose j) \<le> (m choose j) * (m - j)" using j by (metis Suc_leI less_diff_conv mult.commute mult_2 mult_le_mono1)
  then show ?thesis unfolding binomial_next by (simp only: mult_le_cancel1 zero_less_Suc simp_thms)
qed

lemma binomial_rises: "i \<le> k \<Longrightarrow> 2 * k \<le> Suc m \<Longrightarrow> m choose i \<le> m choose k"
proof (induction k)
  case (Suc k)
  show ?case
  proof (cases "i = Suc k")
    case False
    then have "m choose i \<le> m choose k" using Suc by simp
    also have "\<dots> \<le> m choose Suc k" using Suc.prems by (intro binomial_rises_step) simp
    finally show ?thesis .
  qed simp
qed simp

lemma product_rises:
  assumes "0 < i" "i \<le> k" "n \<le> N" "2 * k \<le> N + 2"
  shows "i * (n choose i) \<le> N * ((N - 1) choose (k - 1))"
proof -
  have "i * (n choose i) = n * ((n - 1) choose (i - 1))" using assms by (simp add: times_binomial_minus1_eq)
  also have "\<dots> \<le> N * ((N - 1) choose (i - 1))" using assms by (intro mult_mono binomial_right_mono) auto
  also have "(N - 1) choose (i - 1) \<le> (N - 1) choose (k - 1)" using assms by (intro binomial_rises) auto
  finally show ?thesis by simp
qed

definition comb_overflows :: "nat \<Rightarrow> nat \<Rightarrow> bool" where
  "comb_overflows n k \<longleftrightarrow> 2 \<le> k \<and> 2 ^ 31 \<le> k * (n choose k)"

lemma sdiv_exact: "0 < a \<Longrightarrow> int (a * b) sdiv int a = int b"
  by (cases "b = 0") (simp_all add: signed_divide_int_def sgn_if)

lemma comb_loop_step:
  assumes "Suc j \<le> k" "k \<le> n"
  shows "comb_loop (int n) (int k) (int (Suc j)) (int (n choose j)) =
    (if 2 ^ 31 \<le> Suc j * (n choose Suc j) then Inl UndefinedBehaviour
     else comb_loop (int n) (int k) (int (Suc (Suc j))) (int (n choose Suc j)))"
proof -
  have p: "int (n choose j) * (int n - int (Suc j) + 1) = int (Suc j * (n choose Suc j))"
    using arg_cong [OF binomial_next [of n j], of int] assms by (simp add: of_nat_diff)
  have q: "int (Suc j * (n choose Suc j)) sdiv int (Suc j) = int (n choose Suc j)"
    by (rule sdiv_exact) simp
  have "\<not> int (Suc j * (n choose Suc j)) < - (2 ^ 31)" by (simp del: of_nat_mult)
  moreover have "2 ^ 31 \<le> int (Suc j * (n choose Suc j)) \<longleftrightarrow> 2 ^ 31 \<le> Suc j * (n choose Suc j)"
    by (metis of_nat_le_iff of_nat_numeral of_nat_power)
  moreover have "int (Suc j) \<le> int k" "int (Suc j) + 1 = int (Suc (Suc j))" using assms by simp_all
  ultimately show ?thesis by (subst comb_loop.simps) (simp only: p q Let_def simp_thms if_True)
qed

lemma comb_loop_exact:
  assumes "0 < j" "j \<le> k" "2 * k \<le> n"
  shows "comb_loop (int n) (int k) (int (Suc j)) (int (n choose j)) =
    (if j < k \<and> 2 ^ 31 \<le> k * (n choose k) then Inl UndefinedBehaviour else Inr (int (n choose k)))"
  using assms
proof (induction "k - j" arbitrary: j)
  case 0
  then show ?case by (subst comb_loop.simps) simp
next
  case (Suc d)
  then have j: "Suc j \<le> k" "k \<le> n" by simp_all
  have le: "Suc j * (n choose Suc j) \<le> k * (n choose k)"
    using product_rises [of "Suc j" k n n] j Suc.prems times_binomial_minus1_eq [of k n] by simp
  have IH: "comb_loop (int n) (int k) (int (Suc (Suc j))) (int (n choose Suc j)) =
      (if Suc j < k \<and> 2 ^ 31 \<le> k * (n choose k) then Inl UndefinedBehaviour else Inr (int (n choose k)))"
    using Suc.hyps(1) [of "Suc j"] Suc.hyps(2) Suc.prems j by simp
  show ?case
  proof (cases "2 ^ 31 \<le> Suc j * (n choose Suc j)")
    case True
    then show ?thesis unfolding comb_loop_step [OF j] using le j order_trans by (metis Suc_le_lessD)
  next
    case False
    then have "2 ^ 31 \<le> k * (n choose k) \<Longrightarrow> Suc j < k" using j by (metis le_neq_implies_less)
    then show ?thesis unfolding comb_loop_step [OF j] IH using False j by (metis Suc_le_lessD)
  qed
qed

lemma Comb_exact:
  "Comb n k =
     (if n < k then Inr 0
      else if comb_overflows (unat n) (min (unat k) (unat n - unat k)) then Inl UndefinedBehaviour
      else Inr (word_of_nat (unat n choose unat k)))"
proof (cases "n < k")
  case False
  then have kn: "k \<le> n" by simp
  then have kn: "k \<le> n" "unat k \<le> unat n" by (simp_all only: word_le_nat_alt)
  let ?k = "if uint n < uint k * 2 then n - k else k"
  have "uint n < uint k * 2 \<longleftrightarrow> unat n < unat k * 2" unfolding uint_nat by linarith
  moreover have "unat (n - k) = unat n - unat k" using kn(1) by (rule unat_sub)
  ultimately have k: "unat ?k = min (unat k) (unat n - unat k)" using kn(2) by auto
  have sym: "unat n choose min (unat k) (unat n - unat k) = unat n choose unat k"
    using kn(2) binomial_symmetric [OF kn(2)] by (simp add: min_def)
  show ?thesis
  proof (cases "?k = 0")
    case True
    have m: "min (unat k) (unat n - unat k) = 0" unfolding k [symmetric] True by simp
    then have "unat n choose unat k = 1" using sym by (metis binomial_n_0)
    then show ?thesis unfolding Comb_def Let_def m comb_overflows_def if_not_P [OF False] if_P [OF True] by simp
  next
    case nz: False
    define m where "m = min (unat k) (unat n - unat k)"
    have km: "unat ?k = m" using k by (simp only: m_def)
    have "2 * m \<le> unat n" unfolding m_def using kn(2) by linarith
    moreover have "0 < m" unfolding km [symmetric] unat_gt_0 by (fact nz)
    ultimately have m: "0 < m" "2 * m \<le> unat n" by blast+
    have "uint ?k = int m" unfolding km [symmetric] by (rule uint_nat)
    moreover have "int (Suc 1) = 2" "unat n choose 1 = unat n" by simp_all
    moreover have "comb_loop (int (unat n)) (int m) (int (Suc 1)) (int (unat n choose 1)) =
        (if 1 < m \<and> 2 ^ 31 \<le> m * (unat n choose m) then Inl UndefinedBehaviour else Inr (int (unat n choose m)))"
      using m by (intro comb_loop_exact) auto
    ultimately have "comb_loop (uint n) (uint ?k) 2 (uint n) =
        (if 1 < m \<and> 2 ^ 31 \<le> m * (unat n choose m) then Inl UndefinedBehaviour else Inr (int (unat n choose m)))"
      by (metis uint_nat)
    then show ?thesis
      unfolding Comb_def Let_def comb_overflows_def m_def [symmetric] if_not_P [OF False] if_not_P [OF nz] Suc_1
      using sym by (simp add: m_def [symmetric] Suc_le_eq)
  qed
qed (simp add: Comb_def)

text \<open>Up to 29 packets, and for the retransmission of 15 packets sent twice, the product does not overflow.\<close>

lemma binomials: "28 choose 13 = (37442160 :: nat)" "29 choose 13 = (67863915 :: nat)" "29 choose 14 = (77558760 :: nat)"
  by (simp_all add: binomial_fact' fact_numeral)

lemma comb_small:
  assumes "n \<le> N" "2 * k \<le> n" "k \<le> K" "2 * K \<le> N + 2" "N * ((N - 1) choose (K - 1)) < 2 ^ 31"
  shows "\<not> comb_overflows n k"
proof
  assume "comb_overflows n k"
  then have "0 < k" "2 ^ 31 \<le> k * (n choose k)" by (auto simp: comb_overflows_def)
  moreover have "k * (n choose k) \<le> N * ((N - 1) choose (K - 1))"
    using assms calculation(1) by (intro product_rises) auto
  ultimately show False using assms(5) by linarith
qed

lemma Comb_fits:
  assumes "unat k \<le> unat n" "\<not> comb_overflows (unat n) (min (unat k) (unat n - unat k))"
  shows "Comb n k = Inr (word_of_nat (unat n choose unat k))"
proof -
  have "\<not> n < k" using assms(1) by (simp only: word_less_nat_alt not_less)
  then show ?thesis using assms(2) by (simp add: Comb_exact)
qed

lemma Comb_29: "unat n \<le> 29 \<Longrightarrow> unat k \<le> unat n \<Longrightarrow> Comb n k = Inr (word_of_nat (unat n choose unat k))"
  by (rule Comb_fits, assumption, rule comb_small [of _ 29 _ 14]) (auto simp: binomials)

lemma Comb_30: "unat n \<le> 30 \<Longrightarrow> 2 * unat k < unat n \<Longrightarrow> Comb n k = Inr (word_of_nat (unat n choose unat k))"
  by (rule Comb_fits, simp, rule comb_small [of _ 30 _ 14]) (auto simp: binomials)

section \<open>Transition probabilities\<close>

definition dComb :: "u8 \<Rightarrow> u8 \<Rightarrow> rat option res" where
  "dComb n k = res_bind (Comb n k) (\<lambda>c. Inr (dint (uint c)))"

text \<open>The term of the first and of the second loop of \<open>TransPbl\<close>, where every retransmitted packet is sent twice.\<close>

definition none_left_term :: "libm \<Rightarrow> u8 \<Rightarrow> rat \<Rightarrow> nat \<Rightarrow> rat option res" where
  "none_left_term M n0 loss_rate i =
     res_bind (dComb (word_of_int (uint n0 * 2)) (of_nat i)) (\<lambda>c.
     Inr (dmul M (dmul M c (dpow M (Some loss_rate) (int i)))
            (dpow M (dsub M (Some 1) (Some loss_rate)) (uint n0 * 2 - int i))))"

definition some_left_term :: "libm \<Rightarrow> u8 \<Rightarrow> u8 \<Rightarrow> rat \<Rightarrow> nat \<Rightarrow> rat option res" where
  "some_left_term M n0 n1 loss_rate i =
     res_bind (dComb n0 (word_of_int (int i - uint n1))) (\<lambda>c1. res_bind (dComb n0 n1) (\<lambda>c2.
     Inr (dmul M (dmul M (dmul M (dpow M (Some loss_rate) (int i))
                             (dpow M (dsub M (Some 1) (Some loss_rate)) (uint n0 * 2 - int i))) c1) c2)))"

text \<open>The index of the second loop has 8 bits: it never reaches a bound above 255.\<close>

definition TransPbl :: "libm \<Rightarrow> u8 \<Rightarrow> u8 \<Rightarrow> rat \<Rightarrow> u8 \<Rightarrow> rat option res" where
  "TransPbl M n0 n1 loss_rate fec_mult =
     (if fec_mult = 1 then
        if n1 = 0 then sum_loop M (none_left_term M n0 loss_rate) [0..<unat n0] (Some 0)
        else
          let min_loss_count = max (unat n0 + 1) (unat n1)
          in if 255 < unat n1 + unat n0 + 1 then Inl Diverges
             else sum_loop M (some_left_term M n0 n1 loss_rate) [min_loss_count..<unat n1 + unat n0 + 1] (Some 0)
      else
        let q = dpow M (Some loss_rate) (uint fec_mult + 1)
        in res_bind (dComb n0 n1) (\<lambda>c.
           Inr (dmul M (dmul M c (dpow M q (uint n1))) (dpow M (dsub M (Some 1) q) (uint n0 - uint n1)))))"

definition StatePbl :: "libm \<Rightarrow> rat option list \<Rightarrow> u8 \<Rightarrow> rat \<Rightarrow> u8 \<Rightarrow> rat option res" where
  "StatePbl M column_vector n loss_rate fec_mult =
     res_bind (sum_loop M (\<lambda>i. res_bind (TransPbl M (of_nat i) n loss_rate fec_mult) (\<lambda>t.
                 Inr (dmul M (column_vector ! i) t)))
               [max (unat n) 1..<min (length column_vector) 256] (Some 0)) (\<lambda>s.
     if 255 < length column_vector then Inl Diverges else Inr s)"

section \<open>The chain\<close>

record chain =
  loss_dis :: "rat option list"
  on_time_rate :: "rat option"
  ddl_miss_rate :: "rat option"
  extra_pkts :: "rat option"
  pbl_sum :: "rat option"

definition markov_layers :: "libm \<Rightarrow> rat \<Rightarrow> rat \<Rightarrow> u8 res" where
  "markov_layers M rtt ddl =
     (case dbl_quot (lm_fd M) ddl rtt of
        None \<Rightarrow> Inl UndefinedBehaviour
      | Some q \<Rightarrow>
          res_bind (to_word (lm_fd M (of_int \<lfloor>q\<rfloor> + 1))) (\<lambda>layer :: u8.
          Inr (layer + (if lm_fd M (ddl - lm_fd M (rtt * of_int (uint layer - 1))) > lm_fd M (rtt / 2) then 1 else 0))))"

text \<open>One pass of the loop over the states \<open>j\<close> of a layer \<open>i\<close>. The column is overwritten as it is read.\<close>

definition chain_state :: "libm \<Rightarrow> u8 \<Rightarrow> rat \<Rightarrow> nat \<Rightarrow> nat \<Rightarrow> nat \<Rightarrow> chain \<Rightarrow> chain res" where
  "chain_state M beta_1 loss_rate layer i j c =
     res_bind (if 0 < i then res_bind (StatePbl M (loss_dis c) (of_nat j) loss_rate beta_1) (\<lambda>p.
                 Inr (c\<lparr>loss_dis := (loss_dis c)[j := p]\<rparr>)) else Inr c) (\<lambda>c.
     let p = loss_dis c ! j
     in Inr (if j = 0 then c\<lparr>on_time_rate := dadd M (on_time_rate c) p\<rparr>
             else
               let c = c\<lparr>pbl_sum := dadd M (pbl_sum c) p\<rparr>
               in if i = layer - 1 then c\<lparr>ddl_miss_rate := dadd M (ddl_miss_rate c) p\<rparr>
                  else c\<lparr>extra_pkts := dadd M (extra_pkts c) (dmul M (dint (int j + int j * uint beta_1)) p)\<rparr>))"

fun chain_states :: "libm \<Rightarrow> u8 \<Rightarrow> rat \<Rightarrow> nat \<Rightarrow> nat \<Rightarrow> nat list \<Rightarrow> chain \<Rightarrow> chain res" where
  "chain_states M beta_1 loss_rate layer i [] c = Inr c"
| "chain_states M beta_1 loss_rate layer i (j # js) c =
     res_bind (chain_state M beta_1 loss_rate layer i j c) (chain_states M beta_1 loss_rate layer i js)"

text \<open>The normalisation. It divides by what it has just changed.\<close>

definition chain_normalise :: "libm \<Rightarrow> chain \<Rightarrow> chain" where
  "chain_normalise M c =
     (let c = c\<lparr>on_time_rate := ddiv M (on_time_rate c) (dadd M (on_time_rate c) (pbl_sum c))\<rparr>
      in c\<lparr>loss_dis := take 1 (loss_dis c) @
             map (\<lambda>p. ddiv M p (dadd M (on_time_rate c) (pbl_sum c))) (drop 1 (loss_dis c)),
           pbl_sum := Some 0\<rparr>)"

definition chain_layer :: "libm \<Rightarrow> u8 \<Rightarrow> u8 \<Rightarrow> rat \<Rightarrow> nat \<Rightarrow> nat \<Rightarrow> chain \<Rightarrow> chain res" where
  "chain_layer M group_size beta_1 loss_rate layer i c =
     (if group_size = 255 then Inl Diverges
      else res_bind (chain_states M beta_1 loss_rate layer i [0..<unat group_size + 1] (c\<lparr>pbl_sum := Some 0\<rparr>))
             (\<lambda>c. Inr (chain_normalise M c)))"

fun chain_layers :: "libm \<Rightarrow> u8 \<Rightarrow> u8 \<Rightarrow> rat \<Rightarrow> nat \<Rightarrow> nat list \<Rightarrow> chain \<Rightarrow> chain res" where
  "chain_layers M group_size beta_1 loss_rate layer [] c = Inr c"
| "chain_layers M group_size beta_1 loss_rate layer (i # js) c =
     res_bind (chain_layer M group_size beta_1 loss_rate layer i c)
       (chain_layers M group_size beta_1 loss_rate layer js)"

text \<open>\<open>GetResult\<close>: the rate of groups that miss the deadline, and the bandwidth spent on retransmissions.\<close>

definition sum_is_one :: "libm \<Rightarrow> rat option \<Rightarrow> bool" where
  "sum_is_one M s = (case dsub M s (Some 1) of None \<Rightarrow> False | Some d \<Rightarrow> \<bar>d\<bar> < lm_fd M (1 / 10 ^ 10))"

definition GetResult :: "libm \<Rightarrow> u8 \<Rightarrow> u8 \<Rightarrow> rat option list \<Rightarrow> rat \<Rightarrow> rat \<Rightarrow> rat \<Rightarrow> (rat option \<times> rat option) res" where
  "GetResult M group_size beta_1 dis loss_rate rtt ddl =
     ns_assert (length dis = unat group_size + 1)
      (ns_assert (sum_is_one M (fold (\<lambda>p s. dadd M s p) dis (Some 0)))
       (res_bind (markov_layers M rtt ddl) (\<lambda>layer.
        res_bind (chain_layers M group_size beta_1 loss_rate (unat layer) [0..<unat layer]
                   \<lparr>loss_dis = dis, on_time_rate = Some 0, ddl_miss_rate = Some 0, extra_pkts = Some 0,
                    pbl_sum = Some 0\<rparr>) (\<lambda>c.
        Inr (ddl_miss_rate c,
             ddiv M (extra_pkts c) (dadd M (dint (uint group_size)) (extra_pkts c)))))))"

definition QoE :: "libm \<Rightarrow> rat \<Rightarrow> rat option \<Rightarrow> rat option \<Rightarrow> rat option" where
  "QoE M qoe_coeff miss_rate bandwidth_loss_rate =
     dadd M (dsub M (Some 0) miss_rate) (dmul M (Some qoe_coeff) (dsub M (Some 1) bandwidth_loss_rate))"

section \<open>The chain in exact arithmetic\<close>

definition exact_libm :: "libm \<Rightarrow> bool" where
  "exact_libm M \<longleftrightarrow> lm_fd M = (\<lambda>x. x) \<and> (\<forall>x n. lm_pow M x (of_nat n) = x ^ n)"

named_theorems exact

lemma exact_ops [exact]:
  assumes "exact_libm M"
  shows "dadd M (Some x) (Some y) = Some (x + y)" "dsub M (Some x) (Some y) = Some (x - y)"
    "dmul M (Some x) (Some y) = Some (x * y)" "ddiv M (Some x) (Some y) = (if y = 0 then None else Some (x / y))"
    "dpow M (Some x) (int n) = Some (x ^ n)"
  using assms by (simp_all add: exact_libm_def dadd_def dsub_def dmul_def ddiv_def dbl_quot_def)

lemma sum_loop_exact:
  assumes "exact_libm M" "\<And>i. i \<in> set js \<Longrightarrow> g i = Inr (Some (h i))"
  shows "sum_loop M g js (Some s) = Inr (Some (s + (\<Sum>i\<leftarrow>js. h i)))"
  using assms(2) by (induction js arbitrary: s) (simp_all add: exact_ops [OF assms(1)] add.assoc)

lemma sum_loop_range:
  assumes "exact_libm M" "\<And>i. a \<le> i \<Longrightarrow> i < b \<Longrightarrow> g i = Inr (Some (h i))"
  shows "sum_loop M g [a..<b] (Some 0) = Inr (Some (\<Sum>i\<in>{a..<b}. h i))"
  using sum_loop_exact [OF assms(1), of "[a..<b]" g h 0] assms(2) by (simp add: sum_list_distinct_conv_sum_set)

text \<open>How many of \<open>i\<close> packets are left when each is lost with probability \<open>P\<close>.\<close>

definition thin :: "rat \<Rightarrow> nat \<Rightarrow> nat \<Rightarrow> rat" where
  "thin P i j = of_nat (i choose j) * P ^ j * (1 - P) ^ (i - j)"

lemma thin_zero: "i < j \<Longrightarrow> thin P i j = 0"
  by (simp add: thin_def)

lemma thin_generates: "(\<Sum>j\<le>i. thin P i j * x ^ j) = (1 - P + P * x) ^ i"
proof -
  have "(P * x + (1 - P)) ^ i = (\<Sum>j\<le>i. of_nat (i choose j) * (P * x) ^ j * (1 - P) ^ (i - j))" by (rule binomial_ring)
  also have "\<dots> = (\<Sum>j\<le>i. thin P i j * x ^ j)" by (simp add: thin_def power_mult_distrib mult_ac)
  finally show ?thesis by (simp add: add.commute)
qed

lemma thin_upto: "i \<le> g \<Longrightarrow> (\<Sum>j\<le>g. thin P i j * f j) = (\<Sum>j\<le>i. thin P i j * f j)"
  by (rule sum.mono_neutral_right) (auto simp: thin_zero)

lemma thin_row: "i \<le> g \<Longrightarrow> (\<Sum>j\<le>g. thin P i j) = 1"
  using thin_upto [of i g P "\<lambda>_. 1"] thin_generates [of P i 1] by simp

lemma thin_mean: "(\<Sum>j\<le>i. thin P i j * of_nat j) = of_nat i * P"
proof (cases i)
  case (Suc m)
  have "thin P i (Suc j) * of_nat (Suc j) = of_nat i * P * thin P m j" for j
  proof -
    have "of_nat (Suc j) * (of_nat (i choose Suc j) :: rat) = of_nat i * of_nat (m choose j)"
      unfolding of_nat_mult [symmetric] Suc by (simp only: Suc_times_binomial)
    then show ?thesis by (simp add: thin_def Suc mult_ac)
  qed
  then have "(\<Sum>j\<le>i. thin P i j * of_nat j) = (\<Sum>j\<le>m. of_nat i * P * thin P m j)"
    unfolding Suc sum.atMost_Suc_shift by simp
  then show ?thesis using thin_row [of m m P] by (simp add: sum_distrib_left [symmetric])
qed simp

lemma choose_u32: "n \<le> 30 \<Longrightarrow> uint (word_of_nat (n choose k) :: u32) = int (n choose k)"
proof -
  assume "n \<le> 30"
  then have "n choose k \<le> 2 ^ 30" by (metis binomial_le_pow2 le_trans one_le_numeral power_increasing)
  then show ?thesis by (simp add: uint_nat unat_word_of_nat_32)
qed

lemma dComb_29: "unat n \<le> 29 \<Longrightarrow> unat k \<le> unat n \<Longrightarrow> dComb n k = Inr (Some (of_nat (unat n choose unat k)))"
  unfolding dComb_def dint_def by (subst Comb_29) (simp_all only: res_bind.simps choose_u32 of_int_of_nat_eq)

lemma dComb_30: "unat n \<le> 30 \<Longrightarrow> 2 * unat k < unat n \<Longrightarrow> dComb n k = Inr (Some (of_nat (unat n choose unat k)))"
  unfolding dComb_def dint_def by (subst Comb_30) (simp_all only: res_bind.simps choose_u32 of_int_of_nat_eq)

lemma TransPbl_thins:
  assumes M: "exact_libm M" and n: "unat n0 \<le> 29" "unat n1 \<le> unat n0" and b: "\<beta> \<noteq> 1"
  shows "TransPbl M n0 n1 p \<beta> = Inr (Some (thin (p ^ (unat \<beta> + 1)) (unat n0) (unat n1)))"
proof -
  have e: "uint \<beta> + 1 = int (unat \<beta> + 1)" "uint n1 = int (unat n1)" "uint n0 - int (unat n1) = int (unat n0 - unat n1)"
    using n(2) by (simp_all add: of_nat_diff)
  show ?thesis
    unfolding TransPbl_def e Let_def if_not_P [OF b] dComb_29 [OF n] exact_ops [OF M] res_bind.simps thin_def ..
qed

subsection \<open>Every packet sent twice\<close>

abbreviation lost_of :: "rat \<Rightarrow> nat \<Rightarrow> nat \<Rightarrow> rat" where
  "lost_of p n i \<equiv> p ^ i * (1 - p) ^ (2 * n - i)"

lemma unat_byte: "z = int n \<Longrightarrow> n < 256 \<Longrightarrow> unat (word_of_int z :: u8) = n"
  by (simp add: unat_of_nat)

lemma TransPbl_twice_none:
  assumes M: "exact_libm M" and n: "unat n0 \<le> 15"
  shows "TransPbl M n0 0 p 1 = Inr (Some (\<Sum>i\<in>{0..<unat n0}. of_nat (2 * unat n0 choose i) * lost_of p (unat n0) i))"
  unfolding TransPbl_def if_P [OF refl]
proof (rule sum_loop_range [OF M])
  fix i assume i: "i < unat n0"
  have w: "unat (word_of_int (uint n0 * 2) :: u8) = 2 * unat n0" "unat (of_nat i :: u8) = i"
    by (rule unat_byte) (use n i in \<open>simp_all add: unat_of_nat\<close>)
  have e: "uint n0 * 2 - int i = int (2 * unat n0 - i)" using i by (simp add: of_nat_diff)
  have c: "dComb (word_of_int (uint n0 * 2)) (of_nat i) = Inr (Some (of_nat (2 * unat n0 choose i)))"
    using dComb_30 [of "word_of_int (uint n0 * 2)" "of_nat i"] n i unfolding w by simp
  show "none_left_term M n0 p i = Inr (Some (of_nat (2 * unat n0 choose i) * lost_of p (unat n0) i))"
    unfolding none_left_term_def c e res_bind.simps exact_ops [OF M] mult.assoc ..
qed

lemma TransPbl_twice_some:
  assumes M: "exact_libm M" and n: "unat n0 \<le> 15" "unat n1 \<le> unat n0" "n1 \<noteq> 0"
  shows "TransPbl M n0 n1 p 1 = Inr (Some (\<Sum>i\<in>{unat n0 + 1..<unat n1 + unat n0 + 1}.
    lost_of p (unat n0) i * of_nat (unat n0 choose (i - unat n1)) * of_nat (unat n0 choose unat n1)))"
proof -
  have "\<not> 255 < unat n1 + unat n0 + 1" "max (unat n0 + 1) (unat n1) = unat n0 + 1" using n by simp_all
  moreover have "some_left_term M n0 n1 p i =
      Inr (Some (lost_of p (unat n0) i * of_nat (unat n0 choose (i - unat n1)) * of_nat (unat n0 choose unat n1)))"
    if i: "unat n0 + 1 \<le> i" "i < unat n1 + unat n0 + 1" for i
  proof -
    have w: "unat (word_of_int (int i - uint n1) :: u8) = i - unat n1"
      using n i by (intro unat_byte) auto
    have e: "uint n0 * 2 - int i = int (2 * unat n0 - i)" using i n by (simp add: of_nat_diff)
    have c: "dComb n0 (word_of_int (int i - uint n1)) = Inr (Some (of_nat (unat n0 choose (i - unat n1))))"
      "dComb n0 n1 = Inr (Some (of_nat (unat n0 choose unat n1)))"
      using dComb_29 [of n0 "word_of_int (int i - uint n1)"] dComb_29 [of n0 n1] n i unfolding w by simp_all
    show ?thesis unfolding some_left_term_def c e res_bind.simps exact_ops [OF M] ..
  qed
  ultimately show ?thesis using n(3) unfolding TransPbl_def Let_def
    by (simp only: if_False if_True simp_thms sum_loop_range [OF M])
qed

lemma twice_row:
  fixes p :: rat
  shows "(\<Sum>i\<in>{0..<n}. of_nat (2 * n choose i) * lost_of p n i) +
    (\<Sum>j\<in>{1..n}. \<Sum>i\<in>{n + 1..<j + n + 1}. lost_of p n i * of_nat (n choose (i - j)) * of_nat (n choose j)) =
    1 - of_nat (2 * n choose n) * (p * (1 - p)) ^ n"
proof -
  let ?t = "\<lambda>i. of_nat (2 * n choose i) * lost_of p n i"
  have "(\<Sum>i\<in>{n + 1..<j + n + 1}. lost_of p n i * of_nat (n choose (i - j)) * of_nat (n choose j)) =
      (\<Sum>i\<in>{n + 1..2 * n}. lost_of p n i * of_nat (n choose (i - j)) * of_nat (n choose j))" if "j \<in> {1..n}" for j
    using that by (intro sum.mono_neutral_left) auto
  then have "(\<Sum>j\<in>{1..n}. \<Sum>i\<in>{n + 1..<j + n + 1}. lost_of p n i * of_nat (n choose (i - j)) * of_nat (n choose j)) =
      (\<Sum>j\<in>{1..n}. \<Sum>i\<in>{n + 1..2 * n}. lost_of p n i * of_nat (n choose (i - j)) * of_nat (n choose j))"
    by (rule sum.cong [OF HOL.refl])
  also have "\<dots> = (\<Sum>i\<in>{n + 1..2 * n}. \<Sum>j\<in>{1..n}. lost_of p n i * of_nat (n choose (i - j)) * of_nat (n choose j))"
    by (rule sum.swap)
  also have "\<dots> = (\<Sum>i\<in>{n + 1..2 * n}. ?t i)"
  proof (rule sum.cong [OF HOL.refl])
    fix i assume i: "i \<in> {n + 1..2 * n}"
    have "(\<Sum>j\<in>{1..n}. (n choose j) * (n choose (i - j))) = (\<Sum>j\<le>i. (n choose j) * (n choose (i - j)))"
      using i by (intro sum.mono_neutral_left) (auto simp: not_le Suc_le_eq)
    also have "\<dots> = 2 * n choose i" unfolding vandermonde by (simp add: mult_2)
    finally have v: "(\<Sum>j\<in>{1..n}. (n choose j) * (n choose (i - j))) = 2 * n choose i" .
    show "(\<Sum>j\<in>{1..n}. lost_of p n i * of_nat (n choose (i - j)) * of_nat (n choose j)) = ?t i"
      unfolding v [symmetric] of_nat_sum of_nat_mult sum_distrib_right by (simp add: mult_ac)
  qed
  finally have s: "(\<Sum>j\<in>{1..n}. \<Sum>i\<in>{n + 1..<j + n + 1}. lost_of p n i * of_nat (n choose (i - j)) * of_nat (n choose j)) =
    (\<Sum>i\<in>{n + 1..2 * n}. ?t i)" .
  have "1 = (p + (1 - p)) ^ (2 * n)" by simp
  also have "\<dots> = (\<Sum>i\<le>2 * n. ?t i)" unfolding binomial_ring by (simp add: mult.assoc)
  also have "{..2 * n} = {0..<n} \<union> ({n} \<union> {n + 1..2 * n})" by auto
  also have "(\<Sum>i\<in>{0..<n} \<union> ({n} \<union> {n + 1..2 * n}). ?t i) = (\<Sum>i\<in>{0..<n}. ?t i) + (?t n + (\<Sum>i\<in>{n + 1..2 * n}. ?t i))"
    by (subst sum.union_disjoint; auto)+
  finally show ?thesis unfolding s by (simp add: power_mult_distrib mult_2)
qed

end
