(* ===== verification/Hairpin_Estimate.thy ===== *)
theory Hairpin_Estimate
  imports Fec_Chain
begin

text \<open>
  What the Markov model of \<open>fec-policy/hairpin-policy.cc\<close> computes in exact arithmetic: the share of a group that misses its deadline and the
  bandwidth its retransmissions take, in closed form; the rows of its transition matrix; and the distribution of losses that it starts
  from, as counts over the packets of a loss sequence.
\<close>

section \<open>The chain without double sending\<close>

definition column :: "nat \<Rightarrow> (nat \<Rightarrow> rat) \<Rightarrow> rat option list" where
  "column g d = map (\<lambda>k. Some (d k)) [0..<g + 1]"

lemma column_nth [simp]: "k \<le> g \<Longrightarrow> column g d ! k = Some (d k)"
  by (simp add: column_def del: upt_Suc)



























text \<open>A library whose \<open>pow\<close> is exact on natural exponents.\<close>

definition exact_example :: libm where
  "exact_example = \<lparr>lm_fs = (\<lambda>x. x), lm_fd = (\<lambda>x. x), lm_sqrt = (\<lambda>x. x), lm_pow = (\<lambda>x y. x ^ nat \<lfloor>y\<rfloor>),
     lm_exp = (\<lambda>x. 1)\<rparr>"

lemma exact_example_ok: "exact_libm exact_example"
  by (simp add: exact_libm_def exact_example_def)


section \<open>The rows of the transition matrix\<close>

text \<open>The transition probabilities out of a state of at most 15 packets add up to one, except where every retransmitted packet is sent
  exactly twice: there the case that exactly half of the copies is lost is counted nowhere.\<close>

theorem retransmission_rows:
  assumes M: "exact_libm M" and n: "unat n0 \<le> 15"
  shows "\<exists>T. (\<forall>j\<le>unat n0. TransPbl M n0 (of_nat j) p \<beta> = Inr (Some (T j))) \<and>
    (\<Sum>j\<le>unat n0. T j) = (if \<beta> = 1 then 1 - of_nat (2 * unat n0 choose unat n0) * (p * (1 - p)) ^ unat n0 else 1)"
proof -
  have w: "unat (of_nat j :: u8) = j" if "j \<le> unat n0" for j using that n by (simp add: unat_of_nat)
  show ?thesis
  proof (cases "\<beta> = 1")
    case True
    let ?f = "\<lambda>j. if j = 0 then \<Sum>i\<in>{0..<unat n0}. of_nat (2 * unat n0 choose i) * lost_of p (unat n0) i
      else \<Sum>i\<in>{unat n0 + 1..<j + unat n0 + 1}. lost_of p (unat n0) i * of_nat (unat n0 choose (i - j)) * of_nat (unat n0 choose j)"
    have "TransPbl M n0 (of_nat j) p \<beta> = Inr (Some (?f j))" if j: "j \<le> unat n0" for j
    proof (cases "j = 0")
      case False
      then have "(of_nat j :: u8) \<noteq> 0" using w [OF j] by (metis unat_0)
      then show ?thesis using TransPbl_twice_some [OF M n, of "of_nat j" p] False True j unfolding w [OF j] by simp
    qed (use TransPbl_twice_none [OF M n, of p] True in simp)
    moreover have "(\<Sum>j\<le>unat n0. ?f j) = ?f 0 + (\<Sum>j\<in>{1..unat n0}. ?f j)"
      by (simp only: atMost_atLeast0 sum.atLeast_Suc_atMost [OF le0] One_nat_def)
    moreover have "\<dots> = 1 - of_nat (2 * unat n0 choose unat n0) * (p * (1 - p)) ^ unat n0"
      unfolding twice_row [symmetric] by simp
    ultimately show ?thesis using True by (intro exI [of _ ?f]) simp
  next
    case False
    then have "TransPbl M n0 (of_nat j) p \<beta> = Inr (Some (thin (p ^ (unat \<beta> + 1)) (unat n0) j))" if j: "j \<le> unat n0" for j
      using TransPbl_thins [OF M, of n0 "of_nat j" \<beta> p] n j unfolding w [OF j] by simp
    then show ?thesis using False thin_row [of "unat n0" "unat n0" "p ^ (unat \<beta> + 1)"] by auto
  qed
qed

theorem retransmission_rows_witness:
  "\<exists>T :: nat \<Rightarrow> rat. TransPbl exact_example 2 0 (1 / 2) 1 = Inr (Some (T 0)) \<and> TransPbl exact_example 2 1 (1 / 2) 1 = Inr (Some (T 1)) \<and>
     TransPbl exact_example 2 2 (1 / 2) 1 = Inr (Some (T 2)) \<and> T 0 + T 1 + T 2 = 5 / 8"
proof -
  obtain T where T: "\<forall>j\<le>unat (2 :: u8). TransPbl exact_example 2 (of_nat j) (1 / 2) 1 = Inr (Some (T j))"
    "(\<Sum>j\<le>unat (2 :: u8). T j) = (if (1 :: u8) = 1 then 1 - of_nat (2 * unat (2 :: u8) choose unat (2 :: u8)) *
       (1 / 2 * (1 - 1 / 2)) ^ unat (2 :: u8) else 1)"
    using retransmission_rows [OF exact_example_ok, of 2 "1 / 2" 1] by auto
  have "(\<Sum>j\<le>2. T j) = 1 - of_nat (4 choose 2) * (1 / 4) ^ 2" using T(2) by simp
  then have "T 0 + T 1 + T 2 = 5 / 8" by (simp add: eval_nat_numeral)
  moreover have "TransPbl exact_example 2 (of_nat j) (1 / 2) 1 = Inr (Some (T j))" if "j \<le> 2" for j using T(1) that by simp
  from this [of 0] this [of 1] this [of 2] have "TransPbl exact_example 2 0 (1 / 2) 1 = Inr (Some (T 0))"
    "TransPbl exact_example 2 1 (1 / 2) 1 = Inr (Some (T 1))" "TransPbl exact_example 2 2 (1 / 2) 1 = Inr (Some (T 2))"
    by simp_all
  ultimately show ?thesis by blast
qed

section \<open>What is counted of a loss sequence\<close>

abbreviation lost :: "bool list \<Rightarrow> nat" where
  "lost c \<equiv> length (filter Not c)"

text \<open>The packets still to be read, newest run first.\<close>

definition unread :: "int list \<Rightarrow> int \<Rightarrow> bool list" where
  "unread sq next_seq = expand_loss_seq (next_seq # rev sq)"

lemma unread_pop: "sq \<noteq> [] \<Longrightarrow> unread (butlast sq) (last sq) = unread sq 0"
  by (cases sq rule: rev_cases) (simp_all add: unread_def)

lemma unread_received: "0 < n \<Longrightarrow> unread sq n = True # unread sq (n - 1)"
  by (cases "nat n") (auto simp: unread_def nat_diff_distrib)

lemma unread_lost: "n < 0 \<Longrightarrow> unread sq n = False # unread sq (n + 1)"
  by (cases "nat (- n)") (auto simp: unread_def nat_diff_distrib algebra_simps)

lemma unread_none: "unread [] 0 = []"
  by (simp add: unread_def)

lemma length_unread: "length (unread sq n) = left_over sq n"
proof -
  have "length (expand_loss_seq xs) = sum_list (map (\<lambda>r. nat \<bar>r\<bar>) xs)" for xs by (induction xs) auto
  then show ?thesis by (simp add: unread_def left_over_def rev_map [symmetric])
qed

lemma fill_group_reads:
  "fill_group gs tot sq n pkt dl fl = (sq', n', pkt', dl', fl') \<Longrightarrow> pkt \<le> tot \<Longrightarrow>
     (let c = take (tot - pkt) (unread sq n)
      in pkt' = pkt + length c \<and> unread sq' n' = drop (tot - pkt) (unread sq n) \<and>
         dl' = dl + lost (take (gs - pkt) c) \<and> fl' = fl + lost (drop (gs - pkt) c))"
proof (induction gs tot sq n pkt dl fl rule: fill_group.induct)
  case (1 gs tot sq n pkt dl fl)
  show ?case
  proof (cases "pkt < tot")
    case True
    then have t: "tot - pkt = Suc (tot - Suc pkt)" by simp
    consider "n = 0" "sq = []" | "n = 0" "sq \<noteq> []" | "0 < n" | "n < 0" by linarith
    then show ?thesis
    proof cases
      case 1 then show ?thesis using "1.prems" True by (subst (asm) fill_group.simps) (simp add: unread_none)
    next
      case 2 then show ?thesis
        using "1.IH"(1) "1.prems" True unread_pop [of sq] by (subst (asm) fill_group.simps) simp
    next
      case 3
      show ?thesis
      proof (cases "pkt < gs")
        case less: True
        then have "gs - pkt = Suc (gs - Suc pkt)" by simp
        then show ?thesis using "1.IH"(2) "1.prems" True 3 unfolding unread_received [OF 3] t
          by (subst (asm) fill_group.simps) (simp add: Let_def)
      next
        case False
        then show ?thesis using "1.IH"(2) "1.prems" True 3 unfolding unread_received [OF 3] t
          by (subst (asm) fill_group.simps) (simp add: Let_def)
      qed
    next
      case 4
      show ?thesis
      proof (cases "pkt < gs")
        case less: True
        then have "gs - pkt = Suc (gs - Suc pkt)" by simp
        then show ?thesis using "1.IH"(3) "1.prems" True less 4 unfolding unread_lost [OF 4] t
          by (subst (asm) fill_group.simps) (simp add: Let_def)
      next
        case False
        then show ?thesis using "1.IH"(4) "1.prems" True 4 unfolding unread_lost [OF 4] t
          by (subst (asm) fill_group.simps) (simp add: Let_def)
      qed
    qed
  next
    case False then show ?thesis using "1.prems" by (subst (asm) fill_group.simps) simp
  qed
qed

text \<open>When a group is full, the oldest run is either untouched or partly read.\<close>

lemma fill_group_oldest:
  "fill_group gs tot sq n pkt dl fl = (sq', n', pkt', dl', fl') \<Longrightarrow>
     (\<not> pkt < tot \<longrightarrow> sq' = sq \<and> n' = n) \<and> (sq' \<noteq> [] \<longrightarrow> sq \<noteq> [] \<and> hd sq' = hd sq) \<and> (sq = [] \<longrightarrow> \<bar>n'\<bar> \<le> \<bar>n\<bar>) \<and>
     (sq = [] \<and> pkt < tot \<and> pkt' = tot \<longrightarrow> \<bar>n'\<bar> < \<bar>n\<bar>) \<and>
     (sq \<noteq> [] \<and> sq' = [] \<and> pkt < tot \<and> pkt' = tot \<longrightarrow> \<bar>n'\<bar> < \<bar>hd sq\<bar>)"
proof (induction gs tot sq n pkt dl fl rule: fill_group.induct)
  case (1 gs tot sq n pkt dl fl)
  show ?case
  proof (cases "pkt < tot")
    case True
    consider "n = 0" "sq = []" | "n = 0" "sq \<noteq> []" | "0 < n" | "n < 0" by linarith
    then show ?thesis
    proof cases
      case 1 then show ?thesis using "1.prems" True by (subst (asm) fill_group.simps) simp
    next
      case 2
      have "butlast sq = [] \<longrightarrow> last sq = hd sq" "butlast sq \<noteq> [] \<longrightarrow> hd (butlast sq) = hd sq"
        using 2 by (cases sq; simp)+
      then show ?thesis using "1.IH"(1) "1.prems" True 2 by (subst (asm) fill_group.simps) auto
    next
      case 3 then show ?thesis using "1.IH"(2) "1.prems" True by (subst (asm) fill_group.simps) auto
    next
      case 4 then show ?thesis using "1.IH"(3,4) "1.prems" True by (subst (asm) fill_group.simps) (auto split: if_splits)
    qed
  next
    case False then show ?thesis using "1.prems" by (subst (asm) fill_group.simps) simp
  qed
qed

text \<open>The groups that are counted: full ones that begin before the oldest run, of \<open>h\<close> packets.\<close>

function counted_groups :: "nat \<Rightarrow> nat \<Rightarrow> bool list \<Rightarrow> bool list list" where
  "counted_groups h T xs =
     (if 0 < T \<and> T \<le> length xs \<and> h \<le> length xs then take T xs # counted_groups h T (drop T xs) else [])"
  by pat_completeness auto
termination by (relation "measure (\<lambda>(h, T, xs). length xs)") auto

declare counted_groups.simps [simp del]

definition group_losses :: "nat \<Rightarrow> nat \<Rightarrow> bool list \<Rightarrow> nat" where
  "group_losses gs fec c = (if fec < lost c then lost (take gs c) else 0)"

lemma group_losses_le: "group_losses gs fec c \<le> gs"
  using length_filter_le [of Not "take gs c"] by (simp add: group_losses_def)

abbreviation tally :: "nat \<Rightarrow> nat \<Rightarrow> bool list \<Rightarrow> rat list \<Rightarrow> rat list" where
  "tally gs fec c dis \<equiv> dis[group_losses gs fec c := dis ! group_losses gs fec c + 1]"

lemma lost_split: "lost (take n c) + lost (drop n c) = lost c"
  by (metis append_take_drop_id filter_append length_append)

lemma count_groups_exact:
  assumes "exact_libm M" "0 < tot"
  shows "(sq \<noteq> [] \<longrightarrow> hd sq = h) \<and> (sq = [] \<longrightarrow> \<bar>n\<bar> < \<bar>h\<bar>) \<Longrightarrow> count_groups M gs fec tot sq n dis c =
    (let G = counted_groups (nat \<bar>h\<bar>) tot (unread sq n) in Inr (fold (tally gs fec) G dis, c + of_nat (length G)))"
proof (induction "left_over sq n" arbitrary: sq n dis c rule: less_induct)
  case less
  show ?case
  proof (cases "sq = []")
    case True
    then have "\<not> nat \<bar>h\<bar> \<le> length (unread sq n)" using less.prems by (simp add: length_unread left_over_def)
    then have "counted_groups (nat \<bar>h\<bar>) tot (unread sq n) = []" by (subst counted_groups.simps) (simp only: simp_thms if_False)
    then show ?thesis using True by (subst count_groups.simps) (simp add: Let_def)
  next
    case False
    then have "nat \<bar>h\<bar> \<le> left_over sq n" using less.prems by (cases sq) (simp_all add: left_over_def)
    then have h: "nat \<bar>h\<bar> \<le> length (unread sq n)" by (simp add: length_unread)
    obtain sq' n' pkt dl fl where f: "fill_group gs tot sq n 0 0 0 = (sq', n', pkt, dl, fl)" by (metis prod_cases5)
    have r: "pkt = length (take tot (unread sq n))" "unread sq' n' = drop tot (unread sq n)"
      "dl = lost (take gs (take tot (unread sq n)))" "fl = lost (drop gs (take tot (unread sq n)))"
      using fill_group_reads [OF f] by (simp_all add: Let_def)
    show ?thesis
    proof (cases "pkt < tot")
      case True
      then have "counted_groups (nat \<bar>h\<bar>) tot (unread sq n) = []" using r(1) by (subst counted_groups.simps) simp
      moreover have "sq' = []" using fill_group_uses [OF f] True by simp
      ultimately show ?thesis using False True assms(2) f by (simp add: count_groups.simps [of M gs fec tot sq])
    next
      case full: False
      then have p: "pkt = tot" "tot \<le> length (unread sq n)" using r(1) by auto
      let ?c = "take tot (unread sq n)"
      have j: "loss_index fec dl fl = group_losses gs fec ?c"
        unfolding loss_index_def group_losses_def r(3,4) lost_split ..
      have G: "counted_groups (nat \<bar>h\<bar>) tot (unread sq n) = ?c # counted_groups (nat \<bar>h\<bar>) tot (unread sq' n')"
        using p h assms(2) r(2) by (subst counted_groups.simps) simp
      have "(sq' \<noteq> [] \<longrightarrow> hd sq' = h) \<and> (sq' = [] \<longrightarrow> \<bar>n'\<bar> < \<bar>h\<bar>)"
        using fill_group_oldest [OF f] False less.prems p(1) assms(2) by auto
      then have IH: "count_groups M gs fec tot sq' n' (tally gs fec ?c dis) (c + 1) =
          (let G = counted_groups (nat \<bar>h\<bar>) tot (unread sq' n')
           in Inr (fold (tally gs fec) G (tally gs fec ?c dis), c + 1 + of_nat (length G)))"
        using fill_group_full [OF f full assms(2)] less.hyps [of sq' n' "tally gs fec ?c dis" "c + 1"] by blast
      have "count_groups M gs fec tot sq n dis c = count_groups M gs fec tot sq' n' (tally gs fec ?c dis) (c + 1)"
        using False full assms f by (simp add: count_groups.simps [of M gs fec tot sq] j Let_def exact_libm_def)
      then show ?thesis unfolding IH G by (simp add: Let_def add.assoc)
    qed
  qed
qed

lemma tally_counts:
  "length dis = gs + 1 \<Longrightarrow> length (fold (tally gs fec) G dis) = gs + 1 \<and>
     (\<forall>j\<le>gs. fold (tally gs fec) G dis ! j = dis ! j + of_nat (length (filter (\<lambda>c. group_losses gs fec c = j) G)))"
proof (induction G arbitrary: dis)
  case (Cons c G)
  show ?case using Cons.IH [of "tally gs fec c dis"] Cons.prems group_losses_le [of gs fec c]
    by (auto simp: nth_list_update)
qed simp

lemma shares_sum:
  assumes "\<And>c. f c \<le> (n :: nat)" "G \<noteq> []"
  shows "(\<Sum>j\<le>n. of_nat (length (filter (\<lambda>c. f c = j) G)) / of_nat (length G)) = (1 :: rat)"
proof -
  have "(\<Sum>j\<le>n. length (filter (\<lambda>c. f c = j) H)) = length H" for H
  proof (induction H)
    case (Cons c H)
    have "(\<Sum>j\<le>n. length (filter (\<lambda>c. f c = j) (c # H))) = (\<Sum>j\<le>n. (if j = f c then 1 else 0) + length (filter (\<lambda>c. f c = j) H))"
      by (rule sum.cong) auto
    then show ?case using Cons assms(1) [of c] by (simp add: sum.distrib)
  qed simp
  then have "(\<Sum>j\<le>n. of_nat (length (filter (\<lambda>c. f c = j) G))) = (of_nat (length G) :: rat)" by (metis of_nat_sum)
  then show ?thesis using assms(2) by (simp add: sum_divide_distrib [symmetric])
qed

definition loss_share :: "nat \<Rightarrow> nat \<Rightarrow> bool list list \<Rightarrow> nat \<Rightarrow> rat" where
  "loss_share gs fec G j = (if G = [] then if j = 0 then 1 else 0
     else of_nat (length (filter (\<lambda>c. group_losses gs fec c = j) G)) / of_nat (length G))"

lemma GetAverageLostPackets_shares:
  fixes gs :: u16
  assumes M: "exact_libm M" and s: "sq \<noteq> []" and f: "round_away (of_int (uint gs) * \<beta>\<^sub>0) = int fec" "fec < 256"
    and T: "0 < unat gs + fec" "unat gs + fec < 65535"
  defines "G \<equiv> counted_groups (nat \<bar>hd sq\<bar>) (unat gs + fec) (expand_loss_seq (rev sq))"
  assumes G: "length G < 65536"
  shows "GetAverageLostPackets M sq gs \<beta>\<^sub>0 = Inr (map (loss_share (unat gs) fec G) [0..<unat gs + 1])"
proof -
  have fd: "lm_fd M = (\<lambda>x. x)" using M by (simp add: exact_libm_def)
  have w: "to_word (of_int (int fec)) = Inr (word_of_nat fec :: u8)" "unat (word_of_nat fec :: u8) = fec"
    using f(2) to_u8(1) [of "int fec"] by (simp_all add: unat_of_nat)
  have t: "unat (gs + ucast (word_of_nat fec :: u8)) = unat gs + fec"
    using T f(2) w(2) by (simp add: unat_word_ariths unsigned_ucast_eq take_bit_nat_eq_self)
  define D where "D = fold (tally (unat gs) fec) G (replicate (unat gs + 1) 0)"
  have D: "length D = unat gs + 1"
    "\<And>j. j \<le> unat gs \<Longrightarrow> D ! j = of_nat (length (filter (\<lambda>c. group_losses (unat gs) fec c = j) G))"
    using tally_counts [of "replicate (unat gs + 1) 0" "unat gs" fec G] unfolding D_def by (auto simp: nth_Cons')
  have run: "count_groups M (unat gs) fec (unat gs + fec) sq 0 (replicate (unat gs + 1) 0) 0 = Inr (D, of_nat (length G))"
    using count_groups_exact [OF M T(1), of sq "hd sq" 0 "unat gs" fec "replicate (unat gs + 1) 0" 0] s
    by (simp add: D_def G_def Let_def unread_def)
  have n: "unat (of_nat (length G) :: u16) = length G" using G by (rule unat_word_of_nat_16)
  have z: "of_nat (length G) = (0 :: u16) \<longleftrightarrow> G = []" using n by (metis length_0_conv unat_0 unat_eq_zero)
  have gs: "gs \<noteq> 65535" using T by auto
  show ?thesis
  proof (cases "G = []")
    case True
    have "D[0 := 1] = map (loss_share (unat gs) fec G) [0..<unat gs + 1]"
      by (rule nth_equalityI) (auto simp: D nth_list_update loss_share_def True simp del: upt_Suc)
    then show ?thesis unfolding GetAverageLostPackets_def fd f(1) w(1) res_bind.simps Let_def t w(2) run
      using True by (simp del: upt_Suc)
  next
    case False
    have "map (\<lambda>p. p / of_int (uint (of_nat (length G) :: u16))) D = map (loss_share (unat gs) fec G) [0..<unat gs + 1]"
      using False n by (intro nth_equalityI) (auto simp: D loss_share_def uint_nat simp del: upt_Suc)
    then show ?thesis unfolding GetAverageLostPackets_def fd f(1) w(1) res_bind.simps Let_def t w(2) run
      using False z gs by (simp del: upt_Suc)
  qed
qed

text \<open>The distribution that the model starts from. For a loss sequence of fewer than 65536 groups \<open>GetAverageLostPackets\<close> returns,
  in exact arithmetic, the shares of the groups by the number of their data packets that FEC cannot recover. Only full groups that begin before the
  oldest run of the sequence are counted. The shares add up to one, as \<open>GetResult\<close> asserts.\<close>

theorem loss_distribution_exact:
  fixes gs :: u16
  assumes "exact_libm M" "sq \<noteq> []" "round_away (of_int (uint gs) * \<beta>\<^sub>0) = int fec" "fec < 256"
    and "0 < unat gs + fec" "unat gs + fec < 65535"
    and "length (counted_groups (nat \<bar>hd sq\<bar>) (unat gs + fec) (expand_loss_seq (rev sq))) < 65536"
  shows "GetAverageLostPackets M sq gs \<beta>\<^sub>0 =
      Inr (map (loss_share (unat gs) fec (counted_groups (nat \<bar>hd sq\<bar>) (unat gs + fec) (expand_loss_seq (rev sq)))) [0..<unat gs + 1]) \<and>
    (\<Sum>j\<le>unat gs. loss_share (unat gs) fec (counted_groups (nat \<bar>hd sq\<bar>) (unat gs + fec) (expand_loss_seq (rev sq))) j) = 1"
proof
  show "(\<Sum>j\<le>unat gs. loss_share (unat gs) fec (counted_groups (nat \<bar>hd sq\<bar>) (unat gs + fec) (expand_loss_seq (rev sq))) j) = 1"
    using shares_sum [of "group_losses (unat gs) fec", OF group_losses_le]
    by (cases "counted_groups (nat \<bar>hd sq\<bar>) (unat gs + fec) (expand_loss_seq (rev sq)) = []") (simp_all add: loss_share_def)
qed (rule GetAverageLostPackets_shares [OF assms])

theorem loss_distribution_exact_witness:
  "GetAverageLostPackets exact_example [7, -2, 1] 2 (1 / 2) = Inr [1 / 2, 1 / 2, 0]"
proof -
  have fl: "expand_loss_seq (rev [7, -2, 1]) = [True, False, False, True, True, True, True, True, True, True]"
    by (simp add: eval_nat_numeral)
  have G: "counted_groups (nat \<bar>hd [7, -2, 1]\<bar>) (unat (2 :: u16) + 1) (expand_loss_seq (rev [7, -2, 1])) =
      [[True, False, False], [True, True, True]]"
    unfolding fl by (simp add: counted_groups.simps)
  have r: "round_away (of_int (uint (2 :: u16)) * (1 / 2)) = int 1" by (simp add: round_away_def floor_eq_iff)
  show ?thesis
    using loss_distribution_exact [OF exact_example_ok _ r, of "[7, -2, 1]"] unfolding G
    by (simp add: loss_share_def group_losses_def upt_rec)
qed

end
