(* ===== verification/Feconly_Table.thy ===== *)
theory Feconly_Table
  imports Fec_Policy
begin

text \<open>
  \<open>fec-policy/feconly-fec-array.\{h,cc\}\<close>: the FEC rate for a loss rate and a group size, without a bitrate.
  \<open>FECOnlyPolicy\<close> looks its count up elsewhere (\<open>get_fec_count\<close>), so nothing calls this lookup. One row of the array
  holds the eleven group sizes of one loss rate.
\<close>

definition feconly_rows :: "int list list" where
  "feconly_rows = [[0, 0, 0, 0, 0, 0, 0, 0, 0, 0, 0], [3, 4, 4, 5, 5, 5, 6, 6, 6, 6, 7], [4, 5, 5, 6, 6, 7, 7, 8, 8, 9, 9],
     [4, 5, 6, 7, 8, 8, 9, 9, 10, 10, 11], [5, 6, 7, 8, 9, 10, 10, 11, 12, 12, 13],
     [5, 7, 8, 9, 10, 11, 11, 12, 13, 14, 14], [5, 7, 9, 10, 11, 12, 13, 14, 14, 15, 16],
     [5, 8, 9, 11, 12, 13, 14, 15, 16, 17, 18], [5, 8, 10, 11, 13, 14, 15, 16, 17, 18, 19],
     [5, 9, 11, 12, 14, 15, 16, 17, 19, 20, 20], [5, 10, 11, 13, 15, 16, 17, 19, 20, 21, 22],
     [5, 10, 12, 14, 16, 17, 19, 20, 21, 23, 24], [5, 10, 13, 15, 16, 18, 20, 21, 23, 24, 25],
     [5, 10, 14, 16, 17, 19, 21, 22, 24, 26, 27], [5, 10, 14, 16, 18, 20, 22, 24, 25, 27, 29],
     [5, 10, 15, 17, 19, 21, 23, 25, 27, 28, 30], [5, 10, 15, 18, 20, 22, 24, 26, 28, 30, 31],
     [5, 10, 15, 19, 21, 23, 26, 28, 30, 32, 33], [5, 10, 15, 20, 22, 25, 27, 29, 31, 33, 35],
     [5, 10, 15, 20, 23, 26, 28, 30, 33, 35, 37], [5, 10, 15, 20, 24, 27, 29, 32, 34, 36, 39],
     [5, 10, 15, 20, 25, 28, 31, 33, 36, 38, 40], [5, 10, 15, 20, 25, 29, 32, 35, 37, 40, 42],
     [5, 10, 15, 20, 25, 30, 33, 36, 39, 41, 44], [5, 10, 15, 20, 25, 30, 35, 37, 40, 43, 46],
     [5, 10, 15, 20, 25, 30, 35, 39, 42, 45, 48], [5, 10, 15, 20, 25, 30, 35, 40, 44, 47, 50],
     [5, 10, 15, 20, 25, 30, 35, 40, 45, 48, 52], [5, 10, 15, 20, 25, 30, 35, 40, 45, 50, 53],
     [5, 10, 15, 20, 25, 30, 35, 40, 45, 50, 55], [5, 10, 15, 20, 25, 30, 35, 40, 45, 50, 55],
     [5, 10, 15, 20, 25, 30, 35, 40, 45, 50, 55], [5, 10, 15, 20, 25, 30, 35, 40, 45, 50, 55],
     [5, 10, 15, 20, 25, 30, 35, 40, 45, 50, 55], [5, 10, 15, 20, 25, 30, 35, 40, 45, 50, 55],
     [5, 10, 15, 20, 25, 30, 35, 40, 45, 50, 55], [5, 10, 15, 20, 25, 30, 35, 40, 45, 50, 55],
     [5, 10, 15, 20, 25, 30, 35, 40, 45, 50, 55], [5, 10, 15, 20, 25, 30, 35, 40, 45, 50, 55],
     [5, 10, 15, 20, 25, 30, 35, 40, 45, 50, 55], [5, 10, 15, 20, 25, 30, 35, 40, 45, 50, 55],
     [5, 10, 15, 20, 25, 30, 35, 40, 45, 50, 55], [5, 10, 15, 20, 25, 30, 35, 40, 45, 50, 55],
     [5, 10, 15, 20, 25, 30, 35, 40, 45, 50, 55], [5, 10, 15, 20, 25, 30, 35, 40, 45, 50, 55],
     [5, 10, 15, 20, 25, 30, 35, 40, 45, 50, 55], [5, 10, 15, 20, 25, 30, 35, 40, 45, 50, 55],
     [5, 10, 15, 20, 25, 30, 35, 40, 45, 50, 55], [5, 10, 15, 20, 25, 30, 35, 40, 45, 50, 55],
     [5, 10, 15, 20, 25, 30, 35, 40, 45, 50, 55], [5, 10, 15, 20, 25, 30, 35, 40, 45, 50, 55]]"

definition fec_array_feconly :: "int list" where
  "fec_array_feconly = concat feconly_rows"

definition get_fec_rate_feconly :: "rounding \<Rightarrow> rat \<Rightarrow> u8 \<Rightarrow> rat res" where
  "get_fec_rate_feconly f loss group_size =
     res_bind (grid_index f (clamp_range 0 (1 / 2) loss) 0 (f (1 / 100))) (\<lambda>loss_index.
     res_bind (grid_group_size f group_size) (\<lambda>group_size.
     res_bind (grid_index f (of_int (uint group_size)) 5 5) (\<lambda>group_size_index.
     res_bind (array_at fec_array_feconly (unat loss_index * 11 + unat group_size_index))
       (\<lambda>n. Inr (f (of_int n / of_int (uint group_size)))))))"

section \<open>What the array holds\<close>

text \<open>No value exceeds its group size, and a higher loss rate never has a smaller value.\<close>

lemma feconly_row_values: "list_all (\<lambda>r. list_all2 (\<lambda>v g. 0 \<le> v \<and> v \<le> g) r [5, 10, 15, 20, 25, 30, 35, 40, 45, 50, 55]) feconly_rows"
  by (simp add: feconly_rows_def)

lemma feconly_rows_rise: "successively (list_all2 (\<le>)) feconly_rows"
  by (simp add: feconly_rows_def)

lemma feconly_rows_length: "length feconly_rows = 51"
  by (simp add: feconly_rows_def)

lemma feconly_row_length: "\<forall>r\<in>set feconly_rows. length r = 11"
  using feconly_row_values by (fastforce simp: list_all_iff dest: list_all2_lengthD)

lemma feconly_length: "length fec_array_feconly = 561"
  unfolding fec_array_feconly_def by (simp add: length_concat_rows [OF feconly_row_length] feconly_rows_length)

lemma feconly_nth:
  assumes "l < 51" "g < 11"
  shows "fec_array_feconly ! (l * 11 + g) = feconly_rows ! l ! g"
  unfolding fec_array_feconly_def using assms nth_concat_rows [OF feconly_row_length] by (simp add: feconly_rows_length)

lemma feconly_entry:
  assumes "l < 51" "g < 11"
  shows "0 \<le> fec_array_feconly ! (l * 11 + g) \<and> fec_array_feconly ! (l * 11 + g) \<le> 5 * int g + 5"
proof -
  let ?gs = "[5, 10, 15, 20, 25, 30, 35, 40, 45, 50, 55] :: int list"
  have "list_all2 (\<lambda>v g. 0 \<le> v \<and> v \<le> g) (feconly_rows ! l) ?gs"
    using feconly_row_values assms(1) by (simp add: list_all_length feconly_rows_length)
  from list_all2_nthD2 [OF this, of g] have "0 \<le> feconly_rows ! l ! g \<and> feconly_rows ! l ! g \<le> ?gs ! g" using assms(2) by simp
  moreover have "?gs = map (\<lambda>i. 5 * int i + 5) [0..<11]" by (simp add: upt_rec)
  then have "?gs ! g = 5 * int g + 5" using assms(2) by (simp del: upt_Suc)
  ultimately show ?thesis using feconly_nth [OF assms] by simp
qed

lemma feconly_rises:
  assumes "l \<le> l'" "l' < 51" "g < 11"
  shows "fec_array_feconly ! (l * 11 + g) \<le> fec_array_feconly ! (l' * 11 + g)"
proof -
  have "feconly_rows ! l ! g \<le> feconly_rows ! l' ! g"
    using assms(1,2)
  proof (induction l')
    case (Suc m)
    show ?case
    proof (cases "l = Suc m")
      case False
      have "list_all2 (\<le>) (feconly_rows ! m) (feconly_rows ! Suc m)"
        using feconly_rows_rise Suc.prems by (simp add: successively_conv_nth feconly_rows_length)
      moreover have "length (feconly_rows ! m) = 11" using feconly_row_length Suc.prems feconly_rows_length by simp
      ultimately have "feconly_rows ! m ! g \<le> feconly_rows ! Suc m ! g" using assms(3) by (simp add: list_all2_nthD)
      then show ?thesis using Suc False by simp
    qed simp
  qed simp
  then show ?thesis using feconly_nth assms by simp
qed

section \<open>The lookup\<close>

lemma loss_index_mono:
  assumes f: "double_ok f" and le: "x \<le> y"
  shows "\<exists>i j. grid_index f (clamp_range 0 (1 / 2) x) 0 (f (1 / 100)) = Inr i \<and>
    grid_index f (clamp_range 0 (1 / 2) y) 0 (f (1 / 100)) = Inr j \<and> uint i \<le> uint j \<and> uint j \<le> 50"
proof -
  have ro: "rounding_ok f" using f by (simp add: double_ok_def)
  obtain i j where i: "grid_index f (clamp_range 0 (1 / 2) x) 0 (f (1 / 100)) = Inr i"
    and j: "grid_index f (clamp_range 0 (1 / 2) y) 0 (f (1 / 100)) = Inr j" "uint j \<le> 50"
    using loss_index_range [OF f] by blast
  let ?q = "\<lambda>x. f (f (clamp_range 0 (1 / 2) x) / f (1 / 100))"
  have c: "clamp_range 0 (1 / 2) x \<le> clamp_range 0 (1 / 2) y" "0 \<le> clamp_range 0 (1 / 2) x"
    using le by (auto simp: clamp_range_def)
  have "0 \<le> f (1 / 100)" by (rule rounding_nonneg [OF ro]) simp
  then have "?q x \<le> ?q y" "0 \<le> ?q x"
    using c by (auto intro!: rounding_mono [OF ro] divide_right_mono rounding_nonneg [OF ro] divide_nonneg_nonneg)
  then have "0 \<le> round_away (?q x)" "round_away (?q x) \<le> round_away (?q y)" by (auto simp: round_away_def intro!: floor_mono)
  then have "uint i \<le> uint j"
    using to_word_InrD [OF i [unfolded grid_index_def]] to_word_InrD [OF j(1) [unfolded grid_index_def]] by simp
  then show ?thesis using i j by blast
qed

lemma group_index_run:
  assumes f: "double_ok f"
  shows "\<exists>n g. n < 11 \<and> grid_group_size f gs = Inr (word_of_nat (5 * n + 5)) \<and> unat g = n \<and>
    uint (word_of_nat (5 * n + 5) :: u8) = 5 * int n + 5 \<and>
    grid_index f (of_int (uint (word_of_nat (5 * n + 5) :: u8))) 5 5 = Inr g"
proof -
  obtain n where n: "n < 11" "grid_group_size f gs = Inr (word_of_nat (5 * n + 5))"
    using grid_group_size_run [OF f] by blast
  have un: "uint (word_of_nat (5 * n + 5) :: u8) = 5 * int n + 5" using u8_of_nat [of "5 * n + 5"] n(1) by simp
  have r: "rounding_ok f" using f by (simp add: double_ok_def)
  have "f (of_int (5 * int n + 5) - 5) = of_int (5 * int n)" using rounding_int [OF r, of "5 * int n"] n(1) by simp
  then have "round_away (f (f (of_int (5 * int n + 5) - 5) / 5)) = int n"
    using rounding_int [OF r, of "int n"] n(1) round_away_int [of "int n"] by simp
  then have "grid_index f (of_int (uint (word_of_nat (5 * n + 5) :: u8))) 5 5 = Inr (word_of_int (int n))"
    using to_u8 [of "int n"] n(1) unfolding grid_index_def un by simp
  moreover have "unat (word_of_int (int n) :: u8) = n" using n(1) by (simp add: unat_of_nat)
  ultimately show ?thesis using n un by blast
qed

text \<open>The lookup stays in the array, its rate is between 0 and 1, and it does not fall when the loss rate rises.\<close>

lemma feconly_rate_rises:
  assumes f: "double_ok f" and le: "loss \<le> loss'"
  shows "\<exists>r r'. get_fec_rate_feconly f loss gs = Inr r \<and> get_fec_rate_feconly f loss' gs = Inr r' \<and>
    0 \<le> r \<and> r \<le> r' \<and> r' \<le> 1"
proof -
  have ro: "rounding_ok f" using f by (simp add: double_ok_def)
  obtain i j where l: "grid_index f (clamp_range 0 (1 / 2) loss) 0 (f (1 / 100)) = Inr i"
    "grid_index f (clamp_range 0 (1 / 2) loss') 0 (f (1 / 100)) = Inr j" "uint i \<le> uint j" "uint j \<le> 50"
    using loss_index_mono [OF assms] by blast
  obtain n g where g: "n < 11" "grid_group_size f gs = Inr (word_of_nat (5 * n + 5))" "unat g = n"
    "uint (word_of_nat (5 * n + 5) :: u8) = 5 * int n + 5"
    "grid_index f (of_int (uint (word_of_nat (5 * n + 5) :: u8))) 5 5 = Inr g"
    using group_index_run [OF f] by blast
  have u: "unat i \<le> unat j" "unat j < 51" using l(3,4) unfolding unat_eq_nat_uint by linarith+
  let ?r = "\<lambda>k. f (of_int (fec_array_feconly ! (unat k * 11 + n)) / of_int (5 * int n + 5))"
  have "array_at fec_array_feconly (unat k * 11 + n) = Inr (fec_array_feconly ! (unat k * 11 + n))" if "unat k < 51" for k :: u8
    using that g(1) by (simp add: array_at_def feconly_length)
  then have "get_fec_rate_feconly f loss gs = Inr (?r i)" "get_fec_rate_feconly f loss' gs = Inr (?r j)"
    using u unfolding get_fec_rate_feconly_def l(1,2) g(2) res_bind.simps
    unfolding g(5) res_bind.simps unfolding g(3,4) by simp_all
  moreover have v: "0 \<le> fec_array_feconly ! (unat i * 11 + n)" "fec_array_feconly ! (unat j * 11 + n) \<le> 5 * int n + 5"
    "fec_array_feconly ! (unat i * 11 + n) \<le> fec_array_feconly ! (unat j * 11 + n)"
    using feconly_entry [of "unat i" n] feconly_entry [of "unat j" n] feconly_rises [of "unat i" "unat j" n] u g(1) by simp_all
  have p: "(0 :: rat) < of_int (5 * int n + 5)" by (simp only: of_int_0_less_iff)
  have "0 \<le> ?r i" using v(1) p by (intro rounding_nonneg [OF ro] divide_nonneg_pos) simp_all
  moreover have "?r i \<le> ?r j" using v(3) p by (intro rounding_mono [OF ro] divide_right_mono) (simp_all only: of_int_le_iff less_imp_le)
  moreover have "?r j \<le> 1" using v(2) p by (intro rounding_le_one [OF ro]) (simp only: divide_le_eq_1_pos of_int_le_iff)
  ultimately show ?thesis by blast
qed

end
