(* ===== verification/Experiment.thy ===== *)
theory Experiment
  imports Sender_Udp
begin

text \<open>
  What the main program \<open>scratch/fec-emulate.cc\<close> decides by itself: which application, congestion control and access point
  queue each flow gets from the bitmaps of the command line (\<open>InstallApp\<close>), and how a trace file drives the rate, the
  delay and the losses of the bottleneck (\<open>BandwidthTrace\<close>). Topologies and addresses are set up by ns-3's helpers and left out.
\<close>

unbundle bit_operations_syntax

section \<open>Flows\<close>

text \<open>\<open>NS_ABORT_MSG\<close> on an unknown queue is a fatal error. Queue 9 installs none.\<close>

datatype flow_app = GameApp | BulkApp
datatype flow_queue = NoQueue | ZhugeQueue | AbcQueue | FastAckQueue

record flow =
  fl_port :: u32
  fl_cca :: u32
  fl_tcp :: bool
  fl_app :: "flow_app option"
  fl_queue :: flow_queue
  fl_start :: time

definition queue_of :: "u32 \<Rightarrow> flow_queue res" where
  "queue_of queueOption =
     (if queueOption = 1 then Inr ZhugeQueue
      else if queueOption = 2 then Inr AbcQueue
      else if queueOption = 3 then Inr FastAckQueue
      else if queueOption = 9 then Inr NoQueue
      else Inl FatalError)"

definition app_of :: "u32 \<Rightarrow> flow_app option" where
  "app_of appOption = (if appOption = 0 then Some GameApp else if appOption = 1 then Some BulkApp else None)"

definition flow_at :: "u32 \<Rightarrow> u32 \<Rightarrow> u32 \<Rightarrow> time \<Rightarrow> u32 \<Rightarrow> flow res" where
  "flow_at queues ccas apps competeTime flowIndex =
     (let ccaOption = ccas AND 0x0000000F;
          queueOption = queues AND 0x0000000F;
          appOption = (if flowIndex = 0 then apps AND 0x0000000F else apps AND 0x000000F0);
          startTime = (if flowIndex = 0 then Seconds 1 else competeTime)
      in res_bind (queue_of queueOption) (\<lambda>q.
         Inr \<lparr>fl_port = 10000 + flowIndex, fl_cca = ccaOption, fl_tcp = (ccaOption AND 0xFC \<noteq> 0),
              fl_app = app_of appOption, fl_queue = q, fl_start = startTime\<rparr>))"

definition next_option :: "u32 \<Rightarrow> u32" where
  "next_option w = (if w AND 0xFFFFFFF0 \<noteq> 0 then drop_bit 4 w else w)"

fun InstallApp :: "nat \<Rightarrow> u32 \<Rightarrow> u32 \<Rightarrow> u32 \<Rightarrow> time \<Rightarrow> u32 \<Rightarrow> flow list res" where
  "InstallApp 0 queues ccas apps competeTime flowIndex = Inr []"
| "InstallApp (Suc n) queues ccas apps competeTime flowIndex =
     res_bind (flow_at queues ccas apps competeTime flowIndex) (\<lambda>f.
     res_bind (InstallApp n (next_option queues) (next_option ccas) apps competeTime (flowIndex + 1)) (\<lambda>fs. Inr (f # fs)))"

section \<open>The trace\<close>

definition minSetInterval :: time where "minSetInterval = MicroSeconds 13"
definition maxAllowedDiff :: time where "maxAllowedDiff = MicroSeconds 11"
definition BW_CHANGE :: u16 where "BW_CHANGE = 1"
definition DELAY_CHANGE :: u16 where "DELAY_CHANGE = 2"
definition LOSS_CHANGE :: u16 where "LOSS_CHANGE = 4"

lemmas trace_consts = minSetInterval_def maxAllowedDiff_def BW_CHANGE_def DELAY_CHANGE_def LOSS_CHANGE_def

text \<open>The file is the list of the lines after \<open>pos\<close>. A rate is in Mbps, before it is printed for the attribute.\<close>

record trace_state =
  tr_lines :: "string list"
  tr_oldDelay :: time
  tr_newDelay :: time
  tr_remain :: time

datatype setting = SetDataRate rat | SetDelay time | SetErrorRate rat

definition bit_set :: "u16 \<Rightarrow> u16 \<Rightarrow> bool" where
  "bit_set change b \<longleftrightarrow> change AND b = b"

text \<open>\<open>stod\<close> is the library's; where it throws, nobody catches. A field that is missing is read past the end of the vector.\<close>

definition first_number :: "(string \<Rightarrow> rat res) \<Rightarrow> string list \<Rightarrow> nat \<Rightarrow> string \<Rightarrow> rat res" where
  "first_number stod traceData k unit =
     (if length traceData \<le> k then Inl UndefinedBehaviour
      else res_bind (SplitString (traceData ! k) unit) (\<lambda>v. if v = [] then Inl UndefinedBehaviour else stod (v ! 0)))"

definition line_rate :: "libm \<Rightarrow> (string \<Rightarrow> rat res) \<Rightarrow> string list \<Rightarrow> rat res" where
  "line_rate M stod traceData =
     res_bind (first_number stod traceData 0 ''Mbps'') (\<lambda>x. Inr (lm_fd M (lm_fd M (x / 13) * 15)))"

definition line_delay :: "libm \<Rightarrow> (string \<Rightarrow> rat res) \<Rightarrow> string list \<Rightarrow> time res" where
  "line_delay M stod traceData =
     res_bind (first_number stod traceData 1 ''ms'') (\<lambda>x.
     res_bind (to_word (lm_fd M (lm_fd M (x / 2) - 1))) (\<lambda>ms :: u64. Inr (MilliSeconds (uint ms))))"

definition line_loss :: "(string \<Rightarrow> rat res) \<Rightarrow> string list \<Rightarrow> rat res" where
  "line_loss stod traceData = (if length traceData \<le> 2 then Inl UndefinedBehaviour else stod (traceData ! 2))"

definition apply_line :: "libm \<Rightarrow> (string \<Rightarrow> rat res) \<Rightarrow> u16 \<Rightarrow> int \<Rightarrow> string \<Rightarrow> trace_state \<Rightarrow> (setting list \<times> trace_state) res" where
  "apply_line M stod change interval line st =
     res_bind (SplitString line '' '') (\<lambda>traceData.
     res_bind (if bit_set change BW_CHANGE then res_bind (line_rate M stod traceData) (\<lambda>r. Inr [SetDataRate r]) else Inr []) (\<lambda>o1.
     res_bind (if bit_set change DELAY_CHANGE then line_delay M stod traceData else Inr (tr_newDelay st)) (\<lambda>d.
     res_bind (if bit_set change LOSS_CHANGE then res_bind (line_loss stod traceData) (\<lambda>l. Inr [SetErrorRate l]) else Inr []) (\<lambda>o2.
     Inr (o1 @ o2, st\<lparr>tr_newDelay := d, tr_remain := MilliSeconds interval\<rparr>)))))"

text \<open>The delay falls by at most \<open>maxAllowedDiff\<close> at a time, so that packets do not overtake one another.\<close>

definition smooth_delay :: "trace_state \<Rightarrow> setting \<times> bool \<times> trace_state" where
  "smooth_delay st =
     (let smoothDecrease = tr_newDelay st < tr_oldDelay st - maxAllowedDiff;
          d = (if smoothDecrease then tr_oldDelay st - maxAllowedDiff else tr_newDelay st)
      in (SetDelay d, smoothDecrease \<and> tr_remain st > minSetInterval,
          st\<lparr>tr_oldDelay := d, tr_remain := tr_remain st - minSetInterval\<rparr>))"

text \<open>One call: the settings it makes, and unless the trace is over the time to the next call with its argument.\<close>

definition BandwidthTrace :: "libm \<Rightarrow> (string \<Rightarrow> rat res) \<Rightarrow> u16 \<Rightarrow> int \<Rightarrow> bool \<Rightarrow> trace_state \<Rightarrow>
    (setting list \<times> (time \<times> bool \<times> trace_state) option) res" where
  "BandwidthTrace M stod change interval readNewLine st =
     ns_assert (maxAllowedDiff \<le> minSetInterval)
      (let line = (case tr_lines st of [] \<Rightarrow> [] | l # _ \<Rightarrow> l)
       in if readNewLine \<and> CHR '' '' \<notin> set line then Inr ([], None)
          else res_bind (if readNewLine then apply_line M stod change interval line (st\<lparr>tr_lines := tl (tr_lines st)\<rparr>)
                         else Inr ([], st)) (\<lambda>(outs, st).
            if bit_set change DELAY_CHANGE
            then case smooth_delay st of (d, again, st) \<Rightarrow>
              Inr (outs @ [d], Some (if again then tr_remain st else minSetInterval, again, st))
            else Inr (outs, Some (if readNewLine then tr_remain st else minSetInterval, readNewLine, st))))"

text \<open>The first \<open>n\<close> calls, each with its time.\<close>

fun trace_calls :: "libm \<Rightarrow> (string \<Rightarrow> rat res) \<Rightarrow> u16 \<Rightarrow> int \<Rightarrow> nat \<Rightarrow> time \<Rightarrow> bool \<Rightarrow> trace_state \<Rightarrow> (time \<times> setting list) list res" where
  "trace_calls M stod change interval 0 t rn st = Inr []"
| "trace_calls M stod change interval (Suc n) t rn st =
     res_bind (BandwidthTrace M stod change interval rn st) (\<lambda>(outs, again).
     case again of
       None \<Rightarrow> Inr [(t, outs)]
     | Some (d, rn', st') \<Rightarrow>
         res_bind (trace_calls M stod change interval n (t + d) rn' st') (\<lambda>calls. Inr ((t, outs) # calls)))"

text \<open>How \<open>main\<close> starts it.\<close>

definition main_change :: u16 where
  "main_change = BW_CHANGE AND NOT DELAY_CHANGE AND NOT LOSS_CHANGE"

definition trace_start :: "string list \<Rightarrow> trace_state" where
  "trace_start ls = \<lparr>tr_lines = ls, tr_oldDelay = 0, tr_newDelay = 0, tr_remain = 0\<rparr>"

section \<open>The options of a flow\<close>

text \<open>The hexadecimal digits of a bitmap, and the position of its highest digit that is not 0.\<close>

definition digit :: "u32 \<Rightarrow> nat \<Rightarrow> u32" where
  "digit w k = drop_bit (4 * k) w AND 15"

lemma drop_digit_less: "\<not> w < 16 \<Longrightarrow> unat (drop_bit 4 w :: u32) < unat w"
  by (simp add: drop_bit_eq_div word_less_nat_alt unat_div)

function top_digit :: "u32 \<Rightarrow> nat" where
  "top_digit w = (if w < 16 then 0 else Suc (top_digit (drop_bit 4 w)))"
  by pat_completeness auto
termination by (relation "measure unat") (auto simp: drop_digit_less)

declare top_digit.simps [simp del]

lemma and_not_mask: "w AND NOT (mask n) \<noteq> 0 \<longleftrightarrow> \<not> w < 2 ^ n" if "unat (2 ^ n :: 'a word) = 2 ^ n" for w :: "'a::len word"
proof -
  have "w AND NOT (mask n) = push_bit n (drop_bit n w)" by (rule bit_eqI) (auto simp: bit_simps)
  moreover have "push_bit n (drop_bit n w) + take_bit n w = w" by (rule bits_ident)
  moreover have "take_bit n w = w \<longleftrightarrow> w < 2 ^ n" 
    using that by (simp add: word_less_nat_alt word_unat_eq_iff unsigned_take_bit_eq take_bit_nat_eq_self_iff)
  ultimately show ?thesis by (metis add_0 add_cancel_left_left)
qed

lemma higher_digits: "w AND 0xFFFFFFF0 \<noteq> 0 \<longleftrightarrow> \<not> (w :: u32) < 16"
proof -
  have "(0xFFFFFFF0 :: u32) = NOT (mask 4)" by (simp add: mask_eq_exp_minus_1 not_eq_complement)
  then show ?thesis using and_not_mask [of 4 w] by simp
qed

lemma tcp_option: "(w AND 15) AND 0xFC \<noteq> 0 \<longleftrightarrow> 4 \<le> w AND (15 :: u32)"
proof -
  have "(15 :: u32) AND 0xFC = 15 AND NOT (mask 2)" by (simp add: mask_eq_exp_minus_1 not_eq_complement)
  then have "(w AND 15) AND 0xFC = (w AND 15) AND NOT (mask 2)" by (simp only: and.assoc)
  then show ?thesis using and_not_mask [of 2 "w AND 15"] by (simp add: not_less)
qed

lemma top_digit_zero: "w < 16 \<Longrightarrow> top_digit w = 0"
  by (subst top_digit.simps) simp

lemma top_digit_Suc: "\<not> w < 16 \<Longrightarrow> top_digit w = Suc (top_digit (drop_bit 4 w))"
  by (subst top_digit.simps) simp

lemma next_option_digits: "drop_bit (4 * min k (top_digit (next_option w))) (next_option w) = drop_bit (4 * min (Suc k) (top_digit w)) w"
proof (cases "w < 16")
  case True
  then show ?thesis by (simp add: next_option_def higher_digits top_digit_zero)
next
  case False
  then show ?thesis by (simp add: next_option_def higher_digits top_digit_Suc add.commute)
qed

lemma next_option_digit: "digit (next_option w) (min k (top_digit (next_option w))) = digit w (min (Suc k) (top_digit w))"
  by (simp add: digit_def next_option_digits)

lemma app_of_second: "app_of (apps AND 0xF0) \<noteq> Some BulkApp"
proof
  assume "app_of (apps AND 0xF0) = Some BulkApp"
  then have "apps AND 0xF0 = 1" by (simp add: app_of_def split: if_splits)
  then have "bit (apps AND 0xF0) 0" by simp
  then show False by (simp add: bit_and_iff)
qed

lemma InstallApp_flows:
  "InstallApp n queues ccas apps ct i = Inr fs \<Longrightarrow> uint i + int n \<le> 2 ^ 32 \<Longrightarrow> length fs = n \<and>
    (\<forall>k<n. fl_cca (fs ! k) = digit ccas (min k (top_digit ccas)) \<and>
       queue_of (digit queues (min k (top_digit queues))) = Inr (fl_queue (fs ! k)) \<and>
       fl_tcp (fs ! k) = (4 \<le> digit ccas (min k (top_digit ccas))) \<and>
       (uint i + int k \<noteq> 0 \<longrightarrow> fl_app (fs ! k) \<noteq> Some BulkApp \<and> fl_start (fs ! k) = ct))"
proof (induction n arbitrary: queues ccas i fs)
  case (Suc n)
  obtain f fs' where f: "flow_at queues ccas apps ct i = Inr f" "fs = f # fs'"
    "InstallApp n (next_option queues) (next_option ccas) apps ct (i + 1) = Inr fs'"
    using Suc.prems(1) by (auto dest!: res_bind_InrD)
  have d0: "digit w 0 = w AND 15" for w by (simp add: digit_def)
  have F: "fl_cca f = digit ccas 0 \<and> queue_of (digit queues 0) = Inr (fl_queue f) \<and> fl_tcp f = (4 \<le> digit ccas 0) \<and>
      (uint i \<noteq> 0 \<longrightarrow> fl_app f \<noteq> Some BulkApp \<and> fl_start f = ct)"
    using f(1) app_of_second by (cases "i = 0") (auto simp: flow_at_def Let_def d0 tcp_option dest!: res_bind_InrD)
  show ?case
  proof (cases n)
    case 0
    then show ?thesis using f F by simp
  next
    case (Suc m)
    then have i: "uint (i + 1) = uint i + 1" using Suc.prems(2) uint_plus_lt [of i 1] by simp
    have IH: "length fs' = n \<and> (\<forall>k<n. fl_cca (fs' ! k) = digit ccas (min (Suc k) (top_digit ccas)) \<and>
       queue_of (digit queues (min (Suc k) (top_digit queues))) = Inr (fl_queue (fs' ! k)) \<and>
       fl_tcp (fs' ! k) = (4 \<le> digit ccas (min (Suc k) (top_digit ccas))) \<and>
       (uint i + int (Suc k) \<noteq> 0 \<longrightarrow> fl_app (fs' ! k) \<noteq> Some BulkApp \<and> fl_start (fs' ! k) = ct))"
      using Suc.IH [OF f(3), unfolded i] Suc.prems(2) by (simp add: next_option_digit add.commute add.left_commute)
    show ?thesis
    proof (intro conjI allI impI)
      show "length fs = Suc n" using IH f(2) by simp
    qed (use IH F f(2) in \<open>auto simp: nth_Cons split: nat.splits\<close>)
  qed
qed simp

lemma flows_example:
  "InstallApp 2 0x91 0x46 0x10 (Seconds 20) 0 = Inr
    [\<lparr>fl_port = 10000, fl_cca = 6, fl_tcp = True, fl_app = Some GameApp, fl_queue = ZhugeQueue, fl_start = Seconds 1\<rparr>,
     \<lparr>fl_port = 10001, fl_cca = 4, fl_tcp = True, fl_app = None, fl_queue = NoQueue, fl_start = Seconds 20\<rparr>]"
  by code_simp

text \<open>The options of a run. Flow \<open>k\<close> of \<open>InstallApp\<close> takes the \<open>k\<close>-th hexadecimal digit of the two bitmaps for its congestion control and
  its queue, and from the highest digit that is not 0 on all flows share that digit; it uses TCP exactly for the congestion
  controls from 4 on. No flow but the first is ever a bulk transfer, which is what the competing flows are meant to be.\<close>

theorem flow_options:
  assumes "InstallApp n queues ccas apps ct 0 = Inr fs" "int n \<le> 2 ^ 32"
  shows "length fs = n \<and> (\<forall>k<n. fl_cca (fs ! k) = digit ccas (min k (top_digit ccas)) \<and>
    queue_of (digit queues (min k (top_digit queues))) = Inr (fl_queue (fs ! k)) \<and>
    fl_tcp (fs ! k) = (4 \<le> digit ccas (min k (top_digit ccas))) \<and>
    (0 < k \<longrightarrow> fl_app (fs ! k) \<noteq> Some BulkApp \<and> fl_start (fs ! k) = ct))"
  using InstallApp_flows [OF assms(1)] assms(2) by simp

theorem flow_options_witness:
  "\<exists>f g. InstallApp 2 0x91 0x46 0x10 (Seconds 20) 0 = Inr [f, g] \<and> fl_cca f = 6 \<and> fl_queue f = ZhugeQueue \<and>
     fl_cca g = 4 \<and> fl_tcp g \<and> fl_app g \<noteq> Some BulkApp"
proof -
  obtain fs where fs: "InstallApp 2 0x91 0x46 0x10 (Seconds 20) 0 = Inr fs"
    using flows_example by blast
  have td: "top_digit 0x46 = 1" "top_digit 0x91 = 1"
    by (simp_all add: top_digit_zero top_digit_Suc)
  have "digit 0x46 0 = 6" "digit 0x46 1 = 4" "digit 0x91 0 = 1" by code_simp+
  moreover have n: "length fs = 2" "\<forall>k<2. fl_cca (fs ! k) = digit 0x46 (min k 1) \<and>
      queue_of (digit 0x91 (min k 1)) = Inr (fl_queue (fs ! k)) \<and> fl_tcp (fs ! k) = (4 \<le> digit 0x46 (min k 1)) \<and>
      (0 < k \<longrightarrow> fl_app (fs ! k) \<noteq> Some BulkApp)"
    using flow_options [OF fs] by (simp_all add: td)
  moreover obtain f g where "fs = [f, g]" using n(1) by (auto simp: length_Suc_conv numeral_2_eq_2)
  ultimately show ?thesis using fs n(2) [rule_format, of 0] n(2) [rule_format, of 1] by (simp add: queue_of_def)
qed

section \<open>What the trace does to the bottleneck\<close>

lemma main_change_bits:
  "bit_set main_change BW_CHANGE" "\<not> bit_set main_change DELAY_CHANGE" "\<not> bit_set main_change LOSS_CHANGE"
  by (simp_all add: bit_set_def main_change_def trace_consts)

lemma steps_fit: "maxAllowedDiff \<le> minSetInterval"
  by (simp add: trace_consts time_defs)

definition rate_of_line :: "libm \<Rightarrow> (string \<Rightarrow> rat res) \<Rightarrow> string \<Rightarrow> rat res" where
  "rate_of_line M stod l = res_bind (SplitString l '' '') (line_rate M stod)"

lemma BandwidthTrace_rate:
  assumes "CHR '' '' \<in> set l" "rate_of_line M stod l = Inr r"
  shows "BandwidthTrace M stod main_change interval True (st\<lparr>tr_lines := l # ls\<rparr>) =
    Inr ([SetDataRate r], Some (MilliSeconds interval, True, st\<lparr>tr_lines := ls, tr_remain := MilliSeconds interval\<rparr>))"
proof -
  obtain d where d: "SplitString l '' '' = Inr d" "line_rate M stod d = Inr r"
    using assms(2) by (auto simp: rate_of_line_def dest!: res_bind_InrD)
  have "apply_line M stod main_change interval l (st\<lparr>tr_lines := ls\<rparr>) =
      Inr ([SetDataRate r], st\<lparr>tr_lines := ls, tr_remain := MilliSeconds interval\<rparr>)"
    by (simp add: apply_line_def d main_change_bits)
  then show ?thesis using assms(1) by (simp add: BandwidthTrace_def steps_fit main_change_bits)
qed

lemma BandwidthTrace_over:
  "BandwidthTrace M stod change interval True (st\<lparr>tr_lines := []\<rparr>) = Inr ([], None)"
  by (simp add: BandwidthTrace_def steps_fit)

lemma rates_replayed:
  "\<forall>l\<in>set ls. CHR '' '' \<in> set l \<and> rate_of_line M stod l = Inr (r l) \<Longrightarrow>
   trace_calls M stod main_change interval (Suc (length ls)) t True (st\<lparr>tr_lines := ls\<rparr>) =
     Inr (map (\<lambda>i. (t + int i * MilliSeconds interval, [SetDataRate (r (ls ! i))])) [0..<length ls] @
          [(t + int (length ls) * MilliSeconds interval, [])])"
proof (induction ls arbitrary: t st)
  case Nil
  then show ?case by (simp add: BandwidthTrace_over)
next
  case (Cons l ls)
  let ?I = "MilliSeconds interval"
  have order: "st\<lparr>tr_lines := ls, tr_remain := ?I\<rparr> = st\<lparr>tr_remain := ?I, tr_lines := ls\<rparr>" by simp
  have IH: "trace_calls M stod main_change interval (Suc (length ls)) (t + ?I) True (st\<lparr>tr_lines := ls, tr_remain := ?I\<rparr>) =
      Inr (map (\<lambda>i. (t + ?I + int i * ?I, [SetDataRate (r (ls ! i))])) [0..<length ls] @ [(t + ?I + int (length ls) * ?I, [])])"
    unfolding order using Cons.prems by (intro Cons.IH) auto
  have "trace_calls M stod main_change interval (Suc (length (l # ls))) t True (st\<lparr>tr_lines := l # ls\<rparr>) =
      Inr ((t, [SetDataRate (r l)]) # map (\<lambda>i. (t + ?I + int i * ?I, [SetDataRate (r (ls ! i))])) [0..<length ls] @
        [(t + ?I + int (length ls) * ?I, [])])"
    using BandwidthTrace_rate [of l M stod "r l" interval ls st] Cons.prems
    by (simp del: trace_calls.simps add: trace_calls.simps(2) [of _ _ _ _ "Suc (length ls)"] IH)
  also have "\<dots> = Inr (map (\<lambda>i. (t + int i * ?I, [SetDataRate (r ((l # ls) ! i))])) [0..<length (l # ls)] @
      [(t + int (length (l # ls)) * ?I, [])])"
    by (simp add: upt_conv_Cons map_Suc_upt [symmetric] algebra_simps del: upt_Suc)
  finally show ?case .
qed

text \<open>C38: how a trace is replayed in the way \<open>main\<close> starts it. Line \<open>i\<close> of the trace sets the rate of the bottleneck after \<open>i\<close> intervals, nothing
  else is changed, and the first call after the last line ends it.\<close>

theorem bandwidth_trace_replayed:
  assumes "\<forall>l\<in>set ls. CHR '' '' \<in> set l \<and> rate_of_line M stod l = Inr (r l)"
  shows "trace_calls M stod main_change interval (Suc (length ls)) 0 True (trace_start ls) =
    Inr (map (\<lambda>i. (int i * MilliSeconds interval, [SetDataRate (r (ls ! i))])) [0..<length ls] @
         [(int (length ls) * MilliSeconds interval, [])])"
  using rates_replayed [OF assms, of interval 0 "trace_start ls"] by (simp add: trace_start_def del: trace_calls.simps)

text \<open>\<open>stod\<close> on a number without a point.\<close>

definition trace_stod :: "string \<Rightarrow> rat res" where
  "trace_stod s = (if s \<noteq> [] \<and> list_all (\<lambda>c. 48 \<le> (of_char c :: int) \<and> of_char c \<le> (57 :: int)) s
     then Inr (of_int (foldl (\<lambda>a c. 10 * a + of_char c - 48) 0 s)) else Inl FatalError)"

lemma split_example:
  "SplitString ''13Mbps 20ms'' '' '' = Inr [''13Mbps'', ''20ms'']" "SplitString ''26Mbps 30ms'' '' '' = Inr [''26Mbps'', ''30ms'']"
  "SplitString ''13Mbps'' ''Mbps'' = Inr [''13'']" "SplitString ''26Mbps'' ''Mbps'' = Inr [''26'']" "SplitString ''20ms'' ''ms'' = Inr [''20'']"
  by code_simp+

lemma stod_example: "trace_stod ''13'' = Inr 13" "trace_stod ''26'' = Inr 26" "trace_stod ''20'' = Inr 20"
  by (simp_all add: trace_stod_def)

lemma rate_example:
  "line_rate plain_libm trace_stod [''13Mbps'', ''20ms''] = Inr 15" "line_rate plain_libm trace_stod [''26Mbps'', ''30ms''] = Inr 30"
  by (simp_all add: line_rate_def first_number_def split_example stod_example plain_libm_def)

lemma lines_example:
  "rate_of_line plain_libm trace_stod ''13Mbps 20ms'' = Inr 15" "rate_of_line plain_libm trace_stod ''26Mbps 30ms'' = Inr 30"
  by (simp_all add: rate_of_line_def split_example rate_example)

lemma delay_example: "line_delay plain_libm trace_stod [''13Mbps'', ''20ms''] = Inr 9000000"
  by (simp add: line_delay_def first_number_def split_example stod_example plain_libm_def to_word_def trunc_def time_defs)

theorem bandwidth_trace_replayed_witness:
  "trace_calls plain_libm trace_stod main_change 16 3 0 True (trace_start [''13Mbps 20ms'', ''26Mbps 30ms'']) =
    Inr [(0, [SetDataRate 15]), (16000000, [SetDataRate 30]), (32000000, [])]"
proof -
  let ?ls = "[''13Mbps 20ms'', ''26Mbps 30ms'']" and ?r = "\<lambda>l. if l = ''13Mbps 20ms'' then 15 else 30"
  have "\<forall>l\<in>set ?ls. CHR '' '' \<in> set l \<and> rate_of_line plain_libm trace_stod l = Inr (?r l)"
    using lines_example by simp
  then show ?thesis using bandwidth_trace_replayed [of ?ls plain_libm trace_stod ?r 16]
    by (simp add: numeral_3_eq_3 time_defs del: trace_calls.simps)
qed

text \<open>C39: with changes of the delay the trace stops at its first line. Since the delay starts at 0, the first line does not lower it; a call that does not
  lower the delay reads no further line, and neither does any call after it: every 13 microseconds the same delay is set again.\<close>

theorem delay_trace_stalls:
  assumes "bit_set change DELAY_CHANGE" "CHR '' '' \<in> set l"
    and "apply_line M stod change interval l (trace_start ls) = Inr (outs, st)" "0 \<le> tr_newDelay st"
  shows "trace_calls M stod change interval (Suc n) 0 True (trace_start (l # ls)) =
    Inr ((0, outs @ [SetDelay (tr_newDelay st)]) #
         map (\<lambda>i. (MicroSeconds 13 * int (Suc i), [SetDelay (tr_newDelay st)])) [0..<n])"
proof -
  have keep: "tr_oldDelay st = 0"
    using assms(3) by (auto simp: apply_line_def trace_start_def dest!: res_bind_InrD)
  have stay: "trace_calls M stod change interval n t False s =
      Inr (map (\<lambda>i. (t + MicroSeconds 13 * int i, [SetDelay (tr_newDelay s)])) [0..<n])"
    if "tr_oldDelay s = tr_newDelay s" for t s
    using that
  proof (induction n arbitrary: t s)
    case (Suc n)
    let ?s = "s\<lparr>tr_remain := tr_remain s - minSetInterval\<rparr>"
    have "BandwidthTrace M stod change interval False s = Inr ([SetDelay (tr_newDelay s)], Some (minSetInterval, False, ?s))"
      using Suc.prems assms(1) by (simp add: BandwidthTrace_def steps_fit smooth_delay_def Let_def trace_consts time_defs)
    then have "trace_calls M stod change interval (Suc n) t False s =
        Inr ((t, [SetDelay (tr_newDelay s)]) # map (\<lambda>i. (t + minSetInterval + MicroSeconds 13 * int i, [SetDelay (tr_newDelay s)])) [0..<n])"
      using Suc.IH [of ?s "t + minSetInterval"] Suc.prems by simp
    then show ?case by (simp add: upt_conv_Cons map_Suc_upt [symmetric] minSetInterval_def algebra_simps del: upt_Suc)
  qed simp
  let ?s = "st\<lparr>tr_oldDelay := tr_newDelay st, tr_remain := tr_remain st - minSetInterval\<rparr>"
  have "(trace_start (l # ls))\<lparr>tr_lines := ls\<rparr> = trace_start ls" by (simp add: trace_start_def)
  then have "BandwidthTrace M stod change interval True (trace_start (l # ls)) =
      Inr (outs @ [SetDelay (tr_newDelay st)], Some (minSetInterval, False, ?s))"
    using assms keep
    by (simp add: BandwidthTrace_def steps_fit smooth_delay_def Let_def trace_start_def trace_consts time_defs)
  then show ?thesis using stay [of ?s minSetInterval]
    by (simp add: minSetInterval_def algebra_simps)
qed

theorem delay_trace_stalls_witness:
  "trace_calls plain_libm trace_stod (BW_CHANGE OR DELAY_CHANGE) 16 3 0 True (trace_start [''13Mbps 20ms'', ''26Mbps 30ms'']) =
    Inr [(0, [SetDataRate 15, SetDelay 9000000]), (13000, [SetDelay 9000000]), (26000, [SetDelay 9000000])]"
proof -
  let ?c = "BW_CHANGE OR DELAY_CHANGE"
  have "bit_set ?c DELAY_CHANGE" by (simp add: bit_set_def trace_consts)
  moreover have "apply_line plain_libm trace_stod ?c 16 ''13Mbps 20ms'' (trace_start [''26Mbps 30ms'']) =
      Inr ([SetDataRate 15], (trace_start [''26Mbps 30ms''])\<lparr>tr_newDelay := 9000000, tr_remain := 16000000\<rparr>)"
    by (simp add: apply_line_def split_example rate_example delay_example bit_set_def trace_consts trace_start_def time_defs)
  moreover have "[0..<2] = [0, 1 :: nat]" by (simp add: upt_rec)
  ultimately show ?thesis
    using delay_trace_stalls [of ?c "''13Mbps 20ms''" plain_libm trace_stod 16 "[''26Mbps 30ms'']" _ _ 2]
    by (simp add: numeral_3_eq_3 time_defs del: trace_calls.simps)
qed

end
