(* ===== verification/Spec2Isabelle.thy ===== *)
theory Spec2Isabelle
  imports Zhuge_Queue Packet_Group Video_Decoder Cc_Base Copa Receiver_Udp Fec_Delivery Game_App Controllers Policy_Frames
    Abc_Queue Fast_Ack Abc_Loop Feedback_Loop Hairpin_Estimate Feconly_Table Experiment
begin

text \<open>
  This library models the C++ sources that the Zhuge project adds to ns-3.34 (\<open>src/ns-3.34-diff/src\<close>): a real-time
  video stream from a server to a client, and the wireless access point between them that feeds congestion back to the
  sender before the queue in front of the client has drained.

  \<^bold>\<open>The program.\<close> A \<open>GameServer\<close> encodes video frames and hands each to its sender. The UDP sender cuts the frame into
  packets, groups them, adds FEC packets as its policy says, and sends them as its congestion controller allows; the TCP
  sender writes the frame into a byte stream whose window Copa or ABC controls. The access point sees data packets on
  the wired side and acknowledgements on the wireless side. Zhuge's access point predicts the delay of the queue, and
  either holds TCP acknowledgements back by the change of that delay or sends the UDP sender a report in the client's name; the
  access points of ABC and of Fast ACK are the two it is compared with. The client's receiver collects groups, recovers
  lost packets, reports receive times and losses, and hands frames to the decoder, which plays them in order and
  acknowledges them to the server.

  \<^bold>\<open>Theories\<close>, in the order in which they build on one another. Paths are below \<open>src/ns-3.34-diff/src\<close>;
  \<open>B\<close> stands for \<open>bitrate-ctrl/model\<close> and \<open>Z\<close> for \<open>zhuge/model\<close>.

  \<^item> \<open>Prelude\<close>: machine integers, time, outcomes (\<open>'a res\<close>), double arithmetic with an explicit rounding, deques trimmed from the
    front, and the comparison of sequence numbers that wrap (\<open>lessThan\<close>, which the code writes three times).
  \<^item> \<open>Delta_Delay\<close>: \<open>Z/delta-delay\<close>. The two histories from which the delay of an acknowledgement is sampled; locale
    \<open>delay_source\<close>. Lemmas: the tokens a sample charges, the range of a sample, the age of the histories.
  \<^item> \<open>Wire\<close> and \<open>Net_Packet\<close>: \<open>B/network-packet-header\<close> and \<open>B/network-packet\<close>. Headers as byte lists, one \<open>_Serialize\<close> and
    \<open>_Deserialize\<close> per header (locale \<open>wire_header\<close>), packets as a sum of records, \<open>ToNetPacket\<close> and \<open>ToInstance\<close>. Lemmas: round
    trips, sizes.
  \<^item> \<open>Zhuge_Queue\<close>: \<open>Z/network-queue-zhuge\<close>. \<open>UpdateTxRate\<close>, \<open>CalculateTotalDelayMs\<close>, the two callbacks and \<open>Sendback\<close>, as
    functions on the record \<open>zhuge\<close>, and the step relation \<open>zstep\<close> of the access point with its reachable states.
  \<^item> \<open>Abc_Queue\<close>: \<open>Z/network-queue-abc\<close>. The locale \<open>byte_window\<close> states what a timer that counts bytes promises; both
    access points interpret it, and what their rates measure over a run is proved once in it.
  \<^item> \<open>Fast_Ack\<close>: \<open>Z/network-queue-fastack\<close>. Made-up acknowledgements, the cache and local retransmissions; runs are lists
    of events.
  \<^item> \<open>Packet_Group\<close>: \<open>B/fec-policy/packet-group\<close>. Batches and groups, and recovery from FEC packets.
  \<^item> \<open>Video_Decoder\<close>: \<open>B/video-decoder\<close>. Frames, the playback order and the acknowledgements of frames.
  \<^item> \<open>Cc_Base\<close>: \<open>B/congestion-control/sender-based-controller\<close>. Packets in transit, the history, loss and delay metrics, and
    the tapped filters; the reachable states of a sender that numbers its packets consecutively.
  \<^item> \<open>Gcc\<close>, \<open>Gcc_Rate\<close>: \<open>gcc-controller\<close>. The trend line, the detector with its adaptive threshold, the rate control
    and the loss based control. \<open>Nada\<close>: \<open>nada-controller\<close> and \<open>dummy-controller\<close>. \<open>Controllers\<close>: the virtual calls of the
    sender, with the locale \<open>rate_controller\<close>.
  \<^item> \<open>Copa\<close>, \<open>Tcp_Abc\<close>: \<open>internet/model/tcp-copa\<close> and \<open>tcp-abc\<close>, on the fields of the socket state they use.
  \<^item> \<open>Abc_Loop\<close>: the parts of \<open>src/ns-diff.patch\<close> that carry ABC's marks (\<open>Ipv4Interface\<close>, \<open>TcpSocketBase\<close>), and the loop of access
    point, interface, receiver and sender over runs of timer and packets.
  \<^item> \<open>Receiver_Udp\<close>: \<open>B/packet-receiver-udp\<close> and its base class. The tables of groups, the reception record and the feedback.
  \<^item> \<open>Sender_Udp\<close>, \<open>Sender_Window\<close>: \<open>B/packet-sender-udp\<close> and its base class. Packets live on an explicit heap, since the
    same packet object is in a queue, a history and a group at once. \<open>Fec_Delivery\<close>: sender and receiver together.
  \<^item> \<open>Fec_Table\<close>, \<open>Fec_Policy\<close>, \<open>Policy_Frames\<close>: \<open>B/fec-policy\<close>. The WebRTC array, the lookups and the policies, the
    locales \<open>fec_policy\<close> and \<open>protecting_policy\<close>, and what a policy makes of a frame in the sender. \<open>Feconly_Table\<close>,
    \<open>Fec_Chain\<close>, \<open>Hairpin_Estimate\<close>: an array and the Markov model of Hairpin's policy, which the repository documents but never calls.
  \<^item> \<open>Tcp_Stream\<close>: \<open>B/packet-sender-tcp\<close> and \<open>B/packet-receiver-tcp\<close>.
  \<^item> \<open>Feedback_Loop\<close>: the report of the receiver, or of Zhuge's access point, from the state it is made from over the wire into
    the statistics of the sender.
  \<^item> \<open>Game_App\<close>: \<open>B/video-encoder\<close>, \<open>B/game-server\<close> and \<open>B/game-client\<close>.
  \<^item> \<open>Experiment\<close>: \<open>InstallApp\<close> and \<open>BandwidthTrace\<close> of the main program \<open>src/ns-3.34-diff/scratch/fec-emulate.cc\<close>.

  \<^bold>\<open>Conventions.\<close> A class is a record with the members' names (prefixed where two classes share one); a method is a
  function from the state to \<open>'a res\<close>. \<open>Inl\<close> is a call that does not return a value: a failed assertion, a fatal error, a null
  pointer, an index that \<open>at\<close> rejects, undefined behaviour, or a loop that never ends. A \<open>Time\<close> is an integer of
  nanoseconds; integers keep their C++ width. A double is a rational, and every operation on doubles applies a
  rounding function that is an argument; the proofs use that it is monotone and leaves small integers (\<open>rounding_ok\<close>) or
  short binary fractions (\<open>float_ok\<close>) unchanged, which every IEEE 754 rounding does. Values that may be infinite
  or not a number are \<open>fp\<close> or options. A deque or vector is a list, front first; an unordered map is an association list.
  Memory that no constructor sets is an argument named \<open>raw\<close> or \<open>junk\<close>. Packets sent and events scheduled are outputs of the step;
  what ns-3 provides (the clock, random numbers, sockets, queues, buffers, windowed filters) is an argument.

  \<^bold>\<open>Properties\<close>, by group. Access points: acknowledgements leave in order and within 10 ms, sampled delays are paid
  for by tokens, rates measure what left the queue, Fast ACK acknowledges only what it has recorded, a full queue
  brakes every packet of an ABC sender. Recovery and delivery:
  any \<open>n\<close> packets of a group of \<open>n\<close> data packets give the decoder all of them once, TCP frames arrive in order, frames
  play in order and complete. Feedback: the loss sequence that reaches the sender expands to what arrived, a report of the access
  point tells the sender the rate measured there, the reception record stays ordered, loss metrics count exactly what is missing. Controllers: where they abort on a
  sender that numbers its packets gaplessly is stated exactly, and their rates and windows stay within their bounds. Policies: lookups stay
  in their arrays, every frame is protected as the policy promises, and the estimate of Hairpin's policy has a closed form in
  exact arithmetic. Experiments: how a trace is replayed. The remaining ones show where the code does not
  do what it is meant to, each as a theorem about the model.

  \<^bold>\<open>Bounds and fuel.\<close> No definition carries fuel. Loops over containers recurse on the list they consume; the others are \<open>function\<close>s
  with a measure or partial functions into \<open>option\<close> (\<open>frame_chunks\<close>, which never ends for a payload of 0). Where C++ can loop for
  ever the model returns \<open>Inl Diverges\<close>. The rate of Zhuge's access point is stated modulo \<open>2 ^ 32\<close>, as the code computes it; the
  statement about ABC's rates carries the bound that its 32-bit products do not wrap.

  \<^bold>\<open>Not modelled.\<close> Topology, addresses, routing and command line of the experiment program, which are calls of ns-3 helpers, and
  the scripts; the base class of the access points, which has no operation; \<open>rtc_base\<close>, support code copied from WebRTC; the lookup of
  devices in the \<open>InitSocket\<close> methods, printing, logging, and registration with ns-3. The arrays of \<open>fec-array.h\<close>, a
  file the repository leaves out, are arguments. Of \<open>src/ns-diff.patch\<close> only the marks of ABC are modelled: the rest changes single
  statements inside functions of ns-3 (round trip estimation, pacing, devices, WiFi queues and managers) that the repository does
  not contain, so their behaviour cannot be translated; what the sources read from them (\<open>MyPeek\<close>, \<open>m_PacketList\<close>) is an argument.
\<close>

end
